(* ===== verification/JsPrelude.thy ===== *)
theory JsPrelude
  imports Complex_Main "HOL-Library.Word"
begin

text \<open>
  The prelude of the development: the JavaScript values the source computes with and the generic
  lemmas its components share.

  A JavaScript string is a sequence of UTF-16 code units, so \<open>jsstring\<close> is a list of natural
  numbers; \<open>js ''abc''\<close> is the string of an ASCII literal.  White space is the exact set that
  \<^verbatim>\<open>String.prototype.trim\<close> and the regular-expression class \<^verbatim>\<open>\s\<close> use.  A regular
  expression of the source becomes a predicate on strings: \<open>matches_seq\<close> is an anchored sequence of
  one-character classes, \<open>matches_all\<close> an anchored repetition of one class.

  Results that may throw are sums whose left side is the error.

  The locale \<open>invariant_system\<close> is the shared run argument: an operation that keeps an invariant
  keeps it over every sequence of operations.  Each stateful component interprets it.
\<close>

named_theorems js_eval \<open>definitions unfolded to evaluate a concrete input\<close>

section \<open>Strings\<close>

type_synonym code_unit = nat
type_synonym jsstring = "code_unit list"
type_synonym buffer = "8 word list"

definition js :: "string \<Rightarrow> jsstring" where
  "js s = map of_char s"

lemma js_Nil [simp]: "js [] = []"
  by (simp add: js_def)

lemma js_Cons: "js (c # cs) = of_char c # js cs"
  by (simp add: js_def)

lemma js_eq: "js a = js b \<longleftrightarrow> a = b"
proof
  assume "js a = js b"
  then show "a = b" unfolding js_def by (rule map_injective) (simp add: inj_def)
qed simp

lemma length_js [simp]: "length (js s) = length s"
  by (simp add: js_def)

declare js_def [js_eval]

definition js_ws :: "code_unit \<Rightarrow> bool" where
  "js_ws c \<longleftrightarrow> (9 \<le> c \<and> c \<le> 13) \<or> c = 32 \<or> c = 160 \<or> c = 5760 \<or> (8192 \<le> c \<and> c \<le> 8202) \<or>
     c = 8232 \<or> c = 8233 \<or> c = 8239 \<or> c = 8287 \<or> c = 12288 \<or> c = 65279"

declare js_ws_def [js_eval]

definition trim_both :: "('a \<Rightarrow> bool) \<Rightarrow> 'a list \<Rightarrow> 'a list" where
  "trim_both p xs = rev (dropWhile p (rev (dropWhile p xs)))"

definition js_trim :: "jsstring \<Rightarrow> jsstring" where
  "js_trim = trim_both js_ws"

declare trim_both_def [js_eval] js_trim_def [js_eval]

text \<open>A string is trimmed when neither end has the trimmed class.\<close>

definition trimmed :: "('a \<Rightarrow> bool) \<Rightarrow> 'a list \<Rightarrow> bool" where
  "trimmed p xs \<longleftrightarrow> (xs \<noteq> [] \<longrightarrow> \<not> p (hd xs) \<and> \<not> p (last xs))"

lemma dropWhile_rev_hd:
  assumes "xs \<noteq> []" and "\<not> p (hd xs)"
  shows "rev (dropWhile p (rev xs)) \<noteq> [] \<and> hd (rev (dropWhile p (rev xs))) = hd xs"
proof -
  obtain y ys where xs: "xs = y # ys" using assms(1) by (cases xs) auto
  have "dropWhile p (rev ys @ [y]) = dropWhile p (rev ys) @ [y]"
    using assms(2) xs by (induction "rev ys" rule: rev_induct) (auto simp: dropWhile_append)
  then show ?thesis using xs by simp
qed

lemma trimmed_trim_both: "trimmed p (trim_both p xs)"
proof (cases "dropWhile p xs = []")
  case True
  then have "trim_both p xs = []" by (simp only: trim_both_def) simp
  then show ?thesis by (simp add: trimmed_def)
next
  case False
  let ?ys = "dropWhile p xs"
  from False have "\<not> p (hd ?ys)" by (rule hd_dropWhile)
  with False have h: "trim_both p xs \<noteq> [] \<and> hd (trim_both p xs) = hd ?ys"
    unfolding trim_both_def by (rule dropWhile_rev_hd)
  then have "dropWhile p (rev ?ys) \<noteq> []"
    by (auto simp: trim_both_def)
  then have "\<not> p (hd (dropWhile p (rev ?ys)))" by (rule hd_dropWhile)
  then have "\<not> p (last (trim_both p xs))"
    by (simp add: trim_both_def last_rev)
  with h \<open>\<not> p (hd ?ys)\<close> show ?thesis by (simp add: trimmed_def)
qed

lemma trim_both_trimmed: "trimmed p xs \<Longrightarrow> trim_both p xs = xs"
proof (cases xs)
  case Nil
  then show ?thesis by (simp add: trim_both_def)
next
  case (Cons y ys)
  assume t: "trimmed p xs"
  with Cons have d: "dropWhile p xs = xs" by (simp add: trimmed_def)
  have "rev xs \<noteq> []" and "hd (rev xs) = last xs" using Cons by (simp_all add: hd_rev)
  with t Cons have "dropWhile p (rev xs) = rev xs"
    by (cases "rev xs") (auto simp: trimmed_def)
  with d show ?thesis by (simp add: trim_both_def)
qed

lemma trim_both_idem [simp]: "trim_both p (trim_both p xs) = trim_both p xs"
  by (rule trim_both_trimmed [OF trimmed_trim_both])

lemma js_trim_idem [simp]: "js_trim (js_trim s) = js_trim s"
  by (simp add: js_trim_def)

lemma set_trim_both: "set (trim_both p xs) \<subseteq> set xs"
  unfolding trim_both_def by (auto dest!: set_dropWhileD)

lemma length_trim_both: "length (trim_both p xs) \<le> length xs"
  unfolding trim_both_def by (metis length_dropWhile_le length_rev le_trans)

lemma trim_both_Nil_iff: "trim_both p xs = [] \<longleftrightarrow> (\<forall>x \<in> set xs. p x)"
  unfolding trim_both_def
  by (auto simp: dropWhile_eq_Nil_conv dest: set_dropWhileD)
     (metis dropWhile_eq_Nil_conv hd_dropWhile hd_in_set)

definition lower_ascii :: "jsstring \<Rightarrow> jsstring" where
  "lower_ascii = map (\<lambda>c. if 65 \<le> c \<and> c \<le> 90 then c + 32 else c)"

declare lower_ascii_def [js_eval]

lemma lower_ascii_idem [simp]: "lower_ascii (lower_ascii s) = lower_ascii s"
  by (auto simp: lower_ascii_def)

text \<open>\<^verbatim>\<open>s.includes(w)\<close>, \<^verbatim>\<open>s.endsWith(w)\<close>.\<close>

definition contains_text :: "jsstring \<Rightarrow> jsstring \<Rightarrow> bool" where
  "contains_text w s \<longleftrightarrow> list_ex (\<lambda>i. take (length w) (drop i s) = w) [0..<Suc (length s)]"

definition js_ends :: "jsstring \<Rightarrow> jsstring \<Rightarrow> bool" where
  "js_ends w s \<longleftrightarrow> length w \<le> length s \<and> drop (length s - length w) s = w"

section \<open>Lists of a known length\<close>

lemma length_2E:
  assumes "length xs = Suc (Suc 0)"
  obtains a b where "xs = [a, b]"
  using assms by (metis length_0_conv length_Suc_conv)

lemma length_3E:
  assumes "length xs = Suc (Suc (Suc n))"
  obtains a b c r where "xs = a # b # c # r" and "length r = n"
  using assms by (metis length_Suc_conv)

lemma length_16E:
  assumes "length xs = 16"
  obtains v0 v1 v2 v3 v4 v5 v6 v7 v8 v9 v10 v11 v12 v13 v14 v15 where
    "xs = [v0, v1, v2, v3, v4, v5, v6, v7, v8, v9, v10, v11, v12, v13, v14, v15]"
  using assms by (auto simp: numeral_eq_Suc length_Suc_conv)

text \<open>A separator that occurs in neither prefix splits a string in one way.\<close>

lemma append_sep_inj:
  "z \<notin> set a \<Longrightarrow> z \<notin> set b \<Longrightarrow> a @ z # x = b @ z # y \<Longrightarrow> a = b \<and> x = y"
  by (induction a arbitrary: b) (auto simp: Cons_eq_append_conv)

section \<open>Character classes and anchored regular expressions\<close>

definition is_digit :: "code_unit \<Rightarrow> bool" where
  "is_digit c \<longleftrightarrow> 48 \<le> c \<and> c \<le> 57"

definition is_hex_lower :: "code_unit \<Rightarrow> bool" where
  "is_hex_lower c \<longleftrightarrow> is_digit c \<or> (97 \<le> c \<and> c \<le> 102)"

definition is_hex_ci :: "code_unit \<Rightarrow> bool" where
  "is_hex_ci c \<longleftrightarrow> is_hex_lower c \<or> (65 \<le> c \<and> c \<le> 70)"

definition is_base64url :: "code_unit \<Rightarrow> bool" where
  "is_base64url c \<longleftrightarrow> (65 \<le> c \<and> c \<le> 90) \<or> (97 \<le> c \<and> c \<le> 122) \<or> is_digit c \<or> c = 95 \<or> c = 45"

declare is_digit_def [js_eval] is_hex_lower_def [js_eval] is_hex_ci_def [js_eval] is_base64url_def [js_eval]

fun matches_seq :: "('a \<Rightarrow> bool) list \<Rightarrow> 'a list \<Rightarrow> bool" where
  "matches_seq [] s = (s = [])"
| "matches_seq (p # ps) [] = False"
| "matches_seq (p # ps) (c # s) = (p c \<and> matches_seq ps s)"

definition matches_all :: "('a \<Rightarrow> bool) \<Rightarrow> nat \<Rightarrow> 'a list \<Rightarrow> bool" where
  "matches_all p n s \<longleftrightarrow> length s = n \<and> list_all p s"

declare matches_all_def [js_eval]

lemma matches_seq_length: "matches_seq ps s \<Longrightarrow> length s = length ps"
  by (induction ps s rule: matches_seq.induct) auto

lemma matches_seq_append:
  "length s = length ps \<Longrightarrow> matches_seq (ps @ qs) (s @ t) \<longleftrightarrow> matches_seq ps s \<and> matches_seq qs t"
  by (induction ps s rule: matches_seq.induct) auto

lemma matches_seq_replicate: "matches_seq (replicate n p) s \<longleftrightarrow> matches_all p n s"
proof (induction n arbitrary: s)
  case 0
  then show ?case by (auto simp: matches_all_def)
next
  case (Suc n)
  then show ?case by (cases s) (auto simp: matches_all_def)
qed

text \<open>
  The pattern the source writes in five places for a version 4 UUID, case-insensitively:
  \<^verbatim>\<open>/^[0-9a-f]{8}-[0-9a-f]{4}-4[0-9a-f]{3}-[89ab][0-9a-f]{3}-[0-9a-f]{12}$/i\<close>.
\<close>

definition uuid_v4_pattern :: "(code_unit \<Rightarrow> bool) list" where
  "uuid_v4_pattern =
     replicate 8 is_hex_ci @ [\<lambda>c. c = 45] @ replicate 4 is_hex_ci @ [\<lambda>c. c = 45] @
     [\<lambda>c. c = 52] @ replicate 3 is_hex_ci @ [\<lambda>c. c = 45] @
     [\<lambda>c. c = 56 \<or> c = 57 \<or> c = 97 \<or> c = 98 \<or> c = 65 \<or> c = 66] @ replicate 3 is_hex_ci @ [\<lambda>c. c = 45] @
     replicate 12 is_hex_ci"

lemma replicate_literal:
  "replicate 3 x = [x, x, x]" "replicate 4 x = [x, x, x, x]"
  "replicate 8 x = [x, x, x, x, x, x, x, x]"
  "replicate 12 x = [x, x, x, x, x, x, x, x, x, x, x, x]"
  by (simp_all add: numeral_eq_Suc)

definition is_uuid_v4 :: "jsstring \<Rightarrow> bool" where
  "is_uuid_v4 s \<longleftrightarrow> matches_seq uuid_v4_pattern s"

lemma is_uuid_v4_length: "is_uuid_v4 s \<Longrightarrow> length s = 36"
  by (auto simp: is_uuid_v4_def uuid_v4_pattern_def dest: matches_seq_length)

section \<open>Tables\<close>

text \<open>
  A database table is a list of rows.  \<open>sql_update p f\<close> is an \<^verbatim>\<open>UPDATE\<close> of the rows in
  \<open>p\<close>, with the number of rows it touched; \<open>delete_first n victim key\<close> is the
  \<^verbatim>\<open>DELETE\<close> of the first \<open>n\<close> rows in \<open>victim\<close> by ascending \<open>key\<close> that the source
  writes as a \<^verbatim>\<open>WITH ... ORDER BY ... LIMIT\<close> statement.
\<close>

definition sql_update :: "('r \<Rightarrow> bool) \<Rightarrow> ('r \<Rightarrow> 'r) \<Rightarrow> 'r list \<Rightarrow> 'r list \<times> nat" where
  "sql_update p f rows = (map (\<lambda>r. if p r then f r else r) rows, length (filter p rows))"

definition delete_first :: "nat \<Rightarrow> ('r \<Rightarrow> bool) \<Rightarrow> ('r \<Rightarrow> 'k::linorder) \<Rightarrow> 'r list \<Rightarrow> 'r list \<times> nat" where
  "delete_first n victim key rows =
     (let gone = take n (sort_key key (filter victim rows)) in
      (filter (\<lambda>r. r \<notin> set gone) rows, length gone))"

lemma delete_first_subset: "set (fst (delete_first n v k rows)) \<subseteq> set rows"
  by (auto simp: delete_first_def Let_def)

lemma delete_first_keeps: "r \<in> set rows \<Longrightarrow> \<not> v r \<Longrightarrow> r \<in> set (fst (delete_first n v k rows))"
  by (auto simp: delete_first_def Let_def dest: in_set_takeD)

lemma distinct_map_filter_rows: "distinct (map f rows) \<Longrightarrow> distinct (map f (filter p rows))"
  by (rule distinct_map_filter)

lemma delete_first_distinct: "distinct (map f rows) \<Longrightarrow> distinct (map f (fst (delete_first n v k rows)))"
  by (simp add: delete_first_def Let_def distinct_map_filter_rows)

lemma delete_first_limit: "snd (delete_first n v k rows) \<le> n"
  by (simp add: delete_first_def Let_def)

section \<open>Runs\<close>

text \<open>
  A component with state is a step function that answers each event with an outcome.  A run
  records the events with their outcomes, oldest first.  An invariant may speak about that log.
\<close>

fun run_log :: "('s \<Rightarrow> 'e \<Rightarrow> 's \<times> 'o) \<Rightarrow> 's \<Rightarrow> 'e list \<Rightarrow> ('e \<times> 'o) list \<times> 's" where
  "run_log step s [] = ([], s)"
| "run_log step s (e # es) =
     (let (s1, out) = step s e; (hist, s2) = run_log step s1 es in ((e, out) # hist, s2))"

lemma run_events [simp]: "map fst (fst (run_log step s es)) = es"
  by (induction es arbitrary: s) (auto simp: Let_def split: prod.splits, metis fst_conv)

text \<open>A run in two parts, a part of a run, and a point of its log as a point of the run.\<close>

lemma run_log_append:
  "run_log step s (es @ fs) = (case run_log step s es of (l, t) \<Rightarrow> case run_log step t fs of (l', u) \<Rightarrow> (l @ l', u))"
  by (induction es arbitrary: s) (auto simp: Let_def split: prod.splits)

lemma run_log_length: "run_log step s es = (l, t) \<Longrightarrow> length l = length es"
  using run_events [of step s es] by (metis fst_conv length_map)

lemma run_log_take: "fst (run_log step s (take n es)) = take n (fst (run_log step s es))"
proof (induction es arbitrary: s n)
  case (Cons e es)
  then show ?case by (cases n) (auto simp: Let_def split: prod.splits, metis fst_conv)
qed simp

lemma run_log_split:
  assumes "run_log step s es = (h1 @ (e, out) # h2, t)"
  obtains s1 s2 where "run_log step s (map fst h1) = (h1, s1)" "step s1 e = (s2, out)"
    "run_log step s2 (map fst h2) = (h2, t)"
  using assms
proof (induction h1 arbitrary: s es thesis)
  case Nil
  then obtain es' where es: "es = e # es'" using run_events [of step s es] by (cases es) (auto simp: Let_def split: prod.splits)
  obtain s2 o' where st: "step s e = (s2, o')" by force
  obtain l u where rn: "run_log step s2 es' = (l, u)" by force
  have "o' = out" "l = h2" "u = t" using Nil(2) es st rn by auto
  moreover have "map fst l = es'" using run_events [of step s2 es'] rn by simp
  ultimately show ?case using Nil(1) [of s s2] st rn by simp
next
  case (Cons x h1)
  obtain e0 o0 where x: "x = (e0, o0)" by force
  from Cons.prems(2) obtain es' where es: "es = e0 # es'"
    using run_events [of step s es] x by (cases es) (auto simp: Let_def split: prod.splits)
  obtain s1 o' where st: "step s e0 = (s1, o')" by force
  obtain l u where rn: "run_log step s1 es' = (l, u)" by force
  have r: "o' = o0" "run_log step s1 es' = (h1 @ (e, out) # h2, t)" using Cons.prems(2) es st rn x by auto
  from Cons.IH [OF _ r(2)] Cons.prems(1) st r(1) x show ?case by (metis (no_types, lifting) case_prod_conv fst_conv list.simps(9) run_log.simps(2))
qed

lemma run_log_point:
  assumes "run_log step s es = (h1 @ (e, out) # h2, t)"
  shows "\<exists>es1 es2 s1 s2. es = es1 @ e # es2 \<and> run_log step s es1 = (h1, s1) \<and> step s1 e = (s2, out) \<and>
    run_log step s2 es2 = (h2, t)"
proof -
  obtain s1 s2 where "run_log step s (map fst h1) = (h1, s1)" "step s1 e = (s2, out)" "run_log step s2 (map fst h2) = (h2, t)"
    using run_log_split [OF assms] by blast
  moreover have "es = map fst h1 @ e # map fst h2" using run_events [of step s es] assms by simp
  ultimately show ?thesis by blast
qed

locale invariant_system =
  fixes step :: "'s \<Rightarrow> 'e \<Rightarrow> 's \<times> 'o"
    and inv :: "('e \<times> 'o) list \<Rightarrow> 's \<Rightarrow> bool"
  assumes step_inv: "inv hist s \<Longrightarrow> step s e = (s', out) \<Longrightarrow> inv (hist @ [(e, out)]) s'"
begin

lemma run_inv: "inv hist s \<Longrightarrow> run_log step s es = (l, s') \<Longrightarrow> inv (hist @ l) s'"
proof (induction es arbitrary: hist s l s')
  case Nil
  then show ?case by simp
next
  case (Cons e es)
  obtain s1 out where st: "step s e = (s1, out)" by force
  obtain l2 s2 where rn: "run_log step s1 es = (l2, s2)" by force
  have "inv (hist @ [(e, out)]) s1" by (rule step_inv [OF Cons.prems(1) st])
  then have "inv ((hist @ [(e, out)]) @ l2) s2" by (rule Cons.IH [OF _ rn])
  then show ?case using Cons.prems(2) st rn by simp
qed

lemma reachable_inv: "inv [] s \<Longrightarrow> inv (fst (run_log step s es)) (snd (run_log step s es))"
  using run_inv [of "[]" s es] by (cases "run_log step s es") simp

end

end
