(* ===== verification/EmailCrypto.thy ===== *)
theory EmailCrypto
  imports JsPrelude
begin

unbundle bit_operations_syntax

text \<open>
  The cryptographic boundary of the e-mail verification flow,
  \<^verbatim>\<open>backend/src/services/emailVerificationCrypto.ts\<close>: constants, the e-mail normal form and shape
  check, the keyed digests with their domain-separated messages, and the generators of codes, intent
  identifiers and verification tokens.

  A Node \<^verbatim>\<open>Buffer\<close> is a list of bytes.  HMAC-SHA256, the random source and the Unicode
  lower-casing of \<^verbatim>\<open>String.prototype.toLowerCase\<close> are arguments: \<open>hmac key message\<close>,
  the drawn bytes, and \<open>lower\<close>.  The base64url alphabet and encoding are modelled exactly.
\<close>


definition EMAIL_OTP_TTL_SECONDS :: int where
  "EMAIL_OTP_TTL_SECONDS = 10 * 60"

definition EMAIL_OTP_RESEND_COOLDOWN_SECONDS :: int where
  "EMAIL_OTP_RESEND_COOLDOWN_SECONDS = 60"

definition EMAIL_OTP_MAX_SENDS :: int where
  "EMAIL_OTP_MAX_SENDS = 3"

definition EMAIL_OTP_MAX_ATTEMPTS :: int where
  "EMAIL_OTP_MAX_ATTEMPTS = 5"

lemmas email_limits =
  EMAIL_OTP_TTL_SECONDS_def EMAIL_OTP_RESEND_COOLDOWN_SECONDS_def
  EMAIL_OTP_MAX_SENDS_def EMAIL_OTP_MAX_ATTEMPTS_def

section \<open>Normal form and shape of an e-mail address\<close>

definition normalizeVerificationEmail :: "(jsstring \<Rightarrow> jsstring) \<Rightarrow> jsstring \<Rightarrow> jsstring" where
  "normalizeVerificationEmail lower email = lower (js_trim email)"

definition email_char :: "code_unit \<Rightarrow> bool" where
  "email_char c \<longleftrightarrow> \<not> js_ws c \<and> c \<noteq> 64"

text \<open>
  The pattern \<^verbatim>\<open>/^[^\s@]+@[^\s@]+\.[^\s@]+$/\<close>, decided by splitting at the first at-sign: a
  non-empty local part, and a domain with a full stop that is neither its first nor its last
  character.
\<close>

definition email_shape :: "jsstring \<Rightarrow> bool" where
  "email_shape s =
     (let l = takeWhile (\<lambda>c. c \<noteq> 64) s; r = dropWhile (\<lambda>c. c \<noteq> 64) s in
      case r of [] \<Rightarrow> False
      | _ # d \<Rightarrow> l \<noteq> [] \<and> list_all email_char l \<and> list_all email_char d \<and> 46 \<in> set (butlast (tl d)))"

definition isValidVerificationEmail :: "(jsstring \<Rightarrow> jsstring) \<Rightarrow> jsstring \<Rightarrow> bool" where
  "isValidVerificationEmail lower email =
     (let normalized = normalizeVerificationEmail lower email in
      length normalized \<le> 254 \<and> email_shape normalized)"

lemma split_at_first:
  "takeWhile (\<lambda>c. c \<noteq> a) (l @ a # d) = l \<and> dropWhile (\<lambda>c. c \<noteq> a) (l @ a # d) = a # d"
  if "a \<notin> set l" for a :: 'a
  using that by (induction l) auto

lemma in_inner_iff: "x \<in> set (butlast (tl d)) \<longleftrightarrow> (\<exists>p q. p \<noteq> [] \<and> q \<noteq> [] \<and> d = p @ x # q)"
proof
  assume "x \<in> set (butlast (tl d))"
  then obtain u v where uv: "butlast (tl d) = u @ x # v" by (auto dest: split_list)
  then have "tl d \<noteq> []" by auto
  then have "tl d = butlast (tl d) @ [last (tl d)]" by simp
  moreover have "d = hd d # tl d" using \<open>tl d \<noteq> []\<close> by (cases d) auto
  ultimately have "d = (hd d # u) @ x # (v @ [last (tl d)])" using uv by simp
  then show "\<exists>p q. p \<noteq> [] \<and> q \<noteq> [] \<and> d = p @ x # q" by blast
next
  assume "\<exists>p q. p \<noteq> [] \<and> q \<noteq> [] \<and> d = p @ x # q"
  then obtain p q where "p \<noteq> []" "q \<noteq> []" "d = p @ x # q" by blast
  then show "x \<in> set (butlast (tl d))" by (cases p) (auto simp: butlast_append)
qed

text \<open>The decision procedure accepts exactly the language of the pattern.\<close>

lemma email_shape_iff_pattern:
  "email_shape s \<longleftrightarrow>
     (\<exists>l x y. l \<noteq> [] \<and> x \<noteq> [] \<and> y \<noteq> [] \<and> list_all email_char l \<and> list_all email_char x \<and>
       list_all email_char y \<and> s = l @ [64] @ x @ [46] @ y)" (is "_ \<longleftrightarrow> ?R")
proof
  assume sh: "email_shape s"
  let ?l = "takeWhile (\<lambda>c. c \<noteq> 64) s" and ?r = "dropWhile (\<lambda>c. c \<noteq> 64) s"
  from sh obtain a d where r: "?r = a # d" and l: "?l \<noteq> []" "list_all email_char ?l"
    and d: "list_all email_char d" "46 \<in> set (butlast (tl d))"
    by (auto simp: email_shape_def Let_def split: list.splits)
  have "a = 64" using r hd_dropWhile [of "\<lambda>c. c \<noteq> 64" s] by auto
  moreover have "s = ?l @ ?r" by simp
  moreover from d(2) obtain p q where "p \<noteq> []" "q \<noteq> []" "d = p @ 46 # q"
    by (auto simp: in_inner_iff)
  ultimately show ?R using r l d(1) by (intro exI [of _ ?l] exI [of _ p] exI [of _ q]) auto
next
  assume ?R
  then obtain l x y where w: "l \<noteq> []" "x \<noteq> []" "y \<noteq> []" "list_all email_char l"
    "list_all email_char x" "list_all email_char y" "s = l @ 64 # (x @ 46 # y)" by auto
  then have "64 \<notin> set l" by (auto simp: list_all_iff email_char_def)
  from split_at_first [OF this, of "x @ 46 # y"] w have
    "takeWhile (\<lambda>c. c \<noteq> 64) s = l" "dropWhile (\<lambda>c. c \<noteq> 64) s = 64 # (x @ 46 # y)" by auto
  moreover have "46 \<in> set (butlast (tl (x @ 46 # y)))"
    using w by (subst in_inner_iff) blast
  ultimately show "email_shape s"
    using w by (auto simp: email_shape_def email_char_def js_ws_def)
qed

section \<open>base64url and hexadecimal text of bytes\<close>

definition b64_char :: "nat \<Rightarrow> code_unit" where
  "b64_char n =
     (if n < 26 then 65 + n else if n < 52 then 71 + n else if n < 62 then n - 4
      else if n = 62 then 45 else 95)"

fun b64url_nat :: "nat list \<Rightarrow> jsstring" where
  "b64url_nat [] = []"
| "b64url_nat [a] = [b64_char (a div 4), b64_char ((a mod 4) * 16)]"
| "b64url_nat [a, b] = [b64_char (a div 4), b64_char ((a mod 4) * 16 + b div 16), b64_char ((b mod 16) * 4)]"
| "b64url_nat (a # b # c # r) =
     b64_char (a div 4) # b64_char ((a mod 4) * 16 + b div 16) #
     b64_char ((b mod 16) * 4 + c div 64) # b64_char (c mod 64) # b64url_nat r"

definition base64url :: "buffer \<Rightarrow> jsstring" where
  "base64url b = b64url_nat (map unat b)"

lemma b64_char_inj: "a < 64 \<Longrightarrow> b < 64 \<Longrightarrow> b64_char a = b64_char b \<Longrightarrow> a = b"
  by (auto simp: b64_char_def split: if_splits)

lemma is_base64url_b64_char: "n < 64 \<Longrightarrow> is_base64url (b64_char n)"
  by (auto simp: b64_char_def is_base64url_def is_digit_def)

lemma length_b64url_nat: "length (b64url_nat xs) = (4 * length xs + 2) div 3"
  by (induction xs rule: b64url_nat.induct) auto

lemma sextet_bound:
  fixes a b c :: nat
  shows "a < 256 \<Longrightarrow> a div 4 < 64" and "(a mod 4) * 16 < 64"
    and "b < 256 \<Longrightarrow> (a mod 4) * 16 + b div 16 < 64" and "(b mod 16) * 4 < 64"
    and "c < 256 \<Longrightarrow> (b mod 16) * 4 + c div 64 < 64" and "c mod 64 < 64"
proof -
  have m: "a mod 4 < 4" "b mod 16 < 16" by simp_all
  show "a < 256 \<Longrightarrow> a div 4 < 64" by (rule less_mult_imp_div_less) simp
  show "(a mod 4) * 16 < 64" "(b mod 16) * 4 < 64" using m by simp_all
  show "(a mod 4) * 16 + b div 16 < 64" if "b < 256"
    using m(1) less_mult_imp_div_less [of b 16 16] that by simp
  show "(b mod 16) * 4 + c div 64 < 64" if "c < 256"
    using m(2) less_mult_imp_div_less [of c 4 64] that by simp
  show "c mod 64 < 64" by simp
qed

text \<open>A digit and a remainder below the base determine each other.\<close>

lemma radix_unique:
  fixes x y x' y' n :: nat
  assumes "x * n + y = x' * n + y'" and "y < n" and "y' < n"
  shows "x = x' \<and> y = y'"
proof -
  have "(x * n + y) div n = x" "(x' * n + y') div n = x'" using assms(2,3) by simp_all
  then have "x = x'" using assms(1) by simp
  then show ?thesis using assms(1) by simp
qed

lemma is_base64url_nat:
  "list_all (\<lambda>x. x < 256) xs \<Longrightarrow> list_all is_base64url (b64url_nat xs)"
  by (induction xs rule: b64url_nat.induct)
     (auto intro!: is_base64url_b64_char sextet_bound)

lemma sextets_inj:
  fixes a b c a' b' c' :: nat
  assumes lt: "b < 256" "b' < 256" "c < 256" "c' < 256"
    and "a div 4 = a' div 4" and "(a mod 4) * 16 + b div 16 = (a' mod 4) * 16 + b' div 16"
    and "(b mod 16) * 4 + c div 64 = (b' mod 16) * 4 + c' div 64" and "c mod 64 = c' mod 64"
  shows "a = a' \<and> b = b' \<and> c = c'"
proof -
  have "b div 16 < 16" "b' div 16 < 16" "c div 64 < 4" "c' div 64 < 4"
    using lt by (auto intro: less_mult_imp_div_less)
  then have "a mod 4 = a' mod 4" "b div 16 = b' div 16" "b mod 16 = b' mod 16" "c div 64 = c' div 64"
    using radix_unique [OF assms(6)] radix_unique [OF assms(7)] by simp_all
  then show ?thesis using assms(5,8) by (metis div_mult_mod_eq)
qed

lemma b64url_nat_inj:
  "list_all (\<lambda>x. x < 256) xs \<Longrightarrow> list_all (\<lambda>y. y < 256) ys \<Longrightarrow> length xs = length ys \<Longrightarrow>
   b64url_nat xs = b64url_nat ys \<Longrightarrow> xs = ys"
proof (induction xs arbitrary: ys rule: b64url_nat.induct)
  case 1
  then show ?case by simp
next
  case (2 a)
  then obtain a' where ys: "ys = [a']" by (cases ys) auto
  have lt: "a < 256" "a' < 256" using 2 ys by simp_all
  have e: "b64_char (a div 4) = b64_char (a' div 4)" "b64_char ((a mod 4) * 16) = b64_char ((a' mod 4) * 16)"
    using 2(4) ys by simp_all
  have "a div 4 = a' div 4" by (rule b64_char_inj [OF _ _ e(1)]) (simp_all add: sextet_bound lt)
  moreover have "(a mod 4) * 16 = (a' mod 4) * 16"
    by (rule b64_char_inj [OF _ _ e(2)]) (simp_all only: sextet_bound)
  ultimately show ?case using lt ys sextets_inj [of 0 0 0 0 a a'] by simp
next
  case (3 a b)
  then obtain a' b' where ys: "ys = [a', b']"
    by (auto elim: length_2E [OF sym])
  have lt: "a < 256" "a' < 256" "b < 256" "b' < 256" using 3 ys by simp_all
  have e: "b64_char ((b mod 16) * 4) = b64_char ((b' mod 16) * 4)" using 3(4) ys by simp
  have "(b mod 16) * 4 = (b' mod 16) * 4"
    by (rule b64_char_inj [OF _ _ e]) (simp_all only: sextet_bound)
  moreover have "a div 4 = a' div 4" "(a mod 4) * 16 + b div 16 = (a' mod 4) * 16 + b' div 16"
    using 3(4) ys lt by (auto intro: b64_char_inj sextet_bound)
  ultimately show ?case using lt ys sextets_inj [of b b' 0 0 a a'] by simp
next
  case (4 a b c r)
  then obtain a' b' c' r' where ys: "ys = a' # b' # c' # r'"
    by (auto elim: length_3E [OF sym])
  have lt: "a < 256" "a' < 256" "b < 256" "b' < 256" "c < 256" "c' < 256" using 4 ys by simp_all
  have "a div 4 = a' div 4" "(a mod 4) * 16 + b div 16 = (a' mod 4) * 16 + b' div 16"
    "(b mod 16) * 4 + c div 64 = (b' mod 16) * 4 + c' div 64" "c mod 64 = c' mod 64"
    using 4(5) ys lt by (auto intro: b64_char_inj sextet_bound)
  moreover have "r = r'" using 4 ys by simp
  ultimately show ?case using lt ys sextets_inj [of b b' c c' a a'] by simp
qed

lemma unat_byte_bound: "unat (w :: 8 word) < 256"
  using unsigned_less [of w] by simp

lemma base64url_inj: "length a = length b \<Longrightarrow> base64url a = base64url b \<Longrightarrow> a = b"
  using b64url_nat_inj [of "map unat a" "map unat b"] unat_byte_bound
  by (auto simp: base64url_def list_all_iff dest!: map_injective intro!: injI)

lemma base64url_class: "list_all is_base64url (base64url b)"
  unfolding base64url_def by (rule is_base64url_nat) (auto simp: unat_byte_bound list_all_iff)

lemma length_base64url: "length (base64url b) = (4 * length b + 2) div 3"
  by (simp add: base64url_def length_b64url_nat)

definition hex_char :: "nat \<Rightarrow> code_unit" where
  "hex_char n = (if n < 10 then 48 + n else 87 + n)"

definition hex_of_byte :: "8 word \<Rightarrow> jsstring" where
  "hex_of_byte w = [hex_char (unat w div 16), hex_char (unat w mod 16)]"

definition hex_of_buffer :: "buffer \<Rightarrow> jsstring" where
  "hex_of_buffer b = concat (map hex_of_byte b)"

lemma is_hex_char: "n < 16 \<Longrightarrow> is_hex_ci (hex_char n)"
  by (auto simp: hex_char_def is_hex_ci_def is_hex_lower_def is_digit_def)

lemma hex_of_byte_class: "list_all is_hex_ci (hex_of_byte w)"
  using unat_byte_bound [of w] by (auto simp: hex_of_byte_def intro!: is_hex_char)

section \<open>Keyed digests\<close>

text \<open>
  \<open>hmac key message\<close> stands for \<^verbatim>\<open>createHmac('sha256', key).update(message).digest()\<close>.
  The message names its purpose, so a digest made for one purpose is never the digest of another
  message with a different purpose unless HMAC collides.
\<close>

type_synonym hmac_fn = "jsstring \<Rightarrow> jsstring \<Rightarrow> buffer"

definition digest_message :: "jsstring \<Rightarrow> jsstring \<Rightarrow> jsstring" where
  "digest_message purpose value =
     js ''public-lighting-email-verification:v1:'' @ purpose @ [0] @ value"

definition digest :: "hmac_fn \<Rightarrow> jsstring \<Rightarrow> jsstring \<Rightarrow> jsstring \<Rightarrow> buffer" where
  "digest hmac key purpose value = hmac key (digest_message purpose value)"

definition emailDigest :: "hmac_fn \<Rightarrow> (jsstring \<Rightarrow> jsstring) \<Rightarrow> jsstring \<Rightarrow> jsstring \<Rightarrow> buffer" where
  "emailDigest hmac lower key email = digest hmac key (js ''email'') (normalizeVerificationEmail lower email)"

definition ipDigest :: "hmac_fn \<Rightarrow> jsstring \<Rightarrow> jsstring \<Rightarrow> buffer" where
  "ipDigest hmac key ip = digest hmac key (js ''ip'') ip"

definition otp_value :: "jsstring \<Rightarrow> buffer \<Rightarrow> jsstring \<Rightarrow> jsstring" where
  "otp_value intentId emailDig code = intentId @ [0] @ base64url emailDig @ [0] @ code"

definition otpDigest :: "hmac_fn \<Rightarrow> jsstring \<Rightarrow> jsstring \<Rightarrow> buffer \<Rightarrow> jsstring \<Rightarrow> buffer" where
  "otpDigest hmac key intentId emailDig code = digest hmac key (js ''otp'') (otp_value intentId emailDig code)"

definition verificationTokenDigest :: "hmac_fn \<Rightarrow> jsstring \<Rightarrow> jsstring \<Rightarrow> buffer \<Rightarrow> jsstring \<Rightarrow> buffer" where
  "verificationTokenDigest hmac key intentId emailDig token =
     digest hmac key (js ''submission-token'') (otp_value intentId emailDig token)"

definition digestMatches :: "buffer \<Rightarrow> buffer \<Rightarrow> bool" where
  "digestMatches actual expected \<longleftrightarrow> length actual = length expected \<and> list_all2 (=) actual expected"

lemma digestMatches_iff [simp]: "digestMatches a b \<longleftrightarrow> a = b"
  by (auto simp: digestMatches_def list.rel_eq)

lemma digest_message_inj:
  assumes "0 \<notin> set p" and "0 \<notin> set q" and "digest_message p v = digest_message q w"
  shows "p = q \<and> v = w"
  using assms by (simp add: digest_message_def) (rule append_sep_inj)

lemma base64url_no_nul: "0 \<notin> set (base64url b)"
  using base64url_class [of b] by (auto simp: list_all_iff is_base64url_def is_digit_def)

lemma otp_value_inj:
  assumes "0 \<notin> set i" "0 \<notin> set j" "length d = length e" "otp_value i d c = otp_value j e c'"
  shows "i = j \<and> d = e \<and> c = c'"
proof -
  have "i = j \<and> base64url d @ [0] @ c = base64url e @ [0] @ c'"
    using assms(1,2,4) by (auto simp: otp_value_def dest: append_sep_inj)
  moreover from this have "base64url d = base64url e \<and> c = c'"
    using append_sep_inj [OF base64url_no_nul base64url_no_nul, of d c e c'] by simp
  ultimately show ?thesis using base64url_inj [OF assms(3)] by simp
qed

section \<open>Generators\<close>

text \<open>\<open>randomInt(0, 1_000_000)\<close> and \<open>randomBytes\<close> give the arguments.\<close>

definition digit_char :: "nat \<Rightarrow> code_unit" where
  "digit_char n = 48 + n mod 10"

definition createCode :: "nat \<Rightarrow> jsstring" where
  "createCode r =
     map digit_char [r div 100000, r div 10000, r div 1000, r div 100, r div 10, r]"

definition createVerificationToken :: "buffer \<Rightarrow> jsstring" where
  "createVerificationToken bytes = base64url bytes"

definition uuid_bytes :: "buffer \<Rightarrow> buffer" where
  "uuid_bytes bytes =
     (let b = bytes[6 := ((bytes ! 6) AND 0x0f) OR 0x40] in b[8 := ((b ! 8) AND 0x3f) OR 0x80])"

definition cryptoRandomUuid :: "buffer \<Rightarrow> jsstring" where
  "cryptoRandomUuid bytes =
     (let hex = hex_of_buffer (uuid_bytes bytes) in
      take 8 hex @ [45] @ take 4 (drop 8 hex) @ [45] @ take 4 (drop 12 hex) @ [45] @
      take 4 (drop 16 hex) @ [45] @ drop 20 hex)"

text \<open>The check \<^verbatim>\<open>/^\d{6}$/\<close> of a code and \<^verbatim>\<open>/^[A-Za-z0-9_-]{43}$/\<close> of a token.\<close>

definition code_shape :: "jsstring \<Rightarrow> bool" where
  "code_shape code \<longleftrightarrow> matches_all is_digit 6 code"

definition token_shape :: "jsstring \<Rightarrow> bool" where
  "token_shape token \<longleftrightarrow> matches_all is_base64url 43 token"

lemma digit_char_class: "is_digit (digit_char n)"
  using mod_less_divisor [of 10 n] by (simp add: digit_char_def is_digit_def)

lemma createCode_shape: "code_shape (createCode r)"
  by (simp add: code_shape_def createCode_def matches_all_def digit_char_class)

lemma createVerificationToken_shape:
  "length bytes = 32 \<Longrightarrow> token_shape (createVerificationToken bytes)"
  by (simp add: token_shape_def createVerificationToken_def matches_all_def base64url_class length_base64url)

lemma createCode_inj:
  assumes "r < 1000000" "s < 1000000" "createCode r = createCode s"
  shows "r = s"
proof -
  have d: "r div 100000 < 10" "s div 100000 < 10" using assms by (auto intro: less_mult_imp_div_less)
  have e: "r div 100000 mod 10 = s div 100000 mod 10" "r div 10000 mod 10 = s div 10000 mod 10"
    "r div 1000 mod 10 = s div 1000 mod 10" "r div 100 mod 10 = s div 100 mod 10"
    "r div 10 mod 10 = s div 10 mod 10" "r mod 10 = s mod 10"
    using assms(3) by (simp_all add: createCode_def digit_char_def)
  have split: "n = 10 * (n div 10) + n mod 10" for n :: nat by simp
  have dd: "n div 10 div 10 = n div 100" "n div 100 div 10 = n div 1000" "n div 1000 div 10 = n div 10000"
    "n div 10000 div 10 = n div 100000" for n :: nat by (simp_all add: div_mult2_eq [symmetric])
  have "r div 100000 = s div 100000" using d e(1) by simp
  then have "r div 10000 = s div 10000"
    using e(2) split [of "r div 10000"] split [of "s div 10000"] dd by simp
  then have "r div 1000 = s div 1000"
    using e(3) split [of "r div 1000"] split [of "s div 1000"] dd by simp
  then have "r div 100 = s div 100"
    using e(4) split [of "r div 100"] split [of "s div 100"] dd by simp
  then have "r div 10 = s div 10"
    using e(5) split [of "r div 10"] split [of "s div 10"] dd by simp
  then show ?thesis using e(6) split [of r] split [of s] by simp
qed

lemma unat_high_nibble: "unat (w :: 8 word) div 16 = unat (drop_bit 4 w)"
  by (simp add: drop_bit_eq_div unat_div)
lemma masked_high_nibble: "unat (((w :: 8 word) AND 0x0f) OR 0x40) div 16 = 4"
  unfolding unat_high_nibble by (simp add: drop_bit_or drop_bit_and del: drop_bit_eq_div)
lemma masked_variant: "unat (((w :: 8 word) AND 0x3f) OR 0x80) div 16 \<in> {8, 9, 10, 11}"
proof -
  have e: "drop_bit 4 ((w AND 0x3f) OR 0x80) = (drop_bit 4 w AND 3) OR (8 :: 8 word)"
    by (simp add: drop_bit_or drop_bit_and)
  have "drop_bit 4 w AND 3 = take_bit 2 (drop_bit 4 w)"
    by (simp add: take_bit_eq_mask mask_eq_exp_minus_1)
  then have "unat (drop_bit 4 w AND 3) < 4"
    using take_bit_nat_less_exp [of 2 "unat (drop_bit 4 w)"] by (simp add: unsigned_take_bit_eq)
  then consider "unat (drop_bit 4 w AND 3) = unat (0 :: 8 word)" | "unat (drop_bit 4 w AND 3) = unat (1 :: 8 word)"
    | "unat (drop_bit 4 w AND 3) = unat (2 :: 8 word)" | "unat (drop_bit 4 w AND 3) = unat (3 :: 8 word)"
    by fastforce
  then have "drop_bit 4 w AND 3 \<in> {0, 1, 2, 3}"
    by cases (simp_all only: unsigned_word_eqI insert_iff simp_thms)
  then show ?thesis unfolding unat_high_nibble e by auto
qed

lemma length_hex_of_buffer: "length (hex_of_buffer b) = 2 * length b"
  by (induction b) (auto simp: hex_of_buffer_def hex_of_byte_def)

text \<open>Every identifier the generator makes passes the UUID check of the consuming endpoints.\<close>

lemma length_uuid_bytes [simp]: "length (uuid_bytes b) = length b"
  by (simp add: uuid_bytes_def Let_def)

lemma hex_of_byte_nibbles:
  "is_hex_ci (hex_char (unat (w :: 8 word) div 16))" "is_hex_ci (hex_char (unat w mod 16))"
  using hex_of_byte_class [of w] by (simp_all add: hex_of_byte_def)

lemma cryptoRandomUuid_is_v4:
  assumes "length b = 16"
  shows "is_uuid_v4 (cryptoRandomUuid b)"
proof -
  let ?u = "uuid_bytes b"
  have "length ?u = 16" using assms by simp
  then obtain v0 v1 v2 v3 v4 v5 v6 v7 v8 v9 v10 v11 v12 v13 v14 v15 where
    u: "?u = [v0, v1, v2, v3, v4, v5, v6, v7, v8, v9, v10, v11, v12, v13, v14, v15]"
    by (rule length_16E)
  have "v6 = ?u ! 6" and "v8 = ?u ! 8" using u by simp_all
  then have "unat v6 div 16 = 4" and "unat v8 div 16 \<in> {8, 9, 10, 11}"
    using assms masked_high_nibble [of "b ! 6"] masked_variant [of "b ! 8"]
    by (simp_all add: uuid_bytes_def Let_def)
  then have "hex_char (unat v6 div 16) = 52" and
    "hex_char (unat v8 div 16) \<in> {56, 57, 97, 98}"
    by (auto simp: hex_char_def)
  then show ?thesis
    by (auto simp: cryptoRandomUuid_def Let_def u hex_of_buffer_def hex_of_byte_def is_uuid_v4_def
        uuid_v4_pattern_def replicate_literal hex_of_byte_nibbles)
qed

end
