(* ===== verification/EmailStore.thy ===== *)
theory EmailStore
  imports EmailCrypto
begin

text \<open>
  The PostgreSQL store of the e-mail verification flow,
  \<^verbatim>\<open>backend/src/services/emailVerificationStore.ts\<close>, over the two tables of migration 0003.

  Times are microseconds.  Each operation gets an \<open>ambient\<close>: what the database clock shows at
  each of its statements (numbered in program order), what \<^verbatim>\<open>Date.now()\<close> shows inside the bounded
  cleanup loop, and which rows other transactions hold locked (\<^verbatim>\<open>SKIP LOCKED\<close>).  A transaction
  is one step: the row locks it takes serialize the operations on one challenge.  A failed statement
  is an \<open>sql_error\<close> and rolls the transaction back.
\<close>

section \<open>Tables\<close>

datatype sql_error = IntegerOutOfRange | UniqueViolation

datatype rate_scope = SendEmail | SendIp | VerifyEmail | VerifyIp

record rate_row =
  rl_scope :: rate_scope
  rl_key :: buffer
  rl_window_started_at :: int
  rl_attempt_count :: int
  rl_updated_at :: int

record challenge =
  intent_id :: jsstring
  email_digest :: buffer
  otp_digest :: buffer
  verification_token_digest :: "buffer option"
  attempt_count :: int
  send_count :: int
  last_sent_at :: int
  expires_at :: int
  verified_at :: "int option"
  consumed_at :: "int option"
  created_at :: int

record email_db =
  challenges :: "challenge list"
  rate_limits :: "rate_row list"

record ambient =
  sql_clock :: "nat \<Rightarrow> int"
  process_ms :: "nat \<Rightarrow> int"
  challenge_locked :: "challenge \<Rightarrow> bool"
  rate_locked :: "rate_row \<Rightarrow> bool"

definition interval_seconds :: "int \<Rightarrow> int" where
  "interval_seconds n = n * 1000000"

definition interval_hours :: "int \<Rightarrow> int" where
  "interval_hours n = interval_seconds (n * 3600)"

text \<open>\<^verbatim>\<open>CEIL(EXTRACT(EPOCH FROM d))::integer\<close> of an interval.\<close>

definition ceil_seconds :: "int \<Rightarrow> int" where
  "ceil_seconds d = - ((- d) div 1000000)"

lemmas interval_defs = interval_seconds_def interval_hours_def

lemma ceil_seconds_le_0: "ceil_seconds d \<le> 0 \<longleftrightarrow> d \<le> 0"
  unfolding ceil_seconds_def by (simp add: pos_imp_zdiv_nonneg_iff)

section \<open>Fixed-window rate limits\<close>

type_synonym rate_limit = "rate_scope \<times> buffer \<times> int"

definition int4_max :: int where
  "int4_max = 2147483647"

definition int4_succ :: "int \<Rightarrow> sql_error + int" where
  "int4_succ n = (if n + 1 > int4_max then Inl IntegerOutOfRange else Inr (n + 1))"

text \<open>The conflict branch of the upsert; the addition is evaluated before \<^verbatim>\<open>LEAST\<close>.\<close>

definition next_rate_row :: "int \<Rightarrow> rate_row \<Rightarrow> sql_error + rate_row" where
  "next_rate_row t r =
     (if rl_window_started_at r \<le> t - interval_hours 1
      then Inr (r\<lparr>rl_attempt_count := 1, rl_window_started_at := t, rl_updated_at := t\<rparr>)
      else case int4_succ (rl_attempt_count r) of
        Inl e \<Rightarrow> Inl e
      | Inr n \<Rightarrow> Inr (r\<lparr>rl_attempt_count := min n int4_max, rl_updated_at := t\<rparr>))"

definition same_limit :: "rate_scope \<Rightarrow> buffer \<Rightarrow> rate_row \<Rightarrow> bool" where
  "same_limit scope key r \<longleftrightarrow> rl_scope r = scope \<and> rl_key r = key"

definition upsert_rate :: "int \<Rightarrow> rate_scope \<Rightarrow> buffer \<Rightarrow> rate_row list \<Rightarrow> sql_error + rate_row \<times> rate_row list" where
  "upsert_rate t scope key rows =
     (case find (same_limit scope key) rows of
        None \<Rightarrow>
          (let r = \<lparr>rl_scope = scope, rl_key = key, rl_window_started_at = t, rl_attempt_count = 1, rl_updated_at = t\<rparr>
           in Inr (r, rows @ [r]))
      | Some old \<Rightarrow>
          (case next_rate_row t old of
             Inl e \<Rightarrow> Inl e
           | Inr r \<Rightarrow> Inr (r, fst (sql_update (same_limit scope key) (\<lambda>_. r) rows))))"

definition retry_after :: "int \<Rightarrow> rate_row \<Rightarrow> int" where
  "retry_after t r = max 1 (ceil_seconds (rl_window_started_at r + interval_hours 1 - t))"

text \<open>
  The loop of \<^verbatim>\<open>applyRateLimits\<close>: every limit is counted, also after one was exceeded.  The
  answer is the largest wait, 0 when no limit is exceeded.
\<close>

fun rate_loop :: "(nat \<Rightarrow> int) \<Rightarrow> nat \<Rightarrow> rate_limit list \<Rightarrow> int \<Rightarrow> rate_row list \<Rightarrow> sql_error + int \<times> rate_row list" where
  "rate_loop clk i [] retryAfter rows = Inr (retryAfter, rows)"
| "rate_loop clk i ((scope, key, maxAttempts) # limits) retryAfter rows =
     (case upsert_rate (clk i) scope key rows of
        Inl e \<Rightarrow> Inl e
      | Inr (row, rows') \<Rightarrow>
          rate_loop clk (Suc i) limits
            (if rl_attempt_count row > maxAttempts then max retryAfter (retry_after (clk i) row) else retryAfter)
            rows')"

definition applyRateLimits :: "(nat \<Rightarrow> int) \<Rightarrow> nat \<Rightarrow> rate_limit list \<Rightarrow> rate_row list \<Rightarrow> sql_error + int option \<times> rate_row list" where
  "applyRateLimits clk i limits rows =
     (case rate_loop clk i limits 0 rows of
        Inl e \<Rightarrow> Inl e
      | Inr (retryAfter, rows') \<Rightarrow> Inr (if retryAfter > 0 then Some retryAfter else None, rows'))"

section \<open>Bounded cleanup\<close>

definition CLEANUP_BATCH_SIZE :: nat where
  "CLEANUP_BATCH_SIZE = 100"

definition CLEANUP_MAX_BATCHES_PER_TABLE :: nat where
  "CLEANUP_MAX_BATCHES_PER_TABLE = 10"

definition CLEANUP_TIME_BUDGET_MS :: int where
  "CLEANUP_TIME_BUDGET_MS = 1000"

text \<open>
  \<open>batches\<close> is the number of batches the loop may still run, \<open>i\<close> the number it has run; \<open>del i\<close> is
  the delete statement of batch \<open>i\<close>, and \<open>ms\<close> the clock readings, two per batch after the one that
  fixed the deadline.
\<close>

fun cleanup_batches :: "nat \<Rightarrow> nat \<Rightarrow> (nat \<Rightarrow> int) \<Rightarrow> int \<Rightarrow> (nat \<Rightarrow> 'r list \<Rightarrow> 'r list \<times> nat) \<Rightarrow> 'r list \<Rightarrow> 'r list" where
  "cleanup_batches 0 i ms deadline del rows = rows"
| "cleanup_batches (Suc n) i ms deadline del rows =
     (if ms (2 * i + 1) < deadline then
        (let (rows', count) = del i rows in
         if count < CLEANUP_BATCH_SIZE then rows'
         else if ms (2 * i + 2) \<ge> deadline then rows'
         else cleanup_batches n (Suc i) ms deadline del rows')
      else rows)"

definition cleanupTableInBatches :: "(nat \<Rightarrow> int) \<Rightarrow> (nat \<Rightarrow> 'r list \<Rightarrow> 'r list \<times> nat) \<Rightarrow> 'r list \<Rightarrow> 'r list" where
  "cleanupTableInBatches ms del rows =
     cleanup_batches CLEANUP_MAX_BATCHES_PER_TABLE 0 ms (ms 0 + CLEANUP_TIME_BUDGET_MS) del rows"

definition stale_challenge :: "int \<Rightarrow> challenge \<Rightarrow> bool" where
  "stale_challenge now c \<longleftrightarrow> expires_at c < now - interval_hours 1 \<or>
     (case consumed_at c of None \<Rightarrow> False | Some u \<Rightarrow> u < now - interval_hours 1)"

definition stale_rate :: "int \<Rightarrow> rate_row \<Rightarrow> bool" where
  "stale_rate now r \<longleftrightarrow> rl_updated_at r < now - interval_hours 48"

text \<open>Statement numbers 100 and up belong to the cleanup of challenges, 200 and up to rate limits.\<close>

definition cleanupTemporaryState :: "ambient \<Rightarrow> email_db \<Rightarrow> email_db" where
  "cleanupTemporaryState a db =
     db\<lparr>challenges := cleanupTableInBatches (process_ms a)
          (\<lambda>i. delete_first CLEANUP_BATCH_SIZE
             (\<lambda>c. stale_challenge (sql_clock a (100 + i)) c \<and> \<not> challenge_locked a c) expires_at) (challenges db),
        rate_limits := cleanupTableInBatches (\<lambda>k. process_ms a (100 + k))
          (\<lambda>i. delete_first CLEANUP_BATCH_SIZE
             (\<lambda>r. stale_rate (sql_clock a (200 + i)) r \<and> \<not> rate_locked a r) rl_updated_at) (rate_limits db)\<rparr>"

section \<open>Store operations\<close>

record new_challenge =
  nc_intentId :: jsstring
  nc_emailDigest :: buffer
  nc_otpDigest :: buffer
  nc_ipDigest :: buffer

record verify_input =
  vi_intentId :: jsstring
  vi_emailDigest :: buffer
  vi_ipDigest :: buffer
  vi_otpDigest :: buffer
  vi_tokenDigest :: buffer

datatype create_result = Created | CreateRateLimited int

datatype resend_result =
  ResendSent | ResendRateLimited int | ResendCooldown int | ResendSendLimit | ResendExpired | ResendNotFound

datatype verify_result =
  Verified int | VerifyRateLimited int | Invalid int | AttemptsExhausted | Expired | AlreadyVerified | NotFound

text \<open>
  A transaction commits its result or, when a statement fails, rolls back.  The database compares
  UUIDs, so an identifier matches in either case of its hexadecimal digits.
\<close>

definition db_transaction :: "email_db \<Rightarrow> sql_error + 'r \<times> email_db \<Rightarrow> email_db \<times> (sql_error + 'r)" where
  "db_transaction db r = (case r of Inl e \<Rightarrow> (db, Inl e) | Inr (x, db') \<Rightarrow> (db', Inr x))"

definition sql_uuid :: "jsstring \<Rightarrow> jsstring" where
  "sql_uuid s = lower_ascii s"

definition matches_challenge :: "jsstring \<Rightarrow> buffer \<Rightarrow> challenge \<Rightarrow> bool" where
  "matches_challenge iid email c \<longleftrightarrow> intent_id c = sql_uuid iid \<and> email_digest c = email"

definition open_challenge :: "challenge \<Rightarrow> bool" where
  "open_challenge c \<longleftrightarrow> verified_at c = None \<and> consumed_at c = None"

definition send_limits :: "buffer \<Rightarrow> buffer \<Rightarrow> rate_limit list" where
  "send_limits email ip = [(SendEmail, email, 3), (SendIp, ip, 15)]"

definition verify_limits :: "buffer \<Rightarrow> buffer \<Rightarrow> rate_limit list" where
  "verify_limits email ip = [(VerifyEmail, email, 15), (VerifyIp, ip, 30)]"

definition new_challenge_row :: "int \<Rightarrow> new_challenge \<Rightarrow> challenge" where
  "new_challenge_row t ch =
     \<lparr>intent_id = sql_uuid (nc_intentId ch), email_digest = nc_emailDigest ch, otp_digest = nc_otpDigest ch,
      verification_token_digest = None, attempt_count = 0, send_count = 1, last_sent_at = t,
      expires_at = t + interval_seconds EMAIL_OTP_TTL_SECONDS, verified_at = None, consumed_at = None,
      created_at = t\<rparr>"

definition insert_challenge :: "int \<Rightarrow> new_challenge \<Rightarrow> email_db \<Rightarrow> sql_error + email_db" where
  "insert_challenge t ch db =
     (let row = new_challenge_row t ch in
      if list_ex (\<lambda>c. intent_id c = intent_id row) (challenges db) then Inl UniqueViolation
      else Inr (db\<lparr>challenges := challenges db @ [row]\<rparr>))"

definition createChallenge :: "ambient \<Rightarrow> new_challenge \<Rightarrow> email_db \<Rightarrow> email_db \<times> (sql_error + create_result)" where
  "createChallenge a ch db = db_transaction db
     (case applyRateLimits (sql_clock a) 0 (send_limits (nc_emailDigest ch) (nc_ipDigest ch)) (rate_limits db) of
        Inl e \<Rightarrow> Inl e
      | Inr (Some retry, rows) \<Rightarrow> Inr (CreateRateLimited retry, cleanupTemporaryState a (db\<lparr>rate_limits := rows\<rparr>))
      | Inr (None, rows) \<Rightarrow>
          (case insert_challenge (sql_clock a 2) ch (db\<lparr>rate_limits := rows\<rparr>) of
             Inl e \<Rightarrow> Inl e
           | Inr db1 \<Rightarrow> Inr (Created, cleanupTemporaryState a db1)))"

text \<open>The guard and the assignment of the resend \<^verbatim>\<open>UPDATE\<close>.\<close>

definition resend_guard :: "int \<Rightarrow> new_challenge \<Rightarrow> challenge \<Rightarrow> bool" where
  "resend_guard t ch c \<longleftrightarrow>
     matches_challenge (nc_intentId ch) (nc_emailDigest ch) c \<and> open_challenge c \<and> expires_at c > t \<and>
     send_count c < EMAIL_OTP_MAX_SENDS \<and> last_sent_at c \<le> t - interval_seconds EMAIL_OTP_RESEND_COOLDOWN_SECONDS"

definition resend_assign :: "int \<Rightarrow> new_challenge \<Rightarrow> challenge \<Rightarrow> challenge" where
  "resend_assign t ch c =
     c\<lparr>otp_digest := nc_otpDigest ch, attempt_count := 0, send_count := send_count c + 1, last_sent_at := t,
       expires_at := t + interval_seconds EMAIL_OTP_TTL_SECONDS\<rparr>"

definition resend_wait :: "int \<Rightarrow> challenge \<Rightarrow> int" where
  "resend_wait t c = max 0 (ceil_seconds (last_sent_at c + interval_seconds EMAIL_OTP_RESEND_COOLDOWN_SECONDS - t))"

definition find_challenge :: "jsstring \<Rightarrow> buffer \<Rightarrow> email_db \<Rightarrow> challenge option" where
  "find_challenge iid email db = find (matches_challenge iid email) (challenges db)"

text \<open>The final look at a challenge that vanished or ran out while the transaction was under way.\<close>

definition expired_now :: "int \<Rightarrow> jsstring \<Rightarrow> buffer \<Rightarrow> email_db \<Rightarrow> bool" where
  "expired_now t iid email db =
     (case find_challenge iid email db of None \<Rightarrow> False | Some c \<Rightarrow> expires_at c \<le> t)"

definition resend_apply :: "ambient \<Rightarrow> new_challenge \<Rightarrow> email_db \<Rightarrow> resend_result \<times> email_db" where
  "resend_apply a ch db =
     (let (rows, n) = sql_update (resend_guard (sql_clock a 3) ch) (resend_assign (sql_clock a 3) ch) (challenges db);
          db1 = cleanupTemporaryState a (db\<lparr>challenges := rows\<rparr>) in
      if n = 1 then (ResendSent, db1)
      else if expired_now (sql_clock a 300) (nc_intentId ch) (nc_emailDigest ch) db1 then (ResendExpired, db1)
      else (ResendNotFound, db1))"

definition resendChallenge :: "ambient \<Rightarrow> new_challenge \<Rightarrow> email_db \<Rightarrow> email_db \<times> (sql_error + resend_result)" where
  "resendChallenge a ch db = db_transaction db
     (case find_challenge (nc_intentId ch) (nc_emailDigest ch) db of
        None \<Rightarrow> Inr (ResendNotFound, db)
      | Some existing \<Rightarrow>
          if expires_at existing \<le> sql_clock a 0 then Inr (ResendExpired, db)
          else if \<not> open_challenge existing then Inr (ResendNotFound, db)
          else if send_count existing \<ge> EMAIL_OTP_MAX_SENDS then Inr (ResendSendLimit, db)
          else if resend_wait (sql_clock a 0) existing > 0 then
            Inr (ResendCooldown (resend_wait (sql_clock a 0) existing), db)
          else (case applyRateLimits (sql_clock a) 1 (send_limits (nc_emailDigest ch) (nc_ipDigest ch)) (rate_limits db) of
              Inl e \<Rightarrow> Inl e
            | Inr (Some retry, rows) \<Rightarrow>
                Inr (ResendRateLimited retry, cleanupTemporaryState a (db\<lparr>rate_limits := rows\<rparr>))
            | Inr (None, rows) \<Rightarrow> Inr (resend_apply a ch (db\<lparr>rate_limits := rows\<rparr>))))"

text \<open>The three statements of a verification.\<close>

definition attempt_guard :: "int \<Rightarrow> verify_input \<Rightarrow> challenge \<Rightarrow> bool" where
  "attempt_guard t i c \<longleftrightarrow>
     matches_challenge (vi_intentId i) (vi_emailDigest i) c \<and> open_challenge c \<and> expires_at c > t \<and>
     attempt_count c < EMAIL_OTP_MAX_ATTEMPTS"

definition attempt_assign :: "challenge \<Rightarrow> challenge" where
  "attempt_assign c = c\<lparr>attempt_count := attempt_count c + 1\<rparr>"

definition verify_guard :: "int \<Rightarrow> verify_input \<Rightarrow> challenge \<Rightarrow> bool" where
  "verify_guard t i c \<longleftrightarrow>
     matches_challenge (vi_intentId i) (vi_emailDigest i) c \<and> open_challenge c \<and> expires_at c > t"

definition verify_assign :: "int \<Rightarrow> verify_input \<Rightarrow> challenge \<Rightarrow> challenge" where
  "verify_assign t i c = c\<lparr>verified_at := Some t, verification_token_digest := Some (vi_tokenDigest i)\<rparr>"

definition explain_rejection :: "ambient \<Rightarrow> verify_input \<Rightarrow> email_db \<Rightarrow> verify_result" where
  "explain_rejection a i db =
     (case find_challenge (vi_intentId i) (vi_emailDigest i) db of
        None \<Rightarrow> NotFound
      | Some c \<Rightarrow>
          if expires_at c \<le> sql_clock a 3 then Expired
          else if consumed_at c \<noteq> None \<or> verified_at c \<noteq> None then AlreadyVerified
          else if attempt_count c \<ge> EMAIL_OTP_MAX_ATTEMPTS then AttemptsExhausted
          else NotFound)"

definition verify_apply :: "ambient \<Rightarrow> verify_input \<Rightarrow> email_db \<Rightarrow> verify_result \<times> email_db" where
  "verify_apply a i db =
     (let t = sql_clock a 4; rows = fst (sql_update (verify_guard t i) (verify_assign t i) (challenges db));
          db1 = cleanupTemporaryState a (db\<lparr>challenges := rows\<rparr>) in
      case filter (verify_guard t i) (challenges db) of
        [c] \<Rightarrow> (Verified (max 1 (ceil_seconds (expires_at c - t))), db1)
      | _ \<Rightarrow> (if expired_now (sql_clock a 300) (vi_intentId i) (vi_emailDigest i) db1 then Expired else AlreadyVerified, db1))"

definition verify_attempt :: "ambient \<Rightarrow> verify_input \<Rightarrow> email_db \<Rightarrow> verify_result \<times> email_db" where
  "verify_attempt a i db =
     (let t = sql_clock a 2; rows = fst (sql_update (attempt_guard t i) attempt_assign (challenges db)) in
      case find (attempt_guard t i) (challenges db) of
        None \<Rightarrow> (explain_rejection a i db, cleanupTemporaryState a db)
      | Some old \<Rightarrow>
          (let row = attempt_assign old; db1 = db\<lparr>challenges := rows\<rparr> in
           if \<not> digestMatches (otp_digest row) (vi_otpDigest i) then
             (if attempt_count row \<ge> EMAIL_OTP_MAX_ATTEMPTS then AttemptsExhausted
              else Invalid (EMAIL_OTP_MAX_ATTEMPTS - attempt_count row), cleanupTemporaryState a db1)
           else verify_apply a i db1))"

definition verifyChallenge :: "ambient \<Rightarrow> verify_input \<Rightarrow> email_db \<Rightarrow> email_db \<times> (sql_error + verify_result)" where
  "verifyChallenge a i db = db_transaction db
     (case applyRateLimits (sql_clock a) 0 (verify_limits (vi_emailDigest i) (vi_ipDigest i)) (rate_limits db) of
        Inl e \<Rightarrow> Inl e
      | Inr (Some retry, rows) \<Rightarrow> Inr (VerifyRateLimited retry, cleanupTemporaryState a (db\<lparr>rate_limits := rows\<rparr>))
      | Inr (None, rows) \<Rightarrow> Inr (verify_attempt a i (db\<lparr>rate_limits := rows\<rparr>)))"

definition deleteUndeliveredChallenge :: "jsstring \<Rightarrow> buffer \<Rightarrow> email_db \<Rightarrow> email_db" where
  "deleteUndeliveredChallenge iid otp db =
     db\<lparr>challenges := filter (\<lambda>c. \<not> (intent_id c = sql_uuid iid \<and> otp_digest c = otp \<and> open_challenge c)) (challenges db)\<rparr>"

definition consume_guard :: "int \<Rightarrow> jsstring \<Rightarrow> buffer \<Rightarrow> buffer \<Rightarrow> challenge \<Rightarrow> bool" where
  "consume_guard t iid email token c \<longleftrightarrow>
     matches_challenge iid email c \<and> verification_token_digest c = Some token \<and>
     verified_at c \<noteq> None \<and> consumed_at c = None \<and> expires_at c > t"

definition consumeVerification :: "int \<Rightarrow> jsstring \<Rightarrow> buffer \<Rightarrow> buffer \<Rightarrow> email_db \<Rightarrow> email_db \<times> bool" where
  "consumeVerification t iid email token db =
     (let (rows, n) = sql_update (consume_guard t iid email token) (\<lambda>c. c\<lparr>consumed_at := Some t\<rparr>) (challenges db)
      in (db\<lparr>challenges := rows\<rparr>, n = 1))"

definition cleanupExpired :: "ambient \<Rightarrow> email_db \<Rightarrow> email_db" where
  "cleanupExpired a db = cleanupTemporaryState a db"

section \<open>Events\<close>

datatype store_event =
  Create ambient new_challenge
| Resend ambient new_challenge
| Verify ambient verify_input
| DeleteUndelivered jsstring buffer
| Consume int jsstring buffer buffer
| Cleanup ambient

datatype store_outcome =
  CreateOut "sql_error + create_result"
| ResendOut "sql_error + resend_result"
| VerifyOut "sql_error + verify_result"
| ConsumeOut bool
| Done

fun store_step :: "email_db \<Rightarrow> store_event \<Rightarrow> email_db \<times> store_outcome" where
  "store_step db (Create a ch) = map_prod id CreateOut (createChallenge a ch db)"
| "store_step db (Resend a ch) = map_prod id ResendOut (resendChallenge a ch db)"
| "store_step db (Verify a i) = map_prod id VerifyOut (verifyChallenge a i db)"
| "store_step db (DeleteUndelivered iid otp) = (deleteUndeliveredChallenge iid otp db, Done)"
| "store_step db (Consume t iid email token) = map_prod id ConsumeOut (consumeVerification t iid email token db)"
| "store_step db (Cleanup a) = (cleanupExpired a db, Done)"

definition empty_email_db :: email_db where
  "empty_email_db = \<lparr>challenges = [], rate_limits = []\<rparr>"

end
