(* ===== verification/EmailStoreSafety.thy ===== *)
theory EmailStoreSafety
  imports EmailStore
begin

text \<open>
  What the store promises.  \<open>spec_step\<close> is the abstract store: it says which challenge rows each
  successful answer may have changed and forgets statements, clocks and rate limits.  Under the
  table's uniqueness the concrete operations refine it (\<open>store_step_refines\<close>), and the properties of
  runs (one consumption per verification, a bounded number of guesses, no consumption without a
  matching code) are invariants of the abstract store, transferred by \<open>invariant_system\<close>.
\<close>

named_theorems store_defs \<open>definitions of the store operations\<close>

declare createChallenge_def [store_defs] resendChallenge_def [store_defs] verifyChallenge_def [store_defs]
  deleteUndeliveredChallenge_def [store_defs] consumeVerification_def [store_defs] cleanupExpired_def [store_defs]
  db_transaction_def [store_defs] insert_challenge_def [store_defs] resend_apply_def [store_defs]
  verify_attempt_def [store_defs] verify_apply_def [store_defs] sql_update_def [store_defs] Let_def [store_defs]

section \<open>Cleanup only removes stale rows\<close>

lemma cleanup_batches_filter:
  assumes "\<And>i rows. \<exists>P. fst (del i rows) = filter P rows \<and> (\<forall>r. \<not> P r \<longrightarrow> v r)"
  shows "\<exists>P. cleanup_batches n i ms d del rows = filter P rows \<and> (\<forall>r. \<not> P r \<longrightarrow> v r)"
proof (induction n arbitrary: i rows)
  case 0
  have "rows = filter (\<lambda>_. True) rows" by simp
  then show ?case by (metis cleanup_batches.simps(1))
next
  case (Suc n)
  obtain rows' k where d: "del i rows = (rows', k)" by force
  obtain P where P: "rows' = filter P rows" "\<forall>r. \<not> P r \<longrightarrow> v r"
    using assms [of i rows] d by auto
  obtain Q where Q: "cleanup_batches n (Suc i) ms d del rows' = filter Q rows'" "\<forall>r. \<not> Q r \<longrightarrow> v r"
    using Suc.IH by blast
  have "filter Q rows' = filter (\<lambda>r. P r \<and> Q r) rows" using P(1) by (simp add: conj_commute)
  moreover have "cleanup_batches (Suc n) i ms d del rows \<in>
      {filter (\<lambda>_. True) rows, filter P rows, cleanup_batches n (Suc i) ms d del rows'}"
    by (simp add: d P(1))
  ultimately consider "cleanup_batches (Suc n) i ms d del rows = filter (\<lambda>_. True) rows"
    | "cleanup_batches (Suc n) i ms d del rows = filter P rows"
    | "cleanup_batches (Suc n) i ms d del rows = filter (\<lambda>r. P r \<and> Q r) rows"
    using Q(1) by auto
  then show ?case using P(2) Q(2) by cases blast+
qed

lemma delete_first_filter: "fst (delete_first n v k rows) = filter (\<lambda>r. r \<notin> set (take n (sort_key k (filter v rows)))) rows"
  by (simp add: delete_first_def Let_def)

lemma delete_first_victim: "r \<in> set (take n (sort_key k (filter v rows))) \<Longrightarrow> v r"
  by (auto dest: in_set_takeD)

lemma cleanup_challenges:
  "\<exists>P. challenges (cleanupTemporaryState a db) = filter P (challenges db) \<and>
     (\<forall>c. \<not> P c \<longrightarrow> (\<exists>i. stale_challenge (sql_clock a (100 + i)) c \<and> \<not> challenge_locked a c))"
  by (simp add: cleanupTemporaryState_def cleanupTableInBatches_def, rule cleanup_batches_filter)
     (auto simp: delete_first_filter dest!: delete_first_victim intro!: exI)

lemma cleanup_challenges_filter: "\<exists>P. challenges (cleanupTemporaryState a db) = filter P (challenges db)"
  using cleanup_challenges by blast

lemma delete_first_idle: "(\<And>r. r \<in> set rows \<Longrightarrow> \<not> v r) \<Longrightarrow> delete_first n v k rows = (rows, 0)"
  by (simp add: delete_first_def filter_empty_conv [THEN iffD2] Let_def)

lemma cleanup_batches_idle: "(\<And>j. del j rows = (rows, 0)) \<Longrightarrow> cleanup_batches n i ms d del rows = rows"
  by (cases n) (auto simp: CLEANUP_BATCH_SIZE_def)

text \<open>Cleanup without stale rows changes nothing.\<close>

lemma cleanup_idle:
  assumes "\<forall>c \<in> set (challenges db). \<forall>i. \<not> stale_challenge (sql_clock a (100 + i)) c"
    and "\<forall>r \<in> set (rate_limits db). \<forall>i. \<not> stale_rate (sql_clock a (200 + i)) r"
  shows "cleanupTemporaryState a db = db"
  using assms by (simp add: cleanupTemporaryState_def cleanupTableInBatches_def cleanup_batches_idle delete_first_idle)

section \<open>The abstract store\<close>

definition upd :: "('r \<Rightarrow> bool) \<Rightarrow> ('r \<Rightarrow> 'r) \<Rightarrow> 'r list \<Rightarrow> 'r list" where
  "upd p f = map (\<lambda>r. if p r then f r else r)"

lemma fst_sql_update: "fst (sql_update p f rows) = upd p f rows"
  by (simp add: sql_update_def upd_def)

text \<open>The answers that report a change of the challenge table.\<close>

fun progress :: "store_outcome \<Rightarrow> bool" where
  "progress (CreateOut (Inr Created)) = True"
| "progress (ResendOut (Inr ResendSent)) = True"
| "progress (VerifyOut (Inr (Verified _))) = True"
| "progress (VerifyOut (Inr (Invalid _))) = True"
| "progress (ConsumeOut b) = b"
| "progress _ = False"

inductive spec_step :: "challenge list \<Rightarrow> store_event \<Rightarrow> store_outcome \<Rightarrow> challenge list \<Rightarrow> bool" where
  idle: "\<not> progress out \<Longrightarrow> spec_step cs e out (filter P cs)"
| create: "intent_id (new_challenge_row t ch) \<notin> intent_id ` set cs \<Longrightarrow>
    spec_step cs (Create a ch) (CreateOut (Inr Created)) (filter P (cs @ [new_challenge_row t ch]))"
| resend: "length (filter (resend_guard t ch) cs) = 1 \<Longrightarrow>
    spec_step cs (Resend a ch) (ResendOut (Inr ResendSent)) (filter P (upd (resend_guard t ch) (resend_assign t ch) cs))"
| attempt: "c0 \<in> set cs \<Longrightarrow> attempt_guard t i c0 \<Longrightarrow> (\<forall>s. r \<noteq> Verified s) \<Longrightarrow>
    spec_step cs (Verify a i) (VerifyOut (Inr r)) (filter P (upd (attempt_guard t i) attempt_assign cs))"
| verify: "c0 \<in> set cs \<Longrightarrow> attempt_guard t i c0 \<Longrightarrow> otp_digest c0 = vi_otpDigest i \<Longrightarrow>
    spec_step cs (Verify a i) (VerifyOut (Inr (Verified s)))
      (filter P (upd (verify_guard t' i) (verify_assign t' i) (upd (attempt_guard t i) attempt_assign cs)))"
| consume: "length (filter (consume_guard t iid email token) cs) = 1 \<Longrightarrow>
    spec_step cs (Consume t iid email token) (ConsumeOut True)
      (upd (consume_guard t iid email token) (\<lambda>c. c\<lparr>consumed_at := Some t\<rparr>) cs)"

section \<open>Refinement\<close>

lemma find_some_in: "find p xs = Some x \<Longrightarrow> x \<in> set xs \<and> p x"
  by (auto simp: find_Some_iff)

lemma spec_idleI: "\<exists>P. cs' = filter P cs \<Longrightarrow> \<not> progress out \<Longrightarrow> spec_step cs e out cs'"
  by (auto intro: spec_step.idle)

lemma filter_all [simp]: "\<exists>P. xs = filter P xs"
  by (rule exI [of _ "\<lambda>_. True"]) simp

lemma spec_unchanged: "\<not> progress out \<Longrightarrow> spec_step cs e out cs"
  using spec_step.idle [of out cs e "\<lambda>_. True"] by simp

lemma applyRateLimits_cases:
  obtains e where "applyRateLimits clk i ls rows = Inl e"
  | n rows' where "applyRateLimits clk i ls rows = Inr (Some n, rows')"
  | rows' where "applyRateLimits clk i ls rows = Inr (None, rows')"
proof (cases "applyRateLimits clk i ls rows")
  case (Inl e)
  then show thesis by (rule that(1))
next
  case (Inr b)
  then show thesis using that(2,3) by (cases b, cases "fst b") auto
qed

lemma cleanup_after:
  obtains P where "challenges (cleanupTemporaryState a db) = filter P (challenges db)"
  using cleanup_challenges_filter by blast

lemma create_refines:
  assumes "createChallenge a ch db = (db', r)"
  shows "spec_step (challenges db) (Create a ch) (CreateOut r) (challenges db')"
proof (cases rule: applyRateLimits_cases [of "sql_clock a" 0 "send_limits (nc_emailDigest ch) (nc_ipDigest ch)" "rate_limits db"])
  case (1 e)
  then show ?thesis using assms by (auto simp: store_defs intro: spec_unchanged)
next
  case (2 n rows')
  then show ?thesis using assms cleanup_challenges_filter [of a "db\<lparr>rate_limits := rows'\<rparr>"]
    by (auto simp: store_defs intro!: spec_idleI)
next
  case (3 rows')
  let ?row = "new_challenge_row (sql_clock a 2) ch"
  show ?thesis
  proof (cases "list_ex (\<lambda>c. intent_id c = intent_id ?row) (challenges db)")
    case True
    then show ?thesis using assms 3 by (auto simp: store_defs intro: spec_unchanged)
  next
    case False
    obtain P where "challenges (cleanupTemporaryState a (db\<lparr>rate_limits := rows', challenges := challenges db @ [?row]\<rparr>)) =
        filter P (challenges db @ [?row])"
      using cleanup_challenges_filter [of a "db\<lparr>rate_limits := rows', challenges := challenges db @ [?row]\<rparr>"] by auto
    moreover have "intent_id ?row \<notin> intent_id ` set (challenges db)"
      using False by (auto simp: list_ex_iff)
    ultimately show ?thesis using assms 3 False spec_step.create [of "sql_clock a 2" ch "challenges db" a P]
      by (auto simp: store_defs)
  qed
qed

text \<open>With unique identifiers a statement keyed by one identifier touches at most one row.\<close>

definition unique_intents :: "challenge list \<Rightarrow> bool" where
  "unique_intents cs \<longleftrightarrow> distinct (map intent_id cs)"

lemma upd_none: "length (filter p rows) = 0 \<Longrightarrow> upd p f rows = rows"
  by (induction rows) (auto simp: upd_def)

definition keyed :: "(challenge \<Rightarrow> bool) \<Rightarrow> bool" where
  "keyed p \<longleftrightarrow> (\<exists>k. \<forall>c. p c \<longrightarrow> intent_id c = k)"

lemma keyed_at_most_one:
  assumes "unique_intents cs" and "keyed p"
  shows "length (filter p cs) \<le> 1"
  using assms(1)
proof (induction cs)
  case Nil
  then show ?case by simp
next
  case (Cons c cs)
  obtain k where k: "\<And>c. p c \<Longrightarrow> intent_id c = k" using assms(2) by (auto simp: keyed_def)
  show ?case
  proof (cases "p c")
    case True
    have "\<not> p d" if "d \<in> set cs" for d
    proof
      assume "p d"
      then have "intent_id d = intent_id c" using k True by simp
      then have "intent_id c \<in> intent_id ` set cs" using that by (metis imageI)
      then show False using Cons.prems by (simp add: unique_intents_def)
    qed
    then have "filter p cs = []" by (simp add: filter_empty_conv)
    then show ?thesis by simp
  next
    case False
    then show ?thesis using Cons by (simp add: unique_intents_def)
  qed
qed

lemma unique_same: "unique_intents cs \<Longrightarrow> c \<in> set cs \<Longrightarrow> d \<in> set cs \<Longrightarrow> intent_id c = intent_id d \<Longrightarrow> c = d"
  by (auto simp: unique_intents_def distinct_map dest: inj_onD)

lemma keyed_cases:
  assumes "unique_intents cs" and "keyed p"
  obtains "length (filter p cs) = 0" | "length (filter p cs) = 1"
  using keyed_at_most_one [OF assms] by linarith

lemma keyed_guards [simp]:
  "keyed (resend_guard t ch)" "keyed (attempt_guard t i)" "keyed (verify_guard t i)"
  "keyed (consume_guard t iid em tok)"
  by (auto simp: keyed_def resend_guard_def attempt_guard_def verify_guard_def consume_guard_def
      matches_challenge_def)

lemma attempt_assign_simps [simp]:
  "intent_id (attempt_assign c) = intent_id c" "email_digest (attempt_assign c) = email_digest c"
  "otp_digest (attempt_assign c) = otp_digest c" "attempt_count (attempt_assign c) = attempt_count c + 1"
  "verified_at (attempt_assign c) = verified_at c" "consumed_at (attempt_assign c) = consumed_at c"
  "send_count (attempt_assign c) = send_count c" "expires_at (attempt_assign c) = expires_at c"
  "verification_token_digest (attempt_assign c) = verification_token_digest c"
  by (simp_all add: attempt_assign_def)

lemma unique_upd:
  assumes "\<And>c. intent_id (f c) = intent_id c"
  shows "unique_intents (upd p f cs) = unique_intents cs"
proof -
  have "map intent_id (upd p f cs) = map intent_id cs" using assms by (simp add: upd_def)
  then show ?thesis by (simp add: unique_intents_def)
qed

lemma unique_filter: "unique_intents cs \<Longrightarrow> unique_intents (filter P cs)"
  by (simp add: unique_intents_def distinct_map_filter_rows)

lemma resend_apply_refines:
  assumes u: "unique_intents (challenges db)" and r: "resend_apply a ch db = (out, db')"
  shows "spec_step (challenges db) (Resend a ch) (ResendOut (Inr out)) (challenges db')"
proof (cases rule: keyed_cases [OF u keyed_guards(1) [of "sql_clock a 3" ch]])
  case 1
  let ?db1 = "db\<lparr>challenges := upd (resend_guard (sql_clock a 3) ch) (resend_assign (sql_clock a 3) ch) (challenges db)\<rparr>"
  have "challenges ?db1 = challenges db" using 1 by (simp add: upd_none)
  then show ?thesis using r 1 cleanup_challenges_filter [of a ?db1]
    by (auto simp: resend_apply_def sql_update_def upd_def [symmetric] Let_def split: if_splits intro!: spec_idleI)
next
  case 2
  let ?db1 = "db\<lparr>challenges := upd (resend_guard (sql_clock a 3) ch) (resend_assign (sql_clock a 3) ch) (challenges db)\<rparr>"
  obtain P where "challenges (cleanupTemporaryState a ?db1) = filter P (challenges ?db1)" by (rule cleanup_after)
  then show ?thesis using r 2 spec_step.resend [OF 2, of a P]
    by (auto simp: resend_apply_def sql_update_def upd_def [symmetric])
qed

lemma resend_refines:
  assumes u: "unique_intents (challenges db)" and r: "resendChallenge a ch db = (db', out)"
  shows "spec_step (challenges db) (Resend a ch) (ResendOut out) (challenges db')"
proof (cases rule: applyRateLimits_cases [of "sql_clock a" 1 "send_limits (nc_emailDigest ch) (nc_ipDigest ch)" "rate_limits db"])
  case (1 e)
  then show ?thesis using r
    by (auto simp: resendChallenge_def db_transaction_def intro: spec_unchanged split: option.splits if_splits)
next
  case (2 n rows')
  then show ?thesis using r cleanup_challenges_filter [of a "db\<lparr>rate_limits := rows'\<rparr>"]
    by (auto simp: resendChallenge_def db_transaction_def intro: spec_unchanged intro!: spec_idleI
        split: option.splits if_splits)
next
  case (3 rows')
  obtain o' db1 where ap: "resend_apply a ch (db\<lparr>rate_limits := rows'\<rparr>) = (o', db1)" by force
  have "spec_step (challenges db) (Resend a ch) (ResendOut (Inr o')) (challenges db1)"
    using resend_apply_refines [OF _ ap] u by simp
  then show ?thesis using r 3 ap
    by (auto simp: resendChallenge_def db_transaction_def intro: spec_unchanged split: option.splits if_splits)
qed

lemma verify_apply_refines:
  fixes t i cs
  defines "cs1 \<equiv> upd (attempt_guard t i) attempt_assign cs"
  assumes u: "unique_intents cs" and db: "challenges db = cs1" and c0: "c0 \<in> set cs" "attempt_guard t i c0"
    and otp: "otp_digest c0 = vi_otpDigest i" and r: "verify_apply a i db = (out, db')"
  shows "spec_step cs (Verify a i) (VerifyOut (Inr out)) (challenges db')"
proof -
  let ?t = "sql_clock a 4" and ?g = "verify_guard (sql_clock a 4) i"
  let ?db1 = "db\<lparr>challenges := upd ?g (verify_assign ?t i) cs1\<rparr>"
  obtain P where P: "challenges (cleanupTemporaryState a ?db1) = filter P (upd ?g (verify_assign ?t i) cs1)"
    using cleanup_challenges_filter [of a ?db1] by auto
  have "unique_intents cs1" using u by (simp add: cs1_def unique_upd)
  then consider "length (filter ?g cs1) = 0" | "length (filter ?g cs1) = 1"
    by (rule keyed_cases [OF _ keyed_guards(3)])
  then show ?thesis
  proof cases
    case 1
    then have "upd ?g (verify_assign ?t i) cs1 = cs1" by (rule upd_none)
    moreover from 1 have "filter ?g cs1 = []" by simp
    ultimately have "challenges db' = filter P cs1" and "\<forall>s. out \<noteq> Verified s"
      using r P db by (auto simp: verify_apply_def sql_update_def upd_def [symmetric] Let_def split: if_splits)
    then show ?thesis using spec_step.attempt [OF c0, of out a P] by (simp add: cs1_def)
  next
    case 2
    then obtain c where "filter ?g cs1 = [c]" by (auto simp: length_Suc_conv)
    then have "challenges db' = filter P (upd ?g (verify_assign ?t i) cs1)" and "\<exists>s. out = Verified s"
      using r P db by (auto simp: verify_apply_def sql_update_def upd_def [symmetric] Let_def)
    then show ?thesis using spec_step.verify [OF c0 otp, of a] by (auto simp: cs1_def)
  qed
qed

lemma verify_attempt_refines:
  assumes u: "unique_intents (challenges db)" and r: "verify_attempt a i db = (out, db')"
  shows "spec_step (challenges db) (Verify a i) (VerifyOut (Inr out)) (challenges db')"
proof (cases "find (attempt_guard (sql_clock a 2) i) (challenges db)")
  case None
  moreover have "\<not> progress (VerifyOut (Inr (explain_rejection a i db)))"
    by (auto simp: explain_rejection_def split: option.splits)
  ultimately show ?thesis using r cleanup_challenges_filter [of a db]
    by (auto simp: verify_attempt_def Let_def intro!: spec_idleI)
next
  case (Some c0)
  then have c0: "c0 \<in> set (challenges db)" "attempt_guard (sql_clock a 2) i c0" by (auto dest: find_some_in)
  let ?db1 = "db\<lparr>challenges := upd (attempt_guard (sql_clock a 2) i) attempt_assign (challenges db)\<rparr>"
  show ?thesis
  proof (cases "otp_digest c0 = vi_otpDigest i")
    case True
    then have "verify_apply a i ?db1 = (out, db')"
      using r Some by (simp add: verify_attempt_def Let_def fst_sql_update)
    from verify_apply_refines [OF u _ c0 True this] show ?thesis by simp
  next
    case False
    obtain P where "challenges (cleanupTemporaryState a ?db1) = filter P (challenges ?db1)" by (rule cleanup_after)
    then show ?thesis using r Some False spec_step.attempt [OF c0, of out a P]
      by (auto simp: verify_attempt_def Let_def fst_sql_update split: if_splits)
  qed
qed

lemma verify_refines:
  assumes u: "unique_intents (challenges db)" and r: "verifyChallenge a i db = (db', out)"
  shows "spec_step (challenges db) (Verify a i) (VerifyOut out) (challenges db')"
proof (cases rule: applyRateLimits_cases [of "sql_clock a" 0 "verify_limits (vi_emailDigest i) (vi_ipDigest i)" "rate_limits db"])
  case (1 e)
  then show ?thesis using r by (auto simp: verifyChallenge_def db_transaction_def intro: spec_unchanged)
next
  case (2 n rows')
  then show ?thesis using r cleanup_challenges_filter [of a "db\<lparr>rate_limits := rows'\<rparr>"]
    by (auto simp: verifyChallenge_def db_transaction_def intro!: spec_idleI)
next
  case (3 rows')
  obtain o' db1 where at: "verify_attempt a i (db\<lparr>rate_limits := rows'\<rparr>) = (o', db1)" by force
  have "spec_step (challenges db) (Verify a i) (VerifyOut (Inr o')) (challenges db1)"
    using verify_attempt_refines [OF _ at] u by simp
  then show ?thesis using r 3 at by (auto simp: verifyChallenge_def db_transaction_def)
qed

lemma consume_refines:
  assumes u: "unique_intents (challenges db)" and r: "consumeVerification t iid em tok db = (db', b)"
  shows "spec_step (challenges db) (Consume t iid em tok) (ConsumeOut b) (challenges db')"
proof (cases rule: keyed_cases [OF u keyed_guards(4) [of t iid em tok]])
  case 1
  then show ?thesis using r upd_none [OF 1] spec_unchanged [of "ConsumeOut False"]
    by (auto simp: consumeVerification_def sql_update_def upd_def [symmetric])
next
  case 2
  then show ?thesis using r spec_step.consume [OF 2]
    by (auto simp: consumeVerification_def sql_update_def upd_def [symmetric])
qed

lemma store_step_refines:
  assumes "unique_intents (challenges db)" and "store_step db e = (db', out)"
  shows "spec_step (challenges db) e out (challenges db')"
proof (cases e)
  case (Create a ch)
  then show ?thesis using assms create_refines [of a ch db]
    by (cases "createChallenge a ch db") (auto simp: map_prod_def)
next
  case (Resend a ch)
  then show ?thesis using assms resend_refines [of db a ch]
    by (cases "resendChallenge a ch db") (auto simp: map_prod_def)
next
  case (Verify a i)
  then show ?thesis using assms verify_refines [of db a i]
    by (cases "verifyChallenge a i db") (auto simp: map_prod_def)
next
  case (DeleteUndelivered iid otp)
  then have "\<exists>P. challenges db' = filter P (challenges db)" and "out = Done"
    using assms by (auto simp: deleteUndeliveredChallenge_def)
  then show ?thesis by (auto intro: spec_idleI)
next
  case (Consume t iid em tok)
  then show ?thesis using assms consume_refines [of db t iid em tok]
    by (cases "consumeVerification t iid em tok db") (auto simp: map_prod_def)
next
  case (Cleanup a)
  then show ?thesis using assms cleanup_challenges_filter [of a db]
    by (auto simp: cleanupExpired_def intro!: spec_idleI)
qed

section \<open>The checks of the table hold in every state\<close>

definition row_wf :: "challenge \<Rightarrow> bool" where
  "row_wf c \<longleftrightarrow> 0 \<le> attempt_count c \<and> attempt_count c \<le> 5 \<and> 1 \<le> send_count c \<and> send_count c \<le> 3 \<and>
     (verified_at c = None) = (verification_token_digest c = None) \<and>
     (consumed_at c \<noteq> None \<longrightarrow> verified_at c \<noteq> None)"

definition table_wf :: "challenge list \<Rightarrow> bool" where
  "table_wf cs \<longleftrightarrow> unique_intents cs \<and> (\<forall>c \<in> set cs. row_wf c)"

lemma set_upd: "c' \<in> set (upd p f cs) \<longleftrightarrow> (\<exists>c \<in> set cs. c' = (if p c then f c else c))"
  by (auto simp: upd_def)

lemma table_wf_filter: "table_wf cs \<Longrightarrow> table_wf (filter P cs)"
  by (auto simp: table_wf_def unique_filter)

lemma table_wf_upd:
  assumes "table_wf cs" and "\<And>c. intent_id (f c) = intent_id c" and "\<And>c. row_wf c \<Longrightarrow> p c \<Longrightarrow> row_wf (f c)"
  shows "table_wf (upd p f cs)"
  using assms by (auto simp: table_wf_def unique_upd set_upd)

lemma row_wf_assigns:
  "row_wf (new_challenge_row t ch)"
  "row_wf c \<Longrightarrow> resend_guard t ch c \<Longrightarrow> row_wf (resend_assign t ch c)"
  "row_wf c \<Longrightarrow> attempt_guard t i c \<Longrightarrow> row_wf (attempt_assign c)"
  "row_wf c \<Longrightarrow> verify_guard t i c \<Longrightarrow> row_wf (verify_assign t i c)"
  "row_wf c \<Longrightarrow> consume_guard t iid em tok c \<Longrightarrow> row_wf (c\<lparr>consumed_at := Some t\<rparr>)"
  by (auto simp: row_wf_def new_challenge_row_def resend_guard_def resend_assign_def attempt_guard_def
      attempt_assign_def verify_guard_def verify_assign_def consume_guard_def open_challenge_def email_limits)

lemma assigns_keep_key [simp]:
  "intent_id (resend_assign t ch c) = intent_id c" "intent_id (verify_assign t i c) = intent_id c"
  by (simp_all add: resend_assign_def verify_assign_def)

lemma spec_step_table_wf: "spec_step cs e out cs' \<Longrightarrow> table_wf cs \<Longrightarrow> table_wf cs'"
proof (induction rule: spec_step.induct)
  case (idle out cs e P)
  then show ?case by (simp add: table_wf_filter)
next
  case (create t ch cs a P)
  then have "table_wf (cs @ [new_challenge_row t ch])"
    by (auto simp: table_wf_def unique_intents_def row_wf_assigns)
  then show ?case by (rule table_wf_filter)
next
  case (resend t ch cs a P)
  then show ?case by (auto intro!: table_wf_filter table_wf_upd row_wf_assigns)
next
  case (attempt c0 cs t i r a P)
  then show ?case by (auto intro!: table_wf_filter table_wf_upd row_wf_assigns)
next
  case (verify c0 cs t i a s P t')
  then show ?case by (auto intro!: table_wf_filter table_wf_upd intro: row_wf_assigns)
next
  case (consume t iid email token cs)
  then show ?case by (auto intro!: table_wf_upd row_wf_assigns)
qed

section \<open>Counting arguments\<close>

text \<open>
  A weight of a table is the sum of a weight of its rows.  Deleting rows lowers a non-negative
  weight, and an update changes it by at most a constant for each row it touches.
\<close>

definition weight :: "(challenge \<Rightarrow> int) \<Rightarrow> challenge list \<Rightarrow> int" where
  "weight w cs = sum_list (map w cs)"

lemma weight_filter: "\<forall>c \<in> set cs. 0 \<le> w c \<Longrightarrow> weight w (filter P cs) \<le> weight w cs"
  by (induction cs) (auto simp: weight_def)

lemma weight_nonneg: "\<forall>c \<in> set cs. 0 \<le> w c \<Longrightarrow> 0 \<le> weight w cs"
  by (induction cs) (auto simp: weight_def)

lemma weight_upd:
  assumes "\<forall>c \<in> set cs. p c \<longrightarrow> w (f c) \<le> w c + k"
  shows "weight w (upd p f cs) \<le> weight w cs + k * int (length (filter p cs))"
  using assms by (induction cs) (auto simp: weight_def upd_def algebra_simps)

lemma touched_one:
  assumes "unique_intents cs" "keyed p" "c0 \<in> set cs" "p c0"
  shows "length (filter p cs) = 1"
proof -
  have "filter p cs \<noteq> []" using assms(3,4) by (auto simp: filter_empty_conv)
  then show ?thesis using keyed_at_most_one [OF assms(1,2)] by (cases "filter p cs") auto
qed

text \<open>
  The rows of one identifier, weighted by the guesses, the resends and the consumptions they still
  allow.
\<close>

definition guesses_left :: "jsstring \<Rightarrow> challenge \<Rightarrow> int" where
  "guesses_left k c = (if intent_id c = k then 5 - attempt_count c else 0)"

definition resends_left :: "jsstring \<Rightarrow> challenge \<Rightarrow> int" where
  "resends_left k c = (if intent_id c = k then 3 - send_count c else 0)"

definition consumes_left :: "jsstring \<Rightarrow> challenge \<Rightarrow> int" where
  "consumes_left k c = (if intent_id c = k \<and> consumed_at c = None then 1 else 0)"

fun is_created :: "jsstring \<Rightarrow> store_event \<times> store_outcome \<Rightarrow> bool" where
  "is_created k (Create a ch, CreateOut (Inr Created)) = (sql_uuid (nc_intentId ch) = k)"
| "is_created k _ = False"

fun is_resent :: "jsstring \<Rightarrow> store_event \<times> store_outcome \<Rightarrow> bool" where
  "is_resent k (Resend a ch, ResendOut (Inr ResendSent)) = (sql_uuid (nc_intentId ch) = k)"
| "is_resent k _ = False"

fun is_guess :: "jsstring \<Rightarrow> store_event \<times> store_outcome \<Rightarrow> bool" where
  "is_guess k (Verify a i, VerifyOut (Inr (Verified _))) = (sql_uuid (vi_intentId i) = k)"
| "is_guess k (Verify a i, VerifyOut (Inr (Invalid _))) = (sql_uuid (vi_intentId i) = k)"
| "is_guess k _ = False"

fun is_consumed :: "jsstring \<Rightarrow> store_event \<times> store_outcome \<Rightarrow> bool" where
  "is_consumed k (Consume t iid em tok, ConsumeOut True) = (sql_uuid iid = k)"
| "is_consumed k _ = False"

definition count :: "('a \<Rightarrow> bool) \<Rightarrow> 'a list \<Rightarrow> int" where
  "count p hist = int (length (filter p hist))"

lemma count_snoc [simp]: "count p (hist @ [x]) = count p hist + (if p x then 1 else 0)"
  by (simp add: count_def)

lemma count_Nil [simp]: "count p [] = 0"
  by (simp add: count_def)

lemma counted_is_progress:
  "is_created k x \<Longrightarrow> progress (snd x)" "is_resent k x \<Longrightarrow> progress (snd x)"
  "is_guess k x \<Longrightarrow> progress (snd x)" "is_consumed k x \<Longrightarrow> progress (snd x)"
proof -
  show "is_created k x \<Longrightarrow> progress (snd x)" by (cases "(k, x)" rule: is_created.cases) auto
  show "is_resent k x \<Longrightarrow> progress (snd x)" by (cases "(k, x)" rule: is_resent.cases) auto
  show "is_guess k x \<Longrightarrow> progress (snd x)" by (cases "(k, x)" rule: is_guess.cases) auto
  show "is_consumed k x \<Longrightarrow> progress (snd x)" by (cases "(k, x)" rule: is_consumed.cases) auto
qed

lemma no_progress_no_count:
  "\<not> progress out \<Longrightarrow> \<not> is_created k (e, out) \<and> \<not> is_resent k (e, out) \<and> \<not> is_guess k (e, out) \<and> \<not> is_consumed k (e, out)"
  using counted_is_progress(1) [of k "(e, out)"] counted_is_progress(2) [of k "(e, out)"]
    counted_is_progress(3) [of k "(e, out)"] counted_is_progress(4) [of k "(e, out)"] by auto

definition budget_inv :: "jsstring \<Rightarrow> (store_event \<times> store_outcome) list \<Rightarrow> challenge list \<Rightarrow> bool" where
  "budget_inv k hist cs \<longleftrightarrow> table_wf cs \<and>
     count (is_guess k) hist + weight (guesses_left k) cs \<le> 5 * (count (is_created k) hist + count (is_resent k) hist) \<and>
     count (is_resent k) hist + weight (resends_left k) cs \<le> 2 * count (is_created k) hist \<and>
     count (is_consumed k) hist + weight (consumes_left k) cs \<le> count (is_created k) hist"

lemma left_nonneg:
  assumes "table_wf cs"
  shows "\<forall>c \<in> set cs. 0 \<le> guesses_left k c" "\<forall>c \<in> set cs. 0 \<le> resends_left k c" "\<forall>c \<in> set cs. 0 \<le> consumes_left k c"
  using assms by (auto simp: table_wf_def row_wf_def guesses_left_def resends_left_def consumes_left_def)

lemma left_filter:
  assumes "table_wf cs"
  shows "weight (guesses_left k) (filter P cs) \<le> weight (guesses_left k) cs"
    "weight (resends_left k) (filter P cs) \<le> weight (resends_left k) cs"
    "weight (consumes_left k) (filter P cs) \<le> weight (consumes_left k) cs"
  using left_nonneg [OF assms, of k] by (auto intro: weight_filter)

lemma weight_upd_one:
  assumes "length (filter p cs) = 1" and "\<forall>c \<in> set cs. p c \<longrightarrow> w (f c) \<le> w c + d"
  shows "weight w (upd p f cs) \<le> weight w cs + d"
  using weight_upd [OF assms(2)] assms(1) by simp

text \<open>An update that touches at most one row and never raises a weight keeps it.\<close>

lemma weight_upd_mono:
  assumes "\<forall>c \<in> set cs. p c \<longrightarrow> w (f c) \<le> w c"
  shows "weight w (upd p f cs) \<le> weight w cs"
  using weight_upd [of cs p w f 0] assms by simp

lemma budget_inv_prune: "budget_inv k hist cs \<Longrightarrow> budget_inv k hist (filter P cs)"
  unfolding budget_inv_def using left_filter [of cs k P] table_wf_filter [of cs P] by linarith

lemma budget_step_unpruned:
  assumes "spec_step cs e out cs'" and "budget_inv k hist cs"
  shows "budget_inv k (hist @ [(e, out)]) cs'"
  using assms
proof (induction rule: spec_step.induct)
  case (idle out cs e P)
  then have "budget_inv k hist (filter P cs)" by (simp add: budget_inv_prune)
  then show ?case using no_progress_no_count [OF idle(1), of k e] by (simp add: budget_inv_def)
next
  case (create t ch cs a P)
  let ?row = "new_challenge_row t ch"
  have "table_wf (cs @ [?row])"
    using create by (auto simp: budget_inv_def table_wf_def unique_intents_def row_wf_assigns)
  then have "budget_inv k (hist @ [(Create a ch, CreateOut (Inr Created))]) (cs @ [?row])"
    using create by (auto simp: budget_inv_def weight_def guesses_left_def resends_left_def
        consumes_left_def new_challenge_row_def)
  then show ?case by (rule budget_inv_prune)
next
  case (resend t ch cs a P)
  let ?u = "upd (resend_guard t ch) (resend_assign t ch) cs"
  let ?hit = "sql_uuid (nc_intentId ch) = k"
  have wf: "table_wf cs" using resend by (simp add: budget_inv_def)
  then have "table_wf ?u" by (auto intro!: table_wf_upd row_wf_assigns)
  moreover have "weight (guesses_left k) ?u \<le> weight (guesses_left k) cs + (if ?hit then 5 else 0)"
    using wf by (intro weight_upd_one [OF resend(1)])
      (auto simp: guesses_left_def resend_assign_def resend_guard_def matches_challenge_def table_wf_def row_wf_def)
  moreover have "weight (resends_left k) ?u \<le> weight (resends_left k) cs + (if ?hit then -1 else 0)"
    by (intro weight_upd_one [OF resend(1)])
      (auto simp: resends_left_def resend_assign_def resend_guard_def matches_challenge_def)
  moreover have "weight (consumes_left k) ?u \<le> weight (consumes_left k) cs"
    by (intro weight_upd_mono) (auto simp: consumes_left_def resend_assign_def)
  ultimately have "budget_inv k (hist @ [(Resend a ch, ResendOut (Inr ResendSent))]) ?u"
    using resend(2) by (auto simp: budget_inv_def)
  then show ?case by (rule budget_inv_prune)
next
  case (attempt c0 cs t i r a P)
  let ?u = "upd (attempt_guard t i) attempt_assign cs" and ?hit = "sql_uuid (vi_intentId i) = k"
  have wf: "table_wf cs" using attempt by (simp add: budget_inv_def)
  then have one: "length (filter (attempt_guard t i) cs) = 1"
    using touched_one [OF _ keyed_guards(2) attempt(1,2)] by (simp add: table_wf_def)
  have "table_wf ?u" using wf by (auto intro!: table_wf_upd row_wf_assigns)
  moreover have "weight (guesses_left k) ?u \<le> weight (guesses_left k) cs + (if ?hit then -1 else 0)"
    by (intro weight_upd_one [OF one]) (auto simp: guesses_left_def attempt_guard_def matches_challenge_def)
  moreover have "weight (resends_left k) ?u \<le> weight (resends_left k) cs"
    "weight (consumes_left k) ?u \<le> weight (consumes_left k) cs"
    by (auto intro!: weight_upd_mono simp: resends_left_def consumes_left_def)
  moreover have "is_guess k (Verify a i, VerifyOut (Inr r)) \<Longrightarrow> ?hit" by (cases r) auto
  ultimately have "budget_inv k (hist @ [(Verify a i, VerifyOut (Inr r))]) ?u"
    using attempt(4) by (auto simp: budget_inv_def split: if_splits)
  then show ?case by (rule budget_inv_prune)
next
  case (verify c0 cs t i a s P t')
  let ?u = "upd (attempt_guard t i) attempt_assign cs" and ?hit = "sql_uuid (vi_intentId i) = k"
  let ?v = "upd (verify_guard t' i) (verify_assign t' i) ?u"
  have wf: "table_wf cs" using verify by (simp add: budget_inv_def)
  then have one: "length (filter (attempt_guard t i) cs) = 1"
    using touched_one [OF _ keyed_guards(2) verify(1,2)] by (simp add: table_wf_def)
  have wfu: "table_wf ?u" using wf by (auto intro!: table_wf_upd row_wf_assigns)
  then have "table_wf ?v" by (auto intro!: table_wf_upd intro: row_wf_assigns)
  moreover have "weight (guesses_left k) ?u \<le> weight (guesses_left k) cs + (if ?hit then -1 else 0)"
    by (intro weight_upd_one [OF one]) (auto simp: guesses_left_def attempt_guard_def matches_challenge_def)
  moreover have "weight (resends_left k) ?u \<le> weight (resends_left k) cs"
    "weight (consumes_left k) ?u \<le> weight (consumes_left k) cs"
    by (auto intro!: weight_upd_mono simp: resends_left_def consumes_left_def)
  moreover have "weight (guesses_left k) ?v \<le> weight (guesses_left k) ?u"
    "weight (resends_left k) ?v \<le> weight (resends_left k) ?u"
    "weight (consumes_left k) ?v \<le> weight (consumes_left k) ?u"
    by (auto intro!: weight_upd_mono simp: guesses_left_def resends_left_def consumes_left_def verify_assign_def)
  ultimately have "budget_inv k (hist @ [(Verify a i, VerifyOut (Inr (Verified s)))]) ?v"
    using verify(4) by (auto simp: budget_inv_def split: if_splits)
  then show ?case by (rule budget_inv_prune)
next
  case (consume t iid email token cs)
  let ?u = "upd (consume_guard t iid email token) (\<lambda>c. c\<lparr>consumed_at := Some t\<rparr>) cs"
  have "table_wf ?u" using consume(2) by (auto simp: budget_inv_def intro!: table_wf_upd row_wf_assigns)
  moreover have "weight (consumes_left k) ?u \<le> weight (consumes_left k) cs + (if sql_uuid iid = k then -1 else 0)"
    by (intro weight_upd_one [OF consume(1)]) (auto simp: consumes_left_def consume_guard_def matches_challenge_def)
  moreover have "weight (guesses_left k) ?u \<le> weight (guesses_left k) cs"
    "weight (resends_left k) ?u \<le> weight (resends_left k) cs"
    by (auto intro!: weight_upd_mono simp: guesses_left_def resends_left_def)
  ultimately show ?case using consume(2) by (auto simp: budget_inv_def)
qed

interpretation email_budget: invariant_system store_step "\<lambda>hist db. budget_inv k hist (challenges db)"
proof unfold_locales
  fix hist s e s' out
  assume "budget_inv k hist (challenges s)" and st: "store_step s e = (s', out)"
  moreover from this have "spec_step (challenges s) e out (challenges s')"
    by (intro store_step_refines) (auto simp: budget_inv_def table_wf_def)
  ultimately show "budget_inv k (hist @ [(e, out)]) (challenges s')" by (intro budget_step_unpruned)
qed

lemma budget_inv_init: "budget_inv k [] (challenges empty_email_db)"
  by (simp add: budget_inv_def empty_email_db_def weight_def table_wf_def unique_intents_def)

lemma run_budget:
  "run_log store_step empty_email_db es = (hist, db) \<Longrightarrow> budget_inv k hist (challenges db)"
  using email_budget.reachable_inv [OF budget_inv_init, of k es] by simp

section \<open>A consumption is authorised by a code that was issued and entered\<close>

fun issued :: "jsstring \<Rightarrow> buffer \<Rightarrow> buffer \<Rightarrow> store_event \<times> store_outcome \<Rightarrow> bool" where
  "issued k em otp (Create a ch, CreateOut (Inr Created)) =
     (sql_uuid (nc_intentId ch) = k \<and> nc_emailDigest ch = em \<and> nc_otpDigest ch = otp)"
| "issued k em otp (Resend a ch, ResendOut (Inr ResendSent)) =
     (sql_uuid (nc_intentId ch) = k \<and> nc_emailDigest ch = em \<and> nc_otpDigest ch = otp)"
| "issued k em otp _ = False"

fun entered :: "jsstring \<Rightarrow> buffer \<Rightarrow> buffer \<Rightarrow> buffer \<Rightarrow> store_event \<times> store_outcome \<Rightarrow> bool" where
  "entered k em otp tok (Verify a i, VerifyOut (Inr (Verified s))) =
     (sql_uuid (vi_intentId i) = k \<and> vi_emailDigest i = em \<and> vi_otpDigest i = otp \<and> vi_tokenDigest i = tok)"
| "entered k em otp tok _ = False"

definition authorised :: "jsstring \<Rightarrow> buffer \<Rightarrow> buffer \<Rightarrow> (store_event \<times> store_outcome) list \<Rightarrow> bool" where
  "authorised k em tok hist \<longleftrightarrow>
     (\<exists>otp. (\<exists>x \<in> set hist. issued k em otp x) \<and> (\<exists>x \<in> set hist. entered k em otp tok x))"

text \<open>What the log of a run says about a row of the table.\<close>

definition row_justified :: "(store_event \<times> store_outcome) list \<Rightarrow> challenge \<Rightarrow> bool" where
  "row_justified hist c \<longleftrightarrow>
     (\<exists>x \<in> set hist. issued (intent_id c) (email_digest c) (otp_digest c) x) \<and>
     (\<forall>tok. verification_token_digest c = Some tok \<longrightarrow>
        (\<exists>x \<in> set hist. entered (intent_id c) (email_digest c) (otp_digest c) tok x))"

definition consumed_ok :: "(store_event \<times> store_outcome) list \<Rightarrow> bool" where
  "consumed_ok hist \<longleftrightarrow>
     (\<forall>h1 h2 t iid em tok. hist = h1 @ (Consume t iid em tok, ConsumeOut True) # h2 \<longrightarrow>
        authorised (sql_uuid iid) em tok h1)"

definition auth_inv :: "(store_event \<times> store_outcome) list \<Rightarrow> challenge list \<Rightarrow> bool" where
  "auth_inv hist cs \<longleftrightarrow> table_wf cs \<and> (\<forall>c \<in> set cs. row_justified hist c) \<and> consumed_ok hist"

lemma row_justified_mono: "row_justified hist c \<Longrightarrow> row_justified (hist @ [x]) c"
  by (auto simp: row_justified_def)

lemma row_justified_attempt [simp]: "row_justified hist (attempt_assign c) = row_justified hist c"
  by (simp add: row_justified_def)

lemma consumed_ok_snoc:
  assumes "consumed_ok hist"
    and "\<And>t iid em tok. x = (Consume t iid em tok, ConsumeOut True) \<Longrightarrow> authorised (sql_uuid iid) em tok hist"
  shows "consumed_ok (hist @ [x])"
  unfolding consumed_ok_def
proof (intro allI impI)
  fix h1 h2 t iid em tok
  assume eq: "hist @ [x] = h1 @ (Consume t iid em tok, ConsumeOut True) # h2"
  show "authorised (sql_uuid iid) em tok h1"
  proof (cases h2 rule: rev_cases)
    case Nil
    then show ?thesis using eq assms(2) by simp
  next
    case (snoc ys y)
    then have "hist = h1 @ (Consume t iid em tok, ConsumeOut True) # ys" using eq by simp
    then show ?thesis using assms(1) by (auto simp: consumed_ok_def)
  qed
qed

lemma not_consume_ok: "consumed_ok hist \<Longrightarrow> \<forall>t iid em tok. x \<noteq> (Consume t iid em tok, ConsumeOut True) \<Longrightarrow> consumed_ok (hist @ [x])"
  by (rule consumed_ok_snoc) auto

lemma auth_step:
  assumes "spec_step cs e out cs'" and "auth_inv hist cs"
  shows "auth_inv (hist @ [(e, out)]) cs'"
proof -
  have wf: "table_wf cs'" using spec_step_table_wf assms by (auto simp: auth_inv_def)
  have ok: "consumed_ok hist" and rows: "\<forall>c \<in> set cs. row_justified hist c"
    using assms(2) by (auto simp: auth_inv_def)
  from assms(1) have "(\<forall>c \<in> set cs'. row_justified (hist @ [(e, out)]) c) \<and> consumed_ok (hist @ [(e, out)])"
    using rows assms(2)
  proof (induction rule: spec_step.induct)
    case (idle out cs e P)
    then show ?case using ok by (auto intro!: row_justified_mono not_consume_ok)
  next
    case (create t ch cs a P)
    have "row_justified (hist @ [(Create a ch, CreateOut (Inr Created))]) (new_challenge_row t ch)"
      by (simp add: row_justified_def new_challenge_row_def)
    then show ?case using ok create by (auto intro: row_justified_mono intro!: not_consume_ok)
  next
    case (resend t ch cs a P)
    have "row_justified (hist @ [(Resend a ch, ResendOut (Inr ResendSent))]) (resend_assign t ch c)"
      if "c \<in> set cs" "resend_guard t ch c" for c
      using that resend(3) by (auto simp: row_justified_def resend_assign_def resend_guard_def matches_challenge_def
          open_challenge_def auth_inv_def table_wf_def row_wf_def)
    then show ?case using ok resend(2) by (auto simp: set_upd intro: row_justified_mono intro!: not_consume_ok)
  next
    case (attempt c0 cs t i r a P)
    show ?case using ok attempt by (auto simp: set_upd intro!: row_justified_mono not_consume_ok)
  next
    case (verify c0 cs t i a s P t')
    let ?x = "(Verify a i, VerifyOut (Inr (Verified s)))" and ?u = "upd (attempt_guard t i) attempt_assign cs"
    have u: "row_justified (hist @ [?x]) c" if "c \<in> set ?u" for c
      using that verify by (auto simp: set_upd intro: row_justified_mono)
    have "row_justified (hist @ [?x]) (verify_assign t' i c)" if c: "c \<in> set ?u" "verify_guard t' i c" for c
    proof -
      obtain d where d: "d \<in> set cs" "intent_id d = intent_id c" "otp_digest d = otp_digest c"
        using c(1) by (auto simp: set_upd split: if_splits)
      have "intent_id d = intent_id c0" using d(2) c(2) verify(2)
        by (simp add: verify_guard_def attempt_guard_def matches_challenge_def)
      then have "d = c0" using unique_same d(1) verify(1,5) by (auto simp: auth_inv_def table_wf_def)
      then have "otp_digest c = vi_otpDigest i" using d(3) verify(3) by simp
      then show ?thesis using u [OF c(1)] c(2)
        by (auto simp: row_justified_def verify_assign_def verify_guard_def matches_challenge_def)
    qed
    then show ?case using ok u by (auto simp: set_upd [of _ "verify_guard t' i"] intro!: not_consume_ok)
  next
    case (consume t iid em tok cs)
    let ?x = "(Consume t iid em tok, ConsumeOut True)"
    have same: "row_justified h (c\<lparr>consumed_at := Some t\<rparr>) = row_justified h c" for h c
      by (simp add: row_justified_def)
    have "row_justified (hist @ [?x]) c" if "c \<in> set cs" for c
      using that consume by (intro row_justified_mono) simp
    then have rows: "\<forall>c \<in> set (upd (consume_guard t iid em tok) (\<lambda>c. c\<lparr>consumed_at := Some t\<rparr>) cs).
        row_justified (hist @ [?x]) c"
      by (auto simp: set_upd same)
    obtain c where "c \<in> set cs" "consume_guard t iid em tok c"
      using consume(1) by (metis filter_False length_0_conv zero_neq_one)
    moreover from this have "row_justified hist c" using consume by blast
    ultimately have "authorised (sql_uuid iid) em tok hist"
      unfolding authorised_def
      by (intro exI [of _ "otp_digest c"]) (auto simp: row_justified_def consume_guard_def matches_challenge_def)
    then show ?case using rows ok by (auto intro!: consumed_ok_snoc)
  qed
  then show ?thesis using wf by (simp add: auth_inv_def)
qed

interpretation email_auth: invariant_system store_step "\<lambda>hist db. auth_inv hist (challenges db)"
proof unfold_locales
  fix hist s e s' out
  assume i: "auth_inv hist (challenges s)" and st: "store_step s e = (s', out)"
  then have "spec_step (challenges s) e out (challenges s')"
    by (intro store_step_refines) (auto simp: auth_inv_def table_wf_def)
  then show "auth_inv (hist @ [(e, out)]) (challenges s')" using i by (rule auth_step)
qed

lemma auth_inv_init: "auth_inv [] (challenges empty_email_db)"
  by (simp add: auth_inv_def empty_email_db_def table_wf_def unique_intents_def consumed_ok_def)

lemma run_auth: "run_log store_step empty_email_db es = (hist, db) \<Longrightarrow> auth_inv hist (challenges db)"
  using email_auth.reachable_inv [OF auth_inv_init, of es] by simp

end
