(* ===== verification/JsValue.thy ===== *)
theory JsValue
  imports JsPrelude
begin

text \<open>
  JavaScript values as the request handlers see them.  A number is a finite rational (every finite
  double is one), negative zero, an infinity or NaN; an untrusted value, \<^verbatim>\<open>unknown\<close> in the
  source, is a \<open>js_value\<close> whose objects list their own properties in order, each name once.
\<close>

datatype js_number = Fin rat | NegZero | PosInf | NegInf | NaN

datatype js_value =
  JUndefined
| JNull
| JBool bool
| JNum js_number
| JStr jsstring
| JArr "js_value list"
| JObj "(jsstring \<times> js_value) list"

text \<open>\<^verbatim>\<open>Number.isInteger\<close> and \<^verbatim>\<open>Number.isFinite\<close>; the rational value of a finite number.\<close>

fun num_value :: "js_number \<Rightarrow> rat option" where
  "num_value (Fin r) = Some r"
| "num_value NegZero = Some 0"
| "num_value _ = None"

definition is_finite_number :: "js_value \<Rightarrow> bool" where
  "is_finite_number v = (case v of JNum n \<Rightarrow> num_value n \<noteq> None | _ \<Rightarrow> False)"

definition rat_is_int :: "rat \<Rightarrow> bool" where
  "rat_is_int r \<longleftrightarrow> of_int (floor r) = r"

fun number_is_integer :: "js_number \<Rightarrow> bool" where
  "number_is_integer n = (case num_value n of None \<Rightarrow> False | Some r \<Rightarrow> rat_is_int r)"

definition safe_integer :: "js_number \<Rightarrow> int option" where
  "safe_integer n =
     (case num_value n of
        None \<Rightarrow> None
      | Some r \<Rightarrow> if rat_is_int r \<and> \<bar>r\<bar> \<le> 9007199254740991 then Some (floor r) else None)"

definition in_range :: "js_number \<Rightarrow> rat \<Rightarrow> rat \<Rightarrow> bool" where
  "in_range n lo hi = (case num_value n of None \<Rightarrow> False | Some r \<Rightarrow> lo \<le> r \<and> r \<le> hi)"

definition valid_coordinates :: "js_number \<Rightarrow> js_number \<Rightarrow> bool" where
  "valid_coordinates lat lon \<longleftrightarrow> in_range lat (-90) 90 \<and> in_range lon (-180) 180"

fun as_number :: "js_value \<Rightarrow> js_number option" where
  "as_number (JNum n) = Some n"
| "as_number _ = None"

lemma as_number_Some [simp]: "as_number v = Some n \<longleftrightarrow> v = JNum n"
  by (cases v) auto

lemma valid_coordinates_finite: "valid_coordinates lat lon \<Longrightarrow> num_value lat \<noteq> None \<and> num_value lon \<noteq> None"
  by (auto simp: valid_coordinates_def in_range_def split: option.splits)

definition jnat :: "int \<Rightarrow> js_value" where
  "jnat n = JNum (Fin (of_int n))"

text \<open>\<^verbatim>\<open>!v\<close>, and the number that \<^verbatim>\<open>JSON.stringify\<close> writes for the negative zero.\<close>

fun falsy :: "js_value \<Rightarrow> bool" where
  "falsy JUndefined = True"
| "falsy JNull = True"
| "falsy (JBool b) = (\<not> b)"
| "falsy (JNum n) = (num_value n = Some 0 \<or> n = NaN)"
| "falsy (JStr s) = (s = [])"
| "falsy _ = False"

fun no_negative_zero :: "js_number \<Rightarrow> js_number" where
  "no_negative_zero NegZero = Fin 0"
| "no_negative_zero n = n"

section \<open>Objects\<close>

text \<open>The guard \<^verbatim>\<open>isRecord\<close> that the request handlers share, property access and own keys.\<close>

definition isRecord :: "js_value \<Rightarrow> bool" where
  "isRecord v = (case v of JObj _ \<Rightarrow> True | _ \<Rightarrow> False)"

definition props :: "js_value \<Rightarrow> (jsstring \<times> js_value) list" where
  "props v = (case v of JObj ps \<Rightarrow> ps | _ \<Rightarrow> [])"

definition js_get :: "string \<Rightarrow> js_value \<Rightarrow> js_value" where
  "js_get k v = (case map_of (props v) (js k) of None \<Rightarrow> JUndefined | Some x \<Rightarrow> x)"

definition has_own :: "string \<Rightarrow> js_value \<Rightarrow> bool" where
  "has_own k v \<longleftrightarrow> js k \<in> fst ` set (props v)"

definition hasOnlyKeys :: "js_value \<Rightarrow> string list \<Rightarrow> string list \<Rightarrow> bool" where
  "hasOnlyKeys v required optional \<longleftrightarrow>
     list_all (\<lambda>k. has_own k v) required \<and>
     list_all (\<lambda>p. fst p \<in> js ` set required \<or> fst p \<in> js ` set optional) (props v)"

fun as_string :: "js_value \<Rightarrow> jsstring option" where
  "as_string (JStr s) = Some s"
| "as_string _ = None"

lemma as_string_Some [simp]: "as_string v = Some s \<longleftrightarrow> v = JStr s"
  by (cases v) auto

section \<open>Responses\<close>

text \<open>
  An HTTP answer: its status, the \<^verbatim>\<open>Cache-Control: no-store\<close> and \<^verbatim>\<open>Retry-After\<close> headers,
  and the JSON body.
\<close>

record http_response =
  status :: nat
  no_store :: bool
  retry_header :: "int option"
  body :: js_value

definition sendError :: "nat \<Rightarrow> string \<Rightarrow> int option \<Rightarrow> http_response" where
  "sendError st code retry =
     \<lparr>status = st, no_store = True, retry_header = retry,
      body = JObj [(js ''success'', JBool False), (js ''error'', JObj [(js ''code'', JStr (js code))])]\<rparr>"

definition error_code :: "http_response \<Rightarrow> js_value" where
  "error_code r = js_get ''code'' (js_get ''error'' (body r))"

definition succeeds :: "http_response \<Rightarrow> bool" where
  "succeeds r \<longleftrightarrow> js_get ''success'' (body r) = JBool True"

lemma sendError_fields [simp]:
  "status (sendError st code retry) = st" "no_store (sendError st code retry)"
  "retry_header (sendError st code retry) = retry"
  "error_code (sendError st code retry) = JStr (js code)" "\<not> succeeds (sendError st code retry)"
  by (simp_all add: sendError_def error_code_def succeeds_def js_get_def props_def js_def)

end
