(* ===== verification/EmailService.thy ===== *)
theory EmailService
  imports EmailStoreSafety JsValue
begin

text \<open>
  The e-mail verification service, \<^verbatim>\<open>services/emailVerification.service.ts\<close>, and its two
  request handlers, \<^verbatim>\<open>routes/emailVerification.routes.ts\<close>.

  The service is written against the interface \<^verbatim>\<open>EmailVerificationStore\<close>, here the record
  \<open>email_store\<close> over a database type of its own; the locale \<open>email_store_contract\<close> names what the
  service relies on, and the PostgreSQL store is shown to provide it.  The mail provider is an
  argument that says whether a message was accepted; the random draws of a call are its \<open>draws\<close>.
\<close>

section \<open>The store interface\<close>

record 'db email_store =
  st_create :: "ambient \<Rightarrow> new_challenge \<Rightarrow> 'db \<Rightarrow> 'db \<times> (sql_error + create_result)"
  st_resend :: "ambient \<Rightarrow> new_challenge \<Rightarrow> 'db \<Rightarrow> 'db \<times> (sql_error + resend_result)"
  st_verify :: "ambient \<Rightarrow> verify_input \<Rightarrow> 'db \<Rightarrow> 'db \<times> (sql_error + verify_result)"
  st_delete :: "jsstring \<Rightarrow> buffer \<Rightarrow> 'db \<Rightarrow> 'db"
  st_consume :: "int \<Rightarrow> jsstring \<Rightarrow> buffer \<Rightarrow> buffer \<Rightarrow> 'db \<Rightarrow> 'db \<times> bool"

definition postgres_store :: "email_db email_store" where
  "postgres_store =
     \<lparr>st_create = createChallenge, st_resend = resendChallenge, st_verify = verifyChallenge,
      st_delete = deleteUndeliveredChallenge, st_consume = consumeVerification\<rparr>"

section \<open>The service\<close>

record email_crypto =
  c_hmac :: hmac_fn
  c_lower :: "jsstring \<Rightarrow> jsstring"
  c_key :: jsstring

text \<open>The constructor of the cryptographic boundary refuses an empty key.\<close>

definition new_crypto :: "hmac_fn \<Rightarrow> (jsstring \<Rightarrow> jsstring) \<Rightarrow> jsstring \<Rightarrow> email_crypto option" where
  "new_crypto hm lower key = (if key = [] then None else Some \<lparr>c_hmac = hm, c_lower = lower, c_key = key\<rparr>)"

record draws =
  d_id :: buffer
  d_code :: nat
  d_token :: buffer

datatype locale_code = Sk | En

record request_input =
  ri_email :: jsstring
  ri_intentId :: "jsstring option"
  ri_ip :: jsstring
  ri_locale :: locale_code

datatype request_result =
  RequestSent jsstring int int
| RequestRateLimited int
| RequestCooldown int
| RequestSendLimit
| RequestExpired
| RequestNotFound
| RequestDeliveryFailed
| RequestInvalidEmail

fun resend_answer :: "resend_result \<Rightarrow> request_result option" where
  "resend_answer ResendSent = None"
| "resend_answer (ResendRateLimited n) = Some (RequestRateLimited n)"
| "resend_answer (ResendCooldown n) = Some (RequestCooldown n)"
| "resend_answer ResendSendLimit = Some RequestSendLimit"
| "resend_answer ResendExpired = Some RequestExpired"
| "resend_answer ResendNotFound = Some RequestNotFound"

fun create_answer :: "create_result \<Rightarrow> request_result option" where
  "create_answer Created = None"
| "create_answer (CreateRateLimited n) = Some (RequestRateLimited n)"

definition request_intent :: "draws \<Rightarrow> request_input \<Rightarrow> jsstring" where
  "request_intent d i = (case ri_intentId i of None \<Rightarrow> cryptoRandomUuid (d_id d) | Some s \<Rightarrow> s)"

definition request_challenge :: "email_crypto \<Rightarrow> draws \<Rightarrow> request_input \<Rightarrow> new_challenge" where
  "request_challenge c d i =
     (let email = normalizeVerificationEmail (c_lower c) (ri_email i);
          iid = request_intent d i;
          em = emailDigest (c_hmac c) (c_lower c) (c_key c) email in
      \<lparr>nc_intentId = iid, nc_emailDigest = em,
       nc_otpDigest = otpDigest (c_hmac c) (c_key c) iid em (createCode (d_code d)),
       nc_ipDigest = ipDigest (c_hmac c) (c_key c) (ri_ip i)\<rparr>)"

text \<open>The challenge is stored before the message is sent; a present but empty intent creates one.\<close>

definition store_request :: "'db email_store \<Rightarrow> ambient \<Rightarrow> request_input \<Rightarrow> new_challenge \<Rightarrow> 'db \<Rightarrow>
    'db \<times> (sql_error + request_result option)" where
  "store_request st a i ch db =
     (if ri_intentId i \<noteq> None \<and> ri_intentId i \<noteq> Some []
      then map_prod id (map_sum id resend_answer) (st_resend st a ch db)
      else map_prod id (map_sum id create_answer) (st_create st a ch db))"

type_synonym mail_provider = "jsstring \<Rightarrow> jsstring \<Rightarrow> locale_code \<Rightarrow> bool"

definition requestCode :: "'db email_store \<Rightarrow> mail_provider \<Rightarrow> email_crypto \<Rightarrow> ambient \<Rightarrow> draws \<Rightarrow> request_input \<Rightarrow>
    'db \<Rightarrow> 'db \<times> (sql_error + request_result)" where
  "requestCode st send c a d i db =
     (if \<not> isValidVerificationEmail (c_lower c) (ri_email i) then (db, Inr RequestInvalidEmail)
      else
        (let ch = request_challenge c d i in
         case store_request st a i ch db of
           (db1, Inl e) \<Rightarrow> (db1, Inl e)
         | (db1, Inr (Some answer)) \<Rightarrow> (db1, Inr answer)
         | (db1, Inr None) \<Rightarrow>
             (if send (normalizeVerificationEmail (c_lower c) (ri_email i)) (createCode (d_code d)) (ri_locale i)
              then (db1, Inr (RequestSent (nc_intentId ch) EMAIL_OTP_TTL_SECONDS EMAIL_OTP_RESEND_COOLDOWN_SECONDS))
              else (st_delete st (nc_intentId ch) (nc_otpDigest ch) db1, Inr RequestDeliveryFailed))))"

record code_input =
  ci_intentId :: jsstring
  ci_email :: jsstring
  ci_code :: jsstring
  ci_ip :: jsstring

datatype code_result =
  CodeVerified jsstring int
| CodeRejected verify_result
| CodeMalformed
| CodeInvalidEmail

definition code_challenge :: "email_crypto \<Rightarrow> draws \<Rightarrow> code_input \<Rightarrow> verify_input" where
  "code_challenge c d i =
     (let em = emailDigest (c_hmac c) (c_lower c) (c_key c) (ci_email i) in
      \<lparr>vi_intentId = ci_intentId i, vi_emailDigest = em, vi_ipDigest = ipDigest (c_hmac c) (c_key c) (ci_ip i),
       vi_otpDigest = otpDigest (c_hmac c) (c_key c) (ci_intentId i) em (ci_code i),
       vi_tokenDigest = verificationTokenDigest (c_hmac c) (c_key c) (ci_intentId i) em
         (createVerificationToken (d_token d))\<rparr>)"

definition verifyCode :: "'db email_store \<Rightarrow> email_crypto \<Rightarrow> ambient \<Rightarrow> draws \<Rightarrow> code_input \<Rightarrow> 'db \<Rightarrow>
    'db \<times> (sql_error + code_result)" where
  "verifyCode st c a d i db =
     (if \<not> isValidVerificationEmail (c_lower c) (ci_email i) then (db, Inr CodeInvalidEmail)
      else if \<not> code_shape (ci_code i) then (db, Inr CodeMalformed)
      else
        (case st_verify st a (code_challenge c d i) db of
           (db1, Inl e) \<Rightarrow> (db1, Inl e)
         | (db1, Inr (Verified s)) \<Rightarrow> (db1, Inr (CodeVerified (createVerificationToken (d_token d)) s))
         | (db1, Inr r) \<Rightarrow> (db1, Inr (CodeRejected r))))"

definition consumeSubmissionVerification :: "'db email_store \<Rightarrow> email_crypto \<Rightarrow> int \<Rightarrow> jsstring \<Rightarrow> jsstring \<Rightarrow> jsstring \<Rightarrow>
    'db \<Rightarrow> 'db \<times> bool" where
  "consumeSubmissionVerification st c t email iid token db =
     (if \<not> isValidVerificationEmail (c_lower c) email \<or> \<not> is_uuid_v4 iid \<or> \<not> token_shape token then (db, False)
      else
        (let em = emailDigest (c_hmac c) (c_lower c) (c_key c) email in
         st_consume st t iid em (verificationTokenDigest (c_hmac c) (c_key c) iid em token) db))"

section \<open>Request handlers\<close>

text \<open>
  \<open>service\<close> is absent when the feature has no store; the handlers then answer 404.  A thrown error
  (here a failed statement) is answered 503.
\<close>

definition INVALID_REQUEST :: http_response where
  "INVALID_REQUEST = sendError 400 ''EMAIL_VERIFICATION_INVALID_REQUEST'' None"

fun request_response :: "sql_error + request_result \<Rightarrow> http_response" where
  "request_response (Inl e) = sendError 503 ''EMAIL_VERIFICATION_UNAVAILABLE'' None"
| "request_response (Inr (RequestSent iid ttl retry)) =
     \<lparr>status = 200, no_store = True, retry_header = None,
      body = JObj [(js ''success'', JBool True), (js ''intentId'', JStr iid),
                   (js ''expiresInSeconds'', jnat ttl), (js ''retryAfterSeconds'', jnat retry)]\<rparr>"
| "request_response (Inr RequestInvalidEmail) = sendError 400 ''EMAIL_VERIFICATION_INVALID_EMAIL'' None"
| "request_response (Inr (RequestRateLimited n)) = sendError 429 ''EMAIL_VERIFICATION_RATE_LIMITED'' (Some n)"
| "request_response (Inr (RequestCooldown n)) = sendError 429 ''EMAIL_VERIFICATION_RESEND_COOLDOWN'' (Some n)"
| "request_response (Inr RequestSendLimit) = sendError 429 ''EMAIL_VERIFICATION_SEND_LIMIT'' None"
| "request_response (Inr RequestExpired) = sendError 410 ''EMAIL_VERIFICATION_EXPIRED'' None"
| "request_response (Inr RequestNotFound) = sendError 404 ''EMAIL_VERIFICATION_NOT_FOUND'' None"
| "request_response (Inr RequestDeliveryFailed) = sendError 503 ''EMAIL_VERIFICATION_DELIVERY_UNAVAILABLE'' None"

definition parse_locale :: "js_value \<Rightarrow> locale_code option" where
  "parse_locale v = (if v = JStr (js ''sk'') then Some Sk else if v = JStr (js ''en'') then Some En else None)"

text \<open>The body checks; the result is the input of the service.\<close>

definition parse_request :: "jsstring \<Rightarrow> js_value \<Rightarrow> request_input option" where
  "parse_request ip b =
     (case (as_string (js_get ''email'' b), parse_locale (js_get ''locale'' b)) of
        (Some email, Some loc) \<Rightarrow>
          (if isRecord b \<and> hasOnlyKeys b [''email'', ''locale''] [''intentId''] \<and> length email \<le> 320 then
             (case js_get ''intentId'' b of
                JUndefined \<Rightarrow> Some \<lparr>ri_email = email, ri_intentId = None, ri_ip = ip, ri_locale = loc\<rparr>
              | JStr s \<Rightarrow>
                  (if is_uuid_v4 s then Some \<lparr>ri_email = email, ri_intentId = Some s, ri_ip = ip, ri_locale = loc\<rparr> else None)
              | _ \<Rightarrow> None)
           else None)
      | _ \<Rightarrow> None)"

definition post_request :: "('db email_store \<times> mail_provider \<times> email_crypto) option \<Rightarrow> bool \<Rightarrow> ambient \<Rightarrow> draws \<Rightarrow>
    jsstring \<Rightarrow> js_value \<Rightarrow> 'db \<Rightarrow> 'db \<times> http_response" where
  "post_request service enabled a d ip b db =
     (case service of
        None \<Rightarrow> (db, sendError 404 ''EMAIL_VERIFICATION_DISABLED'' None)
      | Some (st, send, c) \<Rightarrow>
          if \<not> enabled then (db, sendError 404 ''EMAIL_VERIFICATION_DISABLED'' None)
          else (case parse_request ip b of
              None \<Rightarrow> (db, INVALID_REQUEST)
            | Some i \<Rightarrow> map_prod id request_response (requestCode st send c a d i db)))"

fun verify_response :: "sql_error + code_result \<Rightarrow> http_response" where
  "verify_response (Inl e) = sendError 503 ''EMAIL_VERIFICATION_UNAVAILABLE'' None"
| "verify_response (Inr (CodeVerified token ttl)) =
     \<lparr>status = 200, no_store = True, retry_header = None,
      body = JObj [(js ''success'', JBool True), (js ''verificationToken'', JStr token),
                   (js ''expiresInSeconds'', jnat ttl)]\<rparr>"
| "verify_response (Inr CodeInvalidEmail) = sendError 400 ''EMAIL_VERIFICATION_INVALID_EMAIL'' None"
| "verify_response (Inr CodeMalformed) = sendError 400 ''EMAIL_VERIFICATION_INVALID_CODE'' None"
| "verify_response (Inr (CodeRejected (VerifyRateLimited n))) = sendError 429 ''EMAIL_VERIFICATION_RATE_LIMITED'' (Some n)"
| "verify_response (Inr (CodeRejected (Invalid n))) = sendError 400 ''EMAIL_VERIFICATION_INVALID_CODE'' None"
| "verify_response (Inr (CodeRejected AttemptsExhausted)) = sendError 429 ''EMAIL_VERIFICATION_ATTEMPTS_EXHAUSTED'' None"
| "verify_response (Inr (CodeRejected Expired)) = sendError 410 ''EMAIL_VERIFICATION_EXPIRED'' None"
| "verify_response (Inr (CodeRejected AlreadyVerified)) = sendError 409 ''EMAIL_VERIFICATION_ALREADY_USED'' None"
| "verify_response (Inr (CodeRejected NotFound)) = sendError 404 ''EMAIL_VERIFICATION_NOT_FOUND'' None"
| "verify_response (Inr (CodeRejected (Verified s))) = sendError 503 ''EMAIL_VERIFICATION_UNAVAILABLE'' None"

definition parse_verify :: "jsstring \<Rightarrow> js_value \<Rightarrow> code_input option" where
  "parse_verify ip b =
     (case (as_string (js_get ''intentId'' b), as_string (js_get ''email'' b), as_string (js_get ''code'' b)) of
        (Some iid, Some email, Some code) \<Rightarrow>
          (if isRecord b \<and> hasOnlyKeys b [''intentId'', ''email'', ''code''] [] \<and> is_uuid_v4 iid \<and>
              length email \<le> 320 \<and> length code \<le> 32
           then Some \<lparr>ci_intentId = iid, ci_email = email, ci_code = code, ci_ip = ip\<rparr> else None)
      | _ \<Rightarrow> None)"

definition post_verify :: "('db email_store \<times> mail_provider \<times> email_crypto) option \<Rightarrow> bool \<Rightarrow> ambient \<Rightarrow> draws \<Rightarrow>
    jsstring \<Rightarrow> js_value \<Rightarrow> 'db \<Rightarrow> 'db \<times> http_response" where
  "post_verify service enabled a d ip b db =
     (case service of
        None \<Rightarrow> (db, sendError 404 ''EMAIL_VERIFICATION_DISABLED'' None)
      | Some (st, send, c) \<Rightarrow>
          if \<not> enabled then (db, sendError 404 ''EMAIL_VERIFICATION_DISABLED'' None)
          else (case parse_verify ip b of
              None \<Rightarrow> (db, INVALID_REQUEST)
            | Some i \<Rightarrow> map_prod id verify_response (verifyCode st c a d i db)))"

end
