(* ===== verification/ServiceArea.thy ===== *)
theory ServiceArea
  imports JsValue
begin

text \<open>
  The service area, \<^verbatim>\<open>domain/serviceArea.ts\<close>: the checks of the boundary file, the loading of the
  artifact against its manifest and the classification of a point.  The geometry library (jsts) is
  the record \<open>jsts\<close> of the operations the code calls, where \<open>None\<close> is a thrown exception; reading a
  file, parsing JSON and SHA-256 are arguments.
\<close>

datatype classification = Inside | Outside | InvalidCoordinate | Unavailable

record 'g jsts =
  g_read :: "js_value \<Rightarrow> 'g option"
  g_isEmpty :: "'g \<Rightarrow> bool"
  g_area :: "'g \<Rightarrow> rat"
  g_isValid :: "'g \<Rightarrow> bool option"
  g_isPolygon :: "'g \<Rightarrow> bool"
  g_parts :: "'g \<Rightarrow> 'g list"
  g_holes :: "'g \<Rightarrow> 'g list"
  g_intersects :: "'g \<Rightarrow> js_number \<times> js_number \<Rightarrow> bool option"
  g_covers :: "'g \<Rightarrow> js_number \<times> js_number \<Rightarrow> bool option"

text \<open>\<^verbatim>\<open>===\<close> on two numbers: NaN differs from everything, the zeros are equal.\<close>

fun number_eq :: "js_number \<Rightarrow> js_number \<Rightarrow> bool" where
  "number_eq PosInf PosInf = True"
| "number_eq NegInf NegInf = True"
| "number_eq a b = (num_value a \<noteq> None \<and> num_value a = num_value b)"

lemma number_eq_finite: "num_value a \<noteq> None \<Longrightarrow> number_eq a b \<longleftrightarrow> num_value a = num_value b"
  by (cases a; cases b) auto

lemma number_eq_refl [simp]: "number_eq a a \<longleftrightarrow> a \<noteq> NaN"
  by (cases a) auto

lemma number_eq_sym: "number_eq a b = number_eq b a"
  by (cases a; cases b) auto

section \<open>The boundary file\<close>

fun position :: "js_value \<Rightarrow> (js_number \<times> js_number) option" where
  "position (JArr [JNum x, JNum y]) = (if in_range x (-180) 180 \<and> in_range y (-90) 90 then Some (x, y) else None)"
| "position _ = None"

definition isFinitePosition :: "js_value \<Rightarrow> bool" where
  "isFinitePosition v \<longleftrightarrow> position v \<noteq> None"

definition same_position :: "js_value \<Rightarrow> js_value \<Rightarrow> bool" where
  "same_position v w =
     (case (position v, position w) of
        (Some (x, y), Some (x', y')) \<Rightarrow> number_eq x x' \<and> number_eq y y'
      | _ \<Rightarrow> False)"

fun isRing :: "js_value \<Rightarrow> bool" where
  "isRing (JArr ps) = (length ps \<ge> 4 \<and> list_all isFinitePosition ps \<and> same_position (hd ps) (last ps))"
| "isRing _ = False"

fun isPolygonCoordinates :: "js_value \<Rightarrow> bool" where
  "isPolygonCoordinates (JArr rs) = (rs \<noteq> [] \<and> list_all isRing rs)"
| "isPolygonCoordinates _ = False"

fun isMultiCoordinates :: "js_value \<Rightarrow> bool" where
  "isMultiCoordinates (JArr ps) = (ps \<noteq> [] \<and> list_all isPolygonCoordinates ps)"
| "isMultiCoordinates _ = False"

definition isBoundaryJson :: "js_value \<Rightarrow> bool" where
  "isBoundaryJson v =
     (if js_get ''type'' v = JStr (js ''Polygon'') then isPolygonCoordinates (js_get ''coordinates'' v)
      else js_get ''type'' v = JStr (js ''MultiPolygon'') \<and> isMultiCoordinates (js_get ''coordinates'' v))"

definition parseValidBoundary :: "'g jsts \<Rightarrow> js_value \<Rightarrow> 'g option" where
  "parseValidBoundary lib v =
     (if \<not> isBoundaryJson v then None
      else (case g_read lib v of
          None \<Rightarrow> None
        | Some g \<Rightarrow>
            if g_isEmpty lib g \<or> g_area lib g \<le> 0 \<or> g_isValid lib g \<noteq> Some True then None else Some g))"

section \<open>Classifying a point\<close>

text \<open>The nested loop over the polygons and their interior rings stops at the first hit.\<close>

fun any_ring :: "'g jsts \<Rightarrow> js_number \<times> js_number \<Rightarrow> 'g list \<Rightarrow> bool option" where
  "any_ring lib p [] = Some False"
| "any_ring lib p (r # rs) =
     (case g_intersects lib r p of None \<Rightarrow> None | Some True \<Rightarrow> Some True | Some False \<Rightarrow> any_ring lib p rs)"

definition polygons :: "'g jsts \<Rightarrow> 'g \<Rightarrow> 'g list" where
  "polygons lib g = (if g_isPolygon lib g then [g] else g_parts lib g)"

definition interior_rings :: "'g jsts \<Rightarrow> 'g \<Rightarrow> 'g list" where
  "interior_rings lib g = concat (map (g_holes lib) (polygons lib g))"

definition classify_point :: "'g jsts \<Rightarrow> 'g \<Rightarrow> js_value \<Rightarrow> classification" where
  "classify_point lib g v =
     (case (as_number (js_get ''latitude'' v), as_number (js_get ''longitude'' v)) of
        (Some lat, Some lon) \<Rightarrow>
          if \<not> valid_coordinates lat lon then InvalidCoordinate
          else
            (case any_ring lib (lon, lat) (interior_rings lib g) of
               None \<Rightarrow> Unavailable
             | Some True \<Rightarrow> Outside
             | Some False \<Rightarrow>
                 (case g_covers lib g (lon, lat) of
                    None \<Rightarrow> Unavailable | Some True \<Rightarrow> Inside | Some False \<Rightarrow> Outside))
      | _ \<Rightarrow> InvalidCoordinate)"

datatype 'g boundary = Json js_value | Geometry 'g

definition createServiceAreaClassifier :: "'g jsts \<Rightarrow> 'g boundary \<Rightarrow> js_value \<Rightarrow> classification" where
  "createServiceAreaClassifier lib b =
     (case b of
        Geometry g \<Rightarrow> classify_point lib g
      | Json v \<Rightarrow> (case parseValidBoundary lib v of None \<Rightarrow> (\<lambda>_. Unavailable) | Some g \<Rightarrow> classify_point lib g))"

text \<open>
  \<open>artifact\<close> and \<open>manifest\<close> are the bytes and the parsed JSON of the two files, when they can be
  read; \<open>sha\<close> is the hexadecimal SHA-256 and \<open>parse\<close> is \<^verbatim>\<open>JSON.parse\<close>.
\<close>

definition manifest_accepts :: "(buffer \<Rightarrow> jsstring) \<Rightarrow> js_value \<Rightarrow> buffer \<Rightarrow> bool" where
  "manifest_accepts sha m bytes \<longleftrightarrow>
     (\<exists>v. js_get ''schemaVersion'' m = JNum v \<and> num_value v = Some 1) \<and>
     js_get ''crs'' (js_get ''output'' m) = JStr (js ''OGC:CRS84'') \<and>
     js_get ''axisOrder'' (js_get ''output'' m) = JStr (js ''longitude,latitude'') \<and>
     js_get ''geojsonSha256'' (js_get ''output'' m) = JStr (sha bytes)"

definition loadServiceAreaArtifact :: "'g jsts \<Rightarrow> (buffer \<Rightarrow> jsstring) \<Rightarrow> (buffer \<Rightarrow> js_value option) \<Rightarrow>
    buffer option \<Rightarrow> js_value option \<Rightarrow> js_value \<Rightarrow> classification" where
  "loadServiceAreaArtifact lib sha parse artifact manifest =
     (case (artifact, manifest) of
        (Some bytes, Some m) \<Rightarrow>
          if \<not> manifest_accepts sha m bytes then (\<lambda>_. Unavailable)
          else
            (case parse bytes of
               None \<Rightarrow> (\<lambda>_. Unavailable)
             | Some v \<Rightarrow>
                 (case parseValidBoundary lib v of
                    None \<Rightarrow> (\<lambda>_. Unavailable)
                  | Some g \<Rightarrow> createServiceAreaClassifier lib (Geometry g)))
      | _ \<Rightarrow> (\<lambda>_. Unavailable))"

definition loadRepresentativePoint :: "js_value option \<Rightarrow> (js_number \<times> js_number) option" where
  "loadRepresentativePoint manifest =
     (case manifest of
        None \<Rightarrow> None
      | Some m \<Rightarrow>
          (case js_get ''representativePoint'' (js_get ''output'' m) of
             JArr [JNum x, JNum y] \<Rightarrow> if num_value x \<noteq> None \<and> num_value y \<noteq> None then Some (x, y) else None
           | _ \<Rightarrow> None))"

section \<open>Lemmas\<close>

lemma any_ring_False: "any_ring lib p rs = Some False \<longleftrightarrow> (\<forall>r \<in> set rs. g_intersects lib r p = Some False)"
  by (induction rs) (auto split: option.splits bool.splits)

text \<open>The declarative reading of the loop: inside means covered and off every hole, its edge included.\<close>

lemma classify_inside:
  "classify_point lib g v = Inside \<longleftrightarrow>
     (\<exists>lat lon. js_get ''latitude'' v = JNum lat \<and> js_get ''longitude'' v = JNum lon \<and> valid_coordinates lat lon \<and>
        g_covers lib g (lon, lat) = Some True \<and>
        (\<forall>poly \<in> set (polygons lib g). \<forall>hole \<in> set (g_holes lib poly). g_intersects lib hole (lon, lat) = Some False))"
proof -
  have e: "any_ring lib p (interior_rings lib g) = Some False \<longleftrightarrow>
      (\<forall>poly \<in> set (polygons lib g). \<forall>hole \<in> set (g_holes lib poly). g_intersects lib hole p = Some False)" for p
    by (auto simp: any_ring_False interior_rings_def)
  show ?thesis unfolding e [symmetric] by (auto simp: classify_point_def split: option.splits bool.splits)
qed

text \<open>A loaded classifier answers anything but \<open>Unavailable\<close> only from a file its manifest describes.\<close>

lemma loaded_classifier:
  assumes "loadServiceAreaArtifact lib sha parse artifact manifest v \<noteq> Unavailable"
  obtains bytes m json g where "artifact = Some bytes" "manifest = Some m" "manifest_accepts sha m bytes"
    "parse bytes = Some json" "isBoundaryJson json" "g_read lib json = Some g" "0 < g_area lib g" "g_isValid lib g = Some True"
    "loadServiceAreaArtifact lib sha parse artifact manifest = classify_point lib g"
  using assms
  by (auto simp: loadServiceAreaArtifact_def parseValidBoundary_def createServiceAreaClassifier_def split: option.splits if_splits)

lemma classify_usable: "js_get ''latitude'' v = JNum lat \<Longrightarrow> js_get ''longitude'' v = JNum lon \<Longrightarrow>
    classify_point lib g v = InvalidCoordinate \<longleftrightarrow> \<not> valid_coordinates lat lon"
  by (auto simp: classify_point_def split: option.splits bool.splits)

end
