(* ===== verification/ReportTarget.thy ===== *)
theory ReportTarget
  imports ServiceArea
begin

text \<open>
  Where a report points to, \<^verbatim>\<open>domain/reportTarget.ts\<close>, and the addresses kept with the light
  points, \<^verbatim>\<open>services/lightPointAddressRepository.ts\<close>.  A light point of the table
  \<^verbatim>\<open>light_points\<close> is a row; the text of a coordinate read back as a number is the coordinate.
\<close>

record light_point =
  lp_id :: int
  lp_inventory :: jsstring
  lp_latitude :: js_number
  lp_longitude :: js_number
  lp_address :: "jsstring option"
  lp_geocoded_at :: "int option"
  lp_updated_at :: int

record address_audit =
  au_entity :: int
  au_inventory :: jsstring
  au_before :: "jsstring option"
  au_after :: jsstring

record light_db =
  lights :: "light_point list"
  audits :: "address_audit list"

definition lights_wf :: "light_db \<Rightarrow> bool" where
  "lights_wf db \<longleftrightarrow> distinct (map lp_id (lights db))"

definition light_by_id :: "int \<Rightarrow> light_db \<Rightarrow> light_point option" where
  "light_by_id i db = find (\<lambda>r. lp_id r = i) (lights db)"

section \<open>Resolving a target\<close>

datatype target_kind = LightPointKind | CustomKind | DeviceKind | ManualKind

datatype target_error = ReportTargetError nat jsstring | TargetQueryFailed

record resolved_target =
  t_kind :: target_kind
  t_latitude :: js_number
  t_longitude :: js_number
  t_light :: "int option"

definition findCoordinates :: "light_db \<Rightarrow> int \<Rightarrow> (js_number \<times> js_number) option" where
  "findCoordinates db i = map_option (\<lambda>r. (lp_latitude r, lp_longitude r)) (light_by_id i db)"

definition INVALID_COORDINATES :: target_error where
  "INVALID_COORDINATES = ReportTargetError 400 (js ''invalid_coordinates'')"

text \<open>The kind of a target by its text; a repository is a function that may fail.\<close>

definition kind_of :: "js_value \<Rightarrow> target_kind option" where
  "kind_of v =
     (if v = JStr (js ''light-point'') then Some LightPointKind else if v = JStr (js ''custom'') then Some CustomKind
      else if v = JStr (js ''device'') then Some DeviceKind else if v = JStr (js ''manual'') then Some ManualKind else None)"

definition resolve_kind :: "(int \<Rightarrow> target_error + (js_number \<times> js_number) option) \<Rightarrow> js_value \<Rightarrow> target_error + resolved_target" where
  "resolve_kind fc v =
     (case kind_of (js_get ''kind'' v) of
        None \<Rightarrow> Inl INVALID_COORDINATES
      | Some LightPointKind \<Rightarrow>
          (case js_get ''lightPointId'' v of
             JNum n \<Rightarrow>
               (case safe_integer n of
                  None \<Rightarrow> Inl INVALID_COORDINATES
                | Some i \<Rightarrow>
                    if i \<le> 0 then Inl INVALID_COORDINATES
                    else
                      (case fc i of
                         Inl e \<Rightarrow> Inl e
                       | Inr None \<Rightarrow> Inl (ReportTargetError 404 (js ''light_point_not_found''))
                       | Inr (Some (lat, lon)) \<Rightarrow>
                           if valid_coordinates lat lon
                           then Inr \<lparr>t_kind = LightPointKind, t_latitude = lat, t_longitude = lon, t_light = Some i\<rparr>
                           else Inl INVALID_COORDINATES))
           | _ \<Rightarrow> Inl INVALID_COORDINATES)
      | Some k \<Rightarrow>
          (case (as_number (js_get ''latitude'' v), as_number (js_get ''longitude'' v)) of
             (Some lat, Some lon) \<Rightarrow>
               if valid_coordinates lat lon
               then Inr \<lparr>t_kind = k, t_latitude = lat, t_longitude = lon, t_light = None\<rparr>
               else Inl INVALID_COORDINATES
           | _ \<Rightarrow> Inl INVALID_COORDINATES))"

definition point_value :: "js_number \<Rightarrow> js_number \<Rightarrow> js_value" where
  "point_value lat lon = JObj [(js ''latitude'', JNum lat), (js ''longitude'', JNum lon)]"

definition resolveAndValidateReportTarget :: "(int \<Rightarrow> target_error + (js_number \<times> js_number) option) \<Rightarrow>
    (js_value \<Rightarrow> classification) \<Rightarrow> js_value \<Rightarrow> target_error + resolved_target" where
  "resolveAndValidateReportTarget fc classify v =
     (if \<not> isRecord v \<or> \<not> has_own ''kind'' v then Inl INVALID_COORDINATES
      else
        (case resolve_kind fc v of
           Inl e \<Rightarrow> Inl e
         | Inr t \<Rightarrow>
             (case classify (point_value (t_latitude t) (t_longitude t)) of
                Unavailable \<Rightarrow> Inl (ReportTargetError 503 (js ''service_area_unavailable''))
              | InvalidCoordinate \<Rightarrow> Inl (ReportTargetError 400 (js ''invalid_coordinates''))
              | Outside \<Rightarrow> Inl (ReportTargetError 422 (js ''outside_service_area''))
              | Inside \<Rightarrow> Inr t)))"

section \<open>Addresses of light points\<close>

record address_snapshot =
  as_latitude :: js_number
  as_longitude :: js_number
  as_address :: "jsstring option"

record persist_input =
  pi_id :: int
  pi_latitude :: js_number
  pi_longitude :: js_number
  pi_address :: jsstring

datatype persist_result = Stored jsstring | Existing jsstring | CoordinatesChanged "jsstring option" | Missing

definition presentAddress :: "jsstring option \<Rightarrow> jsstring option" where
  "presentAddress v = (case v of None \<Rightarrow> None | Some s \<Rightarrow> if js_trim s = [] then None else Some (js_trim s))"

definition findById :: "light_db \<Rightarrow> int \<Rightarrow> address_snapshot option" where
  "findById db i =
     map_option (\<lambda>r. \<lparr>as_latitude = lp_latitude r, as_longitude = lp_longitude r, as_address = presentAddress (lp_address r)\<rparr>)
       (light_by_id i db)"

text \<open>
  The transaction runs on a row it locked.  \<open>t\<close> is the database clock; the result is the database
  after it with the answer, or \<open>None\<close> for the thrown error about the address.
\<close>

definition persistIfMissing :: "int \<Rightarrow> persist_input \<Rightarrow> light_db \<Rightarrow> (light_db \<times> persist_result) option" where
  "persistIfMissing t inp db =
     (case presentAddress (Some (pi_address inp)) of
        None \<Rightarrow> None
      | Some address \<Rightarrow>
          if length address > 500 then None
          else
            (case light_by_id (pi_id inp) db of
               None \<Rightarrow> Some (db, Missing)
             | Some row \<Rightarrow>
                 (let current = presentAddress (lp_address row) in
                  if \<not> number_eq (lp_latitude row) (pi_latitude inp) \<or> \<not> number_eq (lp_longitude row) (pi_longitude inp)
                  then Some (db, CoordinatesChanged current)
                  else
                    (case current of
                       Some a \<Rightarrow> Some (db, Existing a)
                     | None \<Rightarrow>
                         (case sql_update (\<lambda>r. lp_id r = pi_id inp)
                             (\<lambda>r. r\<lparr>lp_address := Some address, lp_geocoded_at := Some t, lp_updated_at := t\<rparr>) (lights db) of
                            (rows, n) \<Rightarrow>
                              if n \<noteq> 1 then Some (db\<lparr>lights := rows\<rparr>, Missing)
                              else Some (db\<lparr>lights := rows, audits := audits db @
                                  [\<lparr>au_entity = pi_id inp, au_inventory = lp_inventory row,
                                    au_before = lp_address row, au_after = address\<rparr>]\<rparr>, Stored address))))))"

section \<open>Lemmas\<close>

lemma point_value_get [simp]:
  "js_get ''latitude'' (point_value lat lon) = JNum lat" "js_get ''longitude'' (point_value lat lon) = JNum lon"
  by (simp_all add: point_value_def js_get_def props_def js_def)

lemma resolve_kind_valid: "resolve_kind fc v = Inr t \<Longrightarrow> valid_coordinates (t_latitude t) (t_longitude t)"
  by (auto simp: resolve_kind_def split: option.splits target_kind.splits js_value.splits sum.splits if_splits)

lemma resolve_kind_light:
  "resolve_kind fc v = Inr t \<Longrightarrow> t_light t = Some i \<Longrightarrow> fc i = Inr (Some (t_latitude t, t_longitude t))"
  by (auto simp: resolve_kind_def split: option.splits target_kind.splits js_value.splits sum.splits if_splits)

lemma resolved_inside:
  assumes "resolveAndValidateReportTarget fc classify v = Inr t"
  shows "classify (point_value (t_latitude t) (t_longitude t)) = Inside" and "valid_coordinates (t_latitude t) (t_longitude t)"
    and "t_light t = Some i \<Longrightarrow> fc i = Inr (Some (t_latitude t, t_longitude t))"
  using assms resolve_kind_valid [of fc v t] resolve_kind_light [of fc v t i]
  by (auto simp: resolveAndValidateReportTarget_def split: sum.splits classification.splits if_splits)

lemma light_by_id_Some: "light_by_id i db = Some r \<Longrightarrow> r \<in> set (lights db) \<and> lp_id r = i"
  by (auto simp: light_by_id_def find_Some_iff)

lemma light_by_id_in: "lights_wf db \<Longrightarrow> r \<in> set (lights db) \<Longrightarrow> light_by_id (lp_id r) db = Some r"
proof -
  assume wf: "lights_wf db" and r: "r \<in> set (lights db)"
  then have "find (\<lambda>x. lp_id x = lp_id r) (lights db) \<noteq> None" by (auto simp: find_None_iff)
  then obtain q where q: "light_by_id (lp_id r) db = Some q" by (auto simp: light_by_id_def)
  then have "q \<in> set (lights db)" "lp_id q = lp_id r" using light_by_id_Some by blast+
  then show ?thesis using q wf r by (auto simp: lights_wf_def distinct_map inj_on_def)
qed

lemma presentAddress_present: "presentAddress v = Some a \<Longrightarrow> a \<noteq> [] \<and> js_trim a = a \<and> presentAddress (Some a) = Some a"
  by (auto simp: presentAddress_def split: option.splits if_splits)

text \<open>A key that occurs once is updated once.\<close>

lemma filter_unique_key: "distinct (map f xs) \<Longrightarrow> x \<in> set xs \<Longrightarrow> length (filter (\<lambda>y. f y = f x) xs) = 1"
proof (induction xs)
  case (Cons y xs)
  show ?case
  proof (cases "f y = f x")
    case True
    then have "filter (\<lambda>z. f z = f x) xs = []" using Cons.prems(1) by (auto simp: filter_empty_conv) (metis imageI)
    then show ?thesis using True by simp
  qed (use Cons in auto)
qed simp

lemma find_map_keep: "(\<And>r. f (g r) = f r) \<Longrightarrow> find (\<lambda>r. f r = i) (map g xs) = map_option g (find (\<lambda>r. f r = i) xs)"
  by (induction xs) auto

definition store_address :: "int \<Rightarrow> jsstring \<Rightarrow> int \<Rightarrow> light_point \<Rightarrow> light_point" where
  "store_address t a i r = (if lp_id r = i then r\<lparr>lp_address := Some a, lp_geocoded_at := Some t, lp_updated_at := t\<rparr> else r)"

lemma store_address_id [simp]: "lp_id (store_address t a i r) = lp_id r"
  by (simp add: store_address_def)

text \<open>The stored branch in one equation.\<close>

lemma persist_stored:
  assumes "persistIfMissing t inp db = Some (db', Stored a)"
  obtains row where "light_by_id (pi_id inp) db = Some row" "presentAddress (lp_address row) = None"
    "number_eq (lp_latitude row) (pi_latitude inp)" "number_eq (lp_longitude row) (pi_longitude inp)"
    "presentAddress (Some (pi_address inp)) = Some a" "length a \<le> 500"
    "db' = db\<lparr>lights := map (store_address t a (pi_id inp)) (lights db),
       audits := audits db @ [\<lparr>au_entity = pi_id inp, au_inventory = lp_inventory row, au_before = lp_address row, au_after = a\<rparr>]\<rparr>"
  using assms
  by (auto simp: persistIfMissing_def Let_def sql_update_def store_address_def [abs_def] split: option.splits if_splits)

lemma persist_not_stored:
  "lights_wf db \<Longrightarrow> persistIfMissing t inp db = Some (db', r) \<Longrightarrow> (\<And>a. r \<noteq> Stored a) \<Longrightarrow> db' = db"
proof -
  assume wf: "lights_wf db" and p: "persistIfMissing t inp db = Some (db', r)" and n: "\<And>a. r \<noteq> Stored a"
  have "length (filter (\<lambda>x. lp_id x = pi_id inp) (lights db)) = 1" if "light_by_id (pi_id inp) db = Some row" for row
    using filter_unique_key [of lp_id "lights db" row] wf light_by_id_Some [OF that] by (simp add: lights_wf_def)
  then show "db' = db" using p n
    by (auto simp: persistIfMissing_def Let_def sql_update_def split: option.splits if_splits)
qed

lemma persist_found:
  assumes "persistIfMissing t inp db = Some (db', Stored a)"
  shows "light_by_id j db' = map_option (store_address t a (pi_id inp)) (light_by_id j db)"
  by (rule persist_stored [OF assms]) (simp add: light_by_id_def find_map_keep)

lemma persist_keeps_wf: "lights_wf db \<Longrightarrow> persistIfMissing t inp db = Some (db', r) \<Longrightarrow> lights_wf db'"
proof (cases r)
  case (Stored a)
  assume wf: "lights_wf db" and p: "persistIfMissing t inp db = Some (db', r)"
  show ?thesis by (rule persist_stored [OF p [unfolded Stored]]) (use wf in \<open>simp add: lights_wf_def comp_def\<close>)
qed (use persist_not_stored [of db t inp db' r] in auto)

end
