(* ===== verification/AddressText.thy ===== *)
theory AddressText
  imports EmailCrypto JsValue
begin

text \<open>
  Text handling of the address path: the normal form that
  \<^verbatim>\<open>services/reportAddressSuggestion.service.ts\<close> and \<^verbatim>\<open>services/reportAddressProof.ts\<close>
  both use, the inventory number's edge trimming of \<^verbatim>\<open>domain/inventoryIdentity.ts\<close>, and the part
  of \<^verbatim>\<open>JSON.stringify\<close> that the signed message needs.  \<open>nfc\<close> stands for Unicode
  normalization, \<^verbatim>\<open>String.prototype.normalize('NFC')\<close>.
\<close>

section \<open>Address normal form\<close>

text \<open>The class \<^verbatim>\<open>[\p{Cc}\s]\<close>; all its members are single code units.\<close>

definition sep_char :: "code_unit \<Rightarrow> bool" where
  "sep_char c \<longleftrightarrow> js_ws c \<or> c \<le> 31 \<or> (127 \<le> c \<and> c \<le> 159)"

text \<open>\<^verbatim>\<open>replace(/[\p{Cc}\s]+/gu, ' ')\<close>; the flag says that the last unit was a separator.\<close>

fun collapse :: "bool \<Rightarrow> jsstring \<Rightarrow> jsstring" where
  "collapse r [] = []"
| "collapse r (c # s) =
     (if sep_char c then (if r then collapse True s else 32 # collapse True s) else c # collapse False s)"

definition normalizeReportAddress :: "(jsstring \<Rightarrow> jsstring) \<Rightarrow> jsstring \<Rightarrow> jsstring" where
  "normalizeReportAddress nfc s = js_trim (collapse False (nfc s))"

definition normalizeProviderText :: "(jsstring \<Rightarrow> jsstring) \<Rightarrow> jsstring \<Rightarrow> jsstring" where
  "normalizeProviderText nfc s = js_trim (collapse False (nfc s))"

fun no_double :: "jsstring \<Rightarrow> bool" where
  "no_double [] = True"
| "no_double (a # s) = ((a = 32 \<longrightarrow> s = [] \<or> hd s \<noteq> 32) \<and> no_double s)"

lemma no_double_append: "no_double (p @ q) \<Longrightarrow> no_double p \<and> no_double q"
  by (induction p) (auto simp: hd_append split: if_splits)

definition canonical_text :: "jsstring \<Rightarrow> bool" where
  "canonical_text s \<longleftrightarrow> trimmed js_ws s \<and> (\<forall>c \<in> set s. sep_char c \<longrightarrow> c = 32) \<and>
     no_double s"

lemma sep_32 [simp]: "sep_char 32"
  by (simp add: sep_char_def js_ws_def)

lemma collapse_seps: "c \<in> set (collapse r s) \<Longrightarrow> sep_char c \<Longrightarrow> c = 32"
  by (induction r s rule: collapse.induct) (auto split: if_splits)

lemma collapse_hd: "collapse True s \<noteq> [] \<Longrightarrow> hd (collapse True s) \<noteq> 32"
proof (induction s)
  case (Cons c s)
  then show ?case by (auto split: if_splits)
qed simp

lemma collapse_successive: "no_double (collapse r s)"
proof (induction r s rule: collapse.induct)
  case (2 r c s)
  then show ?case using collapse_hd [of s]
    by auto
qed simp

lemma trim_both_infix: "\<exists>p q. xs = p @ trim_both f xs @ q"
proof -
  have d: "ys = takeWhile f ys @ dropWhile f ys" for ys by simp
  have "dropWhile f xs = rev (dropWhile f (rev (dropWhile f xs))) @ rev (takeWhile f (rev (dropWhile f xs)))"
    using d [of "rev (dropWhile f xs)"] by (metis rev_append rev_rev_ident)
  then show ?thesis using d [of xs] unfolding trim_both_def by metis
qed

lemma canonical_normalized: "canonical_text (normalizeReportAddress nfc s)"
proof -
  define c where "c = collapse False (nfc s)"
  define t where "t = trim_both js_ws c"
  obtain p q where "c = p @ t @ q" using trim_both_infix [of c js_ws] unfolding t_def by blast
  then have "no_double (p @ t @ q)" using collapse_successive [of False "nfc s"] c_def by simp
  then have "no_double t" using no_double_append by blast
  moreover have "\<forall>x \<in> set t. sep_char x \<longrightarrow> x = 32"
    using set_trim_both [of js_ws c] collapse_seps [of _ False "nfc s"] unfolding t_def c_def by blast
  moreover have "trimmed js_ws t" by (simp add: t_def trimmed_trim_both)
  ultimately show ?thesis by (simp add: canonical_text_def normalizeReportAddress_def js_trim_def t_def c_def)
qed

lemma collapse_canonical:
  "no_double s \<Longrightarrow> (\<forall>c \<in> set s. sep_char c \<longrightarrow> c = 32) \<Longrightarrow> (r \<Longrightarrow> s \<noteq> [] \<Longrightarrow> hd s \<noteq> 32) \<Longrightarrow>
     collapse r s = s"
proof (induction r s rule: collapse.induct)
  case (2 r c s)
  have su: "no_double s" "s \<noteq> [] \<Longrightarrow> c = 32 \<Longrightarrow> hd s \<noteq> 32"
    using 2(4) by auto
  show ?case
  proof (cases "sep_char c")
    case True
    then have c: "c = 32" and r: "\<not> r" using 2(5,6) by auto
    have "\<forall>c \<in> set s. sep_char c \<longrightarrow> c = 32" using 2(5) by (meson list.set_intros(2))
    then have "collapse True s = s" by (rule 2(2) [OF True r su(1)]) (rule su(2) [OF _ c])
    then show ?thesis using c r by simp
  next
    case False
    have "\<forall>c \<in> set s. sep_char c \<longrightarrow> c = 32" using 2(5) by (meson list.set_intros(2))
    then have "collapse False s = s" by (rule 2(3) [OF False su(1)]) simp
    then show ?thesis using False by simp
  qed
qed simp

lemma normalize_canonical: "canonical_text s \<Longrightarrow> nfc s = s \<Longrightarrow> normalizeReportAddress nfc s = s"
  using collapse_canonical [of s False] trim_both_trimmed [of js_ws s]
  by (simp add: canonical_text_def normalizeReportAddress_def js_trim_def)

lemma collapse_length: "length (collapse r s) \<le> length s"
  by (induction r s rule: collapse.induct) auto

section \<open>Inventory numbers\<close>

text \<open>
  \<^verbatim>\<open>Array.from\<close> walks code points; the edge set holds only single code units and no surrogate, so
  trimming code units is the same.
\<close>

definition edge_trim :: "code_unit \<Rightarrow> bool" where
  "edge_trim c \<longleftrightarrow> c \<in> {0x9, 0xa, 0xb, 0xc, 0xd, 0x20, 0xa0, 0x1680, 0x2000, 0x2001, 0x2002, 0x2003, 0x2004, 0x2005,
     0x2006, 0x2007, 0x2008, 0x2009, 0x200a, 0x2028, 0x2029, 0x202f, 0x205f, 0x3000, 0xfeff}"

definition canonicalizeInventoryNumber :: "(jsstring \<Rightarrow> jsstring) \<Rightarrow> jsstring \<Rightarrow> jsstring" where
  "canonicalizeInventoryNumber nfc s = nfc (trim_both edge_trim s)"

definition isCanonicalInventoryNumber :: "(jsstring \<Rightarrow> jsstring) \<Rightarrow> jsstring \<Rightarrow> bool" where
  "isCanonicalInventoryNumber nfc s \<longleftrightarrow> length s > 0 \<and> s = canonicalizeInventoryNumber nfc s"

text \<open>The fixed identity rule trims exactly what \<^verbatim>\<open>trim\<close> trims.\<close>

lemma edge_trim_is_ws: "edge_trim = js_ws"
proof
  fix c :: nat
  have r: "8192 \<le> c \<and> c \<le> 8202 \<longleftrightarrow> c \<in> {8192, 8193, 8194, 8195, 8196, 8197, 8198, 8199, 8200, 8201, 8202}"
    "9 \<le> c \<and> c \<le> 13 \<longleftrightarrow> c \<in> {9, 10, 11, 12, 13}"
    by (simp only: insert_iff empty_iff, presburger)+
  show "edge_trim c = js_ws c" unfolding edge_trim_def js_ws_def r by (simp only: insert_iff empty_iff) blast
qed

lemma canonicalize_idem:
  assumes "\<And>x. nfc (nfc x) = nfc x" and "\<And>x. trimmed js_ws x \<Longrightarrow> trimmed js_ws (nfc x)"
  shows "canonicalizeInventoryNumber nfc (canonicalizeInventoryNumber nfc s) = canonicalizeInventoryNumber nfc s"
  using assms(2) [OF trimmed_trim_both, THEN trim_both_trimmed] assms(1)
  by (simp add: canonicalizeInventoryNumber_def edge_trim_is_ws)

section \<open>JSON text\<close>

text \<open>
  \<^verbatim>\<open>JSON.stringify\<close> of a string: quotes, backslashes, control characters and lone surrogates are
  escaped.
\<close>

definition high_surrogate :: "code_unit \<Rightarrow> bool" where
  "high_surrogate c \<longleftrightarrow> 0xd800 \<le> c \<and> c \<le> 0xdbff"

definition low_surrogate :: "code_unit \<Rightarrow> bool" where
  "low_surrogate c \<longleftrightarrow> 0xdc00 \<le> c \<and> c \<le> 0xdfff"

definition u_escape :: "code_unit \<Rightarrow> jsstring" where
  "u_escape c = [92, 117, hex_char (c div 4096 mod 16), hex_char (c div 256 mod 16), hex_char (c div 16 mod 16), hex_char (c mod 16)]"

definition json_unit :: "code_unit \<Rightarrow> jsstring" where
  "json_unit c =
     (if c = 34 then [92, 34] else if c = 92 then [92, 92] else if c = 8 then [92, 98] else if c = 12 then [92, 102]
      else if c = 10 then [92, 110] else if c = 13 then [92, 114] else if c = 9 then [92, 116]
      else if c < 32 \<or> high_surrogate c \<or> low_surrogate c then u_escape c else [c])"

fun json_escape :: "jsstring \<Rightarrow> jsstring" where
  "json_escape [] = []"
| "json_escape [c] = json_unit c"
| "json_escape (c # d # s) =
     (if high_surrogate c \<and> low_surrogate d then c # d # json_escape s else json_unit c @ json_escape (d # s))"

definition json_string :: "jsstring \<Rightarrow> jsstring" where
  "json_string s = [34] @ json_escape s @ [34]"

text \<open>A reader of escaped text up to the closing quote shows that nothing is lost.\<close>

definition hex_value :: "code_unit \<Rightarrow> nat" where
  "hex_value c = (if c \<ge> 97 then c - 87 else c - 48)"

fun json_read :: "jsstring \<Rightarrow> (jsstring \<times> jsstring) option" where
  "json_read [] = None"
| "json_read (c # r) =
     (if c = 34 then Some ([], r)
      else if c = 92 then
        (case r of
           x # r1 \<Rightarrow>
             if x = 117 then
               (case r1 of
                  a # b # d # e # r2 \<Rightarrow>
                    map_option (map_prod (Cons (hex_value a * 4096 + hex_value b * 256 + hex_value d * 16 + hex_value e)) id) (json_read r2)
                | _ \<Rightarrow> None)
             else map_option (map_prod (Cons (if x = 98 then 8 else if x = 102 then 12 else if x = 110 then 10 else if x = 114 then 13
               else if x = 116 then 9 else x)) id) (json_read r1)
         | [] \<Rightarrow> None)
      else map_option (map_prod (Cons c) id) (json_read r))"

lemma hex_value_char [simp]: "n < 16 \<Longrightarrow> hex_value (hex_char n) = n"
  by (auto simp: hex_value_def hex_char_def)

lemma hex_digits: "c < 65536 \<Longrightarrow> c div 4096 mod 16 * 4096 + c div 256 mod 16 * 256 + c div 16 mod 16 * 16 + c mod 16 = (c :: nat)"
proof -
  assume c: "c < 65536"
  have "c div 4096 < 16" using c by (simp add: less_mult_imp_div_less)
  then have "c div 4096 mod 16 = c div 4096" by simp
  moreover have "c div 16 div 16 = c div 256" "c div 256 div 16 = c div 4096" by (simp_all add: div_mult2_eq [symmetric])
  moreover have "n = 16 * (n div 16) + n mod 16" for n :: nat by simp
  from this [of c] this [of "c div 16"] this [of "c div 256"]
  have "c = 16 * (c div 16) + c mod 16" "c div 16 = 16 * (c div 16 div 16) + c div 16 mod 16"
    "c div 256 = 16 * (c div 256 div 16) + c div 256 mod 16" .
  ultimately show ?thesis by linarith
qed

lemma json_read_u:
  assumes "c < 65536"
  shows "json_read (u_escape c @ r) = map_option (map_prod (Cons c) id) (json_read r)"
proof -
  have m: "n mod 16 < 16" for n :: nat by simp
  have "hex_value (hex_char (c div 4096 mod 16)) * 4096 + hex_value (hex_char (c div 256 mod 16)) * 256 +
      hex_value (hex_char (c div 16 mod 16)) * 16 + hex_value (hex_char (c mod 16)) = c"
    unfolding hex_value_char [OF m] by (rule hex_digits [OF assms])
  then show ?thesis by (simp add: u_escape_def del: hex_value_char)
qed

lemma json_read_unit:
  assumes "c < 65536"
  shows "json_read (json_unit c @ r) = map_option (map_prod (Cons c) id) (json_read r)"
proof (cases "c \<in> {34, 92, 8, 12, 10, 13, 9}")
  case True
  then show ?thesis by (auto simp: json_unit_def)
next
  case plain: False
  show ?thesis
  proof (cases "c < 32 \<or> high_surrogate c \<or> low_surrogate c")
    case True
    then have "json_unit c = u_escape c" using plain by (simp add: json_unit_def)
    then show ?thesis using json_read_u [OF assms] by simp
  next
    case False
    then have "json_unit c = [c]" using plain by (simp add: json_unit_def)
    then show ?thesis using plain by simp
  qed
qed

lemma json_read_escape: "list_all (\<lambda>c. c < 65536) s \<Longrightarrow> json_read (json_escape s @ 34 # r) = Some (s, r)"
proof (induction s rule: json_escape.induct)
  case 1
  then show ?case by simp
next
  case (2 c)
  then show ?case using json_read_unit [of c "34 # r"] by simp
next
  case (3 c d s)
  show ?case
  proof (cases "high_surrogate c \<and> low_surrogate d")
    case True
    then have "c \<noteq> 34" "c \<noteq> 92" "d \<noteq> 34" "d \<noteq> 92" by (auto simp: high_surrogate_def low_surrogate_def)
    then show ?thesis using True 3(1) 3(3) by simp
  next
    case False
    then have e: "json_escape (c # d # s) @ 34 # r = json_unit c @ (json_escape (d # s) @ 34 # r)" by auto
    have "json_read (json_escape (d # s) @ 34 # r) = Some (d # s, r)" using 3(2) [OF False] 3(3) by simp
    then show ?thesis unfolding e using 3(3) json_read_unit [of c] by simp
  qed
qed

text \<open>Text that starts with two encoded strings determines the first and what follows it.\<close>

lemma json_string_inj:
  assumes "list_all (\<lambda>c. c < 65536) s" "list_all (\<lambda>c. c < 65536) t" "json_string s @ r = json_string t @ q"
  shows "s = t \<and> r = q"
proof -
  have "json_escape s @ 34 # r = json_escape t @ 34 # q" using assms(3) by (simp add: json_string_def)
  then have "Some (s, r) = Some (t, q)" using json_read_escape [OF assms(1)] json_read_escape [OF assms(2)] by metis
  then show ?thesis by simp
qed

end
