(* ===== verification/AddressProof.thy ===== *)
theory AddressProof
  imports AddressText
begin

text \<open>
  Signed report addresses, \<^verbatim>\<open>services/reportAddressProof.ts\<close>.  The server signs the address it
  suggested together with the target kind and the coordinates, and later accepts an address from the
  browser only with that signature.  HMAC-SHA256 and the text of a number are arguments.
\<close>

record proof_env =
  p_nfc :: "jsstring \<Rightarrow> jsstring"
  p_number :: "js_number \<Rightarrow> jsstring"
  p_hmac_text :: "jsstring \<Rightarrow> jsstring \<Rightarrow> buffer"
  p_hmac :: "buffer \<Rightarrow> jsstring \<Rightarrow> buffer"

definition PROOF_VERSION :: jsstring where
  "PROOF_VERSION = js ''v1''"

definition PROOF_KEY_PURPOSE :: jsstring where
  "PROOF_KEY_PURPOSE = js ''plfr:report-address-proof:key:v1''"

text \<open>\<^verbatim>\<open>JSON.stringify\<close> of the array of three strings and two numbers.\<close>

definition proofMessage :: "proof_env \<Rightarrow> jsstring \<Rightarrow> jsstring \<Rightarrow> js_number \<Rightarrow> js_number \<Rightarrow> jsstring" where
  "proofMessage env address kind lat lon =
     js ''['' @ json_string PROOF_VERSION @ js '','' @ json_string (normalizeReportAddress (p_nfc env) address) @ js '','' @
     json_string kind @ js '','' @ p_number env lat @ js '','' @ p_number env lon @ js '']''"

definition signingKey :: "proof_env \<Rightarrow> jsstring \<Rightarrow> buffer" where
  "signingKey env secret = p_hmac_text env secret PROOF_KEY_PURPOSE"

text \<open>\<open>None\<close> is the thrown error.\<close>

definition createReportAddressProof :: "proof_env \<Rightarrow> jsstring \<Rightarrow> jsstring \<Rightarrow> js_number \<Rightarrow> js_number \<Rightarrow> jsstring \<Rightarrow> jsstring option" where
  "createReportAddressProof env address kind lat lon secret =
     (let normalized = normalizeReportAddress (p_nfc env) address in
      if secret = [] \<or> normalized = [] \<or> length normalized > 500 \<or> num_value lat = None \<or> num_value lon = None then None
      else Some (PROOF_VERSION @ js ''.'' @
        base64url (p_hmac env (signingKey env secret) (proofMessage env normalized kind lat lon))))"

definition proof_pattern :: "(code_unit \<Rightarrow> bool) list" where
  "proof_pattern = [\<lambda>c. c = 118, \<lambda>c. c = 49, \<lambda>c. c = 46] @ replicate 43 is_base64url"

section \<open>Decoding base64url\<close>

definition b64_value :: "code_unit \<Rightarrow> nat" where
  "b64_value c =
     (if c = 45 then 62 else if c = 95 then 63 else if c \<ge> 97 then c - 71 else if c \<ge> 65 then c - 65 else c + 4)"

fun b64url_decode_nat :: "jsstring \<Rightarrow> nat list" where
  "b64url_decode_nat (a # b # c # d # r) =
     (b64_value a * 4 + b64_value b div 16) # (b64_value b mod 16 * 16 + b64_value c div 4) #
     (b64_value c mod 4 * 64 + b64_value d) # b64url_decode_nat r"
| "b64url_decode_nat [a, b, c] =
     [b64_value a * 4 + b64_value b div 16, b64_value b mod 16 * 16 + b64_value c div 4]"
| "b64url_decode_nat [a, b] = [b64_value a * 4 + b64_value b div 16]"
| "b64url_decode_nat _ = []"

definition b64url_decode :: "jsstring \<Rightarrow> buffer" where
  "b64url_decode s = map of_nat (b64url_decode_nat s)"

definition verifyReportAddressProof :: "proof_env \<Rightarrow> jsstring \<Rightarrow> jsstring \<Rightarrow> js_number \<Rightarrow> js_number \<Rightarrow> jsstring \<Rightarrow> jsstring \<Rightarrow> bool" where
  "verifyReportAddressProof env address kind lat lon given secret =
     (if secret = [] \<or> \<not> matches_seq proof_pattern given \<or> num_value lat = None \<or> num_value lon = None then False
      else (case createReportAddressProof env address kind lat lon secret of
          None \<Rightarrow> False
        | Some p \<Rightarrow> digestMatches (b64url_decode (drop 3 given)) (b64url_decode (drop 3 p))))"

lemma b64_value_char [simp]: "n < 64 \<Longrightarrow> b64_value (b64_char n) = n"
  by (auto simp: b64_value_def b64_char_def)

lemma b64_groups:
  fixes a b c :: nat
  assumes "a < 256" "b < 256" "c < 256"
  shows "a div 4 * 4 + ((a mod 4) * 16 + b div 16) div 16 = a" "a div 4 * 4 + ((a mod 4) * 16) div 16 = a"
    "((a mod 4) * 16 + b div 16) mod 16 * 16 + ((b mod 16) * 4 + c div 64) div 4 = b"
    "((a mod 4) * 16 + b div 16) mod 16 * 16 + ((b mod 16) * 4) div 4 = b"
    "((b mod 16) * 4 + c div 64) mod 4 * 64 + c mod 64 = c"
proof -
  have l: "b div 16 < 16" "c div 64 < 4" using assms by (simp_all add: less_mult_imp_div_less)
  have q: "(x * n + y) div n = x" "(x * n + y) mod n = y" if "y < n" for x y n :: nat using that by simp_all
  have d: "x div n * n + x mod n = x" for x n :: nat by simp
  show "a div 4 * 4 + ((a mod 4) * 16 + b div 16) div 16 = a" unfolding q(1) [OF l(1)] by (rule d)
  show "a div 4 * 4 + ((a mod 4) * 16) div 16 = a" using d [of a 4] by simp
  show "((a mod 4) * 16 + b div 16) mod 16 * 16 + ((b mod 16) * 4 + c div 64) div 4 = b"
    unfolding q(2) [OF l(1)] q(1) [OF l(2)] by (rule d)
  show "((a mod 4) * 16 + b div 16) mod 16 * 16 + ((b mod 16) * 4) div 4 = b"
    unfolding q(2) [OF l(1)] using d [of b 16] by simp
  show "((b mod 16) * 4 + c div 64) mod 4 * 64 + c mod 64 = c" unfolding q(2) [OF l(2)] by (rule d)
qed

lemma b64_decode_encode: "list_all (\<lambda>x. x < 256) xs \<Longrightarrow> b64url_decode_nat (b64url_nat xs) = xs"
proof (induction xs rule: b64url_nat.induct)
  case (2 a)
  then show ?case using b64_groups [of a 0 0] by (simp add: sextet_bound)
next
  case (3 a b)
  then show ?case using b64_groups [of a b 0] by (simp add: sextet_bound)
next
  case (4 a b c r)
  then show ?case using b64_groups [of a b c] by (simp add: sextet_bound)
qed simp

lemma b64url_decode_encode [simp]: "b64url_decode (base64url b) = b"
  using b64_decode_encode [of "map unat b"] unat_byte_bound
  by (simp add: b64url_decode_def base64url_def list_all_iff comp_def)

section \<open>What a proof says\<close>

lemma create_proof_Some:
  assumes "createReportAddressProof env address kind lat lon secret = Some p"
  shows "p = [118, 49, 46] @ base64url (p_hmac env (signingKey env secret)
      (proofMessage env (normalizeReportAddress (p_nfc env) address) kind lat lon))"
    and "secret \<noteq> []" "num_value lat \<noteq> None" "num_value lon \<noteq> None"
  using assms by (auto simp: createReportAddressProof_def Let_def PROOF_VERSION_def js_def split: if_splits)

lemma proof_shape_base64: "length b = 32 \<Longrightarrow> matches_seq proof_pattern ([118, 49, 46] @ base64url b)"
  using base64url_class [of b] length_base64url [of b]
  by (simp add: proof_pattern_def matches_seq_replicate matches_all_def)

lemma json_units_v1: "list_all (\<lambda>c. c < 65536) PROOF_VERSION"
  by (simp add: PROOF_VERSION_def js_def)

lemma proofMessage_inj:
  assumes "list_all (\<lambda>c. c < 65536) (normalizeReportAddress (p_nfc env) a)" "list_all (\<lambda>c. c < 65536) (normalizeReportAddress (p_nfc env) b)"
    and "list_all (\<lambda>c. c < 65536) k" "list_all (\<lambda>c. c < 65536) l" and comma: "\<And>n. 44 \<notin> set (p_number env n)"
    and eq: "proofMessage env a k lat lon = proofMessage env b l lat' lon'"
  shows "normalizeReportAddress (p_nfc env) a = normalizeReportAddress (p_nfc env) b \<and> k = l \<and>
    p_number env lat = p_number env lat' \<and> p_number env lon = p_number env lon'"
proof -
  let ?a = "normalizeReportAddress (p_nfc env) a" and ?b = "normalizeReportAddress (p_nfc env) b"
  let ?t = "\<lambda>x y. p_number env x @ 44 # p_number env y @ [93]"
  have "json_string PROOF_VERSION @ 44 # json_string ?a @ 44 # json_string k @ 44 # ?t lat lon =
      json_string PROOF_VERSION @ 44 # json_string ?b @ 44 # json_string l @ 44 # ?t lat' lon'"
    using eq by (simp add: proofMessage_def js_def)
  then have "json_string ?a @ 44 # json_string k @ 44 # ?t lat lon = json_string ?b @ 44 # json_string l @ 44 # ?t lat' lon'"
    by (metis append_same_eq same_append_eq list.inject)
  from json_string_inj [OF assms(1,2) this] have e: "?a = ?b" "json_string k @ 44 # ?t lat lon = json_string l @ 44 # ?t lat' lon'" by auto
  from json_string_inj [OF assms(3,4) e(2)] have "k = l" "?t lat lon = ?t lat' lon'" by auto
  then show ?thesis using e(1) append_sep_inj [OF comma comma, of lat "p_number env lon @ [93]" lat' "p_number env lon' @ [93]"] by simp
qed

end
