(* ===== verification/LightInventory.thy ===== *)
theory LightInventory
  imports AddressText "HOL-Library.List_Lexorder" "HOL-Library.Product_Lexorder"
begin

text \<open>
  The inventory of light points as the import and the export see it: the rows of \<^verbatim>\<open>light_points\<close>
  after migration 0002 (\<^verbatim>\<open>types/lightPoint.ts\<close>), the order of texts under the collation \<^verbatim>\<open>"C"\<close>, and
  the checks PostgreSQL makes when a row is written (\<^verbatim>\<open>db/migrations/0001\<close> and \<^verbatim>\<open>0002\<close>).
\<close>

section \<open>Rows\<close>

datatype light_status = Active | Inactive | Maintenance

definition status_text :: "light_status \<Rightarrow> jsstring" where
  "status_text st = (case st of Active \<Rightarrow> js ''active'' | Inactive \<Rightarrow> js ''inactive'' | Maintenance \<Rightarrow> js ''maintenance'')"

definition status_of_text :: "jsstring \<Rightarrow> light_status option" where
  "status_of_text s = List.find (\<lambda>st. status_text st = s) [Active, Inactive, Maintenance]"

lemma status_of_text_text [simp]: "status_of_text (status_text st) = Some st"
  by (cases st) (simp_all add: status_of_text_def status_text_def js_def)

lemma status_of_text_Some: "status_of_text s = Some st \<longleftrightarrow> s = status_text st"
  by (cases st) (auto simp: status_of_text_def status_text_def js_def split: if_splits)

record inventory_row =
  iv_id :: int
  iv_number :: jsstring
  iv_external :: "jsstring option"
  iv_longitude :: js_number
  iv_latitude :: js_number
  iv_address :: "jsstring option"
  iv_district :: "jsstring option"
  iv_lamp :: "jsstring option"
  iv_status :: light_status
  iv_created :: int
  iv_updated :: int

section \<open>Characters\<close>

text \<open>
  PostgreSQL counts and compares characters: the code points of a text, \<^verbatim>\<open>Array.from(s)\<close>.  Under
  \<^verbatim>\<open>COLLATE "C"\<close>, the order of the UTF-8 bytes, texts are ordered by their code points.
\<close>

fun code_points :: "jsstring \<Rightarrow> nat list" where
  "code_points [] = []"
| "code_points [c] = [c]"
| "code_points (c # d # s) =
     (if high_surrogate c \<and> low_surrogate d then (0x10000 + (c - 0xd800) * 0x400 + (d - 0xdc00)) # code_points s
      else c # code_points (d # s))"

lemma code_points_length: "length (code_points s) \<le> length s"
  by (induction s rule: code_points.induct) auto

section \<open>What the table accepts\<close>

text \<open>
  The error PostgreSQL reports for the values of a new or changed row: the widths of the columns
  (22001) and the checks on the inventory number and the position (23514).
\<close>

definition too_long :: "nat \<Rightarrow> jsstring option \<Rightarrow> bool" where
  "too_long n v = (case v of None \<Rightarrow> False | Some s \<Rightarrow> n < length (code_points s))"

definition light_point_error :: "(jsstring \<Rightarrow> jsstring) \<Rightarrow> inventory_row \<Rightarrow> string option" where
  "light_point_error nfc r =
     (if too_long 50 (iv_external r) \<or> too_long 100 (iv_district r) \<or> too_long 100 (iv_lamp r) then Some ''22001''
      else if iv_number r = [] \<or> \<not> isCanonicalInventoryNumber nfc (iv_number r) then Some ''23514''
      else if \<not> valid_coordinates (iv_latitude r) (iv_longitude r) then Some ''23514''
      else None)"

end
