(* ===== verification/FaultHistory.thy ===== *)
theory FaultHistory
  imports EmailService ReportTarget AddressProof LightInventory
begin

text \<open>
  The fault report history, \<^verbatim>\<open>services/faultReportHistory.service.ts\<close>, over the tables of migrations
  0004 and 0005: what a submitted report has to look like, the transaction that records it at most
  once for each attempt of a client, the automatic notes about earlier reports, the cleanup of old
  receipts and the list of the administration.

  Times of the database are microseconds, those of JavaScript milliseconds.  A transaction is one
  step: the advisory lock it takes serializes the submissions of one attempt.  A
  \<open>history_ambient\<close> says what the database clock shows at each statement, which statements fail,
  whether a \<^verbatim>\<open>COMMIT\<close> whose answer was lost took effect, and how many identity values others have drawn.
  The identity values of a rolled back transaction are such gaps.  The consumption of the e-mail
  verification runs on the same connection; its state is \<open>sb_email\<close>.
\<close>

section \<open>Submitted reports\<close>

record submission_input =
  si_attempt :: "jsstring option"
  si_locality :: jsstring
  si_detail :: "jsstring option"
  si_address :: js_value
  si_proof :: js_value
  si_block :: "jsstring option"
  si_fault :: "jsstring option"
  si_target :: js_value

datatype history_error =
  InvalidAttemptId | InvalidLocality | InvalidFaultCode | InvalidAutomaticAddress | InvalidAddressProof | InvalidTarget

datatype submission_error = HistoryInputError history_error | TargetRefused nat jsstring | HistoryFailed

record submission_env =
  se_localities :: "jsstring list"
  se_classify :: "js_value \<Rightarrow> classification"
  se_proof :: proof_env
  se_secret :: jsstring
  se_format :: "int \<Rightarrow> jsstring"

definition AUSEMIO_FAULT_TYPE_OTHER :: jsstring where
  "AUSEMIO_FAULT_TYPE_OTHER = js ''Q99''"

definition AUSEMIO_FAULT_TYPE_VALUES :: "jsstring list" where
  "AUSEMIO_FAULT_TYPE_VALUES =
     [js ''Q'', js ''Q1'', js ''Q2'', js ''Q3'', js ''Q4'', js ''Q6'', js ''Q10'', js ''Q61'', AUSEMIO_FAULT_TYPE_OTHER]"

definition AUSEMIO_LOCATION_BLOCK_VALUES :: "jsstring list" where
  "AUSEMIO_LOCATION_BLOCK_VALUES = [js ''Q10'', js ''Q11'', js ''Q12'']"

text \<open>An optional code that is present and not empty has to be in its list.\<close>

definition code_accepted :: "jsstring list \<Rightarrow> jsstring option \<Rightarrow> bool" where
  "code_accepted values v = (case v of None \<Rightarrow> True | Some s \<Rightarrow> s = [] \<or> s \<in> set values)"

definition control_unit :: "code_unit \<Rightarrow> bool" where
  "control_unit c \<longleftrightarrow> c \<le> 31 \<or> c = 127"

definition address_text_ok :: "js_value \<Rightarrow> bool" where
  "address_text_ok v =
     (case v of JUndefined \<Rightarrow> True
      | JStr s \<Rightarrow> length s \<le> 500 \<and> \<not> list_ex control_unit s
      | _ \<Rightarrow> False)"

definition proof_text_ok :: "js_value \<Rightarrow> bool" where
  "proof_text_ok v =
     (case v of JUndefined \<Rightarrow> True | JStr s \<Rightarrow> matches_seq proof_pattern s | _ \<Rightarrow> False)"

text \<open>An automatic address that is not blank, and the presence of a proof.\<close>

definition automatic_address :: "submission_input \<Rightarrow> jsstring option" where
  "automatic_address inp =
     (case as_string (si_address inp) of
        None \<Rightarrow> None
      | Some s \<Rightarrow> if js_trim s = [] then None else Some s)"

definition validateSubmission :: "submission_env \<Rightarrow> submission_input \<Rightarrow> history_error option" where
  "validateSubmission env inp =
     (if (case si_attempt inp of None \<Rightarrow> False | Some s \<Rightarrow> \<not> is_uuid_v4 s) then Some InvalidAttemptId
      else if si_locality inp \<notin> set (se_localities env) then Some InvalidLocality
      else if \<not> code_accepted AUSEMIO_FAULT_TYPE_VALUES (si_fault inp) then Some InvalidFaultCode
      else if \<not> code_accepted AUSEMIO_LOCATION_BLOCK_VALUES (si_block inp) then Some InvalidFaultCode
      else if \<not> address_text_ok (si_address inp) then Some InvalidAutomaticAddress
      else if \<not> proof_text_ok (si_proof inp) then Some InvalidAddressProof
      else if (automatic_address inp \<noteq> None) \<noteq> (as_string (si_proof inp) \<noteq> None) then Some InvalidAddressProof
      else if \<not> isRecord (si_target inp) then Some InvalidTarget
      else None)"

datatype history_target = LightTarget js_number | PointTarget target_kind js_number js_number | ManualTarget

text \<open>\<^verbatim>\<open>parseTarget\<close>; \<open>None\<close> is the thrown \<^verbatim>\<open>invalid_report_target\<close>.\<close>

definition parseTarget :: "js_value \<Rightarrow> history_target option" where
  "parseTarget v =
     (if \<not> isRecord v \<or> \<not> has_own ''kind'' v then None
      else
        (case kind_of (js_get ''kind'' v) of
           Some LightPointKind \<Rightarrow>
             (case as_number (js_get ''lightPointId'' v) of Some n \<Rightarrow> Some (LightTarget n) | None \<Rightarrow> None)
         | Some ManualKind \<Rightarrow> Some ManualTarget
         | Some k \<Rightarrow>
             (case (as_number (js_get ''latitude'' v), as_number (js_get ''longitude'' v)) of
                (Some lat, Some lon) \<Rightarrow> Some (PointTarget k lat lon)
              | _ \<Rightarrow> None)
         | None \<Rightarrow> None))"

section \<open>Tables\<close>

record history_row =
  h_id :: int
  h_submitted :: int
  h_locality :: jsstring
  h_block :: "jsstring option"
  h_fault :: "jsstring option"
  h_kind :: target_kind
  h_light :: "int option"
  h_geom :: "(js_number \<times> js_number) option"
  h_notes :: "jsstring list"

record receipt =
  rc_attempt :: jsstring
  rc_history :: int
  rc_created :: int
  rc_expires :: int

record 'db submission_db =
  sb_history :: "history_row list"
  sb_receipts :: "receipt list"
  sb_next :: int
  sb_lights :: light_db
  sb_email :: 'db

definition hours :: "int \<Rightarrow> int" where
  "hours n = interval_hours n"

definition RECEIPT_DAYS :: int where
  "RECEIPT_DAYS = 30"

definition receipt_end :: "int \<Rightarrow> int" where
  "receipt_end t = t + hours (24 * RECEIPT_DAYS)"

text \<open>The \<^verbatim>\<open>CHECK\<close> constraints and column widths of \<^verbatim>\<open>fault_report_history\<close>; its points are latitude and longitude.\<close>

definition history_row_ok :: "history_row \<Rightarrow> bool" where
  "history_row_ok r \<longleftrightarrow>
     \<not> too_long 100 (Some (h_locality r)) \<and> \<not> too_long 3 (h_block r) \<and> \<not> too_long 3 (h_fault r) \<and>
     (h_kind r = LightPointKind \<longleftrightarrow> h_light r \<noteq> None) \<and>
     (h_kind r = ManualKind \<longleftrightarrow> h_geom r = None) \<and>
     (case h_geom r of None \<Rightarrow> True | Some (lat, lon) \<Rightarrow> valid_coordinates lat lon)"

section \<open>Notes about earlier reports\<close>

definition recentDays :: int where "recentDays = 3"

definition recentMinimum :: int where "recentMinimum = 2"

definition recurringDays :: int where "recurringDays = 30"

definition recurringMinimum :: int where "recurringMinimum = 5"

definition previousDays :: int where "previousDays = 7"

lemmas threshold_defs = recentDays_def recentMinimum_def recurringDays_def recurringMinimum_def previousDays_def

record fault_summary =
  fs_recent :: int
  fs_recurring :: int
  fs_latest :: "int option"
  fs_within :: "bool option"

text \<open>
  \<^verbatim>\<open>FAULT_HISTORY_SUMMARY_SQL\<close> for a light point and a time.  The driver reads the latest time as a
  \<^verbatim>\<open>Date\<close>, in whole milliseconds; the comparison with it is made by the database.
\<close>

definition earlier_reports :: "int \<Rightarrow> int \<Rightarrow> int \<Rightarrow> history_row list \<Rightarrow> history_row list" where
  "earlier_reports i t h hs = filter (\<lambda>r. h_light r = Some i \<and> t - hours h \<le> h_submitted r \<and> h_submitted r < t) hs"

definition fault_history_summary :: "int \<Rightarrow> int \<Rightarrow> history_row list \<Rightarrow> fault_summary" where
  "fault_history_summary i t hs =
     (let earlier = earlier_reports i t 720 hs;
          latest = (if earlier = [] then None else Some (Max (h_submitted ` set earlier))) in
      \<lparr>fs_recent = int (length (filter (\<lambda>r. t - hours 72 \<le> h_submitted r) earlier)),
       fs_recurring = int (length (filter (\<lambda>r. t - hours 720 \<le> h_submitted r) earlier)),
       fs_latest = map_option (\<lambda>u. u div 1000) latest,
       fs_within = map_option (\<lambda>u. t - hours 168 \<le> u) latest\<rparr>)"

definition no_summary :: fault_summary where
  "no_summary = \<lparr>fs_recent = 0, fs_recurring = 0, fs_latest = None, fs_within = Some False\<rparr>"

definition count_text :: "submission_env \<Rightarrow> int \<Rightarrow> jsstring" where
  "count_text env n = p_number (se_proof env) (Fin (of_int n))"

text \<open>The texts of the notes; 225, 233, 237, 250 and 253 are the letters \<^emph>\<open>a, e, i, u, y\<close> with an acute accent.\<close>

definition reports_word :: jsstring where
  "reports_word = js '' predch'' @ [225] @ js ''dzaj'' @ [250] @ js ''cich hl'' @ [225] @ js ''sen'' @ [237]"

definition target_label :: "submission_env \<Rightarrow> js_number \<Rightarrow> jsstring" where
  "target_label env n = js ''na evidovanom svietidle #'' @ p_number (se_proof env) n"

definition recent_clause :: "submission_env \<Rightarrow> jsstring \<Rightarrow> int \<Rightarrow> jsstring" where
  "recent_clause env lead n = lead @ js ''za posledn'' @ [233] @ js '' '' @ count_text env n @ js '' dni''"

definition recurring_note :: "submission_env \<Rightarrow> js_number \<Rightarrow> fault_summary \<Rightarrow> jsstring" where
  "recurring_note env n s =
     js ''Opakovan'' @ [233] @ js '' hl'' @ [225] @ js ''senia '' @ target_label env n @ js '': '' @
     count_text env (fs_recurring s) @ reports_word @ js '' za posledn'' @ [253] @ js ''ch '' @ count_text env recurringDays @
     js '' dn'' @ [237] @
     (if fs_recent s \<ge> recentMinimum
      then recent_clause env (js '', z toho '' @ count_text env (fs_recent s) @ js '' '') recentDays else []) @ js ''.''"

definition recent_note :: "submission_env \<Rightarrow> js_number \<Rightarrow> fault_summary \<Rightarrow> jsstring" where
  "recent_note env n s =
     count_text env (fs_recent s) @ reports_word @ js '' '' @ target_label env n @
     recent_clause env (js '' '') recentDays @ js ''.''"

definition formatOperatorTimestamp :: "submission_env \<Rightarrow> int \<Rightarrow> jsstring" where
  "formatOperatorTimestamp env ms = se_format env ms @ js '' (Europe/Bratislava)''"

definition previous_note :: "submission_env \<Rightarrow> js_number \<Rightarrow> int \<Rightarrow> jsstring" where
  "previous_note env n ms =
     js ''Posledn'' @ [233] @ js '' predch'' @ [225] @ js ''dzaj'' @ [250] @ js ''ce hl'' @ [225] @ js ''senie '' @
     target_label env n @ js '': '' @ formatOperatorTimestamp env ms @ js ''.''"

definition within_previous_days :: "int \<Rightarrow> int \<Rightarrow> bool option \<Rightarrow> bool" where
  "within_previous_days submitted latest answer =
     (case answer of
        Some b \<Rightarrow> b
      | None \<Rightarrow> 0 \<le> submitted - latest \<and> submitted - latest \<le> previousDays * 24 * 60 * 60 * 1000)"

definition buildAutomaticFaultNotes :: "submission_env \<Rightarrow> fault_summary \<Rightarrow> int \<Rightarrow> history_target \<Rightarrow> jsstring list" where
  "buildAutomaticFaultNotes env s submitted target =
     (case target of
        LightTarget n \<Rightarrow>
          if fs_recurring s \<ge> recurringMinimum then [recurring_note env n s]
          else if fs_recent s \<ge> recentMinimum then [recent_note env n s]
          else
            (case fs_latest s of
               None \<Rightarrow> []
             | Some latest \<Rightarrow>
                 if within_previous_days submitted latest (fs_within s) then [previous_note env n latest] else [])
      | _ \<Rightarrow> [])"

text \<open>\<^verbatim>\<open>[original, generated].filter(Boolean).join('\n\n')\<close>.\<close>

fun js_join :: "jsstring \<Rightarrow> jsstring list \<Rightarrow> jsstring" where
  "js_join sep [] = []"
| "js_join sep [s] = s"
| "js_join sep (s # r) = s @ sep @ js_join sep r"

definition buildOperatorAdditionalInfo :: "jsstring option \<Rightarrow> jsstring list \<Rightarrow> jsstring" where
  "buildOperatorAdditionalInfo description notes =
     (let original = (case description of None \<Rightarrow> [] | Some d \<Rightarrow> js_trim d);
          generated = (if notes \<noteq> []
            then js ''Automatick'' @ [233] @ js '' pozn'' @ [225] @ js ''mky pre oper'' @ [225] @ js ''tora: '' @
              js_join (js '' '') notes
            else []) in
      js_join [10, 10] (filter (\<lambda>s. s \<noteq> []) [original, generated]))"

section \<open>Recording a submission\<close>

text \<open>Results that may be errors, in sequence.\<close>

primrec and_then :: "'e + 'a \<Rightarrow> ('a \<Rightarrow> 'e + 'b) \<Rightarrow> 'e + 'b" where
  "and_then (Inl e) f = Inl e"
| "and_then (Inr x) f = f x"

lemma and_then_Inr [simp]: "and_then r f = Inr y \<longleftrightarrow> (\<exists>x. r = Inr x \<and> f x = Inr y)"
  by (cases r) auto

record history_ambient =
  ha_clock :: "nat \<Rightarrow> int"
  ha_fails :: "nat \<Rightarrow> bool"
  ha_commit_applied :: bool
  ha_skipped :: nat

datatype final_target = Located resolved_target | Unlocated

record operator_payload =
  op_locality :: jsstring
  op_block :: "jsstring option"
  op_fault :: "jsstring option"
  op_target :: final_target
  op_info :: jsstring

record history_result =
  hr_authorized :: bool
  hr_duplicate :: bool
  hr_id :: "int option"
  hr_receipt :: "jsstring option"
  hr_submitted :: "int option"
  hr_notes :: "jsstring list option"
  hr_payload :: "operator_payload option"

text \<open>
  The statements of the transaction, numbered: 0 \<^verbatim>\<open>connect\<close> and \<^verbatim>\<open>BEGIN\<close>, 1 the lock, 2 the lookup of
  a receipt, 3 the removal of an expired one, 4 the light point, 5 the time, 6 the summary, 7 the
  row, 8 the receipt, 9 \<^verbatim>\<open>COMMIT\<close>, 10 \<^verbatim>\<open>ROLLBACK\<close>.  A missing or unreadable time counts as a failure of 5.
\<close>

definition statement :: "history_ambient \<Rightarrow> nat \<Rightarrow> 'a \<Rightarrow> submission_error + 'a" where
  "statement a i x = (if ha_fails a i then Inl HistoryFailed else Inr x)"

lemma statement_Inr [simp]: "statement a i x = Inr y \<longleftrightarrow> \<not> ha_fails a i \<and> y = x"
  by (auto simp: statement_def)

definition live_receipt :: "int \<Rightarrow> jsstring \<Rightarrow> receipt \<Rightarrow> bool" where
  "live_receipt t x r \<longleftrightarrow> rc_attempt r = x \<and> rc_expires r > t"

definition history_by_id :: "int \<Rightarrow> history_row list \<Rightarrow> history_row option" where
  "history_by_id i hs = find (\<lambda>h. h_id h = i) hs"

definition existing_report :: "int \<Rightarrow> jsstring \<Rightarrow> 'db submission_db \<Rightarrow> history_row option" where
  "existing_report t x db =
     (case find (live_receipt t x) (sb_receipts db) of
        None \<Rightarrow> None
      | Some r \<Rightarrow> history_by_id (rc_history r) (sb_history db))"

definition delete_expired_attempt :: "int \<Rightarrow> jsstring \<Rightarrow> 'db submission_db \<Rightarrow> 'db submission_db" where
  "delete_expired_attempt t x db =
     db\<lparr>sb_receipts := filter (\<lambda>r. \<not> (rc_attempt r = x \<and> rc_expires r \<le> t)) (sb_receipts db)\<rparr>"

definition kind_text :: "target_kind \<Rightarrow> jsstring" where
  "kind_text k =
     (case k of LightPointKind \<Rightarrow> js ''light-point'' | CustomKind \<Rightarrow> js ''custom'' | DeviceKind \<Rightarrow> js ''device''
      | ManualKind \<Rightarrow> js ''manual'')"

definition target_value :: "history_target \<Rightarrow> js_value" where
  "target_value ti =
     (case ti of
        LightTarget n \<Rightarrow> JObj [(js ''kind'', JStr (kind_text LightPointKind)), (js ''lightPointId'', JNum n)]
      | PointTarget k lat lon \<Rightarrow>
          JObj [(js ''kind'', JStr (kind_text k)), (js ''latitude'', JNum lat), (js ''longitude'', JNum lon)]
      | ManualTarget \<Rightarrow> JObj [(js ''kind'', JStr (kind_text ManualKind))])"

text \<open>The light point is read by its \<^verbatim>\<open>INTEGER\<close> identifier: a larger number fails in the database.\<close>

definition locked_coordinates :: "history_ambient \<Rightarrow> light_db \<Rightarrow> int \<Rightarrow> target_error + (js_number \<times> js_number) option" where
  "locked_coordinates a ldb i =
     (if ha_fails a 4 \<or> i > int4_max then Inl TargetQueryFailed else Inr (findCoordinates ldb i))"

fun target_failure :: "target_error \<Rightarrow> submission_error" where
  "target_failure (ReportTargetError st code) = TargetRefused st code"
| "target_failure TargetQueryFailed = HistoryFailed"

definition resolve_target :: "submission_env \<Rightarrow> history_ambient \<Rightarrow> light_db \<Rightarrow> history_target \<Rightarrow> submission_error + final_target" where
  "resolve_target env a ldb ti =
     (if ti = ManualTarget then Inr Unlocated
      else map_sum target_failure Located
        (resolveAndValidateReportTarget (locked_coordinates a ldb) (se_classify env) (target_value ti)))"

definition is_point :: "target_kind \<Rightarrow> bool" where
  "is_point k \<longleftrightarrow> k = CustomKind \<or> k = DeviceKind"

definition check_address_proof :: "submission_env \<Rightarrow> submission_input \<Rightarrow> final_target \<Rightarrow> submission_error + unit" where
  "check_address_proof env inp target =
     (case automatic_address inp of
        None \<Rightarrow> Inr ()
      | Some address \<Rightarrow>
          (case (target, as_string (si_proof inp)) of
             (Located t, Some p) \<Rightarrow>
               if is_point (t_kind t) \<and>
                  verifyReportAddressProof (se_proof env) address (kind_text (t_kind t)) (t_latitude t) (t_longitude t) p (se_secret env)
               then Inr () else Inl (HistoryInputError InvalidAddressProof)
           | _ \<Rightarrow> Inl (HistoryInputError InvalidAddressProof)))"

text \<open>What the notes are about; the cases that disagree with the parsed target throw.\<close>

definition note_target :: "history_target \<Rightarrow> final_target \<Rightarrow> submission_error + history_target" where
  "note_target ti target =
     (case target of
        Unlocated \<Rightarrow> Inr ManualTarget
      | Located t \<Rightarrow>
          if t_kind t = LightPointKind then
            (case ti of LightTarget n \<Rightarrow> Inr (LightTarget n) | _ \<Rightarrow> Inl (HistoryInputError InvalidTarget))
          else if is_point (t_kind t) then
            (case ti of
               PointTarget k lat lon \<Rightarrow>
                 if k = t_kind t then Inr (PointTarget k (t_latitude t) (t_longitude t)) else Inl (HistoryInputError InvalidTarget)
             | _ \<Rightarrow> Inl (HistoryInputError InvalidTarget))
          else Inr ManualTarget)"

definition target_summary :: "history_ambient \<Rightarrow> int \<Rightarrow> final_target \<Rightarrow> history_row list \<Rightarrow> submission_error + fault_summary" where
  "target_summary a t target hs =
     (case target of
        Located rt \<Rightarrow>
          (case t_light rt of
             Some i \<Rightarrow> statement a 6 (fault_history_summary i t hs)
           | None \<Rightarrow> Inr no_summary)
      | Unlocated \<Rightarrow> Inr no_summary)"

definition target_light :: "final_target \<Rightarrow> int option" where
  "target_light target = (case target of Located t \<Rightarrow> t_light t | Unlocated \<Rightarrow> None)"

definition target_geom :: "final_target \<Rightarrow> (js_number \<times> js_number) option" where
  "target_geom target = (case target of Located t \<Rightarrow> Some (t_latitude t, t_longitude t) | Unlocated \<Rightarrow> None)"

definition target_row_kind :: "final_target \<Rightarrow> target_kind" where
  "target_row_kind target = (case target of Located t \<Rightarrow> t_kind t | Unlocated \<Rightarrow> ManualKind)"

definition present_code :: "jsstring option \<Rightarrow> jsstring option" where
  "present_code v = (if v = Some [] then None else v)"

definition operator_report :: "submission_input \<Rightarrow> final_target \<Rightarrow> jsstring list \<Rightarrow> operator_payload" where
  "operator_report inp target notes =
     \<lparr>op_locality = si_locality inp, op_block = present_code (si_block inp), op_fault = present_code (si_fault inp),
      op_target = target, op_info = buildOperatorAdditionalInfo (si_detail inp) notes\<rparr>"

definition history_row_of :: "int \<Rightarrow> int \<Rightarrow> submission_input \<Rightarrow> final_target \<Rightarrow> jsstring list \<Rightarrow> history_row" where
  "history_row_of i t inp target notes =
     \<lparr>h_id = i, h_submitted = t, h_locality = si_locality inp, h_block = si_block inp, h_fault = si_fault inp,
      h_kind = target_row_kind target, h_light = target_light target, h_geom = target_geom target, h_notes = notes\<rparr>"

definition insert_history :: "history_ambient \<Rightarrow> history_row \<Rightarrow> 'db submission_db \<Rightarrow> submission_error + 'db submission_db" where
  "insert_history a r db =
     (if ha_fails a 7 \<or> \<not> history_row_ok r \<or> list_ex (\<lambda>h. h_id h = h_id r) (sb_history db) then Inl HistoryFailed
      else Inr (db\<lparr>sb_history := sb_history db @ [r], sb_next := h_id r + 1\<rparr>))"

definition new_receipt :: "int \<Rightarrow> jsstring \<Rightarrow> int \<Rightarrow> receipt" where
  "new_receipt t x i = \<lparr>rc_attempt = x, rc_history = i, rc_created = t, rc_expires = receipt_end t\<rparr>"

text \<open>The key, the unique history and the foreign key of \<^verbatim>\<open>report_submission_attempts\<close>.\<close>

definition insert_receipt :: "history_ambient \<Rightarrow> jsstring option \<Rightarrow> int \<Rightarrow> 'db submission_db \<Rightarrow> submission_error + 'db submission_db" where
  "insert_receipt a attempt i db =
     (case attempt of
        None \<Rightarrow> Inr db
      | Some x \<Rightarrow>
          if ha_fails a 8 \<or> list_ex (\<lambda>r. rc_attempt r = x \<or> rc_history r = i) (sb_receipts db) \<or>
             history_by_id i (sb_history db) = None
          then Inl HistoryFailed
          else Inr (db\<lparr>sb_receipts := sb_receipts db @ [new_receipt (ha_clock a 8) x i]\<rparr>))"

type_synonym 'db authorization = "'db \<Rightarrow> ('db \<times> bool) option"

definition authorize_step :: "'db authorization option \<Rightarrow> 'db submission_db \<Rightarrow> submission_error + 'db submission_db \<times> bool" where
  "authorize_step auth db =
     (case auth of
        None \<Rightarrow> Inr (db, True)
      | Some f \<Rightarrow>
          (case f (sb_email db) of
             None \<Rightarrow> Inl HistoryFailed
           | Some (e, ok) \<Rightarrow> Inr (db\<lparr>sb_email := e\<rparr>, ok)))"

definition unauthorized :: history_result where
  "unauthorized = \<lparr>hr_authorized = False, hr_duplicate = False, hr_id = None, hr_receipt = None, hr_submitted = None,
     hr_notes = None, hr_payload = None\<rparr>"

definition duplicate_of :: "jsstring \<Rightarrow> history_row \<Rightarrow> history_result" where
  "duplicate_of x h = \<lparr>hr_authorized = True, hr_duplicate = True, hr_id = Some (h_id h), hr_receipt = Some x,
     hr_submitted = Some (h_submitted h), hr_notes = Some [], hr_payload = None\<rparr>"

definition recorded :: "jsstring option \<Rightarrow> history_row \<Rightarrow> operator_payload \<Rightarrow> history_result" where
  "recorded attempt h p = \<lparr>hr_authorized = True, hr_duplicate = False, hr_id = Some (h_id h), hr_receipt = attempt,
     hr_submitted = Some (h_submitted h), hr_notes = Some (h_notes h), hr_payload = Some p\<rparr>"

text \<open>The second half of the transaction, after the authorization.\<close>

definition store_report :: "submission_env \<Rightarrow> history_ambient \<Rightarrow> submission_input \<Rightarrow> history_target \<Rightarrow> jsstring option \<Rightarrow>
    final_target \<Rightarrow> 'db submission_db \<Rightarrow> submission_error + history_result \<times> 'db submission_db" where
  "store_report env a inp ti attempt target db =
     and_then (statement a 5 (ha_clock a 5)) (\<lambda>t.
     and_then (target_summary a t target (sb_history db)) (\<lambda>summary.
     and_then (note_target ti target) (\<lambda>nt.
       let notes = buildAutomaticFaultNotes env summary (t div 1000) nt;
           row = history_row_of (sb_next db + int (ha_skipped a)) t inp target notes in
       and_then (insert_history a row db) (\<lambda>db1.
       and_then (insert_receipt a attempt (h_id row) db1) (\<lambda>db2.
         Inr (recorded attempt row (operator_report inp target notes), db2))))))"

definition fresh_submission :: "submission_env \<Rightarrow> history_ambient \<Rightarrow> submission_input \<Rightarrow> history_target \<Rightarrow> jsstring option \<Rightarrow>
    'db authorization option \<Rightarrow> 'db submission_db \<Rightarrow> submission_error + history_result \<times> 'db submission_db" where
  "fresh_submission env a inp ti attempt auth db =
     and_then (resolve_target env a (sb_lights db) ti) (\<lambda>target.
     and_then (check_address_proof env inp target) (\<lambda>_.
     and_then (authorize_step auth db) (\<lambda>(db1, ok).
       if ok then store_report env a inp ti attempt target db1 else Inr (unauthorized, db1))))"

definition attempt_of :: "submission_input \<Rightarrow> jsstring option" where
  "attempt_of inp = map_option lower_ascii (si_attempt inp)"

definition submission_transaction :: "submission_env \<Rightarrow> history_ambient \<Rightarrow> submission_input \<Rightarrow> history_target \<Rightarrow>
    'db authorization option \<Rightarrow> 'db submission_db \<Rightarrow> submission_error + history_result \<times> 'db submission_db" where
  "submission_transaction env a inp ti auth db =
     and_then (statement a 0 ()) (\<lambda>_.
       case attempt_of inp of
         None \<Rightarrow> fresh_submission env a inp ti None auth db
       | Some x \<Rightarrow>
           and_then (statement a 1 ()) (\<lambda>_.
           and_then (statement a 2 (existing_report (ha_clock a 2) x db)) (\<lambda>existing.
             case existing of
               Some h \<Rightarrow> Inr (duplicate_of x h, db)
             | None \<Rightarrow>
                 and_then (statement a 3 (delete_expired_attempt (ha_clock a 3) x db)) (\<lambda>db1.
                   fresh_submission env a inp ti (Some x) auth db1))))"

text \<open>
  \<^verbatim>\<open>COMMIT\<close>, or \<^verbatim>\<open>ROLLBACK\<close> after an error and for an unauthorized submission.  The answer of a
  \<^verbatim>\<open>COMMIT\<close> that took effect may be lost: the caller then sees an error.
\<close>

definition end_transaction :: "history_ambient \<Rightarrow> 'db submission_db \<Rightarrow> submission_error + history_result \<times> 'db submission_db \<Rightarrow>
    'db submission_db \<times> (submission_error + history_result)" where
  "end_transaction a db out =
     (case out of
        Inl e \<Rightarrow> (db, Inl e)
      | Inr (r, db') \<Rightarrow>
          if \<not> hr_authorized r then (db, statement a 10 r)
          else if ha_fails a 9 then (if ha_commit_applied a then db' else db, Inl HistoryFailed)
          else (db', Inr r))"

definition address_misplaced :: "submission_input \<Rightarrow> history_target \<Rightarrow> bool" where
  "address_misplaced inp ti \<longleftrightarrow>
     si_address inp \<noteq> JUndefined \<and> si_address inp \<noteq> JStr [] \<and>
     (case ti of PointTarget k lat lon \<Rightarrow> False | _ \<Rightarrow> True)"

definition recordSubmission :: "submission_env \<Rightarrow> history_ambient \<Rightarrow> submission_input \<Rightarrow> 'db authorization option \<Rightarrow>
    'db submission_db \<Rightarrow> 'db submission_db \<times> (submission_error + history_result)" where
  "recordSubmission env a inp auth db =
     (case validateSubmission env inp of
        Some e \<Rightarrow> (db, Inl (HistoryInputError e))
      | None \<Rightarrow>
          (case parseTarget (si_target inp) of
             None \<Rightarrow> (db, Inl (HistoryInputError InvalidTarget))
           | Some ti \<Rightarrow>
               if address_misplaced inp ti then (db, Inl (HistoryInputError InvalidAutomaticAddress))
               else end_transaction a db (submission_transaction env a inp ti auth db)))"

section \<open>Cleanup and the administration's list\<close>

text \<open>\<open>None\<close> is the \<^verbatim>\<open>RangeError\<close>.\<close>

definition cleanupExpiredSubmissionAttempts :: "int \<Rightarrow> int \<Rightarrow> 'db submission_db \<Rightarrow> ('db submission_db \<times> nat) option" where
  "cleanupExpiredSubmissionAttempts t limit db =
     (if limit < 1 \<or> limit > 1000 then None
      else
        (let (rows, n) = delete_first (nat limit) (\<lambda>r. rc_expires r \<le> t)
               (\<lambda>r. (rc_expires r, rc_attempt r)) (sb_receipts db) in
         Some (db\<lparr>sb_receipts := rows\<rparr>, n)))"

text \<open>\<^verbatim>\<open>ORDER BY submitted_at DESC, id DESC LIMIT $1 OFFSET $2\<close> with the count of all rows.\<close>

definition listHistory :: "nat \<Rightarrow> nat \<Rightarrow> 'db submission_db \<Rightarrow> history_row list \<times> nat" where
  "listHistory limit offset db =
     (take limit (drop offset (sort_key (\<lambda>h. (- h_submitted h, - h_id h)) (sb_history db))), length (sb_history db))"

text \<open>
  The page of \<^verbatim>\<open>GET /history\<close>, \<^verbatim>\<open>routes/adminFaultHistory.routes.ts\<close>: the query parameters read as
  numbers (\<open>None\<close> when absent) give limit and offset, or the error 400.  The quotient of two safe
  integers with a divisor up to 100 is rounded to another number than its floor only between integers.
\<close>

definition history_offset :: "int \<Rightarrow> js_number option \<Rightarrow> js_number option \<Rightarrow> int option" where
  "history_offset limit offset page =
     (case page of
        None \<Rightarrow>
          (case safe_integer (case offset of None \<Rightarrow> Fin 0 | Some n \<Rightarrow> n) of
             None \<Rightarrow> None
           | Some n \<Rightarrow> if n < 0 then None else Some (n div limit * limit))
      | Some p \<Rightarrow>
          (case safe_integer p of
             None \<Rightarrow> None
           | Some n \<Rightarrow> if n < 1 \<or> (n - 1) * limit > 9007199254740991 then None else Some ((n - 1) * limit)))"

definition history_page :: "js_number option \<Rightarrow> js_number option \<Rightarrow> js_number option \<Rightarrow> (nat \<times> nat) option" where
  "history_page limit offset page =
     (case safe_integer (case limit of None \<Rightarrow> Fin 25 | Some n \<Rightarrow> n) of
        None \<Rightarrow> None
      | Some l \<Rightarrow>
          if l < 1 \<or> l > 100 then None
          else map_option (\<lambda>k. (nat l, nat k)) (history_offset l offset page))"

definition history_total_pages :: "nat \<Rightarrow> nat \<Rightarrow> nat" where
  "history_total_pages limit rows = max 1 ((rows + limit - 1) div limit)"

definition get_history :: "js_number option \<Rightarrow> js_number option \<Rightarrow> js_number option \<Rightarrow> 'db submission_db \<Rightarrow>
    (history_row list \<times> nat \<times> nat \<times> nat \<times> nat) option" where
  "get_history limit offset page db =
     map_option (\<lambda>(l, k). case listHistory l k db of (items, n) \<Rightarrow> (items, k div l + 1, l, n, history_total_pages l n))
       (history_page limit offset page)"

end
