(* ===== verification/UploadStorage.thy ===== *)
theory UploadStorage
  imports JsValue
begin

text \<open>
  The storage engine of the submission endpoint, class \<^verbatim>\<open>MetadataOnlyUploadStorage\<close> of
  \<^verbatim>\<open>routes/ausemioTest.routes.ts\<close>: it counts the bytes of the uploaded files, keeps none of them,
  and refuses a file when it or its request grows too large.

  A request's state is an object that the file handlers keep a reference to: \<open>us_totals\<close> lists the
  objects, \<open>us_requests\<close> is the \<^verbatim>\<open>WeakMap\<close> from requests to objects.  A file that still streams after its
  request was cleaned up goes on counting in an object no request has.  Each callback of a stream is
  one event; files are numbered in the order of \<^verbatim>\<open>_handleFile\<close>.
\<close>

record upload_limits =
  maxFileBytes :: nat
  maxFiles :: nat
  maxTotalUploadBytes :: nat

definition DEFAULT_LOCAL_TEST_UPLOAD_LIMITS :: upload_limits where
  "DEFAULT_LOCAL_TEST_UPLOAD_LIMITS = \<lparr>maxFileBytes = 10485760, maxFiles = 3, maxTotalUploadBytes = 20971520\<rparr>"

datatype file_failure = ResourceLimit | StreamFailure

record upload_file =
  uf_state :: nat
  uf_bytes :: nat
  uf_answer :: "(file_failure + nat) option"

record upload_storage =
  us_totals :: "nat list"
  us_requests :: "(nat \<times> nat) list"
  us_active :: nat
  us_files :: "upload_file list"

definition empty_upload_storage :: upload_storage where
  "empty_upload_storage = \<lparr>us_totals = [], us_requests = [], us_active = 0, us_files = []\<rparr>"

definition requestState :: "nat \<Rightarrow> upload_storage \<Rightarrow> nat \<times> upload_storage" where
  "requestState req st =
     (case map_of (us_requests st) req of
        Some i \<Rightarrow> (i, st)
      | None \<Rightarrow>
          (length (us_totals st),
           st\<lparr>us_totals := us_totals st @ [0], us_requests := (req, length (us_totals st)) # us_requests st,
              us_active := us_active st + 1\<rparr>))"

definition handleFile :: "nat \<Rightarrow> upload_storage \<Rightarrow> upload_storage" where
  "handleFile req st =
     (case requestState req st of
        (i, st1) \<Rightarrow> st1\<lparr>us_files := us_files st1 @ [\<lparr>uf_state = i, uf_bytes = 0, uf_answer = None\<rparr>]\<rparr>)"

text \<open>The callbacks of file \<open>k\<close>; a settled file ignores them.\<close>

definition on_file :: "nat \<Rightarrow> (upload_file \<Rightarrow> upload_storage \<Rightarrow> upload_storage) \<Rightarrow> upload_storage \<Rightarrow> upload_storage" where
  "on_file k g st =
     (if k < length (us_files st) \<and> uf_answer (us_files st ! k) = None then g (us_files st ! k) st else st)"

definition answer_file :: "nat \<Rightarrow> file_failure + nat \<Rightarrow> upload_storage \<Rightarrow> upload_storage" where
  "answer_file k ans st = st\<lparr>us_files := (us_files st)[k := (us_files st ! k)\<lparr>uf_answer := Some ans\<rparr>]\<rparr>"

definition on_data :: "upload_limits \<Rightarrow> nat \<Rightarrow> nat \<Rightarrow> upload_storage \<Rightarrow> upload_storage" where
  "on_data cap k n = on_file k (\<lambda>f st.
     (let bytes = uf_bytes f + n; grown = us_totals st ! uf_state f + n;
          st1 = st\<lparr>us_totals := (us_totals st)[uf_state f := grown], us_files := (us_files st)[k := f\<lparr>uf_bytes := bytes\<rparr>]\<rparr> in
      if bytes > maxFileBytes cap \<or> grown > maxTotalUploadBytes cap then answer_file k (Inl ResourceLimit) st1 else st1))"

definition on_limit :: "nat \<Rightarrow> upload_storage \<Rightarrow> upload_storage" where
  "on_limit k = on_file k (\<lambda>f. answer_file k (Inl ResourceLimit))"

definition on_error :: "nat \<Rightarrow> upload_storage \<Rightarrow> upload_storage" where
  "on_error k = on_file k (\<lambda>f. answer_file k (Inl StreamFailure))"

definition on_end :: "nat \<Rightarrow> upload_storage \<Rightarrow> upload_storage" where
  "on_end k = on_file k (\<lambda>f. answer_file k (Inr (uf_bytes f)))"

definition cleanupRequest :: "nat \<Rightarrow> upload_storage \<Rightarrow> upload_storage" where
  "cleanupRequest req st =
     (case map_of (us_requests st) req of
        None \<Rightarrow> st
      | Some i \<Rightarrow>
          st\<lparr>us_totals := (us_totals st)[i := 0], us_requests := filter (\<lambda>p. fst p \<noteq> req) (us_requests st),
             us_active := us_active st - 1\<rparr>)"

datatype upload_event =
  FileArrives nat | Data nat nat | LimitReached nat | StreamBroken nat | StreamEnds nat | RequestAborted nat | RequestDone nat

fun upload_step :: "upload_limits \<Rightarrow> upload_storage \<Rightarrow> upload_event \<Rightarrow> upload_storage \<times> unit" where
  "upload_step cap st (FileArrives req) = (handleFile req st, ())"
| "upload_step cap st (Data k n) = (on_data cap k n st, ())"
| "upload_step cap st (LimitReached k) = (on_limit k st, ())"
| "upload_step cap st (StreamBroken k) = (on_error k st, ())"
| "upload_step cap st (StreamEnds k) = (on_end k st, ())"
| "upload_step cap st (RequestAborted req) = (cleanupRequest req st, ())"
| "upload_step cap st (RequestDone req) = (cleanupRequest req st, ())"

section \<open>What the storage keeps\<close>

definition files_of :: "nat \<Rightarrow> upload_storage \<Rightarrow> upload_file list" where
  "files_of i st = filter (\<lambda>f. uf_state f = i) (us_files st)"

definition file_ok :: "upload_limits \<Rightarrow> upload_storage \<Rightarrow> upload_file \<Rightarrow> bool" where
  "file_ok cap st f \<longleftrightarrow> uf_state f < length (us_totals st) \<and>
     (case uf_answer f of
        None \<Rightarrow> uf_bytes f \<le> maxFileBytes cap
      | Some (Inr n) \<Rightarrow> n = uf_bytes f \<and> n \<le> maxFileBytes cap
      | Some (Inl e) \<Rightarrow> True)"

definition file_failed :: "upload_file \<Rightarrow> bool" where
  "file_failed f \<longleftrightarrow> (case uf_answer f of Some (Inl e) \<Rightarrow> True | _ \<Rightarrow> False)"

definition request_ok :: "upload_limits \<Rightarrow> upload_storage \<Rightarrow> nat \<Rightarrow> bool" where
  "request_ok cap st i \<longleftrightarrow> i < length (us_totals st) \<and>
     sum_list (map uf_bytes (files_of i st)) = us_totals st ! i \<and>
     (us_totals st ! i \<le> maxTotalUploadBytes cap \<or> list_ex file_failed (files_of i st))"

definition upload_wf :: "upload_limits \<Rightarrow> upload_storage \<Rightarrow> bool" where
  "upload_wf cap st \<longleftrightarrow>
     us_active st = length (us_requests st) \<and> distinct (map fst (us_requests st)) \<and> distinct (map snd (us_requests st)) \<and>
     (\<forall>f \<in> set (us_files st). file_ok cap st f) \<and> (\<forall>p \<in> set (us_requests st). request_ok cap st (snd p))"

lemma sum_list_filter_update:
  assumes "k < length fs" and "uf_state f' = uf_state (fs ! k)"
  shows "sum_list (map uf_bytes (filter (\<lambda>f. uf_state f = i) (fs[k := f']))) + (if uf_state (fs ! k) = i then uf_bytes (fs ! k) else 0) =
    sum_list (map uf_bytes (filter (\<lambda>f. uf_state f = i) fs)) + (if uf_state (fs ! k) = i then uf_bytes f' else 0)"
  using assms
proof (induction fs arbitrary: k)
  case (Cons g gs)
  then show ?case by (cases k) fastforce+
qed simp

lemma filter_update_other: "\<not> P (xs ! k) \<Longrightarrow> \<not> P y \<Longrightarrow> filter P (xs[k := y]) = filter P xs"
proof (induction xs arbitrary: k)
  case (Cons x xs)
  then show ?case by (cases k) auto
qed simp

lemma failed_update:
  assumes "list_ex file_failed (filter (\<lambda>f. uf_state f = i) fs)" and "k < length fs" and "uf_answer (fs ! k) = None"
  shows "list_ex file_failed (filter (\<lambda>f. uf_state f = i) (fs[k := f']))"
proof -
  from assms(1) obtain j where j: "j < length fs" "uf_state (fs ! j) = i" "file_failed (fs ! j)"
    by (auto simp: list_ex_iff in_set_conv_nth)
  with assms(3) have "j \<noteq> k" by (auto simp: file_failed_def)
  then have "fs[k := f'] ! j = fs ! j" "j < length (fs[k := f'])" using j by simp_all
  then have "fs ! j \<in> set (fs[k := f'])" by (metis nth_mem)
  then show ?thesis using j by (auto simp: list_ex_iff)
qed

text \<open>One file changes its bytes by \<open>n\<close> and perhaps gets its answer.\<close>

lemma file_step_wf:
  assumes wf: "upload_wf cap st" and k: "k < length (us_files st)" "uf_answer (us_files st ! k) = None"
    and f': "uf_state f' = uf_state (us_files st ! k)" "uf_bytes f' = uf_bytes (us_files st ! k) + n"
    and st': "st' = st\<lparr>us_totals := (us_totals st)[uf_state f' := us_totals st ! uf_state f' + n], us_files := (us_files st)[k := f']\<rparr>"
    and ok: "file_ok cap st f'"
    and total: "file_failed f' \<or> n = 0 \<or> us_totals st ! uf_state f' + n \<le> maxTotalUploadBytes cap"
  shows "upload_wf cap st'"
proof -
  let ?old = "us_files st ! k"
  have mem: "?old \<in> set (us_files st)" using k(1) by simp
  then have s: "uf_state f' < length (us_totals st)" using wf f'(1) by (auto simp: upload_wf_def file_ok_def)
  have files: "file_ok cap st' f" if "f \<in> set (us_files st')" for f
  proof -
    have "f = f' \<or> f \<in> set (us_files st)" using that set_update_subset_insert [of "us_files st" k f'] unfolding st' by auto
    then have "file_ok cap st f" using ok wf by (auto simp: upload_wf_def)
    then show ?thesis by (simp add: st' file_ok_def)
  qed
  have reqs: "request_ok cap st' i" if i: "request_ok cap st i" for i
  proof (cases "i = uf_state f'")
    case False
    have "files_of i st' = files_of i st" using False f'(1) k(1) unfolding files_of_def st'
      by (simp add: filter_update_other)
    then show ?thesis using i False by (simp add: request_ok_def st')
  next
    case True
    have "sum_list (map uf_bytes (files_of i st')) + uf_bytes ?old = sum_list (map uf_bytes (files_of i st)) + uf_bytes f'"
      using sum_list_filter_update [OF k(1) f'(1), of i] True f'(1) by (simp add: files_of_def st')
    moreover have "list_ex file_failed (files_of i st')" if "list_ex file_failed (files_of i st) \<or> file_failed f'"
      using that failed_update [OF _ k, of i f'] k(1) True
      by (auto simp: files_of_def st' list_ex_iff intro!: bexI [of _ f'] set_update_memI)
    ultimately show ?thesis using i total s True f'(2) by (auto simp: request_ok_def st')
  qed
  show ?thesis using wf files reqs unfolding upload_wf_def by (auto simp: st')
qed

lemma on_data_wf: "upload_wf cap st \<Longrightarrow> upload_wf cap (on_data cap k n st)"
proof -
  assume wf: "upload_wf cap st"
  let ?f = "us_files st ! k"
  show ?thesis
  proof (cases "k < length (us_files st) \<and> uf_answer ?f = None")
    case True
    then have fo: "file_ok cap st ?f" using wf by (simp add: upload_wf_def)
    let ?big = "uf_bytes ?f + n > maxFileBytes cap \<or> us_totals st ! uf_state ?f + n > maxTotalUploadBytes cap"
    let ?f' = "if ?big then ?f\<lparr>uf_bytes := uf_bytes ?f + n, uf_answer := Some (Inl ResourceLimit)\<rparr> else ?f\<lparr>uf_bytes := uf_bytes ?f + n\<rparr>"
    have "on_data cap k n st = st\<lparr>us_totals := (us_totals st)[uf_state ?f := us_totals st ! uf_state ?f + n],
        us_files := (us_files st)[k := ?f']\<rparr>"
      using True by (auto simp: on_data_def on_file_def answer_file_def Let_def)
    then show ?thesis
      by (intro file_step_wf [OF wf, where k = k and f' = ?f' and n = n])
         (use True fo in \<open>auto simp: file_ok_def file_failed_def\<close>)
  qed (auto simp: on_data_def on_file_def wf)
qed

text \<open>The callbacks that settle a file.\<close>

lemma answer_wf:
  assumes wf: "upload_wf cap st" and k: "k < length (us_files st)" "uf_answer (us_files st ! k) = None"
    and ans: "ans = Inr (uf_bytes (us_files st ! k)) \<or> (\<exists>e. ans = Inl e)"
  shows "upload_wf cap (answer_file k ans st)"
proof (rule file_step_wf [OF wf k, where n = 0])
  let ?f = "us_files st ! k"
  have "file_ok cap st ?f" using wf k by (simp add: upload_wf_def)
  then show "file_ok cap st (?f\<lparr>uf_answer := Some ans\<rparr>)" using ans k by (auto simp: file_ok_def)
  show "answer_file k ans st = st\<lparr>us_totals := (us_totals st)[uf_state (?f\<lparr>uf_answer := Some ans\<rparr>) :=
      us_totals st ! uf_state (?f\<lparr>uf_answer := Some ans\<rparr>) + 0], us_files := (us_files st)[k := ?f\<lparr>uf_answer := Some ans\<rparr>]\<rparr>"
    by (simp add: answer_file_def)
qed auto

lemma on_file_answer_wf:
  "upload_wf cap st \<Longrightarrow> (\<And>f. h f = Inr (uf_bytes f) \<or> (\<exists>e. h f = Inl e)) \<Longrightarrow>
    upload_wf cap (on_file k (\<lambda>f. answer_file k (h f)) st)"
  unfolding on_file_def by (cases "k < length (us_files st) \<and> uf_answer (us_files st ! k) = None") (simp_all add: answer_wf)

lemma length_filter_key: "distinct (map fst rs) \<Longrightarrow> p \<in> set rs \<Longrightarrow> length (filter (\<lambda>q. fst q = fst p) rs) = 1"
proof (induction rs)
  case (Cons q rs)
  show ?case
  proof (cases "fst q = fst p")
    case True
    then have "fst p \<notin> fst ` set rs" using Cons.prems(1) by simp
    then have "filter (\<lambda>r. fst r = fst p) rs = []" by (auto simp: filter_empty_conv image_iff)
    then show ?thesis using True by simp
  qed (use Cons in auto)
qed simp

lemma file_ok_state: "file_ok cap st f \<Longrightarrow> uf_state f < length (us_totals st)"
  by (simp add: file_ok_def)

lemma file_ok_grow: "file_ok cap st f \<Longrightarrow> length (us_totals st) \<le> length (us_totals st') \<Longrightarrow> file_ok cap st' f"
  by (simp add: file_ok_def)

lemma handleFile_wf: "upload_wf cap st \<Longrightarrow> upload_wf cap (handleFile req st)"
proof -
  assume wf: "upload_wf cap st"
  let ?new = "\<lambda>i. \<lparr>uf_state = i, uf_bytes = 0, uf_answer = None\<rparr>"
  show ?thesis
  proof (cases "map_of (us_requests st) req")
    case (Some i)
    then have "(req, i) \<in> set (us_requests st)" by (rule map_of_SomeD)
    then have "i < length (us_totals st)" using wf by (auto simp: upload_wf_def request_ok_def)
    then show ?thesis using wf Some
      by (auto simp: handleFile_def requestState_def upload_wf_def file_ok_def request_ok_def files_of_def)
  next
    case None
    then have "req \<notin> fst ` set (us_requests st)" by (simp add: map_of_eq_None_iff)
    moreover have "length (us_totals st) \<notin> snd ` set (us_requests st)" using wf by (auto simp: upload_wf_def request_ok_def)
    moreover have "files_of (length (us_totals st)) st = []"
      using wf by (auto simp: upload_wf_def files_of_def filter_empty_conv dest!: file_ok_state)
    ultimately show ?thesis using wf None
      by (auto simp: handleFile_def requestState_def upload_wf_def request_ok_def files_of_def nth_append intro: file_ok_grow)
         (simp add: file_ok_def)
  qed
qed

lemma upload_cleanup_wf: "upload_wf cap st \<Longrightarrow> upload_wf cap (cleanupRequest req st)"
proof -
  assume wf: "upload_wf cap st"
  show ?thesis
  proof (cases "map_of (us_requests st) req")
    case (Some i)
    then have mem: "(req, i) \<in> set (us_requests st)" by (rule map_of_SomeD)
    have d: "distinct (map fst (us_requests st))" "distinct (map snd (us_requests st))" using wf by (auto simp: upload_wf_def)
    have "length (filter (\<lambda>p. fst p = req) (us_requests st)) = 1"
      using length_filter_key [OF d(1) mem] by simp
    then have len: "length (filter (\<lambda>p. fst p \<noteq> req) (us_requests st)) = length (us_requests st) - 1"
      using sum_length_filter_compl [of "\<lambda>p. fst p = req" "us_requests st"] by simp
    let ?st' = "cleanupRequest req st"
    have st': "us_requests ?st' = filter (\<lambda>p. fst p \<noteq> req) (us_requests st)" "us_files ?st' = us_files st"
      "us_totals ?st' = (us_totals st)[i := 0]" "us_active ?st' = us_active st - 1"
      by (simp_all add: cleanupRequest_def Some)
    have "request_ok cap ?st' (snd p)" if "p \<in> set (us_requests ?st')" for p
    proof -
      have p: "p \<in> set (us_requests st)" "fst p \<noteq> req" using that by (simp_all add: st')
      have "inj_on snd (set (us_requests st))" using d(2) by (simp add: distinct_map)
      from inj_onD [OF this _ p(1) mem] p(2) have "snd p \<noteq> i" by (cases p) auto
      moreover have "request_ok cap st (snd p)" using wf p(1) unfolding upload_wf_def by blast
      ultimately show ?thesis by (simp add: request_ok_def files_of_def st')
    qed
    moreover have "file_ok cap ?st' f" if "f \<in> set (us_files ?st')" for f
    proof (rule file_ok_grow)
      show "file_ok cap st f" using wf that unfolding upload_wf_def st' by blast
    qed (simp add: st')
    moreover have "us_active ?st' = length (us_requests ?st')" using wf len unfolding upload_wf_def st' by simp
    ultimately show ?thesis using d unfolding upload_wf_def by (simp add: distinct_map_filter st')
  qed (simp add: cleanupRequest_def wf)
qed

lemma upload_step_wf: "upload_wf cap st \<Longrightarrow> upload_wf cap (fst (upload_step cap st e))"
  by (cases e) (auto simp: on_data_wf handleFile_wf upload_cleanup_wf on_limit_def on_error_def on_end_def intro!: on_file_answer_wf)

lemma upload_start_wf: "upload_wf cap empty_upload_storage"
  by (simp add: upload_wf_def empty_upload_storage_def)

interpretation upload_system: invariant_system "upload_step cap" "\<lambda>hist. upload_wf cap"
proof unfold_locales
  fix hist st e st' out
  assume "upload_wf cap st" "upload_step cap st e = (st', out)"
  then show "upload_wf cap st'" using upload_step_wf [of cap st e] by simp
qed

lemma cleanup_forgets: "map_of (us_requests (cleanupRequest req st)) req = None"
  by (auto simp: cleanupRequest_def map_of_eq_None_iff split: option.splits dest: weak_map_of_SomeI)

end
