(* ===== verification/SubmissionBoundary.thy ===== *)
theory SubmissionBoundary
  imports FaultHistory UploadStorage
begin

text \<open>
  The submission endpoint: the form fields of \<^verbatim>\<open>integrations/ausemio/voSubmissionBoundary.ts\<close> and
  the handler of \<^verbatim>\<open>routes/ausemioTest.routes.ts\<close>.  The multipart parser is outside: the handler gets
  either its error or the parsed body with the uploaded files.  \<^verbatim>\<open>JSON.parse\<close> and the reading of a
  number are arguments.
\<close>

section \<open>Form fields\<close>

definition AUSEMIO_SERVICE_VO :: jsstring where "AUSEMIO_SERVICE_VO = js ''2''"

definition FIELD_service :: string where "FIELD_service = ''properties[vyber_sluzby]''"

definition FIELD_locality :: string where "FIELD_locality = ''properties[ulica_miesto_poruchy_lokalita]''"

definition FIELD_detail :: string where "FIELD_detail = ''properties[detail_decription]''"

definition FIELD_block :: string where "FIELD_block = ''properties[lokalizacia_blok]''"

definition FIELD_fault :: string where "FIELD_fault = ''properties[typ_poruchy]''"

definition FIELD_other :: string where "FIELD_other = ''properties[iny_druh_poruchy]''"

definition FIELD_phone :: string where "FIELD_phone = ''properties[tel_cislo]''"

lemmas FIELD_defs = FIELD_service_def FIELD_locality_def FIELD_detail_def FIELD_block_def FIELD_fault_def FIELD_other_def FIELD_phone_def

definition ALLOWED_FIELDS :: "string list" where
  "ALLOWED_FIELDS = [FIELD_service, FIELD_locality, FIELD_detail, ''automaticAddress'', ''automaticAddressProof'', FIELD_block,
     FIELD_fault, FIELD_other, FIELD_phone, ''email'', ''locale'', ''reportTarget'', ''submissionAttemptId'']"

definition VERIFICATION_FIELDS :: "string list" where
  "VERIFICATION_FIELDS = [''emailVerificationIntentId'', ''emailVerificationToken'']"

text \<open>An assignment \<^verbatim>\<open>flat[k] = v\<close> replaces an own property in place.\<close>

fun put_field :: "jsstring \<Rightarrow> 'v \<Rightarrow> (jsstring \<times> 'v) list \<Rightarrow> (jsstring \<times> 'v) list" where
  "put_field k v [] = [(k, v)]"
| "put_field k v ((l, w) # r) = (if l = k then (l, v) # r else (l, w) # put_field k v r)"

definition flatten_entry :: "jsstring \<times> js_value \<Rightarrow> (jsstring \<times> js_value) list" where
  "flatten_entry e =
     (case e of
        (key, JObj ps) \<Rightarrow>
          if key = js ''properties'' then map (\<lambda>(k, v). (js ''properties['' @ k @ js '']'', v)) ps else [e]
      | _ \<Rightarrow> [e])"

definition flattenMultipartBody :: "js_value \<Rightarrow> (jsstring \<times> js_value) list" where
  "flattenMultipartBody b = fold (\<lambda>(k, v). put_field k v) (concat (map flatten_entry (props b))) []"

type_synonym form_fields = "(jsstring \<times> jsstring) list"

definition form_field :: "string \<Rightarrow> form_fields \<Rightarrow> jsstring option" where
  "form_field k fs = map_of fs (js k)"

fun string_fields :: "jsstring set \<Rightarrow> (jsstring \<times> js_value) list \<Rightarrow> form_fields option" where
  "string_fields allowed [] = Some []"
| "string_fields allowed ((k, v) # r) =
     (if k \<notin> allowed then None
      else
        (case (v, string_fields allowed r) of
           (JStr s, Some fs) \<Rightarrow> Some ((k, s) # fs)
         | _ \<Rightarrow> None))"

text \<open>\<open>None\<close> is the error \<^verbatim>\<open>LOCAL_TEST_INVALID_PAYLOAD\<close>.\<close>

definition validateFields :: "js_value \<Rightarrow> bool \<Rightarrow> form_fields option" where
  "validateFields b verificationEnabled =
     (case string_fields (js ` set (ALLOWED_FIELDS @ (if verificationEnabled then VERIFICATION_FIELDS else []))) (flattenMultipartBody b) of
        None \<Rightarrow> None
      | Some fs \<Rightarrow>
          (case form_field ''submissionAttemptId'' fs of
             Some x \<Rightarrow> if is_uuid_v4 x then Some fs else None
           | None \<Rightarrow> None))"

section \<open>The draft of a report\<close>

record attachment =
  at_name :: js_value
  at_size :: js_number
  at_type :: js_value

record report_draft =
  dr_locality :: jsstring
  dr_detail :: "jsstring option"
  dr_block :: "jsstring option"
  dr_fault :: "jsstring option"
  dr_other :: "jsstring option"
  dr_phone :: jsstring
  dr_email :: jsstring
  dr_locale :: jsstring
  dr_attachments :: "attachment list"

definition attachment_ok :: "attachment \<Rightarrow> bool" where
  "attachment_ok x \<longleftrightarrow> as_string (at_name x) \<noteq> None \<and>
     (case safe_integer (at_size x) of None \<Rightarrow> False | Some n \<Rightarrow> 0 \<le> n) \<and> as_string (at_type x) \<noteq> None"

definition AUSEMIO_SUBMIT_LOCALES :: "jsstring list" where
  "AUSEMIO_SUBMIT_LOCALES = [js ''sk'', js ''en'']"

definition given :: "jsstring option \<Rightarrow> jsstring option" where
  "given v = (if v = Some [] then None else v)"

definition mapLocalVoFieldsToDraft :: "jsstring list \<Rightarrow> form_fields \<Rightarrow> attachment list \<Rightarrow> string + report_draft" where
  "mapLocalVoFieldsToDraft localities fs attachments =
     (if form_field FIELD_service fs \<noteq> Some AUSEMIO_SERVICE_VO then
        Inl ''Only service 2 / VO is accepted by the local test endpoint.''
      else case given (form_field FIELD_locality fs) of None \<Rightarrow> Inl ''Select a locality from the approved VO locality list.''
      | Some locality \<Rightarrow>
      if locality \<notin> set localities then Inl ''Select a locality from the approved VO locality list.''
      else case form_field FIELD_phone fs of None \<Rightarrow> Inl ''A telephone contact is required.''
      | Some phone \<Rightarrow>
      if js_trim phone = [] then Inl ''A telephone contact is required.''
      else case given (form_field ''email'' fs) of None \<Rightarrow> Inl ''A valid local email value is required.''
      | Some email \<Rightarrow>
      if \<not> email_shape (js_trim email) then Inl ''A valid local email value is required.''
      else case form_field ''locale'' fs of None \<Rightarrow> Inl ''Select a supported form locale.''
      | Some loc \<Rightarrow>
      if loc \<notin> set AUSEMIO_SUBMIT_LOCALES then Inl ''Select a supported form locale.''
      else if \<not> code_accepted AUSEMIO_LOCATION_BLOCK_VALUES (form_field FIELD_block fs) then
        Inl ''Select a valid VO location block code.''
      else if \<not> code_accepted AUSEMIO_FAULT_TYPE_VALUES (form_field FIELD_fault fs) then
        Inl ''Select a valid VO fault type code.''
      else if form_field FIELD_other fs \<noteq> None \<and> form_field FIELD_fault fs \<noteq> Some AUSEMIO_FAULT_TYPE_OTHER then
        Inl ''Other-fault text is only valid for Q99.''
      else if \<not> list_all attachment_ok attachments then Inl ''Attachment metadata is invalid.''
      else Inr \<lparr>dr_locality = locality, dr_detail = given (form_field FIELD_detail fs),
        dr_block = given (form_field FIELD_block fs), dr_fault = given (form_field FIELD_fault fs),
        dr_other = given (form_field FIELD_other fs), dr_phone = phone, dr_email = js_trim email,
        dr_locale = loc, dr_attachments = attachments\<rparr>)"

text \<open>The observation of a transport; a thrown error carries its kind when it is a transport error.\<close>

datatype transport_outcome = Returned | ThrownTransport string | ThrownOther

definition observeVoSubmissionAttempt :: "(report_draft \<Rightarrow> transport_outcome) \<Rightarrow> report_draft \<Rightarrow> string" where
  "observeVoSubmissionAttempt transport draft =
     (case transport draft of Returned \<Rightarrow> ''returned'' | ThrownTransport k \<Rightarrow> k | ThrownOther \<Rightarrow> ''ambiguous'')"

section \<open>Enabling the endpoint\<close>

type_synonym process_env = "string \<Rightarrow> jsstring option"

definition isLocalTestSubmitEnabled :: "process_env \<Rightarrow> bool" where
  "isLocalTestSubmitEnabled env \<longleftrightarrow>
     (env ''NODE_ENV'' = Some (js ''development'') \<or> env ''NODE_ENV'' = Some (js ''test'')) \<and>
     env ''LOCAL_TEST_SUBMIT_ENABLED'' = Some (js ''true'')"

definition isProductionLocalPersistenceEnabled :: "process_env \<Rightarrow> bool" where
  "isProductionLocalPersistenceEnabled env \<longleftrightarrow>
     env ''NODE_ENV'' = Some (js ''production'') \<and> env ''REPORT_SUBMISSION_MODE'' = Some (js ''local-persistence'')"

definition parse_limit :: "(jsstring \<Rightarrow> js_number) \<Rightarrow> process_env \<Rightarrow> string \<Rightarrow> nat \<Rightarrow> nat option" where
  "parse_limit number env key fallback =
     (case env key of
        None \<Rightarrow> Some fallback
      | Some raw \<Rightarrow>
          if raw = [] then Some fallback
          else
            (case safe_integer (number raw) of
               None \<Rightarrow> None
             | Some n \<Rightarrow> if n \<le> 0 then None else Some (nat n)))"

definition resolveUploadLimits :: "(jsstring \<Rightarrow> js_number) \<Rightarrow> process_env \<Rightarrow> upload_limits option" where
  "resolveUploadLimits number env =
     (case (parse_limit number env ''LOCAL_TEST_MAX_FILE_BYTES'' (maxFileBytes DEFAULT_LOCAL_TEST_UPLOAD_LIMITS),
            parse_limit number env ''LOCAL_TEST_MAX_FILES'' (maxFiles DEFAULT_LOCAL_TEST_UPLOAD_LIMITS),
            parse_limit number env ''LOCAL_TEST_MAX_TOTAL_UPLOAD_BYTES'' (maxTotalUploadBytes DEFAULT_LOCAL_TEST_UPLOAD_LIMITS)) of
        (Some b, Some n, Some u) \<Rightarrow> Some \<lparr>maxFileBytes = b, maxFiles = n, maxTotalUploadBytes = u\<rparr>
      | _ \<Rightarrow> None)"

datatype mounting = NotMounted | MountFailed | Mounted bool upload_limits

text \<open>The flag of \<open>Mounted\<close> says that the endpoint is the production one.\<close>

definition mountLocalTestSubmitRoutes :: "(jsstring \<Rightarrow> js_number) \<Rightarrow> process_env \<Rightarrow> bool \<Rightarrow> mounting" where
  "mountLocalTestSubmitRoutes number env verification =
     (let production = isProductionLocalPersistenceEnabled env in
      if \<not> isLocalTestSubmitEnabled env \<and> \<not> production then NotMounted
      else if production \<and> \<not> verification then MountFailed
      else
        (case resolveUploadLimits number env of
           None \<Rightarrow> MountFailed
         | Some cap \<Rightarrow> Mounted production cap))"

section \<open>The handler\<close>

datatype upload_error = UploadLimitError | MulterError string jsstring | UploadParseError

record 'db submit_settings =
  ss_production :: bool
  ss_env :: submission_env
  ss_parse :: "jsstring \<Rightarrow> js_value option"
  ss_verification :: "('db email_store \<times> email_crypto) option"
  ss_history :: bool

record submit_request =
  sr_id :: nat
  sr_upload :: "upload_error + js_value \<times> attachment list"

definition submit_error :: "nat \<Rightarrow> string \<Rightarrow> string \<Rightarrow> http_response" where
  "submit_error st code message =
     \<lparr>status = st, no_store = True, retry_header = None,
      body = JObj [(js ''success'', JBool False),
                   (js ''error'', JObj [(js ''code'', JStr (js code)), (js ''message'', JStr (js message))])]\<rparr>"

definition upload_refused :: "upload_error \<Rightarrow> http_response" where
  "upload_refused e =
     (let over = (case e of
          UploadLimitError \<Rightarrow> True
        | MulterError code fld \<Rightarrow>
            code = ''LIMIT_FILE_SIZE'' \<or> code = ''LIMIT_FILE_COUNT'' \<or> code = ''LIMIT_FIELD_VALUE'' \<or>
            (code = ''LIMIT_UNEXPECTED_FILE'' \<and> fld = js ''files[]'')
        | UploadParseError \<Rightarrow> False) in
      if over then submit_error 413 ''LOCAL_TEST_RESOURCE_LIMIT'' ''A local test upload resource limit was exceeded.''
      else submit_error 400 ''LOCAL_TEST_INVALID_MULTIPART'' ''The local test request is not valid multipart/form-data.'')"

text \<open>
  The consumption of the e-mail verification inside the transaction; its statement has number 11.  It
  runs only for an address, identifier and token of the right shape.
\<close>

definition reaches_store :: "email_crypto \<Rightarrow> jsstring \<Rightarrow> jsstring \<Rightarrow> jsstring \<Rightarrow> bool" where
  "reaches_store c email iid token \<longleftrightarrow> isValidVerificationEmail (c_lower c) email \<and> is_uuid_v4 iid \<and> token_shape token"

definition submission_authorization :: "history_ambient \<Rightarrow> ('db email_store \<times> email_crypto) option \<Rightarrow> form_fields \<Rightarrow>
    'db authorization option" where
  "submission_authorization a verification fs =
     map_option (\<lambda>(st, c) e.
       (case (form_field ''email'' fs, given (form_field ''emailVerificationIntentId'' fs),
              given (form_field ''emailVerificationToken'' fs)) of
          (Some email, Some iid, Some token) \<Rightarrow>
            if reaches_store c email iid token \<and> ha_fails a 11 then None
            else Some (consumeSubmissionVerification st c (ha_clock a 11) email iid token e)
        | _ \<Rightarrow> Some (e, False))) verification"

definition submission_of :: "form_fields \<Rightarrow> report_draft \<Rightarrow> js_value \<Rightarrow> submission_input" where
  "submission_of fs draft target =
     \<lparr>si_attempt = form_field ''submissionAttemptId'' fs, si_locality = dr_locality draft, si_detail = dr_detail draft,
      si_address = (case form_field ''automaticAddress'' fs of None \<Rightarrow> JUndefined | Some s \<Rightarrow> JStr s),
      si_proof = (case form_field ''automaticAddressProof'' fs of None \<Rightarrow> JUndefined | Some s \<Rightarrow> JStr s),
      si_block = dr_block draft, si_fault = dr_fault draft, si_target = target\<rparr>"

definition submission_success :: "bool \<Rightarrow> report_draft \<Rightarrow> form_fields \<Rightarrow> history_result \<Rightarrow> http_response" where
  "submission_success production draft fs r =
     \<lparr>status = 200, no_store = True, retry_header = None,
      body = JObj [(js ''success'', JBool True),
        (js ''status'', JStr (if production then js ''locally_recorded'' else js ''local_test_received'')),
        (js ''duplicate'', JBool (hr_duplicate r)),
        (js ''filesReceived'', jnat (int (length (dr_attachments draft)))),
        (js ''receiptId'', (case hr_receipt r of Some x \<Rightarrow> JStr x
           | None \<Rightarrow> (case form_field ''submissionAttemptId'' fs of Some x \<Rightarrow> JStr x | None \<Rightarrow> JUndefined)))]\<rparr>"

definition SUBMISSION_UNAVAILABLE :: http_response where
  "SUBMISSION_UNAVAILABLE = submit_error 503 ''LOCAL_TEST_SUBMISSION_UNAVAILABLE'' ''The local test endpoint is unavailable.''"

definition submission_answer :: "bool \<Rightarrow> report_draft \<Rightarrow> form_fields \<Rightarrow> submission_error + history_result \<Rightarrow> http_response" where
  "submission_answer production draft fs out =
     (case out of
        Inr r \<Rightarrow>
          if hr_authorized r then submission_success production draft fs r
          else submit_error 403 ''EMAIL_VERIFICATION_REQUIRED'' ''Verify the submitted email address before submitting this report.''
      | Inl (HistoryInputError e) \<Rightarrow>
          submit_error 400 ''LOCAL_TEST_INVALID_REPORT_LOCATION'' ''The report location or category is invalid.''
      | Inl (TargetRefused st code) \<Rightarrow>
          submit_error st ''LOCAL_TEST_INVALID_REPORT_LOCATION'' ''The report location or category is invalid.''
      | Inl HistoryFailed \<Rightarrow> SUBMISSION_UNAVAILABLE)"

definition invalid_payload :: "string \<Rightarrow> http_response" where
  "invalid_payload message = submit_error 400 ''LOCAL_TEST_INVALID_PAYLOAD'' message"

definition media_type :: "js_value \<Rightarrow> js_value" where
  "media_type v = (if falsy v then JStr (js ''application/octet-stream'') else v)"

text \<open>What the handler passes on when every check before the store succeeds.\<close>

definition prepare_submission :: "'db submit_settings \<Rightarrow> submit_request \<Rightarrow>
    http_response + form_fields \<times> report_draft \<times> submission_input" where
  "prepare_submission s req =
     (case sr_upload req of
        Inl e \<Rightarrow> Inl (upload_refused e)
      | Inr (b, files) \<Rightarrow>
          (case validateFields b (ss_verification s \<noteq> None) of
             None \<Rightarrow> Inl (invalid_payload ''The local VO payload is invalid.'')
           | Some fs \<Rightarrow>
               (case mapLocalVoFieldsToDraft (se_localities (ss_env s)) fs (map (\<lambda>f. f\<lparr>at_type := media_type (at_type f)\<rparr>) files) of
                  Inl message \<Rightarrow> Inl (invalid_payload message)
                | Inr draft \<Rightarrow>
                    (case ss_parse s (case form_field ''reportTarget'' fs of None \<Rightarrow> js ''null'' | Some t \<Rightarrow> t) of
                       None \<Rightarrow> Inl (invalid_payload ''The report location is invalid.'')
                     | Some target \<Rightarrow>
                         if \<not> ss_history s then Inl SUBMISSION_UNAVAILABLE
                         else Inr (fs, draft, submission_of fs draft target)))))"

definition local_submit :: "'db submit_settings \<Rightarrow> history_ambient \<Rightarrow> submit_request \<Rightarrow> 'db submission_db \<Rightarrow>
    'db submission_db \<times> http_response" where
  "local_submit s a req db =
     (case prepare_submission s req of
        Inl answer \<Rightarrow> (db, answer)
      | Inr (fs, draft, inp) \<Rightarrow>
          map_prod id (submission_answer (ss_production s) draft fs)
            (recordSubmission (ss_env s) a inp (submission_authorization a (ss_verification s) fs) db))"

text \<open>The exchange with the storage: on every path the request is cleaned up.\<close>

definition submit_exchange :: "'db submit_settings \<Rightarrow> history_ambient \<Rightarrow> submit_request \<Rightarrow> upload_storage \<times> 'db submission_db \<Rightarrow>
    (upload_storage \<times> 'db submission_db) \<times> http_response" where
  "submit_exchange s a req st =
     (case local_submit s a req (snd st) of
        (db, answer) \<Rightarrow> ((cleanupRequest (sr_id req) (fst st), db), answer))"

end
