(* ===== verification/FaultHistorySafety.thy ===== *)
theory FaultHistorySafety
  imports FaultHistory
begin

text \<open>
  What one submission does to the tables.  \<open>report_stored\<close> says that the transaction reached its
  \<^verbatim>\<open>COMMIT\<close> with a new row, and under which conditions; \<open>after_report\<close> is the state it then
  commits.  Every outcome of \<open>recordSubmission\<close> is one of four cases (\<open>submission_cases\<close>).
\<close>

section \<open>The cases of a submission\<close>

definition authorized_by :: "'db authorization option \<Rightarrow> 'db \<Rightarrow> 'db \<Rightarrow> bool" where
  "authorized_by auth e e' \<longleftrightarrow> (case auth of None \<Rightarrow> e' = e | Some f \<Rightarrow> f e = Some (e', True))"

definition settled_receipts :: "history_ambient \<Rightarrow> jsstring option \<Rightarrow> int \<Rightarrow> receipt list \<Rightarrow> receipt list" where
  "settled_receipts a attempt i rs =
     (case attempt of
        None \<Rightarrow> rs
      | Some x \<Rightarrow> filter (\<lambda>r. \<not> (rc_attempt r = x \<and> rc_expires r \<le> ha_clock a 3)) rs @ [new_receipt (ha_clock a 8) x i])"

definition after_report :: "history_ambient \<Rightarrow> jsstring option \<Rightarrow> history_row \<Rightarrow> 'db \<Rightarrow> 'db submission_db \<Rightarrow> 'db submission_db" where
  "after_report a attempt row e db =
     db\<lparr>sb_history := sb_history db @ [row], sb_next := h_id row + 1,
        sb_receipts := settled_receipts a attempt (h_id row) (sb_receipts db), sb_email := e\<rparr>"

inductive report_stored :: "submission_env \<Rightarrow> history_ambient \<Rightarrow> submission_input \<Rightarrow> 'db authorization option \<Rightarrow>
    'db submission_db \<Rightarrow> final_target \<Rightarrow> history_row \<Rightarrow> 'db \<Rightarrow> bool"
  for env a inp auth db where
  "report_stored env a inp auth db target row e"
    if "validateSubmission env inp = None" and "parseTarget (si_target inp) = Some ti" and "\<not> address_misplaced inp ti"
      and "\<And>x. attempt_of inp = Some x \<Longrightarrow> existing_report (ha_clock a 2) x db = None"
      and "resolve_target env a (sb_lights db) ti = Inr target" and "check_address_proof env inp target = Inr ()"
      and "authorized_by auth (sb_email db) e"
      and "target_summary a (ha_clock a 5) target (sb_history db) = Inr summary" and "note_target ti target = Inr nt"
      and "row = history_row_of (sb_next db + int (ha_skipped a)) (ha_clock a 5) inp target
        (buildAutomaticFaultNotes env summary (ha_clock a 5 div 1000) nt)"
      and "history_row_ok row" and "h_id row \<notin> h_id ` set (sb_history db)"
      and "\<And>x r. attempt_of inp = Some x \<Longrightarrow>
        r \<in> set (filter (\<lambda>r. \<not> (rc_attempt r = x \<and> rc_expires r \<le> ha_clock a 3)) (sb_receipts db)) \<Longrightarrow>
        rc_attempt r \<noteq> x \<and> rc_history r \<noteq> h_id row"

inductive_cases report_storedE: "report_stored env a inp auth db target row e"

lemma authorize_step_Inr:
  "authorize_step auth db = Inr (db1, ok) \<longleftrightarrow>
     (\<exists>e. db1 = db\<lparr>sb_email := e\<rparr> \<and>
        (case auth of None \<Rightarrow> e = sb_email db \<and> ok | Some f \<Rightarrow> f (sb_email db) = Some (e, ok)))"
  by (auto simp: authorize_step_def split: option.splits)

lemma history_by_id_None: "history_by_id i hs = None \<longleftrightarrow> i \<notin> h_id ` set hs"
  by (auto simp: history_by_id_def find_None_iff)

text \<open>The second half of the transaction, on the state after the authorization.\<close>

lemma store_report_Inr:
  assumes "store_report env a inp ti attempt target db = Inr (r, db')"
  obtains summary nt row where "target_summary a (ha_clock a 5) target (sb_history db) = Inr summary"
    "note_target ti target = Inr nt"
    "row = history_row_of (sb_next db + int (ha_skipped a)) (ha_clock a 5) inp target
        (buildAutomaticFaultNotes env summary (ha_clock a 5 div 1000) nt)"
    "history_row_ok row" "h_id row \<notin> h_id ` set (sb_history db)"
    "r = recorded attempt row (operator_report inp target (h_notes row))"
    "insert_receipt a attempt (h_id row) (db\<lparr>sb_history := sb_history db @ [row], sb_next := h_id row + 1\<rparr>) = Inr db'"
proof -
  from assms obtain summary nt where s: "target_summary a (ha_clock a 5) target (sb_history db) = Inr summary"
    "note_target ti target = Inr nt"
    by (auto simp: store_report_def)
  let ?notes = "buildAutomaticFaultNotes env summary (ha_clock a 5 div 1000) nt"
  let ?row = "history_row_of (sb_next db + int (ha_skipped a)) (ha_clock a 5) inp target ?notes"
  from assms s have i: "history_row_ok ?row" "h_id ?row \<notin> h_id ` set (sb_history db)"
    "r = recorded attempt ?row (operator_report inp target ?notes)"
    "insert_receipt a attempt (h_id ?row) (db\<lparr>sb_history := sb_history db @ [?row], sb_next := h_id ?row + 1\<rparr>) = Inr db'"
    by (auto simp: store_report_def Let_def insert_history_def list_ex_iff image_iff split: if_splits)
  have "h_notes ?row = ?notes" by (simp add: history_row_of_def)
  then show thesis using that [OF s refl i(1,2) _ i(4)] i(3) by simp
qed

lemma insert_receipt_Inr:
  assumes "insert_receipt a attempt i db = Inr db'"
  shows "db' = (case attempt of None \<Rightarrow> db | Some x \<Rightarrow> db\<lparr>sb_receipts := sb_receipts db @ [new_receipt (ha_clock a 8) x i]\<rparr>)"
    and "attempt = Some x \<Longrightarrow> r \<in> set (sb_receipts db) \<Longrightarrow> rc_attempt r \<noteq> x \<and> rc_history r \<noteq> i"
  using assms by (auto simp: insert_receipt_def list_ex_iff split: option.splits if_splits)

text \<open>The whole transaction.\<close>

definition receipts_seen :: "history_ambient \<Rightarrow> submission_input \<Rightarrow> 'db submission_db \<Rightarrow> 'db submission_db" where
  "receipts_seen a inp db =
     (case attempt_of inp of None \<Rightarrow> db | Some x \<Rightarrow> delete_expired_attempt (ha_clock a 3) x db)"

lemma receipts_seen_fields [simp]:
  "sb_history (receipts_seen a inp db) = sb_history db" "sb_next (receipts_seen a inp db) = sb_next db"
  "sb_lights (receipts_seen a inp db) = sb_lights db" "sb_email (receipts_seen a inp db) = sb_email db"
  by (auto simp: receipts_seen_def delete_expired_attempt_def split: option.splits)

lemma transaction_Inr:
  assumes "submission_transaction env a inp ti auth db = Inr (r, db')"
  shows "(\<exists>x h. attempt_of inp = Some x \<and> existing_report (ha_clock a 2) x db = Some h \<and> r = duplicate_of x h \<and> db' = db) \<or>
    (\<forall>x. attempt_of inp = Some x \<longrightarrow> existing_report (ha_clock a 2) x db = None) \<and>
    fresh_submission env a inp ti (attempt_of inp) auth (receipts_seen a inp db) = Inr (r, db')"
  using assms by (auto simp: submission_transaction_def receipts_seen_def split: option.splits)

lemma fresh_Inr:
  assumes "fresh_submission env a inp ti attempt auth db = Inr (r, db')"
  shows "(\<exists>f e. auth = Some f \<and> f (sb_email db) = Some (e, False) \<and> r = unauthorized) \<or>
    (\<exists>target e. resolve_target env a (sb_lights db) ti = Inr target \<and> check_address_proof env inp target = Inr () \<and>
       authorized_by auth (sb_email db) e \<and> store_report env a inp ti attempt target (db\<lparr>sb_email := e\<rparr>) = Inr (r, db'))"
  using assms
  by (auto simp: fresh_submission_def authorize_step_Inr authorized_by_def split: option.splits if_splits prod.splits)

theorem submission_cases:
  assumes "recordSubmission env a inp auth db = (db', out)"
  obtains (refused) e where "db' = db" "out = Inl e"
  | (duplicate) x h where "db' = db" "attempt_of inp = Some x" "existing_report (ha_clock a 2) x db = Some h"
      "out = Inr (duplicate_of x h)"
  | (unauthorized) f e where "db' = db" "auth = Some f" "f (sb_email db) = Some (e, False)" "out = Inr unauthorized"
  | (stored) target row e where "report_stored env a inp auth db target row e"
      "db' = after_report a (attempt_of inp) row e db"
      "out = Inl HistoryFailed \<or> out = Inr (recorded (attempt_of inp) row (operator_report inp target (h_notes row)))"
proof -
  show thesis
  proof (cases "validateSubmission env inp")
    case (Some e)
    then show ?thesis using assms refused by (auto simp: recordSubmission_def)
  next
    case v: None
    show ?thesis
    proof (cases "parseTarget (si_target inp)")
      case None
      then show ?thesis using assms v refused by (auto simp: recordSubmission_def)
    next
      case p: (Some ti)
      let ?tx = "submission_transaction env a inp ti auth db"
      show ?thesis
      proof (cases "address_misplaced inp ti \<or> (\<exists>e. ?tx = Inl e)")
        case True
        then show ?thesis using assms v p refused by (auto simp: recordSubmission_def end_transaction_def split: if_splits)
      next
        case False
        then obtain r d where t: "?tx = Inr (r, d)" and m: "\<not> address_misplaced inp ti" by (cases ?tx) auto
        then have end_: "end_transaction a db (Inr (r, d)) = (db', out)" using assms v p by (simp add: recordSubmission_def)
        consider (dup) x h where "attempt_of inp = Some x" "existing_report (ha_clock a 2) x db = Some h" "r = duplicate_of x h" "d = db"
          | (fresh) "\<And>x. attempt_of inp = Some x \<Longrightarrow> existing_report (ha_clock a 2) x db = None"
            "fresh_submission env a inp ti (attempt_of inp) auth (receipts_seen a inp db) = Inr (r, d)"
          using transaction_Inr [OF t] by blast
        then show ?thesis
        proof cases
          case dup
          then show ?thesis using end_ duplicate refused
            by (auto simp: end_transaction_def duplicate_of_def split: if_splits)
        next
          case fresh
          from fresh_Inr [OF fresh(2)] show ?thesis
          proof (elim disjE exE conjE)
            fix f e
            assume "auth = Some f" "f (sb_email (receipts_seen a inp db)) = Some (e, False)" "r = FaultHistory.unauthorized"
            then show ?thesis using end_ unauthorized refused
              by (auto simp: end_transaction_def FaultHistory.unauthorized_def statement_def split: if_splits)
          next
            fix target e
            assume rs: "resolve_target env a (sb_lights (receipts_seen a inp db)) ti = Inr target"
              "check_address_proof env inp target = Inr ()" "authorized_by auth (sb_email (receipts_seen a inp db)) e"
              "store_report env a inp ti (attempt_of inp) target ((receipts_seen a inp db)\<lparr>sb_email := e\<rparr>) = Inr (r, d)"
            from store_report_Inr [OF rs(4)] obtain summary nt row where
              s: "target_summary a (ha_clock a 5) target (sb_history db) = Inr summary" "note_target ti target = Inr nt"
                "row = history_row_of (sb_next db + int (ha_skipped a)) (ha_clock a 5) inp target
                  (buildAutomaticFaultNotes env summary (ha_clock a 5 div 1000) nt)"
                "history_row_ok row" "h_id row \<notin> h_id ` set (sb_history db)"
                "r = recorded (attempt_of inp) row (operator_report inp target (h_notes row))"
              and ir: "insert_receipt a (attempt_of inp) (h_id row) ((receipts_seen a inp db)\<lparr>sb_email := e,
                sb_history := sb_history db @ [row], sb_next := h_id row + 1\<rparr>) = Inr d"
              by simp blast
            have d: "d = after_report a (attempt_of inp) row e db"
              using insert_receipt_Inr(1) [OF ir]
              by (auto simp: after_report_def settled_receipts_def receipts_seen_def delete_expired_attempt_def split: option.splits)
            have "rc_attempt q \<noteq> x \<and> rc_history q \<noteq> h_id row" if "attempt_of inp = Some x"
              "q \<in> set (filter (\<lambda>r. \<not> (rc_attempt r = x \<and> rc_expires r \<le> ha_clock a 3)) (sb_receipts db))" for x q
              using insert_receipt_Inr(2) [OF ir that(1), of q] that
              by (simp add: receipts_seen_def delete_expired_attempt_def)
            with s rs fresh(1) v p m have st: "report_stored env a inp auth db target row e"
              by (intro report_stored.intros) auto
            show ?thesis using end_ s(6) d stored [OF st] refused
              by (auto simp: end_transaction_def recorded_def split: if_splits)
          qed
        qed
      qed
    qed
  qed
qed

text \<open>Without failures every submission that meets the conditions is recorded.\<close>

lemma stored_committed:
  assumes "report_stored env a inp auth db target row e" and nf: "\<And>i. \<not> ha_fails a i"
  shows "recordSubmission env a inp auth db =
    (after_report a (attempt_of inp) row e db, Inr (recorded (attempt_of inp) row (operator_report inp target (h_notes row))))"
  using assms(1)
proof cases
  case (1 ti summary nt)
  have st: "statement a i x = Inr x" for i and x :: "'x" by (simp add: statement_def nf)
  let ?d = "(receipts_seen a inp db)\<lparr>sb_email := e\<rparr>"
  have texts: "h_notes row = buildAutomaticFaultNotes env summary (ha_clock a 5 div 1000) nt" by (simp add: 1 history_row_of_def)
  have ih: "insert_history a row ?d = Inr (?d\<lparr>sb_history := sb_history db @ [row], sb_next := h_id row + 1\<rparr>)"
  proof -
    have "\<forall>h \<in> set (sb_history db). h_id h \<noteq> h_id row" using 1(12) by (metis imageI)
    then show ?thesis using 1(11) by (auto simp: insert_history_def nf list_ex_iff)
  qed
  have ir: "insert_receipt a (attempt_of inp) (h_id row) (?d\<lparr>sb_history := sb_history db @ [row], sb_next := h_id row + 1\<rparr>) =
      Inr (after_report a (attempt_of inp) row e db)"
  proof (cases "attempt_of inp")
    case None
    then show ?thesis by (simp add: insert_receipt_def after_report_def settled_receipts_def receipts_seen_def)
  next
    case (Some x)
    then have "\<not> list_ex (\<lambda>r. rc_attempt r = x \<or> rc_history r = h_id row) (sb_receipts ?d)"
      using 1(13) by (auto simp: receipts_seen_def delete_expired_attempt_def list_ex_iff)
    moreover have "history_by_id (h_id row) (sb_history db @ [row]) \<noteq> None" by (simp add: history_by_id_None)
    ultimately show ?thesis using Some
      by (simp add: insert_receipt_def nf after_report_def settled_receipts_def receipts_seen_def delete_expired_attempt_def)
  qed
  have "store_report env a inp ti (attempt_of inp) target ?d =
      Inr (recorded (attempt_of inp) row (operator_report inp target (h_notes row)), after_report a (attempt_of inp) row e db)"
    using 1(8,9,10) ih ir texts by (simp add: store_report_def st Let_def)
  moreover have "authorize_step auth (receipts_seen a inp db) = Inr (?d, True)"
    using 1(7) by (auto simp: authorize_step_def authorized_by_def split: option.splits)
  ultimately have "fresh_submission env a inp ti (attempt_of inp) auth (receipts_seen a inp db) =
      Inr (recorded (attempt_of inp) row (operator_report inp target (h_notes row)), after_report a (attempt_of inp) row e db)"
    using 1(5,6) by (simp add: fresh_submission_def)
  then have "submission_transaction env a inp ti auth db =
      Inr (recorded (attempt_of inp) row (operator_report inp target (h_notes row)), after_report a (attempt_of inp) row e db)"
    using 1(4) by (auto simp: submission_transaction_def st receipts_seen_def split: option.splits)
  then show ?thesis using 1(1,2,3) by (simp add: recordSubmission_def end_transaction_def recorded_def nf)
qed

section \<open>The tables\<close>

definition history_wf :: "'db submission_db \<Rightarrow> bool" where
  "history_wf db \<longleftrightarrow>
     distinct (map h_id (sb_history db)) \<and> (\<forall>h \<in> set (sb_history db). h_id h < sb_next db \<and> history_row_ok h) \<and>
     distinct (map rc_attempt (sb_receipts db)) \<and> distinct (map rc_history (sb_receipts db)) \<and>
     (\<forall>r \<in> set (sb_receipts db). rc_history r \<in> h_id ` set (sb_history db) \<and> rc_expires r = receipt_end (rc_created r))"

lemma stored_id: "report_stored env a inp auth db target row e \<Longrightarrow> h_id row = sb_next db + int (ha_skipped a)"
  by (auto elim!: report_storedE simp: history_row_of_def)

lemma after_report_wf:
  assumes wf: "history_wf db" and st: "report_stored env a inp auth db target row e"
  shows "history_wf (after_report a (attempt_of inp) row e db)"
proof -
  let ?keep = "\<lambda>x. filter (\<lambda>r. \<not> (rc_attempt r = x \<and> rc_expires r \<le> ha_clock a 3)) (sb_receipts db)"
  from st have row: "history_row_ok row" "h_id row \<notin> h_id ` set (sb_history db)"
    and uniq: "\<And>x r. attempt_of inp = Some x \<Longrightarrow> r \<in> set (?keep x) \<Longrightarrow> rc_attempt r \<noteq> x \<and> rc_history r \<noteq> h_id row"
    by (auto elim!: report_storedE)
  have hist: "distinct (map h_id (sb_history db @ [row]))"
    "\<forall>h \<in> set (sb_history db @ [row]). h_id h < h_id row + 1 \<and> history_row_ok h"
    using wf row stored_id [OF st] by (fastforce simp: history_wf_def)+
  have rcs: "distinct (map rc_attempt (settled_receipts a (attempt_of inp) (h_id row) (sb_receipts db)))"
    "distinct (map rc_history (settled_receipts a (attempt_of inp) (h_id row) (sb_receipts db)))"
    "\<forall>r \<in> set (settled_receipts a (attempt_of inp) (h_id row) (sb_receipts db)).
       rc_history r \<in> h_id ` set (sb_history db @ [row]) \<and> rc_expires r = receipt_end (rc_created r)"
    using wf uniq
    by (fastforce simp: history_wf_def settled_receipts_def new_receipt_def distinct_map_filter split: option.splits)+
  show ?thesis using hist rcs unfolding history_wf_def after_report_def by simp
qed

lemma submission_keeps_wf:
  assumes "recordSubmission env a inp auth db = (db', out)" and "history_wf db"
  shows "history_wf db'"
proof (rule submission_cases [OF assms(1)])
  fix target row e
  assume "report_stored env a inp auth db target row e" "db' = after_report a (attempt_of inp) row e db"
  then show ?thesis using after_report_wf [OF assms(2)] by simp
qed (use assms(2) in auto)

lemma cleanup_keeps_wf:
  assumes "cleanupExpiredSubmissionAttempts t limit db = Some (db', n)" and "history_wf db"
  shows "history_wf db'"
proof -
  obtain rows where db': "db' = db\<lparr>sb_receipts := rows\<rparr>" and rows: "rows = fst (delete_first (nat limit)
      (\<lambda>r. rc_expires r \<le> t) (\<lambda>r. (rc_expires r, rc_attempt r)) (sb_receipts db))"
    using assms(1) by (auto simp: cleanupExpiredSubmissionAttempts_def split: if_splits prod.splits)
  have "set rows \<subseteq> set (sb_receipts db)" unfolding rows by (rule delete_first_subset)
  moreover have "distinct (map rc_attempt rows)" "distinct (map rc_history rows)"
    unfolding rows using assms(2) by (auto simp: history_wf_def intro: delete_first_distinct)
  ultimately show ?thesis using assms(2) unfolding db' by (auto simp: history_wf_def)
qed

section \<open>Receipts\<close>

text \<open>A receipt of attempt \<open>x\<close> for row \<open>h\<close> that ends at \<open>e\<close>.\<close>

definition receipted :: "jsstring \<Rightarrow> history_row \<Rightarrow> int \<Rightarrow> 'db submission_db \<Rightarrow> bool" where
  "receipted x h e db \<longleftrightarrow>
     h \<in> set (sb_history db) \<and>
     (\<exists>r \<in> set (sb_receipts db). rc_attempt r = x \<and> rc_history r = h_id h \<and> rc_expires r = e)"

lemma stored_receipted:
  assumes "report_stored env a inp auth db target row e" and "attempt_of inp = Some x"
  shows "receipted x row (receipt_end (ha_clock a 8)) (after_report a (attempt_of inp) row e db)"
  using assms by (auto simp: receipted_def after_report_def settled_receipts_def new_receipt_def)

lemma submission_keeps_receipt:
  assumes "recordSubmission env a inp auth db = (db', out)" and "receipted x h e db" and "ha_clock a 3 < e"
  shows "receipted x h e db'"
  by (rule submission_cases [OF assms(1)])
     (use assms(2,3) in \<open>auto simp: receipted_def after_report_def settled_receipts_def split: option.splits\<close>)

lemma cleanup_keeps_receipt:
  assumes "cleanupExpiredSubmissionAttempts t limit db = Some (db', n)" and "receipted x h e db" and "t < e"
  shows "receipted x h e db'"
proof -
  obtain rows where db': "db' = db\<lparr>sb_receipts := rows\<rparr>" and rows: "rows = fst (delete_first (nat limit)
      (\<lambda>r. rc_expires r \<le> t) (\<lambda>r. (rc_expires r, rc_attempt r)) (sb_receipts db))"
    using assms(1) by (auto simp: cleanupExpiredSubmissionAttempts_def split: if_splits prod.splits)
  have "r \<in> set rows" if "r \<in> set (sb_receipts db)" "rc_expires r = e" for r
    unfolding rows by (rule delete_first_keeps) (use that assms(3) in auto)
  then show ?thesis using assms(2) unfolding db' receipted_def by auto
qed

lemma find_unique:
  assumes "distinct (map f xs)" and "x \<in> set xs" and "P x" and "\<And>y. P y \<Longrightarrow> f y = f x"
  shows "find P xs = Some x"
  using assms
proof (induction xs)
  case (Cons y xs)
  show ?case
  proof (cases "P y")
    case True
    then have "f y = f x" by (rule Cons.prems(4))
    then have "f x \<notin> f ` set xs" using Cons.prems(1) by simp
    then have "y = x" using Cons.prems(2) by auto
    then show ?thesis using True by simp
  next
    case False
    then have "find P xs = Some x"
      by (intro Cons.IH) (use Cons.prems(1-3) in auto, rule Cons.prems(4))
    then show ?thesis using False by simp
  qed
qed simp

lemma receipted_found:
  assumes "history_wf db" and "receipted x h e db" and "t < e"
  shows "existing_report t x db = Some h"
proof -
  from assms(2) obtain r where r: "r \<in> set (sb_receipts db)" "rc_attempt r = x" "rc_history r = h_id h" "rc_expires r = e"
    and h: "h \<in> set (sb_history db)" by (auto simp: receipted_def)
  have "find (live_receipt t x) (sb_receipts db) = Some r"
    by (rule find_unique [of rc_attempt]) (use assms(1,3) r in \<open>auto simp: history_wf_def live_receipt_def\<close>)
  moreover have "history_by_id (h_id h) (sb_history db) = Some h" unfolding history_by_id_def
    by (rule find_unique [of h_id]) (use assms(1) h in \<open>auto simp: history_wf_def\<close>)
  ultimately show ?thesis using r(3) by (simp add: existing_report_def)
qed

text \<open>A further submission of an attempt that has a live receipt.\<close>

lemma submission_again:
  assumes "recordSubmission env a inp auth db = (db', out)" and "history_wf db" and "receipted x h e db"
    and "attempt_of inp = Some x" and "ha_clock a 2 < e"
  shows "db' = db \<and> ((\<exists>err. out = Inl err) \<or> out = Inr (duplicate_of x h))"
proof (rule submission_cases [OF assms(1)])
  fix target row e'
  assume "report_stored env a inp auth db target row e'"
  then have "existing_report (ha_clock a 2) x db = None" using assms(4) by (auto elim!: report_storedE)
  then show ?thesis using receipted_found [OF assms(2,3,5)] by simp
next
  fix f e' assume u: "db' = db" "auth = Some f" "f (sb_email db) = Some (e', False)" "out = Inr unauthorized"
  have ex: "existing_report (ha_clock a 2) x db = Some h" by (rule receipted_found [OF assms(2,3,5)])
  have False using assms(1,4) u ex
    by (auto simp: recordSubmission_def end_transaction_def submission_transaction_def statement_def
        unauthorized_def duplicate_of_def split: option.splits if_splits)
  then show ?thesis ..
qed (use receipted_found [OF assms(2,3,5)] assms(4) in auto)

lemma submission_again_answered:
  assumes "history_wf db" and "receipted x h e db" and "attempt_of inp = Some x" and "ha_clock a 2 < e"
    and "\<And>i. \<not> ha_fails a i" and "validateSubmission env inp = None" and "parseTarget (si_target inp) = Some ti"
    and "\<not> address_misplaced inp ti"
  shows "recordSubmission env a inp auth db = (db, Inr (duplicate_of x h))"
  using assms receipted_found [OF assms(1,2,4)]
  by (simp add: recordSubmission_def submission_transaction_def statement_def end_transaction_def duplicate_of_def)

section \<open>Refused targets\<close>

lemma and_then_Inl: "and_then r f = Inl e \<longleftrightarrow> r = Inl e \<or> (\<exists>x. r = Inr x \<and> f x = Inl e)"
  by (cases r) auto

text \<open>The statuses of \<^verbatim>\<open>ReportTargetError\<close>.\<close>

definition target_statuses :: "nat set" where
  "target_statuses = {400, 404, 422, 503}"

lemma resolve_status:
  assumes "resolve_target env a ldb ti = Inl (TargetRefused st code)"
  shows "st \<in> target_statuses"
proof -
  have k: "resolve_kind (locked_coordinates a ldb) v = Inl (ReportTargetError st code) \<Longrightarrow> st \<in> target_statuses" for v
    by (auto simp: resolve_kind_def locked_coordinates_def INVALID_COORDINATES_def target_statuses_def
        split: option.splits target_kind.splits js_value.splits if_splits)
  have "resolveAndValidateReportTarget (locked_coordinates a ldb) (se_classify env) (target_value ti) = Inl (ReportTargetError st code)"
    using assms by (auto simp: resolve_target_def map_sum_def split: if_splits sum.splits elim!: target_failure.elims)
  then show ?thesis using k
    by (auto simp: resolveAndValidateReportTarget_def INVALID_COORDINATES_def target_statuses_def
        split: sum.splits classification.splits if_splits)
qed

lemma check_proof_Inl: "check_address_proof env inp target = Inl e \<Longrightarrow> e = HistoryInputError InvalidAddressProof"
  by (auto simp: check_address_proof_def split: option.splits final_target.splits if_splits)

lemma authorize_Inl: "authorize_step auth db = Inl e \<Longrightarrow> e = HistoryFailed"
  by (auto simp: authorize_step_def split: option.splits prod.splits)

lemma note_target_Inl: "note_target ti target = Inl e \<Longrightarrow> e = HistoryInputError InvalidTarget"
  by (auto simp: note_target_def split: final_target.splits history_target.splits if_splits)

lemma store_Inl: "store_report env a inp ti attempt target db = Inl e \<Longrightarrow> e = HistoryFailed \<or> e = HistoryInputError InvalidTarget"
  by (auto simp: store_report_def and_then_Inl Let_def statement_def target_summary_def insert_history_def insert_receipt_def
      split: if_splits option.splits final_target.splits dest: note_target_Inl)

lemma submission_status:
  assumes "recordSubmission env a inp auth db = (db', Inl (TargetRefused st code))"
  shows "st \<in> target_statuses"
proof -
  have f: "st \<in> target_statuses"
    if "fresh_submission env a inp ti attempt auth d = Inl (TargetRefused st code)" for ti attempt and d :: "'a submission_db"
    using that
    by (auto simp: fresh_submission_def and_then_Inl resolve_status
        split: if_splits dest: check_proof_Inl authorize_Inl store_Inl)
  show ?thesis using assms
    by (auto simp: recordSubmission_def end_transaction_def submission_transaction_def and_then_Inl statement_def
        split: option.splits if_splits sum.splits prod.splits dest: f)
qed

section \<open>Notes\<close>

lemma earlier_shorter: "set (earlier_reports i t h hs) \<subseteq> set (earlier_reports i t k hs)" if "h \<le> k"
  using that by (auto simp: earlier_reports_def hours_def interval_defs)

text \<open>For a light point there is a note exactly when there were five reports in thirty days or one in seven.\<close>

lemma summary_notes:
  fixes hs :: "history_row list"
  shows "length (buildAutomaticFaultNotes env (fault_history_summary i t hs) ms (LightTarget n)) \<le> 1 \<and>
    (buildAutomaticFaultNotes env (fault_history_summary i t hs) ms (LightTarget n) \<noteq> [] \<longleftrightarrow>
      5 \<le> length (earlier_reports i t 720 hs) \<or> earlier_reports i t 168 hs \<noteq> [])"
proof -
  let ?e = "earlier_reports i t 720 hs"
  let ?s = "fault_history_summary i t hs"
  have all: "filter (\<lambda>r. t - hours 720 \<le> h_submitted r) ?e = ?e" by (rule filter_True) (simp add: earlier_reports_def)
  have week: "earlier_reports i t 168 hs = filter (\<lambda>r. t - hours 168 \<le> h_submitted r) ?e"
    by (auto simp: earlier_reports_def filter_filter hours_def interval_defs intro!: filter_cong)
  have rec: "earlier_reports i t 168 hs \<noteq> []" if "fs_recent ?s \<ge> 2"
  proof -
    from that have "filter (\<lambda>r. t - hours 72 \<le> h_submitted r) ?e \<noteq> []" by (auto simp: fault_history_summary_def Let_def)
    then obtain r where r: "r \<in> set ?e" "t - hours 72 \<le> h_submitted r" by (auto simp: filter_empty_conv)
    then have "t - hours 168 \<le> h_submitted r" by (simp add: hours_def interval_defs)
    then show ?thesis using r(1) unfolding week by (auto simp: filter_empty_conv)
  qed
  have mx: "(case fs_latest ?s of None \<Rightarrow> False | Some l \<Rightarrow> within_previous_days ms l (fs_within ?s)) \<longleftrightarrow>
      earlier_reports i t 168 hs \<noteq> []"
    unfolding week
    by (auto simp: fault_history_summary_def Let_def within_previous_days_def filter_empty_conv Max_ge_iff)
  have k: "fs_recurring ?s = int (length ?e)" by (simp add: fault_history_summary_def Let_def all)
  show ?thesis using mx rec k
    by (auto simp: buildAutomaticFaultNotes_def threshold_defs split: option.splits)
qed

lemma stored_notes:
  assumes "report_stored env a inp auth db target row e"
  shows "length (h_notes row) \<le> 1 \<and>
    (h_notes row \<noteq> [] \<longleftrightarrow> (\<exists>i. h_light row = Some i \<and>
       (5 \<le> length (earlier_reports i (h_submitted row) 720 (sb_history db)) \<or>
        earlier_reports i (h_submitted row) 168 (sb_history db) \<noteq> [])))"
proof -
  from assms obtain ti summary nt where s: "target_summary a (ha_clock a 5) target (sb_history db) = Inr summary"
    "note_target ti target = Inr nt"
    and row: "row = history_row_of (sb_next db + int (ha_skipped a)) (ha_clock a 5) inp target
        (buildAutomaticFaultNotes env summary (ha_clock a 5 div 1000) nt)" and ok: "history_row_ok row"
    by (auto elim!: report_storedE)
  have t: "h_submitted row = ha_clock a 5" "h_light row = target_light target"
    "h_notes row = buildAutomaticFaultNotes env summary (ha_clock a 5 div 1000) nt" "h_kind row = target_row_kind target"
    using row by (simp_all add: history_row_of_def)
  show ?thesis
  proof (cases "h_light row")
    case None
    then have "\<forall>n. nt \<noteq> LightTarget n" using ok t s(2)
      by (auto simp: history_row_ok_def target_light_def target_row_kind_def note_target_def
          split: final_target.splits history_target.splits if_splits)
    then show ?thesis using None t by (auto simp: buildAutomaticFaultNotes_def split: history_target.splits)
  next
    case (Some i)
    then obtain n where "nt = LightTarget n" using ok t s(2)
      by (auto simp: history_row_ok_def target_light_def target_row_kind_def note_target_def
          split: final_target.splits history_target.splits if_splits)
    moreover have "summary = fault_history_summary i (ha_clock a 5) (sb_history db)"
    proof (cases target)
      case (Located rt)
      then have "t_light rt = Some i" using t Some by (simp add: target_light_def)
      then show "summary = fault_history_summary i (ha_clock a 5) (sb_history db)"
        using s(1) Located by (simp add: target_summary_def)
    next
      case Unlocated
      then have "h_light row = None" using t(2) by (simp add: target_light_def)
      then show "summary = fault_history_summary i (ha_clock a 5) (sb_history db)" using Some by simp
    qed
    ultimately show ?thesis using Some t summary_notes by simp
  qed
qed

section \<open>Places\<close>

lemma stored_place:
  assumes "report_stored env a inp auth db target row e"
  shows "h_geom row = Some (lat, lon) \<Longrightarrow> se_classify env (point_value lat lon) = Inside \<and> valid_coordinates lat lon"
    and "h_light row = Some i \<Longrightarrow> findCoordinates (sb_lights db) i = h_geom row"
    and "automatic_address inp = Some address \<Longrightarrow> \<exists>lat lon p. h_geom row = Some (lat, lon) \<and> is_point (h_kind row) \<and>
      si_proof inp = JStr p \<and> verifyReportAddressProof (se_proof env) address (kind_text (h_kind row)) lat lon p (se_secret env)"
proof -
  from assms obtain ti texts where r: "resolve_target env a (sb_lights db) ti = Inr target"
    and c: "check_address_proof env inp target = Inr ()"
    and row: "row = history_row_of (sb_next db + int (ha_skipped a)) (ha_clock a 5) inp target texts"
    by (auto elim!: report_storedE)
  have rr: "resolveAndValidateReportTarget (locked_coordinates a (sb_lights db)) (se_classify env) (target_value ti) = Inr t"
    if "target = Located t" for t
    using r that by (auto simp: resolve_target_def map_sum_def split: if_splits sum.splits)
  have g: "h_geom row = target_geom target" "h_light row = target_light target" "h_kind row = target_row_kind target"
    by (simp_all add: row history_row_of_def)
  show "se_classify env (point_value lat lon) = Inside \<and> valid_coordinates lat lon" if "h_geom row = Some (lat, lon)"
    using that g resolved_inside(1,2) [OF rr] by (cases target) (auto simp: target_geom_def)
  show "findCoordinates (sb_lights db) i = h_geom row" if "h_light row = Some i"
  proof (cases target)
    case (Located t)
    then have "locked_coordinates a (sb_lights db) i = Inr (Some (t_latitude t, t_longitude t))"
      using that g resolved_inside(3) [OF rr] by (auto simp: target_light_def)
    then show ?thesis using g Located by (auto simp: locked_coordinates_def target_geom_def split: if_splits)
  qed (use that g in \<open>simp add: target_light_def\<close>)
  show "\<exists>lat lon p. h_geom row = Some (lat, lon) \<and> is_point (h_kind row) \<and> si_proof inp = JStr p \<and>
      verifyReportAddressProof (se_proof env) address (kind_text (h_kind row)) lat lon p (se_secret env)"
    if "automatic_address inp = Some address"
    using c that g
    by (auto simp: check_address_proof_def target_geom_def target_row_kind_def split: final_target.splits option.splits if_splits)
qed

section \<open>Pages of the list\<close>

text \<open>The pages of a table read one after the other are the whole table, newest first.\<close>

lemma concat_pages: "0 < l \<Longrightarrow> concat (map (\<lambda>p. take l (drop (p * l) xs)) [0..<n]) = take (n * l) xs"
proof (induction n)
  case (Suc n)
  have "take (n * l) xs @ take l (drop (n * l) xs) = take (n * l + l) xs" by (simp add: take_add)
  then show ?case using Suc by (simp add: add.commute)
qed simp

lemma history_pages_cover:
  assumes "0 < l"
  shows "concat (map (\<lambda>p. fst (listHistory l (p * l) db)) [0..<history_total_pages l (length (sb_history db))]) =
    sort_key (\<lambda>h. (- h_submitted h, - h_id h)) (sb_history db)"
proof -
  let ?n = "length (sb_history db)"
  have "?n \<le> (?n + l - 1) div l * l"
  proof -
    have "?n + l - 1 = (?n + l - 1) div l * l + (?n + l - 1) mod l" "(?n + l - 1) mod l < l" using assms by simp_all
    then show ?thesis by linarith
  qed
  then have "?n \<le> history_total_pages l ?n * l"
    unfolding history_total_pages_def by (metis le_trans max.cobounded2 mult_le_mono1)
  then show ?thesis by (simp add: listHistory_def concat_pages [OF assms])
qed

end
