(* ===== verification/SubmissionRuns.thy ===== *)
theory SubmissionRuns
  imports SubmissionBoundary FaultHistorySafety
begin

text \<open>
  The submission endpoint beside the e-mail endpoints: one database, on which submissions, the
  operations of the e-mail store, the cleanup of receipts and changes of the inventory follow each
  other.  The log of a run notes with each answer the row the request stored, also when the answer
  was lost.  Two invariants are kept by every event: the tables are well formed (\<open>history_wf\<close>), and
  the challenge table is the one a run of the e-mail store leaves behind in which every stored report
  is one successful consumption (\<open>email_trace\<close>).
\<close>

section \<open>The system\<close>

datatype system_event =
  EmailEvent store_event
| SubmitEvent history_ambient submit_request
| CleanupEvent int int
| InventoryEvent "light_db \<Rightarrow> light_db"

datatype system_outcome =
  EmailOutcome store_outcome
| Answered http_response "history_row option"
| CleanupOutcome "nat option"
| InventoryOutcome

definition stored_row :: "'db submission_db \<Rightarrow> 'db submission_db \<Rightarrow> history_row option" where
  "stored_row db db' = (if length (sb_history db) < length (sb_history db') then Some (last (sb_history db')) else None)"

fun system_step :: "email_db submit_settings \<Rightarrow> email_db submission_db \<Rightarrow> system_event \<Rightarrow> email_db submission_db \<times> system_outcome" where
  "system_step s db (EmailEvent e) =
     (case store_step (sb_email db) e of (em, out) \<Rightarrow> (db\<lparr>sb_email := em\<rparr>, EmailOutcome out))"
| "system_step s db (SubmitEvent a req) =
     (case local_submit s a req db of (db', answer) \<Rightarrow> (db', Answered answer (stored_row db db')))"
| "system_step s db (CleanupEvent t limit) =
     (case cleanupExpiredSubmissionAttempts t limit db of
        None \<Rightarrow> (db, CleanupOutcome None)
      | Some (db', n) \<Rightarrow> (db', CleanupOutcome (Some n)))"
| "system_step s db (InventoryEvent g) = (db\<lparr>sb_lights := g (sb_lights db)\<rparr>, InventoryOutcome)"

definition empty_system :: "light_db \<Rightarrow> email_db submission_db" where
  "empty_system ldb =
     \<lparr>sb_history = [], sb_receipts = [], sb_next = 1, sb_lights = ldb, sb_email = empty_email_db\<rparr>"

section \<open>The cases of a request\<close>

lemma submit_cases:
  assumes "local_submit s a req db = (db', answer)"
  obtains (early) "prepare_submission s req = Inl answer" "db' = db"
  | (reached) fs draft inp out where "prepare_submission s req = Inr (fs, draft, inp)"
      "recordSubmission (ss_env s) a inp (submission_authorization a (ss_verification s) fs) db = (db', out)"
      "answer = submission_answer (ss_production s) draft fs out"
  using assms by (auto simp: local_submit_def map_prod_def split: sum.splits prod.splits)

text \<open>A request stores a row or leaves the database alone.\<close>

lemma submit_row:
  assumes "local_submit s a req db = (db', answer)"
  obtains (idle) "db' = db" "stored_row db db' = None"
  | (row) fs draft inp target r e where "prepare_submission s req = Inr (fs, draft, inp)"
      "report_stored (ss_env s) a inp (submission_authorization a (ss_verification s) fs) db target r e"
      "db' = after_report a (attempt_of inp) r e db" "stored_row db db' = Some r"
proof (rule submit_cases [OF assms])
  assume "db' = db"
  then show thesis using idle by (simp add: stored_row_def)
next
  fix fs draft inp out
  assume p: "prepare_submission s req = Inr (fs, draft, inp)"
    and r: "recordSubmission (ss_env s) a inp (submission_authorization a (ss_verification s) fs) db = (db', out)"
  show thesis
  proof (rule submission_cases [OF r])
    fix target row' e
    assume "report_stored (ss_env s) a inp (submission_authorization a (ss_verification s) fs) db target row' e"
      "db' = after_report a (attempt_of inp) row' e db"
    then show thesis using row [OF p] by (simp add: stored_row_def after_report_def)
  qed (use idle in \<open>simp_all add: stored_row_def\<close>)
qed

lemma prepared_submission:
  assumes "prepare_submission s req = Inr (fs, draft, inp)"
  shows "inp = submission_of fs draft (si_target inp)" and "ss_history s"
    and "\<exists>x. form_field ''submissionAttemptId'' fs = Some x \<and> is_uuid_v4 x \<and> attempt_of inp = Some (lower_ascii x)"
proof -
  obtain b fl where up: "sr_upload req = Inr (b, fl)" and v: "validateFields b (ss_verification s \<noteq> None) = Some fs"
    and i: "\<exists>t. inp = submission_of fs draft t" "ss_history s"
    using assms by (auto simp: prepare_submission_def split: sum.splits option.splits if_splits prod.splits)
  then show "inp = submission_of fs draft (si_target inp)" "ss_history s" by (auto simp: submission_of_def)
  from v obtain x where "form_field ''submissionAttemptId'' fs = Some x" "is_uuid_v4 x"
    by (auto simp: validateFields_def split: option.splits if_splits)
  then show "\<exists>x. form_field ''submissionAttemptId'' fs = Some x \<and> is_uuid_v4 x \<and> attempt_of inp = Some (lower_ascii x)"
    using i(1) by (auto simp: submission_of_def attempt_of_def)
qed

section \<open>The tables\<close>

lemma system_step_wf: "history_wf db \<Longrightarrow> system_step s db ev = (db', out) \<Longrightarrow> history_wf db'"
proof (cases ev)
  case (SubmitEvent a req)
  assume wf: "history_wf db" and st: "system_step s db ev = (db', out)"
  then obtain answer where l: "local_submit s a req db = (db', answer)" using SubmitEvent by (auto split: prod.splits)
  show ?thesis by (rule submit_row [OF l]) (use wf after_report_wf [OF wf] in auto)
qed (auto simp: history_wf_def dest: cleanup_keeps_wf split: prod.splits option.splits)

interpretation report_tables: invariant_system "system_step s" "\<lambda>hist. history_wf"
  by unfold_locales (rule system_step_wf)

lemma empty_system_wf: "history_wf (empty_system ldb)"
  by (simp add: history_wf_def empty_system_def)

lemma run_keeps_wf: "run_log (system_step s) db evs = (hist, db') \<Longrightarrow> history_wf db \<Longrightarrow> history_wf db'"
  by (rule report_tables.run_inv)

lemma run_tables: "run_log (system_step s) (empty_system ldb) evs = (hist, db) \<Longrightarrow> history_wf db"
  using report_tables.reachable_inv [OF empty_system_wf, of s ldb evs] by simp

section \<open>Receipts along a run\<close>

fun event_before :: "int \<Rightarrow> system_event \<Rightarrow> bool" where
  "event_before e (SubmitEvent a req) = (\<forall>i. ha_clock a i < e)"
| "event_before e (CleanupEvent t limit) = (t < e)"
| "event_before e (EmailEvent ev) = True"
| "event_before e (InventoryEvent g) = True"

lemma step_keeps_receipt:
  assumes "system_step s db ev = (db', out)" and "receipted x h e db" and "event_before e ev"
  shows "receipted x h e db'"
proof (cases ev)
  case (SubmitEvent a req)
  then obtain answer where l: "local_submit s a req db = (db', answer)" using assms(1) by (auto split: prod.splits)
  show ?thesis
  proof (rule submit_cases [OF l])
    fix fs draft inp o'
    assume "recordSubmission (ss_env s) a inp (submission_authorization a (ss_verification s) fs) db = (db', o')"
    then show ?thesis using submission_keeps_receipt assms(2,3) SubmitEvent by fastforce
  qed (use assms(2) in simp)
next
  case (CleanupEvent t limit)
  then show ?thesis using assms cleanup_keeps_receipt by (auto split: option.splits prod.splits)
qed (use assms in \<open>auto simp: receipted_def split: prod.splits\<close>)

lemma run_keeps_receipt:
  "run_log (system_step s) db evs = (hist, db') \<Longrightarrow> receipted x h e db \<Longrightarrow> list_all (event_before e) evs \<Longrightarrow>
    receipted x h e db'"
proof (induction evs arbitrary: db hist)
  case (Cons ev evs)
  obtain d out where st: "system_step s db ev = (d, out)" by force
  then have "receipted x h e d" using step_keeps_receipt Cons.prems by auto
  then show ?case using Cons st by (auto simp: Let_def split: prod.splits)
qed simp

section \<open>Verified e-mail addresses\<close>

text \<open>The part of the log that happened in the e-mail store.\<close>

definition consumption :: "email_crypto \<Rightarrow> history_ambient \<Rightarrow> form_fields \<Rightarrow> store_event" where
  "consumption c a fs =
     (let email = the (form_field ''email'' fs); iid = the (form_field ''emailVerificationIntentId'' fs);
          token = the (form_field ''emailVerificationToken'' fs);
          em = emailDigest (c_hmac c) (c_lower c) (c_key c) email in
      Consume (ha_clock a 11) iid em (verificationTokenDigest (c_hmac c) (c_key c) iid em token))"

definition submitted_fields :: "'db submit_settings \<Rightarrow> submit_request \<Rightarrow> form_fields" where
  "submitted_fields s req = (case prepare_submission s req of Inr (fs, draft, inp) \<Rightarrow> fs | Inl answer \<Rightarrow> [])"

fun email_part :: "email_crypto \<Rightarrow> email_db submit_settings \<Rightarrow> system_event \<times> system_outcome \<Rightarrow> (store_event \<times> store_outcome) list" where
  "email_part c s (EmailEvent e, EmailOutcome out) = [(e, out)]"
| "email_part c s (SubmitEvent a req, Answered answer (Some row)) = [(consumption c a (submitted_fields s req), ConsumeOut True)]"
| "email_part c s x = []"

definition email_trace :: "email_crypto \<Rightarrow> email_db submit_settings \<Rightarrow> (system_event \<times> system_outcome) list \<Rightarrow>
    (store_event \<times> store_outcome) list" where
  "email_trace c s hist = concat (map (email_part c s) hist)"

lemma email_trace_append [simp]: "email_trace c s (h1 @ h2) = email_trace c s h1 @ email_trace c s h2"
  by (simp add: email_trace_def)

definition email_traced :: "email_crypto \<Rightarrow> email_db submit_settings \<Rightarrow> (system_event \<times> system_outcome) list \<Rightarrow>
    email_db submission_db \<Rightarrow> bool" where
  "email_traced c s hist db \<longleftrightarrow> (\<exists>es. run_log store_step empty_email_db es = (email_trace c s hist, sb_email db))"

text \<open>A stored report is one successful consumption.\<close>

lemma authorized_consumption:
  assumes "authorized_by (submission_authorization a (Some (postgres_store, c)) fs) e e'"
  shows "store_step e (consumption c a fs) = (e', ConsumeOut True) \<and>
    (\<exists>email iid token. form_field ''email'' fs = Some email \<and> form_field ''emailVerificationIntentId'' fs = Some iid \<and>
       form_field ''emailVerificationToken'' fs = Some token \<and> reaches_store c email iid token)"
  using assms
  by (auto simp: authorized_by_def submission_authorization_def consumption_def given_def reaches_store_def Let_def
      consumeSubmissionVerification_def postgres_store_def split: option.splits if_splits prod.splits)

lemma system_step_traced:
  assumes v: "ss_verification s = Some (postgres_store, c)" and inv: "email_traced c s hist db"
    and st: "system_step s db ev = (db', out)"
  shows "email_traced c s (hist @ [(ev, out)]) db'"
proof -
  obtain es where es: "run_log store_step empty_email_db es = (email_trace c s hist, sb_email db)"
    using inv by (auto simp: email_traced_def)
  have one: "email_traced c s (hist @ [(ev, out)]) db'"
    if "store_step (sb_email db) e = (sb_email db', o')" "email_part c s (ev, out) = [(e, o')]" for e o'
    using that es by (auto simp: email_traced_def email_trace_def run_log_append intro!: exI [of _ "es @ [e]"])
  have none: "email_traced c s (hist @ [(ev, out)]) db'"
    if "sb_email db' = sb_email db" "email_part c s (ev, out) = []"
    using that es by (auto simp: email_traced_def email_trace_def)
  show ?thesis
  proof (cases ev)
    case (EmailEvent e)
    obtain em o' where "store_step (sb_email db) e = (em, o')" by force
    then show ?thesis using st EmailEvent by (intro one [where e = e and o' = o']) auto
  next
    case (SubmitEvent a req)
    then obtain answer where l: "local_submit s a req db = (db', answer)" and out: "out = Answered answer (stored_row db db')"
      using st by (auto split: prod.splits)
    show ?thesis
    proof (rule submit_row [OF l])
      assume "db' = db" "stored_row db db' = None"
      then show ?thesis using none SubmitEvent out by simp
    next
      fix fs draft inp target r e
      assume p: "prepare_submission s req = Inr (fs, draft, inp)" and row: "stored_row db db' = Some r"
        and "report_stored (ss_env s) a inp (submission_authorization a (ss_verification s) fs) db target r e"
        and db': "db' = after_report a (attempt_of inp) r e db"
      then have "authorized_by (submission_authorization a (Some (postgres_store, c)) fs) (sb_email db) e"
        using v by (auto elim!: report_storedE)
      then have "store_step (sb_email db) (consumption c a fs) = (sb_email db', ConsumeOut True)"
        using authorized_consumption db' by (fastforce simp: after_report_def)
      moreover have "email_part c s (ev, out) = [(consumption c a fs, ConsumeOut True)]"
        by (simp add: SubmitEvent out row submitted_fields_def p)
      ultimately show ?thesis by (rule one)
    qed
  next
    case (CleanupEvent t limit)
    then show ?thesis using st
      by (intro none) (auto simp: cleanupExpiredSubmissionAttempts_def split: option.splits if_splits prod.splits)
  next
    case (InventoryEvent g)
    then show ?thesis using st by (intro none) auto
  qed
qed

interpretation email_use: invariant_system "system_step s"
    "\<lambda>hist db. ss_verification s = Some (postgres_store, c) \<longrightarrow> email_traced c s hist db"
  by unfold_locales (use system_step_traced in blast)

lemma run_traced:
  assumes "ss_verification s = Some (postgres_store, c)" and "run_log (system_step s) (empty_system ldb) evs = (hist, db)"
  shows "email_traced c s hist db"
proof -
  have "email_traced c s [] (empty_system ldb)"
    by (simp add: email_traced_def email_trace_def empty_system_def exI [of _ "[]"])
  then show ?thesis using email_use.reachable_inv [of s c "empty_system ldb" evs] assms by simp
qed

end
