(* ===== verification/SubmissionExamples.thy ===== *)
theory SubmissionExamples
  imports SubmissionRuns
begin

text \<open>
  A concrete system: one form, one verified address, the request and its retry, on which the
  properties of the submission endpoint are evaluated.
\<close>

definition demo_uuid :: jsstring where
  "demo_uuid = js ''ffffffff-ffff-4fff-bfff-ffffffffffff''"

definition demo_crypto :: email_crypto where
  "demo_crypto = \<lparr>c_hmac = \<lambda>_ _. [1], c_lower = id, c_key = [1]\<rparr>"

definition demo_secret :: jsstring where
  "demo_secret = [1]"

definition demo_report_env :: submission_env where
  "demo_report_env = \<lparr>se_localities = [js ''Sever''], se_classify = \<lambda>_. Inside,
     se_proof = \<lparr>p_nfc = id, p_number = \<lambda>n. [], p_hmac_text = \<lambda>k m. [1], p_hmac = \<lambda>k m. replicate 32 1\<rparr>,
     se_secret = demo_secret, se_format = \<lambda>_. []\<rparr>"

definition manual_value :: js_value where
  "manual_value = JObj [(js ''kind'', JStr (js ''manual''))]"

definition demo_settings :: "email_db submit_settings" where
  "demo_settings = \<lparr>ss_production = True, ss_env = demo_report_env, ss_parse = \<lambda>_. Some manual_value,
     ss_verification = Some (postgres_store, demo_crypto), ss_history = True\<rparr>"

definition demo_token :: jsstring where
  "demo_token = replicate 43 65"

definition demo_form :: "(string \<times> jsstring) list" where
  "demo_form = [(FIELD_service, js ''2''), (FIELD_locality, js ''Sever''), (FIELD_phone, js ''1''), (''email'', js ''a@b.c''),
     (''locale'', js ''sk''), (''reportTarget'', []), (''submissionAttemptId'', demo_uuid),
     (''emailVerificationIntentId'', demo_uuid), (''emailVerificationToken'', demo_token)]"

definition demo_request :: submit_request where
  "demo_request = \<lparr>sr_id = 0, sr_upload = Inr (JObj (map (\<lambda>(k, v). (js k, JStr v)) demo_form), [])\<rparr>"

definition demo_fields :: form_fields where
  "demo_fields = map (\<lambda>(k, v). (js k, v)) demo_form"

definition demo_draft :: report_draft where
  "demo_draft = \<lparr>dr_locality = js ''Sever'', dr_detail = None, dr_block = None, dr_fault = None, dr_other = None,
     dr_phone = js ''1'', dr_email = js ''a@b.c'', dr_locale = js ''sk'', dr_attachments = []\<rparr>"

lemma demo_uuid_v4: "is_uuid_v4 demo_uuid"
  by (simp add: demo_uuid_def is_uuid_v4_def uuid_v4_pattern_def replicate_literal js_def is_hex_ci_def is_hex_lower_def is_digit_def)

lemma demo_flat: "flattenMultipartBody (JObj (map (\<lambda>(k, v). (js k, JStr v)) demo_form)) = map (\<lambda>(k, v). (js k, JStr v)) demo_form"
  by (simp add: flattenMultipartBody_def flatten_entry_def props_def demo_form_def js_eq FIELD_defs)

lemma demo_field:
  "form_field FIELD_service demo_fields = Some (js ''2'')" "form_field FIELD_locality demo_fields = Some (js ''Sever'')"
  "form_field FIELD_phone demo_fields = Some (js ''1'')" "form_field ''email'' demo_fields = Some (js ''a@b.c'')"
  "form_field ''locale'' demo_fields = Some (js ''sk'')" "form_field ''reportTarget'' demo_fields = Some []"
  "form_field ''submissionAttemptId'' demo_fields = Some demo_uuid"
  "form_field ''emailVerificationIntentId'' demo_fields = Some demo_uuid"
  "form_field ''emailVerificationToken'' demo_fields = Some demo_token"
  "form_field FIELD_detail demo_fields = None" "form_field FIELD_block demo_fields = None" "form_field FIELD_fault demo_fields = None"
  "form_field FIELD_other demo_fields = None" "form_field ''automaticAddress'' demo_fields = None"
  "form_field ''automaticAddressProof'' demo_fields = None"
  by (simp_all add: form_field_def demo_fields_def demo_form_def js_eq FIELD_defs)

lemma string_fields_strings: "set (map fst xs) \<subseteq> al \<Longrightarrow> string_fields al (map (\<lambda>(k, v). (k, JStr v)) xs) = Some xs"
  by (induction xs) auto

lemma demo_validated: "validateFields (JObj (map (\<lambda>(k, v). (js k, JStr v)) demo_form)) True = Some demo_fields"
proof -
  have "map (\<lambda>(k, v). (js k, JStr v)) demo_form = map (\<lambda>(k, v). (k, JStr v)) demo_fields"
    by (simp add: demo_fields_def comp_def case_prod_unfold)
  moreover have "set (map fst demo_fields) \<subseteq> js ` set (ALLOWED_FIELDS @ VERIFICATION_FIELDS)"
    by (auto simp: demo_fields_def demo_form_def ALLOWED_FIELDS_def VERIFICATION_FIELDS_def)
  ultimately show ?thesis unfolding validateFields_def demo_flat
    by (simp add: string_fields_strings demo_field demo_uuid_v4)
qed

lemma demo_prepared:
  "prepare_submission demo_settings demo_request = Inr (demo_fields, demo_draft, submission_of demo_fields demo_draft manual_value)"
proof -
  have "email_shape (js_trim (js ''a@b.c''))" "js_trim (js ''a@b.c'') = js ''a@b.c''" "js_trim (js ''1'') \<noteq> []"
    by (simp_all add: email_shape_def js_def js_trim_def trim_both_def js_ws_def email_char_def Let_def)
  then have "mapLocalVoFieldsToDraft [js ''Sever''] demo_fields [] = Inr demo_draft"
    by (simp add: mapLocalVoFieldsToDraft_def demo_field AUSEMIO_SERVICE_VO_def given_def js_eq AUSEMIO_SUBMIT_LOCALES_def
        code_accepted_def demo_draft_def) (simp add: js_def)
  then show ?thesis
    by (simp add: prepare_submission_def demo_request_def demo_settings_def demo_validated demo_report_env_def)
qed

definition demo_clock :: "int \<Rightarrow> ambient" where
  "demo_clock t = \<lparr>sql_clock = \<lambda>_. t, process_ms = \<lambda>_. 0, challenge_locked = \<lambda>_. False, rate_locked = \<lambda>_. False\<rparr>"

definition demo_verification :: "store_event list" where
  "demo_verification =
     [Create (demo_clock 0) \<lparr>nc_intentId = demo_uuid, nc_emailDigest = [1], nc_otpDigest = [2], nc_ipDigest = [3]\<rparr>,
      Verify (demo_clock 1000000)
        \<lparr>vi_intentId = demo_uuid, vi_emailDigest = [1], vi_ipDigest = [3], vi_otpDigest = [2], vi_tokenDigest = [1]\<rparr>]"

lemma demo_verified:
  "map snd (fst (run_log store_step empty_email_db (demo_verification @ [Consume 2000000 demo_uuid [1] [1]]))) =
     [CreateOut (Inr Created), VerifyOut (Inr (Verified 599)), ConsumeOut True]"
  by code_simp

definition demo_times :: "int \<Rightarrow> history_ambient" where
  "demo_times t = \<lparr>ha_clock = \<lambda>_. t, ha_fails = \<lambda>_. False, ha_commit_applied = True, ha_skipped = 0\<rparr>"

definition demo_no_lights :: light_db where
  "demo_no_lights = \<lparr>lights = [], audits = []\<rparr>"

definition demo_input :: submission_input where
  "demo_input = submission_of demo_fields demo_draft manual_value"

definition demo_row :: history_row where
  "demo_row = \<lparr>h_id = 1, h_submitted = 2000000, h_locality = js ''Sever'', h_block = None, h_fault = None, h_kind = ManualKind,
     h_light = None, h_geom = None, h_notes = []\<rparr>"

lemma demo_input_fields:
  "si_attempt demo_input = Some demo_uuid" "si_locality demo_input = js ''Sever''" "si_detail demo_input = None"
  "si_address demo_input = JUndefined" "si_proof demo_input = JUndefined" "si_block demo_input = None" "si_fault demo_input = None"
  "si_target demo_input = manual_value" "automatic_address demo_input = None" "attempt_of demo_input = Some (lower_ascii demo_uuid)"
  by (simp_all add: demo_input_def submission_of_def demo_field demo_draft_def automatic_address_def attempt_of_def)

lemma demo_accepted:
  "validateSubmission demo_report_env demo_input = None" "parseTarget manual_value = Some ManualTarget"
  "\<not> address_misplaced demo_input ti"
  by (simp_all add: validateSubmission_def demo_input_fields demo_uuid_v4 demo_report_env_def code_accepted_def address_text_ok_def
      proof_text_ok_def manual_value_def isRecord_def parseTarget_def has_own_def props_def kind_of_def js_get_def js_eq address_misplaced_def)

lemma demo_consumes:
  assumes "store_step (sb_email db) (Consume 2000000 demo_uuid [1] [1]) = (e, ConsumeOut True)"
  shows "authorized_by (submission_authorization (demo_times 2000000) (Some (postgres_store, demo_crypto)) demo_fields)
    (sb_email db) e"
proof -
  have "isValidVerificationEmail id (js ''a@b.c'')"
    by (simp add: isValidVerificationEmail_def normalizeVerificationEmail_def email_shape_def js_def js_trim_def trim_both_def
        js_ws_def email_char_def Let_def)
  moreover have "token_shape demo_token" by (simp add: token_shape_def demo_token_def matches_all_def is_base64url_def list_all_iff)
  moreover have "demo_uuid \<noteq> []" "demo_token \<noteq> []" by (simp_all add: demo_uuid_def demo_token_def js_def)
  ultimately show ?thesis using assms
    by (simp add: authorized_by_def submission_authorization_def demo_field given_def reaches_store_def demo_crypto_def
        demo_uuid_v4 demo_times_def consumeSubmissionVerification_def postgres_store_def emailDigest_def verificationTokenDigest_def
        digest_def Let_def map_prod_def split: prod.splits)
qed

lemma demo_settings_fields:
  "ss_env demo_settings = demo_report_env" "ss_verification demo_settings = Some (postgres_store, demo_crypto)"
  by (simp_all add: demo_settings_def)

lemma demo_stored:
  assumes "sb_history db = []" "sb_receipts db = []" "sb_next db = 1"
    and "store_step (sb_email db) (Consume 2000000 demo_uuid [1] [1]) = (e, ConsumeOut True)"
  shows "report_stored demo_report_env (demo_times 2000000) demo_input
    (submission_authorization (demo_times 2000000) (Some (postgres_store, demo_crypto)) demo_fields) db Unlocated demo_row e"
proof -
  have "length (code_points (js ''Sever'')) \<le> 100" using code_points_length [of "js ''Sever''"] by simp
  then have "history_row_ok demo_row" by (simp add: history_row_ok_def demo_row_def too_long_def)
  moreover have "authorized_by (submission_authorization (demo_times 2000000) (Some (postgres_store, demo_crypto)) demo_fields)
      (sb_email db) e"
    by (rule demo_consumes [OF assms(4)])
  ultimately show ?thesis using assms(1-3)
    by (intro report_stored.intros [where ti = ManualTarget and summary = no_summary and nt = ManualTarget])
       (simp_all add: demo_accepted demo_input_fields resolve_target_def check_address_proof_def target_summary_def note_target_def
          existing_report_def history_row_of_def demo_row_def demo_times_def target_row_kind_def target_light_def
          target_geom_def buildAutomaticFaultNotes_def)
qed

lemma demo_submit:
  assumes "sb_history db = []" "sb_receipts db = []" "sb_next db = 1"
    and "store_step (sb_email db) (Consume 2000000 demo_uuid [1] [1]) = (e, ConsumeOut True)"
  shows "\<exists>db' answer. system_step demo_settings db (SubmitEvent (demo_times 2000000) demo_request) =
    (db', Answered answer (Some demo_row))"
proof -
  have "\<not> ha_fails (demo_times 2000000) i" for i by (simp add: demo_times_def)
  from stored_committed [OF demo_stored [OF assms] this] show ?thesis using assms(1)
    by (simp add: local_submit_def demo_prepared demo_input_def [symmetric] demo_settings_fields stored_row_def after_report_def)
qed

lemma run_email_events:
  "run_log store_step (sb_email db) es = (l, e) \<Longrightarrow>
    run_log (system_step s) db (map EmailEvent es) = (map (\<lambda>(v, w). (EmailEvent v, EmailOutcome w)) l, db\<lparr>sb_email := e\<rparr>)"
proof (induction es arbitrary: db l)
  case (Cons v es)
  obtain e1 w where st: "store_step (sb_email db) v = (e1, w)" by force
  obtain l1 e2 where rn: "run_log store_step e1 es = (l1, e2)" by force
  have "run_log (system_step s) (db\<lparr>sb_email := e1\<rparr>) (map EmailEvent es) =
      (map (\<lambda>(v, w). (EmailEvent v, EmailOutcome w)) l1, db\<lparr>sb_email := e2\<rparr>)"
    using Cons.IH [of "db\<lparr>sb_email := e1\<rparr>" l1] Cons.prems st rn by simp
  then show ?case using Cons.prems st rn by auto
qed simp

lemma demo_report_run:
  "\<exists>h1 answer answer' stored' db.
    run_log (system_step demo_settings) (empty_system demo_no_lights)
      (map EmailEvent demo_verification @ [SubmitEvent (demo_times 2000000) demo_request, SubmitEvent (demo_times 3000000) demo_request]) =
    (h1 @ (SubmitEvent (demo_times 2000000) demo_request, Answered answer (Some demo_row)) #
       [] @ (SubmitEvent (demo_times 3000000) demo_request, Answered answer' stored') # [], db)"
proof -
  let ?c = "Consume 2000000 demo_uuid [1] [1]"
  obtain l e where rn: "run_log store_step empty_email_db demo_verification = (l, e)" by force
  obtain e3 w where st: "store_step e ?c = (e3, w)" by force
  have len: "length l = 2" using run_log_length [OF rn] by (simp add: demo_verification_def)
  have "map snd (l @ [(?c, w)]) = [CreateOut (Inr Created), VerifyOut (Inr (Verified 599)), ConsumeOut True]"
    using demo_verified rn st by (simp add: run_log_append)
  then have "w = ConsumeOut True" using len by (auto simp: length_Suc_conv numeral_2_eq_2)
  then have c: "store_step e ?c = (e3, ConsumeOut True)" using st by simp
  let ?db = "(empty_system demo_no_lights)\<lparr>sb_email := e\<rparr>"
  from demo_submit [of ?db e3] c obtain db' answer where
    s: "system_step demo_settings ?db (SubmitEvent (demo_times 2000000) demo_request) = (db', Answered answer (Some demo_row))"
    by (auto simp: empty_system_def)
  obtain db2 answer' where l2: "local_submit demo_settings (demo_times 3000000) demo_request db' = (db2, answer')" by force
  have "run_log (system_step demo_settings) (empty_system demo_no_lights) (map EmailEvent demo_verification) =
      (map (\<lambda>(v, w). (EmailEvent v, EmailOutcome w)) l, ?db)"
    by (rule run_email_events) (simp add: rn empty_system_def)
  then show ?thesis using s l2 by (simp add: run_log_append Let_def del: system_step.simps(2)) simp
qed

section \<open>A report about a point with its suggested address\<close>

definition demo_proof :: jsstring where
  "demo_proof = [118, 49, 46] @ base64url (replicate 32 1)"

definition point_target :: js_value where
  "point_target = target_value (PointTarget CustomKind (Fin 48) (Fin 17))"

definition point_input :: submission_input where
  "point_input = \<lparr>si_attempt = None, si_locality = js ''Sever'', si_detail = None, si_address = JStr (js ''A 1''),
     si_proof = JStr demo_proof, si_block = None, si_fault = None, si_target = point_target\<rparr>"

definition point_row :: history_row where
  "point_row = \<lparr>h_id = 1, h_submitted = 0, h_locality = js ''Sever'', h_block = None, h_fault = None, h_kind = CustomKind,
     h_light = None, h_geom = Some (Fin 48, Fin 17), h_notes = []\<rparr>"

lemma demo_proof_valid:
  "verifyReportAddressProof (se_proof demo_report_env) (js ''A 1'') (js ''custom'') (Fin 48) (Fin 17) demo_proof demo_secret"
  "matches_seq proof_pattern demo_proof" "js_trim (js ''A 1'') \<noteq> []"
proof -
  let ?e = "se_proof demo_report_env"
  show t: "js_trim (js ''A 1'') \<noteq> []" by (simp add: js_def js_trim_def trim_both_def js_ws_def)
  show m: "matches_seq proof_pattern demo_proof" unfolding demo_proof_def by (rule proof_shape_base64) simp
  have "normalizeReportAddress (p_nfc ?e) (js ''A 1'') \<noteq> []" "length (normalizeReportAddress (p_nfc ?e) (js ''A 1'')) \<le> 500"
    by (simp_all add: normalizeReportAddress_def demo_report_env_def js_def js_trim_def trim_both_def js_ws_def sep_char_def)
  then have c: "createReportAddressProof ?e (js ''A 1'') (js ''custom'') (Fin 48) (Fin 17) demo_secret = Some demo_proof"
    by (simp add: createReportAddressProof_def Let_def demo_proof_def PROOF_VERSION_def js_def) (simp add: demo_report_env_def demo_secret_def)
  show "verifyReportAddressProof ?e (js ''A 1'') (js ''custom'') (Fin 48) (Fin 17) demo_proof demo_secret"
    using m by (simp add: verifyReportAddressProof_def c) (simp add: demo_secret_def)
qed

lemma kind_texts [simp]:
  "js_get ''kind'' (target_value (LightTarget n)) = JStr (js ''light-point'')"
  "js_get ''lightPointId'' (target_value (LightTarget n)) = JNum n"
  "js_get ''kind'' (target_value (PointTarget CustomKind lat lon)) = JStr (js ''custom'')"
  "js_get ''latitude'' (target_value (PointTarget k lat lon)) = JNum lat"
  "js_get ''longitude'' (target_value (PointTarget k lat lon)) = JNum lon"
  "isRecord (target_value ti)"
  by (simp_all add: target_value_def js_get_def props_def js_eq kind_text_def isRecord_def split: history_target.splits)

lemma target_has_kind [simp]: "has_own ''kind'' (target_value ti)"
  by (cases ti) (simp_all add: target_value_def has_own_def props_def)

lemma kind_of_texts [simp]:
  "kind_of (JStr (js ''light-point'')) = Some LightPointKind" "kind_of (JStr (js ''custom'')) = Some CustomKind"
  by (simp_all add: kind_of_def js_eq)

lemma demo_coordinates: "valid_coordinates (Fin 48) (Fin 17)"
  by (simp add: valid_coordinates_def in_range_def)

lemma point_stored:
  "report_stored demo_report_env (demo_times 0) point_input None (empty_system demo_no_lights)
     (Located \<lparr>t_kind = CustomKind, t_latitude = Fin 48, t_longitude = Fin 17, t_light = None\<rparr>) point_row empty_email_db"
proof (rule report_stored.intros [where ti = "PointTarget CustomKind (Fin 48) (Fin 17)" and summary = no_summary
    and nt = "PointTarget CustomKind (Fin 48) (Fin 17)"])
  have a: "automatic_address point_input = Some (js ''A 1'')"
    using demo_proof_valid(3) by (simp add: automatic_address_def point_input_def)
  have "\<not> list_ex control_unit (js ''A 1'')" by (simp add: js_def control_unit_def)
  then show "validateSubmission demo_report_env point_input = None"
    using a demo_proof_valid(2)
    by (simp add: validateSubmission_def) (simp add: point_input_def demo_report_env_def code_accepted_def address_text_ok_def proof_text_ok_def point_target_def)
  show "check_address_proof demo_report_env point_input
      (Located \<lparr>t_kind = CustomKind, t_latitude = Fin 48, t_longitude = Fin 17, t_light = None\<rparr>) = Inr ()"
    using demo_proof_valid(1) by (simp add: check_address_proof_def a is_point_def kind_text_def)
      (simp add: point_input_def demo_report_env_def is_point_def kind_text_def)
  have "length (code_points (js ''Sever'')) \<le> 100" using code_points_length [of "js ''Sever''"] by simp
  then show "history_row_ok point_row"
    by (simp add: history_row_ok_def point_row_def too_long_def demo_coordinates)
  show "resolve_target demo_report_env (demo_times 0) (sb_lights (empty_system demo_no_lights)) (PointTarget CustomKind (Fin 48) (Fin 17)) =
      Inr (Located \<lparr>t_kind = CustomKind, t_latitude = Fin 48, t_longitude = Fin 17, t_light = None\<rparr>)"
    by (simp add: resolve_target_def resolveAndValidateReportTarget_def resolve_kind_def demo_coordinates)
       (simp add: demo_report_env_def)
qed (simp_all add: point_input_def point_target_def parseTarget_def address_misplaced_def attempt_of_def authorized_by_def
      empty_system_def target_summary_def note_target_def is_point_def history_row_of_def point_row_def demo_times_def
      target_row_kind_def target_light_def target_geom_def buildAutomaticFaultNotes_def)

section \<open>A report about a light point that was reported before\<close>

definition light_input :: submission_input where
  "light_input = point_input\<lparr>si_address := JUndefined, si_proof := JUndefined, si_target := target_value (LightTarget (Fin 7))\<rparr>"

definition light_database :: "email_db submission_db" where
  "light_database = (empty_system
       \<lparr>lights = [\<lparr>lp_id = 7, lp_inventory = [], lp_latitude = Fin 48, lp_longitude = Fin 17, lp_address = None,
          lp_geocoded_at = None, lp_updated_at = 0\<rparr>], audits = []\<rparr>)
     \<lparr>sb_history := [point_row\<lparr>h_kind := LightPointKind, h_light := Some 7\<rparr>], sb_next := 2\<rparr>"

definition light_row :: history_row where
  "light_row = \<lparr>h_id = 2, h_submitted = 3600000000, h_locality = js ''Sever'', h_block = None, h_fault = None,
     h_kind = LightPointKind, h_light = Some 7, h_geom = Some (Fin 48, Fin 17),
     h_notes = [previous_note demo_report_env (Fin 7) 0]\<rparr>"

lemma light_summary:
  "fault_history_summary 7 3600000000 (sb_history light_database) =
     \<lparr>fs_recent = 1, fs_recurring = 1, fs_latest = Some 0, fs_within = Some True\<rparr>"
  by (simp add: fault_history_summary_def light_database_def point_row_def earlier_reports_def hours_def interval_defs Let_def)

lemma light_stored:
  "report_stored demo_report_env (demo_times 3600000000) light_input None light_database
     (Located \<lparr>t_kind = LightPointKind, t_latitude = Fin 48, t_longitude = Fin 17, t_light = Some 7\<rparr>) light_row empty_email_db"
proof (rule report_stored.intros [where ti = "LightTarget (Fin 7)" and nt = "LightTarget (Fin 7)"
    and summary = "\<lparr>fs_recent = 1, fs_recurring = 1, fs_latest = Some 0, fs_within = Some True\<rparr>"])
  show "validateSubmission demo_report_env light_input = None"
    by (simp add: validateSubmission_def light_input_def point_input_def demo_report_env_def code_accepted_def address_text_ok_def
        proof_text_ok_def automatic_address_def)
  show "check_address_proof demo_report_env light_input
      (Located \<lparr>t_kind = LightPointKind, t_latitude = Fin 48, t_longitude = Fin 17, t_light = Some 7\<rparr>) = Inr ()"
    by (simp add: check_address_proof_def automatic_address_def light_input_def)
  have "length (code_points (js ''Sever'')) \<le> 100" using code_points_length [of "js ''Sever''"] by simp
  then show "history_row_ok light_row" by (simp add: history_row_ok_def light_row_def too_long_def demo_coordinates)
  have "safe_integer (Fin 7) = Some 7" by (simp add: safe_integer_def rat_is_int_def)
  then show "resolve_target demo_report_env (demo_times 3600000000) (sb_lights light_database) (LightTarget (Fin 7)) =
      Inr (Located \<lparr>t_kind = LightPointKind, t_latitude = Fin 48, t_longitude = Fin 17, t_light = Some 7\<rparr>)"
    by (simp add: resolve_target_def resolveAndValidateReportTarget_def resolve_kind_def demo_coordinates locked_coordinates_def
        demo_times_def int4_max_def findCoordinates_def light_by_id_def light_database_def empty_system_def)
       (simp add: demo_report_env_def)
  show "target_summary (demo_times 3600000000) (ha_clock (demo_times 3600000000) 5)
      (Located \<lparr>t_kind = LightPointKind, t_latitude = Fin 48, t_longitude = Fin 17, t_light = Some 7\<rparr>) (sb_history light_database) =
      Inr \<lparr>fs_recent = 1, fs_recurring = 1, fs_latest = Some 0, fs_within = Some True\<rparr>"
    by (simp add: target_summary_def light_summary demo_times_def statement_def)
qed (simp_all add: light_input_def point_input_def parseTarget_def address_misplaced_def attempt_of_def authorized_by_def
      light_database_def empty_system_def note_target_def history_row_of_def light_row_def point_row_def demo_times_def
      target_row_kind_def target_light_def target_geom_def buildAutomaticFaultNotes_def threshold_defs within_previous_days_def)

end
