(* ===== verification/SubmissionProperties.thy ===== *)
theory SubmissionProperties
  imports SubmissionExamples
begin

text \<open>
  The properties of report submission: over runs of the system of endpoint, e-mail store, cleanup and
  inventory from the empty database, and over single requests.
\<close>

section \<open>Reports and verified addresses\<close>

text \<open>The e-mail address, intent and token that a request presented, as digests.\<close>

definition presented :: "email_crypto \<Rightarrow> email_db submit_settings \<Rightarrow> submit_request \<Rightarrow> (jsstring \<times> buffer \<times> buffer) option" where
  "presented c s req =
     (let fs = submitted_fields s req in
      case (form_field ''email'' fs, form_field ''emailVerificationIntentId'' fs, form_field ''emailVerificationToken'' fs) of
        (Some email, Some iid, Some token) \<Rightarrow>
          (let em = emailDigest (c_hmac c) (c_lower c) (c_key c) email in
           Some (iid, em, verificationTokenDigest (c_hmac c) (c_key c) iid em token))
      | _ \<Rightarrow> None)"

lemma stored_request:
  assumes v: "ss_verification s = Some (postgres_store, c)" and st: "system_step s db (SubmitEvent a req) = (db', Answered answer (Some row))"
  shows "presented c s req \<noteq> None \<and>
    (\<forall>iid em tok. presented c s req = Some (iid, em, tok) \<longrightarrow>
       consumption c a (submitted_fields s req) = Consume (ha_clock a 11) iid em tok)"
proof -
  have l: "local_submit s a req db = (db', answer)" and r: "stored_row db db' = Some row" using st by (auto split: prod.splits)
  show ?thesis
  proof (rule submit_row [OF l])
    assume "stored_row db db' = None" then show ?thesis using r by simp
  next
    fix fs draft inp target r' e
    assume "prepare_submission s req = Inr (fs, draft, inp)"
      "report_stored (ss_env s) a inp (submission_authorization a (ss_verification s) fs) db target r' e"
    then have "authorized_by (submission_authorization a (Some (postgres_store, c)) (submitted_fields s req)) (sb_email db) e"
      using v by (auto elim!: report_storedE simp: submitted_fields_def)
    from authorized_consumption [OF this] show ?thesis
      by (auto simp: presented_def consumption_def Let_def)
  qed
qed

text \<open>
  C1. A report is stored only for a verified e-mail address: in every run of the system, when a request
  stores a row, the address, intent and token it presented belong to a code that was sent for that
  intent and address and entered before, with exactly that token as its result.
\<close>

theorem report_needs_verified_email:
  assumes "ss_verification s = Some (postgres_store, c)"
    and "run_log (system_step s) (empty_system ldb) evs = (h1 @ (SubmitEvent a req, Answered answer (Some row)) # h2, db)"
  shows "\<exists>iid em tok. presented c s req = Some (iid, em, tok) \<and> authorised (sql_uuid iid) em tok (email_trace c s h1)"
proof -
  from run_log_split [OF assms(2)] obtain s1 s2 where "system_step s s1 (SubmitEvent a req) = (s2, Answered answer (Some row))"
    by blast
  from stored_request [OF assms(1) this] obtain iid em tok where p: "presented c s req = Some (iid, em, tok)"
    and k: "consumption c a (submitted_fields s req) = Consume (ha_clock a 11) iid em tok" by auto
  from run_traced [OF assms] obtain es where
    "run_log store_step empty_email_db es = (email_trace c s h1 @ (Consume (ha_clock a 11) iid em tok, ConsumeOut True) # email_trace c s h2, sb_email db)"
    by (auto simp: email_traced_def email_trace_def k)
  from run_auth [OF this] p show ?thesis by (auto simp: auth_inv_def consumed_ok_def)
qed

theorem report_needs_verified_email_witness:
  "\<exists>h1 iid em tok. presented demo_crypto demo_settings demo_request = Some (iid, em, tok) \<and>
    authorised (sql_uuid iid) em tok (email_trace demo_crypto demo_settings h1)"
proof -
  obtain h1 answer answer' stored' db where "run_log (system_step demo_settings) (empty_system demo_no_lights)
      (map EmailEvent demo_verification @ [SubmitEvent (demo_times 2000000) demo_request, SubmitEvent (demo_times 3000000) demo_request]) =
    (h1 @ (SubmitEvent (demo_times 2000000) demo_request, Answered answer (Some demo_row)) #
       [] @ (SubmitEvent (demo_times 3000000) demo_request, Answered answer' stored') # [], db)" using demo_report_run by blast
  from report_needs_verified_email [OF demo_settings_fields(2) this] show ?thesis by blast
qed

text \<open>Reports counted by the intent that verified them, and challenges created for an intent.\<close>

definition reports_with :: "email_crypto \<Rightarrow> email_db submit_settings \<Rightarrow> jsstring \<Rightarrow> system_event \<times> system_outcome \<Rightarrow> bool" where
  "reports_with c s k x =
     (case x of
        (SubmitEvent a req, Answered answer (Some row)) \<Rightarrow>
          (case presented c s req of Some (iid, em, tok) \<Rightarrow> sql_uuid iid = k | None \<Rightarrow> False)
      | _ \<Rightarrow> False)"

definition created_with :: "jsstring \<Rightarrow> system_event \<times> system_outcome \<Rightarrow> bool" where
  "created_with k x = (case x of (EmailEvent e, EmailOutcome out) \<Rightarrow> is_created k (e, out) | _ \<Rightarrow> False)"

lemma trace_created: "count (is_created k) (email_trace c s hist) = count (created_with k) hist"
proof (induction hist)
  case (Cons x hist)
  have "count (is_created k) (email_part c s x) = (if created_with k x then 1 else 0)"
    by (cases "(c, s, x)" rule: email_part.cases) (auto simp: count_def created_with_def consumption_def Let_def split: system_event.splits)
  then show ?case using Cons by (simp add: email_trace_def count_def)
qed (simp add: email_trace_def count_def)

lemma count_Cons: "count p (x # xs) = (if p x then 1 else 0) + count p xs"
  by (simp add: count_def)

lemma count_append: "count p (xs @ ys) = count p xs + count p ys"
  by (simp add: count_def)

lemma reports_counted:
  assumes "ss_verification s = Some (postgres_store, c)" and "run_log (system_step s) (empty_system ldb) evs = (hist, db)"
  shows "count (reports_with c s k) hist \<le> count (is_consumed k) (email_trace c s hist)"
proof -
  have stored: "consumption c a (submitted_fields s req) = Consume (ha_clock a 11) iid em tok"
    if "(SubmitEvent a req, Answered answer (Some row)) \<in> set hist" "presented c s req = Some (iid, em, tok)"
    for a req answer row iid em tok
  proof -
    from that(1) obtain h1 h2 where "hist = h1 @ (SubmitEvent a req, Answered answer (Some row)) # h2"
      by (meson split_list)
    from run_log_split [OF assms(2) [unfolded this]] obtain s1 s2 where
      "system_step s s1 (SubmitEvent a req) = (s2, Answered answer (Some row))" by blast
    from stored_request [OF assms(1) this] that(2) show ?thesis by simp
  qed
  have "count (reports_with c s k) xs \<le> count (is_consumed k) (email_trace c s xs)" if "set xs \<subseteq> set hist" for xs
    using that
  proof (induction xs)
    case (Cons x xs)
    have "(if reports_with c s k x then 1 else 0) \<le> count (is_consumed k) (email_part c s x)"
      using Cons.prems stored
      by (cases "(c, s, x)" rule: email_part.cases)
         (auto simp: count_def reports_with_def split: option.splits system_event.splits)
    moreover have "email_trace c s (x # xs) = email_part c s x @ email_trace c s xs" by (simp add: email_trace_def)
    ultimately show ?case using Cons by (simp add: count_Cons count_append)
  qed (simp add: count_def)
  then show ?thesis by simp
qed

text \<open>
  C2. One verification pays for one report: in every run, the reports stored with an intent are at most
  as many as the challenges that were created for it, however submissions, retries, the e-mail
  endpoints and lost answers interleave.
\<close>

theorem one_verification_one_report:
  assumes "ss_verification s = Some (postgres_store, c)" and "run_log (system_step s) (empty_system ldb) evs = (hist, db)"
  shows "count (reports_with c s k) hist \<le> count (created_with k) hist"
proof -
  from run_traced [OF assms] obtain es where es: "run_log store_step empty_email_db es = (email_trace c s hist, sb_email db)"
    by (auto simp: email_traced_def)
  have b: "budget_inv k (email_trace c s hist) (challenges (sb_email db))" by (rule run_budget [OF es])
  then have "0 \<le> weight (consumes_left k) (challenges (sb_email db))"
    by (intro weight_nonneg left_nonneg) (simp add: budget_inv_def)
  then have "count (is_consumed k) (email_trace c s hist) \<le> count (is_created k) (email_trace c s hist)"
    using b by (simp add: budget_inv_def)
  then show ?thesis using reports_counted [OF assms, of k] by (simp add: trace_created)
qed

theorem one_verification_one_report_witness:
  "\<exists>hist. count (reports_with demo_crypto demo_settings (sql_uuid demo_uuid)) hist \<le> count (created_with (sql_uuid demo_uuid)) hist \<and>
     (SubmitEvent (demo_times 2000000) demo_request) \<in> fst ` set hist"
proof -
  obtain h1 answer answer' stored' db where "run_log (system_step demo_settings) (empty_system demo_no_lights)
      (map EmailEvent demo_verification @ [SubmitEvent (demo_times 2000000) demo_request, SubmitEvent (demo_times 3000000) demo_request]) =
    (h1 @ (SubmitEvent (demo_times 2000000) demo_request, Answered answer (Some demo_row)) #
       [] @ (SubmitEvent (demo_times 3000000) demo_request, Answered answer' stored') # [], db)" using demo_report_run by blast
  from one_verification_one_report [OF demo_settings_fields(2) this] show ?thesis by (intro exI conjI) (assumption, simp)
qed

section \<open>Retries\<close>

lemma answer_refused:
  "status (submission_answer p draft fs (Inl err)) = (case err of HistoryInputError e \<Rightarrow> 400 | TargetRefused st code \<Rightarrow> st | HistoryFailed \<Rightarrow> 503)"
  by (auto simp: submission_answer_def submit_error_def SUBMISSION_UNAVAILABLE_def split: submission_error.splits)

lemma refused_status:
  assumes "recordSubmission env a inp auth db = (db', Inl err)"
  shows "status (submission_answer p draft fs (Inl err)) \<in> {400, 404, 422, 503}"
proof (cases err)
  case (TargetRefused st code)
  then show ?thesis using submission_status [OF assms [unfolded TargetRefused]] by (simp add: answer_refused target_statuses_def)
qed (simp_all add: answer_refused)

lemma answer_duplicate:
  "submission_answer p draft fs (Inr (duplicate_of x row)) = submission_success p draft fs (duplicate_of x row)"
  "status (submission_success p draft fs r) = 200"
  by (simp_all add: submission_answer_def duplicate_of_def submission_success_def)

text \<open>A request whose row was stored, followed by a run and a second request of the same attempt.\<close>

lemma retry_state:
  assumes p: "prepare_submission s req = Inr (fs, draft, inp)" and x: "attempt_of inp = Some x"
    and run: "run_log (system_step s) (empty_system ldb) evs =
      (h1 @ (SubmitEvent a req, Answered answer (Some row)) # h2 @ (SubmitEvent a' req', Answered answer' stored') # h3, db)"
    and before: "list_all (event_before (receipt_end (ha_clock a 8))) (map fst h2)"
  obtains d d' where "history_wf d" "receipted x row (receipt_end (ha_clock a 8)) d"
    "local_submit s a' req' d = (d', answer')" "stored' = stored_row d d'"
    "\<exists>t r e d0. report_stored (ss_env s) a inp (submission_authorization a (ss_verification s) fs) d0 t r e"
proof -
  let ?e = "receipt_end (ha_clock a 8)"
  from run_log_split [OF run] obtain s1 s2 where r1: "run_log (system_step s) (empty_system ldb) (map fst h1) = (h1, s1)"
    "system_step s s1 (SubmitEvent a req) = (s2, Answered answer (Some row))"
    "run_log (system_step s) s2 (map fst (h2 @ (SubmitEvent a' req', Answered answer' stored') # h3)) =
      (h2 @ (SubmitEvent a' req', Answered answer' stored') # h3, db)" by blast
  from run_log_split [OF r1(3)] obtain s3 s4 where r2: "run_log (system_step s) s2 (map fst h2) = (h2, s3)"
    "system_step s s3 (SubmitEvent a' req') = (s4, Answered answer' stored')" by blast
  have wf: "history_wf s1" by (rule run_tables [OF r1(1)])
  then have wf3: "history_wf s3" using system_step_wf [OF wf r1(2)] run_keeps_wf [OF r2(1)] by blast
  from r1(2) have l: "local_submit s a req s1 = (s2, answer)" "stored_row s1 s2 = Some row" by (auto split: prod.splits)
  have st: "receipted x row ?e s2 \<and>
      (\<exists>t r e d0. report_stored (ss_env s) a inp (submission_authorization a (ss_verification s) fs) d0 t r e)"
    by (rule submit_row [OF l(1)]) (use l(2) p x in \<open>auto dest: stored_receipted [OF _ x]\<close>)
  have "receipted x row ?e s3" using run_keeps_receipt [OF r2(1) _ before] st by blast
  moreover from r2(2) have "local_submit s a' req' s3 = (s4, answer')" "stored' = stored_row s3 s4" by (auto split: prod.splits)
  ultimately show thesis using that [OF wf3] st by blast
qed

text \<open>
  C3. A request that is sent again is recorded once: after a request stored a row, even when its answer
  was lost, another request of the same attempt (in any letter case) stores nothing while every clock
  reading up to it is within the thirty days of the receipt.  It is answered 200 only as a duplicate
  with the receipt of the stored row, and it is answered so whenever it carries the same submission and no statement fails.
\<close>

theorem retried_request_recorded_once:
  assumes "run_log (system_step s) (empty_system ldb) evs =
      (h1 @ (SubmitEvent a req, Answered answer (Some row)) # h2 @ (SubmitEvent a' req', Answered answer' stored') # h3, db)"
    and "prepare_submission s req = Inr (fs, draft, inp)" and "prepare_submission s req' = Inr (fs', draft', inp')"
    and "attempt_of inp = Some x" and "attempt_of inp' = Some x"
    and "list_all (event_before (receipt_end (ha_clock a 8))) (map fst h2 @ [SubmitEvent a' req'])"
  shows "stored' = None \<and> (status answer' = 200 \<longrightarrow> answer' = submission_success (ss_production s) draft' fs' (duplicate_of x row)) \<and>
    (inp' = inp \<longrightarrow> (\<forall>i. \<not> ha_fails a' i) \<longrightarrow> status answer' = 200)"
proof -
  from assms(6) have bef: "list_all (event_before (receipt_end (ha_clock a 8))) (map fst h2)"
    and clk: "ha_clock a' i < receipt_end (ha_clock a 8)" for i by auto
  from retry_state [OF assms(2,4,1) bef] obtain d d' where d: "history_wf d" "receipted x row (receipt_end (ha_clock a 8)) d"
    "local_submit s a' req' d = (d', answer')" "stored' = stored_row d d'"
    and st: "\<exists>t r e d0. report_stored (ss_env s) a inp (submission_authorization a (ss_verification s) fs) d0 t r e" by blast
  obtain out where r: "recordSubmission (ss_env s) a' inp' (submission_authorization a' (ss_verification s) fs') d = (d', out)"
    "answer' = submission_answer (ss_production s) draft' fs' out"
    using d(3) assms(3) by (auto simp: local_submit_def map_prod_def split: prod.splits)
  have o: "d' = d \<and> ((\<exists>err. out = Inl err) \<or> out = Inr (duplicate_of x row))"
    by (rule submission_again [OF r(1) d(1,2) assms(5) clk])
  have "out = Inr (duplicate_of x row)" if same: "inp' = inp" and nf: "\<And>i. \<not> ha_fails a' i"
  proof -
    from st obtain ti where "validateSubmission (ss_env s) inp' = None" "parseTarget (si_target inp') = Some ti"
      "\<not> address_misplaced inp' ti" using same by (auto elim!: report_storedE)
    from submission_again_answered [OF d(1,2) assms(5) clk nf this] show ?thesis using r(1) by simp
  qed
  moreover have "status answer' \<noteq> 200" if "out = Inl err" for err
    using refused_status [OF r(1) [unfolded that], of "ss_production s" draft' fs'] r(2) that by auto
  ultimately show ?thesis using o d(4) r(2) by (auto simp: stored_row_def answer_duplicate)
qed

theorem retried_request_recorded_once_witness:
  "\<exists>evs h db answer'. run_log (system_step demo_settings) (empty_system demo_no_lights) evs =
      (h @ [(SubmitEvent (demo_times 3000000) demo_request, Answered answer' None)], db) \<and> status answer' = 200 \<and>
    answer' = submission_success (ss_production demo_settings) demo_draft demo_fields (duplicate_of (lower_ascii demo_uuid) demo_row)"
proof -
  obtain h1 answer answer' stored' db where run: "run_log (system_step demo_settings) (empty_system demo_no_lights)
      (map EmailEvent demo_verification @ [SubmitEvent (demo_times 2000000) demo_request, SubmitEvent (demo_times 3000000) demo_request]) =
    (h1 @ (SubmitEvent (demo_times 2000000) demo_request, Answered answer (Some demo_row)) #
       [] @ (SubmitEvent (demo_times 3000000) demo_request, Answered answer' stored') # [], db)" using demo_report_run by blast
  have p: "prepare_submission demo_settings demo_request = Inr (demo_fields, demo_draft, demo_input)"
    by (simp add: demo_prepared demo_input_def)
  have t: "list_all (event_before (receipt_end (ha_clock (demo_times 2000000) 8)))
      (map fst [] @ [SubmitEvent (demo_times 3000000) demo_request])"
    by (simp add: demo_times_def receipt_end_def RECEIPT_DAYS_def hours_def interval_defs)
  have "\<not> ha_fails (demo_times 3000000) i" for i by (simp add: demo_times_def)
  then have "stored' = None \<and> status answer' = 200 \<and>
      answer' = submission_success (ss_production demo_settings) demo_draft demo_fields (duplicate_of (lower_ascii demo_uuid) demo_row)"
    using retried_request_recorded_once [OF run p p demo_input_fields(10) demo_input_fields(10) t] by blast
  then show ?thesis using run
    by (intro exI [of _ "map EmailEvent demo_verification @ [SubmitEvent (demo_times 2000000) demo_request,
        SubmitEvent (demo_times 3000000) demo_request]"]
      exI [of _ "h1 @ [(SubmitEvent (demo_times 2000000) demo_request, Answered answer (Some demo_row))]"]
      exI [of _ db] exI [of _ answer']) (simp add: answer_duplicate(2))
qed

section \<open>The effect of a request\<close>

lemma upload_refused_status: "status (upload_refused e) \<in> {400, 413}"
  by (simp add: upload_refused_def submit_error_def Let_def)

lemma early_status: "prepare_submission s req = Inl answer \<Longrightarrow> status answer \<in> {400, 413, 503}"
  using upload_refused_status
  by (auto simp: prepare_submission_def invalid_payload_def submit_error_def SUBMISSION_UNAVAILABLE_def
      split: sum.splits option.splits prod.splits if_splits)

lemma recorded_answer:
  "submission_answer p draft fs (Inr (recorded x row op)) = submission_success p draft fs (recorded x row op)"
  by (simp add: submission_answer_def recorded_def)

text \<open>
  C4. Every request is answered with one of seven statuses, and takes effect as a whole or not at all:
  either it leaves the database as it was, with 200 only for a duplicate, or it adds exactly one row
  and consumes the presented verification in the same transaction, and is answered 200, or 503 when
  the answer of the commit was lost.
\<close>

theorem request_effect:
  assumes "local_submit s a req db = (db', answer)"
  shows "status answer \<in> {200, 400, 403, 404, 413, 422, 503} \<and>
    (case stored_row db db' of
       None \<Rightarrow> db' = db \<and> (status answer = 200 \<longrightarrow> js_get ''duplicate'' (body answer) = JBool True)
     | Some row \<Rightarrow>
         sb_history db' = sb_history db @ [row] \<and> sb_lights db' = sb_lights db \<and>
         authorized_by (submission_authorization a (ss_verification s) (submitted_fields s req)) (sb_email db) (sb_email db') \<and>
         (status answer = 200 \<and> js_get ''duplicate'' (body answer) = JBool False \<or> status answer = 503))"
proof (rule submit_cases [OF assms])
  assume p: "prepare_submission s req = Inl answer" and same: "db' = db"
  have "status answer \<in> {400, 413, 503}" by (rule early_status [OF p])
  then show ?thesis using same by (auto simp: stored_row_def)
next
  fix fs draft inp out
  assume p: "prepare_submission s req = Inr (fs, draft, inp)"
    and r: "recordSubmission (ss_env s) a inp (submission_authorization a (ss_verification s) fs) db = (db', out)"
    and ans: "answer = submission_answer (ss_production s) draft fs out"
  have dup: "js_get ''duplicate'' (body (submission_success (ss_production s) draft fs hr)) = JBool (hr_duplicate hr)" for hr
    by (simp add: submission_success_def js_get_def props_def js_def)
  show ?thesis
  proof (rule submission_cases [OF r])
    fix e assume o: "db' = db" "out = Inl e"
    then show ?thesis using refused_status [OF r [unfolded o(2)], of "ss_production s" draft fs] ans by (auto simp: stored_row_def)
  next
    fix x h assume "db' = db" "out = Inr (duplicate_of x h)"
    then show ?thesis using ans by (simp add: stored_row_def answer_duplicate dup) (simp add: duplicate_of_def)
  next
    fix f e assume "db' = db" "out = Inr unauthorized"
    then show ?thesis using ans by (simp add: stored_row_def submission_answer_def unauthorized_def submit_error_def)
  next
    fix target row e
    assume st: "report_stored (ss_env s) a inp (submission_authorization a (ss_verification s) fs) db target row e"
      and db': "db' = after_report a (attempt_of inp) row e db"
      and o: "out = Inl HistoryFailed \<or> out = Inr (recorded (attempt_of inp) row (operator_report inp target (h_notes row)))"
    have au: "authorized_by (submission_authorization a (ss_verification s) (submitted_fields s req)) (sb_email db) e"
      using st p by (auto elim!: report_storedE simp: submitted_fields_def)
    have "status answer = 200 \<and> js_get ''duplicate'' (body answer) = JBool False \<or> status answer = 503"
      using o ans by (auto simp: recorded_answer dup answer_duplicate answer_refused) (simp add: recorded_def)
    moreover have "stored_row db db' = Some row" by (simp add: stored_row_def db' after_report_def)
    ultimately show ?thesis using au by (auto simp: db' after_report_def)
  qed
qed

theorem request_effect_witness:
  "\<exists>db db' answer. local_submit demo_settings (demo_times 2000000) demo_request db = (db', answer) \<and>
    stored_row db db' = Some demo_row \<and> sb_history db' = sb_history db @ [demo_row] \<and> status answer \<in> {200, 503}"
proof -
  obtain h1 answer answer' stored' db where "run_log (system_step demo_settings) (empty_system demo_no_lights)
      (map EmailEvent demo_verification @ [SubmitEvent (demo_times 2000000) demo_request, SubmitEvent (demo_times 3000000) demo_request]) =
    (h1 @ (SubmitEvent (demo_times 2000000) demo_request, Answered answer (Some demo_row)) #
       [] @ (SubmitEvent (demo_times 3000000) demo_request, Answered answer' stored') # [], db)" using demo_report_run by blast
  from run_log_split [OF this] obtain s1 s2 where
    "system_step demo_settings s1 (SubmitEvent (demo_times 2000000) demo_request) = (s2, Answered answer (Some demo_row))" by blast
  then have l: "local_submit demo_settings (demo_times 2000000) demo_request s1 = (s2, answer)" "stored_row s1 s2 = Some demo_row"
    by (auto split: prod.splits)
  from request_effect [OF l(1)] l(2) have "sb_history s2 = sb_history s1 @ [demo_row]" "status answer \<in> {200, 503}" by auto
  then show ?thesis using l by blast
qed

section \<open>The tables of a run\<close>

definition stored_by :: "system_event \<times> system_outcome \<Rightarrow> history_row list" where
  "stored_by x = (case snd x of Answered answer (Some row) \<Rightarrow> [row] | _ \<Rightarrow> [])"

text \<open>
  C5. In every run the tables keep the constraints of the migrations (one row per id, the checks on codes,
  target and position, one receipt per attempt and per row, each for an existing row and thirty days),
  and the history is exactly what the requests stored, in that order.
\<close>

theorem report_tables_sound:
  "history_wf (snd (run_log (system_step s) (empty_system ldb) evs)) \<and>
    sb_history (snd (run_log (system_step s) (empty_system ldb) evs)) =
      concat (map stored_by (fst (run_log (system_step s) (empty_system ldb) evs)))"
proof -
  have "sb_history t = sb_history u @ concat (map stored_by h)" if "run_log (system_step s) u es = (h, t)" for u t es h
    using that
  proof (induction es arbitrary: u h)
    case (Cons ev es)
    obtain v out where st: "system_step s u ev = (v, out)" by force
    obtain h' where rn: "run_log (system_step s) v es = (h', t)" and h: "h = (ev, out) # h'"
      using Cons.prems st by (auto simp: Let_def split: prod.splits)
    have "sb_history v = sb_history u @ stored_by (ev, out)"
    proof (cases ev)
      case (SubmitEvent a req)
      then obtain answer where l: "local_submit s a req u = (v, answer)" "out = Answered answer (stored_row u v)"
        using st by (auto split: prod.splits)
      show ?thesis by (rule submit_row [OF l(1)]) (use l(2) in \<open>auto simp: stored_by_def after_report_def\<close>)
    qed (use st in \<open>auto simp: stored_by_def cleanupExpiredSubmissionAttempts_def split: prod.splits option.splits if_splits\<close>)
    then show ?case using Cons.IH [OF rn] h by simp
  qed simp
  moreover obtain hist db where r: "run_log (system_step s) (empty_system ldb) evs = (hist, db)" by force
  ultimately have "sb_history db = sb_history (empty_system ldb) @ concat (map stored_by hist)" by blast
  then show ?thesis using run_tables [OF r] r by (simp add: empty_system_def)
qed

section \<open>Single submissions\<close>

lemma recorded_row:
  assumes "recordSubmission env a inp auth db = (db', out)" and "sb_history db' = sb_history db @ [row]"
  obtains target e where "report_stored env a inp auth db target row e"
proof (rule submission_cases [OF assms(1)])
  fix target row' e
  assume "report_stored env a inp auth db target row' e" "db' = after_report a (attempt_of inp) row' e db"
  moreover from this have "row' = row" using assms(2) by (simp add: after_report_def)
  ultimately show thesis using that by blast
qed (use assms(2) in simp_all)

text \<open>
  C6. The operator is told about earlier reports exactly when there are enough: a recorded row has at
  most one note, and it has one exactly when it is about a light point that had at least five rows in
  the thirty days before or at least one in the seven days before.
\<close>

theorem recurrence_noted:
  assumes "recordSubmission env a inp auth db = (db', out)" and "sb_history db' = sb_history db @ [row]"
  shows "length (h_notes row) \<le> 1 \<and>
    (h_notes row \<noteq> [] \<longleftrightarrow> (\<exists>i. h_light row = Some i \<and>
       (5 \<le> length (earlier_reports i (h_submitted row) (24 * recurringDays) (sb_history db)) \<or>
        earlier_reports i (h_submitted row) (24 * previousDays) (sb_history db) \<noteq> [])))"
proof -
  from recorded_row [OF assms] obtain target e where "report_stored env a inp auth db target row e" .
  from stored_notes [OF this] show ?thesis by (simp add: threshold_defs)
qed

theorem recurrence_noted_witness:
  "h_notes light_row \<noteq> [] \<and> (\<exists>i. h_light light_row = Some i \<and>
       (5 \<le> length (earlier_reports i (h_submitted light_row) (24 * recurringDays) (sb_history light_database)) \<or>
        earlier_reports i (h_submitted light_row) (24 * previousDays) (sb_history light_database) \<noteq> []))"
proof -
  have "\<not> ha_fails (demo_times 3600000000) i" for i by (simp add: demo_times_def)
  from stored_committed [OF light_stored this] obtain db' out where
    r: "recordSubmission demo_report_env (demo_times 3600000000) light_input None light_database = (db', out)"
      "sb_history db' = sb_history light_database @ [light_row]" by (auto simp: after_report_def)
  have "h_notes light_row \<noteq> []" by (simp add: light_row_def)
  then show ?thesis using recurrence_noted [OF r] by simp
qed

text \<open>
  C7. A recorded row is about a place inside the service area: the position of the row is valid and
  classified inside, that of a light point is the one in the inventory, and a report with an automatic
  address is about a custom or device point whose position the address was signed for.
\<close>

theorem recorded_place:
  assumes "recordSubmission env a inp auth db = (db', out)" and "sb_history db' = sb_history db @ [row]"
  shows "(\<forall>lat lon. h_geom row = Some (lat, lon) \<longrightarrow> se_classify env (point_value lat lon) = Inside \<and> valid_coordinates lat lon) \<and>
    (\<forall>i. h_light row = Some i \<longrightarrow> findCoordinates (sb_lights db) i = h_geom row) \<and>
    (\<forall>address. automatic_address inp = Some address \<longrightarrow>
       (\<exists>lat lon p. h_geom row = Some (lat, lon) \<and> is_point (h_kind row) \<and> si_proof inp = JStr p \<and>
          verifyReportAddressProof (se_proof env) address (kind_text (h_kind row)) lat lon p (se_secret env)))"
proof -
  from recorded_row [OF assms] obtain target e where "report_stored env a inp auth db target row e" .
  from stored_place [OF this] show ?thesis by blast
qed

theorem recorded_place_witness:
  "automatic_address point_input = Some (js ''A 1'') \<and> (\<exists>lat lon p. h_geom point_row = Some (lat, lon) \<and>
     verifyReportAddressProof (se_proof demo_report_env) (js ''A 1'') (kind_text (h_kind point_row)) lat lon p (se_secret demo_report_env))"
proof -
  have "\<not> ha_fails (demo_times 0) i" for i by (simp add: demo_times_def)
  from stored_committed [OF point_stored this] obtain db' out where
    r: "recordSubmission demo_report_env (demo_times 0) point_input None (empty_system demo_no_lights) = (db', out)"
      "sb_history db' = sb_history (empty_system demo_no_lights) @ [point_row]" by (auto simp: after_report_def)
  have "automatic_address point_input = Some (js ''A 1'')"
    using demo_proof_valid(3) by (simp add: automatic_address_def point_input_def)
  then show ?thesis using recorded_place [OF r] by blast
qed

section \<open>Uploads\<close>

text \<open>
  C8. Uploads stay within their limits: however the streams of all requests interleave, an accepted file is not larger
  than the limit and is reported with the size it had, the files of a tracked request of which none
  was refused together stay within the total, and the number of active requests is the number of
  tracked ones, so that it returns to zero.
\<close>

theorem uploads_bounded:
  "let st = snd (run_log (upload_step cap) empty_upload_storage evs) in
    us_active st = length (us_requests st) \<and>
    (\<forall>f \<in> set (us_files st). \<forall>n. uf_answer f = Some (Inr n) \<longrightarrow> n = uf_bytes f \<and> n \<le> maxFileBytes cap) \<and>
    (\<forall>p \<in> set (us_requests st). \<not> list_ex file_failed (files_of (snd p) st) \<longrightarrow>
       sum_list (map uf_bytes (files_of (snd p) st)) \<le> maxTotalUploadBytes cap)"
proof -
  have "upload_wf cap (snd (run_log (upload_step cap) empty_upload_storage evs))"
    by (rule upload_system.reachable_inv [OF upload_start_wf])
  then show ?thesis unfolding Let_def by (fastforce simp: upload_wf_def file_ok_def request_ok_def)
qed

theorem uploads_bounded_witness:
  "let st = snd (run_log (upload_step \<lparr>maxFileBytes = 3, maxFiles = 1, maxTotalUploadBytes = 4\<rparr>) empty_upload_storage
      [FileArrives 0, Data 0 2, StreamEnds 0]) in
    uf_answer (us_files st ! 0) = Some (Inr 2) \<and> (2 :: nat) \<le> 3"
proof -
  let ?st = "snd (run_log (upload_step \<lparr>maxFileBytes = 3, maxFiles = 1, maxTotalUploadBytes = 4\<rparr>) empty_upload_storage
      [FileArrives 0, Data 0 2, StreamEnds 0])"
  have f: "us_files ?st = [\<lparr>uf_state = 0, uf_bytes = 2, uf_answer = Some (Inr 2)\<rparr>]"
    by (simp add: handleFile_def requestState_def empty_upload_storage_def on_data_def on_end_def on_file_def answer_file_def Let_def)
  from uploads_bounded [of "\<lparr>maxFileBytes = 3, maxFiles = 1, maxTotalUploadBytes = 4\<rparr>" "[FileArrives 0, Data 0 2, StreamEnds 0]"]
  have "(2 :: nat) \<le> 3" unfolding Let_def f by simp
  then show ?thesis unfolding Let_def f by simp
qed

end
