(* ===== verification/ApiErrors.thy ===== *)
theory ApiErrors
  imports JsValue
begin

text \<open>
  What the administrator endpoints share: the answers of \<^verbatim>\<open>middleware/errorHandler.ts\<close>, and a
  database statement that may fail or lose its answer.
\<close>

section \<open>Answers\<close>

definition json_reply :: "nat \<Rightarrow> (string \<times> js_value) list \<Rightarrow> http_response" where
  "json_reply st kvs =
     \<lparr>status = st, no_store = False, retry_header = None, body = JObj (map (\<lambda>(k, v). (js k, v)) kvs)\<rparr>"

definition refusal :: "nat \<Rightarrow> string \<Rightarrow> http_response" where
  "refusal st message = json_reply st [(''success'', JBool False), (''message'', JStr (js message))]"

datatype api_error = AppError nat string | UploadError bool | InvalidJsonBody | OtherError

fun errorHandler :: "api_error \<Rightarrow> http_response" where
  "errorHandler (AppError st message) = refusal st (if 500 \<le> st then ''Internal server error'' else message)"
| "errorHandler (UploadError too_large) =
     (if too_large then refusal 413 ''Uploaded file exceeds the 16 MiB limit'' else refusal 400 ''Invalid import upload'')"
| "errorHandler InvalidJsonBody = refusal 400 ''Invalid request body''"
| "errorHandler OtherError = refusal 500 ''Internal server error''"

section \<open>Statements\<close>

text \<open>
  A statement or transaction runs, does not run, or takes effect although its answer is lost; on its own
  it may also be refused by the database, where \<open>sql\<close> has no result.
\<close>

datatype statement_fate = Executed | NotExecuted | AnswerLost

definition statement :: "statement_fate \<Rightarrow> ('db \<Rightarrow> 'db option) \<Rightarrow> 'db \<Rightarrow> 'db \<times> bool" where
  "statement fate sql db =
     (case (fate, sql db) of
        (NotExecuted, _) \<Rightarrow> (db, False)
      | (_, None) \<Rightarrow> (db, False)
      | (Executed, Some db') \<Rightarrow> (db', True)
      | (AnswerLost, Some db') \<Rightarrow> (db', False))"

lemma statement_cases:
  assumes "statement fate sql db = (db', b)"
  obtains (skipped) "db' = db" "\<not> b" "fate = NotExecuted \<or> sql db = None"
  | (ran) "sql db = Some db'" "fate \<noteq> NotExecuted" "b \<longleftrightarrow> fate = Executed"
  using assms by (auto simp: statement_def split: statement_fate.splits option.splits)

lemma statement_NotExecuted [simp]: "statement NotExecuted sql db = (db, False)"
  by (simp add: statement_def split: option.splits)

end
