(* ===== verification/AdminSessions.thy ===== *)
theory AdminSessions
  imports ApiErrors
begin

text \<open>
  The accounts and sessions of the administrators: \<^verbatim>\<open>services/auth.service.ts\<close>,
  \<^verbatim>\<open>controllers/auth.controller.ts\<close>, \<^verbatim>\<open>middleware/requireAdmin.ts\<close>,
  \<^verbatim>\<open>services/adminAccount.service.ts\<close> and \<^verbatim>\<open>services/bootstrapAdmin.service.ts\<close>, over the tables \<open>admins\<close>,
  \<open>admin_refresh_sessions\<close> and \<open>admin_activity_logs\<close>.

  The handlers send their statements one by one, without a transaction around them, so requests
  interleave between any two of them.  A request is an \<open>auth_phase\<close>: what it does up to its next
  statement has happened, and the phase holds the local variables it still needs.  \<open>auth_begin\<close> runs
  a handler up to its first statement, \<open>auth_step\<close> runs one statement and the code after it.  The two
  transactions that create administrators are one step each: the first holds an advisory lock, the
  second reads nothing before it writes.

  \<^verbatim>\<open>jsonwebtoken\<close>, \<^verbatim>\<open>bcrypt\<close>, SHA-256 and PostgreSQL's reading of a \<^verbatim>\<open>UUID\<close> are the
  parameters \<open>auth_env\<close>.
\<close>

section \<open>Tables\<close>

record admin_row =
  ar_id :: int
  ar_username :: jsstring
  ar_hash :: jsstring
  ar_full :: "jsstring option"
  ar_active :: bool

record session_row =
  sn_id :: jsstring
  sn_admin :: int
  sn_hash :: jsstring
  sn_expires :: int
  sn_revoked :: "int option"

record activity_row =
  av_admin :: "int option"
  av_action :: string
  av_entity :: "(string \<times> int) option"
  av_details :: js_value
  av_actor :: "jsstring option"
  av_created :: int

record admin_db =
  ad_admins :: "admin_row list"
  ad_next :: int
  ad_sessions :: "session_row list"
  ad_activity :: "activity_row list"

record admin_user =
  us_id :: int
  us_name :: jsstring
  us_full :: "jsstring option"

record jwt_payload =
  jp_sub :: int
  jp_username :: jsstring
  jp_type :: jsstring
  jp_jti :: "jsstring option"

record auth_env =
  ae_sign :: "jwt_payload \<Rightarrow> int \<Rightarrow> int \<Rightarrow> jsstring"
  ae_verify :: "int \<Rightarrow> jsstring \<Rightarrow> jwt_payload option"
  ae_sha :: "jsstring \<Rightarrow> jsstring"
  ae_compare :: "jsstring \<Rightarrow> jsstring \<Rightarrow> bool option"
  ae_hash :: "jsstring \<Rightarrow> jsstring \<Rightarrow> jsstring option"
  ae_uuid :: "jsstring \<Rightarrow> jsstring option"

text \<open>
  What happens around a statement: the clock of the process, the clock of the database, the random
  values, whether a connection is to be had, whether the statement runs (\<open>AnswerLost\<close>: it took effect
  and its answer was lost), and how many identity values others have drawn.
\<close>

record auth_ambient =
  am_now :: int
  am_sql_now :: int
  am_uuid :: jsstring
  am_salt :: jsstring
  am_connects :: bool
  am_fate :: statement_fate
  am_gap :: nat

section \<open>Answers\<close>

datatype cookie_change = KeepCookies | SetCookies jsstring jsstring | ClearCookies

record auth_reply =
  ry_response :: http_response
  ry_cookies :: cookie_change

definition user_json :: "admin_user \<Rightarrow> js_value" where
  "user_json u =
     JObj [(js ''id'', jnat (us_id u)), (js ''username'', JStr (us_name u)),
       (js ''fullName'', case us_full u of None \<Rightarrow> JNull | Some s \<Rightarrow> JStr s)]"

definition user_reply :: "admin_user \<Rightarrow> http_response" where
  "user_reply u = json_reply 200 [(''success'', JBool True), (''data'', user_json u)]"

definition anonymous_reply :: http_response where
  "anonymous_reply = json_reply 200 [(''success'', JBool True), (''data'', JNull)]"

definition logged_out_reply :: auth_reply where
  "logged_out_reply =
     \<lparr>ry_response = json_reply 200 [(''success'', JBool True), (''message'', JStr (js ''Logged out''))],
      ry_cookies = ClearCookies\<rparr>"

section \<open>Requests and their phases\<close>

record provision_input =
  pv_username :: jsstring
  pv_password :: jsstring
  pv_full :: "jsstring option"

datatype guarded = CreateAdmin js_value | OtherHandler

datatype auth_request =
  PostLogin js_value
| PostRefresh js_value
| PostLogout js_value "int option"
| GetMe js_value
| Protected js_value guarded

datatype auth_phase =
  LoginFind jsstring js_value
| LoginStore admin_user
| LoginLog admin_user jsstring jsstring
| RefreshFind jsstring jsstring
| RefreshAdmin jsstring int
| RefreshRevoke jsstring admin_user
| RefreshStore admin_user
| LogoutRevoke jsstring "int option"
| LogoutAll int
| LogoutLog int
| MeFind int
| GuardFind int guarded
| Provision provision_input admin_user
| Admitted admin_user
| Finished auth_reply

abbreviation answer_with :: "http_response \<Rightarrow> auth_phase" where
  "answer_with r \<equiv> Finished \<lparr>ry_response = r, ry_cookies = KeepCookies\<rparr>"

abbreviation raise_error :: "api_error \<Rightarrow> auth_phase" where
  "raise_error e \<equiv> answer_with (errorHandler e)"

section \<open>Tokens\<close>

definition ACCESS_SECONDS :: int where "ACCESS_SECONDS = 3600"
definition REFRESH_SECONDS :: int where "REFRESH_SECONDS = 30 * 24 * 60 * 60"
definition refreshMaxAgeMs :: int where "refreshMaxAgeMs = 30 * 24 * 60 * 60 * 1000"

definition access_payload :: "admin_user \<Rightarrow> jwt_payload" where
  "access_payload u = \<lparr>jp_sub = us_id u, jp_username = us_name u, jp_type = js ''access'', jp_jti = None\<rparr>"

definition refresh_payload :: "admin_user \<Rightarrow> jsstring \<Rightarrow> jwt_payload" where
  "refresh_payload u jti = \<lparr>jp_sub = us_id u, jp_username = us_name u, jp_type = js ''refresh'', jp_jti = Some jti\<rparr>"

definition signAccessToken :: "auth_env \<Rightarrow> int \<Rightarrow> admin_user \<Rightarrow> jsstring" where
  "signAccessToken env t u = ae_sign env (access_payload u) ACCESS_SECONDS t"

definition signRefreshToken :: "auth_env \<Rightarrow> int \<Rightarrow> admin_user \<Rightarrow> jsstring \<Rightarrow> jsstring" where
  "signRefreshToken env t u jti = ae_sign env (refresh_payload u jti) REFRESH_SECONDS t"

text \<open>A cookie that is not a string is refused by \<^verbatim>\<open>jwt.verify\<close>.\<close>

definition verified_cookie :: "auth_env \<Rightarrow> int \<Rightarrow> js_value \<Rightarrow> (jsstring \<times> jwt_payload) option" where
  "verified_cookie env t cookie =
     (case as_string cookie of None \<Rightarrow> None | Some s \<Rightarrow> map_option (Pair s) (ae_verify env t s))"

definition token_id :: "jwt_payload \<Rightarrow> jsstring option" where
  "token_id p = (if jp_jti p = Some [] then None else jp_jti p)"

section \<open>Statements\<close>

definition admin_user_of :: "admin_row \<Rightarrow> admin_user" where
  "admin_user_of r = \<lparr>us_id = ar_id r, us_name = ar_username r, us_full = ar_full r\<rparr>"

definition findAdminByUsername :: "jsstring \<Rightarrow> admin_db \<Rightarrow> admin_row option" where
  "findAdminByUsername name db = find (\<lambda>r. ar_username r = name) (ad_admins db)"

definition findAdminById :: "int \<Rightarrow> admin_db \<Rightarrow> admin_user option" where
  "findAdminById i db = map_option admin_user_of (find (\<lambda>r. ar_id r = i \<and> ar_active r) (ad_admins db))"

definition admin_exists :: "int \<Rightarrow> admin_db \<Rightarrow> bool" where
  "admin_exists i db = list_ex (\<lambda>r. ar_id r = i) (ad_admins db)"

definition storeRefreshSession :: "auth_env \<Rightarrow> int \<Rightarrow> int \<Rightarrow> jsstring \<Rightarrow> jsstring \<Rightarrow> admin_db \<Rightarrow> admin_db option" where
  "storeRefreshSession env t admin jti token db =
     (case ae_uuid env jti of
        None \<Rightarrow> None
      | Some u \<Rightarrow>
          if list_ex (\<lambda>r. sn_id r = u) (ad_sessions db) \<or> \<not> admin_exists admin db then None
          else Some (db\<lparr>ad_sessions := ad_sessions db @
            [\<lparr>sn_id = u, sn_admin = admin, sn_hash = ae_sha env token, sn_expires = t + refreshMaxAgeMs, sn_revoked = None\<rparr>]\<rparr>))"

definition revoke_rows :: "int \<Rightarrow> (session_row \<Rightarrow> bool) \<Rightarrow> admin_db \<Rightarrow> admin_db" where
  "revoke_rows t p db = db\<lparr>ad_sessions := fst (sql_update p (\<lambda>r. r\<lparr>sn_revoked := Some t\<rparr>) (ad_sessions db))\<rparr>"

definition revokeSession :: "auth_env \<Rightarrow> int \<Rightarrow> jsstring \<Rightarrow> admin_db \<Rightarrow> admin_db option" where
  "revokeSession env t jti db =
     (case ae_uuid env jti of None \<Rightarrow> None | Some u \<Rightarrow> Some (revoke_rows t (\<lambda>r. sn_id r = u) db))"

definition revokeAdminSessions :: "int \<Rightarrow> int \<Rightarrow> admin_db \<Rightarrow> admin_db option" where
  "revokeAdminSessions t admin db = Some (revoke_rows t (\<lambda>r. sn_admin r = admin \<and> sn_revoked r = None) db)"

definition find_session :: "auth_env \<Rightarrow> jsstring \<Rightarrow> jsstring \<Rightarrow> admin_db \<Rightarrow> session_row option option" where
  "find_session env jti token db =
     (case ae_uuid env jti of
        None \<Rightarrow> None
      | Some u \<Rightarrow> Some (find (\<lambda>r. sn_id r = u \<and> sn_hash r = ae_sha env token) (ad_sessions db)))"

definition logAdminActivity :: "int \<Rightarrow> int \<Rightarrow> string \<Rightarrow> js_value \<Rightarrow> admin_db \<Rightarrow> admin_db option" where
  "logAdminActivity t admin action details db =
     (if admin_exists admin db
      then Some (db\<lparr>ad_activity := ad_activity db @
        [\<lparr>av_admin = Some admin, av_action = action, av_entity = None, av_details = details,
          av_actor = map_option ar_username (find (\<lambda>r. ar_id r = admin) (ad_admins db)), av_created = t\<rparr>]\<rparr>)
      else None)"

section \<open>Creating administrators\<close>

definition username_unit :: "code_unit \<Rightarrow> bool" where
  "username_unit c \<longleftrightarrow>
     (65 \<le> c \<and> c \<le> 90) \<or> (97 \<le> c \<and> c \<le> 122) \<or> is_digit c \<or> c = 46 \<or> c = 95 \<or> c = 45"

definition valid_username :: "jsstring \<Rightarrow> bool" where
  "valid_username s \<longleftrightarrow> 3 \<le> length s \<and> length s \<le> 80 \<and> list_all username_unit s"

text \<open>The guard both services write; its result is the trimmed input.\<close>

definition validateBootstrapAdminInput :: "provision_input \<Rightarrow> provision_input option" where
  "validateBootstrapAdminInput inp =
     (let name = js_trim (pv_username inp);
          full = (case pv_full inp of None \<Rightarrow> [] | Some s \<Rightarrow> js_trim s) in
      if \<not> valid_username name \<or> length (pv_password inp) < 12 \<or> 128 < length (pv_password inp) \<or>
         pv_full inp \<noteq> None \<and> (length full < 1 \<or> 200 < length full)
      then None
      else Some \<lparr>pv_username = name, pv_password = pv_password inp, pv_full = (if full = [] then None else Some full)\<rparr>)"

definition new_admin :: "int \<Rightarrow> provision_input \<Rightarrow> jsstring \<Rightarrow> admin_row" where
  "new_admin i inp h =
     \<lparr>ar_id = i, ar_username = pv_username inp, ar_hash = h, ar_full = pv_full inp, ar_active = True\<rparr>"

definition insert_admin :: "admin_row \<Rightarrow> activity_row \<Rightarrow> admin_db \<Rightarrow> admin_db" where
  "insert_admin r a db =
     db\<lparr>ad_admins := ad_admins db @ [r], ad_next := ar_id r + 1, ad_activity := ad_activity db @ [a]\<rparr>"

definition next_id :: "auth_ambient \<Rightarrow> admin_db \<Rightarrow> int" where
  "next_id am db = ad_next db + int (am_gap am)"

definition created_reply :: "int \<Rightarrow> jsstring \<Rightarrow> http_response" where
  "created_reply i name =
     json_reply 201 [(''success'', JBool True), (''data'', JObj [(js ''id'', jnat i), (js ''username'', JStr name)])]"

fun provisionAdmin :: "auth_env \<Rightarrow> auth_ambient \<Rightarrow> provision_input \<Rightarrow> admin_user \<Rightarrow> admin_db \<Rightarrow> admin_db \<times> auth_phase" where
  "provisionAdmin env am raw actor db =
     (case validateBootstrapAdminInput raw of
        None \<Rightarrow> (db, raise_error (AppError 400 ''Invalid administrator details''))
      | Some inp \<Rightarrow>
          if \<not> am_connects am then (db, raise_error OtherError)
          else (case ae_hash env (am_salt am) (pv_password inp) of
             None \<Rightarrow> (db, raise_error OtherError)
           | Some h \<Rightarrow>
               if am_fate am = NotExecuted then (db, raise_error OtherError)
               else if list_ex (\<lambda>r. ar_username r = pv_username inp) (ad_admins db)
               then (db, raise_error (AppError 409 ''An administrator with this username already exists''))
               else if \<not> admin_exists (us_id actor) db then (db, raise_error OtherError)
               else
                 let i = next_id am db;
                     db' = insert_admin (new_admin i inp h)
                       \<lparr>av_admin = Some (us_id actor), av_action = ''admin_created'', av_entity = Some (''admin'', i),
                        av_details = JObj [], av_actor = Some (us_name actor), av_created = am_sql_now am\<rparr> db in
                 (db', if am_fate am = Executed then answer_with (created_reply i (pv_username inp))
                       else raise_error OtherError)))"

datatype bootstrap_result =
  BootstrapDone int jsstring
| InvalidInput
| AlreadyInitialized
| BootstrapFailed
| NoConnection

definition createFirstAdmin :: "auth_env \<Rightarrow> auth_ambient \<Rightarrow> provision_input \<Rightarrow> admin_db \<Rightarrow> admin_db \<times> bootstrap_result" where
  "createFirstAdmin env am raw db =
     (case validateBootstrapAdminInput raw of
        None \<Rightarrow> (db, InvalidInput)
      | Some inp \<Rightarrow>
          if \<not> am_connects am then (db, NoConnection)
          else if am_fate am = NotExecuted then (db, BootstrapFailed)
          else if ad_admins db \<noteq> [] then (db, if am_fate am = Executed then AlreadyInitialized else BootstrapFailed)
          else (case ae_hash env (am_salt am) (pv_password inp) of
             None \<Rightarrow> (db, BootstrapFailed)
           | Some h \<Rightarrow>
               let i = next_id am db;
                   db' = insert_admin (new_admin i inp h)
                     \<lparr>av_admin = None, av_action = ''bootstrap_admin_created'', av_entity = Some (''admin'', i),
                      av_details = JObj [], av_actor = None, av_created = am_sql_now am\<rparr> db in
               (db', if am_fate am = Executed then BootstrapDone i (pv_username inp) else BootstrapFailed)))"

section \<open>Handlers\<close>

text \<open>\<^verbatim>\<open>createAdmin\<close> after the guard.\<close>

definition create_admin_begin :: "js_value \<Rightarrow> admin_user \<Rightarrow> auth_phase" where
  "create_admin_begin b actor =
     (case (as_string (js_get ''username'' b), as_string (js_get ''password'' b), js_get ''fullName'' b) of
        (Some name, Some pw, JUndefined) \<Rightarrow> Provision \<lparr>pv_username = name, pv_password = pw, pv_full = None\<rparr> actor
      | (Some name, Some pw, JStr full) \<Rightarrow> Provision \<lparr>pv_username = name, pv_password = pw, pv_full = Some full\<rparr> actor
      | _ \<Rightarrow> answer_with (refusal 400 ''Invalid administrator details''))"

fun enter_guarded :: "guarded \<Rightarrow> admin_user \<Rightarrow> auth_phase" where
  "enter_guarded (CreateAdmin b) u = create_admin_begin b u"
| "enter_guarded OtherHandler u = Admitted u"

fun logout_rest :: "int option \<Rightarrow> auth_phase" where
  "logout_rest None = Finished logged_out_reply"
| "logout_rest (Some admin) = (if admin = 0 then Finished logged_out_reply else LogoutAll admin)"

text \<open>The handlers up to their first statement: the controller, the service and the guard.\<close>

definition login_begin :: "js_value \<Rightarrow> auth_phase" where
  "login_begin b =
     (let refused = answer_with (refusal 400 ''Username and password required''); pw = js_get ''password'' b in
      case js_get ''username'' b of
        JUndefined \<Rightarrow> refused
      | JNull \<Rightarrow> refused
      | JStr s \<Rightarrow> if js_trim s = [] \<or> falsy pw then refused else LoginFind (js_trim s) pw
      | _ \<Rightarrow> raise_error OtherError)"

definition refreshTokens_begin :: "(jsstring \<times> jwt_payload) option \<Rightarrow> auth_phase" where
  "refreshTokens_begin verified =
     (case verified of
        None \<Rightarrow> raise_error (AppError 401 ''Invalid refresh token'')
      | Some (token, p) \<Rightarrow>
          (case token_id p of
             Some jti \<Rightarrow>
               if jp_type p = js ''refresh'' then RefreshFind token jti
               else raise_error (AppError 401 ''Invalid refresh token'')
           | None \<Rightarrow> raise_error (AppError 401 ''Invalid refresh token'')))"

definition refresh_begin :: "auth_env \<Rightarrow> int \<Rightarrow> js_value \<Rightarrow> auth_phase" where
  "refresh_begin env t cookie =
     (if falsy cookie then answer_with (refusal 401 ''Refresh token missing'')
      else refreshTokens_begin (verified_cookie env t cookie))"

definition logout_begin :: "auth_env \<Rightarrow> int \<Rightarrow> js_value \<Rightarrow> int option \<Rightarrow> auth_phase" where
  "logout_begin env t cookie who =
     (case (if falsy cookie then None else verified_cookie env t cookie) of
        None \<Rightarrow> logout_rest who
      | Some (token, p) \<Rightarrow> (case token_id p of None \<Rightarrow> logout_rest who | Some jti \<Rightarrow> LogoutRevoke jti who))"

text \<open>\<^verbatim>\<open>verifyAccessToken\<close>: the subject of the token or the error.\<close>

definition verifyAccessToken :: "auth_env \<Rightarrow> int \<Rightarrow> js_value \<Rightarrow> api_error + int" where
  "verifyAccessToken env t cookie =
     (case verified_cookie env t cookie of
        None \<Rightarrow> Inl OtherError
      | Some (token, p) \<Rightarrow>
          if jp_type p = js ''access'' then Inr (jp_sub p) else Inl (AppError 401 ''Invalid access token''))"

definition me_begin :: "auth_env \<Rightarrow> int \<Rightarrow> js_value \<Rightarrow> auth_phase" where
  "me_begin env t cookie =
     (if falsy cookie then answer_with anonymous_reply
      else case verifyAccessToken env t cookie of
        Inl e \<Rightarrow> answer_with anonymous_reply
      | Inr admin \<Rightarrow> MeFind admin)"

definition requireAdmin :: "auth_env \<Rightarrow> int \<Rightarrow> js_value \<Rightarrow> guarded \<Rightarrow> auth_phase" where
  "requireAdmin env t cookie g =
     (if falsy cookie then raise_error (AppError 401 ''Authentication required'')
      else case verifyAccessToken env t cookie of
        Inl e \<Rightarrow> raise_error e
      | Inr admin \<Rightarrow> GuardFind admin g)"

fun auth_begin :: "auth_env \<Rightarrow> int \<Rightarrow> auth_request \<Rightarrow> auth_phase" where
  "auth_begin env t (PostLogin b) = login_begin b"
| "auth_begin env t (PostRefresh cookie) = refresh_begin env t cookie"
| "auth_begin env t (PostLogout cookie who) = logout_begin env t cookie who"
| "auth_begin env t (GetMe cookie) = me_begin env t cookie"
| "auth_begin env t (Protected cookie g) = requireAdmin env t cookie g"

lemmas begin_defs =
  login_begin_def refreshTokens_begin_def refresh_begin_def logout_begin_def verifyAccessToken_def me_begin_def requireAdmin_def

text \<open>One statement and the code that follows it; \<open>fate\<close> is what happens to a reading statement.\<close>

definition login_find :: "auth_env \<Rightarrow> statement_fate \<Rightarrow> admin_db \<Rightarrow> jsstring \<Rightarrow> js_value \<Rightarrow> auth_phase" where
  "login_find env fate db name pw =
     (if fate \<noteq> Executed then raise_error OtherError
      else case findAdminByUsername name db of
        None \<Rightarrow> raise_error (AppError 401 ''Invalid credentials'')
      | Some r \<Rightarrow>
          if \<not> ar_active r then raise_error (AppError 401 ''Invalid credentials'')
          else (case as_string pw of
             None \<Rightarrow> raise_error OtherError
           | Some s \<Rightarrow>
               (case ae_compare env s (ar_hash r) of
                  None \<Rightarrow> raise_error OtherError
                | Some False \<Rightarrow> raise_error (AppError 401 ''Invalid credentials'')
                | Some True \<Rightarrow> LoginStore (admin_user_of r))))"

definition login_store :: "auth_env \<Rightarrow> auth_ambient \<Rightarrow> admin_db \<Rightarrow> admin_user \<Rightarrow> admin_db \<times> auth_phase" where
  "login_store env am db u =
     (let acc = signAccessToken env (am_now am) u; jti = am_uuid am; ref = signRefreshToken env (am_now am) u jti;
          (db', ok) = statement (am_fate am) (storeRefreshSession env (am_now am) (us_id u) jti ref) db in
      (db', if ok then LoginLog u acc ref else raise_error OtherError))"

definition login_log :: "auth_ambient \<Rightarrow> admin_db \<Rightarrow> admin_user \<Rightarrow> jsstring \<Rightarrow> jsstring \<Rightarrow> admin_db \<times> auth_phase" where
  "login_log am db u acc ref =
     (let (db', ok) = statement (am_fate am)
        (logAdminActivity (am_sql_now am) (us_id u) ''login'' (JObj [(js ''username'', JStr (us_name u))])) db in
      (db', Finished \<lparr>ry_response = (if ok then user_reply u else errorHandler OtherError), ry_cookies = SetCookies acc ref\<rparr>))"

definition refresh_find :: "auth_env \<Rightarrow> auth_ambient \<Rightarrow> admin_db \<Rightarrow> jsstring \<Rightarrow> jsstring \<Rightarrow> auth_phase" where
  "refresh_find env am db token jti =
     (if am_fate am \<noteq> Executed then raise_error OtherError
      else case find_session env jti token db of
        None \<Rightarrow> raise_error OtherError
      | Some None \<Rightarrow> raise_error (AppError 401 ''Refresh session expired or revoked'')
      | Some (Some r) \<Rightarrow>
          if sn_revoked r \<noteq> None \<or> sn_expires r < am_now am
          then raise_error (AppError 401 ''Refresh session expired or revoked'')
          else RefreshAdmin jti (sn_admin r))"

text \<open>\<^verbatim>\<open>findAdminById\<close> with its 401, in the refresh and in the guard.\<close>

definition require_found :: "statement_fate \<Rightarrow> admin_db \<Rightarrow> int \<Rightarrow> (admin_user \<Rightarrow> auth_phase) \<Rightarrow> auth_phase" where
  "require_found fate db admin next_phase =
     (if fate \<noteq> Executed then raise_error OtherError
      else case findAdminById admin db of
        None \<Rightarrow> raise_error (AppError 401 ''Admin not found'')
      | Some u \<Rightarrow> next_phase u)"

definition refresh_revoke :: "auth_env \<Rightarrow> auth_ambient \<Rightarrow> admin_db \<Rightarrow> jsstring \<Rightarrow> admin_user \<Rightarrow> admin_db \<times> auth_phase" where
  "refresh_revoke env am db jti u =
     (let (db', ok) = statement (am_fate am) (revokeSession env (am_sql_now am) jti) db in
      (db', if ok then RefreshStore u else raise_error OtherError))"

definition refresh_store :: "auth_env \<Rightarrow> auth_ambient \<Rightarrow> admin_db \<Rightarrow> admin_user \<Rightarrow> admin_db \<times> auth_phase" where
  "refresh_store env am db u =
     (let acc = signAccessToken env (am_now am) u; jti = am_uuid am; ref = signRefreshToken env (am_now am) u jti;
          (db', ok) = statement (am_fate am) (storeRefreshSession env (am_now am) (us_id u) jti ref) db in
      (db', if ok then Finished \<lparr>ry_response = user_reply u, ry_cookies = SetCookies acc ref\<rparr> else raise_error OtherError))"

definition logout_revoke :: "auth_env \<Rightarrow> auth_ambient \<Rightarrow> admin_db \<Rightarrow> jsstring \<Rightarrow> int option \<Rightarrow> admin_db \<times> auth_phase" where
  "logout_revoke env am db jti who =
     (fst (statement (am_fate am) (revokeSession env (am_sql_now am) jti) db), logout_rest who)"

definition logout_all :: "auth_ambient \<Rightarrow> admin_db \<Rightarrow> int \<Rightarrow> admin_db \<times> auth_phase" where
  "logout_all am db admin =
     (let (db', ok) = statement (am_fate am) (revokeAdminSessions (am_sql_now am) admin) db in
      (db', if ok then LogoutLog admin else raise_error OtherError))"

definition logout_log :: "auth_ambient \<Rightarrow> admin_db \<Rightarrow> int \<Rightarrow> admin_db \<times> auth_phase" where
  "logout_log am db admin =
     (let (db', ok) = statement (am_fate am) (logAdminActivity (am_sql_now am) admin ''logout'' (JObj [])) db in
      (db', if ok then Finished logged_out_reply else raise_error OtherError))"

definition me_find :: "statement_fate \<Rightarrow> admin_db \<Rightarrow> int \<Rightarrow> auth_phase" where
  "me_find fate db admin =
     (case (if fate = Executed then findAdminById admin db else None) of
        None \<Rightarrow> answer_with anonymous_reply
      | Some u \<Rightarrow> answer_with (user_reply u))"

fun auth_step :: "auth_env \<Rightarrow> auth_ambient \<Rightarrow> admin_db \<Rightarrow> auth_phase \<Rightarrow> admin_db \<times> auth_phase" where
  "auth_step env am db (LoginFind name pw) = (db, login_find env (am_fate am) db name pw)"
| "auth_step env am db (LoginStore u) = login_store env am db u"
| "auth_step env am db (LoginLog u acc ref) = login_log am db u acc ref"
| "auth_step env am db (RefreshFind token jti) = (db, refresh_find env am db token jti)"
| "auth_step env am db (RefreshAdmin jti admin) = (db, require_found (am_fate am) db admin (RefreshRevoke jti))"
| "auth_step env am db (RefreshRevoke jti u) = refresh_revoke env am db jti u"
| "auth_step env am db (RefreshStore u) = refresh_store env am db u"
| "auth_step env am db (LogoutRevoke jti who) = logout_revoke env am db jti who"
| "auth_step env am db (LogoutAll admin) = logout_all am db admin"
| "auth_step env am db (LogoutLog admin) = logout_log am db admin"
| "auth_step env am db (MeFind admin) = (db, me_find (am_fate am) db admin)"
| "auth_step env am db (GuardFind admin g) = (db, require_found (am_fate am) db admin (enter_guarded g))"
| "auth_step env am db (Provision inp actor) = provisionAdmin env am inp actor db"
| "auth_step env am db (Admitted u) = (db, Admitted u)"
| "auth_step env am db (Finished r) = (db, Finished r)"

lemmas phase_defs [simp] =
  login_find_def login_store_def login_log_def refresh_find_def require_found_def refresh_revoke_def refresh_store_def
  logout_revoke_def logout_all_def logout_log_def me_find_def

fun running :: "auth_phase \<Rightarrow> bool" where
  "running (Admitted u) = False"
| "running (Finished r) = False"
| "running _ = True"

section \<open>The system\<close>

text \<open>
  Requests begin and take steps in any order; beside them run the bootstrap command, the removal of
  sessions by the retention run, and an operator who deactivates or reactivates an administrator in
  the database.
\<close>

record auth_state =
  au_db :: admin_db
  au_tasks :: "auth_phase list"

datatype auth_event =
  Begin int auth_request
| Step nat auth_ambient
| Bootstrap auth_ambient provision_input
| SetActive int bool
| ForgetSessions "session_row \<Rightarrow> bool"

datatype auth_outcome =
  Began auth_phase
| Moved auth_phase auth_phase
| NoTask
| Bootstrapped bootstrap_result
| Outside

fun auth_system :: "auth_env \<Rightarrow> auth_state \<Rightarrow> auth_event \<Rightarrow> auth_state \<times> auth_outcome" where
  "auth_system env st (Begin t req) =
     (let ph = auth_begin env t req in (st\<lparr>au_tasks := au_tasks st @ [ph]\<rparr>, Began ph))"
| "auth_system env st (Step i am) =
     (if i < length (au_tasks st) \<and> running (au_tasks st ! i)
      then let (db, ph) = auth_step env am (au_db st) (au_tasks st ! i) in
        (st\<lparr>au_db := db, au_tasks := (au_tasks st)[i := ph]\<rparr>, Moved (au_tasks st ! i) ph)
      else (st, NoTask))"
| "auth_system env st (Bootstrap am inp) =
     (let (db, r) = createFirstAdmin env am inp (au_db st) in (st\<lparr>au_db := db\<rparr>, Bootstrapped r))"
| "auth_system env st (SetActive admin b) =
     (st\<lparr>au_db := (au_db st)\<lparr>ad_admins := fst (sql_update (\<lambda>r. ar_id r = admin) (\<lambda>r. r\<lparr>ar_active := b\<rparr>) (ad_admins (au_db st)))\<rparr>\<rparr>,
      Outside)"
| "auth_system env st (ForgetSessions p) =
     (st\<lparr>au_db := (au_db st)\<lparr>ad_sessions := filter (\<lambda>r. \<not> p r) (ad_sessions (au_db st))\<rparr>\<rparr>, Outside)"

definition empty_admin_db :: admin_db where
  "empty_admin_db = \<lparr>ad_admins = [], ad_next = 1, ad_sessions = [], ad_activity = []\<rparr>"

definition auth_start :: "admin_db \<Rightarrow> auth_state" where
  "auth_start db = \<lparr>au_db = db, au_tasks = []\<rparr>"

end
