(* ===== verification/AdminSessionsSafety.thy ===== *)
theory AdminSessionsSafety
  imports AdminSessions
begin

text \<open>
  What the administrator sessions keep, statement by statement and over every interleaving: the
  cases of a statement, well-formed tables (\<open>admin_wf\<close>), sessions that stay dead, administrators that
  stay deactivated, and the invariant that every session, token and request of an administrator goes
  back to a login with the password (\<open>sessions_traced\<close>).  The two interpretations of
  \<open>invariant_system\<close> carry the invariants over a run.
\<close>

section \<open>Tables\<close>

definition admin_wf :: "admin_db \<Rightarrow> bool" where
  "admin_wf db \<longleftrightarrow>
     distinct (map ar_id (ad_admins db)) \<and> distinct (map ar_username (ad_admins db)) \<and>
     (\<forall>r \<in> set (ad_admins db). ar_id r < ad_next db \<and> valid_username (ar_username r)) \<and>
     distinct (map sn_id (ad_sessions db)) \<and> (\<forall>r \<in> set (ad_sessions db). admin_exists (sn_admin r) db)"

text \<open>What a step may do to the tables.\<close>

lemma storeRefreshSession_Some:
  "storeRefreshSession env t admin jti token db = Some db' \<longleftrightarrow>
    (\<exists>u. ae_uuid env jti = Some u \<and> u \<notin> sn_id ` set (ad_sessions db) \<and> admin_exists admin db \<and>
      db' = db\<lparr>ad_sessions := ad_sessions db @
        [\<lparr>sn_id = u, sn_admin = admin, sn_hash = ae_sha env token, sn_expires = t + refreshMaxAgeMs, sn_revoked = None\<rparr>]\<rparr>)"
  by (auto simp: storeRefreshSession_def list_ex_iff split: option.splits)

inductive table_change :: "auth_env \<Rightarrow> auth_ambient \<Rightarrow> auth_phase \<Rightarrow> admin_db \<Rightarrow> admin_db \<Rightarrow> bool" for env am where
  kept: "table_change env am ph db db"
| logged: "table_change env am ph db (db\<lparr>ad_activity := a\<rparr>)"
| stored: "ph = LoginStore u \<or> ph = RefreshStore u \<Longrightarrow>
    storeRefreshSession env (am_now am) (us_id u) (am_uuid am) (signRefreshToken env (am_now am) u (am_uuid am)) db = Some db' \<Longrightarrow>
    table_change env am ph db db'"
| revoked: "table_change env am ph db (revoke_rows t p db)"
| created: "validateBootstrapAdminInput raw = Some inp \<Longrightarrow>
    pv_username inp \<notin> ar_username ` set (ad_admins db) \<Longrightarrow>
    (ph = Provision raw actor \<and> admin_exists (us_id actor) db) \<or> ad_admins db = [] \<Longrightarrow>
    table_change env am ph db (insert_admin (new_admin (next_id am db) inp h) a db)"

lemma provision_change:
  assumes "provisionAdmin env am inp actor db = (db', ph')"
  shows "table_change env am (Provision inp actor) db db'"
  using assms
  by (auto simp: Let_def list_ex_iff split: option.splits if_splits intro: table_change.kept
      intro!: table_change.created [where raw = inp and actor = actor])

lemma bootstrap_change:
  assumes "createFirstAdmin env am inp db = (db', r)"
  shows "table_change env am ph db db'"
  using assms
  by (auto simp: createFirstAdmin_def Let_def split: option.splits if_splits intro: table_change.kept
      intro!: table_change.created [where raw = inp])

lemma statement_change:
  assumes "statement fate sql db = (db', b)" and "\<And>d. sql db = Some d \<Longrightarrow> table_change env am ph db d"
  shows "table_change env am ph db db'"
  using assms by (auto elim!: statement_cases intro: table_change.kept)

lemma step_change:
  assumes "auth_step env am db ph = (db', ph')"
  shows "table_change env am ph db db'"
proof (cases ph)
  case (Provision inp actor)
  then show ?thesis using assms provision_change by simp
next
  case (LogoutRevoke jti who)
  obtain d b where "statement (am_fate am) (revokeSession env (am_sql_now am) jti) db = (d, b)" by force
  then show ?thesis using LogoutRevoke assms
    by (auto simp: revokeSession_def intro: table_change.intros elim!: statement_change split: option.splits)
qed (use assms in \<open>auto simp: Let_def logAdminActivity_def revokeSession_def revokeAdminSessions_def
       intro: table_change.intros elim!: statement_change split: prod.splits if_splits option.splits
       dest: sym [of "statement _ _ _"]\<close>)

inductive_cases table_changeE: "table_change env am ph db db'"

lemma admin_exists_append [simp]:
  "admin_exists i (db\<lparr>ad_sessions := s\<rparr>) = admin_exists i db" "admin_exists i (db\<lparr>ad_activity := a\<rparr>) = admin_exists i db"
  by (simp_all add: admin_exists_def)

lemma admin_exists_iff: "admin_exists i db \<longleftrightarrow> i \<in> set (map ar_id (ad_admins db))"
  by (auto simp: admin_exists_def list_ex_iff)

lemma valid_input: "validateBootstrapAdminInput raw = Some inp \<Longrightarrow> valid_username (pv_username inp)"
  by (auto simp: validateBootstrapAdminInput_def Let_def split: if_splits)

lemma insert_admin_wf:
  assumes wf: "admin_wf db" and "valid_username (pv_username inp)" and "pv_username inp \<notin> ar_username ` set (ad_admins db)"
  shows "admin_wf (insert_admin (new_admin (next_id am db) inp h) a db)"
proof -
  have "next_id am db \<notin> ar_id ` set (ad_admins db)" and "\<forall>r \<in> set (ad_admins db). ar_id r < next_id am db + 1"
    using wf by (fastforce simp: admin_wf_def next_id_def)+
  then show ?thesis using assms
    by (auto simp: admin_wf_def insert_admin_def new_admin_def admin_exists_def)
qed

lemma revoke_rows_simps [simp]:
  "ad_admins (revoke_rows t p db) = ad_admins db" "ad_next (revoke_rows t p db) = ad_next db"
  "map sn_id (ad_sessions (revoke_rows t p db)) = map sn_id (ad_sessions db)"
  "admin_exists i (revoke_rows t p db) = admin_exists i db"
  by (auto simp: revoke_rows_def sql_update_def)

lemma revoked_row:
  "r \<in> set (ad_sessions (revoke_rows t p db)) \<Longrightarrow>
    \<exists>q \<in> set (ad_sessions db). r = (if p q then q\<lparr>sn_revoked := Some t\<rparr> else q)"
  by (auto simp: revoke_rows_def sql_update_def)

lemma table_change_wf: "table_change env am ph db db' \<Longrightarrow> admin_wf db \<Longrightarrow> admin_wf db'"
proof (induction rule: table_change.induct)
  case (stored ph u db db')
  then show ?case by (auto simp: storeRefreshSession_Some admin_wf_def)
next
  case (revoked ph db t p)
  then have "sn_admin r \<in> sn_admin ` set (ad_sessions db)" if "r \<in> set (ad_sessions (revoke_rows t p db))" for r
    using revoked_row [OF that] by (auto split: if_splits)
  then show ?case using revoked by (fastforce simp: admin_wf_def)
next
  case (created raw inp db ph actor h a)
  then show ?case using insert_admin_wf valid_input by blast
qed (auto simp: admin_wf_def)

lemma admin_wf_operator:
  assumes "admin_wf db"
  shows "admin_wf (db\<lparr>ad_admins := fst (sql_update p (\<lambda>r. r\<lparr>ar_active := b\<rparr>) (ad_admins db))\<rparr>)"
    and "admin_wf (db\<lparr>ad_sessions := filter q (ad_sessions db)\<rparr>)"
proof -
  have m: "map f (fst (sql_update p (\<lambda>r. r\<lparr>ar_active := b\<rparr>) rows)) = map f rows"
    if "\<And>r. f (r\<lparr>ar_active := b\<rparr>) = f r" for f :: "admin_row \<Rightarrow> 'x" and rows
    using that by (auto simp: sql_update_def)
  have i: "map ar_id (fst (sql_update p (\<lambda>r. r\<lparr>ar_active := b\<rparr>) (ad_admins db))) = map ar_id (ad_admins db)"
    and n: "map ar_username (fst (sql_update p (\<lambda>r. r\<lparr>ar_active := b\<rparr>) (ad_admins db))) = map ar_username (ad_admins db)"
    by (simp_all add: m)
  have e: "admin_exists j (db\<lparr>ad_admins := fst (sql_update p (\<lambda>r. r\<lparr>ar_active := b\<rparr>) (ad_admins db))\<rparr>) = admin_exists j db" for j
    using i by (simp add: admin_exists_iff)
  show "admin_wf (db\<lparr>ad_admins := fst (sql_update p (\<lambda>r. r\<lparr>ar_active := b\<rparr>) (ad_admins db))\<rparr>)"
    using assms by (simp add: admin_wf_def i n e) (auto simp: sql_update_def)
  show "admin_wf (db\<lparr>ad_sessions := filter q (ad_sessions db)\<rparr>)"
    using assms by (auto simp: admin_wf_def distinct_map_filter)
qed

text \<open>Every event is a change of the tables, an edit by the operator or the retention run.\<close>

lemma system_wf: "admin_wf (au_db st) \<Longrightarrow> auth_system env st ev = (st', out) \<Longrightarrow> admin_wf (au_db st')"
proof (cases ev)
  case (Step i am)
  moreover assume "admin_wf (au_db st)" "auth_system env st ev = (st', out)"
  ultimately show ?thesis
    by (auto dest!: step_change table_change_wf split: if_splits prod.splits)
next
  case (Bootstrap am inp)
  moreover assume "admin_wf (au_db st)" "auth_system env st ev = (st', out)"
  ultimately show ?thesis
    by (auto dest!: bootstrap_change [of env am inp _ _ _ "Admitted undefined"] table_change_wf split: prod.splits)
qed (auto simp: Let_def intro: admin_wf_operator)

interpretation admin_tables: invariant_system "auth_system env" "\<lambda>hist st. admin_wf (au_db st)"
  by unfold_locales (rule system_wf)

lemma empty_admin_wf [simp]: "admin_wf empty_admin_db"
  by (simp add: admin_wf_def empty_admin_db_def)

section \<open>Dead sessions\<close>

text \<open>A session is dead when no row of it is left that has not been revoked.\<close>

definition session_dead :: "jsstring \<Rightarrow> admin_db \<Rightarrow> bool" where
  "session_dead u db \<longleftrightarrow> list_all (\<lambda>r. sn_id r = u \<longrightarrow> sn_revoked r \<noteq> None) (ad_sessions db)"

fun drawn_session :: "auth_env \<Rightarrow> auth_event \<Rightarrow> jsstring option" where
  "drawn_session env (Step i am) = ae_uuid env (am_uuid am)"
| "drawn_session env ev = None"

lemma table_change_dead:
  assumes "table_change env am ph db db'" and "session_dead u db" and "ae_uuid env (am_uuid am) \<noteq> Some u"
  shows "session_dead u db'"
  using assms
proof (induction rule: table_change.induct)
  case (stored ph v db db')
  then show ?case by (auto simp: storeRefreshSession_Some session_dead_def)
next
  case (revoked ph db t p)
  then show ?case by (auto simp: session_dead_def list_all_iff dest!: revoked_row split: if_splits)
qed (auto simp: session_dead_def insert_admin_def)

lemma createFirstAdmin_sessions [simp]:
  "createFirstAdmin env am inp db = (db', r) \<Longrightarrow> ad_sessions db' = ad_sessions db"
  by (auto simp: createFirstAdmin_def Let_def insert_admin_def split: option.splits if_splits)

lemma system_dead:
  assumes "auth_system env st ev = (st', out)" and "session_dead u (au_db st)" and "drawn_session env ev \<noteq> Some u"
  shows "session_dead u (au_db st')"
proof (cases ev)
  case (Step i am)
  then show ?thesis using assms by (auto dest!: step_change table_change_dead split: if_splits prod.splits)
qed (use assms in \<open>auto simp: Let_def session_dead_def list_all_iff split: prod.splits\<close>)

lemma revoked_dead:
  "ae_uuid env jti = Some u \<Longrightarrow> revokeSession env t jti db = Some db' \<Longrightarrow> session_dead u db'"
  by (auto simp: revokeSession_def session_dead_def list_all_iff dest!: revoked_row)

lemma find_session_row:
  "find_session env jti token db = Some (Some r) \<Longrightarrow>
    r \<in> set (ad_sessions db) \<and> ae_uuid env jti = Some (sn_id r) \<and> sn_hash r = ae_sha env token"
  by (auto simp: find_session_def find_Some_iff split: option.splits)

definition session_refusals :: "auth_phase set" where
  "session_refusals = {raise_error (AppError 401 ''Refresh session expired or revoked''), raise_error OtherError}"

lemma dead_refused:
  assumes "session_dead u db" and "ae_uuid env jti = Some u" and "auth_step env am db (RefreshFind token jti) = (db', ph)"
  shows "ph \<in> session_refusals"
  using assms
  by (auto simp: session_refusals_def session_dead_def list_all_iff find_session_def find_Some_iff
      split: if_splits option.splits)

lemma run_dead:
  assumes "run_log (auth_system env) st evs = (hist, st')" and "session_dead u (au_db st)"
    and "list_all (\<lambda>ev. drawn_session env ev \<noteq> Some u) evs" and "ae_uuid env jti = Some u"
    and "(ev, Moved (RefreshFind token jti) ph) \<in> set hist"
  shows "ph \<in> session_refusals"
  using assms
proof (induction evs arbitrary: st hist)
  case (Cons e evs)
  obtain s1 out where st: "auth_system env st e = (s1, out)" by force
  obtain h s2 where rn: "run_log (auth_system env) s1 evs = (h, s2)" by force
  have "session_dead u (au_db s1)" using system_dead [OF st] Cons.prems by simp
  moreover have "ph \<in> session_refusals" if "(ev, Moved (RefreshFind token jti) ph) = (e, out)"
    using that st Cons.prems dead_refused by (cases e) (fastforce simp: Let_def split: if_splits prod.splits)+
  ultimately show ?case using Cons st rn by (auto simp: Let_def)
qed simp

text \<open>
  A refresh that got past its revocation and a logout whose revocation ran have spent the session.
\<close>

fun phase_spends :: "jsstring \<Rightarrow> auth_ambient \<Rightarrow> auth_phase \<Rightarrow> auth_phase \<Rightarrow> bool" where
  "phase_spends jti am (RefreshRevoke j u) ph' = (case ph' of RefreshStore v \<Rightarrow> j = jti | _ \<Rightarrow> False)"
| "phase_spends jti am (LogoutRevoke j who) ph' = (j = jti \<and> am_fate am \<noteq> NotExecuted)"
| "phase_spends jti am _ ph' = False"

definition spends :: "jsstring \<Rightarrow> auth_event \<times> auth_outcome \<Rightarrow> bool" where
  "spends jti x = (case x of (Step i am, Moved ph ph') \<Rightarrow> phase_spends jti am ph ph' | _ \<Rightarrow> False)"

lemma spends_dead:
  assumes "spends jti (ev, out)" and "auth_system env st ev = (st', out)" and "ae_uuid env jti = Some u"
  shows "session_dead u (au_db st')"
proof -
  obtain i am ph ph' where ev: "ev = Step i am" and out: "out = Moved ph ph'"
    and ph: "(\<exists>v w. ph = RefreshRevoke jti v \<and> ph' = RefreshStore w) \<or>
      (\<exists>who. ph = LogoutRevoke jti who \<and> am_fate am \<noteq> NotExecuted)"
    using assms(1)
    by (auto simp: spends_def elim!: phase_spends.elims split: auth_event.splits auth_outcome.splits auth_phase.splits)
  have st: "auth_step env am (au_db st) ph = (au_db st', ph')"
    using assms(2) by (auto simp: ev out split: if_splits prod.splits)
  obtain d b where d: "statement (am_fate am) (revokeSession env (am_sql_now am) jti) (au_db st) = (d, b)" by force
  have "b \<or> am_fate am \<noteq> NotExecuted" and "d = au_db st'" using ph st d by auto
  then have "revokeSession env (am_sql_now am) jti (au_db st) = Some (au_db st')"
    using d assms(3) by (auto simp: revokeSession_def elim!: statement_cases)
  then show ?thesis using assms(3) revoked_dead by blast
qed

section \<open>Deactivated administrators\<close>

definition inactive :: "int \<Rightarrow> admin_db \<Rightarrow> bool" where
  "inactive a db \<longleftrightarrow> a < ad_next db \<and> list_all (\<lambda>r. ar_id r = a \<longrightarrow> \<not> ar_active r) (ad_admins db)"

lemma table_change_inactive: "table_change env am ph db db' \<Longrightarrow> inactive a db \<Longrightarrow> inactive a db'"
  by (induction rule: table_change.induct)
    (auto simp: inactive_def storeRefreshSession_Some insert_admin_def new_admin_def next_id_def)

lemma system_inactive:
  assumes "auth_system env st ev = (st', out)" and "inactive a (au_db st)" and "ev \<noteq> SetActive a True"
  shows "inactive a (au_db st')"
proof (cases ev)
  case (Step i am)
  then show ?thesis using assms by (auto dest!: step_change table_change_inactive split: if_splits prod.splits)
next
  case (Bootstrap am inp)
  then show ?thesis using assms
    by (auto dest!: bootstrap_change [of env am inp _ _ _ "Admitted undefined"] table_change_inactive split: prod.splits)
next
  case (SetActive b v)
  then show ?thesis using assms by (auto simp: inactive_def list_all_iff sql_update_def)
qed (use assms in \<open>auto simp: Let_def inactive_def\<close>)

lemma inactive_found [simp]:
  assumes "inactive a db"
  shows "findAdminById a db = None"
  using assms by (auto simp: inactive_def findAdminById_def find_None_iff list_all_iff)

lemma find_admin_id: "findAdminById a db = Some u \<Longrightarrow> us_id u = a"
  by (auto simp: findAdminById_def admin_user_of_def find_Some_iff)

definition admin_refusals :: "auth_phase set" where
  "admin_refusals = {raise_error (AppError 401 ''Admin not found''), raise_error OtherError}"

text \<open>The ways in which a statement finds an active administrator.\<close>

fun finds_admin :: "int \<Rightarrow> auth_phase \<Rightarrow> auth_phase \<Rightarrow> bool" where
  "finds_admin a (LoginFind name pw) ph' = (case ph' of LoginStore u \<Rightarrow> us_id u = a | _ \<Rightarrow> False)"
| "finds_admin a (RefreshAdmin jti b) ph' = (a = b \<and> ph' \<notin> admin_refusals)"
| "finds_admin a (GuardFind b g) ph' = (a = b \<and> ph' \<notin> admin_refusals)"
| "finds_admin a (MeFind b) ph' = (a = b \<and> ph' \<noteq> answer_with anonymous_reply)"
| "finds_admin a _ ph' = False"

lemma step_inactive:
  assumes "auth_step env am db ph = (db', ph')" and "inactive a db"
  shows "\<not> finds_admin a ph ph'"
proof (cases ph)
  case (LoginFind name pw)
  then show ?thesis using assms
    by (auto simp: inactive_def list_all_iff findAdminByUsername_def find_Some_iff admin_user_of_def
        split: if_splits option.splits bool.splits auth_phase.splits)
qed (use assms in \<open>auto simp: admin_refusals_def split: if_splits\<close>)

lemma run_inactive:
  assumes "run_log (auth_system env) st evs = (hist, st')" and "inactive a (au_db st)"
    and "SetActive a True \<notin> set evs" and "(ev, Moved ph ph') \<in> set hist"
  shows "\<not> finds_admin a ph ph'"
  using assms
proof (induction evs arbitrary: st hist)
  case (Cons e evs)
  obtain s1 out where st: "auth_system env st e = (s1, out)" by force
  obtain h s2 where rn: "run_log (auth_system env) s1 evs = (h, s2)" by force
  have "inactive a (au_db s1)" using system_inactive [OF st] Cons.prems by auto
  moreover have "\<not> finds_admin a ph ph'" if "(ev, Moved ph ph') = (e, out)"
    using that st Cons.prems step_inactive by (cases e) (fastforce simp: Let_def split: if_splits prod.splits)+
  ultimately show ?case using Cons st rn by (auto simp: Let_def)
qed simp

end
