(* ===== verification/AdminSessionsOrigin.thy ===== *)
theory AdminSessionsOrigin
  imports AdminSessionsSafety
begin

text \<open>
  Where the sessions, tokens and accounts of the administrators come from.  Every session row is one a
  login or a refresh stored (\<open>stored_by\<close>).  When \<^verbatim>\<open>jsonwebtoken\<close> keeps its law and no client
  holds a token the service did not sign, every session, every request that runs for an administrator
  and every statement it makes goes back to a login of that administrator (\<open>sessions_traced\<close>).  Every
  administrator but the first was created by one who had logged in (\<open>admins_traced\<close>).
\<close>

section \<open>Where sessions, tokens and requests come from\<close>

type_synonym auth_log = "(auth_event \<times> auth_outcome) list"

definition stored_by :: "auth_env \<Rightarrow> auth_log \<Rightarrow> session_row \<Rightarrow> bool" where
  "stored_by env hist r \<longleftrightarrow>
     (\<exists>i am ph ph' u. (Step i am, Moved ph ph') \<in> set hist \<and> (ph = LoginStore u \<or> ph = RefreshStore u) \<and>
        sn_admin r = us_id u \<and> ae_uuid env (am_uuid am) = Some (sn_id r) \<and>
        sn_hash r = ae_sha env (signRefreshToken env (am_now am) u (am_uuid am)) \<and>
        sn_expires r = am_now am + refreshMaxAgeMs)"

lemma stored_by_mono: "stored_by env hist r \<Longrightarrow> stored_by env (hist @ l) r"
  unfolding stored_by_def by (simp only: set_append Un_iff) blast

lemma stored_by_cong:
  "sn_id r = sn_id q \<Longrightarrow> sn_admin r = sn_admin q \<Longrightarrow> sn_hash r = sn_hash q \<Longrightarrow> sn_expires r = sn_expires q \<Longrightarrow>
    stored_by env hist r = stored_by env hist q"
  by (simp add: stored_by_def)

lemma table_change_stored:
  assumes "table_change env am ph db db'" and "\<forall>r \<in> set (ad_sessions db). stored_by env hist r"
  shows "\<forall>r \<in> set (ad_sessions db'). stored_by env (hist @ [(Step i am, Moved ph ph')]) r"
  using assms
proof (induction rule: table_change.induct)
  case (stored ph u db db')
  obtain v where v: "ae_uuid env (am_uuid am) = Some v" and db': "ad_sessions db' = ad_sessions db @
      [\<lparr>sn_id = v, sn_admin = us_id u, sn_hash = ae_sha env (signRefreshToken env (am_now am) u (am_uuid am)),
        sn_expires = am_now am + refreshMaxAgeMs, sn_revoked = None\<rparr>]"
    using stored.hyps(2) by (auto simp: storeRefreshSession_Some)
  have "stored_by env (hist @ [(Step i am, Moved ph ph')])
     \<lparr>sn_id = v, sn_admin = us_id u, sn_hash = ae_sha env (signRefreshToken env (am_now am) u (am_uuid am)),
        sn_expires = am_now am + refreshMaxAgeMs, sn_revoked = None\<rparr>"
    using stored.hyps(1) v by (auto simp: stored_by_def)
  then show ?case using stored.prems db' by (auto intro: stored_by_mono)
next
  case (revoked ph db t p)
  have "stored_by env (hist @ [(Step i am, Moved ph ph')]) r" if m: "r \<in> set (ad_sessions (revoke_rows t p db))" for r
  proof -
    obtain q where "q \<in> set (ad_sessions db)" "r = (if p q then q\<lparr>sn_revoked := Some t\<rparr> else q)"
      using revoked_row [OF m] by blast
    then show ?thesis using revoked.prems stored_by_mono stored_by_cong [of r q] by auto
  qed
  then show ?case by blast
qed (auto intro: stored_by_mono simp: insert_admin_def)

lemma system_stored:
  assumes "auth_system env st ev = (st', out)" and "\<forall>r \<in> set (ad_sessions (au_db st)). stored_by env hist r"
  shows "\<forall>r \<in> set (ad_sessions (au_db st')). stored_by env (hist @ [(ev, out)]) r"
proof (cases ev)
  case (Step i am)
  show ?thesis
  proof (cases "i < length (au_tasks st) \<and> running (au_tasks st ! i)")
    case True
    then obtain ph' where "auth_step env am (au_db st) (au_tasks st ! i) = (au_db st', ph')"
      and "out = Moved (au_tasks st ! i) ph'" using assms(1) Step by (auto split: prod.splits)
    then show ?thesis using table_change_stored step_change assms(2) Step by blast
  qed (use assms Step in \<open>auto intro: stored_by_mono\<close>)
qed (use assms in \<open>auto simp: Let_def intro: stored_by_mono split: prod.splits\<close>)

interpretation session_origin: invariant_system "auth_system env"
    "\<lambda>hist st. \<forall>r \<in> set (ad_sessions (au_db st)). stored_by env hist r"
  by unfold_locales (rule system_stored)

section \<open>Tokens\<close>

text \<open>
  The law of \<^verbatim>\<open>jsonwebtoken\<close>: a signed token verifies to its payload until its lifetime, counted
  in whole seconds, is over.  \<open>unforged\<close> says of a run that every cookie that verified when its request
  began had been signed earlier in the run, so the signing key has not leaked.
\<close>

definition signs_tokens :: "auth_env \<Rightarrow> bool" where
  "signs_tokens env \<longleftrightarrow>
     (\<forall>p ttl t now. ae_verify env now (ae_sign env p ttl t) = (if now div 1000 < t div 1000 + ttl then Some p else None))"

lemma verified_signed: "signs_tokens env \<Longrightarrow> ae_verify env now (ae_sign env p ttl t) = Some q \<Longrightarrow> q = p"
  by (cases "now div 1000 < t div 1000 + ttl") (simp_all add: signs_tokens_def)

fun tokens_signed :: "auth_env \<Rightarrow> auth_ambient \<Rightarrow> auth_phase \<Rightarrow> jsstring list" where
  "tokens_signed env am (LoginStore u) = [signAccessToken env (am_now am) u, signRefreshToken env (am_now am) u (am_uuid am)]"
| "tokens_signed env am (RefreshStore u) = [signAccessToken env (am_now am) u, signRefreshToken env (am_now am) u (am_uuid am)]"
| "tokens_signed env am _ = []"

fun signed_at :: "auth_env \<Rightarrow> jsstring \<Rightarrow> auth_event \<times> auth_outcome \<Rightarrow> bool" where
  "signed_at env s (Step i am, Moved ph ph') = (s \<in> set (tokens_signed env am ph))"
| "signed_at env s x = False"

fun request_cookie :: "auth_request \<Rightarrow> jsstring option" where
  "request_cookie (PostLogin b) = None"
| "request_cookie (PostRefresh c) = as_string c"
| "request_cookie (PostLogout c who) = as_string c"
| "request_cookie (GetMe c) = as_string c"
| "request_cookie (Protected c g) = as_string c"

fun honest_event :: "auth_env \<Rightarrow> auth_log \<Rightarrow> auth_event \<Rightarrow> bool" where
  "honest_event env hist (Begin t req) =
     (case request_cookie req of
        None \<Rightarrow> True
      | Some s \<Rightarrow> ae_verify env t s = None \<or> list_ex (signed_at env s) hist)"
| "honest_event env hist ev = True"

fun unforged :: "auth_env \<Rightarrow> auth_log \<Rightarrow> auth_log \<Rightarrow> bool" where
  "unforged env past [] = True"
| "unforged env past (x # xs) = (honest_event env past (fst x) \<and> unforged env (past @ [x]) xs)"

lemma unforged_snoc: "unforged env past (l @ [x]) \<longleftrightarrow> unforged env past l \<and> honest_event env (past @ l) (fst x)"
  by (induction l arbitrary: past) auto

section \<open>Logins\<close>

text \<open>The administrator a phase works for; the log shows a login of that administrator.\<close>

fun phase_admin :: "auth_phase \<Rightarrow> int option" where
  "phase_admin (LoginStore u) = Some (us_id u)"
| "phase_admin (LoginLog u acc ref) = Some (us_id u)"
| "phase_admin (RefreshAdmin jti a) = Some a"
| "phase_admin (RefreshRevoke jti u) = Some (us_id u)"
| "phase_admin (RefreshStore u) = Some (us_id u)"
| "phase_admin (MeFind a) = Some a"
| "phase_admin (GuardFind a g) = Some a"
| "phase_admin (Provision inp u) = Some (us_id u)"
| "phase_admin (Admitted u) = Some (us_id u)"
| "phase_admin _ = None"

definition authenticated :: "auth_log \<Rightarrow> int \<Rightarrow> bool" where
  "authenticated hist a \<longleftrightarrow>
     (\<exists>i am name pw u. (Step i am, Moved (LoginFind name pw) (LoginStore u)) \<in> set hist \<and> us_id u = a)"

lemma authenticated_mono: "authenticated hist a \<Longrightarrow> authenticated (hist @ l) a"
  unfolding authenticated_def by (simp only: set_append Un_iff) blast

lemma authenticated_login_step:
  "authenticated (hist @ [(Step i am, Moved (LoginFind name pw) (LoginStore u))]) (us_id u)"
  unfolding authenticated_def by (rule exI [of _ i], rule exI [of _ am]) auto

fun moved_admin :: "auth_event \<times> auth_outcome \<Rightarrow> int option" where
  "moved_admin (ev, Moved ph ph') = phase_admin ph"
| "moved_admin x = None"

definition sessions_traced :: "auth_env \<Rightarrow> auth_log \<Rightarrow> auth_state \<Rightarrow> bool" where
  "sessions_traced env hist st \<longleftrightarrow>
     (\<forall>r \<in> set (ad_sessions (au_db st)). stored_by env hist r) \<and>
     (\<forall>ph \<in> set (au_tasks st). \<forall>a. phase_admin ph = Some a \<longrightarrow> authenticated hist a) \<and>
     (\<forall>x \<in> set hist. \<forall>a. moved_admin x = Some a \<longrightarrow> authenticated hist a)"

lemma traced_moved:
  "sessions_traced env hist st \<Longrightarrow> (ev, Moved ph ph') \<in> set hist \<Longrightarrow> phase_admin ph = Some a \<Longrightarrow> authenticated hist a"
  by (auto simp: sessions_traced_def dest!: bspec [where x = "(ev, Moved ph ph')"])

lemma traced_session:
  assumes "sessions_traced env hist st" and "r \<in> set (ad_sessions (au_db st))"
  shows "authenticated hist (sn_admin r)"
proof -
  have "stored_by env hist r" using assms by (simp add: sessions_traced_def)
  then obtain i am ph ph' u where "(Step i am, Moved ph ph') \<in> set hist" "ph = LoginStore u \<or> ph = RefreshStore u"
    "sn_admin r = us_id u" unfolding stored_by_def by blast
  then show ?thesis using traced_moved [OF assms(1)] by auto
qed

lemma signed_log:
  assumes "list_ex (signed_at env s) hist"
  obtains i am ph ph' u where "(Step i am, Moved ph ph') \<in> set hist" "phase_admin ph = Some (us_id u)"
    "s = signAccessToken env (am_now am) u \<or> s = signRefreshToken env (am_now am) u (am_uuid am)"
proof -
  obtain x where x: "x \<in> set hist" "signed_at env s x" using assms by (auto simp: list_ex_iff)
  then obtain i am ph ph' where l: "x = (Step i am, Moved ph ph')" and s: "s \<in> set (tokens_signed env am ph)"
    by (auto elim!: signed_at.elims)
  show thesis
  proof (rule tokens_signed.elims [OF refl, of env am ph])
    fix e a u assume "env = e" "am = a" "ph = LoginStore u"
    then show thesis using that [of i am ph ph' u] x(1) l s by auto
  next
    fix e a u assume "env = e" "am = a" "ph = RefreshStore u"
    then show thesis using that [of i am ph ph' u] x(1) l s by auto
  qed (use s in auto)
qed

text \<open>A handler that begins to work for an administrator holds an access token of that administrator.\<close>

lemma begin_admin:
  assumes "phase_admin (auth_begin env t req) = Some a"
  obtains s p where "request_cookie req = Some s" "ae_verify env t s = Some p" "jp_type p = js ''access''" "jp_sub p = a"
proof (cases req)
  case (PostLogout c who)
  then have False using assms by (cases who) (auto simp: begin_defs split: option.splits if_splits)
  then show thesis ..
qed (use assms that in \<open>auto simp: begin_defs Let_def verified_cookie_def split: if_splits option.splits js_value.splits sum.splits\<close>)

lemma access_not_refresh: "js ''access'' \<noteq> js ''refresh''"
  by (simp add: js_eq)

lemma begin_authenticated:
  assumes law: "signs_tokens env" and tr: "sessions_traced env hist st" and h: "honest_event env hist (Begin t req)"
    and a: "phase_admin (auth_begin env t req) = Some a"
  shows "authenticated hist a"
proof (rule begin_admin [OF a])
  fix s p
  assume "request_cookie req = Some s" and v: "ae_verify env t s = Some p" and p: "jp_type p = js ''access''" "jp_sub p = a"
  then have "list_ex (signed_at env s) hist" using h by auto
  then show ?thesis
  proof (rule signed_log)
    fix i am ph ph' u
    assume m: "(Step i am, Moved ph ph') \<in> set hist" "phase_admin ph = Some (us_id u)"
      and "s = signAccessToken env (am_now am) u \<or> s = signRefreshToken env (am_now am) u (am_uuid am)"
    then have "p = access_payload u \<or> p = refresh_payload u (am_uuid am)"
      using v verified_signed [OF law] by (auto simp: signAccessToken_def signRefreshToken_def)
    then have "us_id u = a" using p by (auto simp: access_payload_def refresh_payload_def js_eq)
    then show ?thesis using traced_moved [OF tr] m by auto
  qed
qed

text \<open>A statement goes on for the same administrator, after a login, or for the one of a stored session.\<close>

lemma step_admin:
  assumes "auth_step env am db ph = (db', ph')" and "phase_admin ph' = Some a" and "running ph"
  shows "phase_admin ph = Some a \<or> (\<exists>name pw u. ph = LoginFind name pw \<and> ph' = LoginStore u \<and> us_id u = a) \<or>
    (\<exists>r \<in> set (ad_sessions db). sn_admin r = a)"
proof (cases ph)
  case (LogoutRevoke jti who)
  then show ?thesis using assms by (cases who) (auto split: if_splits)
next
  case (RefreshFind token jti)
  then show ?thesis using assms
    by (auto simp: find_session_def find_Some_iff split: if_splits option.splits)
next
  case (GuardFind b g)
  then show ?thesis using assms find_admin_id
    by (cases g) (auto simp: create_admin_begin_def split: if_splits option.splits js_value.splits)
qed (use assms find_admin_id in \<open>auto simp: Let_def split: if_splits option.splits bool.splits prod.splits\<close>)

lemma moved_traced:
  assumes tr: "sessions_traced env hist st" and i: "i < length (au_tasks st)" and "running (au_tasks st ! i)"
    and st: "auth_step env am (au_db st) (au_tasks st ! i) = (db, ph')"
  shows "sessions_traced env (hist @ [(Step i am, Moved (au_tasks st ! i) ph')]) (st\<lparr>au_db := db, au_tasks := (au_tasks st)[i := ph']\<rparr>)"
    (is "sessions_traced env ?h ?st")
proof -
  let ?ph = "au_tasks st ! i"
  have old: "authenticated hist a" if "ph \<in> set (au_tasks st)" "phase_admin ph = Some a" for ph a
    using tr that by (simp add: sessions_traced_def)
  have new: "authenticated ?h a" if "phase_admin ph' = Some a" for a
    using step_admin [OF st that assms(3)]
  proof (elim disjE)
    assume "phase_admin ?ph = Some a"
    then show ?thesis using old [OF nth_mem [OF i]] by (auto intro: authenticated_mono)
  next
    assume "\<exists>name pw u. ?ph = LoginFind name pw \<and> ph' = LoginStore u \<and> us_id u = a"
    then show ?thesis using authenticated_login_step by auto
  next
    assume "\<exists>r \<in> set (ad_sessions (au_db st)). sn_admin r = a"
    then show ?thesis using traced_session [OF tr] by (auto intro: authenticated_mono)
  qed
  have "\<forall>r \<in> set (ad_sessions db). stored_by env ?h r"
    using tr table_change_stored [OF step_change [OF st]] by (simp add: sessions_traced_def)
  moreover have "authenticated ?h a" if "ph \<in> set ((au_tasks st)[i := ph'])" "phase_admin ph = Some a" for ph a
  proof -
    have "ph = ph' \<or> ph \<in> set (au_tasks st)" using that(1) set_update_subset_insert [of "au_tasks st" i ph'] by blast
    then show ?thesis using new old that(2) authenticated_mono by blast
  qed
  moreover have "authenticated ?h a" if "phase_admin ?ph = Some a" for a
    using old [OF nth_mem [OF i]] that by (auto intro: authenticated_mono)
  ultimately show ?thesis using tr by (auto simp: sessions_traced_def intro: authenticated_mono)
qed

lemma other_traced:
  assumes "sessions_traced env hist st" and "\<forall>r \<in> set (ad_sessions (au_db st')). stored_by env (hist @ [(ev, out)]) r"
    and "moved_admin (ev, out) = None"
    and "\<And>ph a. ph \<in> set (au_tasks st') - set (au_tasks st) \<Longrightarrow> phase_admin ph = Some a \<Longrightarrow> authenticated hist a"
  shows "sessions_traced env (hist @ [(ev, out)]) st'"
proof -
  have "authenticated (hist @ [(ev, out)]) a" if "ph \<in> set (au_tasks st')" "phase_admin ph = Some a" for ph a
    using assms(1) assms(4) [of ph a] that by (cases "ph \<in> set (au_tasks st)") (auto simp: sessions_traced_def intro: authenticated_mono)
  then show ?thesis using assms by (auto simp: sessions_traced_def intro: authenticated_mono)
qed

lemma system_traced:
  assumes law: "signs_tokens env" and tr: "sessions_traced env hist st" and h: "honest_event env hist ev"
    and st: "auth_system env st ev = (st', out)"
  shows "sessions_traced env (hist @ [(ev, out)]) st'"
proof -
  have r: "\<forall>r \<in> set (ad_sessions (au_db st')). stored_by env (hist @ [(ev, out)]) r"
    using system_stored [OF st] tr by (simp add: sessions_traced_def)
  show ?thesis
  proof (cases ev)
    case (Begin t req)
    then show ?thesis using tr st r begin_authenticated [OF law tr h [unfolded Begin]]
      by (intro other_traced) (auto simp: Let_def)
  next
    case (Step i am)
    show ?thesis
    proof (cases "i < length (au_tasks st) \<and> running (au_tasks st ! i)")
      case True
      then show ?thesis using moved_traced [OF tr] st Step by (auto split: prod.splits)
    next
      case False
      then have "st' = st" "out = NoTask" using st Step by auto
      then show ?thesis using tr by (auto simp: sessions_traced_def intro: authenticated_mono stored_by_mono)
    qed
  next
    case (Bootstrap am inp)
    then show ?thesis using st by (intro other_traced [OF tr r]) (auto split: prod.splits)
  next
    case (SetActive b v)
    then show ?thesis using st by (intro other_traced [OF tr r]) auto
  next
    case (ForgetSessions p)
    then show ?thesis using st by (intro other_traced [OF tr r]) auto
  qed
qed

interpretation login_origin: invariant_system "auth_system env"
    "\<lambda>hist st. signs_tokens env \<longrightarrow> unforged env [] hist \<longrightarrow> sessions_traced env hist st"
  by unfold_locales (use system_traced unforged_snoc [of env "[]"] in fastforce)

lemma run_traced_sessions:
  assumes "signs_tokens env" and "run_log (auth_system env) (auth_start db) evs = (hist, st)" and "ad_sessions db = []"
    and "unforged env [] hist"
  shows "sessions_traced env hist st"
proof -
  have "sessions_traced env [] (auth_start db)" using assms(3) by (simp add: sessions_traced_def auth_start_def)
  then show ?thesis using login_origin.reachable_inv [of env "auth_start db" evs] assms by simp
qed

text \<open>A login in the log is a point of the run at which the password was right.\<close>

definition password_login :: "auth_env \<Rightarrow> auth_state \<Rightarrow> auth_event \<Rightarrow> int \<Rightarrow> bool" where
  "password_login env st ev a \<longleftrightarrow>
     (case ev of
        Step i am \<Rightarrow> i < length (au_tasks st) \<and>
          (case au_tasks st ! i of
             LoginFind name pw \<Rightarrow>
               list_ex (\<lambda>r. ar_id r = a \<and> ar_username r = name \<and> ar_active r \<and>
                 (case as_string pw of None \<Rightarrow> False | Some s \<Rightarrow> ae_compare env s (ar_hash r) = Some True)) (ad_admins (au_db st))
           | _ \<Rightarrow> False)
      | _ \<Rightarrow> False)"

lemma login_step:
  assumes "auth_system env st (Step i am) = (st', Moved (LoginFind name pw) (LoginStore u))"
  shows "password_login env st (Step i am) (us_id u)"
proof -
  have i: "i < length (au_tasks st)" "au_tasks st ! i = LoginFind name pw"
    and s: "auth_step env am (au_db st) (LoginFind name pw) = (au_db st', LoginStore u)"
    using assms by (auto split: if_splits prod.splits)
  then show ?thesis
    by (auto simp: password_login_def findAdminByUsername_def find_Some_iff list_ex_iff admin_user_of_def
        split: if_splits option.splits bool.splits js_value.splits)
qed

lemma authenticated_login:
  assumes "run_log (auth_system env) st evs = (hist, st')" and "authenticated hist a"
  shows "\<exists>es1 ev es2. evs = es1 @ ev # es2 \<and> password_login env (snd (run_log (auth_system env) st es1)) ev a"
proof -
  obtain i am name pw u where m: "(Step i am, Moved (LoginFind name pw) (LoginStore u)) \<in> set hist" and u: "us_id u = a"
    using assms(2) by (auto simp: authenticated_def)
  obtain h1 h2 where "hist = h1 @ (Step i am, Moved (LoginFind name pw) (LoginStore u)) # h2"
    using split_list [OF m] by blast
  then obtain es1 es2 t t' where "evs = es1 @ Step i am # es2" "run_log (auth_system env) st es1 = (h1, t)"
    "auth_system env t (Step i am) = (t', Moved (LoginFind name pw) (LoginStore u))"
    using run_log_point assms(1) by metis
  then show ?thesis using login_step u by (metis snd_conv)
qed

section \<open>Where administrators come from\<close>

definition provisioned_by :: "auth_log \<Rightarrow> admin_row \<Rightarrow> int \<Rightarrow> bool" where
  "provisioned_by hist r a \<longleftrightarrow>
     (\<exists>i am raw inp actor ph. (Step i am, Moved (Provision raw actor) ph) \<in> set hist \<and>
        validateBootstrapAdminInput raw = Some inp \<and> ar_username r = pv_username inp \<and> us_id actor = a)"

definition bootstraps :: "auth_log \<Rightarrow> nat" where
  "bootstraps hist = length (filter (\<lambda>x. case snd x of Bootstrapped (BootstrapDone i n) \<Rightarrow> True | _ \<Rightarrow> False) hist)"

definition admins_traced :: "auth_log \<Rightarrow> admin_db \<Rightarrow> bool" where
  "admins_traced hist db \<longleftrightarrow>
     bootstraps hist \<le> (if ad_admins db = [] then 0 else 1) \<and> (\<forall>r \<in> set (tl (ad_admins db)). \<exists>a. provisioned_by hist r a)"

lemma provisioned_mono: "provisioned_by hist r a \<Longrightarrow> provisioned_by (hist @ l) r a"
  unfolding provisioned_by_def by (simp only: set_append Un_iff) blast

lemma provisioned_cong: "ar_username r = ar_username q \<Longrightarrow> provisioned_by hist r a = provisioned_by hist q a"
  by (simp add: provisioned_by_def)

lemma bootstraps_append [simp]: "bootstraps (h1 @ h2) = bootstraps h1 + bootstraps h2"
  by (simp add: bootstraps_def)

lemma bootstraps_other [simp]:
  "bootstraps [] = 0" "bootstraps [(ev, Moved ph ph')] = 0" "bootstraps [(ev, Began ph)] = 0" "bootstraps [(ev, NoTask)] = 0"
  "bootstraps [(ev, Outside)] = 0" "bootstraps [(ev, Bootstrapped r)] = (case r of BootstrapDone i n \<Rightarrow> 1 | _ \<Rightarrow> 0)"
  by (auto simp: bootstraps_def split: bootstrap_result.splits)

lemma admins_traced_other: "admins_traced hist db \<Longrightarrow> bootstraps [x] = 0 \<Longrightarrow> admins_traced (hist @ [x]) db"
  unfolding admins_traced_def by (auto intro: provisioned_mono)

text \<open>The administrators after a statement.\<close>

lemma table_change_admins:
  assumes "table_change env am ph db db'"
  obtains "ad_admins db' = ad_admins db"
  | raw actor inp r where "ad_admins db \<noteq> []" "ad_admins db' = ad_admins db @ [r]" "ph = Provision raw actor"
      "validateBootstrapAdminInput raw = Some inp" "ar_username r = pv_username inp"
  | r where "ad_admins db = []" "ad_admins db' = [r]"
  using assms
proof cases
  case (created raw inp actor h a)
  then show thesis
    by (cases "ad_admins db = []") (auto simp: insert_admin_def new_admin_def intro: that)
qed (auto simp: storeRefreshSession_Some intro: that)

lemma step_admins_traced:
  assumes "admins_traced hist db" and "auth_step env am db ph = (db', ph')"
  shows "admins_traced (hist @ [(Step i am, Moved ph ph')]) db'"
proof (rule table_change_admins [OF step_change [OF assms(2)]])
  fix raw actor inp r
  assume a: "ad_admins db \<noteq> []" "ad_admins db' = ad_admins db @ [r]" and ph: "ph = Provision raw actor"
    "validateBootstrapAdminInput raw = Some inp" "ar_username r = pv_username inp"
  then have "provisioned_by (hist @ [(Step i am, Moved ph ph')]) r (us_id actor)"
    unfolding provisioned_by_def by (rule_tac exI [of _ i], rule_tac exI [of _ am]) auto
  then show ?thesis using assms(1) a by (auto simp: admins_traced_def intro: provisioned_mono)
qed (use assms(1) in \<open>auto simp: admins_traced_def intro: provisioned_mono split: if_splits\<close>)

lemma bootstrap_admins_traced:
  assumes "admins_traced hist db" and "createFirstAdmin env am inp db = (db', r)"
  shows "admins_traced (hist @ [(ev, Bootstrapped r)]) db'"
  using assms
  by (auto simp: admins_traced_def createFirstAdmin_def Let_def insert_admin_def intro: provisioned_mono
      split: option.splits if_splits)

lemma system_admins_traced:
  assumes tr: "admins_traced hist (au_db st)" and st: "auth_system env st ev = (st', out)"
  shows "admins_traced (hist @ [(ev, out)]) (au_db st')"
proof (cases ev)
  case (Step i am)
  show ?thesis
  proof (cases "i < length (au_tasks st) \<and> running (au_tasks st ! i)")
    case True
    then show ?thesis using step_admins_traced [OF tr] st Step by (auto split: prod.splits)
  qed (use st Step admins_traced_other [OF tr] in auto)
next
  case (Bootstrap am inp)
  then show ?thesis using tr st bootstrap_admins_traced by (auto split: prod.splits)
next
  case (SetActive b v)
  have "\<exists>a. provisioned_by hist r a" if m: "r \<in> set (tl (fst (sql_update p (\<lambda>r. r\<lparr>ar_active := v\<rparr>) (ad_admins (au_db st)))))" for r p
  proof -
    obtain q where q: "q \<in> set (tl (ad_admins (au_db st)))" "ar_username r = ar_username q"
      using m by (cases "ad_admins (au_db st)") (auto simp: sql_update_def)
    then obtain a where "provisioned_by hist q a" using tr unfolding admins_traced_def by blast
    then show ?thesis using provisioned_cong [OF q(2)] by blast
  qed
  moreover have "fst (sql_update p f rows) = [] \<longleftrightarrow> rows = []" for p f and rows :: "admin_row list" by (simp add: sql_update_def)
  ultimately have "admins_traced hist (au_db st')" using tr st SetActive by (auto simp: admins_traced_def)
  then show ?thesis using st SetActive admins_traced_other by auto
next
  case (ForgetSessions p)
  have "admins_traced hist (db\<lparr>ad_sessions := x\<rparr>) = admins_traced hist db" for hist db x by (simp add: admins_traced_def)
  then show ?thesis using st ForgetSessions admins_traced_other [OF tr] by auto
qed (use st admins_traced_other [OF tr] in \<open>auto simp: Let_def\<close>)

interpretation admin_origin: invariant_system "auth_system env" "\<lambda>hist st. admins_traced hist (au_db st)"
  by unfold_locales (rule system_admins_traced)

end
