(* ===== verification/AdminSessionExamples.thy ===== *)
theory AdminSessionExamples
  imports AdminSessionsOrigin
begin

text \<open>
  A small instance of the administrator sessions, on which the properties are applied: a token codec
  that keeps the law of \<^verbatim>\<open>jsonwebtoken\<close>, and a run that bootstraps an administrator, logs in, uses
  and rotates the session, and creates a second administrator.
\<close>

definition adm_int :: "int \<Rightarrow> jsstring" where
  "adm_int i = [if i < 0 then 1 else 0, nat \<bar>i\<bar>]"

definition adm_to_int :: "nat \<Rightarrow> nat \<Rightarrow> int" where
  "adm_to_int s n = (if s = 1 then - int n else int n)"

definition adm_sign :: "jwt_payload \<Rightarrow> int \<Rightarrow> int \<Rightarrow> jsstring" where
  "adm_sign p ttl t =
     adm_int (jp_sub p) @ adm_int (t div 1000 + ttl) @ length (jp_username p) # jp_username p @
     length (jp_type p) # jp_type p @ (case jp_jti p of None \<Rightarrow> [] | Some j \<Rightarrow> 0 # j)"

fun adm_verify :: "int \<Rightarrow> jsstring \<Rightarrow> jwt_payload option" where
  "adm_verify now (s # n # s' # e # k # r) =
     (case drop k r of
        [] \<Rightarrow> None
      | m # r' \<Rightarrow>
          if now div 1000 < adm_to_int s' e
          then Some \<lparr>jp_sub = adm_to_int s n, jp_username = take k r, jp_type = take m r',
            jp_jti = (case drop m r' of [] \<Rightarrow> None | z # j \<Rightarrow> Some j)\<rparr>
          else None)"
| "adm_verify now s = None"

definition adm_auth :: auth_env where
  "adm_auth =
     \<lparr>ae_sign = adm_sign, ae_verify = adm_verify, ae_sha = rev,
      ae_compare = (\<lambda>pw h. Some (h = 7 # pw)), ae_hash = (\<lambda>salt pw. Some (7 # pw)),
      ae_uuid = (\<lambda>s. if s = [] then None else Some s)\<rparr>"

lemma adm_to_int [simp]: "adm_to_int (if i < 0 then 1 else 0) (nat \<bar>i\<bar>) = i"
  by (simp add: adm_to_int_def)

lemma adm_signs: "signs_tokens adm_auth"
proof -
  have "adm_verify now (adm_sign p ttl t) = (if now div 1000 < t div 1000 + ttl then Some p else None)" for p ttl t now
    by (cases p) (simp add: adm_sign_def adm_int_def del: One_nat_def split: option.splits)
  then show ?thesis by (simp add: signs_tokens_def adm_auth_def)
qed

definition adm_ambient :: "int \<Rightarrow> jsstring \<Rightarrow> auth_ambient" where
  "adm_ambient t u =
     \<lparr>am_now = t, am_sql_now = t, am_uuid = u, am_salt = [], am_connects = True, am_fate = Executed, am_gap = 0\<rparr>"

definition adm_account :: provision_input where
  "adm_account = \<lparr>pv_username = js ''root'', pv_password = replicate 12 65, pv_full = None\<rparr>"

definition adm_login_body :: js_value where
  "adm_login_body = JObj [(js ''username'', JStr (js '' root'')), (js ''password'', JStr (replicate 12 65))]"

definition adm_create_body :: js_value where
  "adm_create_body = JObj [(js ''username'', JStr (js ''second'')), (js ''password'', JStr (replicate 12 66))]"

definition adm_user :: admin_user where
  "adm_user = \<lparr>us_id = 1, us_name = js ''root'', us_full = None\<rparr>"

definition adm_access :: jsstring where
  "adm_access = signAccessToken adm_auth 10 adm_user"

definition adm_refresh :: jsstring where
  "adm_refresh = signRefreshToken adm_auth 10 adm_user [5]"

definition adm_events :: "auth_event list" where
  "adm_events =
     [Bootstrap (adm_ambient 1 []) adm_account,
      Begin 2 (PostLogin adm_login_body), Step 0 (adm_ambient 3 []), Step 0 (adm_ambient 10 [5]), Step 0 (adm_ambient 11 []),
      Begin 20 (Protected (JStr adm_access) (CreateAdmin adm_create_body)), Step 1 (adm_ambient 21 []), Step 1 (adm_ambient 22 []),
      Begin 30 (PostRefresh (JStr adm_refresh)), Step 2 (adm_ambient 31 []), Step 2 (adm_ambient 32 []),
      Step 2 (adm_ambient 33 []), Step 2 (adm_ambient 34 [6]),
      Begin 40 (PostRefresh (JStr adm_refresh)), Step 3 (adm_ambient 41 [])]"

section \<open>The run, step by step\<close>

definition adm_row :: admin_row where
  "adm_row = \<lparr>ar_id = 1, ar_username = js ''root'', ar_hash = 7 # replicate 12 65, ar_full = None, ar_active = True\<rparr>"

definition adm_second :: admin_row where
  "adm_second = \<lparr>ar_id = 2, ar_username = js ''second'', ar_hash = 7 # replicate 12 66, ar_full = None, ar_active = True\<rparr>"

lemma adm_valid:
  "validateBootstrapAdminInput adm_account = Some adm_account"
  "validateBootstrapAdminInput \<lparr>pv_username = js ''second'', pv_password = replicate 12 66, pv_full = None\<rparr> =
     Some \<lparr>pv_username = js ''second'', pv_password = replicate 12 66, pv_full = None\<rparr>"
  by (simp_all add: validateBootstrapAdminInput_def adm_account_def js_eval valid_username_def username_unit_def)

lemma adm_requests:
  "auth_begin adm_auth t (PostLogin adm_login_body) = LoginFind (js ''root'') (JStr (replicate 12 65))"
  "create_admin_begin adm_create_body u =
     Provision \<lparr>pv_username = js ''second'', pv_password = replicate 12 66, pv_full = None\<rparr> u"
  by (simp_all add: begin_defs adm_login_body_def adm_create_body_def create_admin_begin_def js_get_def props_def js_eval)

lemma adm_verified:
  assumes "0 \<le> t" and "t < 1000"
  shows "adm_verify t adm_access = Some (access_payload adm_user)"
    and "adm_verify t adm_refresh = Some (refresh_payload adm_user [5])"
proof -
  have "ae_verify adm_auth t (ae_sign adm_auth p ttl 10) = Some p" if "0 < ttl" for p ttl
    using adm_signs assms that by (simp add: signs_tokens_def)
  from this [of ACCESS_SECONDS] this [of REFRESH_SECONDS]
  show "adm_verify t adm_access = Some (access_payload adm_user)"
    "adm_verify t adm_refresh = Some (refresh_payload adm_user [5])"
    by (simp_all add: adm_access_def adm_refresh_def signAccessToken_def signRefreshToken_def adm_auth_def
        ACCESS_SECONDS_def REFRESH_SECONDS_def)
qed

lemma adm_tokens_nonempty: "adm_access \<noteq> []" "adm_refresh \<noteq> []"
  by (simp_all add: adm_access_def adm_refresh_def signAccessToken_def signRefreshToken_def adm_auth_def adm_sign_def adm_int_def)

lemma adm_cookies:
  assumes "0 \<le> t" and "t < 1000"
  shows "auth_begin adm_auth t (Protected (JStr adm_access) g) = GuardFind 1 g"
    and "auth_begin adm_auth t (PostRefresh (JStr adm_refresh)) = RefreshFind adm_refresh [5]"
  using adm_verified [OF assms] adm_tokens_nonempty
  by (simp_all add: begin_defs verified_cookie_def access_payload_def refresh_payload_def adm_user_def token_id_def adm_auth_def)

lemma adm_env [simp]:
  "ae_uuid adm_auth s = (if s = [] then None else Some s)" "ae_sha adm_auth = rev"
  "ae_compare adm_auth pw h = Some (h = 7 # pw)" "ae_hash adm_auth salt pw = Some (7 # pw)"
  "ae_verify adm_auth = adm_verify"
  by (simp_all add: adm_auth_def)

lemma adm_names [simp]: "(js ''root'' = js ''second'') = False" "(js ''second'' = js ''root'') = False"
  by (simp_all add: js_eq)

lemma adm_account [simp]:
  "pv_username adm_account = js ''root''" "pv_password adm_account = replicate 12 65" "pv_full adm_account = None"
  by (simp_all add: adm_account_def)

definition adm_next_access :: jsstring where
  "adm_next_access = signAccessToken adm_auth 34 adm_user"

definition adm_next_refresh :: jsstring where
  "adm_next_refresh = signRefreshToken adm_auth 34 adm_user [6]"

definition adm_second_input :: provision_input where
  "adm_second_input = \<lparr>pv_username = js ''second'', pv_password = replicate 12 66, pv_full = None\<rparr>"

definition adm_outcomes :: "auth_outcome list" where
  "adm_outcomes =
     [Bootstrapped (BootstrapDone 1 (js ''root'')),
      Began (LoginFind (js ''root'') (JStr (replicate 12 65))),
      Moved (LoginFind (js ''root'') (JStr (replicate 12 65))) (LoginStore adm_user),
      Moved (LoginStore adm_user) (LoginLog adm_user adm_access adm_refresh),
      Moved (LoginLog adm_user adm_access adm_refresh)
        (Finished \<lparr>ry_response = user_reply adm_user, ry_cookies = SetCookies adm_access adm_refresh\<rparr>),
      Began (GuardFind 1 (CreateAdmin adm_create_body)),
      Moved (GuardFind 1 (CreateAdmin adm_create_body)) (Provision adm_second_input adm_user),
      Moved (Provision adm_second_input adm_user) (answer_with (created_reply 2 (js ''second''))),
      Began (RefreshFind adm_refresh [5]),
      Moved (RefreshFind adm_refresh [5]) (RefreshAdmin [5] 1),
      Moved (RefreshAdmin [5] 1) (RefreshRevoke [5] adm_user),
      Moved (RefreshRevoke [5] adm_user) (RefreshStore adm_user),
      Moved (RefreshStore adm_user)
        (Finished \<lparr>ry_response = user_reply adm_user, ry_cookies = SetCookies adm_next_access adm_next_refresh\<rparr>),
      Began (RefreshFind adm_refresh [5]),
      Moved (RefreshFind adm_refresh [5]) (raise_error (AppError 401 ''Refresh session expired or revoked''))]"

lemmas adm_model =
  createFirstAdmin_def next_id_def insert_admin_def new_admin_def findAdminByUsername_def findAdminById_def
  admin_user_of_def statement_def storeRefreshSession_def admin_exists_def logAdminActivity_def find_session_def
  revokeSession_def revoke_rows_def sql_update_def refreshMaxAgeMs_def

lemma adm_signed:
  "signAccessToken adm_auth 10 \<lparr>us_id = 1, us_name = js ''root'', us_full = None\<rparr> = adm_access"
  "signRefreshToken adm_auth 10 \<lparr>us_id = 1, us_name = js ''root'', us_full = None\<rparr> [5] = adm_refresh"
  "signAccessToken adm_auth 34 \<lparr>us_id = 1, us_name = js ''root'', us_full = None\<rparr> = adm_next_access"
  "signRefreshToken adm_auth 34 \<lparr>us_id = 1, us_name = js ''root'', us_full = None\<rparr> [6] = adm_next_refresh"
  by (simp_all add: adm_access_def adm_refresh_def adm_next_access_def adm_next_refresh_def adm_user_def)

lemma adm_run:
  "fst (run_log (auth_system adm_auth) (auth_start empty_admin_db) adm_events) = zip adm_events adm_outcomes"
  by (simp add: adm_events_def adm_outcomes_def adm_valid adm_requests adm_cookies auth_start_def empty_admin_db_def
      adm_ambient_def Let_def adm_model adm_user_def adm_second_input_def adm_signed del: replicate.simps auth_begin.simps)

section \<open>Two observations\<close>

text \<open>
  An access token that has expired is answered with status 500 by the guard, unlike every other
  refusal: the error of \<^verbatim>\<open>jwt.verify\<close> is not an \<^verbatim>\<open>AppError\<close>.
\<close>

lemma expired_access_answer:
  assumes "signs_tokens env" and "t div 1000 + ACCESS_SECONDS \<le> now div 1000" and "signAccessToken env t u \<noteq> []"
  shows "auth_begin env now (Protected (JStr (signAccessToken env t u)) g) = raise_error OtherError"
    and "status (errorHandler OtherError) = 500"
proof -
  have "ae_verify env now (signAccessToken env t u) = None"
    using assms(1,2) by (simp add: signs_tokens_def signAccessToken_def)
  then show "auth_begin env now (Protected (JStr (signAccessToken env t u)) g) = raise_error OtherError"
    using assms(3) by (simp add: begin_defs verified_cookie_def)
qed (simp add: refusal_def json_reply_def)

text \<open>Two refreshes of one token that interleave are both answered with new cookies.\<close>

definition race_events :: "auth_event list" where
  "race_events =
     [Step 0 (adm_ambient 1 []), Step (Suc 0) (adm_ambient 1 []), Step 0 (adm_ambient 1 []), Step (Suc 0) (adm_ambient 1 []),
      Step 0 (adm_ambient 1 []), Step (Suc 0) (adm_ambient 1 []), Step 0 (adm_ambient 34 [6]), Step (Suc 0) (adm_ambient 34 [7])]"

definition race_start :: auth_state where
  "race_start =
     \<lparr>au_db = \<lparr>ad_admins = [adm_row], ad_next = 2,
        ad_sessions = [\<lparr>sn_id = [5], sn_admin = 1, sn_hash = rev adm_refresh, sn_expires = 100, sn_revoked = None\<rparr>],
        ad_activity = []\<rparr>,
      au_tasks = [RefreshFind adm_refresh [5], RefreshFind adm_refresh [5]]\<rparr>"

lemma refresh_race:
  "au_tasks (snd (run_log (auth_system adm_auth) race_start race_events)) =
     [Finished \<lparr>ry_response = user_reply adm_user, ry_cookies = SetCookies adm_next_access adm_next_refresh\<rparr>,
      Finished \<lparr>ry_response = user_reply adm_user,
        ry_cookies = SetCookies adm_next_access (signRefreshToken adm_auth 34 adm_user [7])\<rparr>]"
  by (simp add: race_events_def race_start_def adm_ambient_def adm_row_def Let_def adm_model adm_user_def adm_signed)

end
