(* ===== verification/AdminSessionProperties.thy ===== *)
theory AdminSessionProperties
  imports AdminSessionExamples
begin

text \<open>
  What the administrator accounts and sessions promise, over every interleaving of requests: an
  administrator is only admitted after a login with the password, a session is refused once it has been
  spent, a refresh uses a token the service stored at most thirty days before, a deactivated
  administrator is not found, and administrators are created by administrators.
\<close>

section \<open>Helpers of the witnesses\<close>

definition adm_final :: auth_state where
  "adm_final = snd (run_log (auth_system adm_auth) (auth_start empty_admin_db) adm_events)"

lemma adm_run_at:
  "run_log (auth_system adm_auth) (auth_start empty_admin_db) adm_events = (zip adm_events adm_outcomes, adm_final)"
  using adm_run by (simp add: adm_final_def prod_eq_iff)

lemma adm_split:
  "n < 15 \<Longrightarrow> run_log (auth_system adm_auth) (auth_start empty_admin_db) adm_events =
    (take n (zip adm_events adm_outcomes) @ (adm_events ! n, adm_outcomes ! n) # drop (Suc n) (zip adm_events adm_outcomes),
     adm_final)"
  using id_take_nth_drop [of n "zip adm_events adm_outcomes"]
  by (simp add: adm_run_at) (simp add: adm_events_def adm_outcomes_def)

lemma adm_unforged: "unforged adm_auth [] (zip adm_events adm_outcomes)"
  by (simp add: adm_events_def adm_outcomes_def adm_ambient_def adm_user_def adm_signed)

lemma unforged_take: "unforged env past l \<Longrightarrow> unforged env past (take n l)"
  by (induction l arbitrary: past n) (auto simp: take_Cons split: nat.splits)

section \<open>Properties\<close>

text \<open>
  C9. Nobody is admitted without a password.  Whenever the guard of an administrator route looks up an
  administrator, an earlier event of the run was a login of that administrator at which the account was
  active and the password matched its hash; and the guard lets the request through only when the account
  is active at that moment.  It needs the law of \<^verbatim>\<open>jsonwebtoken\<close> and that no client holds a
  verifying token the service did not sign.
\<close>

theorem admitted_after_login:
  assumes "signs_tokens env" and "ad_sessions db = []"
    and "run_log (auth_system env) (auth_start db) evs = (h1 @ (ev, Moved (GuardFind a g) ph) # h2, st)"
    and "unforged env [] h1"
  shows "\<exists>es1 e es2 es3. evs = es1 @ e # es2 @ ev # es3 \<and>
    password_login env (snd (run_log (auth_system env) (auth_start db) es1)) e a \<and>
    (ph \<in> admin_refusals \<or>
     (\<exists>r \<in> set (ad_admins (au_db (snd (run_log (auth_system env) (auth_start db) (es1 @ e # es2))))).
        ar_id r = a \<and> ar_active r \<and> ph = enter_guarded g (admin_user_of r)))"
proof -
  obtain ds es3 t t' where evs: "evs = ds @ ev # es3" and ds: "run_log (auth_system env) (auth_start db) ds = (h1, t)"
    and st: "auth_system env t ev = (t', Moved (GuardFind a g) ph)"
    using run_log_point [OF assms(3)] by blast
  obtain i am where ev: "ev = Step i am" and i: "i < length (au_tasks t)" "au_tasks t ! i = GuardFind a g"
    and s: "auth_step env am (au_db t) (GuardFind a g) = (au_db t', ph)"
    using st by (cases ev) (auto simp: Let_def split: if_splits prod.splits)
  have "sessions_traced env h1 t" by (rule run_traced_sessions [OF assms(1) ds assms(2,4)])
  then have "authenticated h1 a" using nth_mem [OF i(1)] i(2) by (auto simp: sessions_traced_def)
  then obtain es1 e es2 where l: "ds = es1 @ e # es2" "password_login env (snd (run_log (auth_system env) (auth_start db) es1)) e a"
    using authenticated_login [OF ds] by blast
  have "ph \<in> admin_refusals \<or> (\<exists>r \<in> set (ad_admins (au_db t)). ar_id r = a \<and> ar_active r \<and> ph = enter_guarded g (admin_user_of r))"
    using s by (auto simp: admin_refusals_def findAdminById_def find_Some_iff split: if_splits option.splits)
  then show ?thesis using evs l ds by (metis append_assoc append_Cons snd_conv)
qed

theorem admitted_after_login_witness:
  "\<exists>es1 e es2 es3. adm_events = es1 @ e # es2 @ adm_events ! 6 # es3 \<and>
    password_login adm_auth (snd (run_log (auth_system adm_auth) (auth_start empty_admin_db) es1)) e 1"
proof -
  have "adm_outcomes ! 6 = Moved (GuardFind 1 (CreateAdmin adm_create_body)) (Provision adm_second_input adm_user)"
    by (simp add: adm_outcomes_def)
  then show ?thesis
    using admitted_after_login [OF adm_signs, of empty_admin_db adm_events "take 6 (zip adm_events adm_outcomes)" "adm_events ! 6"
        1 "CreateAdmin adm_create_body" "Provision adm_second_input adm_user" "drop 7 (zip adm_events adm_outcomes)" adm_final]
      adm_split [of 6] unforged_take [OF adm_unforged]
    by (auto simp: empty_admin_db_def)
qed

text \<open>
  C10. A spent session is refused.  Once a refresh has got past its revocation, or a logout has revoked
  the session of its token, every later lookup of that session answers 401 (or 500 when the statement
  fails), however the requests interleave, as long as its identifier is not drawn again.
\<close>

theorem spent_session_refused:
  assumes "run_log (auth_system env) st evs = (h1 @ x # h2, st')" and "spends jti x" and "ae_uuid env jti = Some u"
    and "list_all (\<lambda>y. drawn_session env (fst y) \<noteq> Some u) h2"
    and "(ev, Moved (RefreshFind token jti') ph) \<in> set h2" and "ae_uuid env jti' = Some u"
  shows "ph \<in> session_refusals"
proof -
  obtain es1 es2 t t' where st: "auth_system env t (fst x) = (t', snd x)" and rn: "run_log (auth_system env) t' es2 = (h2, st')"
    using run_log_point [of _ _ _ h1 "fst x" "snd x"] assms(1) by (metis prod.collapse)
  have "session_dead u (au_db t')" using spends_dead [OF _ st assms(3)] assms(2) by simp
  moreover have "es2 = map fst h2" using run_events [of "auth_system env" t' es2] rn by simp
  then have "list_all (\<lambda>e. drawn_session env e \<noteq> Some u) es2" using assms(4) by (simp add: list.pred_map comp_def)
  ultimately show ?thesis using run_dead [OF rn _ _ assms(6,5)] by simp
qed

theorem spent_session_refused_witness:
  "\<exists>ph. last adm_outcomes = Moved (RefreshFind adm_refresh [5]) ph \<and> ph \<in> session_refusals"
proof (intro exI conjI)
  show "last adm_outcomes =
      Moved (RefreshFind adm_refresh [5]) (raise_error (AppError 401 ''Refresh session expired or revoked''))"
    by (simp add: adm_outcomes_def)
  show "raise_error (AppError 401 ''Refresh session expired or revoked'') \<in> session_refusals"
    by (rule spent_session_refused [OF adm_split [of 11], where jti = "[5]" and u = "[5]" and ev = "adm_events ! 14"
          and token = adm_refresh and jti' = "[5]"])
      (simp_all add: adm_events_def adm_outcomes_def spends_def adm_ambient_def)
qed

text \<open>
  C11. A refresh answers a token the service stored.  A lookup that accepts a refresh token found a session
  that an earlier login or refresh of the same administrator stored under the identifier in the token,
  with the digest of the presented token, at most thirty days before.
\<close>

theorem refresh_within_thirty_days:
  assumes "ad_sessions db = []"
    and "run_log (auth_system env) (auth_start db) evs = (h1 @ (Step i am, Moved (RefreshFind token jti) (RefreshAdmin jti' a)) # h2, st)"
  shows "\<exists>i0 am0 ph ph' u. (Step i0 am0, Moved ph ph') \<in> set h1 \<and> (ph = LoginStore u \<or> ph = RefreshStore u) \<and> us_id u = a \<and>
    ae_uuid env jti = ae_uuid env (am_uuid am0) \<and>
    ae_sha env token = ae_sha env (signRefreshToken env (am_now am0) u (am_uuid am0)) \<and>
    am_now am \<le> am_now am0 + 30 * 24 * 60 * 60 * 1000"
proof -
  obtain es1 t t' where ds: "run_log (auth_system env) (auth_start db) es1 = (h1, t)"
    and st: "auth_system env t (Step i am) = (t', Moved (RefreshFind token jti) (RefreshAdmin jti' a))"
    using run_log_point [OF assms(2)] by blast
  have "\<forall>r \<in> set (ad_sessions (au_db t)). stored_by env h1 r"
    using session_origin.reachable_inv [of "auth_start db" env es1] ds assms(1) by (simp add: auth_start_def)
  moreover obtain r where "find_session env jti token (au_db t) = Some (Some r)" and "sn_admin r = a" "am_now am \<le> sn_expires r"
    using st by (auto split: if_splits prod.splits option.splits)
  moreover from this have "r \<in> set (ad_sessions (au_db t))" "ae_uuid env jti = Some (sn_id r)" "sn_hash r = ae_sha env token"
    using find_session_row by blast+
  ultimately show ?thesis by (fastforce simp: stored_by_def refreshMaxAgeMs_def)
qed

theorem refresh_within_thirty_days_witness:
  "\<exists>i0 am0 ph ph' u. (Step i0 am0, Moved ph ph') \<in> set (take 9 (zip adm_events adm_outcomes)) \<and>
    (ph = LoginStore u \<or> ph = RefreshStore u) \<and> us_id u = 1 \<and> am_now (adm_ambient 31 []) \<le> am_now am0 + 30 * 24 * 60 * 60 * 1000"
proof -
  have "adm_outcomes ! 9 = Moved (RefreshFind adm_refresh [5]) (RefreshAdmin [5] 1)" "adm_events ! 9 = Step 2 (adm_ambient 31 [])"
    by (simp_all add: adm_outcomes_def adm_events_def)
  then have "run_log (auth_system adm_auth) (auth_start empty_admin_db) adm_events =
      (take 9 (zip adm_events adm_outcomes) @ (Step 2 (adm_ambient 31 []), Moved (RefreshFind adm_refresh [5]) (RefreshAdmin [5] 1)) #
       drop 10 (zip adm_events adm_outcomes), adm_final)" using adm_split [of 9] by simp
  from refresh_within_thirty_days [OF _ this] show ?thesis by (simp add: empty_admin_db_def) blast
qed

text \<open>
  C12. A deactivated administrator is not found.  After the account has been deactivated, no later lookup of
  a login, a refresh, the guard or \<^verbatim>\<open>/me\<close> finds it, until it is activated again: a session that
  is still open and a token that has not expired are worth nothing.
\<close>

theorem deactivated_not_found:
  assumes "admin_wf (au_db st)" and "admin_exists a (au_db st)"
    and "run_log (auth_system env) st (SetActive a False # evs) = (hist, st')" and "SetActive a True \<notin> set evs"
    and "(ev, Moved ph ph') \<in> set hist"
  shows "\<not> finds_admin a ph ph'"
proof -
  obtain s1 h where st: "auth_system env st (SetActive a False) = (s1, Outside)"
    and rn: "run_log (auth_system env) s1 evs = (h, st')" and hist: "hist = (SetActive a False, Outside) # h"
    using assms(3) by (auto simp: Let_def split: prod.splits)
  have "inactive a (au_db s1)"
    using st assms(1,2) by (auto simp: inactive_def admin_wf_def admin_exists_iff list_all_iff sql_update_def)
  then show ?thesis using run_inactive [OF rn] assms(4,5) hist by auto
qed

definition adm_closed :: auth_state where
  "adm_closed = \<lparr>au_db = \<lparr>ad_admins = [adm_row], ad_next = 2, ad_sessions = [], ad_activity = []\<rparr>, au_tasks = [GuardFind 1 OtherHandler]\<rparr>"

theorem deactivated_not_found_witness:
  "\<exists>ph'. snd (last (fst (run_log (auth_system adm_auth) adm_closed [SetActive 1 False, Step 0 (adm_ambient 5 [])]))) =
      Moved (GuardFind 1 OtherHandler) ph' \<and> \<not> finds_admin 1 (GuardFind 1 OtherHandler) ph'"
proof -
  have "valid_username (js ''root'')" by (simp add: valid_username_def username_unit_def js_eval)
  then have wf: "admin_wf (au_db adm_closed)" "admin_exists 1 (au_db adm_closed)"
    by (simp_all add: adm_closed_def admin_wf_def admin_exists_def adm_row_def)
  have l: "fst (run_log (auth_system adm_auth) adm_closed [SetActive 1 False, Step 0 (adm_ambient 5 [])]) =
      [(SetActive 1 False, Outside), (Step 0 (adm_ambient 5 []), Moved (GuardFind 1 OtherHandler) (raise_error (AppError 401 ''Admin not found'')))]"
    by (simp add: adm_closed_def adm_ambient_def Let_def sql_update_def findAdminById_def adm_row_def)
  obtain h s where r: "run_log (auth_system adm_auth) adm_closed [SetActive 1 False, Step 0 (adm_ambient 5 [])] = (h, s)" by force
  have "\<not> finds_admin 1 (GuardFind 1 OtherHandler) (raise_error (AppError 401 ''Admin not found''))"
    by (rule deactivated_not_found [OF wf r, where ev = "Step 0 (adm_ambient 5 [])"]) (use l r in simp_all)
  then show ?thesis unfolding l by simp
qed

text \<open>
  C13. Administrators create administrators.  From empty tables, the bootstrap command succeeds at most
  once; identifiers and user names stay unique, user names keep their pattern and every session belongs
  to an administrator; and every administrator but the first was created by a request of one who had
  logged in with the password before.
\<close>

theorem administrators_vouched_for:
  assumes "signs_tokens env" and "run_log (auth_system env) (auth_start empty_admin_db) evs = (hist, st)" and "unforged env [] hist"
  shows "admin_wf (au_db st) \<and> bootstraps hist \<le> 1 \<and>
    (\<forall>r \<in> set (tl (ad_admins (au_db st))). \<exists>a. provisioned_by hist r a \<and>
      (\<exists>es1 e es2. evs = es1 @ e # es2 \<and> password_login env (snd (run_log (auth_system env) (auth_start empty_admin_db) es1)) e a))"
proof (intro conjI ballI)
  have start: "au_db (auth_start empty_admin_db) = empty_admin_db" by (simp add: auth_start_def)
  show "admin_wf (au_db st)"
    using admin_tables.reachable_inv [of "auth_start empty_admin_db" env evs] assms(2) by (simp add: start)
  have "admins_traced [] (au_db (auth_start empty_admin_db))"
    unfolding start by (simp add: admins_traced_def empty_admin_db_def)
  then have tr: "admins_traced hist (au_db st)"
    using admin_origin.reachable_inv [of "auth_start empty_admin_db" env evs] assms(2) by simp
  then show "bootstraps hist \<le> 1" by (simp add: admins_traced_def split: if_splits)
  fix r
  assume "r \<in> set (tl (ad_admins (au_db st)))"
  then obtain a where a: "provisioned_by hist r a" using tr by (auto simp: admins_traced_def)
  have "sessions_traced env hist st"
    using run_traced_sessions [OF assms(1,2) _ assms(3)] by (simp add: empty_admin_db_def)
  then have "authenticated hist a" using a traced_moved by (fastforce simp: provisioned_by_def)
  then show "\<exists>a. provisioned_by hist r a \<and>
      (\<exists>es1 e es2. evs = es1 @ e # es2 \<and> password_login env (snd (run_log (auth_system env) (auth_start empty_admin_db) es1)) e a)"
    using a authenticated_login [OF assms(2)] by blast
qed

theorem administrators_vouched_for_witness:
  "bootstraps (zip adm_events adm_outcomes) \<le> 1 \<and> admin_wf (au_db adm_final)"
  using administrators_vouched_for [OF adm_signs adm_run_at adm_unforged] by simp

end
