(* ===== verification/EmailContract.thy ===== *)
theory EmailContract
  imports EmailService
begin

text \<open>
  What the e-mail service relies on when it calls its store.  \<open>rows\<close> is the view of the database as
  challenge rows.  \<open>awaiting\<close> says that a code was issued and can still be entered, \<open>verified_with\<close>
  that it was entered and its token can still be consumed.  The laws are those of each call; the
  client's lemmas about the service are proved from them alone, and the PostgreSQL store is
  interpreted as an instance.
\<close>

definition awaiting :: "challenge list \<Rightarrow> jsstring \<Rightarrow> buffer \<Rightarrow> buffer \<Rightarrow> int \<Rightarrow> bool" where
  "awaiting rows iid em otp e \<longleftrightarrow>
     (\<exists>c \<in> set rows. matches_challenge iid em c \<and> open_challenge c \<and> otp_digest c = otp \<and>
        attempt_count c = 0 \<and> expires_at c = e)"

definition verified_with :: "challenge list \<Rightarrow> jsstring \<Rightarrow> buffer \<Rightarrow> buffer \<Rightarrow> int \<Rightarrow> bool" where
  "verified_with rows iid em tok e \<longleftrightarrow>
     (\<exists>c \<in> set rows. matches_challenge iid em c \<and> verification_token_digest c = Some tok \<and>
        verified_at c \<noteq> None \<and> consumed_at c = None \<and> expires_at c = e)"

definition undelivered :: "challenge list \<Rightarrow> jsstring \<Rightarrow> buffer \<Rightarrow> bool" where
  "undelivered rows iid otp \<longleftrightarrow>
     (\<exists>c \<in> set rows. intent_id c = sql_uuid iid \<and> otp_digest c = otp \<and> open_challenge c)"

definition steady :: "ambient \<Rightarrow> int \<Rightarrow> bool" where
  "steady a t \<longleftrightarrow> (\<forall>i. sql_clock a i = t)"

locale email_store_contract =
  fixes st :: "'db email_store" and rows :: "'db \<Rightarrow> challenge list"
  assumes create_keeps: "st_create st a ch db = (db', r) \<Longrightarrow> unique_intents (rows db) \<Longrightarrow> unique_intents (rows db')"
    and resend_keeps: "st_resend st a ch db = (db', r2) \<Longrightarrow> unique_intents (rows db) \<Longrightarrow> unique_intents (rows db')"
    and verify_keeps: "st_verify st a i db = (db', r3) \<Longrightarrow> unique_intents (rows db) \<Longrightarrow> unique_intents (rows db')"
    and delete_keeps: "unique_intents (rows db) \<Longrightarrow> unique_intents (rows (st_delete st iid otp db))"
    and create_awaits: "st_create st a ch db = (db', Inr Created) \<Longrightarrow> steady a t \<Longrightarrow>
      awaiting (rows db') (nc_intentId ch) (nc_emailDigest ch) (nc_otpDigest ch) (t + interval_seconds EMAIL_OTP_TTL_SECONDS)"
    and resend_awaits: "st_resend st a ch db = (db', Inr ResendSent) \<Longrightarrow> steady a t \<Longrightarrow>
      awaiting (rows db') (nc_intentId ch) (nc_emailDigest ch) (nc_otpDigest ch) (t + interval_seconds EMAIL_OTP_TTL_SECONDS)"
    and verify_awaited: "st_verify st a i db = (db', Inr r4) \<Longrightarrow> unique_intents (rows db) \<Longrightarrow> steady a t \<Longrightarrow> t < e \<Longrightarrow>
      awaiting (rows db) (vi_intentId i) (vi_emailDigest i) (vi_otpDigest i) e \<Longrightarrow>
      (\<exists>n. r4 = VerifyRateLimited n) \<or>
      (\<exists>s. r4 = Verified s) \<and> verified_with (rows db') (vi_intentId i) (vi_emailDigest i) (vi_tokenDigest i) e"
    and verify_sound: "st_verify st a i db = (db', Inr (Verified s)) \<Longrightarrow>
      \<exists>c \<in> set (rows db). matches_challenge (vi_intentId i) (vi_emailDigest i) c \<and> open_challenge c \<and>
        otp_digest c = vi_otpDigest i \<and> attempt_count c < EMAIL_OTP_MAX_ATTEMPTS"
    and consume_verified: "unique_intents (rows db) \<Longrightarrow> verified_with (rows db) iid em tok e \<Longrightarrow> t < e \<Longrightarrow>
      snd (st_consume st t iid em tok db)"
    and delete_removes: "\<not> undelivered (rows (st_delete st iid otp db)) iid otp"
begin

lemma store_request_keeps:
  "store_request st a i ch db = (db', r) \<Longrightarrow> unique_intents (rows db) \<Longrightarrow> unique_intents (rows db')"
  by (cases "st_create st a ch db"; cases "st_resend st a ch db")
     (auto simp: store_request_def create_keeps resend_keeps split: if_splits)

lemma store_request_awaits:
  assumes "store_request st a i ch db = (db', Inr None)" and "steady a t"
  shows "awaiting (rows db') (nc_intentId ch) (nc_emailDigest ch) (nc_otpDigest ch) (t + interval_seconds EMAIL_OTP_TTL_SECONDS)"
proof -
  have c: "create_answer x = None \<longleftrightarrow> x = Created" for x by (cases x) auto
  have r: "resend_answer x = None \<longleftrightarrow> x = ResendSent" for x by (cases x) auto
  have s: "map_sum id f y = Inr None \<longleftrightarrow> (\<exists>x. y = Inr x \<and> f x = None)" for f and y :: "sql_error + 'r" by (cases y) auto
  from assms(1) have "st_create st a ch db = (db', Inr Created) \<or> st_resend st a ch db = (db', Inr ResendSent)"
    by (cases "st_create st a ch db"; cases "st_resend st a ch db") (auto simp: store_request_def s c r split: if_splits)
  then show ?thesis using assms(2) create_awaits resend_awaits by blast
qed

lemma answer_not_final:
  assumes "store_request st a i ch db = (db', Inr (Some ans))"
  shows "ans \<noteq> RequestDeliveryFailed" and "ans \<noteq> RequestSent u v w"
proof -
  have n: "resend_answer x \<noteq> Some RequestDeliveryFailed \<and> resend_answer x \<noteq> Some (RequestSent u v w)"
    "create_answer y \<noteq> Some RequestDeliveryFailed \<and> create_answer y \<noteq> Some (RequestSent u v w)" for x y
    by (cases x; simp) (cases y; simp)
  have s: "map_sum id f y = Inr z \<longleftrightarrow> (\<exists>x. y = Inr x \<and> f x = z)" for f z and y :: "sql_error + 'r" by (cases y) auto
  from assms have "(\<exists>x. resend_answer x = Some ans) \<or> (\<exists>x. create_answer x = Some ans)"
    by (cases "st_create st a ch db"; cases "st_resend st a ch db") (auto simp: store_request_def s split: if_splits)
  then show "ans \<noteq> RequestDeliveryFailed" and "ans \<noteq> RequestSent u v w" using n by auto
qed

text \<open>The outcomes of a request that reached the store.\<close>

lemma request_sent:
  assumes "requestCode st send c a d i db = (db', Inr (RequestSent iid ttl retry))"
  shows "isValidVerificationEmail (c_lower c) (ri_email i) \<and>
    store_request st a i (request_challenge c d i) db = (db', Inr None) \<and> iid = request_intent d i"
  using assms
  by (auto simp: requestCode_def Let_def request_challenge_def
      split: if_splits sum.splits option.splits prod.splits dest: answer_not_final(2))

lemma delivery_failed_clean:
  assumes "requestCode st send c a d i db = (db', Inr RequestDeliveryFailed)"
  shows "\<not> undelivered (rows db') (request_intent d i) (nc_otpDigest (request_challenge c d i))"
proof -
  have i: "nc_intentId (request_challenge c d i) = request_intent d i" by (simp add: request_challenge_def Let_def)
  from assms obtain db1 where
    "db' = st_delete st (nc_intentId (request_challenge c d i)) (nc_otpDigest (request_challenge c d i)) db1"
    by (auto simp: requestCode_def Let_def split: if_splits sum.splits option.splits prod.splits dest: answer_not_final(1))
  then show ?thesis using delete_removes i by simp
qed

lemma verified_code_matches:
  assumes "verifyCode st c a d i db = (db', Inr (CodeVerified tok s))"
  shows "tok = createVerificationToken (d_token d) \<and>
    (\<exists>ch \<in> set (rows db). matches_challenge (ci_intentId i) (emailDigest (c_hmac c) (c_lower c) (c_key c) (ci_email i)) ch \<and>
       open_challenge ch \<and> attempt_count ch < EMAIL_OTP_MAX_ATTEMPTS \<and>
       otp_digest ch = otpDigest (c_hmac c) (c_key c) (ci_intentId i)
         (emailDigest (c_hmac c) (c_lower c) (c_key c) (ci_email i)) (ci_code i))"
proof -
  from assms have v: "st_verify st a (code_challenge c d i) db = (db', Inr (Verified s))"
    "tok = createVerificationToken (d_token d)"
    by (auto simp: verifyCode_def split: if_splits sum.splits prod.splits verify_result.splits)
  from verify_sound [OF v(1)] v(2) show ?thesis by (auto simp: code_challenge_def Let_def)
qed

text \<open>The way through the service that a citizen takes: request, enter the code, submit.\<close>

lemma round_trip:
  assumes u: "unique_intents (rows db)"
    and norm: "emailDigest (c_hmac c) (c_lower c) (c_key c) (normalizeVerificationEmail (c_lower c) (ri_email i)) =
      emailDigest (c_hmac c) (c_lower c) (c_key c) (ri_email i)"
    and r: "requestCode st send c a0 d i db = (db1, Inr (RequestSent iid ttl retry))" and t0: "steady a0 t0"
    and v: "verifyCode st c a1 d' \<lparr>ci_intentId = iid, ci_email = ri_email i, ci_code = createCode (d_code d), ci_ip = ip\<rparr> db1 =
      (db2, Inr out)" and nl: "\<forall>n. out \<noteq> CodeRejected (VerifyRateLimited n)"
    and t1: "steady a1 t1" "t1 < t0 + interval_seconds EMAIL_OTP_TTL_SECONDS"
    and t2: "t2 < t0 + interval_seconds EMAIL_OTP_TTL_SECONDS"
    and sh: "is_uuid_v4 iid" "length (d_token d') = 32"
  shows "(\<exists>s. out = CodeVerified (createVerificationToken (d_token d')) s) \<and>
    snd (consumeSubmissionVerification st c t2 (ri_email i) iid (createVerificationToken (d_token d')) db2)"
proof -
  let ?ch = "request_challenge c d i"
  let ?in = "\<lparr>ci_intentId = iid, ci_email = ri_email i, ci_code = createCode (d_code d), ci_ip = ip\<rparr>"
  let ?vi = "code_challenge c d' ?in"
  have q: "isValidVerificationEmail (c_lower c) (ri_email i)" "store_request st a0 i ?ch db = (db1, Inr None)"
    "iid = request_intent d i" using request_sent [OF r] by auto
  have e: "nc_intentId ?ch = vi_intentId ?vi" "nc_emailDigest ?ch = vi_emailDigest ?vi" "nc_otpDigest ?ch = vi_otpDigest ?vi"
    by (simp_all add: request_challenge_def code_challenge_def Let_def q(3) norm)
  have u1: "unique_intents (rows db1)" using store_request_keeps [OF q(2) u] .
  from v q(1) obtain r3 where sv: "st_verify st a1 ?vi db1 = (db2, Inr r3)"
    and out: "out = (case r3 of Verified s \<Rightarrow> CodeVerified (createVerificationToken (d_token d')) s | _ \<Rightarrow> CodeRejected r3)"
    by (auto simp: verifyCode_def createCode_shape split: sum.splits prod.splits verify_result.splits)
  have aw: "awaiting (rows db1) (vi_intentId ?vi) (vi_emailDigest ?vi) (vi_otpDigest ?vi)
      (t0 + interval_seconds EMAIL_OTP_TTL_SECONDS)"
    using store_request_awaits [OF q(2) t0] by (simp only: e)
  from verify_awaited [OF sv u1 t1 aw] nl out obtain s where "r3 = Verified s"
    and ver: "verified_with (rows db2) (vi_intentId ?vi) (vi_emailDigest ?vi) (vi_tokenDigest ?vi)
      (t0 + interval_seconds EMAIL_OTP_TTL_SECONDS)" by auto
  moreover have "snd (st_consume st t2 (vi_intentId ?vi) (vi_emailDigest ?vi) (vi_tokenDigest ?vi) db2)"
    by (rule consume_verified [OF verify_keeps [OF sv u1] ver t2])
  ultimately show ?thesis using out q(1) sh
    by (simp add: consumeSubmissionVerification_def createVerificationToken_shape code_challenge_def Let_def)
qed

end

section \<open>The PostgreSQL store keeps the contract\<close>

lemma cleanup_keeps:
  assumes "steady a t" "c \<in> set (challenges db)" "t \<le> expires_at c" "consumed_at c = None"
  shows "c \<in> set (challenges (cleanupTemporaryState a db))"
proof -
  obtain P where P: "challenges (cleanupTemporaryState a db) = filter P (challenges db)"
    "\<And>c. \<not> P c \<Longrightarrow> \<exists>i. stale_challenge (sql_clock a (100 + i)) c" using cleanup_challenges [of a db] by blast
  have "P c" using P(2) [of c] assms by (force simp: stale_challenge_def steady_def interval_defs)
  then show ?thesis using P(1) assms(2) by simp
qed

lemma awaitingI:
  "c \<in> set rows \<Longrightarrow> matches_challenge iid em c \<Longrightarrow> open_challenge c \<Longrightarrow> otp_digest c = otp \<Longrightarrow> attempt_count c = 0 \<Longrightarrow>
   expires_at c = e \<Longrightarrow> awaiting rows iid em otp e"
  by (auto simp: awaiting_def)

lemma pg_create_awaits:
  assumes r: "createChallenge a ch db = (db', Inr Created)" and t: "steady a t"
  shows "awaiting (challenges db') (nc_intentId ch) (nc_emailDigest ch) (nc_otpDigest ch) (t + interval_seconds EMAIL_OTP_TTL_SECONDS)"
proof -
  let ?c = "new_challenge_row t ch"
  from r t obtain rl where "db' = cleanupTemporaryState a (db\<lparr>rate_limits := rl, challenges := challenges db @ [?c]\<rparr>)"
    by (auto simp: createChallenge_def db_transaction_def insert_challenge_def Let_def steady_def
        split: sum.splits option.splits if_splits)
  then have "?c \<in> set (challenges db')"
    using cleanup_keeps [OF t, of ?c] by (auto simp: new_challenge_row_def interval_defs email_limits)
  then show ?thesis
    by (rule awaitingI) (simp_all add: new_challenge_row_def matches_challenge_def open_challenge_def)
qed

lemma pg_resend_awaits:
  assumes r: "resendChallenge a ch db = (db', Inr ResendSent)" and t: "steady a t"
  shows "awaiting (challenges db') (nc_intentId ch) (nc_emailDigest ch) (nc_otpDigest ch) (t + interval_seconds EMAIL_OTP_TTL_SECONDS)"
proof -
  from r obtain rl where "resend_apply a ch (db\<lparr>rate_limits := rl\<rparr>) = (ResendSent, db')"
    by (auto simp: resendChallenge_def db_transaction_def split: sum.splits option.splits if_splits)
  then have one: "length (filter (resend_guard t ch) (challenges db)) = 1"
    and db': "db' = cleanupTemporaryState a (db\<lparr>rate_limits := rl,
      challenges := upd (resend_guard t ch) (resend_assign t ch) (challenges db)\<rparr>)"
    using t by (auto simp: resend_apply_def Let_def sql_update_def steady_def upd_def [symmetric] split: if_splits)
  then obtain c where c: "c \<in> set (challenges db)" "resend_guard t ch c"
    by (metis filter_False length_0_conv zero_neq_one)
  let ?c = "resend_assign t ch c"
  have "?c \<in> set (challenges db')" unfolding db'
    using c by (intro cleanup_keeps [OF t])
      (auto simp: set_upd resend_assign_def interval_defs email_limits resend_guard_def open_challenge_def)
  then show ?thesis
    using c(2) by (intro awaitingI [of ?c])
      (auto simp: resend_assign_def matches_challenge_def open_challenge_def resend_guard_def)
qed

lemma pg_verify_awaited:
  assumes v: "verifyChallenge a i db = (db', Inr r)" and u: "unique_intents (challenges db)" and t: "steady a t" "t < e"
    and aw: "awaiting (challenges db) (vi_intentId i) (vi_emailDigest i) (vi_otpDigest i) e"
  shows "(\<exists>n. r = VerifyRateLimited n) \<or>
    (\<exists>s. r = Verified s) \<and> verified_with (challenges db') (vi_intentId i) (vi_emailDigest i) (vi_tokenDigest i) e"
proof (cases "\<exists>n. r = VerifyRateLimited n")
  case False
  with v obtain rl where va: "verify_attempt a i (db\<lparr>rate_limits := rl\<rparr>) = (r, db')"
    by (auto simp: verifyChallenge_def db_transaction_def split: sum.splits option.splits)
  obtain c where c: "c \<in> set (challenges db)" "matches_challenge (vi_intentId i) (vi_emailDigest i) c" "open_challenge c"
    "otp_digest c = vi_otpDigest i" "attempt_count c = 0" "expires_at c = e" using aw by (auto simp: awaiting_def)
  have cl: "sql_clock a k = t" for k using t(1) by (simp add: steady_def)
  have g: "attempt_guard t i c" using c t(2) by (simp add: attempt_guard_def email_limits)
  have same: "d = c" if "d \<in> set (challenges db)" "attempt_guard t i d" for d
    using that g unique_same [OF u that(1) c(1)] by (simp add: attempt_guard_def matches_challenge_def)
  have "find (attempt_guard t i) (challenges db) \<noteq> None" using c(1) g by (auto simp: find_None_iff)
  then have f: "find (attempt_guard t i) (challenges db) = Some c" using same by (auto dest: find_some_in)
  let ?u = "upd (attempt_guard t i) attempt_assign (challenges db)" and ?g = "verify_guard t i"
  let ?db1 = "db\<lparr>rate_limits := rl, challenges := ?u\<rparr>" and ?c1 = "attempt_assign c"
  have ap: "verify_apply a i ?db1 = (r, db')"
    using va f c(4) by (simp add: verify_attempt_def Let_def fst_sql_update cl)
  have c1: "?c1 \<in> set ?u" "?g ?c1" using c(1) g by (auto simp: set_upd verify_guard_def attempt_guard_def
      open_challenge_def matches_challenge_def)
  have "length (filter ?g ?u) = 1" using touched_one [of ?u ?g ?c1] c1 u by (simp add: unique_upd)
  then obtain x where "filter ?g ?u = [x]" by (auto simp: length_Suc_conv)
  then have "\<exists>s. r = Verified s" and db': "db' = cleanupTemporaryState a (?db1\<lparr>challenges := upd ?g (verify_assign t i) ?u\<rparr>)"
    using ap by (auto simp: verify_apply_def Let_def fst_sql_update cl)
  moreover have "verify_assign t i ?c1 \<in> set (challenges db')" unfolding db'
  proof (rule cleanup_keeps [OF t(1)])
    show "verify_assign t i ?c1 \<in> set (challenges (?db1\<lparr>challenges := upd ?g (verify_assign t i) ?u\<rparr>))"
      using c1 by (auto simp: set_upd [of _ ?g] intro!: bexI [of _ ?c1])
  qed (use t c(3,6) in \<open>auto simp: verify_assign_def open_challenge_def\<close>)
  then have "verified_with (challenges db') (vi_intentId i) (vi_emailDigest i) (vi_tokenDigest i) e"
    unfolding verified_with_def
    by (rule bexI [rotated]) (use c in \<open>simp add: verify_assign_def matches_challenge_def open_challenge_def\<close>)
  ultimately show ?thesis by blast
qed simp

lemma pg_verify_sound:
  assumes "verifyChallenge a i db = (db', Inr (Verified s))"
  shows "\<exists>c \<in> set (challenges db). matches_challenge (vi_intentId i) (vi_emailDigest i) c \<and> open_challenge c \<and>
    otp_digest c = vi_otpDigest i \<and> attempt_count c < EMAIL_OTP_MAX_ATTEMPTS"
proof -
  from assms obtain rl where "verify_attempt a i (db\<lparr>rate_limits := rl\<rparr>) = (Verified s, db')"
    by (auto simp: verifyChallenge_def db_transaction_def split: sum.splits option.splits)
  then obtain c where "find (attempt_guard (sql_clock a 2) i) (challenges db) = Some c" "otp_digest c = vi_otpDigest i"
    by (auto simp: verify_attempt_def Let_def explain_rejection_def split: option.splits if_splits)
  then show ?thesis by (auto dest!: find_some_in simp: attempt_guard_def)
qed

lemma pg_consume_verified:
  assumes u: "unique_intents (challenges db)" and v: "verified_with (challenges db) iid em tok e" and t: "t < e"
  shows "snd (consumeVerification t iid em tok db)"
proof -
  obtain c where "c \<in> set (challenges db)" "consume_guard t iid em tok c"
    using v t by (auto simp: verified_with_def consume_guard_def)
  then have "length (filter (consume_guard t iid em tok) (challenges db)) = 1"
    using touched_one [OF u] by simp
  then show ?thesis by (simp add: consumeVerification_def sql_update_def)
qed

lemma spec_step_unique: "spec_step cs e out cs' \<Longrightarrow> unique_intents cs \<Longrightarrow> unique_intents cs'"
proof (induction rule: spec_step.induct)
  case (create t ch cs a P)
  then show ?case by (intro unique_filter) (auto simp: unique_intents_def)
qed (simp_all add: unique_filter unique_upd)

interpretation pg: email_store_contract postgres_store challenges
proof unfold_locales
  fix a ch i db db' and r :: "sql_error + create_result" and r2 :: "sql_error + resend_result"
    and r3 :: "sql_error + verify_result"
  show "st_create postgres_store a ch db = (db', r) \<Longrightarrow> unique_intents (challenges db) \<Longrightarrow> unique_intents (challenges db')"
    using create_refines spec_step_unique by (simp add: postgres_store_def) blast
  show "st_resend postgres_store a ch db = (db', r2) \<Longrightarrow> unique_intents (challenges db) \<Longrightarrow> unique_intents (challenges db')"
    using resend_refines spec_step_unique by (simp add: postgres_store_def) blast
  show "st_verify postgres_store a i db = (db', r3) \<Longrightarrow> unique_intents (challenges db) \<Longrightarrow> unique_intents (challenges db')"
    using verify_refines spec_step_unique by (simp add: postgres_store_def) blast
qed (auto simp: postgres_store_def deleteUndeliveredChallenge_def undelivered_def unique_filter
    intro: pg_create_awaits pg_resend_awaits pg_verify_sound pg_consume_verified dest: pg_verify_awaited)

end
