(* ===== verification/EmailProperties.thy ===== *)
theory EmailProperties
  imports EmailContract
begin

text \<open>
  The properties of the e-mail verification component, over runs of the PostgreSQL store from the
  empty database, over the service that calls it, and over the generators and digests of the cryptographic
  boundary.
\<close>

section \<open>A concrete run\<close>

definition demo_ambient :: "int \<Rightarrow> ambient" where
  "demo_ambient t = \<lparr>sql_clock = \<lambda>_. t, process_ms = \<lambda>_. 0, challenge_locked = \<lambda>_. False, rate_locked = \<lambda>_. False\<rparr>"

definition demo_events :: "store_event list" where
  "demo_events =
     [Create (demo_ambient 0) \<lparr>nc_intentId = [97], nc_emailDigest = [1], nc_otpDigest = [2], nc_ipDigest = [3]\<rparr>,
      Verify (demo_ambient 1000000)
        \<lparr>vi_intentId = [97], vi_emailDigest = [1], vi_ipDigest = [3], vi_otpDigest = [2], vi_tokenDigest = [4]\<rparr>,
      Consume 2000000 [65] [1] [4]]"

lemma demo_outcomes:
  "map snd (fst (run_log store_step empty_email_db demo_events)) =
     [CreateOut (Inr Created), VerifyOut (Inr (Verified 599)), ConsumeOut True]"
  by code_simp

lemma demo_run:
  "\<exists>c v db. run_log store_step empty_email_db demo_events =
     ([c, v] @ (Consume 2000000 [65] [1] [4], ConsumeOut True) # [], db) \<and> is_created [97] c \<and> is_guess [97] v"
proof -
  obtain hist db where r: "run_log store_step empty_email_db demo_events = (hist, db)" by force
  have "map fst hist = demo_events" using run_events [of store_step empty_email_db demo_events] r by simp
  moreover have "map snd hist = [CreateOut (Inr Created), VerifyOut (Inr (Verified 599)), ConsumeOut True]"
    using demo_outcomes r by simp
  ultimately have "hist = zip demo_events [CreateOut (Inr Created), VerifyOut (Inr (Verified 599)), ConsumeOut True]"
    using zip_map_fst_snd [of hist] by simp
  then show ?thesis using r by (simp add: demo_events_def sql_uuid_def lower_ascii_def)
qed

section \<open>Properties of runs\<close>

text \<open>
  C14. A report submission consumes an e-mail verification only if, earlier in the run, a code was
  issued for that intent and e-mail (created or resent) and a verification with exactly that code
  succeeded and fixed exactly the token now presented.
\<close>

theorem email_consumption_authorised:
  assumes "run_log store_step empty_email_db es = (h1 @ (Consume t iid em tok, ConsumeOut True) # h2, db)"
  shows "authorised (sql_uuid iid) em tok h1"
  using run_auth [OF assms] by (auto simp: auth_inv_def consumed_ok_def)

theorem email_consumption_authorised_witness:
  "\<exists>h db. run_log store_step empty_email_db demo_events =
     (h @ [(Consume 2000000 [65] [1] [4], ConsumeOut True)], db) \<and> authorised (sql_uuid [65]) [1] [4] h"
proof -
  obtain c v db where "run_log store_step empty_email_db demo_events =
     ([c, v] @ (Consume 2000000 [65] [1] [4], ConsumeOut True) # [], db)" using demo_run by blast
  from email_consumption_authorised [OF this] this show ?thesis by blast
qed

text \<open>
  C15. In every run, the verifications of one intent are consumed at most as often as the intent was
  created: one verification pays for one submission.
\<close>

theorem email_consumed_once:
  "count (is_consumed k) (fst (run_log store_step empty_email_db es))
     \<le> count (is_created k) (fst (run_log store_step empty_email_db es))"
proof -
  obtain hist db where r: "run_log store_step empty_email_db es = (hist, db)" by force
  have "budget_inv k hist (challenges db)" by (rule run_budget [OF r])
  moreover from this have "0 \<le> weight (consumes_left k) (challenges db)"
    by (intro weight_nonneg left_nonneg) (simp add: budget_inv_def)
  ultimately show ?thesis using r by (simp add: budget_inv_def)
qed


text \<open>
  Every reachable table satisfies the constraints the migration declares: intents are unique,
  attempts stay within 0..5 and sends within 1..3, a token exists exactly when the challenge is
  verified, and only verified challenges are consumed.
\<close>

theorem email_table_well_formed:
  "table_wf (challenges (snd (run_log store_step empty_email_db es)))"
proof -
  obtain hist db where r: "run_log store_step empty_email_db es = (hist, db)" by force
  then show ?thesis using run_budget [OF r, of "[]"] by (simp add: budget_inv_def)
qed

section \<open>Properties of the cryptographic boundary\<close>

text \<open>
  What the service generates, the endpoints accept: an intent identifier made from sixteen random
  bytes is a version 4 UUID, a code has six digits, and a token made from thirty-two random bytes has
  the forty-three base64url characters the submission endpoint asks for.
\<close>

theorem email_generated_accepted:
  assumes "length idBytes = 16" and "length tokenBytes = 32"
  shows "is_uuid_v4 (cryptoRandomUuid idBytes) \<and> code_shape (createCode r) \<and>
    token_shape (createVerificationToken tokenBytes)"
  using assms by (simp add: cryptoRandomUuid_is_v4 createCode_shape createVerificationToken_shape)

theorem email_generated_accepted_witness:
  "is_uuid_v4 (cryptoRandomUuid (replicate 16 255)) \<and> code_shape (createCode 42) \<and>
    token_shape (createVerificationToken (replicate 32 7))"
  by (rule email_generated_accepted) simp_all

text \<open>
  The messages that are authenticated determine what they authenticate: equal messages of the code
  digest or the token digest have the same purpose, intent, e-mail digest and secret, and no code
  message is a token message, for intents without the NUL separator and digests of one length.
\<close>

theorem email_digest_domains:
  assumes "0 \<notin> set iid" "0 \<notin> set iid'" "length em = length em'"
    and "{p, p'} \<subseteq> {js ''otp'', js ''submission-token''}"
    and "digest_message p (otp_value iid em secret) = digest_message p' (otp_value iid' em' secret')"
  shows "p = p' \<and> iid = iid' \<and> em = em' \<and> secret = secret'"
proof -
  have "0 \<notin> set p" "0 \<notin> set p'" using assms(4) by (auto simp: js_def)
  then have "p = p'" and "otp_value iid em secret = otp_value iid' em' secret'"
    using digest_message_inj [of p p'] assms(5) by auto
  then show ?thesis using otp_value_inj [OF assms(1-3)] by blast
qed

theorem email_digest_domains_witness:
  "js ''otp'' = js ''otp'' \<and> [97::nat] = [97] \<and> [1 :: 8 word] = [1] \<and> js ''123456'' = js ''123456''"
  by (rule email_digest_domains) simp_all

section \<open>Properties of the service and its handlers\<close>

definition demo_crypto :: email_crypto where
  "demo_crypto = \<lparr>c_hmac = \<lambda>k m. [], c_lower = lower_ascii, c_key = [107]\<rparr>"

definition demo_draws :: draws where
  "demo_draws = \<lparr>d_id = replicate 16 0, d_code = 123456, d_token = replicate 32 9\<rparr>"

definition demo_uuid :: jsstring where
  "demo_uuid = cryptoRandomUuid (replicate 16 0)"

definition demo_input :: request_input where
  "demo_input = \<lparr>ri_email = [65, 64, 98, 46, 115], ri_intentId = None, ri_ip = [58], ri_locale = Sk\<rparr>"

definition demo_code :: code_input where
  "demo_code = \<lparr>ci_intentId = demo_uuid, ci_email = ri_email demo_input, ci_code = createCode (d_code demo_draws), ci_ip = [58]\<rparr>"

definition demo_request :: "email_db \<times> (sql_error + request_result)" where
  "demo_request = requestCode postgres_store (\<lambda>_ _ _. True) demo_crypto (demo_ambient 0) demo_draws demo_input empty_email_db"

definition demo_verify :: "email_db \<times> (sql_error + code_result)" where
  "demo_verify = verifyCode postgres_store demo_crypto (demo_ambient 1000000) demo_draws demo_code (fst demo_request)"

lemmas demo_eval = demo_ambient_def db_transaction_def applyRateLimits_def upsert_rate_def same_limit_def
  next_rate_row_def int4_succ_def int4_max_def interval_defs stale_challenge_def stale_rate_def
  matches_challenge_def open_challenge_def sql_update_def email_limits empty_email_db_def ceil_seconds_def

lemma demo_valid: "isValidVerificationEmail lower_ascii (ri_email demo_input)"
  by (simp add: isValidVerificationEmail_def normalizeVerificationEmail_def demo_input_def email_shape_def
      email_char_def js_eval)

lemma demo_create:
  "\<exists>rl. rl = [\<lparr>rl_scope = SendEmail, rl_key = nc_emailDigest ch, rl_window_started_at = 0, rl_attempt_count = 1, rl_updated_at = 0\<rparr>,
      \<lparr>rl_scope = SendIp, rl_key = nc_ipDigest ch, rl_window_started_at = 0, rl_attempt_count = 1, rl_updated_at = 0\<rparr>] \<and>
    createChallenge (demo_ambient 0) ch empty_email_db = (\<lparr>challenges = [new_challenge_row 0 ch], rate_limits = rl\<rparr>, Inr Created)"
  by (simp add: createChallenge_def cleanup_idle demo_eval send_limits_def insert_challenge_def Let_def new_challenge_row_def)


definition demo_rates :: "rate_row list" where
  "demo_rates = [\<lparr>rl_scope = SendEmail, rl_key = [], rl_window_started_at = 0, rl_attempt_count = 1, rl_updated_at = 0\<rparr>,
     \<lparr>rl_scope = SendIp, rl_key = [], rl_window_started_at = 0, rl_attempt_count = 1, rl_updated_at = 0\<rparr>]"

lemmas demo_service = postgres_store_def demo_crypto_def demo_input_def demo_code_def demo_uuid_def demo_draws_def
  request_challenge_def request_intent_def code_challenge_def emailDigest_def otpDigest_def ipDigest_def digest_def
  verificationTokenDigest_def new_challenge_row_def

lemma demo_request_run:
  "demo_request = (\<lparr>challenges = [new_challenge_row 0 (request_challenge demo_crypto demo_draws demo_input)],
      rate_limits = demo_rates\<rparr>, Inr (RequestSent demo_uuid 600 60))"
  using demo_create [of "request_challenge demo_crypto demo_draws demo_input"] demo_valid
  by (simp add: demo_request_def requestCode_def store_request_def demo_service Let_def demo_rates_def email_limits)

lemma demo_verify_run: "snd demo_verify = Inr (CodeVerified (createVerificationToken (replicate 32 9)) 599)"
  using demo_valid
  by (simp add: demo_request_run demo_verify_def verifyCode_def demo_service createCode_shape demo_rates_def
     verifyChallenge_def verify_limits_def cleanup_idle demo_eval verify_attempt_def verify_apply_def attempt_guard_def
     verify_guard_def attempt_assign_def verify_assign_def Let_def)


text \<open>
  C17. The way a citizen takes through the service works: a code that was sent is accepted within its
  ten minutes from the address it was sent to (unless the request is rate limited or the database
  fails), and the token returned is then consumed by the submission.
\<close>

theorem email_round_trip:
  assumes "unique_intents (challenges db)"
    and "normalizeVerificationEmail (c_lower c) (normalizeVerificationEmail (c_lower c) (ri_email i)) =
      normalizeVerificationEmail (c_lower c) (ri_email i)"
    and "requestCode postgres_store send c a0 d i db = (db1, Inr (RequestSent iid ttl retry))" and "steady a0 t0"
    and "verifyCode postgres_store c a1 d'
      \<lparr>ci_intentId = iid, ci_email = ri_email i, ci_code = createCode (d_code d), ci_ip = ip\<rparr> db1 = (db2, Inr out)"
    and "\<forall>n. out \<noteq> CodeRejected (VerifyRateLimited n)"
    and "steady a1 t1" and "t1 < t0 + interval_seconds EMAIL_OTP_TTL_SECONDS"
    and "t2 < t0 + interval_seconds EMAIL_OTP_TTL_SECONDS"
    and "is_uuid_v4 iid" and "length (d_token d') = 32"
  shows "(\<exists>s. out = CodeVerified (createVerificationToken (d_token d')) s) \<and>
    snd (consumeSubmissionVerification postgres_store c t2 (ri_email i) iid (createVerificationToken (d_token d')) db2)"
  using pg.round_trip [OF assms(1) _ assms(3-11)] assms(2) by (simp add: emailDigest_def)

theorem email_round_trip_witness:
  "snd (consumeSubmissionVerification postgres_store demo_crypto 2000000 (ri_email demo_input) demo_uuid
     (createVerificationToken (replicate 32 9)) (fst demo_verify))"
proof -
  have r: "requestCode postgres_store (\<lambda>_ _ _. True) demo_crypto (demo_ambient 0) demo_draws demo_input empty_email_db =
      (fst demo_request, Inr (RequestSent demo_uuid 600 60))"
    using demo_request_run by (simp add: demo_request_def)
  have v: "verifyCode postgres_store demo_crypto (demo_ambient 1000000) demo_draws
      \<lparr>ci_intentId = demo_uuid, ci_email = ri_email demo_input, ci_code = createCode (d_code demo_draws), ci_ip = [58]\<rparr>
      (fst demo_request) = (fst demo_verify, Inr (CodeVerified (createVerificationToken (replicate 32 9)) 599))"
    using demo_verify_run by (simp add: demo_verify_def demo_code_def prod_eq_iff)
  have u: "is_uuid_v4 demo_uuid" by (simp add: demo_uuid_def cryptoRandomUuid_is_v4)
  have n: "normalizeVerificationEmail lower_ascii (normalizeVerificationEmail lower_ascii (ri_email demo_input)) =
      normalizeVerificationEmail lower_ascii (ri_email demo_input)"
    by (simp add: normalizeVerificationEmail_def demo_input_def js_eval)
  have d: "unique_intents (challenges empty_email_db)" by (simp add: empty_email_db_def unique_intents_def)
  have s: "steady (demo_ambient t) t" for t by (simp add: steady_def demo_ambient_def)
  have "snd (consumeSubmissionVerification postgres_store demo_crypto 2000000 (ri_email demo_input) demo_uuid
     (createVerificationToken (d_token demo_draws)) (fst demo_verify))"
    by (rule conjunct2 [OF email_round_trip [OF d _ r s v _ s _ _ u]])
      (simp_all add: demo_crypto_def demo_draws_def interval_defs email_limits n)
  then show ?thesis by (simp add: demo_draws_def)
qed

lemma verify_response_succeeds: "succeeds (verify_response out) \<longleftrightarrow> (\<exists>tok s. out = Inr (CodeVerified tok s))"
  by (cases out rule: verify_response.cases) (auto, simp add: succeeds_def js_get_def props_def js_def)

text \<open>
  A code is accepted only against a stored challenge: if the verify endpoint answers success, the
  feature is enabled, the body names a well-formed intent, an address and a code of six digits, and the
  database held an open challenge of that intent and address, with attempts left, whose code digest is
  the digest of exactly the code that was entered.
\<close>

theorem email_verified_sound:
  assumes "post_verify (Some (postgres_store, send, c)) enabled a d ip b db = (db', r)" and "succeeds r"
  shows "enabled \<and> (\<exists>iid email code. js_get ''intentId'' b = JStr iid \<and> js_get ''email'' b = JStr email \<and>
    js_get ''code'' b = JStr code \<and> is_uuid_v4 iid \<and> code_shape code \<and>
    (\<exists>ch \<in> set (challenges db). matches_challenge iid (emailDigest (c_hmac c) (c_lower c) (c_key c) email) ch \<and>
      open_challenge ch \<and> attempt_count ch < EMAIL_OTP_MAX_ATTEMPTS \<and>
      otp_digest ch = otpDigest (c_hmac c) (c_key c) iid (emailDigest (c_hmac c) (c_lower c) (c_key c) email) code))"
proof -
  from assms obtain i where e: enabled and p: "parse_verify ip b = Some i"
    and h: "map_prod id verify_response (verifyCode postgres_store c a d i db) = (db', r)"
    by (auto simp: post_verify_def INVALID_REQUEST_def split: if_splits option.splits)
  then obtain tok s where v: "verifyCode postgres_store c a d i db = (db', Inr (CodeVerified tok s))"
    using assms(2) by (cases "verifyCode postgres_store c a d i db") (auto simp: verify_response_succeeds)
  moreover from v have "code_shape (ci_code i)" by (auto simp: verifyCode_def split: if_splits)
  moreover from p have "js_get ''intentId'' b = JStr (ci_intentId i)" "js_get ''email'' b = JStr (ci_email i)"
    "js_get ''code'' b = JStr (ci_code i)" "is_uuid_v4 (ci_intentId i)"
    by (auto simp: parse_verify_def split: option.splits if_splits)
  ultimately show ?thesis using e pg.verified_code_matches [OF v] by blast
qed

definition demo_body :: js_value where
  "demo_body = JObj [(js ''intentId'', JStr demo_uuid), (js ''email'', JStr (ri_email demo_input)),
     (js ''code'', JStr (createCode (d_code demo_draws)))]"

theorem email_verified_sound_witness:
  "\<exists>ch \<in> set (challenges (fst demo_request)). open_challenge ch \<and> attempt_count ch < EMAIL_OTP_MAX_ATTEMPTS"
proof -
  have p: "parse_verify [58] demo_body = Some demo_code"
    by (simp add: parse_verify_def demo_body_def js_get_def props_def isRecord_def hasOnlyKeys_def has_own_def js_def
        demo_code_def is_uuid_v4_length demo_input_def createCode_def)
      (simp add: demo_uuid_def cryptoRandomUuid_is_v4)
  let ?h = "post_verify (Some (postgres_store, \<lambda>_ _ _. True, demo_crypto)) True (demo_ambient 1000000) demo_draws [58]
    demo_body (fst demo_request)"
  have v: "verifyCode postgres_store demo_crypto (demo_ambient 1000000) demo_draws demo_code (fst demo_request) =
      (fst demo_verify, Inr (CodeVerified (createVerificationToken (replicate 32 9)) 599))"
    using demo_verify_run by (simp add: demo_verify_def prod_eq_iff)
  have "succeeds (snd ?h)" by (simp add: post_verify_def p v verify_response_succeeds del: verify_response.simps)
  from email_verified_sound [OF surjective_pairing this] show ?thesis by blast
qed

text \<open>
  A message that could not be delivered leaves no code behind: after the answer that delivery
  failed, no open challenge of the intent carries the code that was to be sent.
\<close>

theorem email_undelivered_removed:
  assumes "requestCode postgres_store send c a d i db = (db', Inr RequestDeliveryFailed)"
  shows "\<not> undelivered (challenges db') (request_intent d i) (nc_otpDigest (request_challenge c d i))"
  by (rule pg.delivery_failed_clean [OF assms])

definition demo_failed :: "email_db \<times> (sql_error + request_result)" where
  "demo_failed = requestCode postgres_store (\<lambda>_ _ _. False) demo_crypto (demo_ambient 0) demo_draws demo_input empty_email_db"

theorem email_undelivered_removed_witness:
  "\<not> undelivered (challenges (fst demo_failed)) demo_uuid []"
proof -
  have "snd demo_failed = Inr RequestDeliveryFailed"
    using demo_create [of "request_challenge demo_crypto demo_draws demo_input"] demo_valid
    by (simp add: demo_failed_def requestCode_def store_request_def demo_service Let_def)
  then have "requestCode postgres_store (\<lambda>_ _ _. False) demo_crypto (demo_ambient 0) demo_draws demo_input empty_email_db =
      (fst demo_failed, Inr RequestDeliveryFailed)" by (simp add: demo_failed_def prod_eq_iff)
  from email_undelivered_removed [OF this] show ?thesis by (simp add: demo_service Let_def)
qed

end
