(* ===== verification/AddressAdmission.thy ===== *)
theory AddressAdmission
  imports JsPrelude
begin

text \<open>
  The bounded admission queue in front of the address provider, class
  \<^verbatim>\<open>BoundedAdmissionController\<close> of \<^verbatim>\<open>services/reportAddressSuggestion.service.ts\<close>.

  Queue entries are heap objects named by a number; the queue, the map of keys in flight and the
  running executions hold those names, so identity comparisons of the source are comparisons of
  names.  Subscribers (the promises handed to callers) are numbered too and \<open>answers\<close> lists what
  each was told.  JavaScript runs one callback at a time: a step is one callback (a call of
  \<^verbatim>\<open>run\<close>, an abort signal, a timer, the completion of a provider call), run to its end.

  The clock, the admission policy and the budget policy are read through \<open>world\<close>; every reading has
  its own number, \<open>tick\<close>.  The flag \<^verbatim>\<open>pumpRunning\<close> only stops the pump from re-entering itself
  while an expired entry is dropped, which the model writes as the plain removal \<open>expire_entry\<close>.
\<close>

section \<open>State\<close>

record admission_settings =
  maxPending :: int
  maxActive :: int
  queueExpiryMs :: int
  timeoutMs :: int
  minStartIntervalMs :: int
  dailyBudget :: "int option"

text \<open>An absent policy is \<open>None\<close>; the budget policy may throw, \<open>None\<close> as its answer.\<close>

record world =
  now :: "nat \<Rightarrow> int"
  admit :: "(nat \<Rightarrow> bool) option"
  tryConsumeBudget :: "(nat \<Rightarrow> bool option) option"

datatype entry_state = Queued | Starting | Running | Settled

datatype reject_code =
  Cancelled | AdmissionRejected | QueueFull | QueueExpired | DailyBudgetExceeded | ProviderTimeout
| ProviderFailed jsstring nat

datatype 'v answer = Resolved 'v | Rejected reject_code

text \<open>What the provider's promise may be rejected with; messages are left out.\<close>

datatype thrown = SuggestionError jsstring nat | AddressProviderError jsstring nat | OtherError

fun publicProviderError :: "thrown \<Rightarrow> reject_code" where
  "publicProviderError (SuggestionError code st) = ProviderFailed code st"
| "publicProviderError (AddressProviderError code st) = ProviderFailed code st"
| "publicProviderError OtherError = ProviderFailed (js ''provider_unavailable'') 503"

datatype 'v work_result = Value 'v | NoValue | Failure thrown

record queue_entry =
  e_key :: jsstring
  e_subscribers :: "nat list"
  e_expiresAt :: int
  e_timer :: bool
  e_state :: entry_state

text \<open>
  An execution awaits the race of the work and the timeout, or holds its slot after the timeout
  until the work is done.
\<close>

datatype exec_phase = Awaiting | Holding

record counters =
  accepted :: int
  rejected :: int
  coalesced :: int
  timeouts :: int
  providerFailure :: int

record provider_call =
  call_entry :: nat
  call_at :: int
  call_day :: "int option"

record 'v controller =
  queue :: "nat list"
  inFlight :: "jsstring \<Rightarrow> nat option"
  active :: int
  nextStartAt :: int
  spacingTimer :: bool
  dailyBudgetDate :: "int option"
  dailyBudgetUsed :: int
  cnt :: counters
  entries :: "nat \<Rightarrow> queue_entry option"
  execs :: "nat \<Rightarrow> exec_phase option"
  answers :: "(nat \<times> 'v answer) list"
  calls :: "provider_call list"
  nextEntry :: nat
  nextSub :: nat
  tick :: nat

definition empty_counters :: counters where
  "empty_counters = \<lparr>accepted = 0, rejected = 0, coalesced = 0, timeouts = 0, providerFailure = 0\<rparr>"

definition initial_controller :: "'v controller" where
  "initial_controller =
     \<lparr>queue = [], inFlight = \<lambda>_. None, active = 0, nextStartAt = 0, spacingTimer = False, dailyBudgetDate = None,
      dailyBudgetUsed = 0, cnt = empty_counters, entries = \<lambda>_. None, execs = \<lambda>_. None, answers = [], calls = [],
      nextEntry = 0, nextSub = 0, tick = 0\<rparr>"

text \<open>
  The date of a time value, \<^verbatim>\<open>toISOString().slice(0, 10)\<close>, is named by its day number; outside the
  range of \<^verbatim>\<open>Date\<close> the call throws.
\<close>

definition iso_day :: "int \<Rightarrow> int option" where
  "iso_day t = (if \<bar>t\<bar> \<le> 8640000000000000 then Some (t div 86400000) else None)"

section \<open>Settling\<close>

abbreviation set_entry :: "nat \<Rightarrow> (queue_entry \<Rightarrow> queue_entry) \<Rightarrow> 'v controller \<Rightarrow> 'v controller" where
  "set_entry eid f s \<equiv> s\<lparr>entries := (entries s)(eid := map_option f (entries s eid))\<rparr>"

definition release_key :: "nat \<Rightarrow> queue_entry \<Rightarrow> 'v controller \<Rightarrow> 'v controller" where
  "release_key eid e s =
     (if inFlight s (e_key e) = Some eid then s\<lparr>inFlight := (inFlight s)(e_key e := None)\<rparr> else s)"

definition settle :: "nat \<Rightarrow> 'v answer \<Rightarrow> 'v controller \<Rightarrow> 'v controller" where
  "settle eid ans s =
     (case entries s eid of
        None \<Rightarrow> s
      | Some e \<Rightarrow>
          if e_state e = Settled then s
          else (release_key eid e
            (s\<lparr>entries := (entries s)(eid := Some (e\<lparr>e_state := Settled, e_timer := False, e_subscribers := []\<rparr>))\<rparr>))
            \<lparr>answers := answers s @ map (\<lambda>x. (x, ans)) (e_subscribers e)\<rparr>)"

definition count_rejected :: "'v controller \<Rightarrow> 'v controller" where
  "count_rejected s = s\<lparr>cnt := (cnt s)\<lparr>rejected := rejected (cnt s) + 1\<rparr>\<rparr>"

text \<open>\<^verbatim>\<open>expireQueued\<close> without the pump that follows it.\<close>

definition expire_entry :: "nat \<Rightarrow> 'v controller \<Rightarrow> 'v controller" where
  "expire_entry eid s =
     (case entries s eid of
        None \<Rightarrow> s
      | Some e \<Rightarrow>
          if e_state e \<noteq> Queued then s
          else count_rejected (settle eid (Rejected QueueExpired) (s\<lparr>queue := remove1 eid (queue s)\<rparr>)))"

section \<open>The pump\<close>

definition take_budget :: "admission_settings \<Rightarrow> world \<Rightarrow> nat \<Rightarrow> 'v controller \<Rightarrow> bool \<times> int option \<times> 'v controller" where
  "take_budget cfg w i s =
     (case tryConsumeBudget w of
        Some consume \<Rightarrow> (consume i = Some True, None, s)
      | None \<Rightarrow>
          (case dailyBudget cfg of
             None \<Rightarrow> (True, None, s)
           | Some budget \<Rightarrow>
               (case iso_day (now w i) of
                  None \<Rightarrow> (False, None, s)
                | Some today \<Rightarrow>
                    (let used = (if Some today \<noteq> dailyBudgetDate s then 0 else dailyBudgetUsed s);
                         allowed = used < budget in
                     (allowed, Some today,
                      s\<lparr>dailyBudgetDate := Some today, dailyBudgetUsed := (if allowed then used + 1 else used)\<rparr>)))))"

text \<open>
  The entry at the head takes a slot, may turn out expired or over budget, and otherwise starts.
  The readings are the expiry check, the budget and the start.
\<close>

definition start_head :: "admission_settings \<Rightarrow> world \<Rightarrow> nat \<Rightarrow> nat \<Rightarrow> queue_entry \<Rightarrow> 'v controller \<Rightarrow> 'v controller" where
  "start_head cfg w i eid e s0 =
     (let s = (set_entry eid (\<lambda>e. e\<lparr>e_timer := False, e_state := Starting\<rparr>) s0)\<lparr>queue := tl (queue s0), active := active s0 + 1\<rparr> in
      if e_expiresAt e \<le> now w i
      then count_rejected (settle eid (Rejected QueueExpired) (s\<lparr>active := active s - 1\<rparr>))
      else
        (case take_budget cfg w (i + 1) s of (allowed, day, s1) \<Rightarrow>
           if \<not> allowed
           then count_rejected (settle eid (Rejected DailyBudgetExceeded) (s1\<lparr>active := active s1 - 1\<rparr>))
           else (set_entry eid (\<lambda>e. e\<lparr>e_state := Running\<rparr>) s1)
             \<lparr>nextStartAt := now w (i + 2) + minStartIntervalMs cfg, execs := (execs s1)(eid \<mapsto> Awaiting),
              calls := calls s1 @ [\<lparr>call_entry = eid, call_at = now w (i + 2), call_day = day\<rparr>]\<rparr>))"

text \<open>
  The loop; \<open>fuel\<close> bounds its turns and \<open>None\<close> means that it needs more.  A turn whose head entry is
  expired but cannot be dropped would repeat for ever.
\<close>

fun pump_loop :: "admission_settings \<Rightarrow> world \<Rightarrow> nat \<Rightarrow> 'v controller \<Rightarrow> 'v controller option" where
  "pump_loop cfg w 0 s = None"
| "pump_loop cfg w (Suc fuel) s =
     (if active s < maxActive cfg \<and> queue s \<noteq> [] then
        (let eid = hd (queue s) in
         case entries s eid of
           None \<Rightarrow> None
         | Some e \<Rightarrow>
             if e_expiresAt e \<le> now w (tick s)
             then pump_loop cfg w fuel ((expire_entry eid s)\<lparr>tick := tick s + 1\<rparr>)
             else if nextStartAt s - now w (tick s + 1) > 0
             then Some (s\<lparr>spacingTimer := True, tick := tick s + 2\<rparr>)
             else pump_loop cfg w fuel ((start_head cfg w (tick s + 2) eid e s)\<lparr>tick := tick s + 5\<rparr>))
      else Some s)"

definition pump :: "admission_settings \<Rightarrow> world \<Rightarrow> 'v controller \<Rightarrow> 'v controller option" where
  "pump cfg w s = pump_loop cfg w (Suc (length (queue s))) s"

section \<open>Callbacks\<close>

definition reject_new :: "nat \<Rightarrow> reject_code \<Rightarrow> 'v controller \<Rightarrow> 'v controller" where
  "reject_new sub code s = s\<lparr>answers := answers s @ [(sub, Rejected code)]\<rparr>"

definition admitted :: "world \<Rightarrow> nat \<Rightarrow> bool" where
  "admitted w i = (case admit w of None \<Rightarrow> True | Some f \<Rightarrow> f i)"

definition enqueue :: "admission_settings \<Rightarrow> jsstring \<Rightarrow> nat \<Rightarrow> int \<Rightarrow> 'v controller \<Rightarrow> 'v controller" where
  "enqueue cfg key sub expires s =
     (let eid = nextEntry s;
          e = \<lparr>e_key = key, e_subscribers = [sub], e_expiresAt = expires, e_timer = True, e_state = Queued\<rparr> in
      s\<lparr>cnt := (cnt s)\<lparr>accepted := accepted (cnt s) + 1\<rparr>, inFlight := (inFlight s)(key \<mapsto> eid),
        entries := (entries s)(eid \<mapsto> e), queue := queue s @ [eid], nextEntry := eid + 1\<rparr>)"

definition run :: "admission_settings \<Rightarrow> world \<Rightarrow> jsstring \<Rightarrow> bool \<Rightarrow> 'v controller \<Rightarrow> 'v controller option" where
  "run cfg w key aborted s0 =
     (let sub = nextSub s0; i = tick s0; s = s0\<lparr>nextSub := sub + 1, tick := i + 3\<rparr> in
      if aborted then Some (reject_new sub Cancelled s)
      else
        (case inFlight s key of
           Some eid \<Rightarrow>
             Some ((set_entry eid (\<lambda>e. e\<lparr>e_subscribers := e_subscribers e @ [sub]\<rparr>) s)
               \<lparr>cnt := (cnt s)\<lparr>coalesced := coalesced (cnt s) + 1\<rparr>\<rparr>)
         | None \<Rightarrow>
             if \<not> admitted w i then Some (reject_new sub AdmissionRejected (count_rejected s))
             else
               (let canStartImmediately = active s < maxActive cfg \<and> queue s = [] \<and> nextStartAt s \<le> now w (i + 1) in
                if \<not> canStartImmediately \<and> int (length (queue s)) \<ge> maxPending cfg
                then Some (reject_new sub QueueFull (count_rejected s))
                else pump cfg w (enqueue cfg key sub (now w (i + 2) + queueExpiryMs cfg) s))))"

text \<open>
  The abort signal of a subscriber.  A running execution only has its own signal aborted, which the
  provider answers later; its entry is settled at once.
\<close>

definition cancelWhenUnobserved :: "admission_settings \<Rightarrow> world \<Rightarrow> nat \<Rightarrow> queue_entry \<Rightarrow> 'v controller \<Rightarrow> 'v controller option" where
  "cancelWhenUnobserved cfg w eid e s =
     (if e_subscribers e \<noteq> [] \<or> e_state e = Settled then Some s
      else pump cfg w (release_key eid e
        (s\<lparr>queue := (if e_state e = Queued then remove1 eid (queue s) else queue s),
           entries := (entries s)(eid \<mapsto> e\<lparr>e_timer := False, e_state := Settled\<rparr>)\<rparr>)))"

definition abort_subscriber :: "admission_settings \<Rightarrow> world \<Rightarrow> nat \<Rightarrow> nat \<Rightarrow> 'v controller \<Rightarrow> 'v controller option" where
  "abort_subscriber cfg w eid sub s =
     (case entries s eid of
        None \<Rightarrow> Some s
      | Some e \<Rightarrow>
          if sub \<notin> set (e_subscribers e) then Some s
          else
            (let e' = e\<lparr>e_subscribers := remove1 sub (e_subscribers e)\<rparr> in
             cancelWhenUnobserved cfg w eid e'
               (reject_new sub Cancelled (s\<lparr>entries := (entries s)(eid \<mapsto> e')\<rparr>))))"

definition expiry_timer :: "admission_settings \<Rightarrow> world \<Rightarrow> nat \<Rightarrow> 'v controller \<Rightarrow> 'v controller option" where
  "expiry_timer cfg w eid s =
     (case entries s eid of
        None \<Rightarrow> Some s
      | Some e \<Rightarrow> if e_timer e \<and> e_state e = Queued then pump cfg w (expire_entry eid s) else Some s)"

definition spacing_timer :: "admission_settings \<Rightarrow> world \<Rightarrow> 'v controller \<Rightarrow> 'v controller option" where
  "spacing_timer cfg w s = (if spacingTimer s then pump cfg w (s\<lparr>spacingTimer := False\<rparr>) else Some s)"

definition provider_timeout :: "nat \<Rightarrow> 'v controller \<Rightarrow> 'v controller option" where
  "provider_timeout eid s =
     (if execs s eid = Some Awaiting
      then Some (settle eid (Rejected ProviderTimeout)
        (s\<lparr>execs := (execs s)(eid \<mapsto> Holding), cnt := (cnt s)\<lparr>timeouts := timeouts (cnt s) + 1\<rparr>\<rparr>))
      else Some s)"

definition is_settled :: "nat \<Rightarrow> 'v controller \<Rightarrow> bool" where
  "is_settled eid s = (case entries s eid of None \<Rightarrow> True | Some e \<Rightarrow> e_state e = Settled)"

definition work_answer :: "nat \<Rightarrow> 'v work_result \<Rightarrow> 'v controller \<Rightarrow> 'v controller" where
  "work_answer eid res s =
     (case res of
        Value v \<Rightarrow> settle eid (Resolved v) s
      | NoValue \<Rightarrow> settle eid (Rejected (publicProviderError OtherError)) s
      | Failure err \<Rightarrow>
          if is_settled eid s then s
          else settle eid (Rejected (publicProviderError err))
            (s\<lparr>cnt := (cnt s)\<lparr>providerFailure := providerFailure (cnt s) + 1\<rparr>\<rparr>))"

text \<open>The work of an execution ends: settle the entry unless the timeout did, release the slot, pump.\<close>

definition work_done :: "admission_settings \<Rightarrow> world \<Rightarrow> nat \<Rightarrow> 'v work_result \<Rightarrow> 'v controller \<Rightarrow> 'v controller option" where
  "work_done cfg w eid res s =
     (case execs s eid of
        None \<Rightarrow> Some s
      | Some phase \<Rightarrow>
          (let s1 = (if phase = Awaiting then work_answer eid res s else s) in
           pump cfg w (s1\<lparr>active := active s1 - 1, execs := (execs s1)(eid := None)\<rparr>)))"

datatype 'v event =
  Run jsstring bool
| AbortSignal nat nat
| ExpiryTimer nat
| SpacingTimer
| TimeoutTimer nat
| WorkDone nat "'v work_result"

fun handle :: "admission_settings \<Rightarrow> world \<Rightarrow> 'v controller \<Rightarrow> 'v event \<Rightarrow> 'v controller option" where
  "handle cfg w s (Run key aborted) = run cfg w key aborted s"
| "handle cfg w s (AbortSignal eid sub) = abort_subscriber cfg w eid sub s"
| "handle cfg w s (ExpiryTimer eid) = expiry_timer cfg w eid s"
| "handle cfg w s SpacingTimer = spacing_timer cfg w s"
| "handle cfg w s (TimeoutTimer eid) = provider_timeout eid s"
| "handle cfg w s (WorkDone eid res) = work_done cfg w eid res s"

text \<open>Runs; \<open>None\<close> is a callback that does not return.\<close>

definition handle_step :: "admission_settings \<Rightarrow> world \<Rightarrow> 'v controller option \<Rightarrow> 'v event \<Rightarrow> 'v controller option \<times> unit" where
  "handle_step cfg w s ev = (Option.bind s (\<lambda>s. handle cfg w s ev), ())"

definition run_events :: "admission_settings \<Rightarrow> world \<Rightarrow> 'v event list \<Rightarrow> 'v controller option" where
  "run_events cfg w evs = snd (run_log (handle_step cfg w) (Some initial_controller) evs)"

end
