(* ===== verification/AdmissionSafety.thy ===== *)
theory AdmissionSafety
  imports AddressAdmission
begin

text \<open>
  Invariants of the admission queue.  \<open>ctl_wf\<close> ties the queue, the keys in flight, the executions and
  the heap of entries together; \<open>subs_wf\<close> says that every caller is told exactly one answer.  Both hold
  between callbacks and at every turn of the pump; after a callback the queue is also \<open>awake\<close>: if an
  entry waits while a slot is free, the spacing timer is armed.
\<close>

section \<open>The shape of the state\<close>

definition entry_wf :: "'v controller \<Rightarrow> nat \<Rightarrow> queue_entry \<Rightarrow> bool" where
  "entry_wf s eid e \<longleftrightarrow>
     eid < nextEntry s \<and> e_state e \<noteq> Starting \<and> (e_state e = Running \<longrightarrow> execs s eid = Some Awaiting) \<and>
     (e_state e = Queued \<longrightarrow> execs s eid = None \<and> e_timer e) \<and> (e_subscribers e = [] \<longleftrightarrow> e_state e = Settled)"

definition ctl_wf :: "admission_settings \<Rightarrow> 'v controller \<Rightarrow> bool" where
  "ctl_wf cfg s \<longleftrightarrow>
     distinct (queue s) \<and>
     (\<forall>eid. eid \<in> set (queue s) \<longleftrightarrow> (\<exists>e. entries s eid = Some e \<and> e_state e = Queued)) \<and>
     (\<forall>k eid. inFlight s k = Some eid \<longleftrightarrow> (\<exists>e. entries s eid = Some e \<and> e_key e = k \<and> e_state e \<noteq> Settled)) \<and>
     finite (dom (execs s)) \<and> dom (execs s) \<subseteq> dom (entries s) \<and> active s = int (card (dom (execs s))) \<and>
     active s \<le> maxActive cfg \<and>
     (\<forall>eid e. entries s eid = Some e \<longrightarrow> entry_wf s eid e)"

lemma ctl_wf_other [simp]:
  "ctl_wf cfg (s\<lparr>tick := t\<rparr>) = ctl_wf cfg s" "ctl_wf cfg (s\<lparr>cnt := c\<rparr>) = ctl_wf cfg s"
  "ctl_wf cfg (s\<lparr>spacingTimer := b\<rparr>) = ctl_wf cfg s" "ctl_wf cfg (s\<lparr>answers := as\<rparr>) = ctl_wf cfg s"
  "ctl_wf cfg (s\<lparr>nextSub := n\<rparr>) = ctl_wf cfg s" "ctl_wf cfg (s\<lparr>nextStartAt := i\<rparr>) = ctl_wf cfg s"
  "ctl_wf cfg (s\<lparr>dailyBudgetDate := d\<rparr>) = ctl_wf cfg s" "ctl_wf cfg (s\<lparr>dailyBudgetUsed := i\<rparr>) = ctl_wf cfg s"
  "ctl_wf cfg (s\<lparr>calls := cs\<rparr>) = ctl_wf cfg s"
  by (simp_all add: ctl_wf_def entry_wf_def)

lemma ctl_wfD:
  assumes "ctl_wf cfg s"
  shows "distinct (queue s)"
    and "eid \<in> set (queue s) \<Longrightarrow> \<exists>e. entries s eid = Some e \<and> e_state e = Queued"
    and "entries s eid = Some e \<Longrightarrow> e_state e = Queued \<Longrightarrow> eid \<in> set (queue s)"
    and "entries s eid = Some e \<Longrightarrow> e_state e \<noteq> Settled \<Longrightarrow> inFlight s (e_key e) = Some eid"
    and "inFlight s k = Some eid \<Longrightarrow> \<exists>e. entries s eid = Some e \<and> e_key e = k \<and> e_state e \<noteq> Settled"
    and "entries s eid = Some e \<Longrightarrow> entry_wf s eid e"
  using assms by (auto simp: ctl_wf_def)

text \<open>What becomes of the state when a live entry is settled and leaves the queue.\<close>

definition settled_entry :: "queue_entry \<Rightarrow> queue_entry" where
  "settled_entry e = e\<lparr>e_state := Settled, e_timer := False, e_subscribers := []\<rparr>"

lemma settle_live:
  assumes "entries s eid = Some e" "e_state e \<noteq> Settled" "inFlight s (e_key e) = Some eid"
  shows "settle eid ans s = s\<lparr>entries := (entries s)(eid \<mapsto> settled_entry e), inFlight := (inFlight s)(e_key e := None),
    answers := answers s @ map (\<lambda>x. (x, ans)) (e_subscribers e)\<rparr>"
  using assms by (simp add: settle_def release_key_def settled_entry_def)

lemma settle_settled: "entries s eid = Some e \<Longrightarrow> e_state e = Settled \<Longrightarrow> settle eid ans s = s"
  by (simp add: settle_def)

text \<open>An entry that is settled and no longer queued keeps the shape.\<close>

lemma ctl_wf_retire:
  assumes wf: "ctl_wf cfg s" and e: "entries s eid = Some e" "e_state e \<noteq> Settled" and q: "e_state e = Queued \<longrightarrow> q = remove1 eid (queue s)"
    "e_state e \<noteq> Queued \<longrightarrow> q = queue s" and e': "e_state e' = Settled" "e_subscribers e' = []"
  shows "ctl_wf cfg (s\<lparr>queue := q, entries := (entries s)(eid \<mapsto> e'), inFlight := (inFlight s)(e_key e := None)\<rparr>)"
proof -
  have d: "distinct (queue s)" and n: "eid < nextEntry s" using ctl_wfD(1,6) [OF wf] e(1) by (auto simp: entry_wf_def)
  have inq: "x \<in> set q \<longleftrightarrow> x \<in> set (queue s) \<and> x \<noteq> eid" for x
    using q d ctl_wfD(2) [OF wf, of eid] e(1) by (cases "e_state e = Queued") auto
  have u: "x = eid" if "entries s x = Some ex" "e_state ex \<noteq> Settled" "e_key ex = e_key e" for x ex
    using ctl_wfD(4) [OF wf e] ctl_wfD(4) [OF wf that(1,2)] that(3) by simp
  have "distinct q" using q d by (cases "e_state e = Queued") auto
  then show ?thesis using wf e e' n unfolding ctl_wf_def
    by (auto simp: inq entry_wf_def split: if_splits dest: u)
qed

lemma settle_wf:
  assumes wf: "ctl_wf cfg s" and e: "entries s eid = Some e" "e_state e \<noteq> Queued"
  shows "ctl_wf cfg (settle eid ans s)"
proof (cases "e_state e = Settled")
  case True
  then show ?thesis using wf e settle_settled by metis
next
  case False
  have "ctl_wf cfg (s\<lparr>queue := queue s, entries := (entries s)(eid \<mapsto> settled_entry e), inFlight := (inFlight s)(e_key e := None)\<rparr>)"
    using ctl_wf_retire [OF wf e(1) False, of "queue s" "settled_entry e"] e(2) by (simp add: settled_entry_def)
  then show ?thesis using settle_live [OF e(1) False ctl_wfD(4) [OF wf e(1) False], of ans]
    by (simp add: ctl_wf_def entry_wf_def)
qed

text \<open>Dropping a queued entry, whatever the reason.\<close>

definition drop_entry :: "nat \<Rightarrow> reject_code \<Rightarrow> 'v controller \<Rightarrow> 'v controller" where
  "drop_entry eid code s = count_rejected (settle eid (Rejected code) (s\<lparr>queue := remove1 eid (queue s)\<rparr>))"

lemma drop_entry_eq:
  assumes wf: "ctl_wf cfg s" and e: "entries s eid = Some e" "e_state e = Queued"
  shows "drop_entry eid code s = count_rejected (s\<lparr>queue := remove1 eid (queue s), entries := (entries s)(eid \<mapsto> settled_entry e),
    inFlight := (inFlight s)(e_key e := None), answers := answers s @ map (\<lambda>x. (x, Rejected code)) (e_subscribers e)\<rparr>)"
  using settle_live [of "s\<lparr>queue := remove1 eid (queue s)\<rparr>" eid e] ctl_wfD(4) [OF wf e(1)] e
  by (simp add: drop_entry_def)

lemma drop_entry_wf:
  assumes "ctl_wf cfg s" and "entries s eid = Some e" "e_state e = Queued"
  shows "ctl_wf cfg (drop_entry eid code s)"
  using ctl_wf_retire [OF assms(1,2), of "remove1 eid (queue s)" "settled_entry e"] assms(3)
  by (simp add: drop_entry_eq [OF assms] settled_entry_def count_rejected_def ctl_wf_def entry_wf_def)

lemma expire_entry_drop: "entries s eid = Some e \<Longrightarrow> e_state e = Queued \<Longrightarrow> expire_entry eid s = drop_entry eid QueueExpired s"
  by (simp add: expire_entry_def drop_entry_def)

section \<open>Starting an entry\<close>

definition launch :: "nat \<Rightarrow> queue_entry \<Rightarrow> int \<Rightarrow> provider_call \<Rightarrow> 'v controller \<Rightarrow> 'v controller" where
  "launch eid e next c s =
     s\<lparr>queue := tl (queue s), active := active s + 1, nextStartAt := next, execs := (execs s)(eid \<mapsto> Awaiting),
       entries := (entries s)(eid \<mapsto> e\<lparr>e_timer := False, e_state := Running\<rparr>), calls := calls s @ [c]\<rparr>"

lemma take_budget_fields:
  assumes "take_budget cfg w i s = (allowed, day, s1)"
  obtains d u where "s1 = s\<lparr>dailyBudgetDate := d, dailyBudgetUsed := u\<rparr>"
  using assms that [where d = "dailyBudgetDate s" and u = "dailyBudgetUsed s"] that
  by (auto simp: take_budget_def Let_def split: option.splits)

text \<open>Starting the head of the queue has three outcomes; two of them drop it.\<close>

lemma take_budget_frame:
  "take_budget cfg w i (s\<lparr>entries := h, queue := q, active := a\<rparr>) =
     (case take_budget cfg w i s of (allowed, day, s1) \<Rightarrow> (allowed, day, s1\<lparr>entries := h, queue := q, active := a\<rparr>))"
  by (auto simp: take_budget_def Let_def split: option.splits)

lemma start_head_cases:
  assumes wf: "ctl_wf cfg s" and h: "queue s = eid # rest" and e: "entries s eid = Some e"
  shows "start_head cfg w i eid e s =
    (if e_expiresAt e \<le> now w i then drop_entry eid QueueExpired s
     else case take_budget cfg w (i + 1) s of (allowed, day, s1) \<Rightarrow>
       if \<not> allowed then drop_entry eid DailyBudgetExceeded s1
       else launch eid e (now w (i + 2) + minStartIntervalMs cfg)
         \<lparr>call_entry = eid, call_at = now w (i + 2), call_day = day\<rparr> s1)"
proof -
  have q: "e_state e = Queued" using ctl_wfD(2) [OF wf, of eid] h e by simp
  let ?h = "(entries s)(eid \<mapsto> e\<lparr>e_timer := False, e_state := Starting\<rparr>)"
  obtain allowed day s1 where tb: "take_budget cfg w (i + 1) s = (allowed, day, s1)" by (cases "take_budget cfg w (i + 1) s")
  then obtain d u where s1: "s1 = s\<lparr>dailyBudgetDate := d, dailyBudgetUsed := u\<rparr>" by (rule take_budget_fields)
  have tbS: "take_budget cfg w (Suc i) s = (allowed, day, s1)" using tb by simp
  have "take_budget cfg w (i + 1) (s\<lparr>entries := ?h, queue := rest, active := active s + 1\<rparr>) =
      (allowed, day, s1\<lparr>entries := ?h, queue := rest, active := active s + 1\<rparr>)"
    using take_budget_frame [where i = "i + 1" and s = s and a = "active s + 1" and q = rest and h = ?h] tb by simp
  note tb' = this
  show ?thesis
  proof (cases "e_expiresAt e \<le> now w i")
    case True
    then show ?thesis using h e q
      by (simp add: start_head_def Let_def drop_entry_def count_rejected_def settle_def release_key_def settled_entry_def)
  next
    case late: False
    show ?thesis
    proof (cases allowed)
      case False
      then show ?thesis using late tb' tbS h e q s1
        by (simp add: start_head_def Let_def drop_entry_def count_rejected_def settle_def release_key_def settled_entry_def)
    next
      case True
      then show ?thesis using late tb' tbS h e s1 by (simp add: start_head_def Let_def launch_def)
    qed
  qed
qed

section \<open>Invariants of the pump and of the callbacks\<close>

text \<open>
  \<open>pump_invariant\<close> lists what a property of the state must survive to hold at every turn of the pump,
  \<open>callback_invariant\<close> adds the parts of the callbacks around it.
\<close>

definition awake :: "admission_settings \<Rightarrow> 'v controller \<Rightarrow> bool" where
  "awake cfg s \<longleftrightarrow> (active s < maxActive cfg \<and> queue s \<noteq> [] \<longrightarrow> spacingTimer s)"

definition start_call :: "world \<Rightarrow> nat \<Rightarrow> nat \<Rightarrow> int option \<Rightarrow> provider_call" where
  "start_call w i eid day = \<lparr>call_entry = eid, call_at = now w i, call_day = day\<rparr>"

locale pump_invariant =
  fixes cfg :: admission_settings and w :: world and I :: "'v controller \<Rightarrow> bool"
  assumes shape: "I s \<Longrightarrow> ctl_wf cfg s"
    and expired: "I s \<Longrightarrow> entries s eid = Some e \<Longrightarrow> e_state e = Queued \<Longrightarrow> I (drop_entry eid QueueExpired s)"
    and denied: "I s \<Longrightarrow> entries s eid = Some e \<Longrightarrow> e_state e = Queued \<Longrightarrow> tick s \<le> i \<Longrightarrow>
      take_budget cfg w i s = (False, day, s1) \<Longrightarrow> I ((drop_entry eid DailyBudgetExceeded s1)\<lparr>tick := i + 1\<rparr>)"
    and launched: "I s \<Longrightarrow> active s < maxActive cfg \<Longrightarrow> queue s = eid # rest \<Longrightarrow> entries s eid = Some e \<Longrightarrow> e_state e = Queued \<Longrightarrow>
      tick s \<le> j \<Longrightarrow> j < i \<Longrightarrow> nextStartAt s \<le> now w j \<Longrightarrow> take_budget cfg w i s = (True, day, s1) \<Longrightarrow>
      I ((launch eid e (now w (i + 1) + minStartIntervalMs cfg) (start_call w (i + 1) eid day) s1)\<lparr>tick := i + 2\<rparr>)"
    and later: "I s \<Longrightarrow> tick s \<le> t \<Longrightarrow> I (s\<lparr>tick := t\<rparr>)"
    and spacing: "I s \<Longrightarrow> I (s\<lparr>spacingTimer := b\<rparr>)"
begin

lemma drop_tick [simp]: "tick (drop_entry eid code s) = tick s"
  by (auto simp: drop_entry_def count_rejected_def settle_def release_key_def split: option.splits)

lemma start_head_inv:
  assumes i: "I s" and h: "queue s = eid # rest" "active s < maxActive cfg" and e: "entries s eid = Some e"
    and n: "nextStartAt s \<le> now w (tick s + 1)"
  shows "I ((start_head cfg w (tick s + 2) eid e s)\<lparr>tick := tick s + 5\<rparr>)"
proof -
  note wf = shape [OF i]
  have q: "e_state e = Queued" using ctl_wfD(2) [OF wf, of eid] h e by simp
  obtain allowed day s1 where tb: "take_budget cfg w (tick s + 2 + 1) s = (allowed, day, s1)"
    by (cases "take_budget cfg w (tick s + 2 + 1) s")
  consider "e_expiresAt e \<le> now w (tick s + 2)" | "\<not> e_expiresAt e \<le> now w (tick s + 2)" "\<not> allowed"
    | "\<not> e_expiresAt e \<le> now w (tick s + 2)" allowed by blast
  then show ?thesis
  proof cases
    case 1
    then show ?thesis using start_head_cases [OF wf h(1) e] later [OF expired [OF i e q], of "tick s + 5"] by simp
  next
    case 2
    have "I ((drop_entry eid DailyBudgetExceeded s1)\<lparr>tick := tick s + 2 + 1 + 1\<rparr>)"
      by (rule denied [OF i e q]) (use tb 2 in auto)
    from later [OF this, of "tick s + 5"] show ?thesis using start_head_cases [OF wf h(1) e, of w "tick s + 2"] 2 tb by simp
  next
    case 3
    have "I ((launch eid e (now w (tick s + 3 + 1) + minStartIntervalMs cfg) (start_call w (tick s + 3 + 1) eid day) s1)\<lparr>tick := tick s + 3 + 2\<rparr>)"
      by (rule launched [OF i h(2,1) e q _ _ n]) (use tb 3 in \<open>auto simp: eval_nat_numeral\<close>)
    then show ?thesis using start_head_cases [OF wf h(1) e, of w "tick s + 2"] 3 tb
      by (simp add: start_call_def eval_nat_numeral)
  qed
qed

lemma queue_shrinks:
  assumes "I s" and "queue s = eid # rest" and "entries s eid = Some e"
  shows "queue (expire_entry eid s) = rest" and "queue (start_head cfg w i eid e s) = rest"
proof -
  note wf = shape [OF assms(1)]
  have q: "e_state e = Queued" using ctl_wfD(2) [OF wf, of eid] assms by simp
  have d: "queue (drop_entry eid code t) = rest" if "queue t = eid # rest" "entries t = entries s" for code and t :: "'v controller"
    using that assms q by (simp add: drop_entry_def count_rejected_def settle_def release_key_def)
  show "queue (expire_entry eid s) = rest"
    using d [of s] assms q by (simp add: expire_entry_drop)
  obtain allowed day s1 where tb: "take_budget cfg w (i + 1) s = (allowed, day, s1)"
    by (cases "take_budget cfg w (i + 1) s")
  then obtain x u where "s1 = s\<lparr>dailyBudgetDate := x, dailyBudgetUsed := u\<rparr>" by (rule take_budget_fields)
  then show "queue (start_head cfg w i eid e s) = rest"
    using start_head_cases [OF wf assms(2,3), of w i] tb d [of s] d [of s1] assms by (simp add: launch_def)
qed

text \<open>The pump returns, keeps the property and leaves no free slot unattended.\<close>

lemma pump_loop_total:
  "I s \<Longrightarrow> length (queue s) < fuel \<Longrightarrow>
     \<exists>s'. pump_loop cfg w fuel s = Some s' \<and> I s' \<and> awake cfg s' \<and> length (queue s') \<le> length (queue s)"
proof (induction fuel arbitrary: s)
  case (Suc fuel)
  show ?case
  proof (cases "active s < maxActive cfg \<and> queue s \<noteq> []")
    case False
    then show ?thesis using Suc.prems by (auto simp: awake_def)
  next
    case True
    then obtain eid rest where h: "queue s = eid # rest" by (cases "queue s") auto
    obtain e where e: "entries s eid = Some e" "e_state e = Queued"
      using ctl_wfD(2) [OF shape [OF Suc.prems(1)], of eid] h by auto
    note sh = queue_shrinks [OF Suc.prems(1) h e(1)]
    consider "e_expiresAt e \<le> now w (tick s)"
      | "\<not> e_expiresAt e \<le> now w (tick s)" "nextStartAt s > now w (tick s + 1)"
      | "\<not> e_expiresAt e \<le> now w (tick s)" "nextStartAt s \<le> now w (tick s + 1)" by linarith
    then show ?thesis
    proof cases
      case 1
      let ?s = "(expire_entry eid s)\<lparr>tick := tick s + 1\<rparr>"
      have "I ?s" using later [OF expired [OF Suc.prems(1) e], of "tick s + 1"] e by (simp add: expire_entry_drop)
      moreover have "length (queue ?s) < fuel" using Suc.prems(2) sh(1) h by simp
      ultimately obtain s' where "pump_loop cfg w fuel ?s = Some s'" "I s'" "awake cfg s'" "length (queue s') \<le> length (queue ?s)"
        using Suc.IH by blast
      then show ?thesis using True 1 h e sh(1) by (simp add: Let_def)
    next
      case 2
      let ?s = "s\<lparr>spacingTimer := True, tick := tick s + 2\<rparr>"
      have "I ?s" using later [OF spacing [OF Suc.prems(1), of True], of "tick s + 2"] by simp
      then show ?thesis using True 2 h e by (simp add: Let_def awake_def)
    next
      case 3
      let ?s = "(start_head cfg w (tick s + 2) eid e s)\<lparr>tick := tick s + 5\<rparr>"
      have "I ?s" using start_head_inv [OF Suc.prems(1) h _ e(1)] True 3 by simp
      moreover have "length (queue ?s) < fuel" using Suc.prems(2) sh(2) h by simp
      ultimately obtain s' where "pump_loop cfg w fuel ?s = Some s'" "I s'" "awake cfg s'" "length (queue s') \<le> length (queue ?s)"
        using Suc.IH by blast
      then show ?thesis using True 3 h e sh(2) [of "tick s + 2"] by (simp add: Let_def)
    qed
  qed
qed simp

lemma pump_total:
  "I s \<Longrightarrow> \<exists>s'. pump cfg w s = Some s' \<and> I s' \<and> awake cfg s' \<and> length (queue s') \<le> length (queue s)"
  unfolding pump_def by (rule pump_loop_total) simp_all

end

text \<open>A new call: its subscriber number and its clock readings are taken.\<close>

definition arrive :: "'v controller \<Rightarrow> 'v controller" where
  "arrive s = s\<lparr>nextSub := nextSub s + 1, tick := tick s + 3\<rparr>"

definition leave :: "nat \<Rightarrow> nat \<Rightarrow> queue_entry \<Rightarrow> 'v controller \<Rightarrow> 'v controller" where
  "leave eid sub e s = reject_new sub Cancelled (s\<lparr>entries := (entries s)(eid \<mapsto> e\<lparr>e_subscribers := remove1 sub (e_subscribers e)\<rparr>)\<rparr>)"

definition abandon :: "nat \<Rightarrow> nat \<Rightarrow> queue_entry \<Rightarrow> 'v controller \<Rightarrow> 'v controller" where
  "abandon eid sub e s =
     release_key eid e ((reject_new sub Cancelled s)
       \<lparr>queue := (if e_state e = Queued then remove1 eid (queue s) else queue s),
        entries := (entries s)(eid \<mapsto> e\<lparr>e_subscribers := [], e_timer := False, e_state := Settled\<rparr>)\<rparr>)"

definition release_slot :: "nat \<Rightarrow> 'v controller \<Rightarrow> 'v controller" where
  "release_slot eid s = s\<lparr>active := active s - 1, execs := (execs s)(eid := None)\<rparr>"

lemma abort_last:
  assumes "entries s eid = Some e" "e_subscribers e = [sub]" "e_state e \<noteq> Settled"
  shows "abort_subscriber cfg w eid sub s = pump cfg w (abandon eid sub e s)"
  using assms
  by (simp add: abort_subscriber_def cancelWhenUnobserved_def abandon_def reject_new_def release_key_def Let_def)

lemma run_eq:
  "run cfg w key aborted s =
     (if aborted then Some (reject_new (nextSub s) Cancelled (arrive s))
      else case inFlight s key of
        Some eid \<Rightarrow> Some ((set_entry eid (\<lambda>e. e\<lparr>e_subscribers := e_subscribers e @ [nextSub s]\<rparr>) (arrive s))
          \<lparr>cnt := (cnt s)\<lparr>coalesced := coalesced (cnt s) + 1\<rparr>\<rparr>)
      | None \<Rightarrow>
          if \<not> admitted w (tick s) then Some (reject_new (nextSub s) AdmissionRejected (count_rejected (arrive s)))
          else if \<not> (active s < maxActive cfg \<and> queue s = [] \<and> nextStartAt s \<le> now w (tick s + 1)) \<and>
              int (length (queue s)) \<ge> maxPending cfg
            then Some (reject_new (nextSub s) QueueFull (count_rejected (arrive s)))
            else pump cfg w (enqueue cfg key (nextSub s) (now w (tick s + 2) + queueExpiryMs cfg) (arrive s)))"
  by (simp add: run_def arrive_def Let_def cong: option.case_cong)

locale callback_invariant = pump_invariant +
  assumes counted: "I s \<Longrightarrow> I (s\<lparr>cnt := c\<rparr>)"
    and refused: "I s \<Longrightarrow> I (reject_new (nextSub s) code (arrive s))"
    and joined: "I s \<Longrightarrow> inFlight s key = Some eid \<Longrightarrow>
      I (set_entry eid (\<lambda>e. e\<lparr>e_subscribers := e_subscribers e @ [nextSub s]\<rparr>) (arrive s))"
    and enqueued: "I s \<Longrightarrow> inFlight s key = None \<Longrightarrow> I (enqueue cfg key (nextSub s) ex (arrive s))"
    and left_one: "I s \<Longrightarrow> entries s eid = Some e \<Longrightarrow> sub \<in> set (e_subscribers e) \<Longrightarrow> remove1 sub (e_subscribers e) \<noteq> [] \<Longrightarrow>
      I (leave eid sub e s)"
    and abandoned: "I s \<Longrightarrow> entries s eid = Some e \<Longrightarrow> e_subscribers e = [sub] \<Longrightarrow> I (abandon eid sub e s)"
    and timed_out: "I s \<Longrightarrow> execs s eid = Some Awaiting \<Longrightarrow>
      I (settle eid (Rejected ProviderTimeout) (s\<lparr>execs := (execs s)(eid \<mapsto> Holding)\<rparr>))"
    and answered: "I s \<Longrightarrow> execs s eid = Some Awaiting \<Longrightarrow> I (release_slot eid (settle eid ans s))"
    and released: "I s \<Longrightarrow> execs s eid = Some Holding \<Longrightarrow> I (release_slot eid s)"
begin

lemma settle_cnt: "settle eid ans (s\<lparr>cnt := c\<rparr>) = (settle eid ans s)\<lparr>cnt := c\<rparr>"
  by (auto simp: settle_def release_key_def split: option.splits)

lemma released_awaiting:
  assumes "I s" and x: "execs s eid = Some Awaiting" and st: "is_settled eid s"
  shows "I (release_slot eid s)"
proof -
  obtain e where "entries s eid = Some e" using shape [OF assms(1)] x by (auto simp: ctl_wf_def dom_def)
  then have "settle eid ans s = s" for ans using st by (auto simp: is_settled_def settle_settled)
  then show ?thesis using answered [OF assms(1,2)] by simp
qed

lemma work_done_pre:
  assumes i: "I s" and x: "execs s eid = Some ph"
  shows "I (release_slot eid (if ph = Awaiting then work_answer eid res s else s))"
proof (cases ph)
  case Holding
  then show ?thesis using released [OF i] x by simp
next
  case Awaiting
  then have x: "execs s eid = Some Awaiting" using x by simp
  have "I (release_slot eid (work_answer eid res s))"
  proof (cases res)
    case (Failure err)
    have "release_slot eid (settle eid ans (s\<lparr>cnt := c\<rparr>)) = (release_slot eid (settle eid ans s))\<lparr>cnt := c\<rparr>" for ans c
      by (simp add: settle_cnt release_slot_def)
    then show ?thesis using Failure counted [OF answered [OF i x]] released_awaiting [OF i x]
      by (auto simp: work_answer_def)
  qed (auto simp: work_answer_def intro: answered [OF i x])
  then show ?thesis using Awaiting by simp
qed

lemma work_done_inv:
  assumes i: "I s"
  shows "\<exists>s'. work_done cfg w eid res s = Some s' \<and> (execs s eid \<noteq> None \<longrightarrow> I s' \<and> awake cfg s') \<and> (execs s eid = None \<longrightarrow> s' = s)"
proof (cases "execs s eid")
  case (Some ph)
  from pump_total [OF work_done_pre [OF i Some, of res]] show ?thesis using Some
    by (cases ph) (auto simp: work_done_def release_slot_def Let_def)
qed (simp add: work_done_def)

lemma run_inv:
  assumes i: "I s" and a: "awake cfg s"
  shows "\<exists>s'. run cfg w key aborted s = Some s' \<and> I s' \<and> awake cfg s'"
proof -
  have r: "I (reject_new (nextSub s) code (count_rejected (arrive s)))" for code
  proof -
    have "reject_new (nextSub s) code (count_rejected (arrive s)) =
        (reject_new (nextSub s) code (arrive s))\<lparr>cnt := (cnt s)\<lparr>rejected := rejected (cnt s) + 1\<rparr>\<rparr>"
      by (simp add: reject_new_def count_rejected_def arrive_def)
    then show ?thesis using counted [OF refused [OF i]] by simp
  qed
  have aw: "awake cfg (reject_new x code (count_rejected (arrive s)))" "awake cfg (reject_new x code (arrive s))" for x code
    using a by (simp_all add: awake_def reject_new_def count_rejected_def arrive_def)
  show ?thesis
  proof (cases "inFlight s key")
    case (Some eid)
    let ?s = "set_entry eid (\<lambda>e. e\<lparr>e_subscribers := e_subscribers e @ [nextSub s]\<rparr>) (arrive s)"
    have "I (?s\<lparr>cnt := (cnt s)\<lparr>coalesced := coalesced (cnt s) + 1\<rparr>\<rparr>)" by (rule counted [OF joined [OF i Some]])
    moreover have "awake cfg (?s\<lparr>cnt := c\<rparr>)" for c using a by (simp add: awake_def arrive_def)
    ultimately show ?thesis using Some refused [OF i, of Cancelled] aw(2)
      by (auto simp: run_eq)
  next
    case None
    have "\<exists>s'. pump cfg w (enqueue cfg key (nextSub s) ex (arrive s)) = Some s' \<and> I s' \<and> awake cfg s'" for ex
      using pump_total [OF enqueued [OF i None]] by blast
    then show ?thesis using None refused [OF i] r aw
      by (auto simp: run_eq)
  qed
qed

lemma abort_inv:
  assumes i: "I s" and a: "awake cfg s"
  shows "\<exists>s'. abort_subscriber cfg w eid sub s = Some s' \<and> I s' \<and> awake cfg s'"
proof (cases "\<exists>e. entries s eid = Some e \<and> sub \<in> set (e_subscribers e)")
  case False
  then show ?thesis using i a by (auto simp: abort_subscriber_def split: option.splits)
next
  case True
  then obtain e where e: "entries s eid = Some e" "sub \<in> set (e_subscribers e)" by blast
  have st: "e_state e \<noteq> Settled" using ctl_wfD(6) [OF shape [OF i] e(1)] e(2) by (auto simp: entry_wf_def)
  show ?thesis
  proof (cases "remove1 sub (e_subscribers e) = []")
    case False
    then have "abort_subscriber cfg w eid sub s = Some (leave eid sub e s)"
      using e by (simp add: abort_subscriber_def cancelWhenUnobserved_def leave_def Let_def)
    moreover have "awake cfg (leave eid sub e s)" using a by (simp add: awake_def leave_def reject_new_def)
    ultimately show ?thesis using left_one [OF i e False] by simp
  next
    case True
    then have one: "e_subscribers e = [sub]" using e(2) by (cases "e_subscribers e") (auto split: if_splits)
    then have "abort_subscriber cfg w eid sub s = pump cfg w (abandon eid sub e s)"
      using e st by (simp add: abort_last)
    then show ?thesis using pump_total [OF abandoned [OF i e(1) one]] by auto
  qed
qed

lemma timer_inv:
  assumes i: "I s" and a: "awake cfg s"
  shows "\<exists>s'. expiry_timer cfg w eid s = Some s' \<and> I s' \<and> awake cfg s'"
    and "\<exists>s'. spacing_timer cfg w s = Some s' \<and> I s' \<and> awake cfg s'"
    and "\<exists>s'. provider_timeout eid s = Some s' \<and> I s' \<and> awake cfg s'"
proof -
  show "\<exists>s'. expiry_timer cfg w eid s = Some s' \<and> I s' \<and> awake cfg s'"
  proof (cases "\<exists>e. entries s eid = Some e \<and> e_timer e \<and> e_state e = Queued")
    case True
    then obtain e where e: "entries s eid = Some e" "e_timer e" "e_state e = Queued" by blast
    then show ?thesis using pump_total [OF expired [OF i e(1,3)]] by (auto simp: expiry_timer_def expire_entry_drop)
  qed (use i a in \<open>auto simp: expiry_timer_def split: option.splits\<close>)
  show "\<exists>s'. spacing_timer cfg w s = Some s' \<and> I s' \<and> awake cfg s'"
    using pump_total [OF spacing [OF i, of False]] i a by (auto simp: spacing_timer_def)
  show "\<exists>s'. provider_timeout eid s = Some s' \<and> I s' \<and> awake cfg s'"
  proof (cases "execs s eid = Some Awaiting")
    case True
    let ?s = "settle eid (Rejected ProviderTimeout) (s\<lparr>execs := (execs s)(eid \<mapsto> Holding)\<rparr>)"
    let ?c = "(cnt s)\<lparr>timeouts := timeouts (cnt s) + 1\<rparr>"
    have "provider_timeout eid s = Some (?s\<lparr>cnt := ?c\<rparr>)"
      using settle_cnt [where s = "s\<lparr>execs := (execs s)(eid \<mapsto> Holding)\<rparr>" and c = ?c] True by (simp add: provider_timeout_def)
    moreover have "I (?s\<lparr>cnt := ?c\<rparr>)" by (rule counted [OF timed_out [OF i True]])
    moreover have "awake cfg (?s\<lparr>cnt := ?c\<rparr>)"
      using a by (auto simp: awake_def settle_def release_key_def split: option.splits)
    ultimately show ?thesis by blast
  qed (use i a in \<open>auto simp: provider_timeout_def\<close>)
qed

lemma handle_inv:
  assumes "I s" and "awake cfg s"
  shows "\<exists>s'. handle cfg w s ev = Some s' \<and> I s' \<and> awake cfg s'"
proof (cases ev)
  case (WorkDone eid res)
  then show ?thesis using work_done_inv [OF assms(1), of eid res] assms by (cases "execs s eid") auto
qed (simp_all add: run_inv [OF assms] abort_inv [OF assms] timer_inv [OF assms])

text \<open>Every run of callbacks returns and keeps the property.\<close>

lemma run_events_inv:
  assumes "I initial_controller"
  shows "\<exists>s. run_events cfg w evs = Some s \<and> I s \<and> awake cfg s"
proof -
  have "invariant_system (handle_step cfg w) (\<lambda>_ s. \<exists>t. s = Some t \<and> I t \<and> awake cfg t)"
    by unfold_locales (auto simp: handle_step_def intro: handle_inv)
  moreover have "awake cfg initial_controller" by (simp add: awake_def initial_controller_def)
  ultimately show ?thesis
    using invariant_system.reachable_inv [of "handle_step cfg w" "\<lambda>_ s. \<exists>t. s = Some t \<and> I t \<and> awake cfg t" "Some initial_controller" evs] assms
    by (simp add: run_events_def)
qed

end

end
