(* ===== verification/AdmissionRuns.thy ===== *)
theory AdmissionRuns
  imports AdmissionSafety
begin

text \<open>
  The invariants of the admission queue instantiated on the model: the shape of the state together
  with the one-answer discipline, and, for a clock that never runs backwards, the daily budget and the
  spacing of provider calls.
\<close>

section \<open>One answer for each caller\<close>

definition waiting :: "'v controller \<Rightarrow> nat \<Rightarrow> bool" where
  "waiting s x \<longleftrightarrow> (\<exists>eid e. entries s eid = Some e \<and> x \<in> set (e_subscribers e))"

definition told :: "nat \<Rightarrow> (nat \<times> 'v answer) list \<Rightarrow> nat" where
  "told x as = length (filter (\<lambda>a. fst a = x) as)"

definition subs_wf :: "'v controller \<Rightarrow> bool" where
  "subs_wf s \<longleftrightarrow>
     (\<forall>eid e. entries s eid = Some e \<longrightarrow> distinct (e_subscribers e) \<and> (\<forall>x \<in> set (e_subscribers e). x < nextSub s)) \<and>
     (\<forall>eid eid' e e' x. entries s eid = Some e \<longrightarrow> entries s eid' = Some e' \<longrightarrow> x \<in> set (e_subscribers e) \<longrightarrow>
        x \<in> set (e_subscribers e') \<longrightarrow> eid = eid') \<and>
     (\<forall>x. told x (answers s) = (if x < nextSub s \<and> \<not> waiting s x then 1 else 0))"

lemma told_append [simp]: "told x (as @ bs) = told x as + told x bs"
  by (simp add: told_def)

lemma told_Cons [simp]: "told x ((y, ans) # as) = (if y = x then 1 else 0) + told x as" "told x [] = 0"
  by (simp_all add: told_def)

lemma told_map: "distinct xs \<Longrightarrow> told x (map (\<lambda>x. (x, ans)) xs) = (if x \<in> set xs then 1 else 0)"
  by (induction xs) (auto simp: told_def)

text \<open>Some subscribers of an entry are told an answer and leave it.\<close>

lemma subs_wf_answer:
  assumes wf: "subs_wf s" and e: "entries s eid = Some e"
    and split: "distinct (e_subscribers e')" "distinct gone" "set (e_subscribers e') \<inter> set gone = {}"
      "set (e_subscribers e) = set (e_subscribers e') \<union> set gone"
  shows "subs_wf (s\<lparr>entries := (entries s)(eid \<mapsto> e'), answers := answers s @ map (\<lambda>x. (x, ans)) gone\<rparr>)" (is "subs_wf ?s")
proof -
  have lt: "\<And>i d x. entries s i = Some d \<Longrightarrow> x \<in> set (e_subscribers d) \<Longrightarrow> x < nextSub s"
    and ds: "\<And>i d. entries s i = Some d \<Longrightarrow> distinct (e_subscribers d)"
    and un: "\<And>i j d d' x. entries s i = Some d \<Longrightarrow> entries s j = Some d' \<Longrightarrow> x \<in> set (e_subscribers d) \<Longrightarrow>
      x \<in> set (e_subscribers d') \<Longrightarrow> i = j"
    and tl: "\<And>x. told x (answers s) = (if x < nextSub s \<and> \<not> waiting s x then 1 else 0)"
    using wf unfolding subs_wf_def by blast+
  have w: "waiting ?s x \<longleftrightarrow> waiting s x \<and> x \<notin> set gone" for x
  proof
    assume "waiting ?s x"
    then obtain i d where "entries ?s i = Some d" "x \<in> set (e_subscribers d)" unfolding waiting_def by blast
    then have d: "(if i = eid then Some e' else entries s i) = Some d" "x \<in> set (e_subscribers d)" by (simp_all split: if_splits)
    show "waiting s x \<and> x \<notin> set gone"
    proof (cases "i = eid")
      case True
      then show ?thesis using d split e by (auto simp: waiting_def)
    next
      case False
      then have "x \<notin> set gone" using un [of i d eid e x] d e split(4) by auto
      then show ?thesis using False d by (auto simp: waiting_def)
    qed
  next
    assume a: "waiting s x \<and> x \<notin> set gone"
    then obtain i d where d: "entries s i = Some d" "x \<in> set (e_subscribers d)" by (auto simp: waiting_def)
    then show "waiting ?s x" using a split(4) e
      by (cases "i = eid") (auto simp: waiting_def intro!: exI [of _ i])
  qed
  have g: "x \<in> set gone \<Longrightarrow> x < nextSub s \<and> waiting s x" for x using lt [OF e] e split(4) by (auto simp: waiting_def)
  have "told x (answers ?s) = (if x < nextSub s \<and> \<not> waiting ?s x then 1 else 0)" for x
    using tl [of x] g [of x] by (auto simp: w told_map [OF split(2)])
  then show ?thesis using lt ds un split e unfolding subs_wf_def by (auto split: if_splits)
qed

text \<open>The properties of the state that matter here do not see the other fields.\<close>

lemma subs_wf_cong:
  "entries s = entries s' \<Longrightarrow> answers s = answers s' \<Longrightarrow> nextSub s = nextSub s' \<Longrightarrow> subs_wf s \<Longrightarrow> subs_wf s'"
  by (simp add: subs_wf_def waiting_def)

lemma subs_distinct: "subs_wf s \<Longrightarrow> entries s eid = Some e \<Longrightarrow> distinct (e_subscribers e)"
  by (simp add: subs_wf_def)

lemma settle_subs:
  assumes "subs_wf s"
  shows "subs_wf (settle eid ans s)"
proof (cases "\<exists>e. entries s eid = Some e \<and> e_state e \<noteq> Settled")
  case True
  then obtain e where e: "entries s eid = Some e" "e_state e \<noteq> Settled" by blast
  have "subs_wf (s\<lparr>entries := (entries s)(eid \<mapsto> settled_entry e), answers := answers s @ map (\<lambda>x. (x, ans)) (e_subscribers e)\<rparr>)"
    by (rule subs_wf_answer [OF assms e(1)]) (simp_all add: settled_entry_def subs_distinct [OF assms e(1)])
  then show ?thesis using e
    by (elim subs_wf_cong [rotated 3]) (simp_all add: settle_def release_key_def settled_entry_def)
qed (use assms in \<open>auto simp: settle_def split: option.splits\<close>)

definition queue_inv :: "admission_settings \<Rightarrow> 'v controller \<Rightarrow> bool" where
  "queue_inv cfg s \<longleftrightarrow> ctl_wf cfg s \<and> subs_wf s"

lemma drop_subs: "subs_wf s \<Longrightarrow> subs_wf (drop_entry eid code s)"
  unfolding drop_entry_def count_rejected_def
  by (rule subs_wf_cong [OF _ _ _ settle_subs [where s = "s\<lparr>queue := remove1 eid (queue s)\<rparr>"]]) (auto elim: subs_wf_cong [rotated 3])

lemma launch_wf:
  assumes wf: "ctl_wf cfg s" and a: "active s < maxActive cfg" and q: "queue s = eid # rest"
    and e: "entries s eid = Some e" "e_state e = Queued"
  shows "ctl_wf cfg (launch eid e next c s)"
proof -
  note d = ctl_wfD [OF wf]
  have n: "execs s eid = None" "eid < nextEntry s" "e_subscribers e \<noteq> []" using d(6) [OF e(1)] e(2) by (auto simp: entry_wf_def)
  have "x \<in> set rest \<longleftrightarrow> x \<in> set (queue s) \<and> x \<noteq> eid" for x using d(1) q by auto
  moreover have "card (insert eid (dom (execs s))) = Suc (card (dom (execs s)))"
    using n(1) wf by (subst card_insert_disjoint) (auto simp: ctl_wf_def)
  ultimately show ?thesis using wf a q e n
    unfolding ctl_wf_def launch_def by (auto simp: entry_wf_def)
qed

lemma launch_subs:
  assumes "subs_wf s" and "entries s eid = Some e"
  shows "subs_wf (launch eid e next c s)"
proof -
  have "subs_wf (s\<lparr>entries := (entries s)(eid \<mapsto> e\<lparr>e_timer := False, e_state := Running\<rparr>), answers := answers s @ map (\<lambda>x. (x, Rejected Cancelled)) []\<rparr>)"
    by (rule subs_wf_answer [OF assms]) (simp_all add: subs_distinct [OF assms])
  then show ?thesis by (elim subs_wf_cong [rotated 3]) (simp_all add: launch_def)
qed

section \<open>Arrivals and departures\<close>

lemma ctl_wf_cong:
  "queue s = queue s' \<Longrightarrow> entries s = entries s' \<Longrightarrow> inFlight s = inFlight s' \<Longrightarrow> execs s = execs s' \<Longrightarrow> active s = active s' \<Longrightarrow>
   nextEntry s = nextEntry s' \<Longrightarrow> ctl_wf cfg s \<Longrightarrow> ctl_wf cfg s'"
  by (simp add: ctl_wf_def entry_wf_def)

lemma fresh_sub: "subs_wf s \<Longrightarrow> entries s eid = Some e \<Longrightarrow> nextSub s \<notin> set (e_subscribers e)"
  by (auto simp: subs_wf_def)

lemma refused_subs:
  assumes wf: "subs_wf s"
  shows "subs_wf (reject_new (nextSub s) code (arrive s))"
proof -
  have "\<not> waiting s (nextSub s)" using fresh_sub [OF wf] by (auto simp: waiting_def)
  moreover have "waiting (reject_new (nextSub s) code (arrive s)) x = waiting s x" for x
    by (simp add: waiting_def reject_new_def arrive_def)
  moreover have "waiting s x \<Longrightarrow> x < nextSub s" for x using wf by (auto simp: waiting_def subs_wf_def)
  ultimately show ?thesis using wf unfolding subs_wf_def
    by (fastforce simp: reject_new_def arrive_def less_Suc_eq)
qed

lemma waiting_upd:
  "waiting (s\<lparr>entries := (entries s)(eid \<mapsto> e')\<rparr>) x \<longleftrightarrow>
     x \<in> set (e_subscribers e') \<or> (\<exists>i e. i \<noteq> eid \<and> entries s i = Some e \<and> x \<in> set (e_subscribers e))"
  by (auto simp: waiting_def)

text \<open>The new subscriber is put on an entry, a new one or one that was there.\<close>

lemma subscribe_subs:
  assumes wf: "subs_wf s" and old: "case entries s eid of None \<Rightarrow> subs = [] | Some e \<Rightarrow> subs = e_subscribers e"
    and e': "e_subscribers e' = subs @ [nextSub s]"
  shows "subs_wf (s\<lparr>entries := (entries s)(eid \<mapsto> e'), nextSub := nextSub s + 1\<rparr>)" (is "subs_wf ?s")
proof -
  have fr: "nextSub s \<notin> set (e_subscribers d)" if "entries s i = Some d" for i d using fresh_sub [OF wf that] .
  have su: "x \<in> set subs \<longleftrightarrow> (\<exists>e. entries s eid = Some e \<and> x \<in> set (e_subscribers e))" for x
    using old by (auto split: option.splits)
  have w: "waiting ?s x \<longleftrightarrow> waiting s x \<or> x = nextSub s" for x
    using su e' by (auto simp: waiting_def) metis
  have lt: "waiting s x \<Longrightarrow> x < nextSub s" for x using wf by (auto simp: waiting_def subs_wf_def)
  have dist: "distinct (e_subscribers e')" using e' old fr subs_distinct [OF wf] by (auto split: option.splits)
  have tl: "told x (answers s) = (if x < nextSub s \<and> \<not> waiting s x then 1 else 0)" for x using wf by (simp add: subs_wf_def)
  have un: "i = j" if "entries s i = Some d" "entries s j = Some d'" "x \<in> set (e_subscribers d)" "x \<in> set (e_subscribers d')" for i j d d' x
    using wf that unfolding subs_wf_def by blast
  have "told x (answers ?s) = (if x < nextSub ?s \<and> \<not> waiting ?s x then 1 else 0)" for x
    using tl [of x] w [of x] lt [of x] by auto
  moreover have "i = j" if "entries ?s i = Some d" "entries ?s j = Some d'" "x \<in> set (e_subscribers d)" "x \<in> set (e_subscribers d')" for i j d d' x
    using that e' su fr un by (auto split: if_splits)
  moreover have "distinct (e_subscribers d) \<and> (\<forall>x \<in> set (e_subscribers d). x < nextSub ?s)" if "entries ?s i = Some d" for i d
    using that dist e' su wf by (auto simp: subs_wf_def less_Suc_eq split: if_splits)
  ultimately show ?thesis unfolding subs_wf_def by blast
qed

text \<open>The shape of the state under the same steps.\<close>

lemma ctl_wf_touch:
  assumes "ctl_wf cfg s" and "entries s eid = Some e" and "e_state e' = e_state e" "e_key e' = e_key e" "e_timer e' = e_timer e"
    and "e_subscribers e' = [] \<longleftrightarrow> e_subscribers e = []"
  shows "ctl_wf cfg (s\<lparr>entries := (entries s)(eid \<mapsto> e')\<rparr>)"
  using assms unfolding ctl_wf_def by (auto simp: entry_wf_def)

lemma enqueue_wf:
  assumes wf: "ctl_wf cfg s" and k: "inFlight s key = None"
  shows "ctl_wf cfg (enqueue cfg key sub ex s)"
proof -
  note d = ctl_wfD [OF wf]
  have n: "entries s (nextEntry s) = None" using d(6) by (cases "entries s (nextEntry s)") (auto simp: entry_wf_def)
  have q: "nextEntry s \<notin> set (queue s)" using d(2) n by force
  have x: "execs s (nextEntry s) = None" using n wf by (auto simp: ctl_wf_def)
  have o: "e_key e \<noteq> key" if "entries s i = Some e" "e_state e \<noteq> Settled" for i e using d(4) [OF that] k by auto
  have fl: "inFlight s k' \<noteq> Some (nextEntry s)" for k' using d(5) [of k' "nextEntry s"] n by auto
  have lt: "i < nextEntry s" if "entries s i = Some e" for i e using d(6) [OF that] by (simp add: entry_wf_def)
  show ?thesis using wf n q x o fl lt
    unfolding ctl_wf_def enqueue_def Let_def by (auto simp: entry_wf_def less_Suc_eq)
qed

lemma ctl_wf_hold:
  assumes "ctl_wf cfg s" and "entries s eid = Some e" "e_state e = Settled" and "execs s eid \<noteq> None"
  shows "ctl_wf cfg (s\<lparr>execs := (execs s)(eid \<mapsto> Holding)\<rparr>)"
proof -
  have "dom ((execs s)(eid \<mapsto> Holding)) = dom (execs s)" using assms(4) by auto
  then show ?thesis using assms unfolding ctl_wf_def by (auto simp: entry_wf_def)
qed

lemma ctl_wf_release:
  assumes wf: "ctl_wf cfg s" and e: "entries s eid = Some e" "e_state e = Settled" and x: "execs s eid \<noteq> None"
  shows "ctl_wf cfg (release_slot eid s)"
proof -
  have f: "finite (dom (execs s))" "eid \<in> dom (execs s)" using wf x by (auto simp: ctl_wf_def)
  then have "0 < card (dom (execs s))" by (auto simp: card_gt_0_iff)
  then have c: "int (card (dom (execs s) - {eid})) = int (card (dom (execs s))) - 1"
    using f by (subst card_Diff_singleton) auto
  have "dom ((execs s)(eid := None)) = dom (execs s) - {eid}" by auto
  then show ?thesis using wf e c unfolding ctl_wf_def release_slot_def by (auto simp: entry_wf_def)
qed

lemma settle_execs: "settle eid ans (s\<lparr>execs := x\<rparr>) = (settle eid ans s)\<lparr>execs := x\<rparr>" "execs (settle eid ans s) = execs s"
  by (auto simp: settle_def release_key_def split: option.splits)

lemma settle_done: "entries s eid = Some e \<Longrightarrow> \<exists>e'. entries (settle eid ans s) eid = Some e' \<and> e_state e' = Settled"
  by (auto simp: settle_def release_key_def)

lemma executing_entry:
  assumes "ctl_wf cfg s" and "execs s eid = Some ph"
  obtains e where "entries s eid = Some e" "e_state e \<noteq> Queued" "ph = Holding \<Longrightarrow> e_state e = Settled"
proof -
  have "eid \<in> dom (entries s)" using assms by (auto simp: ctl_wf_def)
  then obtain e where e: "entries s eid = Some e" by blast
  have "entry_wf s eid e" using ctl_wfD(6) [OF assms(1) e] .
  then show thesis using that [OF e] assms(2) by (cases "e_state e") (auto simp: entry_wf_def)
qed

lemma settled_execution:
  assumes wf: "ctl_wf cfg s" and x: "execs s eid = Some Awaiting"
  shows "ctl_wf cfg (settle eid ans (s\<lparr>execs := (execs s)(eid \<mapsto> Holding)\<rparr>))"
    and "ctl_wf cfg (release_slot eid (settle eid ans s))"
proof -
  obtain e where e: "entries s eid = Some e" "e_state e \<noteq> Queued" using executing_entry [OF wf x] .
  note w = settle_wf [OF wf e]
  obtain e' where e': "entries (settle eid ans s) eid = Some e'" "e_state e' = Settled"
    using settle_done [OF e(1)] by blast
  show "ctl_wf cfg (settle eid ans (s\<lparr>execs := (execs s)(eid \<mapsto> Holding)\<rparr>))"
    using ctl_wf_hold [OF w e'] x by (simp add: settle_execs)
  show "ctl_wf cfg (release_slot eid (settle eid ans s))"
    using ctl_wf_release [OF w e'] x by (simp add: settle_execs)
qed

lemma abandon_wf:
  assumes wf: "ctl_wf cfg s" and e: "entries s eid = Some e" "e_subscribers e = [sub]"
  shows "ctl_wf cfg (abandon eid sub e s)"
proof -
  let ?e = "e\<lparr>e_subscribers := [], e_timer := False, e_state := Settled\<rparr>"
  let ?q = "if e_state e = Queued then remove1 eid (queue s) else queue s"
  have st: "e_state e \<noteq> Settled" using ctl_wfD(6) [OF wf e(1)] e(2) by (auto simp: entry_wf_def)
  have "ctl_wf cfg (s\<lparr>queue := ?q, entries := (entries s)(eid \<mapsto> ?e), inFlight := (inFlight s)(e_key e := None)\<rparr>)"
    by (rule ctl_wf_retire [OF wf e(1) st]) simp_all
  then show ?thesis using ctl_wfD(4) [OF wf e(1) st]
    by (elim ctl_wf_cong [rotated 6]) (simp_all add: abandon_def release_key_def reject_new_def)
qed

lemma abandon_subs:
  assumes wf: "subs_wf s" and e: "entries s eid = Some e" "e_subscribers e = [sub]"
  shows "subs_wf (abandon eid sub e s)"
proof -
  have "subs_wf (s\<lparr>entries := (entries s)(eid \<mapsto> e\<lparr>e_subscribers := [], e_timer := False, e_state := Settled\<rparr>),
      answers := answers s @ map (\<lambda>x. (x, Rejected Cancelled)) [sub]\<rparr>)"
    by (rule subs_wf_answer [OF wf e(1)]) (simp_all add: e(2))
  then show ?thesis by (elim subs_wf_cong [rotated 3]) (simp_all add: abandon_def release_key_def reject_new_def)
qed

lemma leave_subs:
  assumes wf: "subs_wf s" and e: "entries s eid = Some e" "sub \<in> set (e_subscribers e)"
  shows "subs_wf (leave eid sub e s)"
proof -
  have "subs_wf (s\<lparr>entries := (entries s)(eid \<mapsto> e\<lparr>e_subscribers := remove1 sub (e_subscribers e)\<rparr>),
      answers := answers s @ map (\<lambda>x. (x, Rejected Cancelled)) [sub]\<rparr>)"
    using subs_distinct [OF wf e(1)] e(2) by (intro subs_wf_answer [OF wf e(1)]) auto
  then show ?thesis by (elim subs_wf_cong [rotated 3]) (simp_all add: leave_def reject_new_def)
qed

lemma joined_inv:
  assumes i: "queue_inv cfg s" and k: "inFlight s key = Some eid"
  shows "queue_inv cfg (set_entry eid (\<lambda>e. e\<lparr>e_subscribers := e_subscribers e @ [nextSub s]\<rparr>) (arrive s))"
proof -
  have wf: "ctl_wf cfg s" "subs_wf s" using i by (simp_all add: queue_inv_def)
  obtain e where e: "entries s eid = Some e" "e_state e \<noteq> Settled" using ctl_wfD(5) [OF wf(1) k] by blast
  have ne: "e_subscribers e \<noteq> []" using ctl_wfD(6) [OF wf(1) e(1)] e(2) by (auto simp: entry_wf_def)
  let ?e = "e\<lparr>e_subscribers := e_subscribers e @ [nextSub s]\<rparr>"
  have "ctl_wf cfg (s\<lparr>entries := (entries s)(eid \<mapsto> ?e)\<rparr>)" by (rule ctl_wf_touch [OF wf(1) e(1)]) (simp_all add: ne)
  moreover have "subs_wf (s\<lparr>entries := (entries s)(eid \<mapsto> ?e), nextSub := nextSub s + 1\<rparr>)"
    by (rule subscribe_subs [OF wf(2), where subs = "e_subscribers e"]) (simp_all add: e(1))
  ultimately show ?thesis using e(1) unfolding queue_inv_def
    by (auto simp: arrive_def elim!: ctl_wf_cong [rotated 6] subs_wf_cong [rotated 3])
qed

lemma enqueued_inv:
  assumes i: "queue_inv cfg s" and k: "inFlight s key = None"
  shows "queue_inv cfg (enqueue cfg key (nextSub s) ex (arrive s))"
proof -
  have wf: "ctl_wf cfg s" "subs_wf s" using i by (simp_all add: queue_inv_def)
  have "ctl_wf cfg (arrive s)" using wf(1) by (elim ctl_wf_cong [rotated 6]) (simp_all add: arrive_def)
  then have "ctl_wf cfg (enqueue cfg key (nextSub s) ex (arrive s))" using k by (intro enqueue_wf) (simp_all add: arrive_def)
  moreover have n: "entries s (nextEntry s) = None"
    using ctl_wfD(6) [OF wf(1)] by (cases "entries s (nextEntry s)") (auto simp: entry_wf_def)
  let ?e = "\<lparr>e_key = key, e_subscribers = [nextSub s], e_expiresAt = ex, e_timer = True, e_state = Queued\<rparr>"
  have "subs_wf (s\<lparr>entries := (entries s)(nextEntry s \<mapsto> ?e), nextSub := nextSub s + 1\<rparr>)"
    by (rule subscribe_subs [OF wf(2), where subs = "[]"]) (simp_all add: n)
  ultimately show ?thesis unfolding queue_inv_def
    by (auto simp: arrive_def enqueue_def Let_def elim!: subs_wf_cong [rotated 3])
qed

section \<open>The queue keeps its invariant\<close>

lemma take_budget_inv:
  assumes "take_budget cfg w i s = (allowed, day, s1)" and "queue_inv cfg s"
  shows "queue_inv cfg s1" and "entries s1 = entries s" and "queue s1 = queue s" and "active s1 = active s"
proof -
  obtain d u where "s1 = s\<lparr>dailyBudgetDate := d, dailyBudgetUsed := u\<rparr>" using assms(1) by (rule take_budget_fields)
  then show "queue_inv cfg s1" "entries s1 = entries s" "queue s1 = queue s" "active s1 = active s"
    using assms(2) by (auto simp: queue_inv_def elim: ctl_wf_cong [rotated 6] subs_wf_cong [rotated 3])
qed

lemma queue_inv_cong:
  "queue s = queue s' \<Longrightarrow> entries s = entries s' \<Longrightarrow> inFlight s = inFlight s' \<Longrightarrow> execs s = execs s' \<Longrightarrow> active s = active s' \<Longrightarrow>
   nextEntry s = nextEntry s' \<Longrightarrow> answers s = answers s' \<Longrightarrow> nextSub s = nextSub s' \<Longrightarrow> queue_inv cfg s \<Longrightarrow> queue_inv cfg s'"
  unfolding queue_inv_def by (blast intro: ctl_wf_cong subs_wf_cong)

lemma queue_inv_drop: "queue_inv cfg s \<Longrightarrow> entries s eid = Some e \<Longrightarrow> e_state e = Queued \<Longrightarrow> queue_inv cfg (drop_entry eid code s)"
  by (simp add: queue_inv_def drop_entry_wf drop_subs)

interpretation qi: callback_invariant cfg w "queue_inv cfg"
proof unfold_locales
  fix s :: "'a controller" and eid e i day s1 rest j
  assume i: "queue_inv cfg s" and e: "entries s eid = Some e" "e_state e = Queued"
  {
    assume "take_budget cfg w i s = (False, day, s1)"
    from take_budget_inv [OF this i] e have "queue_inv cfg (drop_entry eid DailyBudgetExceeded s1)" by (simp add: queue_inv_drop)
    then show "queue_inv cfg ((drop_entry eid DailyBudgetExceeded s1)\<lparr>tick := i + 1\<rparr>)" by (rule queue_inv_cong [rotated 8]) simp_all
  next
    assume "active s < maxActive cfg" "queue s = eid # rest" "take_budget cfg w i s = (True, day, s1)"
    with take_budget_inv [OF this(3) i] e
    have "queue_inv cfg (launch eid e (now w (i + 1) + minStartIntervalMs cfg) (start_call w (i + 1) eid day) s1)"
      by (simp add: queue_inv_def launch_wf launch_subs)
    then show "queue_inv cfg ((launch eid e (now w (i + 1) + minStartIntervalMs cfg) (start_call w (i + 1) eid day) s1)\<lparr>tick := i + 2\<rparr>)"
      by (rule queue_inv_cong [rotated 8]) simp_all
  }
next
  fix s :: "'a controller" and code
  assume i: "queue_inv cfg s"
  then have "subs_wf (reject_new (nextSub s) code (arrive s))" by (simp add: queue_inv_def refused_subs)
  moreover have "ctl_wf cfg (reject_new (nextSub s) code (arrive s))"
    using i by (auto simp: queue_inv_def reject_new_def arrive_def elim: ctl_wf_cong [rotated 6])
  ultimately show "queue_inv cfg (reject_new (nextSub s) code (arrive s))" by (simp add: queue_inv_def)
next
  fix s :: "'a controller" and eid e sub
  assume i: "queue_inv cfg s" and e: "entries s eid = Some e" "sub \<in> set (e_subscribers e)" "remove1 sub (e_subscribers e) \<noteq> []"
  let ?e = "e\<lparr>e_subscribers := remove1 sub (e_subscribers e)\<rparr>"
  have "ctl_wf cfg (s\<lparr>entries := (entries s)(eid \<mapsto> ?e)\<rparr>)"
    using i e by (intro ctl_wf_touch [where e = e]) (auto simp: queue_inv_def)
  then have "ctl_wf cfg (leave eid sub e s)" by (rule ctl_wf_cong [rotated 6]) (simp_all add: leave_def reject_new_def)
  then show "queue_inv cfg (leave eid sub e s)" using i e by (simp add: queue_inv_def leave_subs)
next
  fix s :: "'a controller" and eid
  assume i: "queue_inv cfg s" and x: "execs s eid = Some Awaiting"
  have "subs_wf (s\<lparr>execs := (execs s)(eid \<mapsto> Holding)\<rparr>)" using i by (auto simp: queue_inv_def elim: subs_wf_cong [rotated 3])
  then show "queue_inv cfg (settle eid (Rejected ProviderTimeout) (s\<lparr>execs := (execs s)(eid \<mapsto> Holding)\<rparr>))"
    using i settled_execution(1) [OF _ x] by (simp add: queue_inv_def settle_subs)
next
  fix s :: "'a controller" and eid ans
  assume i: "queue_inv cfg s" and x: "execs s eid = Some Awaiting"
  have "subs_wf (settle eid ans s)" using i by (simp add: queue_inv_def settle_subs)
  then have "subs_wf (release_slot eid (settle eid ans s))" by (rule subs_wf_cong [rotated 3]) (simp_all add: release_slot_def)
  then show "queue_inv cfg (release_slot eid (settle eid ans s))"
    using i settled_execution(2) [OF _ x] by (simp add: queue_inv_def)
next
  fix s :: "'a controller" and eid
  assume i: "queue_inv cfg s" and x: "execs s eid = Some Holding"
  obtain e where "entries s eid = Some e" "e_state e = Settled"
    using executing_entry [OF _ x] i by (metis queue_inv_def)
  then have "ctl_wf cfg (release_slot eid s)" using i x by (intro ctl_wf_release) (auto simp: queue_inv_def)
  moreover have "subs_wf (release_slot eid s)"
    using i by (auto simp: queue_inv_def release_slot_def elim: subs_wf_cong [rotated 3])
  ultimately show "queue_inv cfg (release_slot eid s)" by (simp add: queue_inv_def)
qed ((erule (2) queue_inv_drop | erule (1) joined_inv | erule (1) enqueued_inv |
    (auto simp: queue_inv_def abandon_wf abandon_subs elim: ctl_wf_cong [rotated 6] subs_wf_cong [rotated 3])[1])+)

lemma queue_inv_initial: "0 \<le> maxActive cfg \<Longrightarrow> queue_inv cfg initial_controller"
  by (simp add: queue_inv_def ctl_wf_def subs_wf_def initial_controller_def waiting_def told_def)


section \<open>Capacity of the queue\<close>

lemma remove1_Nil_iff: "x \<in> set xs \<Longrightarrow> remove1 x xs = [] \<longleftrightarrow> xs = [x]"
  by (cases xs) auto

lemma pump_takes_head:
  assumes "queue_inv cfg s" and q: "queue s = [eid]" and a: "active s < maxActive cfg" and n: "nextStartAt s \<le> now w (tick s + 1)"
    and p: "pump cfg w s = Some s'"
  shows "queue s' = []"
proof -
  obtain e where e: "entries s eid = Some e" using ctl_wfD(2) [of cfg s eid] assms(1) q by (auto simp: queue_inv_def)
  note sh = qi.queue_shrinks [OF assms(1) q e]
  have nil: "pump_loop cfg w (Suc 0) t = Some t" if "queue t = []" for t :: "'a controller" using that by simp
  show ?thesis using p n a q e sh
    by (auto simp: pump_def Let_def nil split: if_splits)
qed

lemma pump_queue: "queue_inv cfg s \<Longrightarrow> pump cfg w s = Some s' \<Longrightarrow> length (queue s') \<le> length (queue s)"
  using qi.pump_total [of cfg s w] by auto

lemma run_capacity:
  assumes i: "queue_inv cfg s" and m: "mono (now w)" and p: "0 \<le> maxPending cfg" "int (length (queue s)) \<le> maxPending cfg"
    and r: "run cfg w key aborted s = Some s'"
  shows "int (length (queue s')) \<le> maxPending cfg"
proof (cases "\<not> aborted \<and> inFlight s key = None \<and> admitted w (tick s) \<and>
    (active s < maxActive cfg \<and> queue s = [] \<and> nextStartAt s \<le> now w (tick s + 1) \<or> int (length (queue s)) < maxPending cfg)")
  case False
  then show ?thesis using r p by (auto simp: run_eq reject_new_def count_rejected_def arrive_def split: option.splits if_splits)
next
  case True
  let ?t = "enqueue cfg key (nextSub s) (now w (tick s + 2) + queueExpiryMs cfg) (arrive s)"
  have pm: "pump cfg w ?t = Some s'" using True r by (auto simp: run_eq split: if_splits)
  have t: "queue_inv cfg ?t" using True by (intro enqueued_inv i) simp
  have f: "queue ?t = queue s @ [nextEntry s]" "active ?t = active s" "nextStartAt ?t = nextStartAt s" "tick ?t = tick s + 3"
    by (simp_all add: enqueue_def arrive_def Let_def)
  have le: "now w (tick s + 1) \<le> now w (tick ?t + 1)" using monoD [OF m, of "tick s + 1" "tick ?t + 1"] f(4) by simp
  show ?thesis
  proof (cases "int (length (queue s)) < maxPending cfg")
    case True
    then show ?thesis using pump_queue [OF t pm] f(1) by simp
  next
    case False
    then have "queue s' = []"
      using True by (intro pump_takes_head [OF t _ _ _ pm]) (use le f in auto)
    then show ?thesis using p(1) by simp
  qed
qed

lemma settle_queue [simp]: "queue (settle eid ans s) = queue s" "queue (drop_entry eid code s) = remove1 eid (queue s)"
  by (auto simp: settle_def release_key_def drop_entry_def count_rejected_def split: option.splits)

lemma handle_capacity:
  assumes i: "queue_inv cfg s" and m: "mono (now w)" and p: "0 \<le> maxPending cfg" "int (length (queue s)) \<le> maxPending cfg"
    and h: "handle cfg w s ev = Some s'"
  shows "int (length (queue s')) \<le> maxPending cfg"
proof -
  have le: "int (length (queue s')) \<le> maxPending cfg"
    if "pump cfg w t = Some s'" "queue_inv cfg t" "length (queue t) \<le> length (queue s)" for t
    using pump_queue [OF that(2,1)] that(3) p(2) by linarith
  show ?thesis
  proof (cases ev)
    case (Run key aborted)
    then show ?thesis using run_capacity [OF i m p] h by simp
  next
    case (AbortSignal eid sub)
    show ?thesis
    proof (cases "\<exists>e. entries s eid = Some e \<and> e_subscribers e = [sub]")
      case True
      then obtain e where e: "entries s eid = Some e" "e_subscribers e = [sub]" by blast
      then have "e_state e \<noteq> Settled" using ctl_wfD(6) [of cfg s eid e] i by (auto simp: queue_inv_def entry_wf_def)
      then have "pump cfg w (abandon eid sub e s) = Some s'"
        using h AbortSignal e by (simp add: abort_last)
      then show ?thesis
        by (rule le) (use qi.abandoned [OF i e] in \<open>auto simp: abandon_def release_key_def reject_new_def length_remove1\<close>)
    next
      case False
      then have "queue s' = queue s"
        using h AbortSignal
        by (auto simp: abort_subscriber_def cancelWhenUnobserved_def Let_def reject_new_def remove1_Nil_iff split: option.splits if_splits)
      then show ?thesis using p by simp
    qed
  next
    case (ExpiryTimer eid)
    then show ?thesis using h p i
      by (auto simp: expiry_timer_def expire_entry_drop length_remove1 split: option.splits if_splits intro!: le queue_inv_drop)
  next
    case SpacingTimer
    then show ?thesis using h p qi.spacing [OF i, of False]
      by (auto simp: spacing_timer_def split: if_splits intro!: le)
  next
    case (TimeoutTimer eid)
    then show ?thesis using h p by (auto simp: provider_timeout_def split: if_splits)
  next
    case (WorkDone eid res)
    have q: "length (queue t) = length (queue s)" if "t = work_answer eid res s" for t
      using that by (auto simp: work_answer_def split: work_result.splits)
    show ?thesis
    proof (cases "execs s eid")
      case (Some ph)
      obtain t where t: "pump cfg w (release_slot eid t) = Some s'" "t = (if ph = Awaiting then work_answer eid res s else s)"
        using h WorkDone Some by (simp add: work_done_def release_slot_def Let_def)
      have "queue_inv cfg (release_slot eid t)"
        using qi.work_done_pre [OF i Some, of res] t(2) by simp
      from le [OF t(1) this] show ?thesis using t(2) q by (simp add: release_slot_def split: if_splits)
    qed (use h p WorkDone in \<open>simp add: work_done_def\<close>)
  qed
qed


section \<open>Budget and spacing of provider calls\<close>

definition day_calls :: "int \<Rightarrow> provider_call list \<Rightarrow> int" where
  "day_calls d cs = int (length (filter (\<lambda>c. call_day c = Some d) cs))"

definition spaced :: "int \<Rightarrow> provider_call list \<Rightarrow> bool" where
  "spaced m cs \<longleftrightarrow> successively (\<lambda>a b. call_at a + m \<le> call_at b) cs"

definition budget_ok :: "int \<Rightarrow> world \<Rightarrow> 'v controller \<Rightarrow> bool" where
  "budget_ok b w s \<longleftrightarrow>
     (\<forall>c \<in> set (calls s). \<exists>d D. call_day c = Some d \<and> dailyBudgetDate s = Some D \<and> d \<le> D) \<and>
     (\<forall>d. day_calls d (calls s) \<le> b) \<and>
     (\<forall>D. dailyBudgetDate s = Some D \<longrightarrow> day_calls D (calls s) = dailyBudgetUsed s \<and> D \<le> now w (tick s) div 86400000)"

definition calls_inv :: "admission_settings \<Rightarrow> world \<Rightarrow> 'v controller \<Rightarrow> bool" where
  "calls_inv cfg w s \<longleftrightarrow> ctl_wf cfg s \<and>
     (mono (now w) \<longrightarrow>
        spaced (minStartIntervalMs cfg) (calls s) \<and>
        (calls s \<noteq> [] \<longrightarrow> nextStartAt s = call_at (last (calls s)) + minStartIntervalMs cfg) \<and>
        (tryConsumeBudget w = None \<longrightarrow> (\<forall>b. dailyBudget cfg = Some b \<longrightarrow> 0 \<le> b \<longrightarrow> budget_ok b w s)))"

lemma day_calls_simps [simp]:
  "day_calls d [] = 0" "day_calls d (cs @ [c]) = day_calls d cs + (if call_day c = Some d then 1 else 0)"
  by (simp_all add: day_calls_def)

lemma spaced_snoc: "spaced m (cs @ [c]) \<longleftrightarrow> spaced m cs \<and> (cs \<noteq> [] \<longrightarrow> call_at (last cs) + m \<le> call_at c)"
  by (auto simp: spaced_def successively_append_iff)

lemma calls_inv_cong:
  assumes "calls_inv cfg w s" and "ctl_wf cfg s'" and "calls s = calls s'" "nextStartAt s = nextStartAt s'"
    "dailyBudgetDate s = dailyBudgetDate s'" "dailyBudgetUsed s = dailyBudgetUsed s'" "tick s \<le> tick s'"
  shows "calls_inv cfg w s'"
proof -
  have "budget_ok b w s'" if "mono (now w)" "budget_ok b w s" for b
  proof -
    have "now w (tick s) div 86400000 \<le> now w (tick s') div 86400000"
      using assms(7) monoD [OF that(1), of "tick s" "tick s'"] by (intro zdiv_mono1) simp_all
    then show ?thesis using that(2) assms(3,5,6) by (fastforce simp: budget_ok_def)
  qed
  then show ?thesis using assms(1-4) by (simp add: calls_inv_def)
qed

text \<open>What charging the budget does; readings do not go back, so a new date has no calls yet.\<close>

lemma no_later_calls:
  assumes "budget_ok b w s" and "\<And>D. dailyBudgetDate s = Some D \<Longrightarrow> D < d"
  shows "day_calls d (calls s) = 0"
  using assms by (fastforce simp: day_calls_def budget_ok_def filter_empty_conv)

lemma charge:
  assumes t: "take_budget cfg w i s = (allowed, day, s1)" and n: "tryConsumeBudget w = None" "dailyBudget cfg = Some b" "0 \<le> b"
    and m: "mono (now w)" and i: "tick s \<le> i" and ok: "budget_ok b w s"
  shows "allowed \<Longrightarrow> \<exists>d. day = Some d \<and> d = now w i div 86400000 \<and> dailyBudgetDate s1 = Some d \<and>
      dailyBudgetUsed s1 = day_calls d (calls s) + 1 \<and> day_calls d (calls s) < b \<and>
      (\<forall>c \<in> set (calls s). \<exists>d'. call_day c = Some d' \<and> d' \<le> d)"
    and "\<not> allowed \<Longrightarrow> budget_ok b w (s1\<lparr>tick := i + 1\<rparr>)"
proof -
  let ?d = "now w i div 86400000"
  have le: "now w (tick s) div 86400000 \<le> ?d" "?d \<le> now w (i + 1) div 86400000"
    using monoD [OF m, of "tick s" i] monoD [OF m, of i "i + 1"] i by (auto intro!: zdiv_mono1)
  have old: "D \<le> ?d" if "dailyBudgetDate s = Some D" for D using ok that le(1) by (fastforce simp: budget_ok_def)
  have z: "day_calls ?d (calls s) = 0" if "dailyBudgetDate s \<noteq> Some ?d"
    by (rule no_later_calls [OF ok]) (use old that in fastforce)
  have used: "dailyBudgetUsed s = day_calls ?d (calls s)" if "dailyBudgetDate s = Some ?d"
    using that ok by (simp add: budget_ok_def)
  have tb: "take_budget cfg w i s =
      (day_calls ?d (calls s) < b, Some ?d, s\<lparr>dailyBudgetDate := Some ?d,
        dailyBudgetUsed := (if day_calls ?d (calls s) < b then day_calls ?d (calls s) + 1 else day_calls ?d (calls s))\<rparr>)"
    if "iso_day (now w i) \<noteq> None"
    using that n z used by (cases "dailyBudgetDate s = Some ?d") (auto simp: take_budget_def Let_def iso_day_def split: if_splits)
  have past: "\<forall>c \<in> set (calls s). \<exists>d'. call_day c = Some d' \<and> d' \<le> ?d"
    using ok old by (fastforce simp: budget_ok_def)
  show "\<exists>d. day = Some d \<and> d = ?d \<and> dailyBudgetDate s1 = Some d \<and> dailyBudgetUsed s1 = day_calls d (calls s) + 1 \<and>
      day_calls d (calls s) < b \<and> (\<forall>c \<in> set (calls s). \<exists>d'. call_day c = Some d' \<and> d' \<le> d)" if allowed
    using t n that past tb by (cases "iso_day (now w i)") (auto simp: take_budget_def)
  show "budget_ok b w (s1\<lparr>tick := i + 1\<rparr>)" if "\<not> allowed"
  proof (cases "iso_day (now w i)")
    case None
    then have "s1 = s" using t n by (simp add: take_budget_def)
    then show ?thesis using ok le unfolding budget_ok_def by fastforce
  next
    case (Some today)
    then have "s1 = s\<lparr>dailyBudgetDate := Some ?d, dailyBudgetUsed := day_calls ?d (calls s)\<rparr>"
      using t that tb by auto
    then show ?thesis using ok past le by (auto simp: budget_ok_def)
  qed
qed

lemma take_budget_frame_calls:
  "take_budget cfg w i s = (allowed, day, s1) \<Longrightarrow>
     calls s1 = calls s \<and> nextStartAt s1 = nextStartAt s \<and> queue s1 = queue s \<and> (ctl_wf cfg s \<longrightarrow> ctl_wf cfg s1) \<and>
     entries s1 = entries s \<and> active s1 = active s"
  by (elim take_budget_fields) (auto elim: ctl_wf_cong [rotated 6])

lemma calls_inv_drop:
  assumes "calls_inv cfg w s" "entries s eid = Some e" "e_state e = Queued"
  shows "calls_inv cfg w (drop_entry eid code s)"
  by (rule calls_inv_cong [OF assms(1)])
     (use assms in \<open>auto simp: calls_inv_def drop_entry_wf drop_entry_eq count_rejected_def\<close>)

lemma calls_inv_denied:
  assumes i: "calls_inv cfg w s" and e: "entries s eid = Some e" "e_state e = Queued" and le: "tick s \<le> i"
    and t: "take_budget cfg w i s = (False, day, s1)"
  shows "calls_inv cfg w ((drop_entry eid DailyBudgetExceeded s1)\<lparr>tick := i + 1\<rparr>)"
proof -
  note f = take_budget_frame_calls [OF t]
  have "calls_inv cfg w (s1\<lparr>tick := i + 1\<rparr>)"
    using i f charge(2) [OF t _ _ _ _ le] unfolding calls_inv_def by simp
  from calls_inv_drop [OF this, of eid e DailyBudgetExceeded] e f
  have d: "calls_inv cfg w (drop_entry eid DailyBudgetExceeded (s1\<lparr>tick := i + 1\<rparr>))" by simp
  have "drop_entry eid DailyBudgetExceeded (s1\<lparr>tick := i + 1\<rparr>) = (drop_entry eid DailyBudgetExceeded s1)\<lparr>tick := i + 1\<rparr>"
    by (auto simp: drop_entry_def count_rejected_def settle_def release_key_def split: option.splits)
  then show ?thesis using d by simp
qed

lemma calls_inv_launched:
  assumes i: "calls_inv cfg w s" and a: "active s < maxActive cfg" and q: "queue s = eid # rest"
    and e: "entries s eid = Some e" "e_state e = Queued" and j: "tick s \<le> j" "j < i" and n: "nextStartAt s \<le> now w j"
    and t: "take_budget cfg w i s = (True, day, s1)"
  shows "calls_inv cfg w ((launch eid e (now w (i + 1) + minStartIntervalMs cfg) (start_call w (i + 1) eid day) s1)\<lparr>tick := i + 2\<rparr>)"
    (is "calls_inv cfg w ?s")
proof -
  note f = take_budget_frame_calls [OF t]
  have wf: "ctl_wf cfg ?s"
    using f i a q e launch_wf [of cfg s1 eid rest e] by (simp add: calls_inv_def)
  have fs: "calls ?s = calls s @ [start_call w (i + 1) eid day]" "dailyBudgetDate ?s = dailyBudgetDate s1"
    "dailyBudgetUsed ?s = dailyBudgetUsed s1" "nextStartAt ?s = now w (i + 1) + minStartIntervalMs cfg" "tick ?s = i + 2"
    using f by (simp_all add: launch_def)
  have sp: "spaced (minStartIntervalMs cfg) (calls ?s)" if m: "mono (now w)"
  proof -
    have "now w j \<le> now w (i + 1)" using j(2) monoD [OF m, of j "i + 1"] by simp
    moreover have "spaced (minStartIntervalMs cfg) (calls s @ [start_call w (i + 1) eid day])"
      using calculation i m n by (auto simp: spaced_snoc calls_inv_def start_call_def)
    ultimately show ?thesis by (simp only: fs)
  qed
  have "budget_ok b w ?s" if m: "mono (now w)" "tryConsumeBudget w = None" "dailyBudget cfg = Some b" "0 \<le> b" for b
  proof -
    have ok: "budget_ok b w s" using i m by (simp add: calls_inv_def)
    have "tick s \<le> i" using j by simp
    from charge(1) [OF t m(2,3,4,1) this ok] obtain d where d: "day = Some d" "d = now w i div 86400000"
      "dailyBudgetDate s1 = Some d" "dailyBudgetUsed s1 = day_calls d (calls s) + 1" "day_calls d (calls s) < b"
      "\<forall>c \<in> set (calls s). \<exists>d'. call_day c = Some d' \<and> d' \<le> d" by blast
    have "d \<le> now w (i + 2) div 86400000" using d(2) monoD [OF m(1), of i "i + 2"] by (auto intro!: zdiv_mono1)
    then show ?thesis using ok d unfolding budget_ok_def fs by (auto simp: start_call_def)
  qed
  then show ?thesis using wf sp unfolding calls_inv_def fs by (simp add: start_call_def)
qed

interpretation ci: callback_invariant cfg w "calls_inv cfg w"
proof unfold_locales
  fix s :: "'a controller" and eid e i day s1 rest j
  assume i: "calls_inv cfg w s" and e: "entries s eid = Some e" "e_state e = Queued"
  show "calls_inv cfg w (drop_entry eid QueueExpired s)" by (rule calls_inv_drop [OF i e])
  {
    assume "tick s \<le> i" "take_budget cfg w i s = (False, day, s1)"
    then show "calls_inv cfg w ((drop_entry eid DailyBudgetExceeded s1)\<lparr>tick := i + 1\<rparr>)" by (rule calls_inv_denied [OF i e])
  next
    assume "active s < maxActive cfg" "queue s = eid # rest" "tick s \<le> j" "j < i" "nextStartAt s \<le> now w j"
      "take_budget cfg w i s = (True, day, s1)"
    then show "calls_inv cfg w ((launch eid e (now w (i + 1) + minStartIntervalMs cfg) (start_call w (i + 1) eid day) s1)\<lparr>tick := i + 2\<rparr>)"
      using calls_inv_launched [OF i _ _ e] by blast
  }
next
  fix s :: "'a controller" and key eid ex code
  assume i: "calls_inv cfg w s"
  have a: "ctl_wf cfg (arrive s)" using i by (simp add: calls_inv_def arrive_def)
  show "calls_inv cfg w (reject_new (nextSub s) code (arrive s))"
    by (rule calls_inv_cong [OF i]) (use a in \<open>simp_all add: reject_new_def arrive_def\<close>)
  show "calls_inv cfg w (enqueue cfg key (nextSub s) ex (arrive s))" if "inFlight s key = None"
    by (rule calls_inv_cong [OF i])
       (use enqueue_wf [OF a, of key] that in \<open>auto simp: enqueue_def arrive_def Let_def\<close>)
  show "calls_inv cfg w (set_entry eid (\<lambda>e. e\<lparr>e_subscribers := e_subscribers e @ [nextSub s]\<rparr>) (arrive s))" if k: "inFlight s key = Some eid"
  proof -
    have wf: "ctl_wf cfg s" using i by (simp add: calls_inv_def)
    obtain e where e: "entries s eid = Some e" "e_state e \<noteq> Settled" using ctl_wfD(5) [OF wf k] by blast
    have ne: "e_subscribers e \<noteq> []" using ctl_wfD(6) [OF wf e(1)] e(2) by (auto simp: entry_wf_def)
    have "ctl_wf cfg (s\<lparr>entries := (entries s)(eid \<mapsto> e\<lparr>e_subscribers := e_subscribers e @ [nextSub s]\<rparr>)\<rparr>)"
      by (rule ctl_wf_touch [OF wf e(1)]) (simp_all add: ne)
    then show ?thesis
      by (intro calls_inv_cong [OF i]) (use e in \<open>auto simp: arrive_def elim: ctl_wf_cong [rotated 6]\<close>)
  qed
next
  fix s :: "'a controller" and eid e sub
  assume i: "calls_inv cfg w s" and e: "entries s eid = Some e" "sub \<in> set (e_subscribers e)" "remove1 sub (e_subscribers e) \<noteq> []"
  have "ctl_wf cfg (s\<lparr>entries := (entries s)(eid \<mapsto> e\<lparr>e_subscribers := remove1 sub (e_subscribers e)\<rparr>)\<rparr>)"
    using i e by (intro ctl_wf_touch [where e = e]) (auto simp: calls_inv_def)
  then show "calls_inv cfg w (leave eid sub e s)"
    by (intro calls_inv_cong [OF i]) (auto simp: leave_def reject_new_def elim: ctl_wf_cong [rotated 6])
next
  fix s :: "'a controller" and eid e sub
  assume i: "calls_inv cfg w s" and e: "entries s eid = Some e" "e_subscribers e = [sub]"
  then have "ctl_wf cfg (abandon eid sub e s)" by (intro abandon_wf) (simp_all add: calls_inv_def)
  then show "calls_inv cfg w (abandon eid sub e s)"
    by (intro calls_inv_cong [OF i]) (auto simp: abandon_def release_key_def reject_new_def)
next
  fix s :: "'a controller" and eid ans
  assume i: "calls_inv cfg w s" and x: "execs s eid = Some Awaiting"
  have wf: "ctl_wf cfg s" using i by (simp add: calls_inv_def)
  show "calls_inv cfg w (settle eid (Rejected ProviderTimeout) (s\<lparr>execs := (execs s)(eid \<mapsto> Holding)\<rparr>))"
    by (rule calls_inv_cong [OF i settled_execution(1) [OF wf x]]) (auto simp: settle_def release_key_def split: option.splits)
  show "calls_inv cfg w (release_slot eid (settle eid ans s))"
    by (rule calls_inv_cong [OF i settled_execution(2) [OF wf x]])
       (auto simp: settle_def release_key_def release_slot_def split: option.splits)
next
  fix s :: "'a controller" and eid
  assume i: "calls_inv cfg w s" and x: "execs s eid = Some Holding"
  have wf: "ctl_wf cfg s" using i by (simp add: calls_inv_def)
  obtain e where "entries s eid = Some e" "e_state e = Settled" using executing_entry [OF wf x] by metis
  then have "ctl_wf cfg (release_slot eid s)" using x by (intro ctl_wf_release [OF wf]) auto
  then show "calls_inv cfg w (release_slot eid s)" by (intro calls_inv_cong [OF i]) (simp_all add: release_slot_def)
next
  fix s :: "'a controller" and t b c
  assume i: "calls_inv cfg w s"
  then have wf: "ctl_wf cfg s" by (simp add: calls_inv_def)
  then show "ctl_wf cfg s" .
  show "calls_inv cfg w (s\<lparr>tick := t\<rparr>)" if "tick s \<le> t" by (rule calls_inv_cong [OF i]) (use wf that in simp_all)
  show "calls_inv cfg w (s\<lparr>spacingTimer := b\<rparr>)" by (rule calls_inv_cong [OF i]) (use wf in simp_all)
  show "calls_inv cfg w (s\<lparr>cnt := c\<rparr>)" by (rule calls_inv_cong [OF i]) (use wf in simp_all)
qed

lemma calls_inv_initial: "0 \<le> maxActive cfg \<Longrightarrow> calls_inv cfg w initial_controller"
  by (simp add: calls_inv_def ctl_wf_def initial_controller_def budget_ok_def spaced_def)

end
