(* ===== verification/AdmissionProperties.thy ===== *)
theory AdmissionProperties
  imports AdmissionRuns
begin

text \<open>
  The properties of the admission queue in front of the address provider, for every sequence of
  callbacks from the initial state.
\<close>

definition demo_cfg :: admission_settings where
  "demo_cfg = \<lparr>maxPending = 1, maxActive = 1, queueExpiryMs = 4000, timeoutMs = 3000, minStartIntervalMs = 250,
     dailyBudget = Some 2700\<rparr>"

definition demo_world :: world where
  "demo_world = \<lparr>now = int, admit = None, tryConsumeBudget = None\<rparr>"

definition demo_calls :: "nat event list" where
  "demo_calls = [Run [97] False, Run [97] False, Run [98] False, WorkDone 0 (Value 7)]"

lemma demo_mono: "mono (now demo_world)"
  by (simp add: demo_world_def mono_def)

text \<open>
  C18. Every callback returns, the pump included, and every caller is told exactly one answer: after
  any sequence of callbacks each caller that is no longer subscribed to an entry was resolved or
  rejected once, and one that still is was not answered yet.
\<close>

theorem admission_one_answer:
  assumes "0 \<le> maxActive cfg"
  shows "\<exists>s. run_events cfg w evs = Some s \<and>
    (\<forall>x. told x (answers s) = (if x < nextSub s \<and> \<not> waiting s x then 1 else 0))"
  using qi.run_events_inv [OF queue_inv_initial [OF assms], of w evs] by (auto simp: queue_inv_def subs_wf_def)

theorem admission_one_answer_witness:
  "\<exists>s. run_events demo_cfg demo_world demo_calls = Some s \<and>
    (\<forall>x. told x (answers s) = (if x < nextSub s \<and> \<not> waiting s x then 1 else 0))"
  by (rule admission_one_answer) (simp add: demo_cfg_def)

lemma run_events_capacity:
  assumes "mono (now w)" and "0 \<le> maxActive cfg" and p: "0 \<le> maxPending cfg"
  shows "\<exists>s. run_events cfg w evs = Some s \<and> queue_inv cfg s \<and> int (length (queue s)) \<le> maxPending cfg"
proof -
  have "invariant_system (handle_step cfg w) (\<lambda>_ s. \<exists>t. s = Some t \<and> queue_inv cfg t \<and> awake cfg t \<and>
      int (length (queue t)) \<le> maxPending cfg)"
  proof (unfold_locales, goal_cases)
    case (1 hist s e s' out)
    then obtain t t' where t: "s = Some t" "queue_inv cfg t" "awake cfg t" "int (length (queue t)) \<le> maxPending cfg"
      "handle cfg w t e = Some t'" "queue_inv cfg t'" "awake cfg t'" using qi.handle_inv by blast
    then have "s' = Some t'" using 1 by (simp add: handle_step_def)
    then show ?case using handle_capacity [OF t(2) assms(1) p t(4,5)] t by blast
  qed
  from invariant_system.reachable_inv [OF this, of "Some initial_controller" evs]
  show ?thesis using queue_inv_initial [OF assms(2)] p
    by (auto simp: run_events_def awake_def initial_controller_def)
qed

text \<open>
  C19. Capacity: the number of running provider calls never exceeds the configured maximum, it is the
  number of executions that have not ended (a timed-out call keeps its slot), the queue never exceeds
  its bound, and two entries in progress never share a coalescing key.
\<close>

theorem admission_capacity:
  assumes "mono (now w)" and "0 \<le> maxActive cfg" and "0 \<le> maxPending cfg"
  shows "\<exists>s. run_events cfg w evs = Some s \<and> active s \<le> maxActive cfg \<and> active s = int (card (dom (execs s))) \<and>
    int (length (queue s)) \<le> maxPending cfg \<and>
    (\<forall>i j e d. entries s i = Some e \<and> entries s j = Some d \<and> e_state e \<noteq> Settled \<and> e_state d \<noteq> Settled \<and> e_key e = e_key d
      \<longrightarrow> i = j)"
proof -
  obtain s where s: "run_events cfg w evs = Some s" "queue_inv cfg s" "int (length (queue s)) \<le> maxPending cfg"
    using run_events_capacity [OF assms] by blast
  then have wf: "ctl_wf cfg s" by (simp add: queue_inv_def)
  have "i = j" if "entries s i = Some e" "entries s j = Some d" "e_state e \<noteq> Settled" "e_state d \<noteq> Settled" "e_key e = e_key d" for i j e d
    using ctl_wfD(4) [OF wf that(1,3)] ctl_wfD(4) [OF wf that(2,4)] that(5) by simp
  then show ?thesis using s wf by (auto simp: ctl_wf_def)
qed

theorem admission_capacity_witness:
  "\<exists>s. run_events demo_cfg demo_world demo_calls = Some s \<and> active s \<le> maxActive demo_cfg \<and>
    int (length (queue s)) \<le> maxPending demo_cfg"
  using admission_capacity [OF demo_mono, of demo_cfg demo_calls] by (auto simp: demo_cfg_def)

text \<open>
  C20. No entry is forgotten: after every callback, if an entry waits while a slot is free then the
  spacing timer is armed, and every waiting entry has its expiry timer armed, so a later callback
  starts it or rejects it.
\<close>

theorem admission_no_lost_wakeup:
  assumes "0 \<le> maxActive cfg"
  shows "\<exists>s. run_events cfg w evs = Some s \<and>
    (active s < maxActive cfg \<and> queue s \<noteq> [] \<longrightarrow> spacingTimer s) \<and>
    (\<forall>eid \<in> set (queue s). \<exists>e. entries s eid = Some e \<and> e_state e = Queued \<and> e_timer e)"
proof -
  obtain s where s: "run_events cfg w evs = Some s" "queue_inv cfg s" "awake cfg s"
    using qi.run_events_inv [OF queue_inv_initial [OF assms], of w evs] by blast
  then have "\<exists>e. entries s eid = Some e \<and> e_state e = Queued \<and> e_timer e" if "eid \<in> set (queue s)" for eid
    using ctl_wfD(2) [of cfg s eid] ctl_wfD(6) [of cfg s eid] that by (fastforce simp: queue_inv_def entry_wf_def)
  then show ?thesis using s by (auto simp: awake_def)
qed

theorem admission_no_lost_wakeup_witness:
  "\<exists>s. run_events demo_cfg demo_world demo_calls = Some s \<and> (active s < maxActive demo_cfg \<and> queue s \<noteq> [] \<longrightarrow> spacingTimer s)"
  using admission_no_lost_wakeup [of demo_cfg demo_world demo_calls] by (auto simp: demo_cfg_def)

text \<open>
  C21. The daily budget holds: with a clock that never runs backwards, at most the configured number of
  provider calls is charged to any one UTC day, however many callers, timeouts and cancellations there
  are.
\<close>

theorem admission_daily_budget:
  assumes "mono (now w)" and "0 \<le> maxActive cfg" and "tryConsumeBudget w = None" and "dailyBudget cfg = Some b" and "0 \<le> b"
  shows "\<exists>s. run_events cfg w evs = Some s \<and> (\<forall>d. day_calls d (calls s) \<le> b)"
  using ci.run_events_inv [OF calls_inv_initial [OF assms(2)], of w evs] assms
  by (auto simp: calls_inv_def budget_ok_def)

theorem admission_daily_budget_witness:
  "\<exists>s. run_events demo_cfg demo_world demo_calls = Some s \<and> (\<forall>d. day_calls d (calls s) \<le> 2700)"
  by (rule admission_daily_budget [OF demo_mono]) (simp_all add: demo_cfg_def demo_world_def)

text \<open>
  Provider calls are spaced: with a clock that never runs backwards, consecutive calls start at
  least the configured interval apart.
\<close>

theorem admission_calls_spaced:
  assumes "mono (now w)" and "0 \<le> maxActive cfg"
  shows "\<exists>s. run_events cfg w evs = Some s \<and>
    (\<forall>i. Suc i < length (calls s) \<longrightarrow> call_at (calls s ! i) + minStartIntervalMs cfg \<le> call_at (calls s ! Suc i))"
  using ci.run_events_inv [OF calls_inv_initial [OF assms(2)], of w evs] assms(1)
  by (auto simp: calls_inv_def spaced_def successively_conv_nth)

theorem admission_calls_spaced_witness:
  "\<exists>s. run_events demo_cfg demo_world demo_calls = Some s \<and>
    (\<forall>i. Suc i < length (calls s) \<longrightarrow> call_at (calls s ! i) + 250 \<le> call_at (calls s ! Suc i))"
  using admission_calls_spaced [OF demo_mono, of demo_cfg demo_calls] by (simp add: demo_cfg_def)

end
