(* ===== verification/AddressService.thy ===== *)
theory AddressService
  imports AddressAdmission AddressProof
begin

text \<open>
  The address suggestion service around the admission queue, the rest of
  \<^verbatim>\<open>services/reportAddressSuggestion.service.ts\<close>, and the Geoapify adapter,
  \<^verbatim>\<open>providers/geoapifyAddressProvider.ts\<close>.  A provider call is an event of the queue: the
  service checks the request, derives the coalescing key and calls \<^verbatim>\<open>run\<close>; when the provider
  answers, its result is normalized before the entry is settled.
\<close>

section \<open>Settings\<close>

record admission_input =
  in_maxPending :: js_number
  in_maxActive :: js_number
  in_queueExpiryMs :: js_number
  in_timeoutMs :: js_number
  in_minStartIntervalMs :: js_number
  in_dailyBudget :: "int option"

record cache_input =
  in_maxEntries :: js_number
  in_ttlMs :: js_number

definition isSafeIntegerAtLeast :: "js_number \<Rightarrow> int \<Rightarrow> bool" where
  "isSafeIntegerAtLeast v lo = (case safe_integer v of None \<Rightarrow> False | Some i \<Rightarrow> lo \<le> i)"

datatype settings_error = InvalidAdmission | CachingDisabled | SettingsRequired | KeyLength

definition the_int :: "js_number \<Rightarrow> int" where
  "the_int v = (case safe_integer v of None \<Rightarrow> 0 | Some i \<Rightarrow> i)"

definition validateSettings :: "admission_input \<Rightarrow> cache_input \<Rightarrow> jsstring \<Rightarrow> settings_error + unit" where
  "validateSettings adm cache providerId =
     (if js_trim providerId = [] \<or> \<not> isSafeIntegerAtLeast (in_maxPending adm) 0 \<or>
         \<not> isSafeIntegerAtLeast (in_maxActive adm) 1 \<or> \<not> isSafeIntegerAtLeast (in_queueExpiryMs adm) 1 \<or>
         \<not> isSafeIntegerAtLeast (in_timeoutMs adm) 1 \<or> \<not> isSafeIntegerAtLeast (in_minStartIntervalMs adm) 0
      then Inl InvalidAdmission
      else if \<not> isSafeIntegerAtLeast (in_maxEntries cache) 0 \<or> \<not> isSafeIntegerAtLeast (in_ttlMs cache) 0 \<or>
         num_value (in_maxEntries cache) \<noteq> Some 0 \<or> num_value (in_ttlMs cache) \<noteq> Some 0
      then Inl CachingDisabled
      else Inr ())"

definition settings_of :: "admission_input \<Rightarrow> admission_settings" where
  "settings_of adm =
     \<lparr>maxPending = the_int (in_maxPending adm), maxActive = the_int (in_maxActive adm),
      queueExpiryMs = the_int (in_queueExpiryMs adm), timeoutMs = the_int (in_timeoutMs adm),
      minStartIntervalMs = the_int (in_minStartIntervalMs adm), dailyBudget = in_dailyBudget adm\<rparr>"

record service_options =
  o_enabled :: bool
  o_provider :: "jsstring option"
  o_admission :: "admission_input option"
  o_cache :: "cache_input option"
  o_secret :: buffer

text \<open>A service holds the settings of its queue, or none when it is disabled.\<close>

record address_service =
  s_enabled :: bool
  s_provider :: jsstring
  s_settings :: "admission_settings option"
  s_secret :: buffer

definition createReportAddressSuggestionService :: "service_options \<Rightarrow> settings_error + address_service" where
  "createReportAddressSuggestionService opt =
     (let provider = (case o_provider opt of None \<Rightarrow> [] | Some p \<Rightarrow> p); enabled = o_enabled opt \<and> o_provider opt \<noteq> None;
          service = (\<lambda>settings. \<lparr>s_enabled = enabled, s_provider = provider, s_settings = settings, s_secret = o_secret opt\<rparr>) in
      if length (o_secret opt) \<noteq> 32 then Inl KeyLength
      else if \<not> enabled then Inr (service None)
      else
        (case (o_admission opt, o_cache opt) of
           (Some adm, Some cache) \<Rightarrow>
             (case validateSettings adm cache provider of
                Inl e \<Rightarrow> Inl e
              | Inr u \<Rightarrow> Inr (service (Some (settings_of adm))))
         | _ \<Rightarrow> Inl SettingsRequired))"

section \<open>Requests and results\<close>

record address_request =
  q_latitude :: js_number
  q_longitude :: js_number
  q_targetKind :: jsstring
  q_language :: jsstring

definition validateRequest :: "address_request \<Rightarrow> bool" where
  "validateRequest q \<longleftrightarrow> valid_coordinates (q_latitude q) (q_longitude q) \<and>
     (q_targetKind q = js ''custom'' \<or> q_targetKind q = js ''device'') \<and>
     (q_language q = js ''sk'' \<or> q_language q = js ''en'')"

record suggestion =
  sg_address :: jsstring
  sg_locality :: "jsstring option"

definition INVALID_RESPONSE :: thrown where
  "INVALID_RESPONSE = AddressProviderError (js ''provider_invalid_response'') 502"

definition normalizeProviderResult :: "(jsstring \<Rightarrow> jsstring) \<Rightarrow> js_value \<Rightarrow> thrown + suggestion option" where
  "normalizeProviderResult nfc v =
     (case v of
        JNull \<Rightarrow> Inr None
      | JObj ps \<Rightarrow>
          (case js_get ''address'' v of
             JStr a \<Rightarrow>
               (let address = normalizeProviderText nfc a in
                case js_get ''locality'' v of
                  JStr l \<Rightarrow>
                    (let locality = normalizeProviderText nfc l in
                     if address = [] \<or> length address > 500 \<or> length locality > 200 then Inl INVALID_RESPONSE
                     else Inr (Some \<lparr>sg_address = address, sg_locality = (if locality = [] then None else Some locality)\<rparr>))
                | JUndefined \<Rightarrow>
                    (if address = [] \<or> length address > 500 then Inl INVALID_RESPONSE
                     else Inr (Some \<lparr>sg_address = address, sg_locality = None\<rparr>))
                | JNull \<Rightarrow>
                    (if address = [] \<or> length address > 500 then Inl INVALID_RESPONSE
                     else Inr (Some \<lparr>sg_address = address, sg_locality = None\<rparr>))
                | _ \<Rightarrow> Inl INVALID_RESPONSE)
           | _ \<Rightarrow> Inl INVALID_RESPONSE)
      | _ \<Rightarrow> Inl INVALID_RESPONSE)"

text \<open>What the promise of \<^verbatim>\<open>execute\<close> settles with, given what \<^verbatim>\<open>provider.reverse\<close> did.\<close>

definition provider_work :: "(jsstring \<Rightarrow> jsstring) \<Rightarrow> thrown + js_value \<Rightarrow> suggestion option work_result" where
  "provider_work nfc r =
     (case r of
        Inl e \<Rightarrow> Failure e
      | Inr v \<Rightarrow> (case normalizeProviderResult nfc v of Inl e \<Rightarrow> Failure e | Inr s \<Rightarrow> Value s))"

text \<open>
  The coalescing key: an HMAC of the request without its target kind; negative zero becomes zero.
  \<open>stringify\<close> stands for \<^verbatim>\<open>JSON.stringify\<close>.
\<close>

definition coalescing_value :: "jsstring \<Rightarrow> address_request \<Rightarrow> js_value" where
  "coalescing_value provider q =
     JObj [(js ''operation'', JStr (js ''reverse'')), (js ''provider'', JStr provider), (js ''version'', jnat 1),
       (js ''latitude'', JNum (no_negative_zero (q_latitude q))), (js ''longitude'', JNum (no_negative_zero (q_longitude q))),
       (js ''language'', JStr (q_language q))]"

definition coalescingKey :: "(js_value \<Rightarrow> jsstring) \<Rightarrow> (buffer \<Rightarrow> jsstring \<Rightarrow> buffer) \<Rightarrow> address_service \<Rightarrow> address_request \<Rightarrow> jsstring" where
  "coalescingKey stringify hm sv q = hex_of_buffer (hm (s_secret sv) (stringify (coalescing_value (s_provider sv) q)))"

datatype suggest_error = InvalidRequest | Disabled | SuggestCancelled

text \<open>
  \<^verbatim>\<open>suggest\<close> up to the queue: it rejects at once, or takes part in the queue as a new caller.
\<close>

definition suggest :: "(js_value \<Rightarrow> jsstring) \<Rightarrow> (buffer \<Rightarrow> jsstring \<Rightarrow> buffer) \<Rightarrow> address_service \<Rightarrow> world \<Rightarrow>
    address_request \<Rightarrow> bool \<Rightarrow> suggestion option controller \<Rightarrow> suggest_error + suggestion option controller option" where
  "suggest stringify hm sv w q aborted s =
     (if \<not> validateRequest q then Inl InvalidRequest
      else case s_settings sv of
        None \<Rightarrow> Inl Disabled
      | Some cfg \<Rightarrow>
          if \<not> s_enabled sv then Inl Disabled
          else if aborted then Inl SuggestCancelled
          else Inr (run cfg w (coalescingKey stringify hm sv q) False s))"

section \<open>The Geoapify adapter\<close>

text \<open>What the transport did: it failed, or answered with a status and a body that may not be JSON.\<close>

datatype transport_result = TransportFailed | Response nat "js_value option"

definition safeText :: "(jsstring \<Rightarrow> jsstring) \<Rightarrow> js_value \<Rightarrow> jsstring option" where
  "safeText nfc v =
     (case v of
        JStr s \<Rightarrow> (let normalized = js_trim (nfc s) in if normalized \<noteq> [] \<and> length normalized \<le> 500 then Some normalized else None)
      | _ \<Rightarrow> None)"

definition feature_properties :: "js_value \<Rightarrow> js_value option" where
  "feature_properties v =
     (if isRecord v \<and> isRecord (js_get ''properties'' v) then Some (js_get ''properties'' v) else None)"

definition featureList :: "js_value \<Rightarrow> thrown + js_value list" where
  "featureList v = (case js_get ''features'' v of JArr xs \<Rightarrow> Inr xs | _ \<Rightarrow> Inl INVALID_RESPONSE)"

text \<open>An abort of the signal makes a failed transport rethrow its own error.\<close>

definition provider_get :: "bool \<Rightarrow> transport_result \<Rightarrow> thrown + js_value" where
  "provider_get aborted r =
     (case r of
        TransportFailed \<Rightarrow> Inl (if aborted then OtherError else AddressProviderError (js ''provider_unavailable'') 503)
      | Response st json \<Rightarrow>
          if st = 429 then Inl (AddressProviderError (js ''provider_throttled'') 503)
          else if st \<ge> 500 then Inl (AddressProviderError (js ''provider_unavailable'') 503)
          else if \<not> (200 \<le> st \<and> st \<le> 299) then Inl (AddressProviderError (js ''provider_request_rejected'') 502)
          else (case json of None \<Rightarrow> Inl INVALID_RESPONSE | Some v \<Rightarrow> Inr v))"

definition reverse_geoapify :: "(jsstring \<Rightarrow> jsstring) \<Rightarrow> bool \<Rightarrow> transport_result \<Rightarrow> thrown + js_value" where
  "reverse_geoapify nfc aborted r =
     (case provider_get aborted r of
        Inl e \<Rightarrow> Inl e
      | Inr json \<Rightarrow>
          (case featureList json of
             Inl e \<Rightarrow> Inl e
           | Inr xs \<Rightarrow>
               (case xs of
                  [] \<Rightarrow> Inr JNull
                | first # _ \<Rightarrow>
                    if falsy first then Inr JNull
                    else
                      (case feature_properties first of
                         None \<Rightarrow> Inl INVALID_RESPONSE
                       | Some ps \<Rightarrow>
                           (case safeText nfc (js_get ''formatted'' ps) of
                              None \<Rightarrow> Inl INVALID_RESPONSE
                            | Some address \<Rightarrow>
                                (let locality =
                                   (case safeText nfc (js_get ''city'' ps) of
                                      Some l \<Rightarrow> Some l
                                    | None \<Rightarrow>
                                        (case safeText nfc (js_get ''town'' ps) of
                                           Some l \<Rightarrow> Some l
                                         | None \<Rightarrow> safeText nfc (js_get ''village'' ps))) in
                                 Inr (JObj ((js ''address'', JStr address) #
                                   (case locality of None \<Rightarrow> [] | Some l \<Rightarrow> [(js ''locality'', JStr l)])))))))))"

section \<open>Lemmas\<close>

text \<open>What reaches the browser is in normal form and within its bounds.\<close>

lemma provider_text_is_address: "normalizeProviderText nfc s = normalizeReportAddress nfc s"
  by (simp add: normalizeProviderText_def normalizeReportAddress_def)

lemma normalized_result:
  assumes "normalizeProviderResult nfc v = Inr (Some sg)"
  shows "canonical_text (sg_address sg) \<and> sg_address sg \<noteq> [] \<and> length (sg_address sg) \<le> 500 \<and>
    (\<forall>l. sg_locality sg = Some l \<longrightarrow> canonical_text l \<and> l \<noteq> [] \<and> length l \<le> 200) \<and>
    (\<exists>a. sg_address sg = normalizeReportAddress nfc a)"
  using assms
  by (auto simp: normalizeProviderResult_def Let_def provider_text_is_address canonical_normalized
      split: js_value.splits if_splits)

lemma service_settings:
  assumes "createReportAddressSuggestionService opt = Inr sv" and "s_settings sv = Some cfg"
  shows "s_enabled sv \<and> 0 \<le> maxPending cfg \<and> 1 \<le> maxActive cfg \<and> 1 \<le> queueExpiryMs cfg \<and> 1 \<le> timeoutMs cfg \<and>
    0 \<le> minStartIntervalMs cfg"
proof -
  have i: "isSafeIntegerAtLeast v lo \<Longrightarrow> lo \<le> the_int v" for v lo
    by (auto simp: isSafeIntegerAtLeast_def the_int_def split: option.splits)
  show ?thesis using assms
    by (auto simp: createReportAddressSuggestionService_def Let_def validateSettings_def settings_of_def i
        split: if_splits option.splits sum.splits)
qed

lemma suggested_address_signable:
  assumes "normalizeProviderResult nfc v = Inr (Some sg)" and "nfc = p_nfc env" and "\<And>a. nfc (normalizeReportAddress nfc a) = normalizeReportAddress nfc a"
    and "secret \<noteq> []" "num_value lat \<noteq> None" "num_value lon \<noteq> None"
  shows "\<exists>p. createReportAddressProof env (sg_address sg) kind lat lon secret = Some p"
proof -
  obtain a where a: "sg_address sg = normalizeReportAddress nfc a" "sg_address sg \<noteq> []" "length (sg_address sg) \<le> 500"
    using normalized_result [OF assms(1)] by blast
  then have "normalizeReportAddress nfc (sg_address sg) = sg_address sg"
    using normalize_canonical [of "sg_address sg" nfc] canonical_normalized [of nfc a] assms(3) [of a] by simp
  then show ?thesis using a assms by (simp add: createReportAddressProof_def Let_def)
qed

end
