(* ===== verification/ClientAddress.thy ===== *)
theory ClientAddress
  imports EmailCrypto
begin

unbundle bit_operations_syntax

text \<open>
  IP addresses and trusted proxies, \<^verbatim>\<open>security/clientAddress.ts\<close>.  A BigInt is a natural number and
  its shifts and masks are the bit operations on it.  Node's \<^verbatim>\<open>isIP\<close> is modelled for IPv4; its
  IPv6 recogniser is the argument \<open>ip6\<close>, which only has to say yes to what the parser then reads
  group by group itself.
\<close>

section \<open>Numbers as text\<close>

function radix :: "nat \<Rightarrow> nat \<Rightarrow> jsstring" where
  "radix b n = (if n < b \<or> b < 2 then [hex_char n] else radix b (n div b) @ [hex_char (n mod b)])"
  by pat_completeness auto
termination by (relation "measure snd") (auto intro: div_less_dividend)

declare radix.simps [simp del]

definition digit_value :: "code_unit \<Rightarrow> nat" where
  "digit_value c = (if c \<ge> 97 then c - 87 else c - 48)"

definition read_radix :: "nat \<Rightarrow> jsstring \<Rightarrow> nat" where
  "read_radix b s = foldl (\<lambda>a c. a * b + digit_value c) 0 s"

lemma digit_value_char [simp]: "n < 16 \<Longrightarrow> digit_value (hex_char n) = n"
  by (auto simp: digit_value_def hex_char_def)

lemma read_radix_radix: "2 \<le> b \<Longrightarrow> b \<le> 16 \<Longrightarrow> read_radix b (radix b n) = n"
proof (induction b n rule: radix.induct)
  case (1 b n)
  show ?case
  proof (cases "n < b")
    case True
    then show ?thesis using 1(2,3) by (subst radix.simps) (simp add: read_radix_def)
  next
    case False
    have "n mod b < 16" using 1(2,3) by (meson mod_less_divisor less_le_trans zero_less_numeral)
    then show ?thesis using 1 False by (subst radix.simps) (simp add: read_radix_def)
  qed
qed

lemma radix_inj: "2 \<le> b \<Longrightarrow> b \<le> 16 \<Longrightarrow> radix b m = radix b n \<Longrightarrow> m = n"
  by (metis read_radix_radix)

lemma radix_chars: "2 \<le> b \<Longrightarrow> b \<le> 16 \<Longrightarrow> list_all is_hex_ci (radix b n)"
proof (induction b n rule: radix.induct)
  case (1 b n)
  have "n mod b < 16" using 1(2,3) by (meson mod_less_divisor less_le_trans zero_less_numeral)
  then show ?case using 1 by (subst radix.simps) (auto simp: is_hex_char)
qed

lemma radix_no_dot: "2 \<le> b \<Longrightarrow> b \<le> 16 \<Longrightarrow> 46 \<notin> set (radix b n)"
  using radix_chars [of b n] by (auto simp: list_all_iff is_hex_ci_def is_hex_lower_def is_digit_def)

text \<open>\<^verbatim>\<open>String.prototype.split\<close> by one unit, and by \<^verbatim>\<open>'::'\<close>.\<close>

fun split_on :: "code_unit \<Rightarrow> jsstring \<Rightarrow> jsstring list" where
  "split_on z [] = [[]]"
| "split_on z (c # s) =
     (if c = z then [] # split_on z s
      else case split_on z s of [] \<Rightarrow> [[c]] | w # ws \<Rightarrow> (c # w) # ws)"

fun split_double :: "jsstring \<Rightarrow> jsstring list" where
  "split_double [] = [[]]"
| "split_double [c] = [[c]]"
| "split_double (c # d # s) =
     (if c = 58 \<and> d = 58 then [] # split_double s
      else case split_double (d # s) of [] \<Rightarrow> [[c]] | w # ws \<Rightarrow> (c # w) # ws)"

fun join_with :: "code_unit \<Rightarrow> jsstring list \<Rightarrow> jsstring" where
  "join_with z [] = []"
| "join_with z [w] = w"
| "join_with z (w # ws) = w @ z # join_with z ws"

section \<open>Parsing\<close>

datatype family = V4 | V6

record parsed_address =
  pa_family :: family
  pa_bits :: nat
  pa_normalized :: jsstring

text \<open>An octet of \<^verbatim>\<open>isIP\<close>: one to three digits, no leading zero, at most 255.\<close>

definition octet_text :: "jsstring \<Rightarrow> bool" where
  "octet_text w \<longleftrightarrow> w \<noteq> [] \<and> length w \<le> 3 \<and> list_all is_digit w \<and> (length w > 1 \<longrightarrow> hd w \<noteq> 48) \<and> read_radix 10 w \<le> 255"

definition isIPv4 :: "jsstring \<Rightarrow> bool" where
  "isIPv4 s \<longleftrightarrow> length (split_on 46 s) = 4 \<and> list_all octet_text (split_on 46 s)"

definition parseIpv4 :: "jsstring \<Rightarrow> parsed_address option" where
  "parseIpv4 s =
     (if \<not> isIPv4 s then None
      else
        (let octets = map (read_radix 10) (split_on 46 s) in
         Some \<lparr>pa_family = V4, pa_bits = foldl (\<lambda>r octet. push_bit 8 r OR octet) 0 octets,
               pa_normalized = join_with 46 (map (radix 10) octets)\<rparr>))"

definition split_last_colon :: "jsstring \<Rightarrow> jsstring \<times> jsstring" where
  "split_last_colon s =
     (let tail_rev = takeWhile (\<lambda>c. c \<noteq> 58) (rev s) in
      (rev (drop (Suc (length tail_rev)) (rev s)), rev tail_rev))"

definition hex_word :: "jsstring \<Rightarrow> bool" where
  "hex_word w \<longleftrightarrow> w \<noteq> [] \<and> length w \<le> 4 \<and> list_all is_hex_lower w"

definition embedded_ipv4 :: "jsstring \<Rightarrow> jsstring option" where
  "embedded_ipv4 source =
     (case split_last_colon source of (front, rest) \<Rightarrow>
        if 46 \<in> set rest then
          (case parseIpv4 rest of
             None \<Rightarrow> None
           | Some v4 \<Rightarrow> Some (front @ [58] @ radix 16 (drop_bit 16 (pa_bits v4) AND 0xffff) @ [58] @ radix 16 (pa_bits v4 AND 0xffff)))
        else Some source)"

definition ipv6_words :: "jsstring \<Rightarrow> jsstring list option" where
  "ipv6_words source =
     (let halves = split_double source;
          left = (if hd halves = [] then [] else split_on 58 (hd halves));
          right = (if length halves = 2 \<and> halves ! 1 \<noteq> [] then split_on 58 (halves ! 1) else []);
          missing = 8 - int (length left) - int (length right) in
      if length halves > 2 then None
      else if (length halves = 1 \<and> missing \<noteq> 0) \<or> (length halves = 2 \<and> missing < 1) then None
      else
        (let words = left @ replicate (nat missing) [48] @ right in
         if length words \<noteq> 8 \<or> \<not> list_all hex_word words then None else Some words))"

text \<open>A mapped address, \<^verbatim>\<open>::ffff:a.b.c.d\<close>, is the IPv4 address.\<close>

definition dotted :: "nat \<Rightarrow> jsstring" where
  "dotted bits = join_with 46 (map (\<lambda>k. radix 10 (drop_bit k bits AND 255)) [24, 16, 8, 0])"

definition parseIpv6 :: "(jsstring \<Rightarrow> bool) \<Rightarrow> jsstring \<Rightarrow> parsed_address option" where
  "parseIpv6 ip6 s =
     (if isIPv4 s \<or> \<not> ip6 s \<or> 37 \<in> set s then None
      else
        (case embedded_ipv4 (lower_ascii s) of
           None \<Rightarrow> None
         | Some source \<Rightarrow>
             (case ipv6_words source of
                None \<Rightarrow> None
              | Some words \<Rightarrow>
                  (let bits = foldl (\<lambda>r w. push_bit 16 r OR read_radix 16 w) 0 words in
                   if drop_bit 32 bits = 0xffff then
                     (let mapped = bits AND 0xffffffff in
                      Some \<lparr>pa_family = V4, pa_bits = mapped, pa_normalized = dotted mapped\<rparr>)
                   else
                     Some \<lparr>pa_family = V6, pa_bits = bits,
                           pa_normalized = join_with 58 (map (\<lambda>w. radix 16 (read_radix 16 w)) words)\<rparr>))))"

definition parseAddress :: "(jsstring \<Rightarrow> bool) \<Rightarrow> jsstring \<Rightarrow> parsed_address option" where
  "parseAddress ip6 s = (case parseIpv4 s of Some a \<Rightarrow> Some a | None \<Rightarrow> parseIpv6 ip6 s)"

section \<open>Trusted proxy ranges\<close>

record cidr =
  ci_family :: family
  ci_bits :: nat
  ci_prefix :: nat

definition max_bits :: "family \<Rightarrow> nat" where
  "max_bits f = (case f of V4 \<Rightarrow> 32 | V6 \<Rightarrow> 128)"

definition network_mask :: "family \<Rightarrow> nat \<Rightarrow> nat" where
  "network_mask f prefix =
     (let hostBits = max_bits f - prefix in
      if hostBits = 0 then push_bit (max_bits f) 1 - 1 else (push_bit (max_bits f) 1 - 1) XOR (push_bit hostBits 1 - 1))"

datatype cidr_error = InvalidCidr | InvalidProxyAddress | InvalidProxyPrefix | EmptyEntry

definition parseCidr :: "(jsstring \<Rightarrow> bool) \<Rightarrow> jsstring \<Rightarrow> cidr_error + cidr" where
  "parseCidr ip6 value =
     (let parts = split_on 47 (js_trim value) in
      if hd parts = [] \<or> length parts > 2 then Inl InvalidCidr
      else
        (case parseAddress ip6 (hd parts) of
           None \<Rightarrow> Inl InvalidProxyAddress
         | Some address \<Rightarrow>
             (let maxBits = max_bits (pa_family address);
                  prefix = (if length parts = 1 then Some maxBits
                    else if parts ! 1 \<noteq> [] \<and> list_all is_digit (parts ! 1) then Some (read_radix 10 (parts ! 1)) else None) in
              (case prefix of
                 None \<Rightarrow> Inl InvalidProxyPrefix
               | Some p \<Rightarrow>
                   if p > maxBits then Inl InvalidProxyPrefix
                   else Inr \<lparr>ci_family = pa_family address,
                             ci_bits = pa_bits address AND network_mask (pa_family address) p, ci_prefix = p\<rparr>))))"

fun parse_entries :: "(jsstring \<Rightarrow> bool) \<Rightarrow> jsstring list \<Rightarrow> cidr_error + cidr list" where
  "parse_entries ip6 [] = Inr []"
| "parse_entries ip6 (part # parts) =
     (if js_trim part = [] then Inl EmptyEntry
      else case parseCidr ip6 part of
        Inl e \<Rightarrow> Inl e
      | Inr c \<Rightarrow> (case parse_entries ip6 parts of Inl e \<Rightarrow> Inl e | Inr cs \<Rightarrow> Inr (c # cs)))"

definition parseTrustedProxyCidrs :: "(jsstring \<Rightarrow> bool) \<Rightarrow> jsstring option \<Rightarrow> cidr_error + cidr list" where
  "parseTrustedProxyCidrs ip6 value =
     (case value of
        None \<Rightarrow> Inr []
      | Some s \<Rightarrow> if js_trim s = [] then Inr [] else parse_entries ip6 (split_on 44 s))"

definition addressMatchesCidr :: "(jsstring \<Rightarrow> bool) \<Rightarrow> jsstring \<Rightarrow> cidr \<Rightarrow> bool" where
  "addressMatchesCidr ip6 text c =
     (case parseAddress ip6 text of
        None \<Rightarrow> False
      | Some a \<Rightarrow> pa_family a = ci_family c \<and> (pa_bits a AND network_mask (pa_family a) (ci_prefix c)) = ci_bits c)"

definition normalizeLimiterAddress :: "(jsstring \<Rightarrow> bool) \<Rightarrow> jsstring \<Rightarrow> jsstring option" where
  "normalizeLimiterAddress ip6 value =
     (case parseAddress ip6 value of
        None \<Rightarrow> None
      | Some a \<Rightarrow>
          (case pa_family a of
             V4 \<Rightarrow> Some (js ''v4:'' @ pa_normalized a)
           | V6 \<Rightarrow> Some (js ''v6-64:'' @ radix 16 (drop_bit 64 (pa_bits a)))))"

definition createProxyTrustPredicate :: "(jsstring \<Rightarrow> bool) \<Rightarrow> cidr list \<Rightarrow> jsstring \<Rightarrow> bool" where
  "createProxyTrustPredicate ip6 cidrs address = list_ex (\<lambda>c. addressMatchesCidr ip6 address c) cidrs"

section \<open>Bits and prefixes\<close>

lemma bit_bound: "y < 2 ^ k \<Longrightarrow> bit (y :: nat) n \<Longrightarrow> n < k"
  using bit_take_bit_iff [of k y n] by (simp add: take_bit_nat_eq_self)

lemma shift_or:
  assumes "y < 2 ^ k"
  shows "push_bit k x OR y = x * 2 ^ k + (y :: nat)"
proof -
  have "push_bit k x AND y = 0"
    by (rule bit_eqI) (auto simp: bit_simps dest: bit_bound [OF assms])
  then show ?thesis using disjunctive_add_eq_or [of "push_bit k x" y] by (simp add: push_bit_eq_mult)
qed

lemma octet_bound: "octet_text w \<Longrightarrow> read_radix 10 w < 256"
  by (simp add: octet_text_def)

lemma length_4E:
  assumes "length xs = 4"
  obtains a b c d where "xs = [a, b, c, d]"
  using assms by (auto simp: numeral_eq_Suc length_Suc_conv)

lemma low_byte: "n AND 255 = (n mod 256 :: nat)"
  using take_bit_eq_mask [of 8 n] by (simp add: mask_eq_exp_minus_1 take_bit_eq_mod)

lemma parseIpv4_bits:
  assumes "parseIpv4 s = Some a"
  shows "pa_family a = V4 \<and> pa_bits a < 2 ^ 32 \<and> pa_normalized a = dotted (pa_bits a)"
proof -
  from assms have ip: "isIPv4 s" by (auto simp: parseIpv4_def split: if_splits)
  then obtain w1 w2 w3 w4 where w: "split_on 46 s = [w1, w2, w3, w4]" by (auto simp: isIPv4_def elim: length_4E)
  define o1 where "o1 = read_radix 10 w1" define o2 where "o2 = read_radix 10 w2"
  define o3 where "o3 = read_radix 10 w3" define o4 where "o4 = read_radix 10 w4"
  have lt: "o1 < 256" "o2 < 256" "o3 < 256" "o4 < 256"
    using ip w by (simp_all add: isIPv4_def octet_bound o1_def o2_def o3_def o4_def)
  let ?n = "((o1 * 256 + o2) * 256 + o3) * 256 + o4"
  have sh: "push_bit 8 x OR y = x * 256 + y" if "y < 256" for x y :: nat using shift_or [of y 8 x] that by simp
  have f: "foldl (\<lambda>r octet. push_bit 8 r OR octet) 0 [o1, o2, o3, o4] = ?n"
    by (simp only: foldl_Cons foldl_Nil sh [OF lt(1)] sh [OF lt(2)] sh [OF lt(3)] sh [OF lt(4)] mult_zero_left add_0)
  have a: "a = \<lparr>pa_family = V4, pa_bits = ?n, pa_normalized = join_with 46 [radix 10 o1, radix 10 o2, radix 10 o3, radix 10 o4]\<rparr>"
    using assms ip w f by (auto simp: parseIpv4_def Let_def o1_def o2_def o3_def o4_def simp del: foldl_Cons)
  have dv: "(x * 256 + y) div 256 = x" "(x * 256 + y) mod 256 = y" if "y < 256" for x y :: nat using that by simp_all
  define q1 where "q1 = (o1 * 256 + o2) * 256 + o3"
  define q2 where "q2 = o1 * 256 + o2"
  have n: "?n = q1 * 256 + o4" "q1 = q2 * 256 + o3" by (simp_all add: q1_def q2_def)
  have v: "?n div 256 = q1" "q1 div 256 = q2" "q2 div 256 = o1" "?n mod 256 = o4" "q1 mod 256 = o3" "q2 mod 256 = o2"
    unfolding n by (rule dv(1) [OF lt(4)], rule dv(1) [OF lt(3)], unfold q2_def, rule dv(1) [OF lt(2)],
      rule dv(2) [OF lt(4)], rule dv(2) [OF lt(3)], rule dv(2) [OF lt(2)])
  have d: "drop_bit 24 n = n div 256 div 256 div 256" "drop_bit 16 n = n div 256 div 256" "drop_bit 8 n = n div 256" for n :: nat
    by (simp_all add: drop_bit_eq_div div_mult2_eq [symmetric])
  have "drop_bit 24 ?n AND 255 = o1" "drop_bit 16 ?n AND 255 = o2" "drop_bit 8 ?n AND 255 = o3" "drop_bit 0 ?n AND 255 = o4"
    by (simp_all only: low_byte d v drop_bit_0 id_apply mod_less [OF lt(1)])
  then have "dotted ?n = pa_normalized a" by (simp add: dotted_def a)
  moreover have "?n < 2 ^ 32" using lt by simp
  ultimately show ?thesis by (simp add: a)
qed

lemma join4_inj:
  assumes "46 \<notin> set a \<union> set b \<union> set c" "46 \<notin> set a' \<union> set b' \<union> set c'" "join_with 46 [a, b, c, d] = join_with 46 [a', b', c', d']"
  shows "a = a' \<and> b = b' \<and> c = c' \<and> d = d'"
proof -
  have "a = a' \<and> b @ 46 # c @ 46 # d = b' @ 46 # c' @ 46 # d'"
    by (rule append_sep_inj [where z = 46]) (use assms in auto)
  moreover from this have "b = b' \<and> c @ 46 # d = c' @ 46 # d'" by (intro append_sep_inj [where z = 46]) (use assms in auto)
  moreover from this have "c = c' \<and> d = d'" by (intro append_sep_inj [where z = 46]) (use assms in auto)
  ultimately show ?thesis by simp
qed

lemma dotted_inj:
  assumes "m < 2 ^ 32" "n < 2 ^ 32" "dotted m = dotted n"
  shows "m = n"
proof -
  have j: "radix 10 x = radix 10 y \<Longrightarrow> x = y" for x y by (rule radix_inj) simp_all
  have nd: "46 \<notin> set (radix 10 x)" for x by (rule radix_no_dot) simp_all
  have "radix 10 (drop_bit 24 m AND 255) = radix 10 (drop_bit 24 n AND 255) \<and>
      radix 10 (drop_bit 16 m AND 255) = radix 10 (drop_bit 16 n AND 255) \<and>
      radix 10 (drop_bit 8 m AND 255) = radix 10 (drop_bit 8 n AND 255) \<and> radix 10 (drop_bit 0 m AND 255) = radix 10 (drop_bit 0 n AND 255)"
    by (rule join4_inj) (use nd assms(3) in \<open>simp_all add: dotted_def\<close>)
  then have e: "m div 16777216 mod 256 = n div 16777216 mod 256" "m div 65536 mod 256 = n div 65536 mod 256"
    "m div 256 mod 256 = n div 256 mod 256" "m mod 256 = n mod 256"
    by (auto dest!: j simp: low_byte drop_bit_eq_div)
  have "k = ((k div 16777216 mod 256 * 256 + k div 65536 mod 256) * 256 + k div 256 mod 256) * 256 + k mod 256" if "k < 2 ^ 32" for k :: nat
  proof -
    have "k div 16777216 < 256" using that by (simp add: less_mult_imp_div_less)
    moreover have "k = k div 256 * 256 + k mod 256" "k div 256 = k div 65536 * 256 + k div 256 mod 256"
      "k div 65536 = k div 16777216 * 256 + k div 65536 mod 256"
      using div_mult_mod_eq [of k 256] div_mult_mod_eq [of "k div 256" 256] div_mult_mod_eq [of "k div 65536" 256]
      by (simp_all add: div_mult2_eq [symmetric])
    ultimately show ?thesis by simp
  qed
  from this [OF assms(1)] this [OF assms(2)] show ?thesis using e by metis
qed


lemma fold_words:
  assumes "list_all (\<lambda>w. read_radix 16 w < 65536) ws" and "r < 2 ^ k"
  shows "foldl (\<lambda>r w. push_bit 16 r OR read_radix 16 w) r ws < 2 ^ (k + 16 * length ws)"
  using assms
proof (induction ws arbitrary: r k)
  case (Cons w ws)
  have "r * 65536 + read_radix 16 w < 2 ^ (k + 16)"
  proof -
    have "r * 65536 + read_radix 16 w < r * 65536 + 65536" using Cons.prems(1) by simp
    also have "\<dots> = (r + 1) * 65536" by simp
    also have "\<dots> \<le> 2 ^ k * 65536" using Cons.prems(2) by (intro mult_right_mono) simp_all
    finally show ?thesis by (simp add: power_add)
  qed
  then have "push_bit 16 r OR read_radix 16 w < 2 ^ (k + 16)"
    using shift_or [of "read_radix 16 w" 16 r] Cons.prems(1) by simp
  from Cons.IH [OF _ this] show ?case using Cons.prems(1) by (simp add: algebra_simps)
qed simp

lemma hex_digit_value: "is_hex_lower c \<Longrightarrow> digit_value c < 16"
  by (auto simp: is_hex_lower_def is_digit_def digit_value_def)

lemma hex_word_bound: "hex_word w \<Longrightarrow> read_radix 16 w < 65536"
proof -
  have g: "list_all is_hex_lower w \<Longrightarrow> a < 16 ^ k \<Longrightarrow> foldl (\<lambda>a c. a * 16 + digit_value c) a w < 16 ^ (k + length w)" for a k
  proof (induction w arbitrary: a k)
    case (Cons c w)
    have "digit_value c < 16" using Cons.prems(1) hex_digit_value by simp
    then have "a * 16 + digit_value c < (a + 1) * 16" by simp
    also have "\<dots> \<le> 16 ^ k * 16" using Cons.prems(2) by (intro mult_right_mono) simp_all
    finally have "a * 16 + digit_value c < 16 ^ (k + 1)" by simp
    from Cons.IH [OF _ this] show ?case using Cons.prems(1) by simp
  qed simp
  assume w: "hex_word w"
  then have "read_radix 16 w < 16 ^ length w" using g [of 0 0] by (simp add: hex_word_def read_radix_def)
  also have "\<dots> \<le> 16 ^ 4" using w by (intro power_increasing) (simp_all add: hex_word_def)
  finally show ?thesis by simp
qed

text \<open>Every parsed address fits its family, and an IPv4 one has the dotted text of its bits.\<close>

lemma parseIpv6_bits:
  assumes "parseIpv6 ip6 s = Some a"
  shows "pa_bits a < 2 ^ max_bits (pa_family a) \<and> (pa_family a = V4 \<longrightarrow> pa_normalized a = dotted (pa_bits a))"
proof -
  from assms obtain source words where w: "ipv6_words source = Some words"
    and a: "a = (let bits = foldl (\<lambda>r w. push_bit 16 r OR read_radix 16 w) 0 words in
       if drop_bit 32 bits = 0xffff then \<lparr>pa_family = V4, pa_bits = bits AND 0xffffffff, pa_normalized = dotted (bits AND 0xffffffff)\<rparr>
       else \<lparr>pa_family = V6, pa_bits = bits, pa_normalized = join_with 58 (map (\<lambda>w. radix 16 (read_radix 16 w)) words)\<rparr>)"
    by (auto simp: parseIpv6_def Let_def split: if_splits option.splits)
  have wl: "length words = 8" "list_all hex_word words" using w by (auto simp: ipv6_words_def Let_def split: if_splits)
  then have "list_all (\<lambda>w. read_radix 16 w < 65536) words" by (auto simp: list_all_iff intro: hex_word_bound)
  from fold_words [OF this, of 0 0] wl(1)
  have b: "foldl (\<lambda>r w. push_bit 16 r OR read_radix 16 w) 0 words < 2 ^ 128" by simp
  have m: "n AND 0xffffffff < 2 ^ 32" for n :: nat
    using take_bit_eq_mask [of 32 n] take_bit_nat_less_exp [of 32 n] by (simp add: mask_eq_exp_minus_1)
  show ?thesis using a b m by (auto simp: Let_def max_bits_def)
qed

lemma parseAddress_bits:
  assumes "parseAddress ip6 s = Some a"
  shows "pa_bits a < 2 ^ max_bits (pa_family a)" and "pa_family a = V4 \<Longrightarrow> pa_normalized a = dotted (pa_bits a)"
  using assms parseIpv4_bits [of s a] parseIpv6_bits [of ip6 s a]
  by (auto simp: parseAddress_def max_bits_def split: option.splits)

lemma network_mask_and:
  assumes "a < 2 ^ max_bits f" and "p \<le> max_bits f"
  shows "a AND network_mask f p = push_bit (max_bits f - p) (drop_bit (max_bits f - p) a)"
proof -
  let ?h = "max_bits f - p" and ?m = "max_bits f"
  have e: "push_bit n (1 :: nat) - 1 = mask n" for n by (simp add: mask_eq_exp_minus_1 push_bit_eq_mult)
  have "network_mask f p = mask ?m XOR mask ?h" by (simp only: network_mask_def Let_def e) simp
  moreover have "a AND (mask ?m XOR mask ?h) = push_bit ?h (drop_bit ?h a)"
    by (rule bit_eqI) (use bit_bound [OF assms(1)] in \<open>auto simp: bit_simps not_less dest: \<close>)
  ultimately show ?thesis by simp
qed

lemma push_bit_inj: "push_bit n (a :: nat) = push_bit n b \<longleftrightarrow> a = b"
  by (simp add: push_bit_eq_mult)

lemma same_network:
  assumes "a < 2 ^ max_bits f" "b < 2 ^ max_bits f" "p \<le> max_bits f"
  shows "a AND network_mask f p = b AND network_mask f p \<longleftrightarrow> drop_bit (max_bits f - p) a = drop_bit (max_bits f - p) b"
  using network_mask_and [OF assms(1,3)] network_mask_and [OF assms(2,3)] by (simp add: push_bit_inj)

text \<open>What a parsed range is made from.\<close>

lemma parseCidr_range:
  assumes "parseCidr ip6 text = Inr c"
  obtains base where "parseAddress ip6 (hd (split_on 47 (js_trim text))) = Some base" "ci_family c = pa_family base"
    "ci_prefix c \<le> max_bits (pa_family base)" "ci_bits c = pa_bits base AND network_mask (pa_family base) (ci_prefix c)"
  using assms by (auto simp: parseCidr_def Let_def split: if_splits option.splits)

end
