(* ===== verification/AddressLimiter.thy ===== *)
theory AddressLimiter
  imports ClientAddress JsValue
begin

text \<open>
  The per-client token bucket, \<^verbatim>\<open>security/addressIpLimiter.ts\<close>, and the integer settings of
  \<^verbatim>\<open>config/addressProvider.ts\<close>.  The map of buckets is a list of entries in insertion order, as a
  JavaScript \<^verbatim>\<open>Map\<close> keeps them.  Token counts are the rational values of doubles: \<open>fl\<close> is the
  rounding of an arithmetic operation, of which only what a theorem names is used.
\<close>

record bucket =
  tokens :: rat
  updatedAt :: int
  lastSeenAt :: int

record limiter_settings =
  burst :: int
  refillPerMinute :: int
  maxKeys :: int
  idleTtlMs :: int

type_synonym buckets = "(jsstring \<times> bucket) list"

datatype limit_result = Allowed | RateLimited int | LimiterCapacity int

text \<open>The constructor accepts safe integers of at least one and a secret of 32 bytes.\<close>

definition new_limiter :: "js_number \<Rightarrow> js_number \<Rightarrow> js_number \<Rightarrow> js_number \<Rightarrow> buffer \<Rightarrow> (limiter_settings \<times> buckets) option" where
  "new_limiter b r m i secret =
     (case (safe_integer b, safe_integer r, safe_integer m, safe_integer i) of
        (Some b, Some r, Some m, Some i) \<Rightarrow>
          if b < 1 \<or> r < 1 \<or> m < 1 \<or> i < 1 \<or> length secret \<noteq> 32 then None
          else Some (\<lparr>burst = b, refillPerMinute = r, maxKeys = m, idleTtlMs = i\<rparr>, [])
      | _ \<Rightarrow> None)"

definition refillPerMs :: "(rat \<Rightarrow> rat) \<Rightarrow> limiter_settings \<Rightarrow> rat" where
  "refillPerMs fl cfg = fl (of_int (refillPerMinute cfg) / 60000)"

definition evict_idle :: "limiter_settings \<Rightarrow> int \<Rightarrow> buckets \<Rightarrow> buckets" where
  "evict_idle cfg t bs = filter (\<lambda>(k, b). \<not> (t - lastSeenAt b \<ge> idleTtlMs cfg)) bs"

definition ceil_at_least_1 :: "rat \<Rightarrow> int" where
  "ceil_at_least_1 x = max 1 \<lceil>x\<rceil>"

definition refill :: "(rat \<Rightarrow> rat) \<Rightarrow> limiter_settings \<Rightarrow> int \<Rightarrow> bucket \<Rightarrow> bucket" where
  "refill fl cfg t b =
     (let elapsed = max 0 (t - updatedAt b) in
      \<lparr>tokens = min (of_int (burst cfg)) (fl (tokens b + fl (of_int elapsed * refillPerMs fl cfg))),
       updatedAt = t, lastSeenAt = t\<rparr>)"

definition set_bucket :: "jsstring \<Rightarrow> bucket \<Rightarrow> buckets \<Rightarrow> buckets" where
  "set_bucket k b bs = map (\<lambda>(k', b'). if k' = k then (k', b) else (k', b')) bs"

text \<open>The bucket of a key that is present is refilled and charged.\<close>

definition charge_bucket :: "(rat \<Rightarrow> rat) \<Rightarrow> limiter_settings \<Rightarrow> int \<Rightarrow> jsstring \<Rightarrow> bucket \<Rightarrow> buckets \<Rightarrow> buckets \<times> limit_result" where
  "charge_bucket fl cfg t key b bs =
     (let b1 = refill fl cfg t b in
      if tokens b1 < 1
      then (set_bucket key b1 bs,
            RateLimited (ceil_at_least_1 (fl (fl (fl (1 - tokens b1) / refillPerMs fl cfg) / 1000))))
      else (set_bucket key (b1\<lparr>tokens := fl (tokens b1 - 1)\<rparr>) bs, Allowed))"

definition consume :: "(rat \<Rightarrow> rat) \<Rightarrow> (jsstring \<Rightarrow> bool) \<Rightarrow> (jsstring \<Rightarrow> jsstring) \<Rightarrow> limiter_settings \<Rightarrow> int \<Rightarrow> jsstring \<Rightarrow>
    buckets \<Rightarrow> buckets \<times> limit_result" where
  "consume fl ip6 hm cfg t address bs =
     (case normalizeLimiterAddress ip6 address of
        None \<Rightarrow> (bs, LimiterCapacity 60)
      | Some normalized \<Rightarrow>
          (let key = hm normalized in
           case map_of bs key of
             Some b \<Rightarrow> charge_bucket fl cfg t key b bs
           | None \<Rightarrow>
               (let kept = evict_idle cfg t bs in
                if int (length kept) \<ge> maxKeys cfg
                then (kept, LimiterCapacity (ceil_at_least_1 (fl (of_int (idleTtlMs cfg) / 1000))))
                else
                  (let b = \<lparr>tokens = of_int (burst cfg), updatedAt = t, lastSeenAt = t\<rparr> in
                   charge_bucket fl cfg t key b (kept @ [(key, b)])))))"

section \<open>Settings from the environment\<close>

datatype setting_error = NotConfigured | NotAnInteger | OutOfRange

definition integerSetting :: "jsstring option \<Rightarrow> int \<Rightarrow> int \<Rightarrow> int \<Rightarrow> bool \<Rightarrow> setting_error + int" where
  "integerSetting raw fallback minimum maximum requireExplicit =
     (case raw of
        None \<Rightarrow> if requireExplicit then Inl NotConfigured else Inr fallback
      | Some s \<Rightarrow>
          if s = [] \<or> \<not> list_all is_digit s then Inl NotAnInteger
          else
            (let value = int (read_radix 10 s) in
             if value > 9007199254740991 \<or> value < minimum \<or> value > maximum then Inl OutOfRange else Inr value))"

definition createAddressIpLimiterConfig :: "(string \<Rightarrow> jsstring option) \<Rightarrow> bool \<Rightarrow> setting_error + limiter_settings" where
  "createAddressIpLimiterConfig env production =
     (case integerSetting (env ''ADDRESS_IP_BUCKET_BURST'') 10 1 100 production of Inl e \<Rightarrow> Inl e | Inr b \<Rightarrow>
      case integerSetting (env ''ADDRESS_IP_REFILL_PER_MINUTE'') 30 1 600 production of Inl e \<Rightarrow> Inl e | Inr r \<Rightarrow>
      case integerSetting (env ''ADDRESS_IP_MAX_KEYS'') 8192 1 100000 production of Inl e \<Rightarrow> Inl e | Inr m \<Rightarrow>
      case integerSetting (env ''ADDRESS_IP_IDLE_TTL_MS'') 120000 1000 3600000 production of Inl e \<Rightarrow> Inl e | Inr i \<Rightarrow>
      Inr \<lparr>burst = b, refillPerMinute = r, maxKeys = m, idleTtlMs = i\<rparr>)"

section \<open>Bounds of the buckets\<close>

text \<open>Rounding keeps the order and zero, as every IEEE rounding does.\<close>

definition rounding :: "(rat \<Rightarrow> rat) \<Rightarrow> bool" where
  "rounding fl \<longleftrightarrow> mono fl \<and> fl 0 = 0"

definition limiter_wf :: "limiter_settings \<Rightarrow> buckets \<Rightarrow> bool" where
  "limiter_wf cfg bs \<longleftrightarrow> distinct (map fst bs) \<and> int (length bs) \<le> maxKeys cfg \<and>
     (\<forall>(k, b) \<in> set bs. 0 \<le> tokens b \<and> tokens b \<le> of_int (burst cfg))"

lemma fl_nonneg:
  assumes "rounding fl" and "0 \<le> x"
  shows "0 \<le> fl x"
proof -
  have "fl 0 \<le> fl x" using assms(1) by (intro monoD [OF _ assms(2)]) (simp add: rounding_def)
  then show ?thesis using assms(1) by (simp only: rounding_def)
qed

lemma refill_bounds:
  assumes "rounding fl" "0 \<le> tokens b" "0 \<le> refillPerMinute cfg" "0 \<le> burst cfg"
  shows "0 \<le> tokens (refill fl cfg t b) \<and> tokens (refill fl cfg t b) \<le> of_int (burst cfg)"
proof -
  have "0 \<le> refillPerMs fl cfg" unfolding refillPerMs_def by (rule fl_nonneg [OF assms(1)]) (use assms(3) in simp)
  then have "0 \<le> fl (of_int (max 0 (t - updatedAt b)) * refillPerMs fl cfg)" by (intro fl_nonneg [OF assms(1)]) auto
  then have "0 \<le> fl (tokens b + fl (of_int (max 0 (t - updatedAt b)) * refillPerMs fl cfg))"
    using assms(2) by (intro fl_nonneg [OF assms(1)]) auto
  then show ?thesis using assms(4) by (simp add: refill_def Let_def)
qed

lemma fl_minus_one: "rounding fl \<Longrightarrow> 1 \<le> x \<Longrightarrow> 0 \<le> fl (x - 1)"
  by (rule fl_nonneg) simp_all

lemma set_bucket_keys [simp]: "map fst (set_bucket k b bs) = map fst bs" "length (set_bucket k b bs) = length bs"
  by (auto simp: set_bucket_def)

lemma set_bucket_in: "(k', b') \<in> set (set_bucket k b bs) \<Longrightarrow> (k', b') \<in> set bs \<or> b' = b"
  by (auto simp: set_bucket_def split: if_splits)

text \<open>A token count is an integer-bounded double; subtracting one never exceeds the old bound.\<close>

lemma charge_wf:
  assumes fl: "rounding fl" "\<And>x. x \<le> of_int (burst cfg) \<Longrightarrow> fl x \<le> of_int (burst cfg)" and cfg: "0 \<le> refillPerMinute cfg" "0 \<le> burst cfg"
    and wf: "limiter_wf cfg bs" and b: "(key, b) \<in> set bs"
  shows "limiter_wf cfg (fst (charge_bucket fl cfg t key b bs))"
proof -
  have "0 \<le> tokens b" using wf b by (auto simp: limiter_wf_def)
  note r = refill_bounds [OF fl(1) this cfg, of t]
  have "fl (tokens (refill fl cfg t b) - 1) \<le> of_int (burst cfg)" using r by (intro fl(2)) simp
  then show ?thesis using wf r fl_minus_one [OF fl(1)]
    by (auto simp: charge_bucket_def Let_def limiter_wf_def dest!: set_bucket_in)
qed

lemma consume_wf:
  assumes fl: "rounding fl" "\<And>x. x \<le> of_int (burst cfg) \<Longrightarrow> fl x \<le> of_int (burst cfg)" and cfg: "0 \<le> refillPerMinute cfg" "0 \<le> burst cfg"
    and wf: "limiter_wf cfg bs"
  shows "limiter_wf cfg (fst (consume fl ip6 hm cfg t address bs))"
proof (cases "normalizeLimiterAddress ip6 address")
  case (Some n)
  let ?k = "hm n" and ?kept = "evict_idle cfg t bs"
  have kept: "limiter_wf cfg ?kept" "set ?kept \<subseteq> set bs"
    using wf by (auto simp: limiter_wf_def evict_idle_def distinct_map_filter intro: order_trans [OF _ wf [unfolded limiter_wf_def, THEN conjunct2, THEN conjunct1]] length_filter_le)
  show ?thesis
  proof (cases "map_of bs ?k")
    case (Some b)
    then show ?thesis using charge_wf [OF fl cfg wf map_of_SomeD [OF Some]] \<open>normalizeLimiterAddress ip6 address = Some n\<close>
      by (simp add: consume_def Let_def)
  next
    case None
    let ?b = "\<lparr>tokens = of_int (burst cfg), updatedAt = t, lastSeenAt = t\<rparr>"
    have "?k \<notin> fst ` set ?kept" using None kept(2) by (auto simp: map_of_eq_None_iff)
    then have "limiter_wf cfg (?kept @ [(?k, ?b)])" if "\<not> int (length ?kept) \<ge> maxKeys cfg"
      using kept(1) that cfg(2) by (auto simp: limiter_wf_def)
    then show ?thesis using None kept(1) charge_wf [OF fl cfg, of "?kept @ [(?k, ?b)]" ?k ?b] \<open>normalizeLimiterAddress ip6 address = Some n\<close>
      by (auto simp: consume_def Let_def)
  qed
qed (use wf in \<open>simp add: consume_def\<close>)

section \<open>Runs\<close>

definition consume_step :: "(rat \<Rightarrow> rat) \<Rightarrow> (jsstring \<Rightarrow> bool) \<Rightarrow> (jsstring \<Rightarrow> jsstring) \<Rightarrow> limiter_settings \<Rightarrow> buckets \<Rightarrow>
    int \<times> jsstring \<Rightarrow> buckets \<times> limit_result" where
  "consume_step fl ip6 hm cfg bs ev = consume fl ip6 hm cfg (fst ev) (snd ev) bs"

definition sound_limiter :: "(rat \<Rightarrow> rat) \<Rightarrow> limiter_settings \<Rightarrow> bool" where
  "sound_limiter fl cfg \<longleftrightarrow> rounding fl \<and> (\<forall>x. x \<le> of_int (burst cfg) \<longrightarrow> fl x \<le> of_int (burst cfg)) \<and>
     0 \<le> refillPerMinute cfg \<and> 0 \<le> burst cfg"

interpretation limiter: invariant_system "consume_step fl ip6 hm cfg" "\<lambda>_ bs. sound_limiter fl cfg \<longrightarrow> limiter_wf cfg bs"
proof unfold_locales
  fix hist :: "((int \<times> jsstring) \<times> limit_result) list" and s e s' out
  assume "sound_limiter fl cfg \<longrightarrow> limiter_wf cfg s" "consume_step fl ip6 hm cfg s e = (s', out)"
  then show "sound_limiter fl cfg \<longrightarrow> limiter_wf cfg s'"
    using consume_wf [of fl cfg s ip6 hm "fst e" "snd e"] by (auto simp: consume_step_def sound_limiter_def)
qed


section \<open>A burst\<close>

lemma map_of_set_bucket: "map_of bs k \<noteq> None \<Longrightarrow> map_of (set_bucket k b bs) k = Some b"
proof (induction bs)
  case (Cons x bs)
  then show ?case by (cases x) (simp add: set_bucket_def split: if_splits)
qed simp

lemma consume_present:
  assumes "normalizeLimiterAddress ip6 address = Some n" and "map_of bs (hm n) = Some b"
  shows "consume fl ip6 hm cfg t address bs = charge_bucket fl cfg t (hm n) b bs"
  using assms by (simp add: consume_def Let_def)

text \<open>Without time passing, a bucket of \<open>k\<close> tokens allows \<open>k\<close> requests and refuses the next.\<close>

definition exact_counts :: "(rat \<Rightarrow> rat) \<Rightarrow> limiter_settings \<Rightarrow> bool" where
  "exact_counts fl cfg \<longleftrightarrow> (\<forall>k. int k \<le> burst cfg \<longrightarrow> fl (of_nat k) = of_nat k)"

lemma charge_full:
  assumes fl: "exact_counts fl cfg" and b: "tokens b = of_nat k" "int k \<le> burst cfg" "updatedAt b = t" "lastSeenAt b = t"
  shows "k = Suc j \<Longrightarrow> charge_bucket fl cfg t key b bs = (set_bucket key (b\<lparr>tokens := of_nat j\<rparr>) bs, Allowed)"
    and "k = 0 \<Longrightarrow> \<exists>n. charge_bucket fl cfg t key b bs = (set_bucket key b bs, RateLimited n)"
proof -
  have ex: "fl (of_nat i) = of_nat i" if "int i \<le> burst cfg" for i using fl that by (simp only: exact_counts_def)
  have z: "fl 0 = 0" using ex [of 0] b(2) by simp
  have e: "fl (of_nat k) = of_nat k" by (rule ex [OF b(2)])
  have "of_nat k \<le> (of_int (burst cfg) :: rat)" using b(2) by (metis of_int_le_iff of_int_of_nat_eq)
  then have r: "refill fl cfg t b = b" using b z e by (simp add: refill_def Let_def)
  show "charge_bucket fl cfg t key b bs = (set_bucket key (b\<lparr>tokens := of_nat j\<rparr>) bs, Allowed)" if "k = Suc j"
  proof -
    have "fl (of_nat j) = of_nat j" using ex [of j] b(2) that by simp
    then show ?thesis using r b that by (simp add: charge_bucket_def Let_def)
  qed
  show "\<exists>n. charge_bucket fl cfg t key b bs = (set_bucket key b bs, RateLimited n)" if "k = 0"
    using r b that by (simp add: charge_bucket_def Let_def)
qed

lemma burst_exact:
  assumes fl: "exact_counts fl cfg" and n: "normalizeLimiterAddress ip6 address = Some n"
    and b: "map_of bs (hm n) = Some b" "tokens b = of_nat k" "int k \<le> burst cfg" "updatedAt b = t" "lastSeenAt b = t"
  shows "\<forall>i < m. (snd (fst (run_log (consume_step fl ip6 hm cfg) bs (replicate m (t, address))) ! i) = Allowed) \<longleftrightarrow> i < k"
  using b
proof (induction m arbitrary: bs b k)
  case (Suc m)
  show ?case
  proof (cases k)
    case 0
    then obtain r where "charge_bucket fl cfg t (hm n) b bs = (set_bucket (hm n) b bs, RateLimited r)"
      using charge_full(2) [OF fl Suc.prems(2-5)] by blast
    then have st: "consume_step fl ip6 hm cfg bs (t, address) = (set_bucket (hm n) b bs, RateLimited r)"
      using consume_present [where hm = hm, OF n Suc.prems(1)] by (simp add: consume_step_def)
    have "map_of (set_bucket (hm n) b bs) (hm n) = Some b" using Suc.prems(1) by (simp add: map_of_set_bucket)
    from Suc.IH [OF this Suc.prems(2-5)] show ?thesis using st 0
      by (auto simp: Let_def nth_Cons split: prod.splits nat.splits)
  next
    case (Suc j)
    let ?b = "b\<lparr>tokens := of_nat j\<rparr>"
    have st: "consume_step fl ip6 hm cfg bs (t, address) = (set_bucket (hm n) ?b bs, Allowed)"
      using consume_present [where hm = hm, OF n Suc.prems(1)] charge_full(1) [OF fl Suc.prems(2-5) Suc] by (simp add: consume_step_def)
    have "map_of (set_bucket (hm n) ?b bs) (hm n) = Some ?b" using Suc.prems(1) by (simp add: map_of_set_bucket)
    from Suc.IH [OF this, of j] Suc.prems Suc show ?thesis using st
      by (auto simp: Let_def nth_Cons split: prod.splits nat.splits)
  qed
qed simp

end
