(* ===== verification/AddressProperties.thy ===== *)
theory AddressProperties
  imports AddressService AddressLimiter
begin

text \<open>
  The properties of the address proofs, of the trusted proxy ranges and of the per-client limiter.
\<close>

section \<open>Proofs of a suggested address\<close>

definition demo_env :: proof_env where
  "demo_env = \<lparr>p_nfc = id, p_number = (\<lambda>n. if n = Fin 48 then js ''48'' else js ''17''),
     p_hmac_text = (\<lambda>k m. [1]), p_hmac = (\<lambda>k m. replicate 32 (of_nat (length m)))\<rparr>"

lemma verify_created:
  assumes "createReportAddressProof env a kind lat lon secret = Some p" and "\<And>k m. length (p_hmac env k m) = 32"
  shows "verifyReportAddressProof env a kind lat lon given secret \<longleftrightarrow>
    matches_seq proof_pattern given \<and> b64url_decode (drop 3 given) =
      p_hmac env (signingKey env secret) (proofMessage env (normalizeReportAddress (p_nfc env) a) kind lat lon)"
  using create_proof_Some [OF assms(1)] assms(1) by (auto simp: verifyReportAddressProof_def)

text \<open>
  Whatever the provider answered, an address the service suggests can be signed, and the proof it
  gets is accepted when the same address, target kind and coordinates come back.
\<close>

theorem suggested_address_proof:
  assumes "normalizeProviderResult (p_nfc env) v = Inr (Some sg)"
    and "\<And>a. p_nfc env (normalizeReportAddress (p_nfc env) a) = normalizeReportAddress (p_nfc env) a"
    and "\<And>k m. length (p_hmac env k m) = 32"
    and "secret \<noteq> []" and "num_value lat \<noteq> None" and "num_value lon \<noteq> None"
  shows "\<exists>p. createReportAddressProof env (sg_address sg) kind lat lon secret = Some p \<and>
    verifyReportAddressProof env (sg_address sg) kind lat lon p secret"
proof -
  obtain p where p: "createReportAddressProof env (sg_address sg) kind lat lon secret = Some p"
    using suggested_address_signable [OF assms(1) refl assms(2,4-6)] by blast
  then show ?thesis
    using verify_created [OF p assms(3)] create_proof_Some(1) [OF p] proof_shape_base64 assms(3) by simp
qed

theorem suggested_address_proof_witness:
  "\<exists>p. createReportAddressProof demo_env (js ''A 1'') (js ''custom'') (Fin 48) (Fin 17) [1] = Some p \<and>
    verifyReportAddressProof demo_env (js ''A 1'') (js ''custom'') (Fin 48) (Fin 17) p [1]"
proof -
  have n: "normalizeProviderResult (p_nfc demo_env) (JObj [(js ''address'', JStr (js '' A 1''))]) =
      Inr (Some \<lparr>sg_address = js ''A 1'', sg_locality = None\<rparr>)"
    by (simp add: normalizeProviderResult_def normalizeProviderText_def js_def sep_char_def js_ws_def js_trim_def
        trim_both_def demo_env_def js_get_def Let_def props_def)
  have "normalizeReportAddress id (normalizeReportAddress id a) = normalizeReportAddress id a" for a
    by (rule normalize_canonical) (simp_all add: canonical_normalized)
  then show ?thesis
    using suggested_address_proof [OF n, of "[1]" "Fin 48" "Fin 17" "js ''custom''"] by (simp add: demo_env_def)
qed



section \<open>Trusted proxies\<close>

lemma parse_entries_ok:
  "parse_entries ip6 parts = Inr cs \<Longrightarrow> map Inr cs = map (parseCidr ip6) parts"
  by (induction parts arbitrary: cs) (auto split: if_splits sum.splits)

lemma match_range:
  assumes "parseCidr ip6 part = Inr c" and "parseAddress ip6 text = Some a"
  shows "addressMatchesCidr ip6 text c \<longleftrightarrow>
    (\<exists>base. parseAddress ip6 (hd (split_on 47 (js_trim part))) = Some base \<and> pa_family base = pa_family a \<and>
      drop_bit (max_bits (pa_family a) - ci_prefix c) (pa_bits base) = drop_bit (max_bits (pa_family a) - ci_prefix c) (pa_bits a))"
proof -
  obtain base where b: "parseAddress ip6 (hd (split_on 47 (js_trim part))) = Some base" "ci_family c = pa_family base"
    "ci_prefix c \<le> max_bits (pa_family base)" "ci_bits c = pa_bits base AND network_mask (pa_family base) (ci_prefix c)"
    by (rule parseCidr_range [OF assms(1)])
  have "pa_bits a AND network_mask (pa_family a) (ci_prefix c) = pa_bits base AND network_mask (pa_family a) (ci_prefix c) \<longleftrightarrow>
      drop_bit (max_bits (pa_family a) - ci_prefix c) (pa_bits a) = drop_bit (max_bits (pa_family a) - ci_prefix c) (pa_bits base)"
    if "pa_family base = pa_family a"
    using same_network [OF parseAddress_bits(1) [OF assms(2)], of "pa_bits base" "ci_prefix c"] parseAddress_bits(1) [OF b(1)] b(3) that
    by simp
  then show ?thesis using assms(2) b by (auto simp: addressMatchesCidr_def)
qed

text \<open>
  A peer is trusted exactly when some configured entry has its family and its leading bits, as
  many as the entry's prefix says; an empty setting trusts nobody.
\<close>

theorem trusted_proxy_prefix:
  assumes "parseTrustedProxyCidrs ip6 (Some v) = Inr cs" and "parseAddress ip6 text = Some a"
  shows "createProxyTrustPredicate ip6 cs text \<longleftrightarrow> js_trim v \<noteq> [] \<and>
    (\<exists>part \<in> set (split_on 44 v). \<exists>c base. parseCidr ip6 part = Inr c \<and>
      parseAddress ip6 (hd (split_on 47 (js_trim part))) = Some base \<and> pa_family base = pa_family a \<and>
      drop_bit (max_bits (pa_family a) - ci_prefix c) (pa_bits base) = drop_bit (max_bits (pa_family a) - ci_prefix c) (pa_bits a))"
proof (cases "js_trim v = []")
  case True
  then show ?thesis using assms(1) by (simp add: parseTrustedProxyCidrs_def createProxyTrustPredicate_def)
next
  case False
  then have "map Inr cs = map (parseCidr ip6) (split_on 44 v)"
    using assms(1) parse_entries_ok by (simp add: parseTrustedProxyCidrs_def)
  then have s: "Inr ` set cs = parseCidr ip6 ` set (split_on 44 v)" by (metis list.set_map)
  have "(\<exists>c \<in> set cs. P c) \<longleftrightarrow> (\<exists>part \<in> set (split_on 44 v). \<exists>c. parseCidr ip6 part = Inr c \<and> P c)" for P
    using s by (auto simp: image_iff set_eq_iff) (metis Inr_inject)+
  then have "createProxyTrustPredicate ip6 cs text \<longleftrightarrow>
      (\<exists>part \<in> set (split_on 44 v). \<exists>c. parseCidr ip6 part = Inr c \<and> addressMatchesCidr ip6 text c)"
    by (simp add: createProxyTrustPredicate_def list_ex_iff)
  then show ?thesis using False by (simp add: match_range [OF _ assms(2)] cong: conj_cong)
qed

definition demo_parsed :: "nat \<Rightarrow> parsed_address" where
  "demo_parsed n = \<lparr>pa_family = V4, pa_bits = n, pa_normalized = dotted n\<rparr>"

lemma parse_dotted:
  assumes "isIPv4 s" and "foldl (\<lambda>r octet. push_bit 8 r OR octet) 0 (map (read_radix 10) (split_on 46 s)) = n"
  shows "parseAddress ip6 s = Some (demo_parsed n)"
proof -
  obtain a where a: "parseIpv4 s = Some a" "pa_bits a = n" using assms by (simp add: parseIpv4_def Let_def)
  then show ?thesis using parseIpv4_bits [OF a(1)] by (cases a) (simp add: parseAddress_def demo_parsed_def)
qed

lemma demo_ip: "parseAddress ip6 (js ''10.1.2.3'') = Some (demo_parsed 167838211)"
  "parseAddress ip6 (js ''10.0.0.0'') = Some (demo_parsed 167772160)"
  by (rule parse_dotted; simp add: isIPv4_def octet_text_def js_def is_digit_def read_radix_def digit_value_def)+

lemma demo_range:
  "parseCidr ip6 (js ''10.0.0.0/8'') = Inr \<lparr>ci_family = V4, ci_bits = 167772160 AND network_mask V4 8, ci_prefix = 8\<rparr>"
  "split_on 44 (js ''10.0.0.0/8'') = [js ''10.0.0.0/8'']"
  "js_trim (js ''10.0.0.0/8'') = js ''10.0.0.0/8''"
  "hd (split_on 47 (js ''10.0.0.0/8'')) = js ''10.0.0.0''"
proof -
  show a: "js_trim (js ''10.0.0.0/8'') = js ''10.0.0.0/8''" by (simp add: js_def js_trim_def trim_both_def js_ws_def)
  have s: "split_on 47 (js ''10.0.0.0/8'') = [js ''10.0.0.0'', js ''8'']" by (simp add: js_def)
  then show "hd (split_on 47 (js ''10.0.0.0/8'')) = js ''10.0.0.0''" by simp
  show "split_on 44 (js ''10.0.0.0/8'') = [js ''10.0.0.0/8'']" by (simp add: js_def)
  have "js ''10.0.0.0'' \<noteq> []" "js ''8'' = [56]" by (simp_all add: js_def)
  then show "parseCidr ip6 (js ''10.0.0.0/8'') = Inr \<lparr>ci_family = V4, ci_bits = 167772160 AND network_mask V4 8, ci_prefix = 8\<rparr>"
    unfolding parseCidr_def a s
    by (simp add: Let_def demo_ip demo_parsed_def max_bits_def is_digit_def read_radix_def digit_value_def)
qed

theorem trusted_proxy_prefix_witness:
  "\<exists>cs. parseTrustedProxyCidrs (\<lambda>_. False) (Some (js ''10.0.0.0/8'')) = Inr cs \<and>
    createProxyTrustPredicate (\<lambda>_. False) cs (js ''10.1.2.3'')"
proof -
  have ne: "js ''10.0.0.0/8'' \<noteq> []" by (simp add: js_def)
  then have c: "parseTrustedProxyCidrs (\<lambda>_. False) (Some (js ''10.0.0.0/8'')) =
      Inr [\<lparr>ci_family = V4, ci_bits = 167772160 AND network_mask V4 8, ci_prefix = 8\<rparr>]"
    by (simp add: parseTrustedProxyCidrs_def demo_range)
  show ?thesis using trusted_proxy_prefix [OF c demo_ip(1)] c ne
    by (simp add: demo_range demo_ip demo_parsed_def max_bits_def drop_bit_eq_div)
qed

section \<open>The limiter\<close>

text \<open>
  Two client addresses share a bucket exactly when they are the same IPv4 address (mapped or not)
  or IPv6 addresses of one /64 network.
\<close>

theorem limiter_key_network:
  assumes "parseAddress ip6 s = Some a" and "parseAddress ip6 t = Some b"
  shows "normalizeLimiterAddress ip6 s = normalizeLimiterAddress ip6 t \<longleftrightarrow>
    pa_family a = pa_family b \<and>
    (if pa_family a = V4 then pa_bits a = pa_bits b else drop_bit 64 (pa_bits a) = drop_bit 64 (pa_bits b))"
proof -
  have "radix 16 x = radix 16 y \<longleftrightarrow> x = y" for x y using radix_inj [of 16 x y] by auto
  moreover have "dotted (pa_bits a) = dotted (pa_bits b) \<longleftrightarrow> pa_bits a = pa_bits b" if "pa_family a = V4" "pa_family b = V4"
    using dotted_inj parseAddress_bits(1) [OF assms(1)] parseAddress_bits(1) [OF assms(2)] that by (auto simp: max_bits_def)
  ultimately show ?thesis
    using parseAddress_bits(2) [OF assms(1)] parseAddress_bits(2) [OF assms(2)] assms
    by (auto simp: normalizeLimiterAddress_def js_def split: family.splits)
qed

theorem limiter_key_network_witness:
  "normalizeLimiterAddress (\<lambda>_. True) (js ''10.1.2.3'') \<noteq> normalizeLimiterAddress (\<lambda>_. True) (js ''10.0.0.0'')"
  using limiter_key_network [OF demo_ip(1) demo_ip(2), of "\<lambda>_. True"] by (simp add: demo_parsed_def)

text \<open>
  The limiter stays within its memory: whatever addresses arrive and however the clock moves, it
  holds at most the configured number of buckets, no two for one key, each with between zero and
  \<open>burst\<close> tokens.
\<close>

theorem limiter_bounded:
  assumes "new_limiter b r m i secret = Some (cfg, start)" and "rounding fl"
    and "\<And>x. x \<le> of_int (burst cfg) \<Longrightarrow> fl x \<le> of_int (burst cfg)"
  shows "limiter_wf cfg (snd (run_log (consume_step fl ip6 hm cfg) start evs))"
proof -
  have "start = [] \<and> 1 \<le> burst cfg \<and> 1 \<le> refillPerMinute cfg \<and> 1 \<le> maxKeys cfg"
    using assms(1) by (auto simp: new_limiter_def split: option.splits if_splits)
  then show ?thesis
    using limiter.reachable_inv [of fl cfg start ip6 hm evs] assms(2,3) by (simp add: sound_limiter_def limiter_wf_def)
qed

definition demo_limits :: limiter_settings where
  "demo_limits = \<lparr>burst = 2, refillPerMinute = 30, maxKeys = 8, idleTtlMs = 1000\<rparr>"

theorem limiter_bounded_witness:
  "limiter_wf demo_limits (snd (run_log (consume_step id (\<lambda>_. False) id demo_limits) [] [(5, js ''10.1.2.3''), (7, js ''10.1.2.4'')]))"
proof -
  have "new_limiter (Fin 2) (Fin 30) (Fin 8) (Fin 1000) (replicate 32 0) = Some (demo_limits, [])"
    by (simp add: new_limiter_def demo_limits_def safe_integer_def rat_is_int_def)
  then show ?thesis by (rule limiter_bounded) (simp_all add: rounding_def mono_def)
qed

text \<open>
  A burst is exact: a client without a bucket that sends requests in the same millisecond gets
  its first \<open>burst\<close> ones allowed and every further one refused.
\<close>

theorem limiter_burst:
  assumes "exact_counts fl cfg" and "1 \<le> burst cfg" and "normalizeLimiterAddress ip6 address = Some n"
    and "map_of bs (hm n) = None" and "int (length (evict_idle cfg t bs)) < maxKeys cfg" and "i < m"
  shows "snd (fst (run_log (consume_step fl ip6 hm cfg) bs (replicate m (t, address))) ! i) = Allowed \<longleftrightarrow> int i < burst cfg"
proof -
  let ?kept = "evict_idle cfg t bs"
  let ?b = "\<lparr>tokens = of_int (burst cfg), updatedAt = t, lastSeenAt = t\<rparr>"
  obtain j where j: "burst cfg = int (Suc j)" using assms(2) by (metis nonneg_int_cases Suc_pred' add_diff_cancel zero_less_one_class.zero_le_one order_trans of_nat_0_less_iff zero_less_one order_less_le_trans)
  obtain m' where m: "m = Suc m'" using assms(6) by (cases m) auto
  have "map_of ?kept (hm n) = None"
    using assms(4) by (auto simp: map_of_eq_None_iff evict_idle_def)
  then have f: "map_of (?kept @ [(hm n, ?b)]) (hm n) = Some ?b" by (simp add: map_add_def)
  have "charge_bucket fl cfg t (hm n) ?b (?kept @ [(hm n, ?b)]) =
      (set_bucket (hm n) (?b\<lparr>tokens := of_nat j\<rparr>) (?kept @ [(hm n, ?b)]), Allowed)"
    by (rule charge_full(1) [OF assms(1), where k = "Suc j"]) (use j in simp_all)
  then have st: "consume_step fl ip6 hm cfg bs (t, address) =
      (set_bucket (hm n) (?b\<lparr>tokens := of_nat j\<rparr>) (?kept @ [(hm n, ?b)]), Allowed)" (is "_ = (?bs, _)")
    using assms(3-5) by (simp add: consume_step_def consume_def Let_def)
  have "map_of ?bs (hm n) = Some (?b\<lparr>tokens := of_nat j\<rparr>)" using f by (intro map_of_set_bucket) simp
  from burst_exact [where hm = hm, OF assms(1,3) this, of j t m'] show ?thesis using st m j assms(6)
    by (auto simp: Let_def nth_Cons split: prod.splits nat.splits)
qed

theorem limiter_burst_witness:
  "snd (fst (run_log (consume_step id (\<lambda>_. False) id demo_limits) [] (replicate 3 (5, js ''10.1.2.3''))) ! 2) \<noteq> Allowed"
proof -
  obtain n where n: "normalizeLimiterAddress (\<lambda>_. False) (js ''10.1.2.3'') = Some n"
    by (simp add: normalizeLimiterAddress_def demo_ip demo_parsed_def)
  have e: "exact_counts id demo_limits" by (simp add: exact_counts_def)
  show ?thesis using limiter_burst [where hm = id and bs = "[]" and t = 5 and i = 2 and m = 3, OF e _ n]
    by (simp add: demo_limits_def evict_idle_def)
qed

end
