(* ===== verification/AddressRoutes.thy ===== *)
theory AddressRoutes
  imports ReportTarget AddressService AddressLimiter
begin

text \<open>
  The two request handlers of \<^verbatim>\<open>routes/reportAddressSuggestion.routes.ts\<close>.  The light-point
  repository and the limiter are arguments over state types of their own; what happened between two
  waits of a handler (the state another request left, a closed connection, a failed query, the
  outcome of the service) is the record \<open>visit\<close>.
\<close>

section \<open>Bodies\<close>

definition fieldsAreExact :: "js_value \<Rightarrow> string list \<Rightarrow> bool" where
  "fieldsAreExact v names \<longleftrightarrow> length (props v) = length names \<and> list_all (\<lambda>f. has_own f v) names"

datatype reverse_input =
  ReverseCoordinates js_number js_number jsstring jsstring
| ReverseLightPoint int jsstring

datatype reverse_error = InvalidBody | InvalidBodyCoordinates

definition is_language :: "js_value \<Rightarrow> bool" where
  "is_language v \<longleftrightarrow> v = JStr (js ''sk'') \<or> v = JStr (js ''en'')"

definition is_point_kind :: "js_value \<Rightarrow> bool" where
  "is_point_kind v \<longleftrightarrow> v = JStr (js ''custom'') \<or> v = JStr (js ''device'')"

definition positive_id :: "js_value \<Rightarrow> int option" where
  "positive_id v =
     (case v of
        JNum n \<Rightarrow> (case safe_integer n of None \<Rightarrow> None | Some i \<Rightarrow> if i \<le> 0 then None else Some i)
      | _ \<Rightarrow> None)"

definition the_string :: "js_value \<Rightarrow> jsstring" where
  "the_string v = (case v of JStr s \<Rightarrow> s | _ \<Rightarrow> [])"

definition parseReverse :: "js_value \<Rightarrow> reverse_error + reverse_input" where
  "parseReverse b =
     (if \<not> isRecord b then Inl InvalidBody
      else if js_get ''targetKind'' b = JStr (js ''light-point'') then
        (if \<not> fieldsAreExact b [''targetKind'', ''lightPointId'', ''language''] then Inl InvalidBody
         else
           (case positive_id (js_get ''lightPointId'' b) of
              None \<Rightarrow> Inl InvalidBody
            | Some i \<Rightarrow>
                if \<not> is_language (js_get ''language'' b) then Inl InvalidBody
                else Inr (ReverseLightPoint i (the_string (js_get ''language'' b)))))
      else if \<not> fieldsAreExact b [''latitude'', ''longitude'', ''targetKind'', ''language''] \<or>
        \<not> is_point_kind (js_get ''targetKind'' b) \<or> \<not> is_language (js_get ''language'' b) then Inl InvalidBody
      else
        (case (as_number (js_get ''latitude'' b), as_number (js_get ''longitude'' b)) of
           (Some lat, Some lon) \<Rightarrow>
             if \<not> valid_coordinates lat lon then Inl InvalidBodyCoordinates
             else Inr (ReverseCoordinates lat lon (the_string (js_get ''targetKind'' b)) (the_string (js_get ''language'' b)))
         | _ \<Rightarrow> Inl InvalidBodyCoordinates))"

datatype validation_input = ValidateCoordinates js_number js_number jsstring | ValidateLightPoint int

definition parseTargetValidation :: "js_value \<Rightarrow> validation_input option" where
  "parseTargetValidation b =
     (if \<not> isRecord b then None
      else if js_get ''targetKind'' b = JStr (js ''light-point'') then
        (if \<not> fieldsAreExact b [''targetKind'', ''lightPointId''] then None
         else map_option ValidateLightPoint (positive_id (js_get ''lightPointId'' b)))
      else if \<not> fieldsAreExact b [''targetKind'', ''latitude'', ''longitude''] \<or> \<not> is_point_kind (js_get ''targetKind'' b) then None
      else
        (case (as_number (js_get ''latitude'' b), as_number (js_get ''longitude'' b)) of
           (Some lat, Some lon) \<Rightarrow> Some (ValidateCoordinates lat lon (the_string (js_get ''targetKind'' b)))
         | _ \<Rightarrow> None))"

section \<open>Answers\<close>

datatype outcome = Answered http_response | Forwarded | Abandoned

definition reply :: "nat \<Rightarrow> int option \<Rightarrow> (string \<times> js_value) list \<Rightarrow> outcome" where
  "reply st retry names =
     Answered \<lparr>status = st, no_store = False, retry_header = retry, body = JObj (map (\<lambda>(k, v). (js k, v)) names)\<rparr>"

definition fail_reply :: "nat \<Rightarrow> string \<Rightarrow> string \<Rightarrow> outcome" where
  "fail_reply st code message =
     reply st None [(''success'', JBool False), (''code'', JStr (js code)), (''message'', JStr (js message))]"

definition data_reply :: "js_value \<Rightarrow> outcome" where
  "data_reply v = reply 200 None [(''success'', JBool True), (''data'', v)]"

definition address_reply :: "jsstring \<Rightarrow> outcome" where
  "address_reply a = data_reply (JObj [(js ''address'', JStr a)])"

definition light_point_missing :: outcome where
  "light_point_missing = fail_reply 404 ''light_point_not_found'' ''Selected light point was not found.''"

definition light_point_changed :: outcome where
  "light_point_changed = fail_reply 409 ''light_point_changed'' ''The selected light point changed. Select it again.''"

text \<open>\<open>None\<close> lets the handler go on.\<close>

definition applyRateLimit :: "limit_result \<Rightarrow> bool \<Rightarrow> outcome option" where
  "applyRateLimit r validated =
     (let refuse = (\<lambda>code n. Some (reply 429 (Some n)
          [(''success'', JBool False), (''code'', JStr (js code)),
           (''message'', JStr (js (if validated then ''Address assistance is temporarily unavailable.''
              else ''Request limit reached. Please try again shortly.''))),
           (''targetValidated'', JBool validated)])) in
      case r of Allowed \<Rightarrow> None | RateLimited n \<Rightarrow> refuse ''rate_limited'' n | LimiterCapacity n \<Rightarrow> refuse ''limiter_capacity'' n)"

definition respondReportTargetError :: "target_error \<Rightarrow> outcome" where
  "respondReportTargetError e =
     (case e of
        TargetQueryFailed \<Rightarrow> Forwarded
      | ReportTargetError st code \<Rightarrow>
          reply st None [(''success'', JBool False), (''code'', JStr code),
            (''message'', JStr (js (if code = js ''outside_service_area'' then ''Selected coordinates are outside the service area.''
               else ''Address assistance is unavailable.'')))])"

text \<open>What a rejected \<^verbatim>\<open>suggest\<close> carries: a status, a code and a message, or another error.\<close>

datatype suggest_failure = SuggestionFailed nat jsstring jsstring | OtherFailure

definition seconds_to_midnight :: "int \<Rightarrow> int \<Rightarrow> int" where
  "seconds_to_midnight today t = max 1 \<lceil>(of_int ((today div 86400000 + 1) * 86400000 - t) :: rat) / 1000\<rceil>"

definition sendAddressSuggestionError :: "int \<Rightarrow> nat \<Rightarrow> jsstring \<Rightarrow> jsstring \<Rightarrow> outcome" where
  "sendAddressSuggestionError t st code message =
     reply st
       (if st = 429 then Some (if code = js ''daily_budget_exceeded'' then seconds_to_midnight t t else 1) else None)
       [(''success'', JBool False), (''code'', JStr code), (''message'', JStr message), (''targetValidated'', JBool True)]"

section \<open>The handlers\<close>

type_synonym 'l limiter = "jsstring \<Rightarrow> 'l \<Rightarrow> 'l \<times> limit_result"

record 'db repository =
  r_coordinates :: "'db \<Rightarrow> int \<Rightarrow> (js_number \<times> js_number) option"
  r_find :: "'db \<Rightarrow> int \<Rightarrow> address_snapshot option"
  r_persist :: "int \<Rightarrow> persist_input \<Rightarrow> 'db \<Rightarrow> ('db \<times> persist_result) option"

definition postgres_lights :: "light_db repository" where
  "postgres_lights = \<lparr>r_coordinates = findCoordinates, r_find = findById, r_persist = persistIfMissing\<rparr>"

text \<open>A database read that failed is \<open>None\<close>.\<close>

record 'db visit =
  v_ip :: jsstring
  v_coordinates_db :: "'db option"
  v_gone_resolved :: bool
  v_find_db :: "'db option"
  v_gone_suggested :: bool
  v_persist_fails :: bool
  v_clock :: int

definition coordinates_of :: "'db repository \<Rightarrow> 'db option \<Rightarrow> int \<Rightarrow> target_error + (js_number \<times> js_number) option" where
  "coordinates_of rp db i = (case db of None \<Rightarrow> Inl TargetQueryFailed | Some d \<Rightarrow> Inr (r_coordinates rp d i))"

definition light_target :: "int \<Rightarrow> js_value" where
  "light_target i = JObj [(js ''kind'', JStr (js ''light-point'')), (js ''lightPointId'', jnat i)]"

definition point_target :: "jsstring \<Rightarrow> js_number \<Rightarrow> js_number \<Rightarrow> js_value" where
  "point_target kind lat lon = JObj [(js ''kind'', JStr kind), (js ''latitude'', JNum lat), (js ''longitude'', JNum lon)]"

fun validation_target :: "validation_input \<Rightarrow> js_value" where
  "validation_target (ValidateLightPoint i) = light_target i"
| "validation_target (ValidateCoordinates lat lon kind) = point_target kind lat lon"

fun reverse_target :: "reverse_input \<Rightarrow> js_value" where
  "reverse_target (ReverseLightPoint i language) = light_target i"
| "reverse_target (ReverseCoordinates lat lon kind language) = point_target kind lat lon"

definition post_target_validation :: "'l limiter \<Rightarrow> (js_value \<Rightarrow> classification) \<Rightarrow> 'db repository \<Rightarrow> 'db visit \<Rightarrow>
    js_value \<Rightarrow> 'l \<Rightarrow> 'l \<times> outcome" where
  "post_target_validation limit classify rp v b l =
     (case parseTargetValidation b of
        None \<Rightarrow> (l, fail_reply 400 ''invalid_request'' ''Invalid report location.'')
      | Some inp \<Rightarrow>
          (case limit (v_ip v) l of
             (l1, r) \<Rightarrow>
               (case applyRateLimit r False of
                  Some refusal \<Rightarrow> (l1, refusal)
                | None \<Rightarrow>
                    (case resolveAndValidateReportTarget (coordinates_of rp (v_coordinates_db v)) classify (validation_target inp) of
                       Inr t \<Rightarrow> (l1, data_reply (JObj [(js ''valid'', JBool True)]))
                     | Inl e \<Rightarrow> (l1, if v_gone_resolved v then Abandoned else respondReportTargetError e)))))"

text \<open>
  The second handler in its stages: the check of a light point before the provider is asked, and the
  storing of the answer after it.  A stage is done when it has an outcome.
\<close>

definition stored_answer :: "'db repository \<Rightarrow> 'db visit \<Rightarrow> int \<Rightarrow> resolved_target \<Rightarrow> outcome option" where
  "stored_answer rp v i t =
     (case v_find_db v of
        None \<Rightarrow> Some Forwarded
      | Some db \<Rightarrow>
          (case r_find rp db i of
             None \<Rightarrow> Some light_point_missing
           | Some p \<Rightarrow>
               if \<not> number_eq (as_latitude p) (t_latitude t) \<or> \<not> number_eq (as_longitude p) (t_longitude t)
               then Some light_point_changed
               else (case as_address p of None \<Rightarrow> None | Some a \<Rightarrow> if a = [] then None else Some (address_reply a))))"

definition persist_answer :: "'db repository \<Rightarrow> 'db visit \<Rightarrow> int \<Rightarrow> resolved_target \<Rightarrow> jsstring \<Rightarrow> 'db \<Rightarrow> 'db \<times> outcome option" where
  "persist_answer rp v i t a db =
     (if v_persist_fails v then (db, Some Forwarded)
      else
        (case r_persist rp (v_clock v)
            \<lparr>pi_id = i, pi_latitude = t_latitude t, pi_longitude = t_longitude t, pi_address = a\<rparr> db of
           None \<Rightarrow> (db, Some Forwarded)
         | Some (db1, r) \<Rightarrow>
             (db1, case r of
                Missing \<Rightarrow> Some light_point_missing
              | CoordinatesChanged (Some b) \<Rightarrow> Some (if b = [] then light_point_changed else address_reply b)
              | CoordinatesChanged None \<Rightarrow> Some light_point_changed
              | Existing b \<Rightarrow> Some (address_reply b)
              | Stored b \<Rightarrow> None)))"

definition suggestion_fields :: "suggestion \<Rightarrow> (jsstring \<times> js_value) list" where
  "suggestion_fields sg = (js ''address'', JStr (sg_address sg)) #
     (case sg_locality sg of None \<Rightarrow> [] | Some l \<Rightarrow> [(js ''locality'', JStr l)])"

definition reverse_request :: "reverse_input \<Rightarrow> resolved_target \<Rightarrow> address_request" where
  "reverse_request inp t =
     (case inp of
        ReverseLightPoint i language \<Rightarrow>
          \<lparr>q_latitude = t_latitude t, q_longitude = t_longitude t, q_targetKind = js ''custom'', q_language = language\<rparr>
      | ReverseCoordinates lat lon kind language \<Rightarrow>
          \<lparr>q_latitude = t_latitude t, q_longitude = t_longitude t, q_targetKind = kind, q_language = language\<rparr>)"

text \<open>The last step: a proof is signed for a coordinate target that has an address.\<close>

definition final_answer :: "proof_env \<Rightarrow> jsstring \<Rightarrow> reverse_input \<Rightarrow> resolved_target \<Rightarrow> suggestion option \<Rightarrow> outcome" where
  "final_answer env secret inp t data =
     (case data of
        None \<Rightarrow> data_reply JNull
      | Some sg \<Rightarrow>
          (case inp of
             ReverseLightPoint i language \<Rightarrow> data_reply (JObj (suggestion_fields sg))
           | ReverseCoordinates lat lon kind language \<Rightarrow>
               if sg_address sg = [] then data_reply (JObj (suggestion_fields sg))
               else
                 (case createReportAddressProof env (sg_address sg) kind (t_latitude t) (t_longitude t) secret of
                    None \<Rightarrow> Forwarded
                  | Some p \<Rightarrow> data_reply (JObj (suggestion_fields sg @ [(js ''proof'', JStr p)])))))"

definition after_suggest :: "proof_env \<Rightarrow> jsstring \<Rightarrow> 'db repository \<Rightarrow> 'db visit \<Rightarrow> reverse_input \<Rightarrow> resolved_target \<Rightarrow>
    suggest_failure + suggestion option \<Rightarrow> 'db \<Rightarrow> 'db \<times> outcome" where
  "after_suggest env secret rp v inp t r db =
     (if v_gone_suggested v then (db, Abandoned)
      else
        (case r of
           Inl OtherFailure \<Rightarrow> (db, Forwarded)
         | Inl (SuggestionFailed st code message) \<Rightarrow> (db, sendAddressSuggestionError (v_clock v) st code message)
         | Inr data \<Rightarrow>
             (case (inp, data) of
                (ReverseLightPoint i language, Some sg) \<Rightarrow>
                  if sg_address sg = [] then (db, final_answer env secret inp t data)
                  else
                    (case persist_answer rp v i t (sg_address sg) db of
                       (db1, Some answer) \<Rightarrow> (db1, answer)
                     | (db1, None) \<Rightarrow> (db1, final_answer env secret inp t data))
              | _ \<Rightarrow> (db, final_answer env secret inp t data))))"

record ('l, 'db) visit_result =
  vr_limiter :: 'l
  vr_db :: 'db
  vr_request :: "address_request option"
  vr_outcome :: outcome

definition post_address_suggestion :: "(address_request \<Rightarrow> suggest_failure + suggestion option) \<Rightarrow> 'l limiter \<Rightarrow>
    (js_value \<Rightarrow> classification) \<Rightarrow> 'db repository \<Rightarrow> proof_env \<Rightarrow> jsstring \<Rightarrow> 'db visit \<Rightarrow> js_value \<Rightarrow> 'l \<Rightarrow> 'db \<Rightarrow>
    ('l, 'db) visit_result" where
  "post_address_suggestion ask limit classify rp env secret v b l db =
     (let quit = (\<lambda>out. \<lparr>vr_limiter = l, vr_db = db, vr_request = None, vr_outcome = out\<rparr>) in
      case parseReverse b of
        Inl InvalidBody \<Rightarrow> quit (fail_reply 400 ''invalid_request'' ''Invalid address suggestion request.'')
      | Inl InvalidBodyCoordinates \<Rightarrow> quit (fail_reply 400 ''invalid_coordinates'' ''Selected coordinates are invalid.'')
      | Inr inp \<Rightarrow>
          (case resolveAndValidateReportTarget (coordinates_of rp (v_coordinates_db v)) classify (reverse_target inp) of
             Inl e \<Rightarrow> quit (if v_gone_resolved v then Abandoned else respondReportTargetError e)
           | Inr t \<Rightarrow>
               if v_gone_resolved v then quit Abandoned
               else
                 (case (case inp of ReverseLightPoint i language \<Rightarrow> stored_answer rp v i t | _ \<Rightarrow> None) of
                    Some answer \<Rightarrow> quit answer
                  | None \<Rightarrow>
                      (case limit (v_ip v) l of
                         (l1, r) \<Rightarrow>
                           (case applyRateLimit r True of
                              Some refusal \<Rightarrow> \<lparr>vr_limiter = l1, vr_db = db, vr_request = None, vr_outcome = refusal\<rparr>
                            | None \<Rightarrow>
                                (let q = reverse_request inp t in
                                 case after_suggest env secret rp v inp t (ask q) db of
                                   (db1, out) \<Rightarrow> \<lparr>vr_limiter = l1, vr_db = db1, vr_request = Some q, vr_outcome = out\<rparr>))))))"

end
