(* ===== verification/AddressRouteProperties.thy ===== *)
theory AddressRouteProperties
  imports AddressRoutes AddressProperties
begin

text \<open>
  What the handlers promise.  The locale \<open>light_repository\<close> names what they rely on when they use the
  light-point repository; PostgreSQL's is an instance.
\<close>

section \<open>The repository interface\<close>

definition answer_address :: "http_response \<Rightarrow> js_value" where
  "answer_address r = js_get ''address'' (js_get ''data'' (body r))"

definition known :: "'db repository \<Rightarrow> 'db \<Rightarrow> int \<Rightarrow> jsstring \<Rightarrow> bool" where
  "known rp db i a \<longleftrightarrow> (\<exists>s. r_find rp db i = Some s \<and> as_address s = Some a)"

definition persist_step :: "'db repository \<Rightarrow> 'db \<Rightarrow> int \<times> persist_input \<Rightarrow> 'db \<times> persist_result option" where
  "persist_step rp db e = (case r_persist rp (fst e) (snd e) db of None \<Rightarrow> (db, None) | Some (db1, r) \<Rightarrow> (db1, Some r))"

locale light_repository =
  fixes rp :: "'db repository" and wf :: "'db \<Rightarrow> bool"
  assumes persist_wf: "wf db \<Longrightarrow> r_persist rp t inp db = Some (db', r) \<Longrightarrow> wf db'"
    and persist_keeps: "wf db \<Longrightarrow> r_persist rp t inp db = Some (db', r) \<Longrightarrow> known rp db j a \<Longrightarrow> known rp db' j a"
    and stored_known: "wf db \<Longrightarrow> r_persist rp t inp db = Some (db', Stored a) \<Longrightarrow>
      known rp db' (pi_id inp) a \<and> a = js_trim (pi_address inp)"
    and existing_known: "wf db \<Longrightarrow> r_persist rp t inp db = Some (db', Existing a) \<Longrightarrow> known rp db' (pi_id inp) a"
    and changed_known: "wf db \<Longrightarrow> r_persist rp t inp db = Some (db', CoordinatesChanged (Some a)) \<Longrightarrow> known rp db' (pi_id inp) a"
begin

lemma persist_run_keeps:
  assumes "wf db" and "known rp db j a"
  shows "wf (snd (run_log (persist_step rp) db es)) \<and> known rp (snd (run_log (persist_step rp) db es)) j a"
proof -
  have "invariant_system (persist_step rp) (\<lambda>_ db. wf db \<and> known rp db j a)"
    by unfold_locales (auto simp: persist_step_def persist_wf persist_keeps split: option.splits prod.splits)
  from invariant_system.reachable_inv [OF this, of db es] show ?thesis using assms by simp
qed

lemma persist_answer_known:
  assumes "wf db" and "persist_answer rp v i t b db = (db1, Some (Answered r))" and "answer_address r = JStr a"
  shows "known rp db1 i a"
  using assms existing_known [of db] changed_known [of db]
  by (fastforce simp: persist_answer_def address_reply_def data_reply_def reply_def light_point_missing_def light_point_changed_def
      fail_reply_def answer_address_def js_get_def props_def js_def split: if_splits option.splits prod.splits persist_result.splits)

lemma after_suggest_known:
  assumes "wf db" and "after_suggest env secret rp v (ReverseLightPoint i language) t (Inr data) db = (db1, Answered r)"
    and "\<And>sg. data = Some sg \<Longrightarrow> js_trim (sg_address sg) = sg_address sg \<and> sg_address sg \<noteq> []" and "answer_address r = JStr a"
  shows "known rp db1 i a"
proof (cases data)
  case None
  then show ?thesis using assms(2,4)
    by (auto simp: after_suggest_def final_answer_def data_reply_def reply_def answer_address_def js_get_def props_def js_def split: if_splits)
next
  case (Some sg)
  then obtain db2 out where p: "persist_answer rp v i t (sg_address sg) db = (db2, out)" by force
  show ?thesis
  proof (cases out)
    case None
    then obtain b where "r_persist rp (v_clock v)
        \<lparr>pi_id = i, pi_latitude = t_latitude t, pi_longitude = t_longitude t, pi_address = sg_address sg\<rparr> db = Some (db2, Stored b)"
      using p by (auto simp: persist_answer_def split: if_splits option.splits prod.splits persist_result.splits)
    from stored_known [OF assms(1) this] have "known rp db2 i (sg_address sg)" using assms(3) [OF Some] by auto
    then show ?thesis using assms(2,4) Some None p assms(3) [OF Some]
      by (auto simp: after_suggest_def final_answer_def data_reply_def reply_def suggestion_fields_def answer_address_def
          js_get_def props_def js_def split: if_splits)
  next
    case (Some answer)
    then show ?thesis using assms(1,2,4) p \<open>data = Some sg\<close> assms(3) [OF \<open>data = Some sg\<close>] persist_answer_known
      by (auto simp: after_suggest_def split: if_splits)
  qed
qed

lemma stored_answer_known:
  "stored_answer rp v i t = Some (Answered r) \<Longrightarrow> answer_address r = JStr a \<Longrightarrow> \<exists>db. v_find_db v = Some db \<and> known rp db i a"
  by (auto simp: stored_answer_def known_def address_reply_def data_reply_def reply_def light_point_missing_def
      light_point_changed_def fail_reply_def answer_address_def js_get_def props_def js_def split: if_splits option.splits)

lemma no_address:
  "respondReportTargetError e = Answered r \<Longrightarrow> answer_address r \<noteq> JStr a"
  "applyRateLimit lr validated = Some (Answered r) \<Longrightarrow> answer_address r \<noteq> JStr a"
  "fail_reply st code message = Answered r \<Longrightarrow> answer_address r \<noteq> JStr a"
  "sendAddressSuggestionError n st c m = Answered r \<Longrightarrow> answer_address r \<noteq> JStr a"
  by (auto simp: respondReportTargetError_def applyRateLimit_def Let_def sendAddressSuggestionError_def fail_reply_def reply_def
      answer_address_def js_get_def props_def js_def split: target_error.splits limit_result.splits)

lemma light_answer_known:
  assumes "wf db" and "parseReverse b = Inr (ReverseLightPoint i language)"
    and "\<And>q sg. ask q = Inr (Some sg) \<Longrightarrow> js_trim (sg_address sg) = sg_address sg \<and> sg_address sg \<noteq> []"
    and "post_address_suggestion ask limit classify rp env secret v b l db = res"
    and "vr_outcome res = Answered r" and "answer_address r = JStr a"
  shows "known rp (vr_db res) i a \<or> (\<exists>seen. v_find_db v = Some seen \<and> known rp seen i a)"
proof -
  have err: "\<not> after_suggest env secret rp v inp t (Inl f) db = (db1, Answered r)" for inp t f db1
    using no_address(4) assms(6) by (cases f) (auto simp: after_suggest_def)
  have suc: "known rp db1 i a" if "after_suggest env secret rp v (ReverseLightPoint i language) t (ask q) db = (db1, Answered r)" for t q db1
  proof (cases "ask q")
    case (Inr data)
    show ?thesis by (rule after_suggest_known [OF assms(1) _ _ assms(6)]) (use that Inr assms(3) in auto)
  qed (use that err in auto)
  show ?thesis using assms(2,4-6) stored_answer_known suc no_address(1,2)
    by (auto simp: post_address_suggestion_def Let_def split: sum.splits if_splits option.splits prod.splits; blast)
qed

end

lemma postgres_find: "r_find postgres_lights = findById" "r_persist postgres_lights = persistIfMissing"
  by (simp_all add: postgres_lights_def)

lemma known_row: "known postgres_lights db i a \<longleftrightarrow>
    (\<exists>row. light_by_id i db = Some row \<and> presentAddress (lp_address row) = Some a)"
  by (auto simp: known_def postgres_find findById_def)

interpretation postgres: light_repository postgres_lights lights_wf
proof
  fix t inp db db' r j a
  assume wf: "lights_wf db" and p: "r_persist postgres_lights t inp db = Some (db', r)"
  then show "lights_wf db'" using persist_keeps_wf by (simp add: postgres_find)
  assume k: "known postgres_lights db j a"
  show "known postgres_lights db' j a"
  proof (cases r)
    case (Stored b)
    from p have p': "persistIfMissing t inp db = Some (db', Stored b)" using Stored by (simp add: postgres_find)
    have "presentAddress (lp_address row) = None" if "light_by_id (pi_id inp) db = Some row" for row
      by (rule persist_stored [OF p']) (use that in auto)
    then show ?thesis using k persist_found [OF p', of j] light_by_id_Some
      by (fastforce simp: known_row store_address_def)
  qed (use k p persist_not_stored [OF wf, of t inp db' r] in \<open>auto simp: postgres_find\<close>)
next
  fix t inp db db' a
  assume wf: "lights_wf db"
  { assume "r_persist postgres_lights t inp db = Some (db', Stored a)"
    then have p: "persistIfMissing t inp db = Some (db', Stored a)" by (simp add: postgres_find)
    obtain row where row: "light_by_id (pi_id inp) db = Some row" "presentAddress (Some (pi_address inp)) = Some a"
      by (rule persist_stored [OF p])
    then have "presentAddress (Some a) = Some a" using presentAddress_present by blast
    then show "known postgres_lights db' (pi_id inp) a \<and> a = js_trim (pi_address inp)"
      using row persist_found [OF p, of "pi_id inp"] light_by_id_Some [OF row(1)]
      by (auto simp: known_row store_address_def presentAddress_def split: if_splits) }
  { assume "r_persist postgres_lights t inp db = Some (db', Existing a)"
    then show "known postgres_lights db' (pi_id inp) a" using persist_not_stored [OF wf, of t inp db' "Existing a"]
      by (auto simp: postgres_find known_row persistIfMissing_def Let_def split: option.splits if_splits prod.splits) }
  { assume "r_persist postgres_lights t inp db = Some (db', CoordinatesChanged (Some a))"
    then show "known postgres_lights db' (pi_id inp) a" using persist_not_stored [OF wf, of t inp db' "CoordinatesChanged (Some a)"]
      by (auto simp: postgres_find known_row persistIfMissing_def Let_def split: option.splits if_splits prod.splits) }
qed

section \<open>The service area\<close>

text \<open>
  The loaded classifier fails closed: it says inside exactly when the file has the checksum, the
  coordinate system and the axis order its manifest names, is a valid non-empty polygon or
  multipolygon, and the point has valid coordinates, is covered by it and touches no interior ring.
\<close>

theorem service_area_inside:
  "loadServiceAreaArtifact lib sha parse artifact manifest v = Inside \<longleftrightarrow>
     (\<exists>bytes m json g lat lon. artifact = Some bytes \<and> manifest = Some m \<and> manifest_accepts sha m bytes \<and>
        parse bytes = Some json \<and> parseValidBoundary lib json = Some g \<and>
        js_get ''latitude'' v = JNum lat \<and> js_get ''longitude'' v = JNum lon \<and> valid_coordinates lat lon \<and>
        g_covers lib g (lon, lat) = Some True \<and>
        (\<forall>poly \<in> set (polygons lib g). \<forall>hole \<in> set (g_holes lib poly). g_intersects lib hole (lon, lat) = Some False))"
proof -
  have "loadServiceAreaArtifact lib sha parse artifact manifest v = Inside \<longleftrightarrow>
      (\<exists>bytes m json g. artifact = Some bytes \<and> manifest = Some m \<and> manifest_accepts sha m bytes \<and>
        parse bytes = Some json \<and> parseValidBoundary lib json = Some g \<and> classify_point lib g v = Inside)"
    by (auto simp: loadServiceAreaArtifact_def createServiceAreaClassifier_def split: option.splits if_splits)
  then show ?thesis unfolding classify_inside by blast
qed

definition demo_jsts :: "unit jsts" where
  "demo_jsts = \<lparr>g_read = (\<lambda>_. Some ()), g_isEmpty = (\<lambda>_. False), g_area = (\<lambda>_. 1), g_isValid = (\<lambda>_. Some True),
     g_isPolygon = (\<lambda>_. True), g_parts = (\<lambda>_. []), g_holes = (\<lambda>_. []), g_intersects = (\<lambda>_ _. Some False),
     g_covers = (\<lambda>_ _. Some True)\<rparr>"

definition square :: js_value where
  "square = JArr [JArr [JArr [jnat 0, jnat 0], JArr [jnat 1, jnat 0], JArr [jnat 1, jnat 1], JArr [jnat 0, jnat 0]]]"

definition demo_manifest :: js_value where
  "demo_manifest = JObj [(js ''schemaVersion'', jnat 1), (js ''output'', JObj [(js ''crs'', JStr (js ''OGC:CRS84'')),
     (js ''axisOrder'', JStr (js ''longitude,latitude'')), (js ''geojsonSha256'', JStr [7])])]"

theorem service_area_inside_witness:
  "loadServiceAreaArtifact demo_jsts (\<lambda>_. [7]) (\<lambda>_. Some (JObj [(js ''type'', JStr (js ''Polygon'')), (js ''coordinates'', square)]))
     (Some []) (Some demo_manifest) (point_value (Fin 48) (Fin 21)) = Inside"
proof -
  have r: "in_range (Fin 0) a b" "in_range (Fin 1) a b" if "a \<le> 0" "1 \<le> b" for a b using that by (simp_all add: in_range_def)
  have "isPolygonCoordinates square"
    by (simp add: square_def isFinitePosition_def jnat_def same_position_def in_range_def)
  then have "parseValidBoundary demo_jsts (JObj [(js ''type'', JStr (js ''Polygon'')), (js ''coordinates'', square)]) = Some ()"
    by (simp add: parseValidBoundary_def isBoundaryJson_def js_get_def props_def js_def demo_jsts_def)
  moreover have "manifest_accepts (\<lambda>_. [7]) demo_manifest []"
    by (simp add: manifest_accepts_def demo_manifest_def js_get_def props_def js_def jnat_def)
  moreover have "valid_coordinates (Fin 48) (Fin 21)" by (simp add: valid_coordinates_def in_range_def)
  ultimately show ?thesis unfolding service_area_inside by (auto simp: demo_jsts_def polygons_def)
qed

section \<open>The handlers\<close>

lemma resolve_light: "resolveAndValidateReportTarget fc classify (light_target i) = Inr t \<Longrightarrow> t_light t = Some i"
  by (auto simp: resolveAndValidateReportTarget_def resolve_kind_def light_target_def kind_of_def js_get_def props_def js_def
      jnat_def safe_integer_def rat_is_int_def split: sum.splits classification.splits option.splits if_splits)

lemma resolve_point:
  "resolveAndValidateReportTarget fc classify (point_target kind lat lon) = Inr t \<Longrightarrow>
     (kind = js ''custom'' \<or> kind = js ''device'') \<Longrightarrow> t_latitude t = lat \<and> t_longitude t = lon"
  by (auto simp: resolveAndValidateReportTarget_def resolve_kind_def point_target_def kind_of_def js_get_def props_def js_def
      split: sum.splits classification.splits option.splits if_splits)

lemma parse_reverse_texts:
  "parseReverse b = Inr (ReverseCoordinates lat lon kind language) \<Longrightarrow>
     (kind = js ''custom'' \<or> kind = js ''device'') \<and> (language = js ''sk'' \<or> language = js ''en'')"
  "parseReverse b = Inr (ReverseLightPoint i language) \<Longrightarrow> language = js ''sk'' \<or> language = js ''en''"
  by (auto simp: parseReverse_def is_language_def is_point_kind_def the_string_def split: if_splits option.splits js_value.splits)

text \<open>
  C23. The first address of a light point wins: whatever geocoding results are stored later, the row
  keeps the address that readers were given.
\<close>

theorem light_address_first_wins:
  assumes "lights_wf db" and "known postgres_lights db i a"
  shows "\<exists>row. light_by_id i (snd (run_log (persist_step postgres_lights) db es)) = Some row \<and> presentAddress (lp_address row) = Some a"
  using postgres.persist_run_keeps [OF assms, of es] by (simp add: known_row)

definition demo_light :: light_point where
  "demo_light = \<lparr>lp_id = 4, lp_inventory = [65], lp_latitude = Fin 48, lp_longitude = Fin 21, lp_address = Some [66],
     lp_geocoded_at = None, lp_updated_at = 0\<rparr>"

definition demo_lights :: light_db where
  "demo_lights = \<lparr>lights = [demo_light], audits = []\<rparr>"

lemma demo_known: "lights_wf demo_lights" "known postgres_lights demo_lights 4 [66]"
  by (simp_all add: demo_lights_def demo_light_def lights_wf_def known_row light_by_id_def presentAddress_def js_trim_def trim_both_def js_ws_def)

theorem light_address_first_wins_witness:
  "\<exists>row. light_by_id 4 (snd (run_log (persist_step postgres_lights) demo_lights
       [(9, \<lparr>pi_id = 4, pi_latitude = Fin 48, pi_longitude = Fin 21, pi_address = [67]\<rparr>)])) = Some row \<and>
     presentAddress (lp_address row) = Some [66]"
  by (rule light_address_first_wins [OF demo_known])

text \<open>
  C24. The provider is asked only for a location inside the service area, with a request that the
  service accepts as valid, and only after the limiter allowed the client.
\<close>

theorem provider_asked_inside:
  assumes "vr_request (post_address_suggestion ask limit classify rp env secret v b l db) = Some q"
  shows "validateRequest q \<and> classify (point_value (q_latitude q) (q_longitude q)) = Inside \<and> snd (limit (v_ip v) l) = Allowed"
proof -
  obtain inp t where inp: "parseReverse b = Inr inp"
    and t: "resolveAndValidateReportTarget (coordinates_of rp (v_coordinates_db v)) classify (reverse_target inp) = Inr t"
    and q: "q = reverse_request inp t" and lim: "applyRateLimit (snd (limit (v_ip v) l)) True = None"
    using assms by (auto simp: post_address_suggestion_def Let_def split: sum.splits reverse_error.splits if_splits option.splits prod.splits)
  have "snd (limit (v_ip v) l) = Allowed" using lim by (auto simp: applyRateLimit_def Let_def split: limit_result.splits)
  then show ?thesis using resolved_inside(1,2) [OF t] q parse_reverse_texts inp
    by (cases inp) (auto simp: reverse_request_def validateRequest_def)
qed

definition demo_body :: js_value where
  "demo_body = JObj [(js ''latitude'', JNum (Fin 48)), (js ''longitude'', JNum (Fin 17)), (js ''targetKind'', JStr (js ''custom'')),
     (js ''language'', JStr (js ''sk''))]"

definition demo_light_body :: js_value where
  "demo_light_body = JObj [(js ''targetKind'', JStr (js ''light-point'')), (js ''lightPointId'', jnat 4), (js ''language'', JStr (js ''sk''))]"

definition demo_visit :: "light_db visit" where
  "demo_visit = \<lparr>v_ip = [], v_coordinates_db = Some demo_lights, v_gone_resolved = False, v_find_db = Some demo_lights,
     v_gone_suggested = False, v_persist_fails = False, v_clock = 0\<rparr>"

definition demo_ask :: "address_request \<Rightarrow> suggest_failure + suggestion option" where
  "demo_ask q = Inr (Some \<lparr>sg_address = [65], sg_locality = None\<rparr>)"

abbreviation demo_post :: "js_value \<Rightarrow> (unit, light_db) visit_result" where
  "demo_post b \<equiv> post_address_suggestion demo_ask (\<lambda>_ l. (l, Allowed)) (\<lambda>_. Inside) postgres_lights demo_env [1] demo_visit b () demo_lights"

lemma demo_parsed_body:
  "parseReverse demo_body = Inr (ReverseCoordinates (Fin 48) (Fin 17) (js ''custom'') (js ''sk''))"
  "parseReverse demo_light_body = Inr (ReverseLightPoint 4 (js ''sk''))"
  by (simp_all add: parseReverse_def demo_body_def demo_light_body_def isRecord_def js_get_def props_def js_def fieldsAreExact_def
      has_own_def is_point_kind_def is_language_def the_string_def positive_id_def jnat_def safe_integer_def rat_is_int_def
      valid_coordinates_def in_range_def)

lemma demo_resolved:
  "resolveAndValidateReportTarget fc (\<lambda>_. Inside) (point_target (js ''custom'') (Fin 48) (Fin 17)) =
     Inr \<lparr>t_kind = CustomKind, t_latitude = Fin 48, t_longitude = Fin 17, t_light = None\<rparr>"
  by (simp add: resolveAndValidateReportTarget_def resolve_kind_def point_target_def kind_of_def js_get_def props_def js_def
      isRecord_def has_own_def valid_coordinates_def in_range_def)

lemma demo_resolved_light:
  "resolveAndValidateReportTarget (coordinates_of postgres_lights (Some demo_lights)) (\<lambda>_. Inside) (light_target 4) =
     Inr \<lparr>t_kind = LightPointKind, t_latitude = Fin 48, t_longitude = Fin 21, t_light = Some 4\<rparr>"
  by (simp add: resolveAndValidateReportTarget_def resolve_kind_def light_target_def kind_of_def js_get_def props_def js_def
      isRecord_def has_own_def valid_coordinates_def in_range_def jnat_def safe_integer_def rat_is_int_def coordinates_of_def
      postgres_lights_def findCoordinates_def light_by_id_def demo_lights_def demo_light_def)

lemma demo_found: "findById demo_lights 4 = Some \<lparr>as_latitude = Fin 48, as_longitude = Fin 21, as_address = Some [66]\<rparr>"
  by (simp add: findById_def light_by_id_def demo_lights_def demo_light_def presentAddress_def js_trim_def trim_both_def js_ws_def)

lemma demo_signed: "\<exists>p. createReportAddressProof demo_env [65] kind (Fin 48) (Fin 17) [1] = Some p"
  by (simp add: createReportAddressProof_def Let_def demo_env_def normalizeReportAddress_def sep_char_def js_ws_def js_trim_def trim_both_def)

lemma demo_outcome: "\<exists>p. vr_outcome (demo_post demo_body) =
      data_reply (JObj [(js ''address'', JStr [65]), (js ''proof'', JStr p)]) \<and>
    vr_request (demo_post demo_body) = Some \<lparr>q_latitude = Fin 48, q_longitude = Fin 17, q_targetKind = js ''custom'', q_language = js ''sk''\<rparr>"
proof -
  obtain p where "createReportAddressProof demo_env [65] (js ''custom'') (Fin 48) (Fin 17) [1] = Some p" using demo_signed by blast
  then show ?thesis
    by (auto simp: post_address_suggestion_def demo_parsed_body demo_resolved demo_visit_def applyRateLimit_def reverse_request_def
        after_suggest_def demo_ask_def final_answer_def suggestion_fields_def)
qed

theorem provider_asked_inside_witness:
  "\<exists>q. vr_request (demo_post demo_body) = Some q \<and> validateRequest q"
  using provider_asked_inside [of demo_ask "\<lambda>_ l. (l, Allowed)" "\<lambda>_. Inside" postgres_lights demo_env "[1]" demo_visit demo_body "()" demo_lights]
    demo_outcome by blast

text \<open>
  What a caller is told about a light point is the stored address: an answer that carries an
  address for light point \<open>i\<close> carries the one its row has, in the state the handler read or in the
  state it leaves.
\<close>

theorem light_answer_is_stored:
  assumes "lights_wf db" and "parseReverse b = Inr (ReverseLightPoint i language)"
    and "\<And>q sg. ask q = Inr (Some sg) \<Longrightarrow> js_trim (sg_address sg) = sg_address sg \<and> sg_address sg \<noteq> []"
    and "post_address_suggestion ask limit classify postgres_lights env secret v b l db = res"
    and "vr_outcome res = Answered r" and "answer_address r = JStr a"
  shows "\<exists>seen row. (seen = vr_db res \<or> v_find_db v = Some seen) \<and> light_by_id i seen = Some row \<and>
    presentAddress (lp_address row) = Some a"
  using postgres.light_answer_known [OF assms(1,2) _ assms(4,5,6)] assms(3) unfolding known_row by blast

theorem light_answer_is_stored_witness:
  "\<exists>seen row. (seen = vr_db (demo_post demo_light_body) \<or> v_find_db demo_visit = Some seen) \<and> light_by_id 4 seen = Some row \<and>
    presentAddress (lp_address row) = Some [66]"
proof (rule light_answer_is_stored [OF demo_known(1) demo_parsed_body(2) _ refl])
  show "vr_outcome (demo_post demo_light_body) = Answered \<lparr>status = 200, no_store = False, retry_header = None,
      body = JObj [(js ''success'', JBool True), (js ''data'', JObj [(js ''address'', JStr [66])])]\<rparr>"
    by (simp add: post_address_suggestion_def demo_parsed_body demo_resolved_light demo_visit_def stored_answer_def postgres_find
        demo_found address_reply_def data_reply_def reply_def)
qed (simp_all add: demo_ask_def js_trim_def trim_both_def js_ws_def answer_address_def js_get_def props_def js_def)

text \<open>
  An address answered for chosen coordinates comes with a proof, and the proof is accepted for
  that address, kind and coordinates.
\<close>

theorem coordinate_answer_proved:
  assumes "parseReverse b = Inr (ReverseCoordinates lat lon kind language)" and "\<And>k m. length (p_hmac env k m) = 32"
    and "\<And>q sg. ask q = Inr (Some sg) \<Longrightarrow> sg_address sg \<noteq> []"
    and "vr_outcome (post_address_suggestion ask limit classify rp env secret v b l db) = Answered r" and "answer_address r = JStr a"
  shows "\<exists>p. js_get ''proof'' (js_get ''data'' (body r)) = JStr p \<and> verifyReportAddressProof env a kind lat lon p secret"
proof -
  let ?inp = "ReverseCoordinates lat lon kind language"
  obtain t where t: "resolveAndValidateReportTarget (coordinates_of rp (v_coordinates_db v)) classify (reverse_target ?inp) = Inr t"
    and out: "\<exists>db1. after_suggest env secret rp v ?inp t (ask (reverse_request ?inp t)) db = (db1, Answered r)"
    using assms(1,4,5) postgres.no_address(1,2)
    by (auto simp: post_address_suggestion_def Let_def split: sum.splits if_splits option.splits prod.splits)
  have coords: "t_latitude t = lat" "t_longitude t = lon" using resolve_point [of _ _ kind lat lon t] t parse_reverse_texts(1) [OF assms(1)] by auto
  obtain sg where sg: "ask (reverse_request ?inp t) = Inr (Some sg)" "final_answer env secret ?inp t (Some sg) = Answered r"
    using out assms(5) postgres.no_address(4)
    by (auto simp: after_suggest_def final_answer_def data_reply_def reply_def answer_address_def js_get_def props_def js_def
        split: if_splits sum.splits suggest_failure.splits option.splits)
  obtain p where p: "createReportAddressProof env (sg_address sg) kind lat lon secret = Some p"
    and r: "Answered r = data_reply (JObj (suggestion_fields sg @ [(js ''proof'', JStr p)]))"
    using sg(2) assms(3) [OF sg(1)] coords by (auto simp: final_answer_def split: option.splits)
  have "a = sg_address sg" "js_get ''proof'' (js_get ''data'' (body r)) = JStr p"
    using r assms(5) by (auto simp: data_reply_def reply_def suggestion_fields_def answer_address_def js_get_def props_def js_def split: option.splits)
  then show ?thesis using verify_created [OF p assms(2)] create_proof_Some(1) [OF p] proof_shape_base64 assms(2) by simp
qed

theorem coordinate_answer_proved_witness:
  "\<exists>r p. vr_outcome (demo_post demo_body) = Answered r \<and> js_get ''proof'' (js_get ''data'' (body r)) = JStr p \<and>
    verifyReportAddressProof demo_env [65] (js ''custom'') (Fin 48) (Fin 17) p [1]"
proof -
  obtain r where r: "vr_outcome (demo_post demo_body) = Answered r" "answer_address r = JStr [65]"
    using demo_outcome by (auto simp: data_reply_def reply_def answer_address_def js_get_def props_def js_def)
  show ?thesis using coordinate_answer_proved [OF demo_parsed_body(1) _ _ r] r(1)
    by (auto simp: demo_env_def demo_ask_def)
qed

end
