(* ===== verification/LightAdmin.thy ===== *)
theory LightAdmin
  imports LightInventory ServiceArea ApiErrors
begin

text \<open>
  The administration of the light points, \<^verbatim>\<open>services/lightPoints.service.ts\<close>: creation, change and
  deletion with their audit events, automatic addresses, and what the map of the public application reads.

  A mutation is one transaction on a row it locks, so it is one step here; an automatic address is
  fetched between two of them, so \<open>ensureLightPointAddress\<close> is a sequence of phases that interleave
  with everything else.  The address service is an input.  The text of a coordinate is represented by the
  number it reads back as; \<^verbatim>\<open>String\<close> and the parameters of a statement write a negative zero as
  \<^verbatim>\<open>0\<close>.  Inputs have the declared types of \<^verbatim>\<open>types/lightPoint.ts\<close>.
\<close>

section \<open>Tables\<close>

record light_row =
  lr_row :: inventory_row
  lr_geocoded :: "int option"

datatype audit_action = AuditCreate | AuditUpdate | AuditDelete

datatype audit_value = NullValue | TextValue jsstring | CoordinateValue js_number | PointValue js_number js_number

type_synonym audit_changes = "(string \<times> audit_value \<times> audit_value) list"

record light_audit =
  al_actor :: "int option"
  al_username :: "jsstring option"
  al_entity :: int
  al_number :: jsstring
  al_action :: audit_action
  al_batch :: "int option"
  al_changes :: audit_changes

record lights_db =
  ls_rows :: "light_row list"
  ls_audits :: "light_audit list"
  ls_next :: int

record light_env =
  le_nfc :: "jsstring \<Rightarrow> jsstring"
  le_auto :: bool

record sql_ambient =
  sa_now :: int
  sa_connects :: bool
  sa_fate :: statement_fate
  sa_gap :: nat

record light_actor =
  la_id :: "int option"
  la_name :: "jsstring option"
  la_batch :: "int option"

definition light_id :: "light_row \<Rightarrow> int" where
  "light_id r = iv_id (lr_row r)"

definition light_of :: "int \<Rightarrow> lights_db \<Rightarrow> light_row option" where
  "light_of i db = find (\<lambda>r. light_id r = i) (ls_rows db)"

text \<open>\<^verbatim>\<open>withTransaction\<close>: \<open>work\<close> is the transaction up to its \<^verbatim>\<open>COMMIT\<close>; what it throws leaves nothing behind.\<close>

definition withTransaction :: "sql_ambient \<Rightarrow> (lights_db \<Rightarrow> api_error + (lights_db \<times> 'a)) \<Rightarrow> lights_db \<Rightarrow>
    lights_db \<times> (api_error + 'a)" where
  "withTransaction am work db =
     (if \<not> sa_connects am \<or> sa_fate am = NotExecuted then (db, Inl OtherError)
      else case work db of
        Inl e \<Rightarrow> (db, Inl e)
      | Inr (db', x) \<Rightarrow> (db', if sa_fate am = Executed then Inr x else Inl OtherError))"

section \<open>Fields and audit events\<close>

definition text_value :: "jsstring option \<Rightarrow> audit_value" where
  "text_value v = (case v of None \<Rightarrow> NullValue | Some s \<Rightarrow> TextValue s)"

definition light_fields :: "inventory_row \<Rightarrow> (string \<times> audit_value) list" where
  "light_fields r =
     [(''inventory_number'', TextValue (iv_number r)), (''external_id'', text_value (iv_external r)),
      (''longitude'', CoordinateValue (iv_longitude r)), (''latitude'', CoordinateValue (iv_latitude r)),
      (''address'', text_value (iv_address r)), (''district'', text_value (iv_district r)),
      (''lamp_type'', text_value (iv_lamp r)), (''status'', TextValue (status_text (iv_status r)))]"

fun same_value :: "audit_value \<Rightarrow> audit_value \<Rightarrow> bool" where
  "same_value (CoordinateValue a) (CoordinateValue b) = number_eq a b"
| "same_value v w = (v = w)"

definition safeChangedFields :: "inventory_row \<Rightarrow> inventory_row \<Rightarrow> audit_changes" where
  "safeChangedFields before after =
     map (\<lambda>((k, v), (k', w)). (k, v, w))
       (filter (\<lambda>((k, v), (k', w)). \<not> same_value v w) (zip (light_fields before) (light_fields after)))"

definition audit_of :: "light_actor \<Rightarrow> audit_action \<Rightarrow> int \<Rightarrow> jsstring \<Rightarrow> audit_changes \<Rightarrow> light_audit" where
  "audit_of who action i number changes =
     \<lparr>al_actor = la_id who, al_username = la_name who, al_entity = i, al_number = number, al_action = action,
      al_batch = la_batch who, al_changes = changes\<rparr>"

definition insertAudit :: "light_audit \<Rightarrow> lights_db \<Rightarrow> lights_db" where
  "insertAudit a db = db\<lparr>ls_audits := ls_audits db @ [a]\<rparr>"

section \<open>Creation\<close>

record create_light =
  cl_number :: jsstring
  cl_external :: "jsstring option"
  cl_longitude :: js_number
  cl_latitude :: js_number
  cl_address :: "jsstring option"
  cl_district :: "jsstring option"
  cl_lamp :: "jsstring option"
  cl_status :: "light_status option"

definition normalizeIdentity :: "light_env \<Rightarrow> jsstring \<Rightarrow> api_error + jsstring" where
  "normalizeIdentity env s =
     (let identity = canonicalizeInventoryNumber (le_nfc env) s in
      if identity = [] then Inl (AppError 400 ''Inventory number is required'') else Inr identity)"

definition number_taken :: "int \<Rightarrow> jsstring \<Rightarrow> lights_db \<Rightarrow> bool" where
  "number_taken i s db = list_ex (\<lambda>r. light_id r \<noteq> i \<and> iv_number (lr_row r) = s) (ls_rows db)"

definition created_row :: "sql_ambient \<Rightarrow> int \<Rightarrow> jsstring \<Rightarrow> create_light \<Rightarrow> inventory_row" where
  "created_row am i number inp =
     \<lparr>iv_id = i, iv_number = number, iv_external = cl_external inp, iv_longitude = no_negative_zero (cl_longitude inp),
      iv_latitude = no_negative_zero (cl_latitude inp), iv_address = cl_address inp, iv_district = cl_district inp,
      iv_lamp = cl_lamp inp, iv_status = (case cl_status inp of None \<Rightarrow> Active | Some st \<Rightarrow> st),
      iv_created = sa_now am, iv_updated = sa_now am\<rparr>"

definition create_work :: "light_env \<Rightarrow> sql_ambient \<Rightarrow> light_actor \<Rightarrow> jsstring \<Rightarrow> create_light \<Rightarrow> lights_db \<Rightarrow>
    api_error + (lights_db \<times> inventory_row)" where
  "create_work env am who number inp db =
     (let i = ls_next db + int (sa_gap am); r = created_row am i number inp in
      if light_point_error (le_nfc env) r \<noteq> None \<or> number_taken i number db then Inl OtherError
      else Inr (insertAudit (audit_of who AuditCreate i number (map (\<lambda>(k, v). (k, NullValue, v)) (light_fields r)))
          (db\<lparr>ls_rows := ls_rows db @ [\<lparr>lr_row = r, lr_geocoded = None\<rparr>], ls_next := i + 1\<rparr>), r))"

definition createLightPoint :: "light_env \<Rightarrow> sql_ambient \<Rightarrow> light_actor \<Rightarrow> create_light \<Rightarrow> lights_db \<Rightarrow>
    lights_db \<times> (api_error + inventory_row)" where
  "createLightPoint env am who inp db =
     (case normalizeIdentity env (cl_number inp) of
        Inl e \<Rightarrow> (db, Inl e)
      | Inr number \<Rightarrow> withTransaction am (create_work env am who number inp) db)"

section \<open>Change\<close>

text \<open>A field that is not given is kept; a given null clears a text.\<close>

record update_light =
  ul_number :: "jsstring option"
  ul_external :: "jsstring option option"
  ul_longitude :: "js_number option"
  ul_latitude :: "js_number option"
  ul_address :: "jsstring option option"
  ul_district :: "jsstring option option"
  ul_lamp :: "jsstring option option"
  ul_status :: "light_status option"

definition given_or :: "'a option \<Rightarrow> 'a \<Rightarrow> 'a" where
  "given_or v old = (case v of None \<Rightarrow> old | Some x \<Rightarrow> x)"

definition next_row :: "light_env \<Rightarrow> update_light \<Rightarrow> inventory_row \<Rightarrow> api_error + inventory_row" where
  "next_row env inp r =
     (case (case ul_number inp of None \<Rightarrow> Inr (iv_number r) | Some s \<Rightarrow> normalizeIdentity env s) of
        Inl e \<Rightarrow> Inl e
      | Inr number \<Rightarrow> Inr (r\<lparr>
          iv_number := number, iv_external := given_or (ul_external inp) (iv_external r),
          iv_latitude := no_negative_zero (given_or (ul_latitude inp) (iv_latitude r)),
          iv_longitude := no_negative_zero (given_or (ul_longitude inp) (iv_longitude r)),
          iv_address := given_or (ul_address inp) (iv_address r), iv_district := given_or (ul_district inp) (iv_district r),
          iv_lamp := given_or (ul_lamp inp) (iv_lamp r), iv_status := given_or (ul_status inp) (iv_status r)\<rparr>))"

text \<open>The number of a request path: a positive safe integer; the column holds 32 bits.\<close>

definition path_id :: "js_number \<Rightarrow> int option" where
  "path_id n = (case safe_integer n of None \<Rightarrow> None | Some i \<Rightarrow> if i \<le> 0 then None else Some i)"

definition int4 :: "int \<Rightarrow> bool" where
  "int4 i \<longleftrightarrow> i \<le> 2147483647"

definition coords_changed :: "inventory_row \<Rightarrow> inventory_row \<Rightarrow> bool" where
  "coords_changed old new \<longleftrightarrow>
     \<not> number_eq (iv_latitude old) (iv_latitude new) \<or> \<not> number_eq (iv_longitude old) (iv_longitude new)"

definition replace_light :: "int \<Rightarrow> (light_row \<Rightarrow> light_row) \<Rightarrow> lights_db \<Rightarrow> lights_db" where
  "replace_light i f db = db\<lparr>ls_rows := fst (sql_update (\<lambda>r. light_id r = i) f (ls_rows db))\<rparr>"

definition update_work :: "light_env \<Rightarrow> sql_ambient \<Rightarrow> light_actor \<Rightarrow> int \<Rightarrow> update_light \<Rightarrow> lights_db \<Rightarrow>
    api_error + (lights_db \<times> inventory_row)" where
  "update_work env am who i inp db =
     (if \<not> int4 i then Inl OtherError
      else case light_of i db of
        None \<Rightarrow> Inl (AppError 404 ''Light point not found'')
      | Some l \<Rightarrow>
          (case next_row env inp (lr_row l) of
             Inl e \<Rightarrow> Inl e
           | Inr new \<Rightarrow>
               (let changes = safeChangedFields (lr_row l) new; r = new\<lparr>iv_updated := sa_now am\<rparr> in
                if changes = [] then Inr (db, lr_row l)
                else if light_point_error (le_nfc env) r \<noteq> None \<or> number_taken i (iv_number r) db then Inl OtherError
                else Inr (insertAudit (audit_of who AuditUpdate i (iv_number r) changes)
                  (replace_light i (\<lambda>q. \<lparr>lr_row = r, lr_geocoded = (if coords_changed (lr_row l) new then None else lr_geocoded q)\<rparr>) db), r))))"

definition updateLightPoint :: "light_env \<Rightarrow> sql_ambient \<Rightarrow> light_actor \<Rightarrow> js_number \<Rightarrow> update_light \<Rightarrow> lights_db \<Rightarrow>
    lights_db \<times> (api_error + inventory_row)" where
  "updateLightPoint env am who n inp db =
     (case path_id n of
        None \<Rightarrow> (db, Inl (AppError 400 ''Invalid light point id''))
      | Some i \<Rightarrow> withTransaction am (update_work env am who i inp) db)"

section \<open>Deletion\<close>

definition delete_changes :: "inventory_row \<Rightarrow> audit_changes" where
  "delete_changes r =
     [(''inventory_number'', TextValue (iv_number r), NullValue), (''external_id'', text_value (iv_external r), NullValue),
      (''geom'', PointValue (iv_longitude r) (iv_latitude r), NullValue), (''address'', text_value (iv_address r), NullValue)]"

definition delete_work :: "light_actor \<Rightarrow> int \<Rightarrow> lights_db \<Rightarrow> api_error + (lights_db \<times> int)" where
  "delete_work who i db =
     (if \<not> int4 i then Inl OtherError
      else case light_of i db of
        None \<Rightarrow> Inl (AppError 404 ''Street light not found'')
      | Some l \<Rightarrow>
          (let db1 = insertAudit (audit_of who AuditDelete i (iv_number (lr_row l)) (delete_changes (lr_row l))) db in
           Inr (db1\<lparr>ls_rows := filter (\<lambda>r. light_id r \<noteq> i) (ls_rows db1)\<rparr>, i)))"

definition deleteLightPoint :: "sql_ambient \<Rightarrow> light_actor \<Rightarrow> js_number \<Rightarrow> lights_db \<Rightarrow> lights_db \<times> (api_error + int)" where
  "deleteLightPoint am who n db =
     (case path_id n of
        None \<Rightarrow> (db, Inl (AppError 400 ''Invalid light point id''))
      | Some i \<Rightarrow> withTransaction am (delete_work who i) db)"

section \<open>Automatic addresses\<close>

text \<open>
  \<^verbatim>\<open>ensureLightPointAddress\<close>: a snapshot of the row, the address service, and a transaction that
  stores the address when the row still has the position and address of the snapshot.
\<close>

record light_snapshot =
  gs_light :: int
  gs_latitude :: js_number
  gs_longitude :: js_number
  gs_address :: "jsstring option"

datatype geocode_phase = FetchAddress light_snapshot bool bool | AddressDone "api_error + jsstring option"

definition ensure_begin :: "light_env \<Rightarrow> statement_fate \<Rightarrow> int \<Rightarrow> bool \<Rightarrow> bool \<Rightarrow> lights_db \<Rightarrow> geocode_phase" where
  "ensure_begin env fate i forced manual db =
     (if fate \<noteq> Executed \<or> \<not> int4 i then AddressDone (Inl OtherError)
      else if \<not> le_auto env \<and> \<not> forced \<and> \<not> manual then
        AddressDone (Inr (case light_of i db of None \<Rightarrow> None | Some l \<Rightarrow> iv_address (lr_row l)))
      else case light_of i db of
        None \<Rightarrow> AddressDone (Inl (AppError 404 ''Light point not found''))
      | Some l \<Rightarrow>
          if \<not> forced \<and> lr_geocoded l \<noteq> None then AddressDone (Inr (iv_address (lr_row l)))
          else FetchAddress \<lparr>gs_light = i, gs_latitude = iv_latitude (lr_row l), gs_longitude = iv_longitude (lr_row l),
            gs_address = iv_address (lr_row l)\<rparr> forced manual)"

definition system_actor :: "bool \<Rightarrow> light_actor" where
  "system_actor manual =
     \<lparr>la_id = None, la_name = Some (if manual then js ''system:maintenance-geocoding'' else js ''system:automatic-geocoding''),
      la_batch = None\<rparr>"

definition store_work :: "sql_ambient \<Rightarrow> light_snapshot \<Rightarrow> bool \<Rightarrow> bool \<Rightarrow> jsstring \<Rightarrow> lights_db \<Rightarrow>
    api_error + (lights_db \<times> jsstring option)" where
  "store_work am snap forced manual address db =
     (case light_of (gs_light snap) db of
        None \<Rightarrow> Inl (AppError 404 ''Light point not found'')
      | Some l \<Rightarrow>
          (let current = iv_address (lr_row l) in
           if \<not> number_eq (iv_latitude (lr_row l)) (gs_latitude snap) \<or> \<not> number_eq (iv_longitude (lr_row l)) (gs_longitude snap) \<or>
              current \<noteq> gs_address snap \<or> \<not> forced \<and> lr_geocoded l \<noteq> None \<or> current = Some address
           then Inr (db, current)
           else Inr (insertAudit (audit_of (system_actor manual) AuditUpdate (gs_light snap) (iv_number (lr_row l))
                 [(''address'', text_value current, TextValue address)])
               (replace_light (gs_light snap)
                 (\<lambda>q. \<lparr>lr_row = (lr_row q)\<lparr>iv_address := Some address, iv_updated := sa_now am\<rparr>, lr_geocoded = Some (sa_now am)\<rparr>) db),
               Some address)))"

definition ensure_store :: "sql_ambient \<Rightarrow> light_snapshot \<Rightarrow> bool \<Rightarrow> bool \<Rightarrow> api_error + jsstring \<Rightarrow> lights_db \<Rightarrow>
    lights_db \<times> geocode_phase" where
  "ensure_store am snap forced manual fetched db =
     (case fetched of
        Inl e \<Rightarrow> (db, AddressDone (Inl e))
      | Inr address \<Rightarrow>
          (case withTransaction am (store_work am snap forced manual address) db of (db', r) \<Rightarrow> (db', AddressDone r)))"

text \<open>The light points that \<^verbatim>\<open>geocodePendingLightPoints\<close> asks for, one after the other.\<close>

definition pending_lights :: "light_env \<Rightarrow> bool \<Rightarrow> lights_db \<Rightarrow> int list" where
  "pending_lights env manual db =
     (if \<not> le_auto env \<and> \<not> manual then [] else sort (map light_id (filter (\<lambda>l. lr_geocoded l = None) (ls_rows db))))"

text \<open>\<^verbatim>\<open>applyOptionalAutomaticAddressEnrichment\<close>: the answer of a mutation with the address, or without on any failure.\<close>

definition enriched :: "inventory_row \<Rightarrow> api_error + jsstring option \<Rightarrow> inventory_row" where
  "enriched r result = (case result of Inl e \<Rightarrow> r | Inr a \<Rightarrow> r\<lparr>iv_address := a\<rparr>)"

section \<open>Reading\<close>

definition getAllLightPoints :: "lights_db \<Rightarrow> inventory_row list" where
  "getAllLightPoints db = sort_key iv_id (map lr_row (ls_rows db))"

definition getLightPointById :: "js_number \<Rightarrow> lights_db \<Rightarrow> api_error + inventory_row option" where
  "getLightPointById n db =
     (case path_id n of
        None \<Rightarrow> Inr None
      | Some i \<Rightarrow> if int4 i then Inr (map_option lr_row (light_of i db)) else Inl OtherError)"

text \<open>The closed rectangle of \<^verbatim>\<open>ST_MakeEnvelope\<close> and the order of the answer.\<close>

definition number_le :: "js_number \<Rightarrow> js_number \<Rightarrow> bool" where
  "number_le a b = (case (num_value a, num_value b) of (Some x, Some y) \<Rightarrow> x \<le> y | _ \<Rightarrow> False)"

fun valid_viewport :: "js_number list \<Rightarrow> bool" where
  "valid_viewport [west, south, east, north] =
     (list_all (\<lambda>v. num_value v \<noteq> None) [west, south, east, north] \<and>
      \<not> (\<not> number_le (Fin (-180)) west \<or> \<not> number_le east (Fin 180) \<or> \<not> number_le (Fin (-90)) south \<or>
         \<not> number_le north (Fin 90) \<or> number_le east west \<or> number_le north south))"
| "valid_viewport _ = False"

definition in_viewport :: "js_number list \<Rightarrow> inventory_row \<Rightarrow> bool" where
  "in_viewport bbox r \<longleftrightarrow>
     number_le (bbox ! 0) (iv_longitude r) \<and> number_le (iv_longitude r) (bbox ! 2) \<and>
     number_le (bbox ! 1) (iv_latitude r) \<and> number_le (iv_latitude r) (bbox ! 3)"

definition getLightPointsInViewport :: "js_number list \<Rightarrow> lights_db \<Rightarrow> api_error + inventory_row list" where
  "getLightPointsInViewport bbox db =
     (if \<not> valid_viewport bbox then Inl (AppError 400 ''Invalid viewport bounds'')
      else Inr (sort_key (\<lambda>r. (code_points (iv_number r), iv_id r)) (filter (in_viewport bbox) (map lr_row (ls_rows db)))))"

section \<open>The system\<close>

text \<open>Mutations, and the phases of address requests that are under way; a mutation begins one after it committed.\<close>

record light_state =
  st_db :: lights_db
  st_tasks :: "geocode_phase list"

datatype light_event =
  CreateLight sql_ambient light_actor create_light
| UpdateLight sql_ambient light_actor js_number update_light
| DeleteLight sql_ambient light_actor js_number
| EnsureAddress statement_fate int bool bool
| StoreAddress sql_ambient nat "api_error + jsstring"

datatype light_outcome =
  LightAnswer "api_error + inventory_row"
| LightDeleted "api_error + int"
| AddressPhase geocode_phase
| NoAddressTask

fun light_step :: "light_env \<Rightarrow> light_state \<Rightarrow> light_event \<Rightarrow> light_state \<times> light_outcome" where
  "light_step env st (CreateLight am who inp) =
     (let (db, r) = createLightPoint env am who inp (st_db st) in (st\<lparr>st_db := db\<rparr>, LightAnswer r))"
| "light_step env st (UpdateLight am who n inp) =
     (let (db, r) = updateLightPoint env am who n inp (st_db st) in (st\<lparr>st_db := db\<rparr>, LightAnswer r))"
| "light_step env st (DeleteLight am who n) =
     (let (db, r) = deleteLightPoint am who n (st_db st) in (st\<lparr>st_db := db\<rparr>, LightDeleted r))"
| "light_step env st (EnsureAddress fate i forced manual) =
     (let ph = ensure_begin env fate i forced manual (st_db st) in (st\<lparr>st_tasks := st_tasks st @ [ph]\<rparr>, AddressPhase ph))"
| "light_step env st (StoreAddress am k fetched) =
     (if k < length (st_tasks st)
      then (case st_tasks st ! k of
          FetchAddress snap forced manual \<Rightarrow>
            (let (db, ph) = ensure_store am snap forced manual fetched (st_db st) in
             (\<lparr>st_db = db, st_tasks = (st_tasks st)[k := ph]\<rparr>, AddressPhase ph))
        | AddressDone r \<Rightarrow> (st, NoAddressTask))
      else (st, NoAddressTask))"

definition no_lights :: lights_db where
  "no_lights = \<lparr>ls_rows = [], ls_audits = [], ls_next = 1\<rparr>"

end
