(* ===== verification/LightAdminSafety.thy ===== *)
theory LightAdminSafety
  imports LightAdmin
begin

text \<open>
  What every operation on the light points keeps: the constraints of the table (\<open>lights_ok\<close>), and the
  audit trail (\<open>audited\<close>): replaying the events gives the inventory, and the values an event calls
  "before" are those the trail had reached.
\<close>

section \<open>The trail\<close>

type_synonym field_map = "string \<Rightarrow> audit_value option"

definition changes_map :: "audit_changes \<Rightarrow> field_map" where
  "changes_map cs = map_of (map (\<lambda>(k, v, w). (k, w)) cs)"

definition apply_audit :: "light_audit \<Rightarrow> (int \<Rightarrow> field_map option) \<Rightarrow> int \<Rightarrow> field_map option" where
  "apply_audit a m =
     m(al_entity a :=
       (case al_action a of
          AuditCreate \<Rightarrow> Some (changes_map (al_changes a))
        | AuditUpdate \<Rightarrow> map_option (\<lambda>f. f ++ changes_map (al_changes a)) (m (al_entity a))
        | AuditDelete \<Rightarrow> None))"

definition replay :: "light_audit list \<Rightarrow> int \<Rightarrow> field_map option" where
  "replay as = fold apply_audit as Map.empty"

definition before_ok :: "light_audit \<Rightarrow> (int \<Rightarrow> field_map option) \<Rightarrow> bool" where
  "before_ok a m \<longleftrightarrow>
     (case m (al_entity a) of
        None \<Rightarrow> al_action a = AuditCreate \<and> list_all (\<lambda>(k, v, w). v = NullValue) (al_changes a)
      | Some f \<Rightarrow> al_action a \<noteq> AuditCreate \<and> list_all (\<lambda>(k, v, w). k = ''geom'' \<or> f k = Some v) (al_changes a))"

fun audit_chain :: "(int \<Rightarrow> field_map option) \<Rightarrow> light_audit list \<Rightarrow> bool" where
  "audit_chain m [] = True"
| "audit_chain m (a # as) = (before_ok a m \<and> audit_chain (apply_audit a m) as)"

lemma replay_snoc [simp]: "replay (as @ [a]) = apply_audit a (replay as)"
  by (simp add: replay_def)

lemma audit_chain_snoc: "audit_chain m (as @ [a]) \<longleftrightarrow> audit_chain m as \<and> before_ok a (fold apply_audit as m)"
  by (induction as arbitrary: m) auto

definition inventory_view :: "lights_db \<Rightarrow> int \<Rightarrow> field_map option" where
  "inventory_view db i = map_option (\<lambda>l. map_of (light_fields (lr_row l))) (light_of i db)"

definition audited :: "lights_db \<Rightarrow> bool" where
  "audited db \<longleftrightarrow> replay (ls_audits db) = inventory_view db \<and> audit_chain Map.empty (ls_audits db)"

text \<open>An operation that writes one event keeps the trail when the event says what happened to the view.\<close>

lemma audited_step:
  assumes "audited db" and "ls_audits db' = ls_audits db @ [a]" and "before_ok a (inventory_view db)"
    and "inventory_view db' = apply_audit a (inventory_view db)"
  shows "audited db'"
proof -
  have "fold apply_audit (ls_audits db) Map.empty = inventory_view db" using assms(1) by (simp add: audited_def replay_def)
  then show ?thesis using assms by (simp add: audited_def audit_chain_snoc)
qed

section \<open>Changed fields\<close>

lemma changed_fields_map:
  assumes "map fst xs = map fst ys" and "distinct (map fst xs)"
    and "list_all2 (\<lambda>x y. same_value (snd x) (snd y) \<longrightarrow> snd x = snd y) xs ys"
  shows "map_of xs ++ changes_map (map (\<lambda>((k, v), (k', w)). (k, v, w)) (filter (\<lambda>((k, v), (k', w)). \<not> same_value v w) (zip xs ys))) = map_of ys"
    (is "map_of xs ++ changes_map (?d xs ys) = map_of ys")
proof -
  have "length xs = length ys" using assms(1) by (metis length_map)
  then show ?thesis using assms
  proof (induction xs ys rule: list_induct2)
    case Nil
    then show ?case by (simp add: changes_map_def)
  next
    case (Cons x xs y ys)
    obtain k v w where x: "x = (k, v)" and y: "y = (k, w)" using Cons.prems(1) by (cases x; cases y) auto
    have ih: "map_of xs ++ changes_map (?d xs ys) = map_of ys" using Cons by (intro Cons.IH) auto
    have "set (zip xs ys) \<subseteq> set xs \<times> set ys" by (auto dest: set_zip_leftD set_zip_rightD)
    then have new: "changes_map (?d xs ys) k = None"
      using Cons.prems(2) x by (force simp: changes_map_def map_of_eq_None_iff)
    have vw: "same_value v w \<Longrightarrow> v = w" using Cons.prems(3) x y by auto
    show ?case
    proof (rule ext)
      fix j
      have "(map_of xs ++ changes_map (?d xs ys)) j = map_of ys j" by (simp add: ih)
      then show "(map_of (x # xs) ++ changes_map (?d (x # xs) (y # ys))) j = map_of (y # ys) j"
        using new vw by (cases "j = k") (auto simp: x y changes_map_def map_add_def split: option.splits)
    qed
  qed
qed

lemma changed_fields_before:
  assumes "map fst xs = map fst ys" and "distinct (map fst xs)"
  shows "list_all (\<lambda>(k, v, w). k = ''geom'' \<or> map_of xs k = Some v)
    (map (\<lambda>((k, v), (k', w)). (k, v, w)) (filter (\<lambda>((k, v), (k', w)). \<not> same_value v w) (zip xs ys)))"
  using assms(2) by (auto simp: list_all_iff dest!: set_zip_leftD)

lemma light_fields_keys:
  "map fst (light_fields r) = map fst (light_fields q)" "distinct (map fst (light_fields r))"
  by (simp_all add: light_fields_def)

definition plain_coordinates :: "inventory_row \<Rightarrow> bool" where
  "plain_coordinates r \<longleftrightarrow> iv_latitude r \<noteq> NegZero \<and> iv_longitude r \<noteq> NegZero"

lemma no_negative_zero_plain [simp]: "no_negative_zero n \<noteq> NegZero"
  by (cases n) auto

lemma number_eq_plain: "number_eq a b \<Longrightarrow> a \<noteq> NegZero \<Longrightarrow> b \<noteq> NegZero \<Longrightarrow> a = b"
  by (cases a; cases b) auto

lemma safeChangedFields_map:
  assumes "plain_coordinates r" and "plain_coordinates q"
  shows "map_of (light_fields r) ++ changes_map (safeChangedFields r q) = map_of (light_fields q)"
  unfolding safeChangedFields_def
proof (rule changed_fields_map [OF light_fields_keys])
  have t: "same_value (text_value a) (text_value b) \<longrightarrow> text_value a = text_value b" for a b
    by (simp add: text_value_def split: option.splits)
  have n: "number_eq (iv_longitude r) (iv_longitude q) \<longrightarrow> iv_longitude r = iv_longitude q"
    "number_eq (iv_latitude r) (iv_latitude q) \<longrightarrow> iv_latitude r = iv_latitude q"
    using assms unfolding plain_coordinates_def by (blast intro: number_eq_plain)+
  show "list_all2 (\<lambda>x y. same_value (snd x) (snd y) \<longrightarrow> snd x = snd y) (light_fields r) (light_fields q)"
    unfolding light_fields_def
    by (intro list.rel_intros; simp only: snd_conv same_value.simps audit_value.inject; (rule t | rule n | blast))
qed

lemma safeChangedFields_before:
  "list_all (\<lambda>(k, v, w). k = ''geom'' \<or> map_of (light_fields r) k = Some v) (safeChangedFields r q)"
  unfolding safeChangedFields_def by (rule changed_fields_before [OF light_fields_keys])

lemma light_fields_updated [simp]: "light_fields (r\<lparr>iv_updated := t\<rparr>) = light_fields r"
  by (simp add: light_fields_def)

lemma light_fields_address:
  "map_of (light_fields (r\<lparr>iv_address := Some a, iv_updated := t\<rparr>)) = map_of (light_fields r) ++ changes_map [(''address'', v, TextValue a)]"
  by (rule ext) (simp add: light_fields_def text_value_def changes_map_def)

section \<open>The table\<close>

definition lights_ok :: "light_env \<Rightarrow> lights_db \<Rightarrow> bool" where
  "lights_ok env db \<longleftrightarrow>
     distinct (map light_id (ls_rows db)) \<and> distinct (map (\<lambda>l. iv_number (lr_row l)) (ls_rows db)) \<and>
     (\<forall>l \<in> set (ls_rows db). light_id l < ls_next db \<and> light_point_error (le_nfc env) (lr_row l) = None \<and>
        plain_coordinates (lr_row l))"

lemma light_of_Some: "light_of i db = Some l \<Longrightarrow> l \<in> set (ls_rows db) \<and> light_id l = i"
  by (auto simp: light_of_def find_Some_iff)

lemma light_of_None: "light_of i db = None \<longleftrightarrow> i \<notin> light_id ` set (ls_rows db)"
  by (auto simp: light_of_def find_None_iff)

lemma light_of_insertAudit [simp]: "light_of i (insertAudit a db) = light_of i db"
  by (simp add: light_of_def insertAudit_def)

lemma inventory_view_audit [simp]: "inventory_view (insertAudit a db) = inventory_view db"
  by (simp add: inventory_view_def fun_eq_iff)

lemma find_append: "find p (xs @ ys) = (case find p xs of None \<Rightarrow> find p ys | Some x \<Rightarrow> Some x)"
  by (induction xs) auto

lemma light_of_added:
  "light_id l \<notin> light_id ` set (ls_rows db) \<Longrightarrow> ls_rows db' = ls_rows db @ [l] \<Longrightarrow>
    light_of i db' = (if i = light_id l then Some l else light_of i db)"
  using light_of_None [of i db] by (cases "i = light_id l") (auto simp: light_of_def find_append split: option.splits)

lemma find_keyed_update:
  "(\<And>x. f x = i \<Longrightarrow> f (g x) = i) \<Longrightarrow>
    find (\<lambda>x. f x = j) (map (\<lambda>x. if f x = i then g x else x) xs) =
      map_option (\<lambda>x. if f x = i then g x else x) (find (\<lambda>x. f x = j) xs)"
  by (induction xs) auto

lemma light_of_replaced:
  assumes "\<And>q. light_id q = i \<Longrightarrow> light_id (f q) = i"
  shows "light_of j (replace_light i f db) = (if j = i then map_option f (light_of i db) else light_of j db)"
proof -
  have "light_of j (replace_light i f db) = map_option (\<lambda>q. if light_id q = i then f q else q) (light_of j db)"
    unfolding light_of_def replace_light_def sql_update_def using find_keyed_update [of light_id i f j] assms by simp
  then show ?thesis using light_of_Some [of j db] by (cases "light_of j db") auto
qed

lemma find_filter_key: "j \<noteq> i \<Longrightarrow> find (\<lambda>x. f x = j) (filter (\<lambda>x. f x \<noteq> i) xs) = find (\<lambda>x. f x = j) xs"
  by (induction xs) auto

lemma light_of_deleted:
  "ls_rows db' = filter (\<lambda>r. light_id r \<noteq> i) (ls_rows db) \<Longrightarrow> light_of j db' = (if j = i then None else light_of j db)"
  by (auto simp: light_of_def find_None_iff find_filter_key)

section \<open>The operations\<close>

lemma withTransaction_cases:
  assumes "withTransaction am work db = (db', r)"
  obtains (kept) "db' = db" "r = Inl OtherError \<or> (\<exists>e. r = Inl e \<and> work db = Inl e)"
  | (committed) x where "work db = Inr (db', x)" "sa_connects am" "r = (if sa_fate am = Executed then Inr x else Inl OtherError)"
  using assms by (auto simp: withTransaction_def split: if_splits sum.splits)

definition lights_sound :: "light_env \<Rightarrow> lights_db \<Rightarrow> bool" where
  "lights_sound env db \<longleftrightarrow> lights_ok env db \<and> audited db"

lemma created_plain: "plain_coordinates (created_row am i number inp)"
  by (simp add: plain_coordinates_def created_row_def)

lemma create_sound:
  assumes s: "lights_sound env db" and w: "create_work env am who number inp db = Inr (db', r)"
  shows "lights_sound env db'"
proof -
  let ?i = "ls_next db + int (sa_gap am)"
  let ?r = "created_row am ?i number inp"
  let ?l = "\<lparr>lr_row = ?r, lr_geocoded = None\<rparr>"
  have ok: "light_point_error (le_nfc env) ?r = None" "\<not> number_taken ?i number db" and r: "r = ?r"
    and db': "db' = insertAudit (audit_of who AuditCreate ?i number (map (\<lambda>(k, v). (k, NullValue, v)) (light_fields ?r)))
        (db\<lparr>ls_rows := ls_rows db @ [?l], ls_next := ?i + 1\<rparr>)"
    using w by (auto simp: create_work_def Let_def split: if_splits)
  have id: "light_id ?l = ?i" "iv_number ?r = number" by (simp_all add: light_id_def created_row_def)
  have below: "light_id q < ?i" if "q \<in> set (ls_rows db)" for q using s that by (force simp: lights_sound_def lights_ok_def)
  then have fresh: "?i \<notin> light_id ` set (ls_rows db)" by force
  have other: "number \<noteq> iv_number (lr_row q)" if "q \<in> set (ls_rows db)" for q
    using ok(2) below [OF that] that by (auto simp: number_taken_def list_ex_iff)
  have "lights_ok env db'"
    using s ok(1) fresh other below created_plain id by (auto simp: lights_sound_def lights_ok_def db' insertAudit_def)
  moreover have "audited db'"
  proof (rule audited_step)
    show "audited db" using s by (simp add: lights_sound_def)
    show "ls_audits db' = ls_audits db @ [audit_of who AuditCreate ?i number (map (\<lambda>(k, v). (k, NullValue, v)) (light_fields ?r))]"
      by (simp add: db' insertAudit_def)
    have n: "inventory_view db ?i = None" using fresh by (simp add: inventory_view_def light_of_None)
    then show "before_ok (audit_of who AuditCreate ?i number (map (\<lambda>(k, v). (k, NullValue, v)) (light_fields ?r))) (inventory_view db)"
      by (auto simp: before_ok_def audit_of_def list_all_iff)
    have "light_of j (db\<lparr>ls_rows := ls_rows db @ [?l], ls_next := ?i + 1\<rparr>) = (if j = ?i then Some ?l else light_of j db)" for j
      using light_of_added [of ?l db "db\<lparr>ls_rows := ls_rows db @ [?l], ls_next := ?i + 1\<rparr>"] fresh id by simp
    moreover have "changes_map (map (\<lambda>(k, v). (k, NullValue, v)) (light_fields ?r)) = map_of (light_fields ?r)"
      by (simp add: changes_map_def comp_def case_prod_beta')
    ultimately show "inventory_view db' = apply_audit (audit_of who AuditCreate ?i number (map (\<lambda>(k, v). (k, NullValue, v)) (light_fields ?r))) (inventory_view db)"
      by (simp add: fun_eq_iff db' inventory_view_def apply_audit_def audit_of_def)
  qed
  ultimately show ?thesis by (simp add: lights_sound_def)
qed

text \<open>A row that is replaced by one of the same id, a free number and good values.\<close>

lemma replace_ok:
  assumes ok: "lights_ok env db" and l: "light_of i db = Some l"
    and f: "\<And>q. light_id q = i \<Longrightarrow> lr_row (f q) = r" and id: "iv_id r = i"
    and r: "light_point_error (le_nfc env) r = None" "plain_coordinates r" "\<not> number_taken i (iv_number r) db"
  shows "lights_ok env (replace_light i f db)"
proof -
  let ?g = "\<lambda>q. if light_id q = i then f q else q"
  have ids: "light_id (?g q) = light_id q" for q using f id by (simp add: light_id_def)
  have num: "iv_number (lr_row (?g q)) = (if light_id q = i then iv_number r else iv_number (lr_row q))" for q using f by simp
  have inj: "q = q'" if "q \<in> set (ls_rows db)" "q' \<in> set (ls_rows db)" "iv_number (lr_row (?g q)) = iv_number (lr_row (?g q'))" for q q'
  proof -
    have "light_id q = light_id q' \<Longrightarrow> q = q'" and "iv_number (lr_row q) = iv_number (lr_row q') \<Longrightarrow> q = q'"
      using that(1,2) ok by (auto simp: lights_ok_def distinct_map inj_on_def)
    then show ?thesis using that r(3) by (auto simp: num number_taken_def list_ex_iff split: if_splits)
  qed
  have num_distinct: "distinct (map (\<lambda>q. iv_number (lr_row (?g q))) (ls_rows db))"
    using ok inj by (auto simp: lights_ok_def distinct_map inj_on_def)
  have id_distinct: "distinct (map (\<lambda>q. light_id (?g q)) (ls_rows db))" unfolding ids using ok by (simp add: lights_ok_def)
  have e: "ls_rows (replace_light i f db) = map ?g (ls_rows db)" "ls_next (replace_light i f db) = ls_next db"
    by (simp_all add: replace_light_def sql_update_def)
  have each: "light_id x < ls_next db \<and> light_point_error (le_nfc env) (lr_row x) = None \<and> plain_coordinates (lr_row x)"
    if m: "x \<in> set (map ?g (ls_rows db))" for x
  proof -
    obtain q where q: "q \<in> set (ls_rows db)" "x = ?g q" using m by auto
    then have "light_id x < ls_next db" using ok ids [of q] by (simp add: lights_ok_def del: if_split)
    then show ?thesis using ok q f [of q] r by (cases "light_id q = i") (simp_all add: lights_ok_def)
  qed
  show ?thesis unfolding lights_ok_def e map_map comp_def using num_distinct id_distinct each by blast
qed

lemma replace_view:
  assumes "light_of i db = Some l" and "\<And>q. light_id q = i \<Longrightarrow> lr_row (f q) = r" and "iv_id r = i"
  shows "inventory_view (replace_light i f db) = (inventory_view db)(i := Some (map_of (light_fields r)))"
proof
  fix j
  have "light_id (f q) = i" if "light_id q = i" for q using assms(2) [OF that] assms(3) by (simp add: light_id_def)
  then show "inventory_view (replace_light i f db) j = ((inventory_view db)(i := Some (map_of (light_fields r)))) j"
    using light_of_Some [OF assms(1)] by (simp add: inventory_view_def light_of_replaced assms)
qed

lemma update_sound:
  assumes s: "lights_sound env db" and w: "update_work env am who i inp db = Inr (db', out)"
  shows "lights_sound env db'"
proof -
  obtain l new where l: "light_of i db = Some l" and new: "next_row env inp (lr_row l) = Inr new"
    using w by (auto simp: update_work_def split: if_splits option.splits sum.splits)
  let ?changes = "safeChangedFields (lr_row l) new"
  let ?r = "new\<lparr>iv_updated := sa_now am\<rparr>"
  let ?f = "\<lambda>q. \<lparr>lr_row = ?r, lr_geocoded = (if coords_changed (lr_row l) new then None else lr_geocoded q)\<rparr>"
  have row: "l \<in> set (ls_rows db)" "iv_id (lr_row l) = i" using light_of_Some [OF l] by (auto simp: light_id_def)
  show ?thesis
  proof (cases "?changes = []")
    case True
    then show ?thesis using w s l new by (auto simp: update_work_def Let_def split: if_splits)
  next
    case False
    then have ok: "light_point_error (le_nfc env) ?r = None" "\<not> number_taken i (iv_number ?r) db"
      and db': "db' = insertAudit (audit_of who AuditUpdate i (iv_number ?r) ?changes) (replace_light i ?f db)"
      using w l new by (auto simp: update_work_def Let_def split: if_splits)
    have id: "iv_id ?r = i" and plain: "plain_coordinates new" "plain_coordinates ?r"
      using new row by (auto simp: next_row_def plain_coordinates_def split: sum.splits)
    have old: "plain_coordinates (lr_row l)" using s row by (auto simp: lights_sound_def lights_ok_def)
    have "lights_ok env (replace_light i ?f db)"
      using replace_ok [OF _ l, of env ?f ?r] s id ok plain by (simp add: lights_sound_def)
    then have "lights_ok env db'" by (simp add: db' lights_ok_def insertAudit_def)
    moreover have "audited db'"
    proof (rule audited_step)
      show "audited db" using s by (simp add: lights_sound_def)
      show "ls_audits db' = ls_audits db @ [audit_of who AuditUpdate i (iv_number ?r) ?changes]"
        by (simp add: db' insertAudit_def replace_light_def)
      have v: "inventory_view db i = Some (map_of (light_fields (lr_row l)))" using l by (simp add: inventory_view_def)
      then show "before_ok (audit_of who AuditUpdate i (iv_number ?r) ?changes) (inventory_view db)"
        using safeChangedFields_before by (simp add: before_ok_def audit_of_def)
      show "inventory_view db' = apply_audit (audit_of who AuditUpdate i (iv_number ?r) ?changes) (inventory_view db)"
        using replace_view [OF l, of ?f ?r] id safeChangedFields_map [OF old plain(1)]
        by (simp add: db' apply_audit_def audit_of_def v)
    qed
    ultimately show ?thesis by (simp add: lights_sound_def)
  qed
qed

lemma delete_sound:
  assumes s: "lights_sound env db" and w: "delete_work who i db = Inr (db', out)"
  shows "lights_sound env db'"
proof -
  obtain l where l: "light_of i db = Some l" and db': "db' = insertAudit (audit_of who AuditDelete i (iv_number (lr_row l)) (delete_changes (lr_row l)))
      (db\<lparr>ls_rows := filter (\<lambda>r. light_id r \<noteq> i) (ls_rows db)\<rparr>)"
    using w by (auto simp: delete_work_def Let_def insertAudit_def split: if_splits option.splits)
  have "lights_ok env db'"
    using s by (auto simp: db' lights_sound_def lights_ok_def insertAudit_def distinct_map_filter)
  moreover have "audited db'"
  proof (rule audited_step)
    show "audited db" using s by (simp add: lights_sound_def)
    show "ls_audits db' = ls_audits db @ [audit_of who AuditDelete i (iv_number (lr_row l)) (delete_changes (lr_row l))]"
      by (simp add: db' insertAudit_def)
    have v: "inventory_view db i = Some (map_of (light_fields (lr_row l)))" using l by (simp add: inventory_view_def)
    then show "before_ok (audit_of who AuditDelete i (iv_number (lr_row l)) (delete_changes (lr_row l))) (inventory_view db)"
      by (simp add: before_ok_def audit_of_def delete_changes_def light_fields_def)
    have "light_of j (db\<lparr>ls_rows := filter (\<lambda>r. light_id r \<noteq> i) (ls_rows db)\<rparr>) = (if j = i then None else light_of j db)" for j
      by (rule light_of_deleted) simp
    then show "inventory_view db' = apply_audit (audit_of who AuditDelete i (iv_number (lr_row l)) (delete_changes (lr_row l))) (inventory_view db)"
      by (simp add: db' fun_eq_iff inventory_view_def apply_audit_def audit_of_def)
  qed
  ultimately show ?thesis by (simp add: lights_sound_def)
qed

lemma store_cases:
  assumes "store_work am snap forced manual address db = Inr (db', out)"
  obtains (kept) "db' = db"
  | (stored) l where "light_of (gs_light snap) db = Some l" "iv_address (lr_row l) = gs_address snap"
      "number_eq (iv_latitude (lr_row l)) (gs_latitude snap)" "number_eq (iv_longitude (lr_row l)) (gs_longitude snap)"
      "forced \<or> lr_geocoded l = None" "out = Some address"
      "db' = insertAudit (audit_of (system_actor manual) AuditUpdate (gs_light snap) (iv_number (lr_row l))
           [(''address'', text_value (iv_address (lr_row l)), TextValue address)])
         (replace_light (gs_light snap)
           (\<lambda>q. \<lparr>lr_row = (lr_row q)\<lparr>iv_address := Some address, iv_updated := sa_now am\<rparr>, lr_geocoded = Some (sa_now am)\<rparr>) db)"
  using assms by (auto simp: store_work_def Let_def split: option.splits if_splits)

lemma store_sound:
  assumes s: "lights_sound env db" and w: "store_work am snap forced manual address db = Inr (db', out)"
  shows "lights_sound env db'"
proof (rule store_cases [OF w])
  assume "db' = db" then show ?thesis using s by simp
next
  fix l :: light_row
  let ?i = "gs_light snap"
  let ?r = "(lr_row l)\<lparr>iv_address := Some address, iv_updated := sa_now am\<rparr>"
  let ?f = "\<lambda>q. \<lparr>lr_row = (lr_row q)\<lparr>iv_address := Some address, iv_updated := sa_now am\<rparr>, lr_geocoded = Some (sa_now am)\<rparr>"
  let ?a = "audit_of (system_actor manual) AuditUpdate ?i (iv_number (lr_row l)) [(''address'', text_value (iv_address (lr_row l)), TextValue address)]"
  assume l: "light_of ?i db = Some l" and db': "db' = insertAudit ?a (replace_light ?i ?f db)"
  have row: "l \<in> set (ls_rows db)" "light_id l = ?i" using light_of_Some [OF l] by auto
  have ok: "lights_ok env db" using s by (simp add: lights_sound_def)
  have same: "lr_row (if light_id q = ?i then ?f q else q) = lr_row (if light_id q = ?i then \<lparr>lr_row = ?r, lr_geocoded = Some (sa_now am)\<rparr> else q)"
    if "q \<in> set (ls_rows db)" for q
    using ok row that by (auto simp: lights_ok_def distinct_map inj_on_def)
  have eq: "replace_light ?i ?f db = replace_light ?i (\<lambda>q. \<lparr>lr_row = ?r, lr_geocoded = Some (sa_now am)\<rparr>) db"
    using same by (auto simp: replace_light_def sql_update_def)
  have id: "iv_id ?r = ?i" using row by (simp add: light_id_def)
  have "light_point_error (le_nfc env) (lr_row l) = None" "plain_coordinates (lr_row l)" using ok row by (auto simp: lights_ok_def)
  moreover have "light_point_error (le_nfc env) ?r = light_point_error (le_nfc env) (lr_row l)"
    by (cases "lr_row l") (simp only: light_point_error_def inventory_row.simps)
  ultimately have good: "light_point_error (le_nfc env) ?r = None" "plain_coordinates ?r"
    by (simp_all add: plain_coordinates_def)
  have "\<not> number_taken ?i (iv_number ?r) db"
    using ok row by (auto simp: number_taken_def list_ex_iff lights_ok_def distinct_map inj_on_def)
  then have "lights_ok env (replace_light ?i ?f db)" unfolding eq using replace_ok [OF ok l] id good by simp
  then have "lights_ok env db'" by (simp add: db' lights_ok_def insertAudit_def)
  moreover have "audited db'"
  proof (rule audited_step)
    show "audited db" using s by (simp add: lights_sound_def)
    show "ls_audits db' = ls_audits db @ [?a]" by (simp add: db' insertAudit_def replace_light_def)
    have v: "inventory_view db ?i = Some (map_of (light_fields (lr_row l)))" using l by (simp add: inventory_view_def)
    then show "before_ok ?a (inventory_view db)" by (simp add: before_ok_def audit_of_def light_fields_def)
    have "inventory_view (replace_light ?i ?f db) = (inventory_view db)(?i := Some (map_of (light_fields ?r)))"
      unfolding eq using replace_view [OF l] id by simp
    then show "inventory_view db' = apply_audit ?a (inventory_view db)"
      using light_fields_address [where r = "lr_row l" and a = address and t = "sa_now am" and v = "text_value (iv_address (lr_row l))"]
      by (simp add: db' apply_audit_def audit_of_def v)
  qed
  ultimately show ?thesis by (simp add: lights_sound_def)
qed

lemma transaction_sound:
  assumes "lights_sound env db" and "withTransaction am work db = (db', r)"
    and "\<And>d x. work db = Inr (d, x) \<Longrightarrow> lights_sound env d"
  shows "lights_sound env db'"
  using assms by (auto elim!: withTransaction_cases)

lemma light_step_sound:
  assumes s: "lights_sound env (st_db st)" and st: "light_step env st ev = (st', out)"
  shows "lights_sound env (st_db st')"
proof -
  note transaction = transaction_sound [OF s]
  have c: "lights_sound env d" if "withTransaction am (create_work env am who n inp) (st_db st) = (d, r)" for am who n inp d r
    by (rule transaction [OF that create_sound [OF s]])
  have u: "lights_sound env d" if "withTransaction am (update_work env am who i inp) (st_db st) = (d, r)" for am who i inp d r
    by (rule transaction [OF that update_sound [OF s]])
  have e: "lights_sound env d" if "withTransaction am (delete_work who i) (st_db st) = (d, r)" for am who i d r
    by (rule transaction [OF that delete_sound [OF s]])
  have a: "lights_sound env d" if "withTransaction am (store_work am snap b m x) (st_db st) = (d, r)" for am snap b m x d r
    by (rule transaction [OF that store_sound [OF s]])
  show ?thesis
    using st s c u e a
    by (cases ev)
      (auto simp: Let_def createLightPoint_def updateLightPoint_def deleteLightPoint_def ensure_store_def
        split: sum.splits option.splits prod.splits if_splits geocode_phase.splits)
qed

interpretation light_tables: invariant_system "light_step env" "\<lambda>hist st. lights_sound env (st_db st)"
  by unfold_locales (rule light_step_sound)

definition lights_start :: light_state where
  "lights_start = \<lparr>st_db = no_lights, st_tasks = []\<rparr>"

lemma start_sound: "lights_sound env (st_db lights_start)"
  by (simp add: lights_sound_def lights_start_def no_lights_def lights_ok_def audited_def replay_def inventory_view_def
      light_of_def fun_eq_iff)

end
