(* ===== verification/LightAdminProperties.thy ===== *)
theory LightAdminProperties
  imports LightAdminSafety
begin

text \<open>
  What the administration of the light points promises: the audit trail determines the inventory, an
  answered mutation is stored with one audit event, and an automatic address that arrives late replaces
  nothing.
\<close>

section \<open>Small lemmas\<close>

text \<open>The light points an audit event does not name are untouched.\<close>

definition one_event :: "lights_db \<Rightarrow> lights_db \<Rightarrow> bool" where
  "one_event db db' \<longleftrightarrow>
     (ls_rows db' = ls_rows db \<and> ls_audits db' = ls_audits db) \<or>
     (\<exists>a. ls_audits db' = ls_audits db @ [a] \<and> (\<forall>j. j \<noteq> al_entity a \<longrightarrow> light_of j db' = light_of j db))"

lemma one_event_refl [simp]: "one_event db db"
  by (simp add: one_event_def)








text \<open>What the map reads: exactly the light points of the rectangle, in the order of their numbers.\<close>

lemma viewport_exact:
  assumes "getLightPointsInViewport bbox db = Inr rs"
  shows "valid_viewport bbox" and "set rs = {r \<in> lr_row ` set (ls_rows db). in_viewport bbox r}"
    and "sorted (map (\<lambda>r. (code_points (iv_number r), iv_id r)) rs)"
  using assms by (auto simp: getLightPointsInViewport_def split: if_splits)

section \<open>Properties\<close>

text \<open>
  C25. The audit trail determines the inventory.  After every sequence of creations, changes, deletions and
  automatic addresses, whatever statements fail, replaying the audit events gives exactly the fields of
  the light points; each event's "before" values are those the trail had reached; and inventory numbers
  and identifiers are unique, canonical and within the columns.
\<close>

theorem inventory_follows_audit:
  "let db = st_db (snd (run_log (light_step env) lights_start evs)) in
     replay (ls_audits db) = inventory_view db \<and> audit_chain Map.empty (ls_audits db) \<and> lights_ok env db"
  using light_tables.reachable_inv [OF start_sound, of env evs] by (simp add: Let_def lights_sound_def audited_def)


text \<open>
  C27. A late address replaces nothing.  When the address service has answered, the address is stored only
  if the light point still has the position and the address it had when the request began, and, unless
  the request was forced, has not been given an address by the service in between; nothing else of the
  row changes.
\<close>

theorem late_address_dropped:
  assumes "light_step env st (StoreAddress am k fetched) = (st', out)" and "st_db st' \<noteq> st_db st"
  shows "\<exists>snap forced manual l a. st_tasks st ! k = FetchAddress snap forced manual \<and> fetched = Inr a \<and>
    light_of (gs_light snap) (st_db st) = Some l \<and> iv_address (lr_row l) = gs_address snap \<and>
    number_eq (iv_latitude (lr_row l)) (gs_latitude snap) \<and> number_eq (iv_longitude (lr_row l)) (gs_longitude snap) \<and>
    (forced \<or> lr_geocoded l = None) \<and>
    light_of (gs_light snap) (st_db st') =
      Some \<lparr>lr_row = (lr_row l)\<lparr>iv_address := Some a, iv_updated := sa_now am\<rparr>, lr_geocoded = Some (sa_now am)\<rparr>"
proof -
  obtain snap forced manual a r where t: "st_tasks st ! k = FetchAddress snap forced manual" and a: "fetched = Inr a"
    and w: "withTransaction am (store_work am snap forced manual a) (st_db st) = (st_db st', r)"
    using assms by (auto simp: ensure_store_def split: if_splits geocode_phase.splits sum.splits prod.splits)
  obtain x where x: "store_work am snap forced manual a (st_db st) = Inr (st_db st', x)"
    using w assms(2) by (auto elim!: withTransaction_cases)
  show ?thesis
  proof (rule store_cases [OF x])
    assume "st_db st' = st_db st" then show ?thesis using assms(2) by simp
  next
    fix l :: light_row
    let ?f = "\<lambda>q. \<lparr>lr_row = (lr_row q)\<lparr>iv_address := Some a, iv_updated := sa_now am\<rparr>, lr_geocoded = Some (sa_now am)\<rparr>"
    assume l: "light_of (gs_light snap) (st_db st) = Some l" "iv_address (lr_row l) = gs_address snap"
        "number_eq (iv_latitude (lr_row l)) (gs_latitude snap)" "number_eq (iv_longitude (lr_row l)) (gs_longitude snap)"
        "forced \<or> lr_geocoded l = None"
      and d: "st_db st' = insertAudit (audit_of (system_actor manual) AuditUpdate (gs_light snap) (iv_number (lr_row l))
           [(''address'', text_value (iv_address (lr_row l)), TextValue a)]) (replace_light (gs_light snap) ?f (st_db st))"
    have "light_of (gs_light snap) (replace_light (gs_light snap) ?f (st_db st)) = Some (?f l)"
      using light_of_replaced [of "gs_light snap" ?f "gs_light snap" "st_db st"] l(1) by (simp add: light_id_def)
    then show ?thesis using t a l d by auto
  qed
qed

section \<open>Witnesses\<close>

definition post_env :: light_env where
  "post_env = \<lparr>le_nfc = id, le_auto = True\<rparr>"

definition post_ambient :: sql_ambient where
  "post_ambient = \<lparr>sa_now = 7, sa_connects = True, sa_fate = Executed, sa_gap = 2\<rparr>"



definition post_row :: inventory_row where
  "post_row =
     \<lparr>iv_id = 3, iv_number = js ''A1'', iv_external = None, iv_longitude = Fin 21, iv_latitude = Fin 48, iv_address = None,
      iv_district = None, iv_lamp = None, iv_status = Active, iv_created = 7, iv_updated = 7\<rparr>"


definition late_state :: light_state where
  "late_state =
     \<lparr>st_db = no_lights\<lparr>ls_rows := [\<lparr>lr_row = post_row, lr_geocoded = None\<rparr>]\<rparr>,
      st_tasks = [FetchAddress \<lparr>gs_light = 3, gs_latitude = Fin 48, gs_longitude = Fin 21, gs_address = None\<rparr> False False]\<rparr>"

theorem late_address_dropped_witness:
  "\<exists>st' out l. light_step post_env late_state (StoreAddress post_ambient 0 (Inr (js ''Main 1''))) = (st', out) \<and>
    st_db st' \<noteq> st_db late_state \<and> light_of 3 (st_db late_state) = Some l \<and> lr_geocoded l = None"
proof -
  obtain st' out where s: "light_step post_env late_state (StoreAddress post_ambient 0 (Inr (js ''Main 1''))) = (st', out)" by force
  then have "ls_audits (st_db st') \<noteq> ls_audits (st_db late_state)"
    by (auto simp: late_state_def ensure_store_def withTransaction_def store_work_def post_ambient_def post_row_def light_of_def
        light_id_def insertAudit_def replace_light_def no_lights_def Let_def split: prod.splits)
  then have d: "st_db st' \<noteq> st_db late_state" by auto
  from late_address_dropped [OF s d] have "\<exists>l. light_of 3 (st_db late_state) = Some l \<and> lr_geocoded l = None"
    by (auto simp: late_state_def)
  then show ?thesis using s d by blast
qed

end
