(* ===== verification/RequestBoundary.thy ===== *)
theory RequestBoundary
  imports JsValue
begin

text \<open>
  The boundary in front of the endpoints, \<^verbatim>\<open>middleware/productionRequestBoundary.ts\<close>: in production a
  request has to name a configured host, and a request of the administration that may change something
  has to come from the administration's own origin.  The parser of URLs and the lower case of a text are
  parameters.
\<close>

record parsed_url =
  pu_username :: jsstring
  pu_password :: jsstring
  pu_pathname :: jsstring
  pu_search :: jsstring
  pu_hash :: jsstring
  pu_host :: jsstring
  pu_origin :: jsstring
  pu_protocol :: jsstring

record boundary_env =
  be_url :: "jsstring \<Rightarrow> parsed_url option"
  be_lower :: "jsstring \<Rightarrow> jsstring"
  be_upper :: "jsstring \<Rightarrow> jsstring"
  be_production :: bool
  be_public :: "jsstring option"
  be_admin :: "jsstring option"

record boundary_request =
  br_method :: jsstring
  br_host :: "jsstring option"
  br_origin :: "jsstring option"
  br_referer :: "jsstring option"
  br_fetch_site :: "jsstring option"

definition hostnameFromOrigin :: "boundary_env \<Rightarrow> jsstring option \<Rightarrow> jsstring option" where
  "hostnameFromOrigin env v =
     (case v of
        None \<Rightarrow> None
      | Some s \<Rightarrow>
          if s = [] then None
          else (case be_url env s of
             None \<Rightarrow> None
           | Some u \<Rightarrow>
               if pu_username u \<noteq> [] \<or> pu_password u \<noteq> [] \<or> pu_pathname u \<noteq> js ''/'' \<or> pu_search u \<noteq> [] \<or> pu_hash u \<noteq> []
               then None else Some (be_lower env (pu_host u))))"

definition host_unit :: "code_unit \<Rightarrow> bool" where
  "host_unit c \<longleftrightarrow> \<not> js_ws c \<and> c \<noteq> 47 \<and> c \<noteq> 64 \<and> c \<noteq> 92 \<and> c \<noteq> 44"

definition requestHost :: "boundary_env \<Rightarrow> jsstring option \<Rightarrow> jsstring option" where
  "requestHost env raw =
     (case raw of
        None \<Rightarrow> None
      | Some s \<Rightarrow> if s = [] \<or> \<not> list_all host_unit s then None else Some (be_lower env s))"

definition origin_rejected :: http_response where
  "origin_rejected =
     \<lparr>status = 403, no_store = True, retry_header = None,
      body = JObj [(js ''success'', JBool False), (js ''code'', JStr (js ''request_origin_rejected'')),
        (js ''message'', JStr (js ''Request origin is not allowed.''))]\<rparr>"

datatype boundary = PublicBoundary | AdminBoundary | EitherBoundary

definition allowed_hosts :: "boundary_env \<Rightarrow> boundary \<Rightarrow> jsstring list" where
  "allowed_hosts env b =
     (let present = List.map_filter (\<lambda>h. if h = Some [] then None else h);
          public = hostnameFromOrigin env (be_public env); admin = hostnameFromOrigin env (be_admin env) in
      case b of
        EitherBoundary \<Rightarrow> present [public, admin]
      | PublicBoundary \<Rightarrow> present [public]
      | AdminBoundary \<Rightarrow> present [admin])"

text \<open>\<open>None\<close> is the call of \<^verbatim>\<open>next()\<close>.\<close>

definition createHostBoundary :: "boundary_env \<Rightarrow> boundary \<Rightarrow> boundary_request \<Rightarrow> http_response option" where
  "createHostBoundary env b req =
     (if \<not> be_production env then None
      else case requestHost env (br_host req) of
        None \<Rightarrow> Some origin_rejected
      | Some h \<Rightarrow> if h = [] \<or> h \<notin> set (allowed_hosts env b) then Some origin_rejected else None)"

definition hasValidAdminRequestProvenance :: "boundary_env \<Rightarrow> boundary_request \<Rightarrow> jsstring \<Rightarrow> bool" where
  "hasValidAdminRequestProvenance env req adminOrigin =
     (if (case br_fetch_site req of None \<Rightarrow> False | Some s \<Rightarrow> be_lower env (js_trim s) \<noteq> js ''same-origin'') then False
      else case br_origin req of
        Some s \<Rightarrow> js_trim s = adminOrigin \<and> hostnameFromOrigin env (Some s) \<noteq> None
      | None \<Rightarrow>
          (case br_referer req of
             None \<Rightarrow> False
           | Some s \<Rightarrow>
               (case be_url env s of
                  None \<Rightarrow> False
                | Some u \<Rightarrow> pu_origin u = adminOrigin \<and> pu_protocol u = js ''https:'' \<and> pu_username u = [] \<and> pu_password u = [])))"

definition unsafe_methods :: "jsstring list" where
  "unsafe_methods = [js ''POST'', js ''PUT'', js ''PATCH'', js ''DELETE'']"

definition createAdminCsrfGuard :: "boundary_env \<Rightarrow> boundary_request \<Rightarrow> http_response option" where
  "createAdminCsrfGuard env req =
     (if \<not> be_production env \<or> be_upper env (br_method req) \<notin> set unsafe_methods then None
      else case be_admin env of
        None \<Rightarrow> Some origin_rejected
      | Some a \<Rightarrow> if a = [] \<or> \<not> hasValidAdminRequestProvenance env req a then Some origin_rejected else None)"

text \<open>The order in \<^verbatim>\<open>app.ts\<close>: either host for the API, then the host of the administration, then the guard.\<close>

definition admin_boundary :: "boundary_env \<Rightarrow> boundary_request \<Rightarrow> http_response option" where
  "admin_boundary env req =
     (case createHostBoundary env EitherBoundary req of
        Some r \<Rightarrow> Some r
      | None \<Rightarrow> (case createHostBoundary env AdminBoundary req of Some r \<Rightarrow> Some r | None \<Rightarrow> createAdminCsrfGuard env req))"

section \<open>What passes\<close>

lemma allowed_present: "h \<in> set (allowed_hosts env b) \<Longrightarrow> h \<noteq> []"
  by (auto simp: allowed_hosts_def Let_def List.map_filter_def split: boundary.splits if_splits)

lemma allowed_admin: "set (allowed_hosts env AdminBoundary) \<subseteq> set (allowed_hosts env EitherBoundary)"
  by (auto simp: allowed_hosts_def Let_def List.map_filter_def split: if_splits)

text \<open>
  In production, a request that may change something reaches the administration only with the
  administration's host and an origin, or a referring page, of the administration; a page of another
  site, which cannot choose these headers, is kept out.  Without a configured origin nothing passes.
\<close>

lemma admin_boundary_passes:
  assumes "be_production env" and "be_upper env (br_method req) \<in> set unsafe_methods" and "admin_boundary env req = None"
  obtains a where "be_admin env = Some a" "a \<noteq> []" "requestHost env (br_host req) = hostnameFromOrigin env (Some a)"
    "br_origin req = None \<or> map_option js_trim (br_origin req) = Some a"
    "br_origin req = None \<Longrightarrow> \<exists>s u. br_referer req = Some s \<and> be_url env s = Some u \<and> pu_origin u = a"
    "\<And>s. br_fetch_site req = Some s \<Longrightarrow> be_lower env (js_trim s) = js ''same-origin''"
proof -
  from assms obtain a where a: "be_admin env = Some a" "a \<noteq> []" and p: "hasValidAdminRequestProvenance env req a"
    by (auto simp: admin_boundary_def createAdminCsrfGuard_def split: option.splits if_splits)
  from assms a have "requestHost env (br_host req) = hostnameFromOrigin env (Some a)"
    by (auto simp: admin_boundary_def createHostBoundary_def allowed_hosts_def Let_def List.map_filter_def split: option.splits if_splits)
  then show thesis
    using a p by (intro that) (auto simp: hasValidAdminRequestProvenance_def split: if_splits option.splits)
qed

text \<open>The host check of the whole API refuses nothing that the administration's own check lets through.\<close>

lemma admin_boundary_hosts:
  "createHostBoundary env AdminBoundary req = None \<Longrightarrow> createHostBoundary env EitherBoundary req = None"
  using allowed_admin [of env] by (auto simp: createHostBoundary_def split: option.splits if_splits)

end
