(* ===== verification/CsvRecords.thy ===== *)
theory CsvRecords
  imports JsPrelude
begin

text \<open>
  CSV text: the reader of \<^verbatim>\<open>services/streetLightsImport.service.ts\<close> (\<^verbatim>\<open>parseCsvRecords\<close>), a loop over
  the code units with the open record and cell as its state, and the writer of
  \<^verbatim>\<open>services/streetLightsExport.service.ts\<close> (\<^verbatim>\<open>writeCsvField\<close>, \<^verbatim>\<open>writeCsvRow\<close>).  The reader gives back
  what the writer wrote, whatever the fields contain.
\<close>

section \<open>Pieces of a list\<close>

text \<open>A list cut into pieces of \<open>n\<close>, the last one shorter.\<close>

function pieces :: "nat \<Rightarrow> 'a list \<Rightarrow> 'a list list" where
  "pieces n xs = (if xs = [] \<or> n = 0 then [] else take n xs # pieces n (drop n xs))"
  by pat_completeness auto
termination by (relation "measure (\<lambda>(n, xs). length xs)") auto

declare pieces.simps [simp del]

lemma pieces_Nil [simp]: "pieces n [] = []"
  by (simp add: pieces.simps)

lemma concat_pieces: "0 < n \<Longrightarrow> concat (pieces n xs) = xs"
proof (induction n xs rule: pieces.induct)
  case (1 n xs)
  then show ?case by (cases "xs = []") (simp_all add: pieces.simps [of n xs])
qed

lemma pieces_cons: "xs \<noteq> [] \<Longrightarrow> 0 < n \<Longrightarrow> pieces n xs = take n xs # pieces n (drop n xs)"
  by (simp add: pieces.simps [of n xs])

section \<open>The reader\<close>

datatype csv_error = MalformedQuoted | UnclosedQuoted

record csv_state =
  cs_records :: "jsstring list list"
  cs_record :: "jsstring list"
  cs_cell :: jsstring
  cs_quoted :: bool
  cs_closed :: bool

definition csv_start :: csv_state where
  "csv_start = \<lparr>cs_records = [], cs_record = [], cs_cell = [], cs_quoted = False, cs_closed = False\<rparr>"

definition finishCell :: "csv_state \<Rightarrow> csv_state" where
  "finishCell s = s\<lparr>cs_record := cs_record s @ [cs_cell s], cs_cell := [], cs_closed := False\<rparr>"

definition blank_record :: "jsstring list \<Rightarrow> bool" where
  "blank_record r = (case r of [c] \<Rightarrow> js_trim c = [] | _ \<Rightarrow> False)"

definition finishRecord :: "csv_state \<Rightarrow> csv_state" where
  "finishRecord s =
     (let s1 = finishCell s in
      s1\<lparr>cs_records := (if blank_record (cs_record s1) then cs_records s1 else cs_records s1 @ [cs_record s1]),
         cs_record := []\<rparr>)"

fun csv_loop :: "csv_state \<Rightarrow> jsstring \<Rightarrow> csv_error + csv_state" where
  "csv_loop s [] = Inr s"
| "csv_loop s (ch # rest) =
     (if cs_quoted s then
        (if ch = 34 then
           (case rest of
              n # rest1 \<Rightarrow>
                if n = 34 then csv_loop (s\<lparr>cs_cell := cs_cell s @ [34]\<rparr>) rest1
                else csv_loop (s\<lparr>cs_quoted := False, cs_closed := True\<rparr>) rest
            | [] \<Rightarrow> csv_loop (s\<lparr>cs_quoted := False, cs_closed := True\<rparr>) rest)
         else csv_loop (s\<lparr>cs_cell := cs_cell s @ [ch]\<rparr>) rest)
      else if cs_closed s \<and> ch \<notin> {44, 13, 10, 32, 9} then Inl MalformedQuoted
      else if ch = 34 \<and> cs_cell s = [] then csv_loop (s\<lparr>cs_quoted := True\<rparr>) rest
      else if ch = 44 then csv_loop (finishCell s) rest
      else if ch = 13 then
        (case rest of
           n # rest1 \<Rightarrow> if n = 10 then csv_loop (finishRecord s) rest1 else csv_loop (finishRecord s) rest
         | [] \<Rightarrow> csv_loop (finishRecord s) rest)
      else if ch = 10 then csv_loop (finishRecord s) rest
      else csv_loop (if cs_closed s then s else s\<lparr>cs_cell := cs_cell s @ [ch]\<rparr>) rest)"

definition parseCsvRecords :: "jsstring \<Rightarrow> csv_error + jsstring list list" where
  "parseCsvRecords text =
     (case csv_loop csv_start text of
        Inl e \<Rightarrow> Inl e
      | Inr s \<Rightarrow>
          if cs_quoted s then Inl UnclosedQuoted
          else Inr (cs_records (if cs_cell s \<noteq> [] \<or> cs_record s \<noteq> [] \<or> cs_closed s then finishRecord s else s)))"

section \<open>The writer\<close>

definition WRITE_CHARS :: nat where
  "WRITE_CHARS = 8192"

definition double_quotes :: "jsstring \<Rightarrow> jsstring" where
  "double_quotes s = concat (map (\<lambda>c. if c = 34 then [34, 34] else [c]) s)"

definition needs_quotes :: "jsstring \<Rightarrow> bool" where
  "needs_quotes s \<longleftrightarrow> list_ex (\<lambda>c. c \<in> {44, 34, 13, 10}) s"

text \<open>A field is written as its text, \<^verbatim>\<open>String(value)\<close>; \<^verbatim>\<open>null\<close> writes nothing.\<close>

definition writeCsvField :: "jsstring option \<Rightarrow> jsstring" where
  "writeCsvField v =
     (case v of
        None \<Rightarrow> []
      | Some s \<Rightarrow>
          (let chunks = concat (map double_quotes (pieces WRITE_CHARS s)) in
           if needs_quotes s then [34] @ chunks @ [34] else chunks))"

fun join_fields :: "jsstring list \<Rightarrow> jsstring" where
  "join_fields [] = []"
| "join_fields [f] = f"
| "join_fields (f # g # fs) = f @ 44 # join_fields (g # fs)"

definition writeCsvRow :: "jsstring option list \<Rightarrow> jsstring" where
  "writeCsvRow vs = join_fields (map writeCsvField vs) @ [13, 10]"

section \<open>Reading what was written\<close>

lemma double_quotes_concat: "concat (map double_quotes xss) = double_quotes (concat xss)"
  by (induction xss) (simp_all add: double_quotes_def)

lemma writeCsvField_text:
  "writeCsvField (Some s) = (if needs_quotes s then [34] @ double_quotes s @ [34] else s)"
proof -
  have d: "concat (map double_quotes (pieces WRITE_CHARS s)) = double_quotes s"
    by (simp add: double_quotes_concat concat_pieces WRITE_CHARS_def)
  have "double_quotes s = s" if "\<not> needs_quotes s"
    using that by (induction s) (auto simp: needs_quotes_def double_quotes_def)
  then show ?thesis by (simp add: writeCsvField_def d)
qed

text \<open>The state between two fields.\<close>

abbreviation between :: "jsstring list list \<Rightarrow> jsstring list \<Rightarrow> csv_state" where
  "between rs r \<equiv> \<lparr>cs_records = rs, cs_record = r, cs_cell = [], cs_quoted = False, cs_closed = False\<rparr>"

lemma plain_scan:
  "\<not> needs_quotes s \<Longrightarrow>
     csv_loop \<lparr>cs_records = rs, cs_record = r, cs_cell = c, cs_quoted = False, cs_closed = False\<rparr> (s @ rest) =
     csv_loop \<lparr>cs_records = rs, cs_record = r, cs_cell = c @ s, cs_quoted = False, cs_closed = False\<rparr> rest"
  by (induction s arbitrary: c) (auto simp: needs_quotes_def)

lemma quoted_scan:
  "rest = [] \<or> hd rest \<noteq> 34 \<Longrightarrow>
     csv_loop \<lparr>cs_records = rs, cs_record = r, cs_cell = c, cs_quoted = True, cs_closed = False\<rparr> (double_quotes s @ 34 # rest) =
     csv_loop \<lparr>cs_records = rs, cs_record = r, cs_cell = c @ s, cs_quoted = False, cs_closed = True\<rparr> rest"
proof (induction s arbitrary: c)
  case Nil
  then show ?case by (cases rest) (auto simp: double_quotes_def)
next
  case (Cons a s)
  have "double_quotes (a # s) = (if a = 34 then [34, 34] else [a]) @ double_quotes s"
    by (simp add: double_quotes_def)
  then show ?case using Cons.IH [of "c @ [a]"] Cons.prems by auto
qed

text \<open>A written field is one cell, before a comma and at the end of a record.\<close>

definition field_of :: "jsstring option \<Rightarrow> jsstring" where
  "field_of v = (case v of None \<Rightarrow> [] | Some s \<Rightarrow> s)"

lemma read_field:
  assumes "rest \<noteq> []" "hd rest \<in> {44, 13}"
  shows "\<exists>closed. csv_loop (between rs r) (writeCsvField v @ rest) =
     csv_loop \<lparr>cs_records = rs, cs_record = r, cs_cell = field_of v, cs_quoted = False, cs_closed = closed\<rparr> rest"
proof (cases v)
  case None
  then show ?thesis by (auto simp: writeCsvField_def field_of_def)
next
  case (Some s)
  show ?thesis
  proof (cases "needs_quotes s")
    case True
    have "hd rest \<noteq> 34" using assms by auto
    then show ?thesis using quoted_scan [of rest rs r "[]" s] True Some
      by (auto simp: writeCsvField_text field_of_def)
  next
    case False
    then show ?thesis using plain_scan [OF False, of rs r "[]" rest] Some
      by (auto simp: writeCsvField_text field_of_def)
  qed
qed

lemma read_comma: "csv_loop (between rs r) (writeCsvField v @ 44 # rest) = csv_loop (between rs (r @ [field_of v])) rest"
  using read_field [of "44 # rest" rs r v] by (auto simp: finishCell_def)

lemma read_last:
  assumes "\<not> blank_record (r @ [field_of v])"
  shows "csv_loop (between rs r) (writeCsvField v @ 13 # 10 # rest) = csv_loop (between (rs @ [r @ [field_of v]]) []) rest"
  using read_field [of "13 # 10 # rest" rs r v] assms by (auto simp: finishCell_def finishRecord_def)

lemma read_fields:
  "vs \<noteq> [] \<Longrightarrow> \<not> blank_record (r @ map field_of vs) \<Longrightarrow>
     csv_loop (between rs r) (writeCsvRow vs @ rest) = csv_loop (between (rs @ [r @ map field_of vs]) []) rest"
proof (induction vs arbitrary: r)
  case Nil
  then show ?case by simp
next
  case (Cons v vs)
  show ?case
  proof (cases vs)
    case Nil
    then show ?thesis using read_last [of r v rs rest] Cons.prems by (simp add: writeCsvRow_def)
  next
    case (Cons w ws)
    have "csv_loop (between rs r) (writeCsvRow (v # vs) @ rest) = csv_loop (between rs (r @ [field_of v])) (writeCsvRow vs @ rest)"
      using Cons read_comma [of rs r v "writeCsvRow vs @ rest"] by (simp add: writeCsvRow_def)
    also have "\<dots> = csv_loop (between (rs @ [(r @ [field_of v]) @ map field_of vs]) []) rest"
      using Cons.IH [of "r @ [field_of v]"] Cons.prems Cons by simp
    finally show ?thesis by simp
  qed
qed

theorem read_rows:
  assumes "\<And>vs. vs \<in> set rows \<Longrightarrow> 2 \<le> length vs"
  shows "parseCsvRecords (concat (map writeCsvRow rows)) = Inr (map (map field_of) rows)"
proof -
  have "csv_loop (between rs []) (concat (map writeCsvRow rows)) = Inr (between (rs @ map (map field_of) rows) [])" for rs
    using assms
  proof (induction rows arbitrary: rs)
    case Nil
    then show ?case by simp
  next
    case (Cons vs rows)
    have l: "2 \<le> length vs" using Cons.prems by simp
    then have "vs \<noteq> []" "\<not> blank_record ([] @ map field_of vs)"
      by (auto simp: blank_record_def split: list.splits)
    from read_fields [OF this, of rs "concat (map writeCsvRow rows)"]
    show ?case using Cons.IH [of "rs @ [map field_of vs]"] Cons.prems by simp
  qed
  from this [of "[]"] show ?thesis by (simp add: parseCsvRecords_def csv_start_def)
qed

end
