(* ===== verification/ImportParsing.thy ===== *)
theory ImportParsing
  imports LightInventory CsvRecords
begin

text \<open>
  The parser of import files, the first half of \<^verbatim>\<open>services/streetLightsImport.service.ts\<close>: a file is
  CSV, JSON or GeoJSON, and every source row becomes a \<open>parsed_row\<close> with a payload or with an error.
  Reading bytes, JSON and numbers, lower-casing and Unicode normalization are arguments.
\<close>

record import_env =
  im_utf8 :: "buffer \<Rightarrow> jsstring"
  im_json :: "jsstring \<Rightarrow> js_value option"
  im_number :: "jsstring \<Rightarrow> js_number"
  im_text :: "js_number \<Rightarrow> jsstring"
  im_lower :: "jsstring \<Rightarrow> jsstring"
  im_nfc :: "jsstring \<Rightarrow> jsstring"

record import_payload =
  ip_number :: jsstring
  ip_external :: "jsstring option option"
  ip_latitude :: js_number
  ip_longitude :: js_number
  ip_address :: "jsstring option option"
  ip_district :: "jsstring option option"
  ip_lamp :: "jsstring option option"
  ip_status :: "light_status option"

record parsed_row =
  pr_index :: nat
  pr_number :: jsstring
  pr_payload :: "import_payload option"
  pr_code :: "jsstring option"
  pr_duplicate :: "nat option"

definition MAX_IMPORT_FILE_BYTES :: nat where
  "MAX_IMPORT_FILE_BYTES = 16 * 1024 * 1024"

definition MAX_IMPORT_ROWS :: nat where
  "MAX_IMPORT_ROWS = 50000"

section \<open>One record\<close>

text \<open>\<open>None\<close> is \<^verbatim>\<open>undefined\<close>, \<open>Some None\<close> is \<^verbatim>\<open>null\<close>.\<close>

definition asOptionalText :: "import_env \<Rightarrow> js_value \<Rightarrow> jsstring option option" where
  "asOptionalText env v =
     (case v of
        JNull \<Rightarrow> Some None
      | JStr s \<Rightarrow> if s = [] then Some None else Some (Some s)
      | JNum n \<Rightarrow> if is_finite_number v then Some (Some (im_text env n)) else None
      | _ \<Rightarrow> None)"

definition firstOwn :: "js_value \<Rightarrow> string list \<Rightarrow> js_value option" where
  "firstOwn v keys = map_option (\<lambda>k. js_get k v) (List.find (\<lambda>k. has_own k v) keys)"

definition parseNumber :: "import_env \<Rightarrow> js_value \<Rightarrow> js_number option" where
  "parseNumber env v =
     (case v of
        JNum n \<Rightarrow> if is_finite_number v then Some n else None
      | JStr s \<Rightarrow>
          if js_trim s \<noteq> [] \<and> is_finite_number (JNum (im_number env s)) then Some (im_number env s) else None
      | _ \<Rightarrow> None)"

definition error_row :: "nat \<Rightarrow> jsstring \<Rightarrow> string \<Rightarrow> parsed_row" where
  "error_row i number code = \<lparr>pr_index = i, pr_number = number, pr_payload = None, pr_code = Some (js code), pr_duplicate = None\<rparr>"

text \<open>A field: its error, or what the payload says of it (\<open>None\<close> when the row has no such field).\<close>

definition text_input :: "import_env \<Rightarrow> js_value \<Rightarrow> string list \<Rightarrow> unit + jsstring option option" where
  "text_input env v aliases =
     (case firstOwn v aliases of
        None \<Rightarrow> Inr None
      | Some x \<Rightarrow> (case asOptionalText env x of None \<Rightarrow> Inl () | Some t \<Rightarrow> Inr (Some t)))"

definition status_input :: "js_value \<Rightarrow> unit + light_status option" where
  "status_input v =
     (case firstOwn v [''status''] of
        None \<Rightarrow> Inr None
      | Some x \<Rightarrow>
          (case x of
             JStr s \<Rightarrow> (case status_of_text s of None \<Rightarrow> Inl () | Some st \<Rightarrow> Inr (Some st))
           | _ \<Rightarrow> Inl ()))"

text \<open>The position: from the array of a geometry when there is one, else from the record's own fields.\<close>

definition position_input :: "import_env \<Rightarrow> js_value \<Rightarrow> js_value \<Rightarrow> (js_number \<times> js_number) option" where
  "position_input env v coordinates =
     (let geo = (case coordinates of JArr xs \<Rightarrow> Some xs | _ \<Rightarrow> None);
          at_index = (\<lambda>xs i. if i < length xs then xs ! i else JUndefined);
          longitude = (case geo of Some xs \<Rightarrow> Some (at_index xs 0) | None \<Rightarrow> firstOwn v [''longitude'', ''lon'', ''lng'']);
          latitude = (case geo of Some xs \<Rightarrow> Some (at_index xs 1) | None \<Rightarrow> firstOwn v [''latitude'', ''lat'']) in
      case (Option.bind latitude (parseNumber env), Option.bind longitude (parseNumber env)) of
        (Some lat, Some lon) \<Rightarrow> if valid_coordinates lat lon then Some (lat, lon) else None
      | _ \<Rightarrow> None)"

definition parseRecord :: "import_env \<Rightarrow> js_value \<Rightarrow> nat \<Rightarrow> js_value \<Rightarrow> parsed_row" where
  "parseRecord env v i coordinates =
     (if \<not> isRecord v then error_row i [] ''invalid_row''
      else
        (let number = canonicalizeInventoryNumber (im_nfc env)
               (case firstOwn v [''inventory_number'', ''inventoryNumber''] of Some (JStr s) \<Rightarrow> s | _ \<Rightarrow> []) in
         if number = [] then error_row i [] ''missing_inventory_number''
         else
           (case position_input env v coordinates of
              None \<Rightarrow> error_row i number ''invalid_coordinates''
            | Some (lat, lon) \<Rightarrow>
           (case text_input env v [''external_id'', ''externalId''] of
              Inl _ \<Rightarrow> error_row i number ''invalid_external_id''
            | Inr external \<Rightarrow>
           (case text_input env v [''address''] of
              Inl _ \<Rightarrow> error_row i number ''invalid_address''
            | Inr address \<Rightarrow>
           (case text_input env v [''district''] of
              Inl _ \<Rightarrow> error_row i number ''invalid_district''
            | Inr district \<Rightarrow>
           (case text_input env v [''lamp_type'', ''lampType''] of
              Inl _ \<Rightarrow> error_row i number ''invalid_lamp_type''
            | Inr lamp \<Rightarrow>
           (case status_input v of
              Inl _ \<Rightarrow> error_row i number ''invalid_status''
            | Inr st \<Rightarrow>
                \<lparr>pr_index = i, pr_number = number,
                 pr_payload = Some \<lparr>ip_number = number, ip_external = external, ip_latitude = lat, ip_longitude = lon,
                   ip_address = address, ip_district = district, ip_lamp = lamp, ip_status = st\<rparr>,
                 pr_code = None, pr_duplicate = None\<rparr>))))))))"

section \<open>Files\<close>

text \<open>The rows of a file are numbered from one.\<close>

definition row_numbers :: "nat \<Rightarrow> nat list" where
  "row_numbers n = [1..<Suc n]"

lemma length_row_numbers [simp]: "length (row_numbers n) = n"
  by (simp add: row_numbers_def)

lemma distinct_row_numbers [simp]: "distinct (row_numbers n)"
  by (simp add: row_numbers_def)

datatype import_error = ImportError nat string

definition find_header :: "jsstring list \<Rightarrow> string list \<Rightarrow> bool" where
  "find_header headers aliases \<longleftrightarrow> list_ex (\<lambda>h. h \<in> js ` set aliases) headers"

definition strip_bom :: "jsstring \<Rightarrow> jsstring" where
  "strip_bom text = (case text of c # rest \<Rightarrow> if c = 0xfeff then rest else text | [] \<Rightarrow> [])"

definition csv_row :: "import_env \<Rightarrow> jsstring list \<Rightarrow> nat \<Rightarrow> jsstring list \<Rightarrow> parsed_row" where
  "csv_row env headers i values =
     (if length values \<noteq> length headers then error_row i [] ''malformed_record''
      else parseRecord env (JObj (zip headers (map JStr values))) i JUndefined)"

definition csv_failure :: "csv_error \<Rightarrow> import_error" where
  "csv_failure e = ImportError 400 (case e of MalformedQuoted \<Rightarrow> ''Malformed quoted CSV field'' | UnclosedQuoted \<Rightarrow> ''Unclosed quoted CSV field'')"

definition parseCsv :: "import_env \<Rightarrow> jsstring \<Rightarrow> import_error + parsed_row list" where
  "parseCsv env text =
     (case parseCsvRecords (strip_bom text) of
        Inl e \<Rightarrow> Inl (csv_failure e)
      | Inr records \<Rightarrow>
          if length records < 2 then Inl (ImportError 400 ''Import file has no data records'')
          else if length records - 1 > MAX_IMPORT_ROWS then Inl (ImportError 413 ''Import file exceeds the row limit'')
          else
            (let headers = map js_trim (hd records) in
             if \<not> distinct headers then Inl (ImportError 400 ''CSV header contains duplicate fields'')
             else if \<not> (find_header headers [''inventory_number'', ''inventoryNumber''] \<and>
                 find_header headers [''latitude'', ''lat''] \<and> find_header headers [''longitude'', ''lon'', ''lng''])
             then Inl (ImportError 400 ''CSV requires inventory number, latitude, and longitude columns'')
             else Inr (map2 (csv_row env headers) (row_numbers (length records - 1)) (tl records))))"

definition feature_row :: "import_env \<Rightarrow> nat \<Rightarrow> js_value \<Rightarrow> parsed_row" where
  "feature_row env i item =
     (case item of
        JObj _ \<Rightarrow>
          (let geometry = js_get ''geometry'' item; coordinates = js_get ''coordinates'' geometry in
           if falsy geometry \<or> js_get ''type'' geometry \<noteq> JStr (js ''Point'') \<or> \<not> (case coordinates of JArr _ \<Rightarrow> True | _ \<Rightarrow> False)
           then error_row i [] ''invalid_geometry''
           else parseRecord env (js_get ''properties'' item) i coordinates)
      | JArr _ \<Rightarrow> error_row i [] ''invalid_geometry''
      | _ \<Rightarrow> parseRecord env JNull i JUndefined)"

definition numbered_rows :: "(nat \<Rightarrow> js_value \<Rightarrow> parsed_row) \<Rightarrow> js_value list \<Rightarrow> import_error + parsed_row list" where
  "numbered_rows f items =
     (if length items > MAX_IMPORT_ROWS then Inl (ImportError 413 ''Import file exceeds the row limit'')
      else Inr (map2 f (row_numbers (length items)) items))"

definition parseJson :: "import_env \<Rightarrow> jsstring \<Rightarrow> import_error + parsed_row list" where
  "parseJson env text =
     (case im_json env text of
        None \<Rightarrow> Inl (ImportError 400 ''Import file is not valid JSON'')
      | Some v \<Rightarrow>
          (case v of
             JArr items \<Rightarrow> numbered_rows (\<lambda>i x. parseRecord env x i JUndefined) items
           | JObj _ \<Rightarrow>
               if has_own ''features'' v then
                 (case js_get ''features'' v of
                    JArr features \<Rightarrow> numbered_rows (feature_row env) features
                  | _ \<Rightarrow> Inl (ImportError 400 ''GeoJSON FeatureCollection requires a features array''))
               else Inr [parseRecord env v 1 JUndefined]
           | _ \<Rightarrow> Inl (ImportError 400 ''Unsupported JSON import structure'')))"

definition parseImportSource :: "import_env \<Rightarrow> buffer \<Rightarrow> jsstring \<Rightarrow> jsstring \<Rightarrow> import_error + parsed_row list" where
  "parseImportSource env bytes mimetype originalname =
     (if length bytes > MAX_IMPORT_FILE_BYTES then Inl (ImportError 413 ''Import file exceeds the 16 MiB limit'')
      else
        (let text = im_utf8 env bytes; name = im_lower env originalname in
         if js_trim text = [] then Inl (ImportError 400 ''Import file is empty'')
         else if contains_text (js ''json'') mimetype \<or> js_ends (js ''.json'') name \<or> js_ends (js ''.geojson'') name
         then parseJson env text
         else parseCsv env text))"

section \<open>What a parsed row is\<close>

text \<open>
  A row has a payload or an error, its payload has the row's canonical number and a position in range,
  and the rows of a file are numbered from one.
\<close>

definition row_valid :: "import_env \<Rightarrow> parsed_row \<Rightarrow> bool" where
  "row_valid env r \<longleftrightarrow>
     (pr_payload r = None) = (pr_code r \<noteq> None) \<and> pr_duplicate r = None \<and>
     (\<exists>s. pr_number r = [] \<or> pr_number r = canonicalizeInventoryNumber (im_nfc env) s) \<and>
     (case pr_payload r of
        None \<Rightarrow> True
      | Some p \<Rightarrow> ip_number p = pr_number r \<and> ip_number p \<noteq> [] \<and> valid_coordinates (ip_latitude p) (ip_longitude p))"

lemma error_row_valid: "s = [] \<or> (\<exists>x. s = canonicalizeInventoryNumber (im_nfc env) x) \<Longrightarrow> row_valid env (error_row i s code)"
  by (auto simp: row_valid_def error_row_def)

lemma error_row_index [simp]: "pr_index (error_row i s code) = i"
  by (simp add: error_row_def)

lemma position_input_valid: "position_input env v c = Some (lat, lon) \<Longrightarrow> valid_coordinates lat lon"
  by (auto simp: position_input_def Let_def split: option.splits if_splits)

lemma parseRecord_valid: "row_valid env (parseRecord env v i c) \<and> pr_index (parseRecord env v i c) = i"
proof (cases "isRecord v")
  case False
  then show ?thesis by (simp add: parseRecord_def error_row_valid)
next
  case True
  define s where "s = (case firstOwn v [''inventory_number'', ''inventoryNumber''] of Some (JStr s) \<Rightarrow> s | _ \<Rightarrow> [])"
  define number where "number = canonicalizeInventoryNumber (im_nfc env) s"
  have e: "row_valid env (error_row i number code)" for code
    by (rule error_row_valid) (auto simp: number_def)
  have "row_valid env \<lparr>pr_index = i, pr_number = number,
      pr_payload = Some \<lparr>ip_number = number, ip_external = a, ip_latitude = lat, ip_longitude = lon,
        ip_address = b, ip_district = d, ip_lamp = l, ip_status = st\<rparr>, pr_code = None, pr_duplicate = None\<rparr>"
    if "valid_coordinates lat lon" "number \<noteq> []" for a b d l st lat lon
    using that by (auto simp: row_valid_def number_def)
  then show ?thesis
    using True e position_input_valid [of env v c]
    unfolding parseRecord_def s_def [symmetric] Let_def number_def [symmetric]
    by (auto simp: error_row_valid split: option.splits sum.splits prod.splits)
qed

lemma map2_valid:
  assumes "\<And>i x. row_valid env (f i x) \<and> pr_index (f i x) = i" "length is = length xs"
  shows "list_all (row_valid env) (map2 f is xs) \<and> map pr_index (map2 f is xs) = is"
  using assms(2) by (induction "is" xs rule: list_induct2) (simp_all add: assms(1))

lemma numbered_valid:
  assumes "\<And>i x. row_valid env (f i x) \<and> pr_index (f i x) = i" "numbered_rows f items = Inr rows"
  shows "list_all (row_valid env) rows \<and> map pr_index rows = (row_numbers (length rows))"
proof -
  have r: "rows = map2 f (row_numbers (length items)) items"
    using assms(2) by (auto simp: numbered_rows_def split: if_splits)
  have l: "length (row_numbers (length items)) = length items" by simp
  from map2_valid [where f = f, OF assms(1) l] show ?thesis unfolding r by simp
qed

lemma csv_row_valid: "row_valid env (csv_row env h i vs) \<and> pr_index (csv_row env h i vs) = i"
  using parseRecord_valid by (simp add: csv_row_def error_row_valid)

lemma feature_row_valid: "row_valid env (feature_row env i v) \<and> pr_index (feature_row env i v) = i"
  using parseRecord_valid by (auto simp: feature_row_def error_row_valid Let_def split: js_value.splits)

lemma parseCsv_valid:
  assumes "parseCsv env text = Inr rows"
  shows "list_all (row_valid env) rows \<and> map pr_index rows = (row_numbers (length rows))"
proof -
  obtain records where r: "rows = map2 (csv_row env (map js_trim (hd records))) (row_numbers (length records - 1)) (tl records)"
    using assms by (auto simp: parseCsv_def Let_def split: sum.splits if_splits)
  have l: "length (row_numbers (length records - 1)) = length (tl records)" by simp
  from map2_valid [of env "csv_row env (map js_trim (hd records))", OF csv_row_valid l]
  show ?thesis unfolding r by simp
qed

lemma parseJson_valid:
  assumes "parseJson env text = Inr rows"
  shows "list_all (row_valid env) rows \<and> map pr_index rows = (row_numbers (length rows))"
proof -
  have one: "list_all (row_valid env) [parseRecord env v 1 JUndefined] \<and>
     map pr_index [parseRecord env v 1 JUndefined] = (row_numbers (length [parseRecord env v 1 JUndefined]))" for v
    using parseRecord_valid by (simp add: row_numbers_def)
  have arr: "numbered_rows (\<lambda>i x. parseRecord env x i JUndefined) items = Inr rows \<Longrightarrow> ?thesis" for items
    by (rule numbered_valid [where f = "\<lambda>i x. parseRecord env x i JUndefined"]) (rule parseRecord_valid)
  have feat: "numbered_rows (feature_row env) items = Inr rows \<Longrightarrow> ?thesis" for items
    by (rule numbered_valid [where f = "feature_row env"]) (rule feature_row_valid)
  show ?thesis
    using assms arr feat one
    by (auto simp: parseJson_def split: option.splits js_value.splits if_splits)
qed

lemma parseImportSource_valid:
  assumes "parseImportSource env bytes mimetype name = Inr rows"
  shows "list_all (row_valid env) rows \<and> map pr_index rows = (row_numbers (length rows)) \<and> length rows \<le> MAX_IMPORT_ROWS"
proof -
  have "length rows \<le> MAX_IMPORT_ROWS" if "parseCsv env tx = Inr rows" for tx
    using that by (auto simp: parseCsv_def Let_def split: sum.splits if_splits)
  moreover have "length rows \<le> MAX_IMPORT_ROWS" if "parseJson env tx = Inr rows" for tx
    using that by (auto simp: parseJson_def numbered_rows_def split: option.splits js_value.splits if_splits)
      (auto simp: MAX_IMPORT_ROWS_def)
  ultimately show ?thesis using assms parseCsv_valid parseJson_valid
    by (auto simp: parseImportSource_def Let_def split: if_splits)
qed

end
