(* ===== verification/ImportStore.thy ===== *)
theory ImportStore
  imports ImportParsing
begin

text \<open>
  The tables of an import and the statements on them: the preview and its confirmation, the second half
  of \<^verbatim>\<open>services/streetLightsImport.service.ts\<close>, and the statements of the queue worker,
  \<^verbatim>\<open>services/importQueueWorker.service.ts\<close>.  A batch has its source rows in \<^verbatim>\<open>import_batch_rows\<close>; the
  worker takes pending rows in bounded groups and writes light points, audit events, outcomes and the
  batch's counters in one statement.  The texts shown for a row are not modelled, only their codes.
\<close>

section \<open>Tables\<close>

datatype batch_state = Preview | Queued | Processing | Completed | CompletedWithErrors

datatype row_outcome = Pending | RowCreated | RowUpdated | RowUnchanged | RowSkipped | RowFailed

datatype preview_action = ActCreate | ActUpdate | ActSkip | ActError

record import_batch =
  ib_id :: int
  ib_admin :: int
  ib_filename :: jsstring
  ib_key :: jsstring
  ib_total :: nat
  ib_state :: batch_state
  ib_update :: bool
  ib_expires :: "int option"
  ib_queued :: "int option"
  ib_started :: "int option"
  ib_completed :: "int option"
  ib_lease :: "int option"
  ib_token :: "jsstring option"
  ib_attempts :: nat
  ib_created :: nat
  ib_updated :: nat
  ib_unchanged :: nat
  ib_skipped :: nat
  ib_failed :: nat
  ib_successful :: nat
  ib_applied :: nat

record import_row =
  ir_batch :: int
  ir_source :: nat
  ir_inventory :: "jsstring option"
  ir_outcome :: row_outcome
  ir_action :: preview_action
  ir_existing :: "int option"
  ir_entity :: "int option"
  ir_reason :: "jsstring option"
  ir_payload :: "import_payload option"

record audit_event =
  ae_entity :: int
  ae_number :: jsstring
  ae_created :: bool
  ae_batch :: int
  ae_actor :: int
  ae_changes :: "(string \<times> js_value \<times> js_value) list"

record import_db =
  im_batches :: "import_batch list"
  im_rows :: "import_row list"
  im_lights :: "inventory_row list"
  im_events :: "audit_event list"
  im_next_light :: int
  im_next_batch :: int

definition rows_of :: "int \<Rightarrow> import_db \<Rightarrow> import_row list" where
  "rows_of b db = filter (\<lambda>r. ir_batch r = b) (im_rows db)"

definition count_outcome :: "row_outcome \<Rightarrow> int \<Rightarrow> import_db \<Rightarrow> nat" where
  "count_outcome oc b db = length (filter (\<lambda>r. ir_outcome r = oc) (rows_of b db))"

text \<open>Deleting a batch deletes its rows (\<^verbatim>\<open>ON DELETE CASCADE\<close>).\<close>

definition cleanupExpiredPreviews :: "int \<Rightarrow> import_db \<Rightarrow> import_db" where
  "cleanupExpiredPreviews t db =
     (let gone = (\<lambda>b. ib_state b = Preview \<and> (case ib_expires b of None \<Rightarrow> False | Some e \<Rightarrow> e \<le> t));
          ids = ib_id ` set (filter gone (im_batches db)) in
      db\<lparr>im_batches := filter (\<lambda>b. \<not> gone b) (im_batches db), im_rows := filter (\<lambda>r. ir_batch r \<notin> ids) (im_rows db)\<rparr>)"

section \<open>Duplicates in a file\<close>

text \<open>The text \<^verbatim>\<open>JSON.stringify\<close> makes of a payload determines it up to negative zeros.\<close>

definition stored_payload :: "import_payload \<Rightarrow> import_payload" where
  "stored_payload p = p\<lparr>ip_latitude := no_negative_zero (ip_latitude p), ip_longitude := no_negative_zero (ip_longitude p)\<rparr>"

definition signature :: "parsed_row \<Rightarrow> import_payload option" where
  "signature r = map_option stored_payload (pr_payload r)"

record dup_group =
  dg_number :: jsstring
  dg_first :: parsed_row
  dg_signature :: "import_payload option"
  dg_duplicates :: "parsed_row list"
  dg_conflict :: bool

fun add_to_groups :: "parsed_row \<Rightarrow> dup_group list \<Rightarrow> dup_group list" where
  "add_to_groups r [] =
     [\<lparr>dg_number = pr_number r, dg_first = r, dg_signature = signature r, dg_duplicates = [], dg_conflict = (signature r = None)\<rparr>]"
| "add_to_groups r (g # gs) =
     (if dg_number g = pr_number r
      then g\<lparr>dg_duplicates := dg_duplicates g @ [r],
             dg_conflict := dg_conflict g \<or> signature r = None \<or> dg_signature g = None \<or> signature r \<noteq> dg_signature g\<rparr> # gs
      else g # add_to_groups r gs)"

definition duplicate_groups :: "parsed_row list \<Rightarrow> dup_group list" where
  "duplicate_groups rows = foldl (\<lambda>gs r. if pr_number r = [] then gs else add_to_groups r gs) [] rows"

definition duplicate_conflicts :: "parsed_row list \<Rightarrow> nat list" where
  "duplicate_conflicts rows =
     concat (map (\<lambda>g. if dg_duplicates g \<noteq> [] \<and> dg_conflict g then map pr_index (dg_first g # dg_duplicates g) else [])
       (duplicate_groups rows))"

definition duplicate_skips :: "parsed_row list \<Rightarrow> nat list" where
  "duplicate_skips rows =
     concat (map (\<lambda>g. if dg_conflict g then [] else map pr_index (dg_duplicates g)) (duplicate_groups rows))"

section \<open>Preview and confirmation\<close>

text \<open>The light points that have one of the numbers, asked for in groups of 500.\<close>

definition LOOKUP_CHUNK :: nat where
  "LOOKUP_CHUNK = 500"

definition lookup_existing :: "inventory_row list \<Rightarrow> jsstring list \<Rightarrow> (jsstring \<times> int) list" where
  "lookup_existing table numbers =
     concat (map (\<lambda>chunk. map (\<lambda>l. (iv_number l, iv_id l)) (filter (\<lambda>l. iv_number l \<in> set chunk) table)) (pieces LOOKUP_CHUNK numbers))"

definition preview_row :: "int \<Rightarrow> nat list \<Rightarrow> nat list \<Rightarrow> (jsstring \<times> int) list \<Rightarrow> parsed_row \<Rightarrow> import_row" where
  "preview_row b conflicts skips existing r =
     (let found = Option.bind (pr_payload r) (\<lambda>p. map_of existing (ip_number p));
          code = (if pr_index r \<in> set conflicts then Some (js ''conflicting_duplicate_inventory_number'') else pr_code r);
          act = (if pr_index r \<in> set skips then ActSkip
                 else if code \<noteq> None \<or> pr_payload r = None then ActError
                 else if found \<noteq> None \<and> found \<noteq> Some 0 then ActUpdate else ActCreate) in
      \<lparr>ir_batch = b, ir_source = pr_index r, ir_inventory = (if pr_number r = [] then None else Some (pr_number r)),
       ir_outcome = (case act of ActError \<Rightarrow> RowFailed | ActSkip \<Rightarrow> RowSkipped | _ \<Rightarrow> Pending),
       ir_action = act, ir_existing = (if act = ActUpdate then found else None), ir_entity = None,
       ir_reason = (case act of ActSkip \<Rightarrow> Some (js ''duplicate_in_same_import'')
         | ActError \<Rightarrow> Some (case code of None \<Rightarrow> js ''invalid_row'' | Some c \<Rightarrow> c) | _ \<Rightarrow> None),
       ir_payload = (case act of ActError \<Rightarrow> None | ActSkip \<Rightarrow> None | _ \<Rightarrow> map_option stored_payload (pr_payload r))\<rparr>)"

text \<open>\<^verbatim>\<open>path.basename\<close> of a POSIX path, without control characters, at most 255 code units.\<close>

definition safeFilename :: "jsstring \<Rightarrow> jsstring" where
  "safeFilename s =
     (let slashed = map (\<lambda>c. if c = 92 then 47 else c) s;
          base = rev (takeWhile (\<lambda>c. c \<noteq> 47) (dropWhile (\<lambda>c. c = 47) (rev slashed)));
          r = take 255 (filter (\<lambda>c. \<not> (c \<le> 31 \<or> c = 127)) base) in
      if r = [] then js ''import'' else r)"

definition PREVIEW_MINUTES :: int where
  "PREVIEW_MINUTES = 15"

definition preview_batch :: "int \<Rightarrow> int \<Rightarrow> jsstring \<Rightarrow> jsstring \<Rightarrow> int \<Rightarrow> nat \<Rightarrow> import_batch" where
  "preview_batch b admin filename key t n =
     \<lparr>ib_id = b, ib_admin = admin, ib_filename = filename, ib_key = key, ib_total = n, ib_state = Preview, ib_update = False,
      ib_expires = Some (t + PREVIEW_MINUTES * 60000), ib_queued = None, ib_started = None, ib_completed = None,
      ib_lease = None, ib_token = None, ib_attempts = 0, ib_created = 0, ib_updated = 0, ib_unchanged = 0, ib_skipped = 0,
      ib_failed = 0, ib_successful = 0, ib_applied = 0\<rparr>"

text \<open>What may fail on the way; a lost \<^verbatim>\<open>COMMIT\<close> may have taken effect.\<close>

datatype preview_fault = NoFault | CleanupFails | LookupFails | TransactionFails | CommitLost

definition buildImportPreview :: "int \<Rightarrow> jsstring \<Rightarrow> int \<Rightarrow> jsstring \<Rightarrow> parsed_row list \<Rightarrow> preview_fault \<Rightarrow> import_db \<Rightarrow>
    import_db \<times> jsstring option" where
  "buildImportPreview t key admin filename rows fault db =
     (if fault = CleanupFails then (db, None)
      else
        (let db1 = cleanupExpiredPreviews t db; conflicts = duplicate_conflicts rows; skips = duplicate_skips rows;
             numbers = remdups (map ip_number (List.map_filter pr_payload
               (filter (\<lambda>r. pr_index r \<notin> set conflicts \<and> pr_index r \<notin> set skips) rows)));
             existing = lookup_existing (im_lights db1) numbers; b = im_next_batch db1 in
         if fault \<in> {LookupFails, TransactionFails} \<or> (\<exists>x \<in> set (im_batches db1). ib_key x = key) then (db1, None)
         else
           (db1\<lparr>im_batches := im_batches db1 @ [preview_batch b admin (safeFilename filename) key t (length rows)],
               im_rows := im_rows db1 @ concat (pieces LOOKUP_CHUNK (map (preview_row b conflicts skips existing) rows)),
               im_next_batch := b + 1\<rparr>,
            if fault = CommitLost then None else Some key)))"

definition find_batch :: "(import_batch \<Rightarrow> bool) \<Rightarrow> import_db \<Rightarrow> import_batch option" where
  "find_batch p db = List.find p (im_batches db)"

definition change_batch :: "int \<Rightarrow> (import_batch \<Rightarrow> import_batch) \<Rightarrow> import_db \<Rightarrow> import_db" where
  "change_batch b f db = db\<lparr>im_batches := map (\<lambda>x. if ib_id x = b then f x else x) (im_batches db)\<rparr>"

definition confirmImport :: "int \<Rightarrow> int \<Rightarrow> jsstring \<Rightarrow> bool \<Rightarrow> import_db \<Rightarrow> import_db \<times> (import_error + int \<times> batch_state \<times> nat)" where
  "confirmImport t admin key allow db0 =
     (let db = cleanupExpiredPreviews t db0; missing = Inl (ImportError 400 ''Import preview expired or not found'') in
      case find_batch (\<lambda>x. ib_key x = key \<and> ib_admin x = admin) db of
        None \<Rightarrow> (db, missing)
      | Some x \<Rightarrow>
          if ib_state x = Preview then
            (if (case ib_expires x of None \<Rightarrow> True | Some e \<Rightarrow> e \<le> t) then (db, missing)
             else
               (change_batch (ib_id x) (\<lambda>y. y\<lparr>ib_state := Queued, ib_update := allow, ib_queued := Some t, ib_expires := None,
                  ib_successful := 0, ib_applied := 0, ib_created := 0, ib_updated := 0, ib_unchanged := 0,
                  ib_skipped := count_outcome RowSkipped (ib_id x) db, ib_failed := count_outcome RowFailed (ib_id x) db\<rparr>) db,
                Inr (ib_id x, Queued, ib_total x)))
          else (db, Inr (ib_id x, ib_state x, ib_total x)))"

section \<open>The worker's statements\<close>

definition LEASE_SECONDS :: int where
  "LEASE_SECONDS = 30"

definition ROWS_PER_QUERY :: nat where
  "ROWS_PER_QUERY = 100"

definition lease_lost :: "int \<Rightarrow> import_batch \<Rightarrow> bool" where
  "lease_lost t x \<longleftrightarrow> ib_state x = Processing \<and> (case ib_lease x of None \<Rightarrow> False | Some l \<Rightarrow> l < t)"

definition requeued :: "int \<Rightarrow> import_batch \<Rightarrow> import_batch" where
  "requeued t x = (if lease_lost t x then x\<lparr>ib_state := Queued, ib_token := None, ib_lease := None\<rparr> else x)"

definition queue_order :: "import_batch \<Rightarrow> bool \<times> int \<times> int" where
  "queue_order x = (ib_queued x = None, case ib_queued x of None \<Rightarrow> 0 | Some q \<Rightarrow> q, ib_id x)"

definition waiting_batches :: "import_db \<Rightarrow> import_batch list" where
  "waiting_batches db =
     (if \<exists>x \<in> set (im_batches db). ib_state x = Processing then []
      else sort_key queue_order (filter (\<lambda>x. ib_state x = Queued) (im_batches db)))"

definition claimed :: "int \<Rightarrow> jsstring \<Rightarrow> import_batch \<Rightarrow> import_batch" where
  "claimed t token x = x\<lparr>ib_state := Processing, ib_token := Some token, ib_lease := Some (t + LEASE_SECONDS * 1000),
     ib_started := Some (case ib_started x of None \<Rightarrow> t | Some s \<Rightarrow> s), ib_attempts := ib_attempts x + 1\<rparr>"

definition requeue :: "int \<Rightarrow> import_db \<Rightarrow> import_db" where
  "requeue t db = db\<lparr>im_batches := map (requeued t) (im_batches db)\<rparr>"

definition claimBatch :: "int \<Rightarrow> jsstring \<Rightarrow> import_db \<Rightarrow> import_db \<times> int option" where
  "claimBatch t token db0 =
     (let db = requeue t (cleanupExpiredPreviews t db0) in
      case waiting_batches db of
        [] \<Rightarrow> (db, None)
      | x # _ \<Rightarrow> (change_batch (ib_id x) (claimed t token) db, Some (ib_id x)))"

text \<open>The pending rows the statement takes: none unless the worker still owns the batch.\<close>

definition owned :: "int \<Rightarrow> jsstring \<Rightarrow> import_db \<Rightarrow> import_batch option" where
  "owned b token db = find_batch (\<lambda>x. ib_id x = b \<and> ib_state x = Processing \<and> ib_token x = Some token) db"

definition pending_rows :: "int \<Rightarrow> import_db \<Rightarrow> import_row list" where
  "pending_rows b db = filter (\<lambda>r. ir_outcome r = Pending) (rows_of b db)"

definition selected :: "int \<Rightarrow> jsstring \<Rightarrow> nat \<Rightarrow> import_db \<Rightarrow> import_row list" where
  "selected b token limit db =
     (if owned b token db = None then [] else take limit (sort_key ir_source (pending_rows b db)))"

definition row_payload :: "import_row \<Rightarrow> import_payload" where
  "row_payload r = the (ir_payload r)"

definition find_light :: "jsstring \<Rightarrow> inventory_row list \<Rightarrow> inventory_row option" where
  "find_light s table = List.find (\<lambda>l. iv_number l = s) table"

definition new_light :: "int \<Rightarrow> int \<Rightarrow> import_payload \<Rightarrow> inventory_row" where
  "new_light t i p =
     \<lparr>iv_id = i, iv_number = ip_number p, iv_external = Option.bind (ip_external p) id,
      iv_longitude = ip_longitude p, iv_latitude = ip_latitude p, iv_address = Option.bind (ip_address p) id,
      iv_district = Option.bind (ip_district p) id, iv_lamp = Option.bind (ip_lamp p) id,
      iv_status = (case ip_status p of None \<Rightarrow> Active | Some st \<Rightarrow> st), iv_created = t, iv_updated = t\<rparr>"

definition kept :: "'a option \<Rightarrow> 'a \<Rightarrow> 'a" where
  "kept v old = (case v of None \<Rightarrow> old | Some x \<Rightarrow> x)"

definition replaced_light :: "int \<Rightarrow> import_payload \<Rightarrow> inventory_row \<Rightarrow> inventory_row" where
  "replaced_light t p l = l\<lparr>iv_number := ip_number p, iv_external := kept (ip_external p) (iv_external l),
      iv_longitude := ip_longitude p, iv_latitude := ip_latitude p, iv_address := kept (ip_address p) (iv_address l),
      iv_district := kept (ip_district p) (iv_district l), iv_lamp := kept (ip_lamp p) (iv_lamp l),
      iv_status := kept (ip_status p) (iv_status l), iv_updated := t\<rparr>"

definition light_differs :: "import_payload \<Rightarrow> inventory_row \<Rightarrow> bool" where
  "light_differs p l \<longleftrightarrow>
     iv_number l \<noteq> ip_number p \<or> iv_external l \<noteq> kept (ip_external p) (iv_external l) \<or>
     num_value (iv_longitude l) \<noteq> num_value (ip_longitude p) \<or> num_value (iv_latitude l) \<noteq> num_value (ip_latitude p) \<or>
     iv_address l \<noteq> kept (ip_address p) (iv_address l) \<or> iv_district l \<noteq> kept (ip_district p) (iv_district l) \<or>
     iv_lamp l \<noteq> kept (ip_lamp p) (iv_lamp l) \<or> iv_status l \<noteq> kept (ip_status p) (iv_status l)"

text \<open>What becomes of one row: it inserts, replaces, leaves a point that is equal, or is not allowed to replace.\<close>

datatype row_effect = Insert | Replace inventory_row | Leave inventory_row | Skip inventory_row

definition row_effect :: "bool \<Rightarrow> inventory_row list \<Rightarrow> import_payload \<Rightarrow> row_effect" where
  "row_effect upd table p =
     (case find_light (ip_number p) table of
        None \<Rightarrow> Insert
      | Some l \<Rightarrow> if \<not> upd then Skip l else if light_differs p l then Replace l else Leave l)"

definition effect_error :: "(jsstring \<Rightarrow> jsstring) \<Rightarrow> bool \<Rightarrow> inventory_row list \<Rightarrow> import_payload \<Rightarrow> string option" where
  "effect_error nfc upd table p =
     (case row_effect upd table p of
        Insert \<Rightarrow> light_point_error nfc (new_light 0 0 p)
      | Replace l \<Rightarrow> light_point_error nfc (replaced_light 0 p l)
      | _ \<Rightarrow> None)"

text \<open>The first error of a group; two new points with one number violate the unique index.\<close>

fun group_error :: "(jsstring \<Rightarrow> jsstring) \<Rightarrow> bool \<Rightarrow> inventory_row list \<Rightarrow> jsstring list \<Rightarrow> import_payload list \<Rightarrow> string option" where
  "group_error nfc upd table seen [] = None"
| "group_error nfc upd table seen (p # ps) =
     (case effect_error nfc upd table p of
        Some code \<Rightarrow> Some code
      | None \<Rightarrow>
          if row_effect upd table p = Insert \<and> ip_number p \<in> set seen then Some ''23505''
          else group_error nfc upd table (ip_number p # seen) ps)"

definition inserted_lights :: "int \<Rightarrow> bool \<Rightarrow> inventory_row list \<Rightarrow> int \<Rightarrow> import_payload list \<Rightarrow> inventory_row list" where
  "inserted_lights t upd table i ps =
     (let new = filter (\<lambda>p. row_effect upd table p = Insert) ps in
      map2 (\<lambda>k p. new_light t (i + int k) p) [0..<length new] new)"

definition replaced_table :: "int \<Rightarrow> bool \<Rightarrow> inventory_row list \<Rightarrow> import_payload list \<Rightarrow> inventory_row list" where
  "replaced_table t upd table ps =
     map (\<lambda>l. case List.find (\<lambda>p. ip_number p = iv_number l) ps of
         None \<Rightarrow> l
       | Some p \<Rightarrow> if upd \<and> light_differs p l then replaced_light t p l else l) table"

definition effect_outcome :: "row_effect \<Rightarrow> row_outcome" where
  "effect_outcome e = (case e of Insert \<Rightarrow> RowCreated | Replace _ \<Rightarrow> RowUpdated | Leave _ \<Rightarrow> RowUnchanged | Skip _ \<Rightarrow> RowSkipped)"

definition effect_entity :: "inventory_row list \<Rightarrow> import_payload \<Rightarrow> row_effect \<Rightarrow> int option" where
  "effect_entity inserted p e =
     (case e of Insert \<Rightarrow> map_option iv_id (find_light (ip_number p) inserted)
      | Replace l \<Rightarrow> Some (iv_id l) | Leave l \<Rightarrow> Some (iv_id l) | Skip l \<Rightarrow> Some (iv_id l))"

definition mark_row :: "bool \<Rightarrow> inventory_row list \<Rightarrow> inventory_row list \<Rightarrow> import_row \<Rightarrow> import_row" where
  "mark_row upd table inserted r =
     (let p = row_payload r; e = row_effect upd table p in
      r\<lparr>ir_outcome := effect_outcome e, ir_entity := effect_entity inserted p e,
        ir_reason := (case e of Skip _ \<Rightarrow> Some (js ''existing_update_disabled'') | _ \<Rightarrow> None), ir_payload := None\<rparr>)"

text \<open>Audit events: the fields that changed, before and after; \<open>JNull\<close> stands for a value that is stripped.\<close>

definition text_value :: "jsstring option \<Rightarrow> js_value" where
  "text_value v = (case v of None \<Rightarrow> JNull | Some s \<Rightarrow> JStr s)"

definition audited_fields :: "inventory_row \<Rightarrow> (string \<times> js_value) list" where
  "audited_fields l =
     [(''inventory_number'', JStr (iv_number l)), (''external_id'', text_value (iv_external l)),
      (''longitude'', JNum (no_negative_zero (iv_longitude l))), (''latitude'', JNum (no_negative_zero (iv_latitude l))),
      (''address'', text_value (iv_address l)), (''district'', text_value (iv_district l)),
      (''lamp_type'', text_value (iv_lamp l)), (''status'', JStr (status_text (iv_status l)))]"

definition create_event :: "import_batch \<Rightarrow> inventory_row \<Rightarrow> audit_event" where
  "create_event x l =
     \<lparr>ae_entity = iv_id l, ae_number = iv_number l, ae_created = True, ae_batch = ib_id x, ae_actor = ib_admin x,
      ae_changes = map (\<lambda>(k, v). (k, JNull, v)) (audited_fields l)\<rparr>"

definition update_event :: "import_batch \<Rightarrow> inventory_row \<Rightarrow> inventory_row \<Rightarrow> audit_event" where
  "update_event x old new =
     \<lparr>ae_entity = iv_id new, ae_number = iv_number new, ae_created = False, ae_batch = ib_id x, ae_actor = ib_admin x,
      ae_changes = map (\<lambda>((k, v), (k', w)). (k, v, w))
        (filter (\<lambda>((k, v), (k', w)). v \<noteq> w) (zip (audited_fields old) (audited_fields new)))\<rparr>"

definition batch_events :: "import_batch \<Rightarrow> int \<Rightarrow> inventory_row list \<Rightarrow> inventory_row list \<Rightarrow> import_payload list \<Rightarrow> audit_event list" where
  "batch_events x t table inserted ps =
     map (create_event x) inserted @
     List.map_filter (\<lambda>p. case row_effect (ib_update x) table p of
         Replace l \<Rightarrow> Some (update_event x l (replaced_light t p l)) | _ \<Rightarrow> None) ps"

definition count_in :: "row_outcome \<Rightarrow> row_outcome list \<Rightarrow> nat" where
  "count_in oc outs = length (filter (\<lambda>x. x = oc) outs)"

definition add_counts :: "int \<Rightarrow> row_outcome list \<Rightarrow> import_batch \<Rightarrow> import_batch" where
  "add_counts t outs x = x\<lparr>
     ib_created := ib_created x + count_in RowCreated outs, ib_updated := ib_updated x + count_in RowUpdated outs,
     ib_unchanged := ib_unchanged x + count_in RowUnchanged outs, ib_skipped := ib_skipped x + count_in RowSkipped outs,
     ib_applied := ib_applied x + count_in RowCreated outs + count_in RowUpdated outs,
     ib_successful := ib_successful x + count_in RowCreated outs + count_in RowUpdated outs + count_in RowUnchanged outs,
     ib_lease := Some (t + LEASE_SECONDS * 1000)\<rparr>"

text \<open>\<^verbatim>\<open>PROCESS_PENDING_ROW_SQL\<close>: one statement, which has no effect when it fails.\<close>

definition process_rows :: "(jsstring \<Rightarrow> jsstring) \<Rightarrow> int \<Rightarrow> int \<Rightarrow> jsstring \<Rightarrow> nat \<Rightarrow> import_db \<Rightarrow>
    string + import_db \<times> row_outcome list" where
  "process_rows nfc t b token limit db =
     (case owned b token db of
        None \<Rightarrow> Inr (db, [])
      | Some x \<Rightarrow>
          (let sel = selected b token limit db; ps = map row_payload sel; upd = ib_update x; table = im_lights db;
               sources = map ir_source sel in
           if sel = [] then Inr (db, [])
           else
             (case group_error nfc upd table [] ps of
                Some code \<Rightarrow> Inl code
              | None \<Rightarrow>
                  (let inserted = inserted_lights t upd table (im_next_light db) ps;
                       outs = map (\<lambda>p. effect_outcome (row_effect upd table p)) ps in
                   Inr (change_batch b (add_counts t outs)
                     (db\<lparr>im_lights := replaced_table t upd table ps @ inserted,
                         im_next_light := im_next_light db + int (length inserted),
                         im_rows := map (\<lambda>r. if ir_batch r = b \<and> ir_source r \<in> set sources then mark_row upd table inserted r else r) (im_rows db),
                         im_events := im_events db @ batch_events x t table inserted ps\<rparr>), outs)))))"

definition safeFailure :: "string \<Rightarrow> string option" where
  "safeFailure code =
     (if code = ''23505'' then Some ''inventory_identity_conflict''
      else if code \<in> {''23502'', ''23514'', ''22003'', ''22P02''} then Some ''invalid_row'' else None)"

definition failNextPendingRow :: "int \<Rightarrow> int \<Rightarrow> jsstring \<Rightarrow> string \<Rightarrow> import_db \<Rightarrow> import_db" where
  "failNextPendingRow t b token reason db =
     (case selected b token 1 db of
        [] \<Rightarrow> db
      | r # _ \<Rightarrow>
          change_batch b (\<lambda>x. x\<lparr>ib_failed := ib_failed x + 1, ib_lease := Some (t + LEASE_SECONDS * 1000)\<rparr>)
            (db\<lparr>im_rows := map (\<lambda>q. if ir_batch q = b \<and> ir_source q = ir_source r
               then q\<lparr>ir_outcome := RowFailed, ir_reason := Some (js reason), ir_payload := None\<rparr> else q) (im_rows db)\<rparr>))"

definition completeBatch :: "int \<Rightarrow> int \<Rightarrow> jsstring \<Rightarrow> import_db \<Rightarrow> import_db" where
  "completeBatch t b token db =
     (if owned b token db = None \<or> pending_rows b db \<noteq> [] then db
      else change_batch b (\<lambda>x. x\<lparr>ib_state := (if ib_failed x > 0 then CompletedWithErrors else Completed),
        ib_completed := Some t, ib_lease := None, ib_token := None\<rparr>) db)"

section \<open>The worker\<close>

text \<open>
  The outside world of a worker, by the number of its statement: the clock, whether the process is
  stopping, and what happens to the statement.  A server error has a code of its own and no effect; a
  lost connection has no code, and the statement may have taken effect.
\<close>

datatype fate = Works | ServerError string | ConnectionLost bool

record worker =
  wk_now :: "nat \<Rightarrow> int"
  wk_stopped :: "nat \<Rightarrow> bool"
  wk_fate :: "nat \<Rightarrow> fate"

type_synonym worker_state = "import_db \<times> nat"

datatype 'a answered = Answered 'a | Failed "string option"

definition execute :: "worker \<Rightarrow> (int \<Rightarrow> import_db \<Rightarrow> string + import_db \<times> 'a) \<Rightarrow> worker_state \<Rightarrow> worker_state \<times> 'a answered" where
  "execute w stmt s =
     (case s of (db, k) \<Rightarrow>
        (case (wk_fate w k, stmt (wk_now w k) db) of
           (Works, Inl code) \<Rightarrow> ((db, k + 1), Failed (Some code))
         | (Works, Inr (db1, x)) \<Rightarrow> ((db1, k + 1), Answered x)
         | (ServerError code, _) \<Rightarrow> ((db, k + 1), Failed (Some code))
         | (ConnectionLost True, Inr (db1, x)) \<Rightarrow> ((db1, k + 1), Failed None)
         | (ConnectionLost _, _) \<Rightarrow> ((db, k + 1), Failed None)))"

definition processImportRows :: "(jsstring \<Rightarrow> jsstring) \<Rightarrow> worker \<Rightarrow> int \<Rightarrow> jsstring \<Rightarrow> nat \<Rightarrow> worker_state \<Rightarrow> worker_state \<times> row_outcome list answered" where
  "processImportRows nfc w b token limit = execute w (\<lambda>t. process_rows nfc t b token limit)"

definition safe_reason :: "string option \<Rightarrow> string option" where
  "safe_reason code = Option.bind code safeFailure"

text \<open>The rows of a failed group one at a time; the flag says that an error left the loop.\<close>

fun replay :: "(jsstring \<Rightarrow> jsstring) \<Rightarrow> worker \<Rightarrow> int \<Rightarrow> jsstring \<Rightarrow> nat \<Rightarrow> worker_state \<Rightarrow> worker_state \<times> bool" where
  "replay nfc w b token 0 s = (s, False)"
| "replay nfc w b token (Suc n) s =
     (case processImportRows nfc w b token 1 s of
        (s1, Answered outs) \<Rightarrow> if outs = [] then (s1, False) else replay nfc w b token n s1
      | (s1, Failed code) \<Rightarrow>
          (case safe_reason code of
             None \<Rightarrow> (s1, True)
           | Some reason \<Rightarrow>
               (case execute w (\<lambda>t db. Inr (failNextPendingRow t b token reason db, ())) s1 of
                  (s2, Answered _) \<Rightarrow> replay nfc w b token n s2
                | (s2, Failed _) \<Rightarrow> (s2, True))))"

datatype batch_end = Stopped | Finished | Threw

partial_function (option) processBatch :: "(jsstring \<Rightarrow> jsstring) \<Rightarrow> worker \<Rightarrow> int \<Rightarrow> jsstring \<Rightarrow> worker_state \<Rightarrow> (worker_state \<times> batch_end) option" where
  "processBatch nfc w b token s =
     (if wk_stopped w (snd s) then Some (s, Stopped)
      else
        (case processImportRows nfc w b token ROWS_PER_QUERY s of
           (s1, Answered outs) \<Rightarrow>
             if outs = [] then
               (case execute w (\<lambda>t db. Inr (completeBatch t b token db, ())) s1 of
                  (s2, Answered _) \<Rightarrow> Some (s2, Finished)
                | (s2, Failed code) \<Rightarrow>
                    (case safe_reason code of
                       None \<Rightarrow> Some (s2, Threw)
                     | Some _ \<Rightarrow>
                         (case replay nfc w b token ROWS_PER_QUERY s2 of
                            (s3, threw) \<Rightarrow> if threw then Some (s3, Threw) else processBatch nfc w b token s3)))
             else processBatch nfc w b token s1
         | (s1, Failed code) \<Rightarrow>
             (case safe_reason code of
                None \<Rightarrow> Some (s1, Threw)
              | Some _ \<Rightarrow>
                  (case replay nfc w b token ROWS_PER_QUERY s1 of
                     (s2, threw) \<Rightarrow> if threw then Some (s2, Threw) else processBatch nfc w b token s2))))"

end
