(* ===== verification/ImportProgress.thy ===== *)
theory ImportProgress
  imports ImportStore
begin

text \<open>
  Every statement of the worker settles rows or changes nothing, so the processing of a batch ends: the
  number of its pending rows decreases with every round.
\<close>

section \<open>Rows and batches\<close>

lemma change_batch_fields [simp]:
  "im_rows (change_batch b f db) = im_rows db" "im_lights (change_batch b f db) = im_lights db"
  "im_events (change_batch b f db) = im_events db" "im_next_light (change_batch b f db) = im_next_light db"
  "im_next_batch (change_batch b f db) = im_next_batch db"
  by (simp_all add: change_batch_def)

lemma rows_of_change [simp]: "rows_of c (change_batch b f db) = rows_of c db" "pending_rows c (change_batch b f db) = pending_rows c db"
  by (simp_all add: rows_of_def pending_rows_def)

lemma pending_rows_filter: "pending_rows b db = filter (\<lambda>r. ir_batch r = b \<and> ir_outcome r = Pending) (im_rows db)"
  by (simp add: pending_rows_def rows_of_def conj_commute)

lemma effect_outcome_settled [simp]: "effect_outcome e \<noteq> Pending"
  by (cases e) (simp_all add: effect_outcome_def)

lemma mark_row_fields [simp]:
  "ir_batch (mark_row upd table ins r) = ir_batch r" "ir_source (mark_row upd table ins r) = ir_source r"
  "ir_inventory (mark_row upd table ins r) = ir_inventory r" "ir_payload (mark_row upd table ins r) = None"
  "ir_outcome (mark_row upd table ins r) = effect_outcome (row_effect upd table (row_payload r))"
  by (simp_all add: mark_row_def Let_def)

lemma selected_pending: "r \<in> set (selected b token n db) \<Longrightarrow> r \<in> set (pending_rows b db)"
  by (auto simp: selected_def split: if_splits dest: in_set_takeD)

lemma filter_map_less:
  assumes "\<And>x. P (f x) \<Longrightarrow> P x" "x \<in> set xs" "P x" "\<not> P (f x)"
  shows "length (filter P (map f xs)) < length (filter P xs)"
  using assms(2)
proof (induction xs)
  case (Cons y ys)
  have le: "length (filter P (map f ys)) \<le> length (filter P ys)" for ys
    by (induction ys) (auto dest: assms(1))
  show ?case using Cons le [of ys] assms(1) [of y] assms(3,4) by auto
qed simp

text \<open>The rows after a statement that settles those with given sources.\<close>

lemma settle_rows_less:
  assumes "r \<in> set (pending_rows b db)" "ir_source r \<in> S"
    "\<And>q. ir_batch (f q) = ir_batch q" "\<And>q. ir_outcome (f q) \<noteq> Pending"
  shows "length (filter (\<lambda>q. ir_batch q = b \<and> ir_outcome q = Pending)
      (map (\<lambda>q. if ir_batch q = b \<and> ir_source q \<in> S then f q else q) (im_rows db))) < length (pending_rows b db)"
  unfolding pending_rows_filter
  by (rule filter_map_less [where x = r]) (use assms in \<open>auto simp: pending_rows_filter split: if_splits\<close>)

section \<open>Statements\<close>

lemma process_rows_cases:
  assumes "process_rows nfc t b token limit db = Inr (db1, outs)"
  obtains "outs = []" "db1 = db"
  | x where "owned b token db = Some x" "selected b token limit db \<noteq> []"
      "group_error nfc (ib_update x) (im_lights db) [] (map row_payload (selected b token limit db)) = None"
      "outs = map (\<lambda>p. effect_outcome (row_effect (ib_update x) (im_lights db) p)) (map row_payload (selected b token limit db))"
      "im_rows db1 = map (\<lambda>r. if ir_batch r = b \<and> ir_source r \<in> set (map ir_source (selected b token limit db))
        then mark_row (ib_update x) (im_lights db)
          (inserted_lights t (ib_update x) (im_lights db) (im_next_light db) (map row_payload (selected b token limit db))) r else r) (im_rows db)"
  using assms by (auto simp: process_rows_def Let_def split: option.splits if_splits)

lemma process_rows_progress:
  assumes "process_rows nfc t b token limit db = Inr (db1, outs)" "outs \<noteq> []"
  shows "length (pending_rows b db1) < length (pending_rows b db)"
  using assms(1)
proof (cases rule: process_rows_cases)
  case (2 x)
  then obtain r where r: "r \<in> set (selected b token limit db)" by (cases "selected b token limit db") auto
  show ?thesis unfolding pending_rows_filter [of b db1] 2(5)
    by (rule settle_rows_less [of r]) (use r selected_pending in auto)
qed (use assms in simp)

lemma process_rows_empty:
  assumes "process_rows nfc t b token limit db = Inr (db1, [])"
  shows "db1 = db \<and> selected b token limit db = []"
  using assms by (auto simp: process_rows_def Let_def selected_def split: option.splits if_splits)

lemma process_rows_error: "process_rows nfc t b token limit db = Inl code \<Longrightarrow> selected b token limit db \<noteq> []"
  by (auto simp: process_rows_def Let_def split: option.splits if_splits)

lemma selected_one: "selected b token n db \<noteq> [] \<Longrightarrow> selected b token 1 db \<noteq> []"
  by (auto simp: selected_def split: if_splits)

lemma failNext_progress:
  assumes "selected b token 1 db \<noteq> []"
  shows "length (pending_rows b (failNextPendingRow t b token reason db)) < length (pending_rows b db)"
proof -
  obtain r rest where s: "selected b token 1 db = r # rest" using assms by (cases "selected b token 1 db") auto
  then have r: "r \<in> set (pending_rows b db)" using selected_pending [of r b token 1 db] by simp
  have "length (filter (\<lambda>q. ir_batch q = b \<and> ir_outcome q = Pending)
      (map (\<lambda>q. if ir_batch q = b \<and> ir_source q \<in> {ir_source r}
         then q\<lparr>ir_outcome := RowFailed, ir_reason := Some (js reason), ir_payload := None\<rparr> else q) (im_rows db)))
      < length (pending_rows b db)"
    by (rule settle_rows_less [OF r]) simp_all
  then show ?thesis by (simp add: failNextPendingRow_def s pending_rows_filter del: One_nat_def cong: if_cong)
qed

lemma failNext_pending_le: "length (pending_rows b (failNextPendingRow t b token reason db)) \<le> length (pending_rows b db)"
proof (cases "selected b token 1 db = []")
  case True
  then show ?thesis by (simp add: failNextPendingRow_def)
next
  case False
  from failNext_progress [OF this] show ?thesis by (simp add: less_imp_le)
qed

section \<open>The worker returns\<close>

text \<open>
  The server reports a violated constraint only for the data of a statement: its own errors have other codes.
\<close>

definition honest :: "worker \<Rightarrow> bool" where
  "honest w \<longleftrightarrow> (\<forall>k code. wk_fate w k = ServerError code \<longrightarrow> safeFailure code = None)"

lemma execute_answered:
  "execute w stmt (db, k) = ((db1, k1), Answered x) \<Longrightarrow> stmt (wk_now w k) db = Inr (db1, x)"
  by (auto simp: execute_def split: fate.splits sum.splits prod.splits bool.splits)

lemma execute_failed:
  "execute w stmt (db, k) = ((db1, k1), Failed code) \<Longrightarrow> honest w \<Longrightarrow> safe_reason code = Some reason \<Longrightarrow>
     db1 = db \<and> (\<exists>c. stmt (wk_now w k) db = Inl c)"
  by (auto simp: execute_def honest_def safe_reason_def split: fate.splits sum.splits prod.splits bool.splits)

lemma replay_pending:
  assumes "honest w" "replay nfc w b token n (db, k) = ((db1, k1), False)"
  shows "length (pending_rows b db1) \<le> length (pending_rows b db) \<and>
     (0 < n \<longrightarrow> selected b token 1 db \<noteq> [] \<longrightarrow> length (pending_rows b db1) < length (pending_rows b db))"
  using assms(2)
proof (induction n arbitrary: db k)
  case 0
  then show ?case by simp
next
  case (Suc n)
  obtain db2 k2 a where e: "processImportRows nfc w b token 1 (db, k) = ((db2, k2), a)" by (metis prod.exhaust)
  show ?case
  proof (cases a)
    case (Answered outs)
    have st: "process_rows nfc (wk_now w k) b token 1 db = Inr (db2, outs)"
      using execute_answered e Answered unfolding processImportRows_def by fast
    show ?thesis
    proof (cases "outs = []")
      case True
      then have "db1 = db" "selected b token 1 db = []" using Suc.prems e Answered st process_rows_empty by fastforce+
      then show ?thesis by simp
    next
      case False
      then have "replay nfc w b token n (db2, k2) = ((db1, k1), False)" using Suc.prems e Answered by simp
      from Suc.IH [OF this] process_rows_progress [OF st False] show ?thesis by linarith
    qed
  next
    case (Failed code)
    then obtain reason where sr: "safe_reason code = Some reason" using Suc.prems e by (cases "safe_reason code") auto
    from execute_failed [OF e [unfolded processImportRows_def Failed] assms(1) sr]
    obtain c where db2: "db2 = db" and c: "process_rows nfc (wk_now w k) b token 1 db = Inl c" by blast
    have sel: "selected b token 1 db \<noteq> []" by (rule process_rows_error [OF c])
    obtain db3 k3 a3 where f: "execute w (\<lambda>t db. Inr (failNextPendingRow t b token reason db, ())) (db, k2) = ((db3, k3), a3)"
      by (metis prod.exhaust)
    then obtain u where a3: "a3 = Answered u" using Suc.prems e Failed sr db2 by (cases a3) auto
    then have "db3 = failNextPendingRow (wk_now w k2) b token reason db" using execute_answered f by fastforce
    then have less: "length (pending_rows b db3) < length (pending_rows b db)" using failNext_progress [OF sel] by simp
    have "replay nfc w b token n (db3, k3) = ((db1, k1), False)" using Suc.prems e Failed sr db2 f a3 by simp
    from Suc.IH [OF this] less show ?thesis by linarith
  qed
qed

lemma processBatch_returns:
  assumes "honest w"
  shows "\<exists>r. processBatch nfc w b token (db, k) = Some r"
proof (induction "length (pending_rows b db)" arbitrary: db k rule: less_induct)
  case less
  obtain db1 k1 a where e: "processImportRows nfc w b token ROWS_PER_QUERY (db, k) = ((db1, k1), a)" by (metis prod.exhaust)
  show ?case
  proof (cases a)
    case (Answered outs)
    have st: "process_rows nfc (wk_now w k) b token ROWS_PER_QUERY db = Inr (db1, outs)"
      using execute_answered e Answered unfolding processImportRows_def by fast
    show ?thesis
    proof (cases "outs = []")
      case True
      obtain db2 k2 a2 where c: "execute w (\<lambda>t db. Inr (completeBatch t b token db, ())) (db1, k1) = ((db2, k2), a2)"
        by (metis prod.exhaust)
      show ?thesis
      proof (cases a2)
        case Ok: (Answered u)
        then show ?thesis using e Answered True c by (simp add: processBatch.simps [of nfc w b token "(db, k)"])
      next
        case Bad: (Failed code)
        have "safe_reason code = None" using execute_failed [OF c [unfolded Bad] assms] by fastforce
        then show ?thesis using e Answered True c Bad by (simp add: processBatch.simps [of nfc w b token "(db, k)"])
      qed
    next
      case False
      from less [OF process_rows_progress [OF st False], of k1] show ?thesis using e Answered False
        by (simp add: processBatch.simps [of nfc w b token "(db, k)"])
    qed
  next
    case (Failed code)
    show ?thesis
    proof (cases "safe_reason code")
      case None
      then show ?thesis using e Failed by (simp add: processBatch.simps [of nfc w b token "(db, k)"])
    next
      case (Some reason)
      from execute_failed [OF e [unfolded processImportRows_def Failed] assms Some]
      obtain c where db1: "db1 = db" and c: "process_rows nfc (wk_now w k) b token ROWS_PER_QUERY db = Inl c" by blast
      have sel: "selected b token 1 db \<noteq> []" by (rule selected_one [OF process_rows_error [OF c]])
      obtain db2 k2 threw where r: "replay nfc w b token ROWS_PER_QUERY (db, k1) = ((db2, k2), threw)" by (metis prod.exhaust)
      show ?thesis
      proof (cases threw)
        case True
        then show ?thesis using e Failed Some r db1 by (simp add: processBatch.simps [of nfc w b token "(db, k)"])
      next
        case False
        have "0 < ROWS_PER_QUERY" by (simp add: ROWS_PER_QUERY_def)
        then have "length (pending_rows b db2) < length (pending_rows b db)"
          using replay_pending [OF assms, of nfc b token ROWS_PER_QUERY db k1 db2 k2] r False sel by simp
        from less [OF this, of k2] show ?thesis using e Failed Some r db1 False
          by (simp add: processBatch.simps [of nfc w b token "(db, k)"])
      qed
    qed
  qed
qed

end
