(* ===== verification/ImportPreviews.thy ===== *)
theory ImportPreviews
  imports ImportStore
begin

text \<open>
  What a preview keeps of a file: the groups of rows with one inventory number, and that at most one row
  of a group stays pending.
\<close>

section \<open>Groups\<close>

text \<open>A group holds exactly the rows with its number, in their order, and knows whether they differ.\<close>

definition group_ok :: "parsed_row list \<Rightarrow> dup_group \<Rightarrow> bool" where
  "group_ok rows g \<longleftrightarrow>
     dg_number g \<noteq> [] \<and> dg_first g # dg_duplicates g = filter (\<lambda>r. pr_number r = dg_number g) rows \<and>
     dg_signature g = signature (dg_first g) \<and>
     dg_conflict g = (\<exists>r \<in> set (dg_first g # dg_duplicates g). signature r = None \<or> signature r \<noteq> dg_signature g)"

definition groups_ok :: "parsed_row list \<Rightarrow> dup_group list \<Rightarrow> bool" where
  "groups_ok rows gs \<longleftrightarrow>
     list_all (group_ok rows) gs \<and> distinct (map dg_number gs) \<and>
     (\<forall>r \<in> set rows. pr_number r \<noteq> [] \<longrightarrow> pr_number r \<in> dg_number ` set gs)"

lemma add_numbers: "dg_number ` set (add_to_groups r gs) = insert (pr_number r) (dg_number ` set gs)"
  by (induction gs) auto

lemma add_distinct: "distinct (map dg_number gs) \<Longrightarrow> distinct (map dg_number (add_to_groups r gs))"
proof (induction gs)
  case (Cons g gs)
  then show ?case using add_numbers [of r gs] by (auto simp: image_iff)
qed simp

lemma group_ok_other: "pr_number r \<noteq> dg_number g \<Longrightarrow> group_ok (rows @ [r]) g = group_ok rows g"
  by (simp add: group_ok_def)

lemma group_okD:
  assumes "group_ok rows g"
  shows "dg_number g \<noteq> []" "dg_first g # dg_duplicates g = filter (\<lambda>r. pr_number r = dg_number g) rows"
    "dg_signature g = signature (dg_first g)"
    "dg_conflict g = (\<exists>r \<in> set (dg_first g # dg_duplicates g). signature r = None \<or> signature r \<noteq> dg_signature g)"
  using assms unfolding group_ok_def by blast+

lemma add_other: "list_all (group_ok rows) gs \<Longrightarrow> pr_number r \<notin> dg_number ` set gs \<Longrightarrow> list_all (group_ok (rows @ [r])) gs"
  unfolding list_all_iff using group_ok_other by (metis image_eqI)

lemma add_groups:
  "list_all (group_ok rows) gs \<Longrightarrow> distinct (map dg_number gs) \<Longrightarrow> pr_number r \<noteq> [] \<Longrightarrow>
     (pr_number r \<notin> dg_number ` set gs \<Longrightarrow> filter (\<lambda>q. pr_number q = pr_number r) rows = []) \<Longrightarrow>
     list_all (group_ok (rows @ [r])) (add_to_groups r gs)"
proof (induction gs)
  case Nil
  then show ?case by (auto simp: group_ok_def)
next
  case (Cons g gs)
  show ?case
  proof (cases "dg_number g = pr_number r")
    case True
    have "pr_number r \<notin> dg_number ` set gs" using Cons.prems(2) True by (auto simp: image_iff)
    then have "list_all (group_ok (rows @ [r])) gs" using add_other Cons.prems(1) by simp
    moreover have g: "group_ok rows g" using Cons.prems(1) by simp
    note g1 = group_okD(1,3) [OF g] and g2 = group_okD(2) [OF g] and g3 = group_okD(4) [OF g]
    have c: "(dg_conflict g \<or> signature r = None \<or> dg_signature g = None \<or> signature r \<noteq> dg_signature g) =
        (\<exists>x \<in> set (dg_first g # (dg_duplicates g @ [r])). signature x = None \<or> signature x \<noteq> dg_signature g)"
      unfolding g3 using g1(2) by auto
    have l: "dg_first g # (dg_duplicates g @ [r]) = filter (\<lambda>q. pr_number q = dg_number g) (rows @ [r])"
      using g2 True by (metis (mono_tags, lifting) append_Cons filter.simps filter_append)
    have "group_ok (rows @ [r]) (g\<lparr>dg_duplicates := dg_duplicates g @ [r],
        dg_conflict := dg_conflict g \<or> signature r = None \<or> dg_signature g = None \<or> signature r \<noteq> dg_signature g\<rparr>)"
      unfolding group_ok_def using g1 l c by simp
    ultimately show ?thesis using True by simp
  next
    case False
    have "list_all (group_ok (rows @ [r])) (add_to_groups r gs)"
      by (rule Cons.IH) (use Cons.prems False in auto)
    moreover have "group_ok (rows @ [r]) g" using Cons.prems(1) False group_ok_other [of r g rows] by auto
    ultimately show ?thesis using False by simp
  qed
qed

lemma duplicate_groups_ok: "groups_ok rows (duplicate_groups rows)"
proof (induction rows rule: rev_induct)
  case Nil
  then show ?case by (simp add: groups_ok_def duplicate_groups_def)
next
  case (snoc r rows)
  define gs where "gs = duplicate_groups rows"
  have d: "duplicate_groups (rows @ [r]) = (if pr_number r = [] then gs else add_to_groups r gs)"
    by (simp add: gs_def duplicate_groups_def)
  have ok: "list_all (group_ok rows) gs" "distinct (map dg_number gs)"
      "\<forall>r \<in> set rows. pr_number r \<noteq> [] \<longrightarrow> pr_number r \<in> dg_number ` set gs"
    using snoc by (simp_all add: groups_ok_def gs_def)
  show ?case
  proof (cases "pr_number r = []")
    case True
    have "pr_number r \<notin> dg_number ` set gs" using True ok(1) group_okD(1) by (fastforce simp: list_all_iff)
    then show ?thesis using True ok add_other [OF ok(1)] unfolding groups_ok_def d by auto
  next
    case False
    have "list_all (group_ok (rows @ [r])) (add_to_groups r gs)"
      by (rule add_groups [OF ok(1,2) False]) (use ok(3) False in \<open>metis (mono_tags) filter_False\<close>)
    then show ?thesis using False ok add_distinct add_numbers [of r gs] unfolding groups_ok_def d by auto
  qed
qed

lemma group_of_row:
  assumes "r \<in> set rows" "pr_number r \<noteq> []"
  obtains g where "g \<in> set (duplicate_groups rows)" "group_ok rows g" "r \<in> set (dg_first g # dg_duplicates g)"
    "dg_number g = pr_number r"
proof -
  have "pr_number r \<in> dg_number ` set (duplicate_groups rows)"
    using duplicate_groups_ok [of rows] assms by (auto simp: groups_ok_def)
  then obtain g where g: "g \<in> set (duplicate_groups rows)" "dg_number g = pr_number r" by auto
  moreover have ok: "group_ok rows g" using duplicate_groups_ok [of rows] g(1) by (auto simp: groups_ok_def list_all_iff)
  moreover have "r \<in> set (filter (\<lambda>q. pr_number q = dg_number g) rows)" using assms(1) g(2) by simp
  then have "r \<in> set (dg_first g # dg_duplicates g)" using group_okD(2) [OF ok] by (simp only:)
  ultimately show ?thesis using that by blast
qed

text \<open>Two rows with one number: at least one of them is a skipped duplicate or both are in conflict.\<close>

lemma duplicates_settled:
  assumes "r \<in> set rows" "q \<in> set rows" "pr_number r \<noteq> []" "pr_number q = pr_number r" "r \<noteq> q"
  shows "pr_index r \<in> set (duplicate_conflicts rows) \<union> set (duplicate_skips rows) \<or>
     pr_index q \<in> set (duplicate_conflicts rows) \<union> set (duplicate_skips rows)"
proof -
  obtain g where g: "g \<in> set (duplicate_groups rows)" "group_ok rows g" "r \<in> set (dg_first g # dg_duplicates g)" "dg_number g = pr_number r"
    by (rule group_of_row [OF assms(1,3)])
  have "q \<in> set (filter (\<lambda>r. pr_number r = dg_number g) rows)" using assms g(4) by simp
  then have q: "q \<in> set (dg_first g # dg_duplicates g)" using group_okD(2) [OF g(2)] by (simp only:)
  have d: "dg_duplicates g \<noteq> []" using g(3) q assms(5) by auto
  show ?thesis
  proof (cases "dg_conflict g")
    case True
    then have "pr_index r \<in> set (duplicate_conflicts rows)" using g(1,3) d by (force simp: duplicate_conflicts_def)
    then show ?thesis by simp
  next
    case False
    have "r \<in> set (dg_duplicates g) \<or> q \<in> set (dg_duplicates g)" using g(3) q assms(5) by auto
    then show ?thesis using False g(1) by (force simp: duplicate_skips_def)
  qed
qed

section \<open>Pending rows of a preview\<close>

lemma preview_row_fields [simp]:
  "ir_batch (preview_row b cs ss ex r) = b" "ir_source (preview_row b cs ss ex r) = pr_index r"
  "ir_entity (preview_row b cs ss ex r) = None"
  by (simp_all add: preview_row_def Let_def)

lemma preview_row_outcome:
  "ir_outcome (preview_row b cs ss ex r) \<in> {Pending, RowSkipped, RowFailed}"
  "(ir_outcome (preview_row b cs ss ex r) = Pending) = (ir_payload (preview_row b cs ss ex r) \<noteq> None)"
  by (auto simp: preview_row_def Let_def split: preview_action.splits option.splits if_splits)

lemma preview_pending:
  assumes "ir_outcome (preview_row b cs ss ex r) = Pending"
  shows "pr_index r \<notin> set cs" "pr_index r \<notin> set ss"
    "\<exists>p. pr_payload r = Some p \<and> ir_payload (preview_row b cs ss ex r) = Some (stored_payload p)" "pr_code r = None"
  using assms by (auto simp: preview_row_def Let_def split: preview_action.splits if_splits)

definition preview_rows :: "int \<Rightarrow> (jsstring \<times> int) list \<Rightarrow> parsed_row list \<Rightarrow> import_row list" where
  "preview_rows b existing rows = map (preview_row b (duplicate_conflicts rows) (duplicate_skips rows) existing) rows"

lemma stored_number [simp]: "ip_number (stored_payload p) = ip_number p"
  by (simp add: stored_payload_def)

lemma pending_numbers_distinct:
  assumes valid: "list_all (row_valid env) rows" and index: "distinct (map pr_index rows)"
  shows "distinct (map (ip_number \<circ> row_payload) (filter (\<lambda>r. ir_outcome r = Pending) (preview_rows b ex rows)))"
proof -
  define P where "P r \<longleftrightarrow> ir_outcome (preview_row b (duplicate_conflicts rows) (duplicate_skips rows) ex r) = Pending" for r
  have f: "filter (\<lambda>r. ir_outcome r = Pending) (preview_rows b ex rows) =
      map (preview_row b (duplicate_conflicts rows) (duplicate_skips rows) ex) (filter P rows)"
    unfolding preview_rows_def filter_map by (simp add: comp_def P_def [abs_def])
  have num: "ip_number (row_payload (preview_row b (duplicate_conflicts rows) (duplicate_skips rows) ex r)) = pr_number r \<and> pr_number r \<noteq> []"
    if "r \<in> set rows" "P r" for r
  proof -
    obtain p where "pr_payload r = Some p" "ir_payload (preview_row b (duplicate_conflicts rows) (duplicate_skips rows) ex r) = Some (stored_payload p)"
      using preview_pending(3) [OF \<open>P r\<close> [unfolded P_def]] by blast
    then show ?thesis using valid that(1) by (auto simp: list_all_iff row_valid_def row_payload_def)
  qed
  have "inj_on pr_number (set (filter P rows))"
  proof (rule inj_onI, rule ccontr)
    fix r q assume rq: "r \<in> set (filter P rows)" "q \<in> set (filter P rows)" "pr_number r = pr_number q" "r \<noteq> q"
    then have pr: "P r" "P q" "r \<in> set rows" "q \<in> set rows" by simp_all
    have "pr_index x \<notin> set (duplicate_conflicts rows) \<and> pr_index x \<notin> set (duplicate_skips rows)" if "P x" for x
      using preview_pending(1,2) [OF that [unfolded P_def]] by simp
    from this [OF pr(1)] this [OF pr(2)] duplicates_settled [OF pr(3,4) _ rq(3) [symmetric] rq(4)] num [OF pr(3,1)]
    show False by simp
  qed
  moreover have "distinct (filter P rows)" using index by (simp add: distinct_map)
  ultimately have "distinct (map pr_number (filter P rows))" by (simp add: distinct_map)
  moreover have e: "map (ip_number \<circ> row_payload) (map (preview_row b (duplicate_conflicts rows) (duplicate_skips rows) ex) (filter P rows)) = map pr_number (filter P rows)"
    using num by (auto simp: comp_def)
  ultimately show ?thesis unfolding f e by blast
qed

text \<open>A row whose number occurs once and that has no error stays pending.\<close>

lemma single_row_pending:
  assumes "r \<in> set rows" "pr_payload r = Some p" "pr_code r = None" "pr_number r \<noteq> []"
    "distinct (map pr_index rows)" "filter (\<lambda>q. pr_number q = pr_number r) rows = [r]"
  shows "pr_index r \<notin> set (duplicate_conflicts rows)" "pr_index r \<notin> set (duplicate_skips rows)"
proof -
  have no: "False" if g: "g \<in> set (duplicate_groups rows)" "x \<in> set (dg_first g # dg_duplicates g)" "pr_index x = pr_index r"
      "dg_duplicates g \<noteq> []" for g x
  proof -
    have ok: "group_ok rows g" using duplicate_groups_ok [of rows] g(1) by (auto simp: groups_ok_def list_all_iff)
    then have f: "dg_first g # dg_duplicates g = filter (\<lambda>q. pr_number q = dg_number g) rows" by (rule group_okD(2))
    then have "x \<in> set (filter (\<lambda>q. pr_number q = dg_number g) rows)" using g(2) by metis
    then have "x \<in> set rows" "pr_number x = dg_number g" by auto
    moreover have "x = r" using \<open>x \<in> set rows\<close> assms(1,5) g(3) by (auto simp: distinct_map inj_on_def)
    ultimately have "dg_first g # dg_duplicates g = [r]" using f assms(6) by simp
    then show False using g(4) by simp
  qed
  show "pr_index r \<notin> set (duplicate_conflicts rows)"
  proof
    assume "pr_index r \<in> set (duplicate_conflicts rows)"
    then obtain g x where "g \<in> set (duplicate_groups rows)" "dg_duplicates g \<noteq> []" "x \<in> set (dg_first g # dg_duplicates g)"
        "pr_index x = pr_index r"
      unfolding duplicate_conflicts_def by (force split: if_splits)
    then show False using no by blast
  qed
  show "pr_index r \<notin> set (duplicate_skips rows)"
  proof
    assume "pr_index r \<in> set (duplicate_skips rows)"
    then obtain g x where "g \<in> set (duplicate_groups rows)" "x \<in> set (dg_duplicates g)" "pr_index x = pr_index r"
      by (auto simp: duplicate_skips_def split: if_splits)
    moreover from this(2) have "dg_duplicates g \<noteq> []" by auto
    ultimately show False using no [of g x] by simp
  qed
qed

end
