(* ===== verification/ImportRuns.thy ===== *)
theory ImportRuns
  imports ImportProgress ImportPreviews
begin

text \<open>
  The invariant of the import's tables and that every event keeps it: the counters of a batch count its
  rows, a finished batch has no pending row, one batch at most is being processed, the pending rows of a
  batch have different numbers, and every applied row has one audit event.
\<close>

section \<open>The invariant\<close>

definition batch_counts :: "import_db \<Rightarrow> import_batch \<Rightarrow> bool" where
  "batch_counts db x \<longleftrightarrow>
     ib_created x = count_outcome RowCreated (ib_id x) db \<and> ib_updated x = count_outcome RowUpdated (ib_id x) db \<and>
     ib_unchanged x = count_outcome RowUnchanged (ib_id x) db \<and>
     (ib_state x \<noteq> Preview \<longrightarrow> ib_skipped x = count_outcome RowSkipped (ib_id x) db \<and> ib_failed x = count_outcome RowFailed (ib_id x) db) \<and>
     (ib_state x = Preview \<longrightarrow> ib_created x = 0 \<and> ib_updated x = 0 \<and> ib_unchanged x = 0) \<and>
     ib_applied x = ib_created x + ib_updated x \<and> ib_successful x = ib_created x + ib_updated x + ib_unchanged x \<and>
     ib_applied x = length (filter (\<lambda>e. ae_batch e = ib_id x) (im_events db))"

definition batch_ok :: "import_db \<Rightarrow> import_batch \<Rightarrow> bool" where
  "batch_ok db x \<longleftrightarrow>
     batch_counts db x \<and> length (rows_of (ib_id x) db) = ib_total x \<and>
     (ib_state x \<in> {Completed, CompletedWithErrors} \<longrightarrow> pending_rows (ib_id x) db = [] \<and> (ib_state x = Completed) = (ib_failed x = 0)) \<and>
     (ib_token x \<noteq> None) = (ib_state x = Processing)"

definition lights_ok :: "import_db \<Rightarrow> bool" where
  "lights_ok db \<longleftrightarrow> distinct (map iv_id (im_lights db)) \<and> distinct (map iv_number (im_lights db)) \<and>
     (\<forall>l \<in> set (im_lights db). iv_id l < im_next_light db)"

definition rows_ok :: "import_db \<Rightarrow> bool" where
  "rows_ok db \<longleftrightarrow>
     distinct (map (\<lambda>r. (ir_batch r, ir_source r)) (im_rows db)) \<and>
     (\<forall>r \<in> set (im_rows db). ir_batch r \<in> ib_id ` set (im_batches db) \<and> (ir_outcome r = Pending) = (ir_payload r \<noteq> None)) \<and>
     (\<forall>b. distinct (map (ip_number \<circ> row_payload) (pending_rows b db)))"

definition import_wf :: "import_db \<Rightarrow> bool" where
  "import_wf db \<longleftrightarrow>
     distinct (map ib_id (im_batches db)) \<and> (\<forall>x \<in> set (im_batches db). ib_id x < im_next_batch db \<and> batch_ok db x) \<and>
     length (filter (\<lambda>x. ib_state x = Processing) (im_batches db)) \<le> 1 \<and>
     (\<forall>e \<in> set (im_events db). ae_batch e < im_next_batch db) \<and> rows_ok db \<and> lights_ok db"

section \<open>Events\<close>

text \<open>
  The statements of uploads, confirmations and workers, in any order; \<open>Administer\<close> is any other change of
  the light points that their primary key, its sequence and the unique index allow.
\<close>

datatype import_event =
  Upload int jsstring int jsstring buffer jsstring preview_fault
| Confirm int int jsstring bool
| Claim int jsstring
| ProcessRows int int jsstring nat
| FailRow int int jsstring string
| Complete int int jsstring
| Administer "inventory_row list" int

text \<open>The upload endpoint: a file that does not parse, or has no row, is answered with an error.\<close>

definition upload :: "import_env \<Rightarrow> int \<Rightarrow> jsstring \<Rightarrow> int \<Rightarrow> jsstring \<Rightarrow> buffer \<Rightarrow> jsstring \<Rightarrow> preview_fault \<Rightarrow> import_db \<Rightarrow>
    import_db \<times> (import_error + jsstring option)" where
  "upload env t key admin filename bytes mimetype fault db =
     (case parseImportSource env bytes mimetype filename of
        Inl e \<Rightarrow> (db, Inl e)
      | Inr rows \<Rightarrow>
          if rows = [] then (db, Inl (ImportError 400 ''No valid rows found in file''))
          else (case buildImportPreview t key admin filename rows fault db of (db1, r) \<Rightarrow> (db1, Inr r)))"

fun import_step :: "import_env \<Rightarrow> import_db \<Rightarrow> import_event \<Rightarrow> import_db \<times> unit" where
  "import_step env db (Upload t key admin filename bytes mimetype fault) = (fst (upload env t key admin filename bytes mimetype fault db), ())"
| "import_step env db (Confirm t admin key allow) = (fst (confirmImport t admin key allow db), ())"
| "import_step env db (Claim t token) = (fst (claimBatch t token db), ())"
| "import_step env db (ProcessRows t b token limit) =
     (case process_rows (im_nfc env) t b token limit db of Inl _ \<Rightarrow> (db, ()) | Inr (db1, outs) \<Rightarrow> (db1, ()))"
| "import_step env db (FailRow t b token reason) = (failNextPendingRow t b token reason db, ())"
| "import_step env db (Complete t b token) = (completeBatch t b token db, ())"
| "import_step env db (Administer table i) =
     (if lights_ok (db\<lparr>im_lights := table, im_next_light := i\<rparr>) then (db\<lparr>im_lights := table, im_next_light := i\<rparr>, ()) else (db, ()))"

section \<open>Batches change, rows stay\<close>

lemma count_same:
  "im_rows db1 = im_rows db \<Longrightarrow> count_outcome oc b db1 = count_outcome oc b db"
  "im_rows db1 = im_rows db \<Longrightarrow> rows_of b db1 = rows_of b db"
  "im_rows db1 = im_rows db \<Longrightarrow> pending_rows b db1 = pending_rows b db"
  by (simp_all add: count_outcome_def rows_of_def pending_rows_def)

lemma batch_ok_local:
  assumes "rows_of (ib_id x) db1 = rows_of (ib_id x) db"
    and "filter (\<lambda>e. ae_batch e = ib_id x) (im_events db1) = filter (\<lambda>e. ae_batch e = ib_id x) (im_events db)"
  shows "batch_ok db1 x = batch_ok db x"
  by (simp add: batch_ok_def batch_counts_def count_outcome_def pending_rows_def assms)

lemma batch_ok_same:
  assumes "im_rows db1 = im_rows db" "im_events db1 = im_events db"
  shows "batch_ok db1 x = batch_ok db x"
  by (simp add: batch_ok_def batch_counts_def count_same [OF assms(1)] assms(2))

lemma rows_ok_same:
  assumes "im_rows db1 = im_rows db" "ib_id ` set (im_batches db1) = ib_id ` set (im_batches db)"
  shows "rows_ok db1 = rows_ok db"
  by (simp add: rows_ok_def count_same [OF assms(1)] assms)

lemma distinct_map_if: "(\<And>x. h (f x) = h x) \<Longrightarrow> map h (map (\<lambda>x. if p x then f x else x) xs) = map h xs"
  by (induction xs) auto

lemma change_batch_map: "im_batches (change_batch b f db) = map (\<lambda>x. if ib_id x = b then f x else x) (im_batches db)"
  by (simp add: change_batch_def)

lemma import_wf_batches:
  assumes wf: "import_wf db" and g: "\<And>x. ib_id (g x) = ib_id x"
    and ok: "\<And>x. x \<in> set (im_batches db) \<Longrightarrow> batch_ok db (g x)"
    and one: "length (filter (\<lambda>x. ib_state x = Processing) (map g (im_batches db))) \<le> 1"
  shows "import_wf (db\<lparr>im_batches := map g (im_batches db)\<rparr>)"
proof -
  let ?db = "db\<lparr>im_batches := map g (im_batches db)\<rparr>"
  have ids: "map ib_id (im_batches ?db) = map ib_id (im_batches db)" by (simp add: g)
  have img: "ib_id ` set (im_batches ?db) = ib_id ` set (im_batches db)" by (simp add: image_image g)
  have "batch_ok ?db x = batch_ok db x" for x by (rule batch_ok_same) simp_all
  then have "\<forall>x \<in> set (im_batches ?db). ib_id x < im_next_batch ?db \<and> batch_ok ?db x"
    using wf ok g by (auto simp: import_wf_def)
  moreover have "rows_ok ?db" using rows_ok_same [OF _ img] wf by (simp add: import_wf_def)
  moreover have "lights_ok ?db" using wf by (simp add: import_wf_def lights_ok_def)
  moreover have "distinct (map ib_id (im_batches ?db))" using wf unfolding ids by (simp add: import_wf_def)
  moreover have "\<forall>e \<in> set (im_events ?db). ae_batch e < im_next_batch ?db" using wf by (simp add: import_wf_def)
  ultimately show ?thesis using one unfolding import_wf_def by simp
qed

text \<open>One batch changes and keeps its number: what has to be checked is the new batch.\<close>

lemma import_wf_change:
  assumes wf: "import_wf db" and f: "\<And>x. ib_id (f x) = ib_id x"
    and ok: "\<And>x. x \<in> set (im_batches db) \<Longrightarrow> ib_id x = b \<Longrightarrow> batch_ok db (f x)"
    and one: "\<And>x. x \<in> set (im_batches db) \<Longrightarrow> ib_id x = b \<Longrightarrow> ib_state (f x) = Processing \<Longrightarrow>
      ib_state x = Processing \<or> (\<forall>y \<in> set (im_batches db). ib_state y \<noteq> Processing)"
  shows "import_wf (change_batch b f db)"
proof -
  have d: "distinct (map ib_id (im_batches db))" using wf by (simp add: import_wf_def)
  have "length (filter (\<lambda>x. ib_state x = Processing) (map (\<lambda>x. if ib_id x = b then f x else x) (im_batches db))) \<le> 1"
  proof (cases "\<exists>x \<in> set (im_batches db). ib_id x = b \<and> ib_state (f x) = Processing \<and> ib_state x \<noteq> Processing")
    case True
    then have none: "\<forall>y \<in> set (im_batches db). ib_state y \<noteq> Processing" using one by blast
    have "length (filter (\<lambda>x. ib_state x = Processing) (map (\<lambda>x. if ib_id x = b then f x else x) xs)) \<le> length (filter (\<lambda>x. ib_id x = b) xs)"
      if "set xs \<subseteq> set (im_batches db)" for xs
      using that none by (induction xs) auto
    note le = this [OF order_refl]
    have "length (filter (\<lambda>x. ib_id x = b) xs) \<le> 1" if "distinct (map ib_id xs)" for xs
      using that by (induction xs) (auto simp: image_iff filter_empty_conv)
    from le this [OF d] show ?thesis by linarith
  next
    case False
    have "length (filter (\<lambda>x. ib_state x = Processing) (map (\<lambda>x. if ib_id x = b then f x else x) xs)) \<le> length (filter (\<lambda>x. ib_state x = Processing) xs)"
      if "set xs \<subseteq> set (im_batches db)" for xs
      using that False by (induction xs) auto
    from this [OF order_refl] show ?thesis using wf unfolding import_wf_def by linarith
  qed
  then show ?thesis unfolding change_batch_def
    by (rule import_wf_batches [OF wf, rotated 2]) (use f ok wf in \<open>auto simp: import_wf_def\<close>)
qed

section \<open>Previews expire, are confirmed and claimed\<close>

lemma batch_id_inj: "import_wf db \<Longrightarrow> x \<in> set (im_batches db) \<Longrightarrow> y \<in> set (im_batches db) \<Longrightarrow> ib_id x = ib_id y \<Longrightarrow> x = y"
  by (auto simp: import_wf_def distinct_map inj_on_def)

lemma import_wf_batch: "import_wf db \<Longrightarrow> x \<in> set (im_batches db) \<Longrightarrow> batch_ok db x"
  by (simp add: import_wf_def)

lemma cleanup_wf:
  assumes wf: "import_wf db"
  shows "import_wf (cleanupExpiredPreviews t db)"
proof -
  define gone where "gone b \<longleftrightarrow> ib_state b = Preview \<and> (case ib_expires b of None \<Rightarrow> False | Some e \<Rightarrow> e \<le> t)" for b :: import_batch
  define ids where "ids = ib_id ` set (filter gone (im_batches db))"
  let ?db = "db\<lparr>im_batches := filter (\<lambda>b. \<not> gone b) (im_batches db), im_rows := filter (\<lambda>r. ir_batch r \<notin> ids) (im_rows db)\<rparr>"
  have eq: "cleanupExpiredPreviews t db = ?db" by (simp add: cleanupExpiredPreviews_def gone_def [abs_def] ids_def Let_def)
  have rows: "rows_of b ?db = (if b \<in> ids then [] else rows_of b db)" for b
    by (auto simp: rows_of_def filter_empty_conv intro: filter_cong)
  have kept: "ib_id x \<notin> ids" if "x \<in> set (im_batches ?db)" for x
    using that batch_id_inj [OF wf, of x] by (auto simp: ids_def)
  have "batch_ok ?db x = batch_ok db x" if "x \<in> set (im_batches ?db)" for x
    using rows [of "ib_id x"] kept [OF that] by (simp add: batch_ok_def batch_counts_def count_outcome_def pending_rows_def)
  then have "\<forall>x \<in> set (im_batches ?db). ib_id x < im_next_batch ?db \<and> batch_ok ?db x"
    using wf by (auto simp: import_wf_def)
  moreover have "rows_ok ?db"
  proof -
    have "pending_rows b ?db = (if b \<in> ids then [] else pending_rows b db)" for b
      by (simp add: pending_rows_def rows)
    moreover have "ir_batch r \<in> ib_id ` set (im_batches ?db)" if "r \<in> set (im_rows ?db)" for r
    proof -
      have "ir_batch r \<in> ib_id ` set (im_batches db)" using that wf by (auto simp: import_wf_def rows_ok_def)
      then obtain x where x: "x \<in> set (im_batches db)" "ib_id x = ir_batch r" by auto
      have "\<not> gone x"
      proof
        assume "gone x"
        then have "ib_id x \<in> ids" using x(1) by (simp add: ids_def)
        then show False using that x(2) by simp
      qed
      then show ?thesis using x by (auto intro!: image_eqI [where x = x])
    qed
    ultimately show ?thesis using wf
      by (auto simp: import_wf_def rows_ok_def distinct_map_filter)
  qed
  moreover have "lights_ok ?db" using wf by (simp add: import_wf_def lights_ok_def)
  moreover have "distinct (map ib_id (im_batches ?db))" using wf by (simp add: import_wf_def distinct_map_filter)
  moreover have "length (filter (\<lambda>x. ib_state x = Processing) (im_batches ?db)) \<le> 1"
    using wf length_filter_le [of "\<lambda>x. \<not> gone x" "filter (\<lambda>x. ib_state x = Processing) (im_batches db)"]
    by (simp add: import_wf_def conj_commute)
  moreover have "\<forall>e \<in> set (im_events ?db). ae_batch e < im_next_batch ?db" using wf by (simp add: import_wf_def)
  ultimately show ?thesis unfolding eq import_wf_def by blast
qed

lemma find_batch_Some: "find_batch p db = Some x \<Longrightarrow> x \<in> set (im_batches db) \<and> p x"
  by (auto simp: find_batch_def find_Some_iff)

lemma confirm_wf:
  assumes "import_wf db0"
  shows "import_wf (fst (confirmImport t admin key allow db0))"
proof -
  define db where "db = cleanupExpiredPreviews t db0"
  have wf: "import_wf db" unfolding db_def by (rule cleanup_wf [OF assms])
  show ?thesis
  proof (cases "find_batch (\<lambda>x. ib_key x = key \<and> ib_admin x = admin) db")
    case None
    then show ?thesis using wf by (simp add: confirmImport_def db_def [symmetric] Let_def)
  next
    case (Some x)
    then have x: "x \<in> set (im_batches db)" using find_batch_Some by blast
    have "import_wf (change_batch (ib_id x) (\<lambda>y. y\<lparr>ib_state := Queued, ib_update := allow, ib_queued := Some t, ib_expires := None,
        ib_successful := 0, ib_applied := 0, ib_created := 0, ib_updated := 0, ib_unchanged := 0,
        ib_skipped := count_outcome RowSkipped (ib_id x) db, ib_failed := count_outcome RowFailed (ib_id x) db\<rparr>) db)"
      if p: "ib_state x = Preview"
    proof (rule import_wf_change [OF wf])
      fix y assume y: "y \<in> set (im_batches db)" "ib_id y = ib_id x"
      then have "y = x" using batch_id_inj [OF wf y(1) x] by simp
      then show "batch_ok db (y\<lparr>ib_state := Queued, ib_update := allow, ib_queued := Some t, ib_expires := None,
        ib_successful := 0, ib_applied := 0, ib_created := 0, ib_updated := 0, ib_unchanged := 0,
        ib_skipped := count_outcome RowSkipped (ib_id x) db, ib_failed := count_outcome RowFailed (ib_id x) db\<rparr>)"
        using import_wf_batch [OF wf x] p by (auto simp: batch_ok_def batch_counts_def)
    qed simp_all
    then show ?thesis using wf Some by (simp add: confirmImport_def db_def [symmetric] Let_def split: option.splits)
  qed
qed

lemma batch_ok_requeued:
  assumes "batch_ok db x"
  shows "batch_ok db (requeued t x)"
proof (cases "lease_lost t x")
  case True
  then have "ib_state x = Processing" by (simp add: lease_lost_def)
  with assms True show ?thesis by (simp add: requeued_def batch_ok_def batch_counts_def)
next
  case False
  then show ?thesis using assms by (simp add: requeued_def)
qed

lemma requeue_wf:
  assumes wf: "import_wf db"
  shows "import_wf (requeue t db)"
proof -
  have le: "length (filter (\<lambda>x. ib_state x = Processing) (map (requeued t) xs)) \<le> length (filter (\<lambda>x. ib_state x = Processing) xs)" for xs
    by (induction xs) (auto simp: requeued_def)
  show ?thesis unfolding requeue_def
  proof (rule import_wf_batches [OF wf])
    show "ib_id (requeued t x) = ib_id x" for x by (simp add: requeued_def)
    show "batch_ok db (requeued t x)" if "x \<in> set (im_batches db)" for x
      using that wf by (intro batch_ok_requeued) (simp add: import_wf_def)
    show "length (filter (\<lambda>x. ib_state x = Processing) (map (requeued t) (im_batches db))) \<le> 1"
      using le [of "im_batches db"] wf unfolding import_wf_def by linarith
  qed
qed

lemma claim_wf:
  assumes "import_wf db0"
  shows "import_wf (fst (claimBatch t token db0))"
proof -
  define db where "db = requeue t (cleanupExpiredPreviews t db0)"
  have wf: "import_wf db" unfolding db_def by (intro requeue_wf cleanup_wf assms)
  show ?thesis
  proof (cases "waiting_batches db")
    case Nil
    then show ?thesis using wf by (simp add: claimBatch_def db_def [symmetric])
  next
    case (Cons x rest)
    then have x: "x \<in> set (waiting_batches db)" by simp
    then have none: "\<forall>y \<in> set (im_batches db). ib_state y \<noteq> Processing" by (auto simp: waiting_batches_def split: if_splits)
    with x have xs: "x \<in> set (im_batches db)" "ib_state x = Queued" by (auto simp: waiting_batches_def)
    have "import_wf (change_batch (ib_id x) (claimed t token) db)"
    proof (rule import_wf_change [OF wf])
      fix y assume y: "y \<in> set (im_batches db)" "ib_id y = ib_id x"
      then have "y = x" using batch_id_inj [OF wf y(1) xs(1)] by simp
      then show "batch_ok db (claimed t token y)"
        using import_wf_batch [OF wf xs(1)] xs(2) by (simp add: batch_ok_def batch_counts_def claimed_def)
    qed (use none in \<open>simp_all add: claimed_def\<close>)
    then show ?thesis using Cons by (simp add: claimBatch_def db_def [symmetric])
  qed
qed

section \<open>Rows are settled\<close>

lemma count_settled:
  assumes d: "distinct xs" and sel: "distinct sel" "set sel \<subseteq> set xs" and out: "\<And>x. x \<in> set sel \<Longrightarrow> \<not> Q x"
  shows "length (filter Q (map (\<lambda>x. if x \<in> set sel then f x else x) xs)) = length (filter Q xs) + length (filter (Q \<circ> f) sel)"
proof -
  let ?A = "{x. Q x} \<inter> set xs" and ?B = "{x. (Q \<circ> f) x} \<inter> set sel"
  have "length (filter Q (map (\<lambda>x. if x \<in> set sel then f x else x) xs)) = length (filter (\<lambda>x. Q (if x \<in> set sel then f x else x)) xs)"
    by (simp add: filter_map o_def)
  also have "\<dots> = card ({x. Q (if x \<in> set sel then f x else x)} \<inter> set xs)" by (rule distinct_length_filter [OF d])
  also have "{x. Q (if x \<in> set sel then f x else x)} \<inter> set xs = ?A \<union> ?B" using sel out by (auto split: if_splits)
  also have "card (?A \<union> ?B) = card ?A + card ?B" using out by (intro card_Un_disjoint) auto
  finally show ?thesis using distinct_length_filter [OF d, of Q] distinct_length_filter [OF sel(1), of "Q \<circ> f"] by simp
qed

definition settle :: "int \<Rightarrow> import_row list \<Rightarrow> (import_row \<Rightarrow> import_row) \<Rightarrow> import_row list \<Rightarrow> import_row list" where
  "settle b sel f = map (\<lambda>r. if ir_batch r = b \<and> ir_source r \<in> set (map ir_source sel) then f r else r)"

definition settles :: "(import_row \<Rightarrow> import_row) \<Rightarrow> bool" where
  "settles f \<longleftrightarrow> (\<forall>r. ir_batch (f r) = ir_batch r \<and> ir_source (f r) = ir_source r \<and> ir_outcome (f r) \<noteq> Pending \<and> ir_payload (f r) = None)"

definition taken :: "int \<Rightarrow> import_row list \<Rightarrow> import_db \<Rightarrow> bool" where
  "taken b sel db \<longleftrightarrow> distinct sel \<and> set sel \<subseteq> set (pending_rows b db)"

lemma settle_rows_of:
  assumes f: "settles f" and r: "im_rows db1 = settle b sel f (im_rows db)"
  shows "rows_of c db1 = settle b sel f (rows_of c db)"
proof -
  have "ir_batch (if p then f r else r) = ir_batch r" for p r using f by (simp add: settles_def)
  then show ?thesis by (simp add: rows_of_def r settle_def filter_map o_def)
qed

lemma settle_other: "c \<noteq> b \<Longrightarrow> settle b sel f (rows_of c db) = rows_of c db"
  by (auto simp: settle_def rows_of_def intro!: map_idI)

lemma rows_distinct: "rows_ok db \<Longrightarrow> distinct (im_rows db)"
  unfolding rows_ok_def distinct_map by blast

lemma taken_source:
  assumes ok: "rows_ok db" and t: "taken b sel db" and r: "r \<in> set (im_rows db)" "ir_batch r = b"
  shows "ir_source r \<in> set (map ir_source sel) \<longleftrightarrow> r \<in> set sel"
proof
  have inj: "r = q" if "q \<in> set (im_rows db)" "ir_batch r = ir_batch q" "ir_source r = ir_source q" for q
    using that r ok by (auto simp: rows_ok_def distinct_map inj_on_def)
  assume "ir_source r \<in> set (map ir_source sel)"
  then obtain q where q: "q \<in> set sel" "ir_source q = ir_source r" by auto
  then have "q \<in> set (im_rows db) \<and> ir_batch q = b" using t by (auto simp: taken_def pending_rows_def rows_of_def)
  then show "r \<in> set sel" using inj [of q] q r by simp
qed simp

lemma settle_same:
  assumes ok: "rows_ok db" and t: "taken b sel db"
  shows "settle b sel f (rows_of b db) = map (\<lambda>r. if r \<in> set sel then f r else r) (rows_of b db)"
  unfolding settle_def
proof (rule map_cong [OF refl])
  fix r assume "r \<in> set (rows_of b db)"
  then have r: "r \<in> set (im_rows db)" "ir_batch r = b" by (auto simp: rows_of_def)
  show "(if ir_batch r = b \<and> ir_source r \<in> set (map ir_source sel) then f r else r) = (if r \<in> set sel then f r else r)"
    unfolding taken_source [OF ok t r] using r by simp
qed

lemma settle_count:
  assumes ok: "rows_ok db" and t: "taken b sel db" and f: "settles f" and r: "im_rows db1 = settle b sel f (im_rows db)"
    and oc: "oc \<noteq> Pending"
  shows "count_outcome oc b db1 = count_outcome oc b db + count_in oc (map (ir_outcome \<circ> f) sel)"
proof -
  have "distinct (rows_of b db)" using rows_distinct [OF ok] by (simp add: rows_of_def)
  moreover have "\<not> ir_outcome x = oc" if "x \<in> set sel" for x using that t oc by (auto simp: taken_def pending_rows_def)
  moreover have "set sel \<subseteq> set (rows_of b db)" "distinct sel" using t by (auto simp: taken_def pending_rows_def)
  ultimately have "length (filter (\<lambda>r. ir_outcome r = oc) (map (\<lambda>r. if r \<in> set sel then f r else r) (rows_of b db))) =
      length (filter (\<lambda>r. ir_outcome r = oc) (rows_of b db)) + length (filter ((\<lambda>r. ir_outcome r = oc) \<circ> f) sel)"
    by (intro count_settled)
  then show ?thesis
    by (simp add: count_outcome_def settle_rows_of [OF f r] settle_same [OF ok t] count_in_def filter_map o_def)
qed

lemma settle_pending:
  assumes ok: "rows_ok db" and t: "taken b sel db" and f: "settles f" and r: "im_rows db1 = settle b sel f (im_rows db)"
  shows "pending_rows b db1 = filter (\<lambda>r. r \<notin> set sel) (pending_rows b db)"
proof -
  have "filter (\<lambda>r. ir_outcome r = Pending) (map (\<lambda>r. if r \<in> set sel then f r else r) xs) =
      filter (\<lambda>r. r \<notin> set sel) (filter (\<lambda>r. ir_outcome r = Pending) xs)" for xs
    using f by (induction xs) (auto simp: settles_def)
  then show ?thesis by (simp add: pending_rows_def settle_rows_of [OF f r] settle_same [OF ok t])
qed

lemma settle_rows_ok:
  assumes ok: "rows_ok db" and t: "taken b sel db" and f: "settles f" and r: "im_rows db1 = settle b sel f (im_rows db)"
    and ids: "ib_id ` set (im_batches db1) = ib_id ` set (im_batches db)"
  shows "rows_ok db1"
proof -
  have keys: "map (\<lambda>r. (ir_batch r, ir_source r)) (settle b sel f xs) = map (\<lambda>r. (ir_batch r, ir_source r)) xs" for xs
    using f by (induction xs) (auto simp: settle_def settles_def)
  have row: "ir_batch q \<in> ib_id ` set (im_batches db) \<and> (ir_outcome q = Pending) = (ir_payload q \<noteq> None)"
    if "q \<in> set (settle b sel f (im_rows db))" for q
  proof -
    from that obtain p where p: "p \<in> set (im_rows db)" "q = f p \<or> q = p" by (auto simp: settle_def split: if_splits)
    then show ?thesis using ok f by (auto simp: rows_ok_def settles_def)
  qed
  have "distinct (map (ip_number \<circ> row_payload) (pending_rows c db1))" for c
  proof (cases "c = b")
    case True
    then show ?thesis using ok by (simp add: settle_pending [OF ok t f r] rows_ok_def distinct_map_filter)
  next
    case False
    then show ?thesis using ok settle_rows_of [OF f r, of c] by (simp add: rows_ok_def pending_rows_def settle_other)
  qed
  moreover have "distinct (map (\<lambda>r. (ir_batch r, ir_source r)) (im_rows db1))" using ok unfolding r keys rows_ok_def by blast
  ultimately show ?thesis using row ids unfolding rows_ok_def r by blast
qed

text \<open>A statement of the worker: rows it owns are settled, the batch is counted on, events and points are added.\<close>

definition counted :: "row_outcome list \<Rightarrow> import_batch \<Rightarrow> import_batch \<Rightarrow> bool" where
  "counted outs x y \<longleftrightarrow>
     ib_state y = ib_state x \<and> ib_token y = ib_token x \<and> ib_total y = ib_total x \<and>
     ib_created y = ib_created x + count_in RowCreated outs \<and> ib_updated y = ib_updated x + count_in RowUpdated outs \<and>
     ib_unchanged y = ib_unchanged x + count_in RowUnchanged outs \<and> ib_skipped y = ib_skipped x + count_in RowSkipped outs \<and>
     ib_failed y = ib_failed x + count_in RowFailed outs \<and> ib_applied y = ib_created y + ib_updated y \<and>
     ib_successful y = ib_created y + ib_updated y + ib_unchanged y"

lemma settle_batch_ok:
  assumes wf: "import_wf db" and x: "x \<in> set (im_batches db)" "ib_id x = b" "ib_state x = Processing"
    and t: "taken b sel db" and f: "settles f" and c: "counted (map (ir_outcome \<circ> f) sel) x y" and y: "ib_id y = b"
    and rows: "im_rows db1 = settle b sel f (im_rows db)"
    and events: "im_events db1 = im_events db @ es" "\<forall>e \<in> set es. ae_batch e = b"
      "length es = count_in RowCreated (map (ir_outcome \<circ> f) sel) + count_in RowUpdated (map (ir_outcome \<circ> f) sel)"
  shows "batch_ok db1 y"
proof -
  have ok: "rows_ok db" using wf by (simp add: import_wf_def)
  have bx: "batch_ok db x" by (rule import_wf_batch [OF wf x(1)])
  note count = settle_count [OF ok t f rows]
  have len: "length (rows_of b db1) = length (rows_of b db)" by (simp add: settle_rows_of [OF f rows] settle_def)
  have ev: "length (filter (\<lambda>e. ae_batch e = b) (im_events db1)) = length (filter (\<lambda>e. ae_batch e = b) (im_events db)) + length es"
    using events by (simp add: filter_id_conv [THEN iffD2])
  from bx x(2,3) have old: "ib_created x = count_outcome RowCreated b db" "ib_updated x = count_outcome RowUpdated b db"
    "ib_unchanged x = count_outcome RowUnchanged b db" "ib_skipped x = count_outcome RowSkipped b db"
    "ib_failed x = count_outcome RowFailed b db" "ib_applied x = ib_created x + ib_updated x"
    "ib_applied x = length (filter (\<lambda>e. ae_batch e = b) (im_events db))" "length (rows_of b db) = ib_total x" "ib_token x \<noteq> None"
    by (auto simp: batch_ok_def batch_counts_def)
  have st: "ib_state y = Processing" using c x by (simp add: counted_def)
  have "batch_counts db1 y" using c old x(3) by (simp add: batch_counts_def counted_def y count ev events(3))
  then show ?thesis using c old st len by (simp add: batch_ok_def counted_def y)
qed

lemma settled_rows_wf:
  assumes wf: "import_wf db" and x: "x \<in> set (im_batches db)" "ib_id x = b" "ib_state x = Processing"
    and t: "taken b sel db" and f: "settles f" and c: "counted (map (ir_outcome \<circ> f) sel) x (g x)"
    and g: "\<And>x. ib_id (g x) = ib_id x"
    and rows: "im_rows db1 = settle b sel f (im_rows db)"
    and events: "im_events db1 = im_events db @ es" "\<forall>e \<in> set es. ae_batch e = b"
      "length es = count_in RowCreated (map (ir_outcome \<circ> f) sel) + count_in RowUpdated (map (ir_outcome \<circ> f) sel)"
    and batches: "im_batches db1 = im_batches db" "im_next_batch db1 = im_next_batch db" and lights: "lights_ok db1"
  shows "import_wf (change_batch b g db1)"
proof -
  let ?db = "change_batch b g db1"
  have ok: "rows_ok db" using wf by (simp add: import_wf_def)
  have id: "map ib_id (im_batches ?db) = map ib_id (im_batches db)" unfolding change_batch_map batches by (rule distinct_map_if) (rule g)
  then have img: "ib_id ` set (im_batches ?db) = ib_id ` set (im_batches db)" by (metis list.set_map)
  have rows': "im_rows ?db = settle b sel f (im_rows db)" and events': "im_events ?db = im_events db @ es"
    using rows events by (simp_all add: change_batch_def)
  have nb: "im_next_batch ?db = im_next_batch db" using batches by (simp add: change_batch_def)
  have gx: "ib_id (g x) = b" using g x(2) by simp
  have batch: "batch_ok ?db y" if y: "y \<in> set (im_batches ?db)" for y
  proof -
    from y obtain z where z: "z \<in> set (im_batches db)" "y = (if ib_id z = b then g z else z)"
      by (auto simp: change_batch_map batches)
    show ?thesis
    proof (cases "ib_id z = b")
      case True
      then have "z = x" using batch_id_inj [OF wf z(1) x(1)] x(2) by simp
      then have "y = g x" using z True by simp
      then show ?thesis using settle_batch_ok [OF wf x t f c gx rows' events' events(2,3)] by simp
    next
      case False
      have "rows_of (ib_id z) ?db = rows_of (ib_id z) db" using settle_rows_of [OF f rows'] settle_other [OF False] by simp
      moreover have "filter (\<lambda>e. ae_batch e = ib_id z) es = []" using events(2) False by (auto simp: filter_empty_conv)
      then have "filter (\<lambda>e. ae_batch e = ib_id z) (im_events ?db) = filter (\<lambda>e. ae_batch e = ib_id z) (im_events db)"
        unfolding events' by simp
      ultimately have "batch_ok ?db z = batch_ok db z" by (rule batch_ok_local)
      then show ?thesis using import_wf_batch [OF wf z(1)] z(2) False by simp
    qed
  qed
  have states: "map ib_state (im_batches ?db) = map ib_state (im_batches db)"
  proof -
    have "ib_state (if ib_id z = b then g z else z) = ib_state z" if "z \<in> set (im_batches db)" for z
    proof (cases "ib_id z = b")
      case True
      then have "z = x" using batch_id_inj [OF wf that x(1)] x(2) by simp
      then show ?thesis using c by (simp add: counted_def)
    qed simp
    then show ?thesis by (simp add: change_batch_map batches)
  qed
  have same: "length (filter (\<lambda>z. ib_state z = Processing) zs) = length (filter (\<lambda>s. s = Processing) (map ib_state zs))" for zs
    by (simp add: filter_map o_def)
  have one: "length (filter (\<lambda>z. ib_state z = Processing) (im_batches ?db)) \<le> 1"
    using wf unfolding import_wf_def same states by blast
  have lt: "\<forall>y \<in> set (im_batches ?db). ib_id y < im_next_batch ?db"
  proof
    fix y assume "y \<in> set (im_batches ?db)"
    then have "ib_id y \<in> ib_id ` set (im_batches db)" using img by blast
    then show "ib_id y < im_next_batch ?db" using wf by (auto simp: import_wf_def change_batch_def batches)
  qed
  have "b < im_next_batch db" using wf x by (auto simp: import_wf_def)
  then have ev: "\<forall>e \<in> set (im_events ?db). ae_batch e < im_next_batch ?db"
    using wf events(2) unfolding events' nb by (auto simp: import_wf_def)
  have "rows_ok ?db" by (rule settle_rows_ok [OF ok t f rows' img])
  moreover have "lights_ok ?db" using lights by (simp add: lights_ok_def change_batch_def)
  moreover have "distinct (map ib_id (im_batches ?db))" using wf unfolding id by (simp add: import_wf_def)
  ultimately show ?thesis using batch lt one ev by (simp add: import_wf_def)
qed

end
