(* ===== verification/ImportInvariant.thy ===== *)
theory ImportInvariant
  imports ImportRuns
begin

text \<open>
  Every event of an import keeps the invariant: the statements of the worker, the completion of a batch
  and the upload of a file; the invariant holds over every sequence of events.
\<close>

section \<open>Light points of a group\<close>

definition inserting :: "bool \<Rightarrow> inventory_row list \<Rightarrow> import_payload list \<Rightarrow> import_payload list" where
  "inserting upd table ps = filter (\<lambda>p. row_effect upd table p = Insert) ps"

lemma inserted_fields:
  "map iv_id (inserted_lights t upd table i ps) = map (\<lambda>k. i + int k) [0..<length (inserting upd table ps)]"
  "map iv_number (inserted_lights t upd table i ps) = map ip_number (inserting upd table ps)"
  "length (inserted_lights t upd table i ps) = length (inserting upd table ps)"
proof -
  have id: "map iv_id (map2 (\<lambda>k p. new_light t (i + int k) p) ks qs) = map (\<lambda>k. i + int k) ks" if "length ks = length qs" for ks qs
    using that by (induction ks qs rule: list_induct2) (simp_all add: new_light_def)
  have nu: "map iv_number (map2 (\<lambda>k p. new_light t (i + int k) p) ks qs) = map ip_number qs" if "length ks = length qs" for ks qs
    using that by (induction ks qs rule: list_induct2) (simp_all add: new_light_def)
  show "map iv_id (inserted_lights t upd table i ps) = map (\<lambda>k. i + int k) [0..<length (inserting upd table ps)]"
    unfolding inserted_lights_def inserting_def Let_def by (rule id) simp
  show "map iv_number (inserted_lights t upd table i ps) = map ip_number (inserting upd table ps)"
    unfolding inserted_lights_def inserting_def Let_def by (rule nu) simp
  show "length (inserted_lights t upd table i ps) = length (inserting upd table ps)"
    by (simp add: inserted_lights_def inserting_def Let_def)
qed

lemma replaced_fields:
  "map iv_id (replaced_table t upd table ps) = map iv_id table"
  "map iv_number (replaced_table t upd table ps) = map iv_number table"
  by (auto simp: replaced_table_def replaced_light_def find_Some_iff split: option.splits)

lemma find_light_None: "find_light s table = None \<longleftrightarrow> s \<notin> iv_number ` set table"
  by (auto simp: find_light_def find_None_iff)

lemma inserting_fresh: "p \<in> set (inserting upd table ps) \<Longrightarrow> ip_number p \<notin> iv_number ` set table"
  using find_light_None by (auto simp: inserting_def row_effect_def split: option.splits if_splits)

lemma lights_ok_group:
  assumes ok: "lights_ok db" and d: "distinct (map ip_number ps)"
    and l: "im_lights db1 = replaced_table t upd (im_lights db) ps @ inserted_lights t upd (im_lights db) (im_next_light db) ps"
    and i: "im_next_light db1 = im_next_light db + int (length (inserted_lights t upd (im_lights db) (im_next_light db) ps))"
  shows "lights_ok db1"
proof -
  let ?new = "inserting upd (im_lights db) ps" and ?i = "im_next_light db"
  have ids: "map iv_id (im_lights db1) = map iv_id (im_lights db) @ map (\<lambda>k. ?i + int k) [0..<length ?new]"
    by (simp add: l replaced_fields inserted_fields)
  have nums: "map iv_number (im_lights db1) = map iv_number (im_lights db) @ map ip_number ?new"
    by (simp add: l replaced_fields inserted_fields)
  have lt: "\<forall>x \<in> set (map iv_id (im_lights db)). x < ?i" using ok by (auto simp: lights_ok_def)
  have "distinct (map iv_id (im_lights db1))" using ok lt unfolding ids by (auto simp: lights_ok_def distinct_map inj_on_def)
  moreover have "distinct (map ip_number ?new)" using d by (simp add: inserting_def distinct_map_filter)
  then have "distinct (map iv_number (im_lights db1))"
    using ok inserting_fresh [of _ upd "im_lights db" ps] unfolding nums by (auto simp: lights_ok_def) (metis imageI)
  moreover have "x < im_next_light db1" if "x \<in> set (map iv_id (im_lights db1))" for x
    using that lt unfolding ids i by (auto simp: inserted_fields)
  ultimately show ?thesis by (simp add: lights_ok_def)
qed

lemma group_events:
  assumes "outs = map (\<lambda>p. effect_outcome (row_effect (ib_update x) table p)) ps"
  shows "length (batch_events x t table (inserted_lights t (ib_update x) table i ps) ps) = count_in RowCreated outs + count_in RowUpdated outs"
    "\<forall>e \<in> set (batch_events x t table ins ps). ae_batch e = ib_id x"
proof -
  have new: "length (inserting (ib_update x) table ps) = count_in RowCreated outs" unfolding assms
    by (induction ps) (auto simp: inserting_def count_in_def effect_outcome_def split: row_effect.splits)
  have "length (List.map_filter (\<lambda>p. case row_effect (ib_update x) table p of
      Replace l \<Rightarrow> Some (update_event x l (replaced_light t p l)) | _ \<Rightarrow> None) ps) = count_in RowUpdated outs" unfolding assms
    by (induction ps) (auto simp: List.map_filter_simps count_in_def effect_outcome_def split: row_effect.splits)
  then show "length (batch_events x t table (inserted_lights t (ib_update x) table i ps) ps) = count_in RowCreated outs + count_in RowUpdated outs"
    using new by (simp add: batch_events_def inserted_fields)
  show "\<forall>e \<in> set (batch_events x t table ins ps). ae_batch e = ib_id x"
    by (auto simp: batch_events_def create_event_def update_event_def List.map_filter_def split: row_effect.splits)
qed

section \<open>The statements of the worker\<close>

lemma owned_Some:
  assumes "owned b token db = Some x"
  shows "x \<in> set (im_batches db)" "ib_id x = b" "ib_state x = Processing" "ib_token x = Some token"
  using find_batch_Some [OF assms [unfolded owned_def]] by auto

lemma selected_taken:
  assumes "rows_ok db"
  shows "taken b (selected b token n db) db" "distinct (map (ip_number \<circ> row_payload) (selected b token n db))"
proof -
  let ?p = "sort_key ir_source (pending_rows b db)"
  have d: "distinct (map (ip_number \<circ> row_payload) (pending_rows b db))" using assms by (simp add: rows_ok_def)
  have "distinct (map (ip_number \<circ> row_payload) ?p)"
    using d by (simp add: distinct_map)
  then have "distinct (map (ip_number \<circ> row_payload) (take n ?p))" by (metis distinct_take take_map)
  then show s: "distinct (map (ip_number \<circ> row_payload) (selected b token n db))" by (simp add: selected_def)
  then have "distinct (selected b token n db)" by (simp add: distinct_map)
  then show "taken b (selected b token n db) db" using selected_pending by (auto simp: taken_def)
qed

lemma mark_row_settles: "settles (mark_row upd table ins)"
  by (simp add: settles_def)

lemma process_rows_wf:
  assumes wf: "import_wf db" and p: "process_rows nfc t b token limit db = Inr (db1, outs)"
  shows "import_wf db1"
proof (cases "owned b token db")
  case None
  then show ?thesis using p wf by (simp add: process_rows_def)
next
  case (Some x)
  define sel where "sel = selected b token limit db"
  define ps where "ps = map row_payload sel"
  define ins where "ins = inserted_lights t (ib_update x) (im_lights db) (im_next_light db) ps"
  define f where "f = mark_row (ib_update x) (im_lights db) ins"
  define db2 where "db2 = db\<lparr>im_lights := replaced_table t (ib_update x) (im_lights db) ps @ ins,
    im_next_light := im_next_light db + int (length ins), im_rows := settle b sel f (im_rows db),
    im_events := im_events db @ batch_events x t (im_lights db) ins ps\<rparr>"
  show ?thesis
  proof (cases "sel = []")
    case True
    then show ?thesis using p wf Some by (simp add: process_rows_def sel_def Let_def)
  next
    case False
    have outs: "outs = map (ir_outcome \<circ> f) sel"
      using p Some False by (auto simp: process_rows_def Let_def sel_def [symmetric] f_def split: option.splits)
    have db1: "db1 = change_batch b (add_counts t outs) db2"
      using p Some False
      by (auto simp: process_rows_def Let_def sel_def ps_def ins_def f_def db2_def settle_def split: option.splits)
    have ok: "rows_ok db" "lights_ok db" using wf by (simp_all add: import_wf_def)
    have pout: "outs = map (\<lambda>p. effect_outcome (row_effect (ib_update x) (im_lights db) p)) ps"
      by (simp add: outs ps_def f_def)
    note x = owned_Some [OF Some]
    have none: "count_in RowFailed outs = 0" unfolding pout count_in_def
      by (auto simp: filter_empty_conv effect_outcome_def split: row_effect.splits)
    have c: "counted (map (ir_outcome \<circ> f) sel) x (add_counts t outs x)"
      using import_wf_batch [OF wf x(1)] none outs by (simp add: counted_def add_counts_def batch_ok_def batch_counts_def)
    have l: "lights_ok db2"
      by (rule lights_ok_group [OF ok(2), where t = t and upd = "ib_update x" and ps = ps])
        (use selected_taken(2) [OF ok(1)] in \<open>simp_all add: db2_def ins_def ps_def sel_def\<close>)
    show ?thesis unfolding db1
    proof (rule settled_rows_wf [OF wf x(1-3), where sel = sel and f = f and es = "batch_events x t (im_lights db) ins ps"])
      show "taken b sel db" using selected_taken(1) [OF ok(1)] by (simp add: sel_def)
      show "settles f" by (simp add: f_def mark_row_settles)
      show "counted (map (ir_outcome \<circ> f) sel) x (add_counts t outs x)" by (rule c)
      show "lights_ok db2" by (rule l)
      show "\<forall>e \<in> set (batch_events x t (im_lights db) ins ps). ae_batch e = b" using group_events(2) [OF pout, of t ins] x(2) by simp
      show "length (batch_events x t (im_lights db) ins ps) =
          count_in RowCreated (map (ir_outcome \<circ> f) sel) + count_in RowUpdated (map (ir_outcome \<circ> f) sel)"
        using group_events(1) [OF pout, of t "im_next_light db"] by (simp add: ins_def outs)
    qed (simp_all add: db2_def add_counts_def)
  qed
qed

lemma failNext_wf:
  assumes wf: "import_wf db"
  shows "import_wf (failNextPendingRow t b token reason db)"
proof (cases "selected b token 1 db")
  case Nil
  then show ?thesis using wf by (simp add: failNextPendingRow_def)
next
  case (Cons r rest)
  then obtain x where Some: "owned b token db = Some x" by (auto simp: selected_def split: if_splits)
  note x = owned_Some [OF Some]
  define f where "f q = q\<lparr>ir_outcome := RowFailed, ir_reason := Some (js reason), ir_payload := None\<rparr>" for q :: import_row
  have ok: "rows_ok db" "lights_ok db" using wf by (simp_all add: import_wf_def)
  have one: "selected b token 1 db = [r]" using Cons Some by (cases "sort_key ir_source (pending_rows b db)") (simp_all add: selected_def)
  have outs: "map (ir_outcome \<circ> f) [r] = [RowFailed]" by (simp add: f_def)
  have eq: "failNextPendingRow t b token reason db =
      change_batch b (\<lambda>x. x\<lparr>ib_failed := ib_failed x + 1, ib_lease := Some (t + LEASE_SECONDS * 1000)\<rparr>)
        (db\<lparr>im_rows := settle b [r] f (im_rows db)\<rparr>)"
    by (simp add: failNextPendingRow_def one settle_def f_def del: One_nat_def cong: if_cong)
  show ?thesis unfolding eq
  proof (rule settled_rows_wf [OF wf x(1-3), where sel = "[r]" and f = f and es = "[]"])
    show "taken b [r] db" using selected_taken(1) [OF ok(1), of b token 1] unfolding one .
    show "settles f" by (simp add: f_def settles_def)
    show "counted (map (ir_outcome \<circ> f) [r]) x (x\<lparr>ib_failed := ib_failed x + 1, ib_lease := Some (t + LEASE_SECONDS * 1000)\<rparr>)"
      using import_wf_batch [OF wf x(1)] unfolding outs by (simp add: counted_def count_in_def batch_ok_def batch_counts_def)
    show "lights_ok (db\<lparr>im_rows := settle b [r] f (im_rows db)\<rparr>)" using ok by (simp add: lights_ok_def)
  qed (simp_all add: f_def count_in_def)
qed

lemma complete_wf:
  assumes wf: "import_wf db"
  shows "import_wf (completeBatch t b token db)"
proof (cases "owned b token db = None \<or> pending_rows b db \<noteq> []")
  case False
  then obtain x where Some: "owned b token db = Some x" and empty: "pending_rows b db = []" by auto
  note x = owned_Some [OF Some]
  define g where "g y = y\<lparr>ib_state := (if ib_failed y > 0 then CompletedWithErrors else Completed),
    ib_completed := Some t, ib_lease := None, ib_token := None\<rparr>" for y :: import_batch
  have "import_wf (change_batch b g db)"
  proof (rule import_wf_change [OF wf])
    fix y assume y: "y \<in> set (im_batches db)" "ib_id y = b"
    then have "y = x" using batch_id_inj [OF wf y(1) x(1)] x(2) by simp
    then show "batch_ok db (g y)"
      using import_wf_batch [OF wf x(1)] x(2,3) empty by (simp add: batch_ok_def batch_counts_def g_def)
  qed (auto simp: g_def split: if_splits)
  then show ?thesis unfolding completeBatch_def g_def [abs_def] using wf by auto
qed (simp add: completeBatch_def wf)

section \<open>Uploads\<close>

text \<open>The preview of a file adds a batch with a new number and its rows.\<close>

lemma new_batch_wf:
  assumes wf: "import_wf db" and valid: "list_all (row_valid env) rows" and index: "distinct (map pr_index rows)"
    and b: "b = im_next_batch db"
  shows "import_wf (db\<lparr>im_batches := im_batches db @ [preview_batch b admin name key t (length rows)],
    im_rows := im_rows db @ preview_rows b ex rows, im_next_batch := b + 1\<rparr>)"
proof -
  define new where "new = preview_rows b ex rows"
  define x where "x = preview_batch b admin name key t (length rows)"
  let ?db = "db\<lparr>im_batches := im_batches db @ [x], im_rows := im_rows db @ new, im_next_batch := b + 1\<rparr>"
  have x: "ib_id x = b" "ib_state x = Preview" by (simp_all add: x_def preview_batch_def)
  have ids: "ib_id y < b" if "y \<in> set (im_batches db)" for y using wf that b by (auto simp: import_wf_def)
  have old: "ir_batch r < b" if "r \<in> set (im_rows db)" for r
    using wf that ids by (fastforce simp: import_wf_def rows_ok_def)
  have nb: "ir_batch r = b" if "r \<in> set new" for r using that by (auto simp: new_def preview_rows_def)
  have rows: "rows_of c ?db = (if c = b then new else rows_of c db)" for c
  proof (cases "c = b")
    case True
    have "filter (\<lambda>r. ir_batch r = b) (im_rows db) = []" using old by (force simp: filter_empty_conv)
    moreover have "filter (\<lambda>r. ir_batch r = b) new = new" using nb by (simp add: filter_id_conv)
    ultimately show ?thesis using True by (simp add: rows_of_def)
  next
    case False
    then have "filter (\<lambda>r. ir_batch r = c) new = []" using nb by (auto simp: filter_empty_conv)
    then show ?thesis using False by (simp add: rows_of_def)
  qed
  have ev: "filter (\<lambda>e. ae_batch e = b) (im_events db) = []" using wf b by (fastforce simp: import_wf_def filter_empty_conv)
  have none: "count_outcome oc b ?db = 0" if "oc \<in> {RowCreated, RowUpdated, RowUnchanged}" for oc
  proof -
    have "ir_outcome r \<noteq> oc" if "r \<in> set new" for r
    proof -
      obtain q where "r = preview_row b (duplicate_conflicts rows) (duplicate_skips rows) ex q"
        using \<open>r \<in> set new\<close> by (auto simp: new_def preview_rows_def)
      then show ?thesis using preview_row_outcome(1) [of b "duplicate_conflicts rows" "duplicate_skips rows" ex q] \<open>oc \<in> _\<close> by auto
    qed
    then show ?thesis by (simp add: count_outcome_def rows filter_empty_conv)
  qed
  have "batch_ok ?db x"
    using none ev by (simp add: batch_ok_def batch_counts_def x rows) (simp add: x_def preview_batch_def new_def preview_rows_def)
  moreover have "batch_ok ?db y" if "y \<in> set (im_batches db)" for y
  proof -
    have "batch_ok ?db y = batch_ok db y" by (rule batch_ok_local) (use ids [OF that] in \<open>simp_all add: rows\<close>)
    then show ?thesis using import_wf_batch [OF wf that] by simp
  qed
  ultimately have batches: "\<forall>y \<in> set (im_batches ?db). ib_id y < im_next_batch ?db \<and> batch_ok ?db y"
    using ids x by force
  have "pending_rows c ?db = (if c = b then filter (\<lambda>r. ir_outcome r = Pending) new else pending_rows c db)" for c
    by (simp add: pending_rows_def rows)
  then have pend: "distinct (map (ip_number \<circ> row_payload) (pending_rows c ?db))" for c
    using pending_numbers_distinct [OF valid index, of b ex] wf by (simp add: import_wf_def rows_ok_def new_def)
  have keys: "map (\<lambda>r. (ir_batch r, ir_source r)) new = map (Pair b) (map pr_index rows)"
    by (simp add: new_def preview_rows_def)
  have "distinct (map (\<lambda>r. (ir_batch r, ir_source r)) new)" using index unfolding keys by (subst distinct_map) (simp add: inj_on_def)
  moreover have "distinct (map (\<lambda>r. (ir_batch r, ir_source r)) (im_rows db))" using wf by (simp add: import_wf_def rows_ok_def)
  ultimately have dist: "distinct (map (\<lambda>r. (ir_batch r, ir_source r)) (im_rows ?db))" using old nb by force
  have row: "ir_batch r \<in> ib_id ` set (im_batches ?db) \<and> (ir_outcome r = Pending) = (ir_payload r \<noteq> None)" if "r \<in> set (im_rows ?db)" for r
  proof (cases "r \<in> set new")
    case True
    then show ?thesis using nb x preview_row_outcome(2) by (auto simp: new_def preview_rows_def)
  next
    case False
    then show ?thesis using that wf by (auto simp: import_wf_def rows_ok_def)
  qed
  have "rows_ok ?db" using dist row pend unfolding rows_ok_def by blast
  moreover have "distinct (map ib_id (im_batches ?db))" using wf ids x by (force simp: import_wf_def)
  moreover have "lights_ok ?db" using wf by (simp add: import_wf_def lights_ok_def)
  moreover have "\<forall>e \<in> set (im_events ?db). ae_batch e < im_next_batch ?db" using wf b by (fastforce simp: import_wf_def)
  moreover have "length (filter (\<lambda>x. ib_state x = Processing) (im_batches ?db)) \<le> 1" using wf x by (simp add: import_wf_def)
  ultimately show ?thesis using batches unfolding import_wf_def x_def new_def by simp
qed

lemma upload_wf:
  assumes wf: "import_wf db"
  shows "import_wf (fst (upload env t key admin filename bytes mimetype fault db))"
proof (cases "parseImportSource env bytes mimetype filename")
  case (Inr rows)
  note v = parseImportSource_valid [OF Inr]
  then have index: "distinct (map pr_index rows)" by (simp add: row_numbers_def)
  have wf1: "import_wf (cleanupExpiredPreviews t db)" by (rule cleanup_wf [OF wf])
  show ?thesis
    using new_batch_wf [OF wf1 conjunct1 [OF v] index refl, where admin = admin and name = "safeFilename filename" and key = key and t = t] wf wf1
    by (simp add: upload_def Inr buildImportPreview_def Let_def concat_pieces LOOKUP_CHUNK_def preview_rows_def)
qed (simp add: upload_def wf)

section \<open>Every sequence of events\<close>

lemma administer_wf:
  assumes "import_wf db" "lights_ok (db\<lparr>im_lights := table, im_next_light := i\<rparr>)"
  shows "import_wf (db\<lparr>im_lights := table, im_next_light := i\<rparr>)"
proof -
  let ?db = "db\<lparr>im_lights := table, im_next_light := i\<rparr>"
  have "batch_ok ?db x = batch_ok db x" for x by (rule batch_ok_same) simp_all
  moreover have "rows_ok ?db = rows_ok db" by (rule rows_ok_same) simp_all
  ultimately show ?thesis using assms by (simp add: import_wf_def)
qed

lemma import_step_wf: "import_wf db \<Longrightarrow> import_wf (fst (import_step env db e))"
  by (cases e) (auto simp: upload_wf confirm_wf claim_wf failNext_wf complete_wf administer_wf split: sum.splits dest: process_rows_wf)

interpretation import_system: invariant_system "import_step env" "\<lambda>hist. import_wf" for env
  by unfold_locales (metis import_step_wf fst_conv)

end
