(* ===== verification/ImportReference.thy ===== *)
theory ImportReference
  imports ImportInvariant
begin

text \<open>
  What an import does to the inventory, row by row: the reference that the worker's grouped statements
  and their replay are compared with.  The reference has no times, no groups and no batches; it has no
  result when a row is too wide for its column, the one error the worker does not settle.
\<close>

section \<open>The reference\<close>

definition untimed :: "inventory_row \<Rightarrow> inventory_row" where
  "untimed l = l\<lparr>iv_created := 0, iv_updated := 0\<rparr>"

datatype row_result = Settled row_outcome "int option" "jsstring option" | Rejected string

fun settled_row :: "row_result \<Rightarrow> import_row \<Rightarrow> import_row" where
  "settled_row (Settled oc e reason) r = r\<lparr>ir_outcome := oc, ir_entity := e, ir_reason := reason, ir_payload := None\<rparr>"
| "settled_row (Rejected reason) r = r\<lparr>ir_outcome := RowFailed, ir_reason := Some (js reason), ir_payload := None\<rparr>"

type_synonym inventory = "inventory_row list \<times> int"

definition reference_row :: "(jsstring \<Rightarrow> jsstring) \<Rightarrow> bool \<Rightarrow> import_payload \<Rightarrow> inventory \<Rightarrow> (inventory \<times> row_result) option" where
  "reference_row nfc upd p s =
     (case s of (table, i) \<Rightarrow>
        (let write = (\<lambda>l table1 i1 oc.
           (case light_point_error nfc l of
              None \<Rightarrow> Some ((table1, i1), Settled oc (Some (iv_id l)) None)
            | Some code \<Rightarrow> map_option (\<lambda>reason. (s, Rejected reason)) (safeFailure code))) in
         case find_light (ip_number p) table of
           None \<Rightarrow> write (new_light 0 i p) (table @ [new_light 0 i p]) (i + 1) RowCreated
         | Some l \<Rightarrow>
             if \<not> upd then Some (s, Settled RowSkipped (Some (iv_id l)) (Some (js ''existing_update_disabled'')))
             else if \<not> light_differs p l then Some (s, Settled RowUnchanged (Some (iv_id l)) None)
             else write (untimed (replaced_light 0 p l))
               (map (\<lambda>x. if iv_number x = ip_number p then untimed (replaced_light 0 p l) else x) table) i RowUpdated))"

fun import_reference :: "(jsstring \<Rightarrow> jsstring) \<Rightarrow> bool \<Rightarrow> import_payload list \<Rightarrow> inventory \<Rightarrow> (inventory \<times> row_result list) option" where
  "import_reference nfc upd [] s = Some (s, [])"
| "import_reference nfc upd (p # ps) s =
     (case reference_row nfc upd p s of
        None \<Rightarrow> None
      | Some (s1, r) \<Rightarrow> map_option (\<lambda>(s2, rs). (s2, r # rs)) (import_reference nfc upd ps s1))"

lemma reference_append:
  "import_reference nfc upd (ps @ qs) s =
     (case import_reference nfc upd ps s of
        None \<Rightarrow> None
      | Some (s1, rs) \<Rightarrow> map_option (\<lambda>(s2, rs2). (s2, rs @ rs2)) (import_reference nfc upd qs s1))"
  by (induction ps arbitrary: s) (auto split: option.splits simp: option.map_comp comp_def split_def option.map_ident)

lemma reference_length: "import_reference nfc upd ps s = Some (s1, rs) \<Longrightarrow> length rs = length ps"
  by (induction ps arbitrary: s s1 rs) (auto split: option.splits)

section \<open>A group of rows and the reference\<close>

lemma find_light_append:
  "find_light s (xs @ ys) = (case find_light s xs of None \<Rightarrow> find_light s ys | Some l \<Rightarrow> Some l)"
  by (induction xs) (auto simp: find_light_def)

lemma find_light_untimed [simp]: "find_light s (map untimed table) = map_option untimed (find_light s table)"
  by (induction table) (auto simp: find_light_def untimed_def)

lemma find_light_number: "find_light s table = Some l \<Longrightarrow> iv_number l = s"
  by (auto simp: find_light_def find_Some_iff)

lemma find_light_replaced:
  assumes "s \<notin> ip_number ` set ps"
  shows "find_light s (replaced_table t upd table ps) = find_light s table"
proof -
  have none: "List.find (\<lambda>p. ip_number p = s) ps = None" using assms by (auto simp: find_None_iff)
  have "find_light s (replaced_table t upd table ps) = find_light s table" for table
  proof (induction table)
    case (Cons l table)
    have same: "iv_number (case List.find (\<lambda>p. ip_number p = iv_number l) ps of None \<Rightarrow> l
        | Some p \<Rightarrow> if upd \<and> light_differs p l then replaced_light t p l else l) = iv_number l"
      by (auto simp: replaced_light_def find_Some_iff split: option.splits)
    show ?case using Cons none same by (auto simp: find_light_def replaced_table_def)
  qed (simp add: replaced_table_def)
  then show ?thesis .
qed

lemma find_light_inserted:
  assumes "s \<notin> ip_number ` set ps"
  shows "find_light s (inserted_lights t upd table i ps) = None"
proof -
  have "s \<notin> set (map iv_number (inserted_lights t upd table i ps))"
    using assms unfolding inserted_fields by (auto simp: inserting_def)
  then show ?thesis by (simp add: find_light_None)
qed

text \<open>The points after the rows \<open>ps\<close> of a group.\<close>

definition group_table :: "int \<Rightarrow> bool \<Rightarrow> inventory_row list \<Rightarrow> int \<Rightarrow> import_payload list \<Rightarrow> inventory_row list" where
  "group_table t upd table i ps = replaced_table t upd table ps @ inserted_lights t upd table i ps"

lemma find_group_table: "s \<notin> ip_number ` set ps \<Longrightarrow> find_light s (group_table t upd table i ps) = find_light s table"
  by (simp add: group_table_def find_light_append find_light_replaced find_light_inserted split: option.splits)

definition group_result :: "bool \<Rightarrow> inventory_row list \<Rightarrow> inventory_row list \<Rightarrow> import_payload \<Rightarrow> row_result" where
  "group_result upd table inserted p =
     (let e = row_effect upd table p in
      Settled (effect_outcome e) (effect_entity inserted p e)
        (case e of Skip _ \<Rightarrow> Some (js ''existing_update_disabled'') | _ \<Rightarrow> None))"

lemma mark_row_result: "mark_row upd table ins r = settled_row (group_result upd table ins (row_payload r)) r"
  by (simp add: mark_row_def group_result_def Let_def)

text \<open>The times of a row and the id of a new row do not matter.\<close>

lemma light_error_fields:
  "light_point_error nfc (l\<lparr>iv_created := c, iv_updated := u\<rparr>) = light_point_error nfc l"
  "light_point_error nfc (untimed l) = light_point_error nfc l"
  "light_point_error nfc (new_light t i p) = light_point_error nfc (new_light 0 0 p)"
  "light_point_error nfc (replaced_light t p (untimed l)) = light_point_error nfc (replaced_light 0 p l)"
  by (simp_all add: light_point_error_def untimed_def new_light_def replaced_light_def)

lemma untimed_fields [simp]:
  "light_differs p (untimed l) = light_differs p l" "iv_id (untimed l) = iv_id l" "iv_number (untimed l) = iv_number l"
  "untimed (replaced_light t p (untimed l)) = untimed (replaced_light 0 p l)" "untimed (new_light t i p) = new_light 0 i p"
  "iv_id (replaced_light t p l) = iv_id l" "iv_number (replaced_light t p l) = ip_number p" "iv_id (new_light t i p) = i"
  "untimed (untimed l) = untimed l"
  by (simp_all add: untimed_def light_differs_def replaced_light_def new_light_def)

lemma untimed_replaced: "untimed (replaced_light t p l) = untimed (replaced_light 0 p l)"
  by (simp add: untimed_def replaced_light_def)

lemma find_snoc: "List.find P (xs @ [y]) = (case List.find P xs of None \<Rightarrow> if P y then Some y else None | Some x \<Rightarrow> Some x)"
  by (induction xs) auto

definition replaced_one :: "int \<Rightarrow> bool \<Rightarrow> import_payload list \<Rightarrow> inventory_row \<Rightarrow> inventory_row" where
  "replaced_one t upd ps l =
     (case List.find (\<lambda>p. ip_number p = iv_number l) ps of
        None \<Rightarrow> l | Some p \<Rightarrow> if upd \<and> light_differs p l then replaced_light t p l else l)"

lemma replaced_one_number [simp]: "iv_number (replaced_one t upd ps l) = iv_number l"
  by (auto simp: replaced_one_def find_Some_iff split: option.splits)

lemma replaced_one_snoc:
  assumes "ip_number p \<notin> ip_number ` set ps"
  shows "replaced_one t upd (ps @ [p]) l =
     (if iv_number l = ip_number p then (if upd \<and> light_differs p l then replaced_light t p l else l) else replaced_one t upd ps l)"
proof (cases "iv_number l = ip_number p")
  case True
  then have "List.find (\<lambda>q. ip_number q = iv_number l) ps = None" using assms by (auto simp: find_None_iff image_iff)
  then show ?thesis using True by (simp add: replaced_one_def find_snoc)
next
  case False
  then show ?thesis by (auto simp: replaced_one_def find_snoc split: option.splits)
qed

lemma replaced_table_one: "replaced_table t upd table ps = map (replaced_one t upd ps) table"
  by (simp add: replaced_table_def replaced_one_def)

lemma inserted_snoc:
  "inserted_lights t upd table i (ps @ [p]) =
     (if row_effect upd table p = Insert
      then inserted_lights t upd table i ps @ [new_light t (i + int (length (inserted_lights t upd table i ps))) p]
      else inserted_lights t upd table i ps)"
  by (simp add: inserted_lights_def Let_def)

lemma find_light_unique:
  assumes "distinct (map iv_number table)" "l \<in> set table" "iv_number l = s"
  shows "find_light s table = Some l"
  using assms by (induction table) (auto simp: find_light_def)

text \<open>One more row of a group, on the points its predecessors have left.\<close>

lemma reference_row_group:
  assumes p: "ip_number p \<notin> ip_number ` set ps" and d: "distinct (map iv_number table)"
    and err: "effect_error nfc upd table p = None"
  shows "reference_row nfc upd p (map untimed (group_table t upd table i ps), i + int (length (inserted_lights t upd table i ps))) =
     Some ((map untimed (group_table t upd table i (ps @ [p])), i + int (length (inserted_lights t upd table i (ps @ [p])))),
       group_result upd table (inserted_lights t upd table i (ps @ [p])) p)"
proof -
  note find = find_group_table [OF p, of t upd table i]
  have ins: "find_light (ip_number p) (inserted_lights t upd table i ps) = None" by (rule find_light_inserted [OF p])
  have others: "iv_number x \<noteq> ip_number p" if "x \<in> set (inserted_lights t upd table i ps)" for x
    using ins that by (auto simp: find_light_None image_iff)
  have one: "x = l" if "find_light (ip_number p) table = Some l" "x \<in> set table" "iv_number x = ip_number p" for x l
    using find_light_unique [OF d that(2,3)] that(1) by simp
  have snoc: "replaced_table t upd table (ps @ [p]) = map (\<lambda>l. if iv_number l = ip_number p
      then (if upd \<and> light_differs p l then replaced_light t p l else l) else replaced_one t upd ps l) table"
    by (simp add: replaced_table_one replaced_one_snoc [OF p])
  have alone: "replaced_one t upd ps l = l" if n: "iv_number l = ip_number p" for l
  proof -
    have "List.find (\<lambda>q. ip_number q = iv_number l) ps = None" using p n by (auto simp: find_None_iff image_iff)
    then show ?thesis by (simp add: replaced_one_def)
  qed
  show ?thesis
  proof (cases "row_effect upd table p")
    case Insert
    then have none: "find_light (ip_number p) table = None" by (auto simp: row_effect_def split: option.splits if_splits)
    then have "replaced_table t upd table (ps @ [p]) = replaced_table t upd table ps"
      unfolding snoc by (auto simp: replaced_table_one find_light_None image_iff)
    then have g: "group_table t upd table i (ps @ [p]) =
        group_table t upd table i ps @ [new_light t (i + int (length (inserted_lights t upd table i ps))) p]"
      by (simp add: group_table_def inserted_snoc Insert)
    have "light_point_error nfc (new_light 0 j p) = None" for j using err Insert by (simp add: effect_error_def light_error_fields(3) [of nfc 0 j])
    then show ?thesis using none ins
      by (simp add: reference_row_def find g inserted_snoc Insert group_result_def effect_outcome_def effect_entity_def
          find_light_append Let_def) (simp add: find_light_def new_light_def)
  next
    case (Replace l)
    then have l: "find_light (ip_number p) table = Some l" "upd" "light_differs p l"
      by (auto simp: row_effect_def split: option.splits if_splits)
    have "map untimed (replaced_table t upd table (ps @ [p])) =
        map (\<lambda>x. if iv_number x = ip_number p then untimed (replaced_light 0 p l) else x) (map untimed (replaced_table t upd table ps))"
      unfolding snoc using l one [OF l(1)] by (auto simp: replaced_table_one untimed_replaced [of t])
    then have g: "map untimed (group_table t upd table i (ps @ [p])) =
        map (\<lambda>x. if iv_number x = ip_number p then untimed (replaced_light 0 p l) else x) (map untimed (group_table t upd table i ps))"
      using others by (auto simp: group_table_def inserted_snoc Replace)
    have "light_point_error nfc (untimed (replaced_light 0 p (untimed l))) = None"
      using err Replace by (simp add: effect_error_def light_error_fields)
    then show ?thesis using l find g Replace
      by (simp add: reference_row_def inserted_snoc group_result_def effect_outcome_def effect_entity_def Let_def del: map_map)
  next
    case (Leave l)
    then have l: "find_light (ip_number p) table = Some l" "upd" "\<not> light_differs p l"
      by (auto simp: row_effect_def split: option.splits if_splits)
    have "replaced_table t upd table (ps @ [p]) = replaced_table t upd table ps"
      unfolding snoc using l one [OF l(1)] alone by (auto simp: replaced_table_one)
    then have g: "group_table t upd table i (ps @ [p]) = group_table t upd table i ps" by (simp add: group_table_def inserted_snoc Leave)
    show ?thesis using l find g Leave
      by (simp add: reference_row_def inserted_snoc group_result_def effect_outcome_def effect_entity_def Let_def)
  next
    case (Skip l)
    then have l: "find_light (ip_number p) table = Some l" "\<not> upd" by (auto simp: row_effect_def split: option.splits if_splits)
    have "replaced_table t upd table (ps @ [p]) = replaced_table t upd table ps"
      unfolding snoc using l one [OF l(1)] alone by (auto simp: replaced_table_one)
    then have g: "group_table t upd table i (ps @ [p]) = group_table t upd table i ps" by (simp add: group_table_def inserted_snoc Skip)
    show ?thesis using l find g Skip
      by (simp add: reference_row_def inserted_snoc group_result_def effect_outcome_def effect_entity_def Let_def)
  qed
qed

lemma group_result_prefix:
  assumes p: "p \<in> set ps" and q: "ip_number q \<notin> ip_number ` set ps"
  shows "group_result upd table (inserted_lights t upd table i (ps @ [q])) p = group_result upd table (inserted_lights t upd table i ps) p"
proof -
  have "ip_number p \<noteq> ip_number q" using p q by (metis imageI)
  then have "find_light (ip_number p) (inserted_lights t upd table i (ps @ [q])) = find_light (ip_number p) (inserted_lights t upd table i ps)"
    by (simp add: inserted_snoc find_light_append) (simp add: find_light_def new_light_def split: option.splits)
  then show ?thesis by (simp add: group_result_def effect_entity_def Let_def split: row_effect.splits)
qed

lemma reference_group:
  assumes "distinct (map ip_number ps)" "distinct (map iv_number table)" "\<And>p. p \<in> set ps \<Longrightarrow> effect_error nfc upd table p = None"
  shows "import_reference nfc upd ps (map untimed table, i) =
     Some ((map untimed (group_table t upd table i ps), i + int (length (inserted_lights t upd table i ps))),
       map (group_result upd table (inserted_lights t upd table i ps)) ps)"
  using assms(1,3)
proof (induction ps rule: rev_induct)
  case Nil
  then show ?case by (simp add: group_table_def replaced_table_def inserted_lights_def)
next
  case (snoc q ps)
  then have q: "ip_number q \<notin> ip_number ` set ps" by simp
  have IH: "import_reference nfc upd ps (map untimed table, i) =
     Some ((map untimed (group_table t upd table i ps), i + int (length (inserted_lights t upd table i ps))),
       map (group_result upd table (inserted_lights t upd table i ps)) ps)"
    using snoc by simp
  have "effect_error nfc upd table q = None" using snoc.prems by simp
  from reference_row_group [OF q assms(2) this, of t i] show ?case
    using group_result_prefix [OF _ q, of _ upd table t i] by (simp add: reference_append IH)
qed

text \<open>An error of a row is the reference's error.\<close>

lemma reference_row_error:
  assumes find: "find_light (ip_number p) table1 = map_option untimed (find_light (ip_number p) table)"
    and err: "effect_error nfc upd table p = Some code"
  shows "reference_row nfc upd p (table1, i) = map_option (\<lambda>reason. ((table1, i), Rejected reason)) (safeFailure code)"
proof (cases "row_effect upd table p")
  case Insert
  then have "find_light (ip_number p) table = None" by (auto simp: row_effect_def split: option.splits if_splits)
  moreover have "light_point_error nfc (new_light 0 i p) = Some code"
    using err Insert light_error_fields(3) [of nfc 0 i p] by (simp add: effect_error_def)
  ultimately show ?thesis using find by (simp add: reference_row_def)
next
  case (Replace l)
  then have "find_light (ip_number p) table = Some l" "upd" "light_differs p l"
    by (auto simp: row_effect_def split: option.splits if_splits)
  moreover have "light_point_error nfc (untimed (replaced_light 0 p (untimed l))) = Some code"
    using err Replace by (simp add: effect_error_def light_error_fields)
  ultimately show ?thesis using find by (simp add: reference_row_def)
qed (use err in \<open>simp_all add: effect_error_def\<close>)

lemma group_error_first:
  assumes "group_error nfc upd table seen ps = Some code" "distinct (map ip_number ps)" "set (map ip_number ps) \<inter> set seen = {}"
  shows "\<exists>as p bs. ps = as @ p # bs \<and> (\<forall>q \<in> set as. effect_error nfc upd table q = None) \<and> effect_error nfc upd table p = Some code"
  using assms
proof (induction ps arbitrary: seen)
  case (Cons p ps)
  show ?case
  proof (cases "effect_error nfc upd table p")
    case None
    have n: "ip_number p \<notin> set seen" using Cons.prems(3) by auto
    then have "group_error nfc upd table (ip_number p # seen) ps = Some code" using Cons.prems(1) None by simp
    moreover have "set (map ip_number ps) \<inter> set (ip_number p # seen) = {}" using Cons.prems(2,3) by auto
    ultimately obtain as q bs where "ps = as @ q # bs" "\<forall>q \<in> set as. effect_error nfc upd table q = None"
        "effect_error nfc upd table q = Some code"
      using Cons.IH [of "ip_number p # seen"] Cons.prems(2) by auto
    then show ?thesis using None by (intro exI [of _ "p # as"]) auto
  next
    case (Some c)
    then show ?thesis using Cons.prems by (intro exI [of _ "[]"]) auto
  qed
qed simp

lemma group_error_None:
  assumes "group_error nfc upd table seen ps = None"
  shows "p \<in> set ps \<Longrightarrow> effect_error nfc upd table p = None"
  using assms by (induction ps arbitrary: seen) (auto split: option.splits if_splits)

text \<open>A group whose first error is not a safe one has no reference.\<close>

lemma reference_stuck:
  assumes "group_error nfc upd table [] ps = Some code" "safeFailure code = None" "distinct (map ip_number ps)" "distinct (map iv_number table)"
  shows "import_reference nfc upd (ps @ qs) (map untimed table, i) = None"
proof -
  obtain as p bs where ps: "ps = as @ p # bs" and as: "\<forall>q \<in> set as. effect_error nfc upd table q = None"
    and p: "effect_error nfc upd table p = Some code"
    using group_error_first [OF assms(1,3)] by auto
  have d: "distinct (map ip_number as)" "ip_number p \<notin> ip_number ` set as" using assms(3) ps by auto
  have "find_light (ip_number p) (map untimed (group_table 0 upd table i as)) = map_option untimed (find_light (ip_number p) table)"
    by (simp add: find_group_table [OF d(2)])
  from reference_row_error [OF this p] show ?thesis
    using reference_group [OF d(1) assms(4) as [rule_format], of i 0] assms(2) by (simp add: ps reference_append)
qed

end
