(* ===== verification/ImportEquivalence.thy ===== *)
theory ImportEquivalence
  imports ImportReference
begin

text \<open>
  The worker against the reference: each of its statements takes the batch a number of rows further along
  the reference, so that a batch ends with the reference's light points and row results, or stops where
  the reference has none.
\<close>

section \<open>Rows settled with results\<close>

definition settle_one :: "int \<Rightarrow> (nat \<times> row_result) list \<Rightarrow> import_row \<Rightarrow> import_row" where
  "settle_one b res r = (if ir_batch r = b then (case map_of res (ir_source r) of None \<Rightarrow> r | Some x \<Rightarrow> settled_row x r) else r)"

definition settle_with :: "int \<Rightarrow> (nat \<times> row_result) list \<Rightarrow> import_row list \<Rightarrow> import_row list" where
  "settle_with b res = map (settle_one b res)"

lemma settled_row_key [simp]: "ir_batch (settled_row x r) = ir_batch r" "ir_source (settled_row x r) = ir_source r"
  by (cases x; simp)+

lemma settle_with_Nil [simp]: "settle_with b [] rows = rows"
  by (simp add: settle_with_def settle_one_def map_idI)

lemma settle_with_append:
  assumes "fst ` set xs \<inter> fst ` set ys = {}"
  shows "settle_with b ys (settle_with b xs rows) = settle_with b (xs @ ys) rows"
proof -
  have none: "map_of xs s = None \<or> map_of ys s = None" for s
    using assms by (metis disjoint_iff map_of_eq_None_iff)
  have "settle_one b ys (settle_one b xs r) = settle_one b (xs @ ys) r" for r
    using none [of "ir_source r"]
    by (cases "map_of xs (ir_source r)"; cases "map_of ys (ir_source r)") (simp_all add: settle_one_def map_add_def)
  then show ?thesis by (simp add: settle_with_def)
qed

lemma settle_results:
  assumes ok: "rows_ok db" and t: "taken b sel db" and f: "\<And>r. r \<in> set sel \<Longrightarrow> f r = settled_row (g r) r"
  shows "settle b sel f (im_rows db) = settle_with b (zip (map ir_source sel) (map g sel)) (im_rows db)"
proof -
  have sub: "set sel \<subseteq> {r \<in> set (im_rows db). ir_batch r = b}" using t by (auto simp: taken_def pending_rows_def rows_of_def)
  have "inj_on ir_source (set sel)"
    using ok sub by (auto simp: rows_ok_def distinct_map inj_on_def)
  then have d: "distinct (map fst (map (\<lambda>r. (ir_source r, g r)) sel))"
    using t by (simp add: distinct_map comp_def taken_def inj_on_def)
  have z: "zip (map ir_source sel) (map g sel) = map (\<lambda>r. (ir_source r, g r)) sel" by (simp add: zip_map_map zip_same_conv_map)
  show ?thesis unfolding settle_def settle_with_def z
  proof (rule map_cong [OF refl])
    fix r assume r: "r \<in> set (im_rows db)"
    show "(if ir_batch r = b \<and> ir_source r \<in> set (map ir_source sel) then f r else r) =
        settle_one b (map (\<lambda>r. (ir_source r, g r)) sel) r"
    proof (cases "ir_batch r = b \<and> r \<in> set sel")
      case True
      then have "map_of (map (\<lambda>r. (ir_source r, g r)) sel) (ir_source r) = Some (g r)"
        by (intro map_of_is_SomeI [OF d]) auto
      then show ?thesis using True f by (simp add: settle_one_def)
    next
      case False
      show ?thesis
      proof (cases "ir_batch r = b")
        case b: True
        then have n: "ir_source r \<notin> set (map ir_source sel)" using taken_source [OF ok t r b] False by blast
        then have "map_of (map (\<lambda>r. (ir_source r, g r)) sel) (ir_source r) = None" by (auto simp: map_of_eq_None_iff)
        then show ?thesis using n by (simp add: settle_one_def)
      qed (simp add: settle_one_def)
    qed
  qed
qed

section \<open>Steps along the reference\<close>

definition pending_queue :: "int \<Rightarrow> import_db \<Rightarrow> import_row list" where
  "pending_queue b db = sort_key ir_source (pending_rows b db)"

definition inventory_of :: "import_db \<Rightarrow> inventory" where
  "inventory_of db = (map untimed (im_lights db), im_next_light db)"

definition advanced :: "(jsstring \<Rightarrow> jsstring) \<Rightarrow> bool \<Rightarrow> int \<Rightarrow> nat \<Rightarrow> import_db \<Rightarrow> import_db \<Rightarrow> bool" where
  "advanced nfc upd b n db db1 \<longleftrightarrow>
     (\<exists>rs. import_reference nfc upd (map row_payload (take n (pending_queue b db))) (inventory_of db) = Some (inventory_of db1, rs) \<and>
        im_rows db1 = settle_with b (zip (map ir_source (take n (pending_queue b db))) rs) (im_rows db) \<and>
        pending_queue b db1 = drop n (pending_queue b db))"

lemma pending_queue_taken:
  assumes "rows_ok db"
  shows "taken b (take n (pending_queue b db)) db" "distinct (map ir_source (pending_queue b db))"
    "distinct (map (ip_number \<circ> row_payload) (pending_queue b db))" "distinct (pending_queue b db)"
proof -
  have dn: "distinct (map (ip_number \<circ> row_payload) (pending_rows b db))" using assms by (simp add: rows_ok_def)
  then show "distinct (map (ip_number \<circ> row_payload) (pending_queue b db))" by (simp add: pending_queue_def distinct_map)
  have d: "distinct (pending_rows b db)" using dn unfolding distinct_map by blast
  then show q: "distinct (pending_queue b db)" by (simp add: pending_queue_def)
  show "taken b (take n (pending_queue b db)) db"
    using q by (auto simp: taken_def pending_queue_def dest: in_set_takeD)
  have "inj_on ir_source (set (pending_rows b db))"
    using assms by (auto simp: rows_ok_def distinct_map inj_on_def pending_rows_def rows_of_def)
  then show "distinct (map ir_source (pending_queue b db))" using d by (simp add: distinct_map pending_queue_def)
qed

lemma filter_take: "distinct xs \<Longrightarrow> filter (\<lambda>x. x \<notin> set (take n xs)) xs = drop n xs"
proof -
  assume d: "distinct xs"
  have "distinct (take n xs @ drop n xs)" using d by simp
  then have "filter (\<lambda>x. x \<notin> set (take n xs)) (drop n xs) = drop n xs" unfolding distinct_append by (auto simp: filter_id_conv)
  moreover have "filter (\<lambda>x. x \<notin> set (take n xs)) (take n xs @ drop n xs) = filter (\<lambda>x. x \<notin> set (take n xs)) (drop n xs)"
    unfolding filter_append by (auto simp: filter_empty_conv)
  ultimately show ?thesis by simp
qed

lemma settled_queue:
  assumes ok: "rows_ok db" and f: "settles f" and r: "im_rows db1 = settle b (take n (pending_queue b db)) f (im_rows db)"
  shows "pending_queue b db1 = drop n (pending_queue b db)"
  using settle_pending [OF ok pending_queue_taken(1) [OF ok] f r] filter_take [OF pending_queue_taken(4) [OF ok], of n b]
  by (simp add: pending_queue_def filter_sort)

lemma advanced_refl: "advanced nfc upd b 0 db db"
  by (simp add: advanced_def)

lemma advanced_empty: "pending_queue b db = [] \<Longrightarrow> advanced nfc upd b n db db"
  by (simp add: advanced_def)

lemma zip_keys_disjoint: "set as \<inter> set bs = {} \<Longrightarrow> fst ` set (zip as xs) \<inter> fst ` set (zip bs ys) = {}"
  by (auto dest!: set_zip_leftD)

lemma advanced_trans:
  assumes ok: "rows_ok db" and a: "advanced nfc upd b n db db1" and c: "advanced nfc upd b m db1 db2"
  shows "advanced nfc upd b (n + m) db db2"
proof -
  let ?q = "pending_queue b db"
  from a obtain rs where rs: "import_reference nfc upd (map row_payload (take n ?q)) (inventory_of db) = Some (inventory_of db1, rs)"
    "im_rows db1 = settle_with b (zip (map ir_source (take n ?q)) rs) (im_rows db)" "pending_queue b db1 = drop n ?q"
    by (auto simp: advanced_def)
  from c obtain ss where ss: "import_reference nfc upd (map row_payload (take m (drop n ?q))) (inventory_of db1) = Some (inventory_of db2, ss)"
    "im_rows db2 = settle_with b (zip (map ir_source (take m (drop n ?q))) ss) (im_rows db1)" "pending_queue b db2 = drop m (drop n ?q)"
    by (auto simp: advanced_def rs(3))
  have len: "length (map ir_source (take n ?q)) = length rs" using reference_length [OF rs(1)] by simp
  have z: "zip (map ir_source (take n ?q)) rs @ zip (map ir_source (take m (drop n ?q))) ss = zip (map ir_source (take (n + m) ?q)) (rs @ ss)"
    unfolding take_add map_append using len by (rule zip_append [symmetric])
  have "distinct (map ir_source (take n ?q) @ map ir_source (drop n ?q))"
    using pending_queue_taken(2) [OF ok, of b] by (metis append_take_drop_id map_append)
  then have "set (map ir_source (take n ?q)) \<inter> set (map ir_source (drop n ?q)) = {}" unfolding distinct_append by blast
  moreover have "set (map ir_source (take m (drop n ?q))) \<subseteq> set (map ir_source (drop n ?q))"
    by (auto dest: in_set_takeD)
  ultimately have "set (map ir_source (take n ?q)) \<inter> set (map ir_source (take m (drop n ?q))) = {}" by blast
  note dis = zip_keys_disjoint [OF this, of rs ss]
  have "import_reference nfc upd (map row_payload (take (n + m) ?q)) (inventory_of db) = Some (inventory_of db2, rs @ ss)"
    unfolding take_add map_append using rs(1) ss(1) by (simp add: reference_append)
  moreover have "im_rows db2 = settle_with b (zip (map ir_source (take (n + m) ?q)) (rs @ ss)) (im_rows db)"
    unfolding ss(2) rs(2) settle_with_append [OF dis] z ..
  moreover have "pending_queue b db2 = drop (n + m) ?q" by (simp add: ss(3) add.commute)
  ultimately show ?thesis unfolding advanced_def by blast
qed

section \<open>The worker's statements advance\<close>

lemma owned_change:
  assumes o: "owned b token db = Some x" and db: "im_batches db2 = im_batches db"
    and f: "\<And>y. ib_id (f y) = ib_id y" "\<And>y. ib_state (f y) = ib_state y" "\<And>y. ib_token (f y) = ib_token y"
  shows "owned b token (change_batch b f db2) = Some (f x)"
proof -
  define P where "P y \<longleftrightarrow> ib_id y = b \<and> ib_state y = Processing \<and> ib_token y = Some token" for y :: import_batch
  have "List.find P (map (\<lambda>x. if ib_id x = b then f x else x) xs) = map_option f (List.find P xs)" for xs
    by (induction xs) (auto simp: P_def f)
  then show ?thesis using o by (simp add: owned_def find_batch_def change_batch_map db P_def [abs_def])
qed

definition processing :: "int \<Rightarrow> jsstring \<Rightarrow> bool \<Rightarrow> import_db \<Rightarrow> bool" where
  "processing b token upd db \<longleftrightarrow> import_wf db \<and> (\<exists>x. owned b token db = Some x \<and> ib_update x = upd)"

lemma processing_rows: "processing b token upd db \<Longrightarrow> rows_ok db"
  by (simp add: processing_def import_wf_def)

lemma processing_selected:
  assumes "processing b token upd db"
  shows "selected b token n db = take n (pending_queue b db)"
  using assms by (auto simp: processing_def selected_def pending_queue_def)

lemma processing_numbers: "processing b token upd db \<Longrightarrow> distinct (map iv_number (im_lights db))"
  by (simp add: processing_def import_wf_def lights_ok_def)

lemma queue_numbers:
  assumes "processing b token upd db"
  shows "distinct (map ip_number (map row_payload (take n (pending_queue b db))))"
  using pending_queue_taken(3) [OF processing_rows [OF assms], of b]
  by (metis distinct_take map_map take_map)

lemma process_rows_written:
  assumes o: "owned b token db = Some x" and s: "selected b token n db = sel" "sel \<noteq> []"
    and r: "process_rows nfc t b token n db = Inr (db1, outs)"
    and ps: "ps = map row_payload sel" and ins: "ins = inserted_lights t (ib_update x) (im_lights db) (im_next_light db) ps"
  shows "group_error nfc (ib_update x) (im_lights db) [] ps = None"
    "db1 = change_batch b (add_counts t outs) (db\<lparr>im_lights := group_table t (ib_update x) (im_lights db) (im_next_light db) ps,
       im_next_light := im_next_light db + int (length ins), im_rows := settle b sel (mark_row (ib_update x) (im_lights db) ins) (im_rows db),
       im_events := im_events db @ batch_events x t (im_lights db) ins ps\<rparr>)"
  using r unfolding ps ins
  by (simp_all add: process_rows_def o s Let_def group_table_def settle_def split: option.splits) auto

lemma process_rows_advanced:
  assumes p: "processing b token upd db" and s: "process_rows nfc t b token n db = Inr (db1, outs)"
  shows "processing b token upd db1" "advanced nfc upd b n db db1"
proof -
  obtain x where x: "owned b token db = Some x" "ib_update x = upd" and wf: "import_wf db" using p by (auto simp: processing_def)
  define sel where "sel = take n (pending_queue b db)"
  define ps where "ps = map row_payload sel"
  define ins where "ins = inserted_lights t upd (im_lights db) (im_next_light db) ps"
  have sel: "selected b token n db = sel" unfolding sel_def by (rule processing_selected [OF p])
  note written = process_rows_written [OF x(1) sel _ s ps_def ins_def [unfolded x(2) [symmetric]], unfolded x(2)]
  show "processing b token upd db1"
  proof (cases "sel = []")
    case True
    then show ?thesis using s p x sel by (simp add: process_rows_def Let_def)
  next
    case False
    have "owned b token db1 = Some (add_counts t outs x)"
      unfolding written(2) [OF False] by (rule owned_change [OF x(1)]) (simp_all add: add_counts_def)
    then show ?thesis using process_rows_wf [OF wf s] x by (simp add: processing_def add_counts_def)
  qed
  show "advanced nfc upd b n db db1"
  proof (cases "sel = []")
    case True
    then have "db1 = db" using s x sel by (simp add: process_rows_def Let_def)
    then show ?thesis using True by (cases "n = 0") (auto simp: sel_def advanced_refl advanced_empty)
  next
    case False
    have ok: "rows_ok db" by (rule processing_rows [OF p])
    have ge: "group_error nfc upd (im_lights db) [] ps = None"
      and l: "im_lights db1 = group_table t upd (im_lights db) (im_next_light db) ps"
      and i: "im_next_light db1 = im_next_light db + int (length ins)"
      and r: "im_rows db1 = settle b sel (mark_row upd (im_lights db) ins) (im_rows db)"
      using written(1) [OF False] by (simp_all add: written(2) [OF False])
    have d: "distinct (map ip_number ps)" unfolding ps_def sel_def by (rule queue_numbers [OF p])
    have ref: "import_reference nfc upd ps (inventory_of db) = Some (inventory_of db1, map (group_result upd (im_lights db) ins) ps)"
      using reference_group [OF d processing_numbers [OF p] group_error_None [OF ge], of "im_next_light db" t]
      by (simp add: inventory_of_def l i ins_def)
    have "im_rows db1 = settle_with b (zip (map ir_source sel) (map (group_result upd (im_lights db) ins \<circ> row_payload) sel)) (im_rows db)"
      unfolding r by (rule settle_results [OF ok]) (use pending_queue_taken(1) [OF ok] in \<open>simp_all add: sel_def mark_row_result\<close>)
    then have "im_rows db1 = settle_with b (zip (map ir_source sel) (map (group_result upd (im_lights db) ins) ps)) (im_rows db)"
      by (simp add: ps_def)
    moreover have "pending_queue b db1 = drop n (pending_queue b db)"
      by (rule settled_queue [OF ok mark_row_settles r [unfolded sel_def]])
    ultimately show ?thesis using ref unfolding advanced_def ps_def sel_def by blast
  qed
qed

text \<open>A single row that the table refuses is settled as the reference settles it.\<close>

lemma failNext_advanced:
  assumes p: "processing b token upd db" and s: "process_rows nfc t b token 1 db = Inl code" and c: "safeFailure code = Some reason"
  shows "processing b token upd (failNextPendingRow u b token reason db)"
    "advanced nfc upd b 1 db (failNextPendingRow u b token reason db)"
proof -
  let ?db = "failNextPendingRow u b token reason db"
  obtain x where x: "owned b token db = Some x" "ib_update x = upd" and wf: "import_wf db" using p by (auto simp: processing_def)
  have sel: "selected b token 1 db = take 1 (pending_queue b db)" by (rule processing_selected [OF p])
  obtain r rest where q: "pending_queue b db = r # rest"
    using process_rows_error [OF s] sel by (cases "pending_queue b db") auto
  have one: "selected b token 1 db = [r]" using sel q by simp
  define f where "f q = q\<lparr>ir_outcome := RowFailed, ir_reason := Some (js reason), ir_payload := None\<rparr>" for q :: import_row
  define g where "g x = x\<lparr>ib_failed := ib_failed x + 1, ib_lease := Some (u + LEASE_SECONDS * 1000)\<rparr>" for x :: import_batch
  have eq: "?db = change_batch b g (db\<lparr>im_rows := settle b [r] f (im_rows db)\<rparr>)"
    by (simp add: failNextPendingRow_def one settle_def f_def g_def [abs_def] del: One_nat_def cong: if_cong)
  have "owned b token ?db = Some (g x)" unfolding eq by (rule owned_change [OF x(1)]) (simp_all add: g_def)
  then show "processing b token upd ?db" using failNext_wf [OF wf] x by (simp add: processing_def g_def)
  have ok: "rows_ok db" by (rule processing_rows [OF p])
  have rows: "im_rows ?db = settle b (take 1 (pending_queue b db)) f (im_rows db)" by (simp add: eq q)
  have fs: "settles f" by (simp add: settles_def f_def)
  have "group_error nfc upd (im_lights db) [] [row_payload r] = Some code"
    using s x one by (auto simp: process_rows_def Let_def split: option.splits simp del: group_error.simps One_nat_def)
  then have err: "effect_error nfc upd (im_lights db) (row_payload r) = Some code" by (auto split: option.splits)
  have "reference_row nfc upd (row_payload r) (inventory_of db) = Some (inventory_of db, Rejected reason)"
    using reference_row_error [OF find_light_untimed err] c by (simp add: inventory_of_def)
  moreover have "inventory_of ?db = inventory_of db" by (simp add: inventory_of_def eq)
  ultimately have ref: "import_reference nfc upd (map row_payload (take 1 (pending_queue b db))) (inventory_of db) =
      Some (inventory_of ?db, [Rejected reason])" by (simp add: q)
  have "im_rows ?db = settle_with b (zip (map ir_source (take 1 (pending_queue b db))) (map (\<lambda>_. Rejected reason) (take 1 (pending_queue b db)))) (im_rows db)"
    unfolding rows by (rule settle_results [OF ok pending_queue_taken(1) [OF ok]]) (simp add: f_def)
  then show "advanced nfc upd b 1 db ?db" using ref settled_queue [OF ok fs rows] unfolding advanced_def by (auto simp: q)
qed

section \<open>The worker follows the reference\<close>

text \<open>A worker that is not stopped and whose statements all reach the server and are answered.\<close>

definition calm :: "worker \<Rightarrow> bool" where
  "calm w \<longleftrightarrow> (\<forall>k. wk_fate w k = Works \<and> \<not> wk_stopped w k)"

lemma execute_calm:
  "calm w \<Longrightarrow> execute w stmt (db, k) =
     (case stmt (wk_now w k) db of Inl code \<Rightarrow> ((db, k + 1), Failed (Some code)) | Inr (db1, x) \<Rightarrow> ((db1, k + 1), Answered x))"
  by (simp add: calm_def execute_def split: sum.splits)

definition batch_reference :: "(jsstring \<Rightarrow> jsstring) \<Rightarrow> bool \<Rightarrow> int \<Rightarrow> import_db \<Rightarrow> (inventory \<times> row_result list) option" where
  "batch_reference nfc upd b db = import_reference nfc upd (map row_payload (pending_queue b db)) (inventory_of db)"

lemma advanced_reference:
  assumes "advanced nfc upd b n db db1"
  shows "(batch_reference nfc upd b db = None) = (batch_reference nfc upd b db1 = None)"
proof -
  let ?q = "pending_queue b db"
  obtain rs where rs: "import_reference nfc upd (map row_payload (take n ?q)) (inventory_of db) = Some (inventory_of db1, rs)"
    "pending_queue b db1 = drop n ?q" using assms by (auto simp: advanced_def)
  have "map row_payload ?q = map row_payload (take n ?q) @ map row_payload (drop n ?q)" by (simp flip: map_append)
  then show ?thesis unfolding batch_reference_def rs(2) by (simp add: reference_append rs(1) split: option.splits)
qed

lemma group_stuck:
  assumes p: "processing b token upd db" and s: "process_rows nfc t b token n db = Inl code" and c: "safeFailure code = None"
  shows "batch_reference nfc upd b db = None"
proof -
  let ?q = "pending_queue b db"
  obtain x where x: "owned b token db = Some x" "ib_update x = upd" using p by (auto simp: processing_def)
  have "group_error nfc upd (im_lights db) [] (map row_payload (take n ?q)) = Some code"
    using s processing_selected [OF p, of n] unfolding x(2) [symmetric]
    by (auto simp: process_rows_def x(1) Let_def split: option.splits if_splits)
  from reference_stuck [OF this c queue_numbers [OF p] processing_numbers [OF p]]
  have "import_reference nfc upd (map row_payload (take n ?q) @ map row_payload (drop n ?q)) (inventory_of db) = None"
    by (simp add: inventory_of_def)
  then show ?thesis by (simp add: batch_reference_def flip: map_append)
qed

lemma replay_advanced:
  assumes w: "calm w" and "processing b token upd db" "replay nfc w b token n (db, k) = ((db1, k1), threw)"
  shows "processing b token upd db1 \<and> (if threw then batch_reference nfc upd b db = None else advanced nfc upd b n db db1)"
  using assms(2,3)
proof (induction n arbitrary: db k)
  case 0
  then show ?case by (simp add: advanced_refl)
next
  case (Suc n)
  note p = Suc.prems(1)
  have step: "processing b token upd db1 \<and> (if threw then batch_reference nfc upd b db = None else advanced nfc upd b (Suc n) db db1)"
    if "processing b token upd db2" "advanced nfc upd b 1 db db2" "replay nfc w b token n (db2, k2) = ((db1, k1), threw)" for db2 k2
    using Suc.IH [OF that(1,3)] advanced_reference [OF that(2)] advanced_trans [OF processing_rows [OF p] that(2), of n db1]
    by (auto split: if_splits)
  show ?case
  proof (cases "process_rows nfc (wk_now w k) b token 1 db")
    case (Inl code)
    show ?thesis
    proof (cases "safeFailure code")
      case None
      then have "threw" "db1 = db" using Suc.prems(2) Inl by (auto simp: processImportRows_def execute_calm [OF w] safe_reason_def)
      then show ?thesis using p group_stuck [OF p Inl None] by simp
    next
      case (Some reason)
      then have "replay nfc w b token n (failNextPendingRow (wk_now w (k + 1)) b token reason db, k + 1 + 1) = ((db1, k1), threw)"
        using Suc.prems(2) Inl by (simp add: processImportRows_def execute_calm [OF w] safe_reason_def)
      with failNext_advanced [OF p Inl Some] show ?thesis by (intro step)
    qed
  next
    case (Inr res)
    then obtain db2 outs where s: "process_rows nfc (wk_now w k) b token 1 db = Inr (db2, outs)" by (cases res) auto
    show ?thesis
    proof (cases "outs = []")
      case True
      then have "db2 = db" "selected b token 1 db = []" using s process_rows_empty by blast+
      then have "pending_queue b db = []" using processing_selected [OF p, of 1] by (cases "pending_queue b db") auto
      moreover have "db1 = db" "\<not> threw"
        using Suc.prems(2) s True \<open>db2 = db\<close> by (auto simp: processImportRows_def execute_calm [OF w])
      ultimately show ?thesis using p by (simp add: advanced_empty)
    next
      case False
      then have "replay nfc w b token n (db2, k + 1) = ((db1, k1), threw)"
        using Suc.prems(2) s by (simp add: processImportRows_def execute_calm [OF w])
      with process_rows_advanced [OF p s] show ?thesis by (intro step)
    qed
  qed
qed

lemma processBatch_reference:
  assumes w: "calm w" and "processing b token upd db"
  shows "(\<exists>db1 k1 u n. processBatch nfc w b token (db, k) = Some ((completeBatch u b token db1, k1), Finished) \<and>
       processing b token upd db1 \<and> advanced nfc upd b n db db1 \<and> pending_queue b db1 = []) \<or>
     (\<exists>db1 k1. processBatch nfc w b token (db, k) = Some ((db1, k1), Threw) \<and>
       processing b token upd db1 \<and> batch_reference nfc upd b db = None)"
    (is "?P db k")
  using assms(2)
proof (induction "length (pending_rows b db)" arbitrary: db k rule: less_induct)
  case less
  note p = less.prems
  have run: "\<not> wk_stopped w k" for k using w by (simp add: calm_def)
  note unfold = processBatch.simps [of nfc w b token "(db, k)"]
  have step: "?P db k"
    if a: "processing b token upd db2" "advanced nfc upd b n db db2" "length (pending_rows b db2) < length (pending_rows b db)"
      "processBatch nfc w b token (db, k) = processBatch nfc w b token (db2, k2)" for db2 k2 n
    using less.hyps [OF a(3,1), of k2]
  proof (elim disjE exE conjE)
    fix db1 k1 u m
    assume "processBatch nfc w b token (db2, k2) = Some ((completeBatch u b token db1, k1), Finished)"
      "processing b token upd db1" "advanced nfc upd b m db2 db1" "pending_queue b db1 = []"
    then show "?P db k" using advanced_trans [OF processing_rows [OF p] a(2)] unfolding a(4) by blast
  qed (use advanced_reference [OF a(2)] a(4) in auto)
  show ?case
  proof (cases "process_rows nfc (wk_now w k) b token ROWS_PER_QUERY db")
    case (Inr res)
    then obtain db2 outs where s: "process_rows nfc (wk_now w k) b token ROWS_PER_QUERY db = Inr (db2, outs)" by (cases res) auto
    show ?thesis
    proof (cases "outs = []")
      case True
      then have e: "db2 = db" "selected b token ROWS_PER_QUERY db = []" using s process_rows_empty by blast+
      then have "pending_queue b db = []"
        using processing_selected [OF p, of ROWS_PER_QUERY] by (cases "pending_queue b db") (auto simp: ROWS_PER_QUERY_def)
      moreover have "processBatch nfc w b token (db, k) = Some ((completeBatch (wk_now w (k + 1)) b token db, k + 1 + 1), Finished)"
        using s True e by (simp add: unfold run processImportRows_def execute_calm [OF w])
      ultimately show ?thesis using p advanced_refl [of nfc upd b db] by blast
    next
      case False
      have "processBatch nfc w b token (db, k) = processBatch nfc w b token (db2, k + 1)"
        using s False by (simp add: unfold run processImportRows_def execute_calm [OF w])
      with process_rows_advanced [OF p s] process_rows_progress [OF s False] show ?thesis by (intro step)
    qed
  next
    case (Inl code)
    show ?thesis
    proof (cases "safeFailure code")
      case None
      have "processBatch nfc w b token (db, k) = Some ((db, k + 1), Threw)"
        using Inl None by (simp add: unfold run processImportRows_def execute_calm [OF w] safe_reason_def)
      then show ?thesis using p group_stuck [OF p Inl None] by blast
    next
      case (Some reason)
      obtain db2 k2 threw where r: "replay nfc w b token ROWS_PER_QUERY (db, k + 1) = ((db2, k2), threw)" by (metis prod.exhaust)
      from replay_advanced [OF w p r]
      have a: "processing b token upd db2" "if threw then batch_reference nfc upd b db = None else advanced nfc upd b ROWS_PER_QUERY db db2"
        by simp_all
      show ?thesis
      proof (cases threw)
        case True
        then have "processBatch nfc w b token (db, k) = Some ((db2, k2), Threw)"
          using Inl Some r by (simp add: unfold run processImportRows_def execute_calm [OF w] safe_reason_def)
        then show ?thesis using a True by auto
      next
        case False
        have h: "honest w" using w by (simp add: honest_def calm_def)
        have sel: "selected b token 1 db \<noteq> []" by (rule selected_one [OF process_rows_error [OF Inl]])
        have "length (pending_rows b db2) < length (pending_rows b db)"
          using replay_pending [OF h, of nfc b token ROWS_PER_QUERY db "k + 1" db2 k2] r False sel by (simp add: ROWS_PER_QUERY_def)
        moreover have "processBatch nfc w b token (db, k) = processBatch nfc w b token (db2, k2)"
          using Inl Some r False by (simp add: unfold run processImportRows_def execute_calm [OF w] safe_reason_def)
        moreover have "advanced nfc upd b ROWS_PER_QUERY db db2" using a(2) False by simp
        ultimately show ?thesis using a(1) by (intro step)
      qed
    qed
  qed
qed

text \<open>Completing a batch without pending rows changes its state only.\<close>

lemma complete_processing:
  assumes p: "processing b token upd db" and q: "pending_queue b db = []"
  shows "inventory_of (completeBatch u b token db) = inventory_of db" "im_rows (completeBatch u b token db) = im_rows db"
    "x \<in> set (im_batches (completeBatch u b token db)) \<Longrightarrow> ib_id x = b \<Longrightarrow>
       ib_state x = (if count_outcome RowFailed b (completeBatch u b token db) = 0 then Completed else CompletedWithErrors)"
proof -
  let ?db = "completeBatch u b token db"
  obtain y where y: "owned b token db = Some y" and wf: "import_wf db" using p by (auto simp: processing_def)
  note o = owned_Some [OF y]
  have empty: "pending_rows b db = []" using q unfolding pending_queue_def by (metis length_0_conv length_sort)
  have eq: "?db = change_batch b (\<lambda>x. x\<lparr>ib_state := (if ib_failed x > 0 then CompletedWithErrors else Completed),
      ib_completed := Some u, ib_lease := None, ib_token := None\<rparr>) db"
    by (simp add: completeBatch_def y empty)
  then show "inventory_of ?db = inventory_of db" "im_rows ?db = im_rows db" by (simp_all add: inventory_of_def)
  then have count: "count_outcome RowFailed b ?db = count_outcome RowFailed b db" by (intro count_same)
  assume x: "x \<in> set (im_batches ?db)" "ib_id x = b"
  then obtain z where z: "z \<in> set (im_batches db)" "ib_id z = b"
      "x = z\<lparr>ib_state := (if ib_failed z > 0 then CompletedWithErrors else Completed), ib_completed := Some u, ib_lease := None, ib_token := None\<rparr>"
    unfolding eq change_batch_map by (auto split: if_splits)
  then have "z = y" using batch_id_inj [OF wf z(1) o(1)] o(2) by simp
  moreover have "ib_failed y = count_outcome RowFailed b db"
    using import_wf_batch [OF wf o(1)] o(2,3) by (simp add: batch_ok_def batch_counts_def)
  ultimately show "ib_state x = (if count_outcome RowFailed b ?db = 0 then Completed else CompletedWithErrors)"
    using z(3) count by simp
qed

end
