(* ===== verification/Calendar.thy ===== *)
theory Calendar
  imports JsPrelude
begin

text \<open>
  The calendar of ECMAScript \<^verbatim>\<open>Date\<close> values, as the operations code uses it.  A date is an
  integer number of milliseconds since 1970; \<open>make_day\<close> is the day number that \<^verbatim>\<open>Date.UTC\<close>
  computes from a year, a month counted from zero (which may overflow) and a day (which may overflow),
  \<open>civil\<close> gives the year, month and day back, and \<open>toISOString\<close> and \<open>date_parse\<close> are the text of a
  date and its reader.  The model covers the years 1970 to 9999.
\<close>

definition DAY_MS :: int where
  "DAY_MS = 86400000"

definition leap :: "int \<Rightarrow> bool" where
  "leap y \<longleftrightarrow> 4 dvd y \<and> (\<not> 100 dvd y \<or> 400 dvd y)"

definition day_from_year :: "int \<Rightarrow> int" where
  "day_from_year y = 365 * (y - 1970) + (y - 1969) div 4 - (y - 1901) div 100 + (y - 1601) div 400"

definition month_days :: "int \<Rightarrow> int list" where
  "month_days y = [31, if leap y then 29 else 28, 31, 30, 31, 30, 31, 31, 30, 31, 30, 31]"

fun month_start :: "int list \<Rightarrow> nat \<Rightarrow> int" where
  "month_start ls 0 = 0"
| "month_start [] (Suc m) = 0"
| "month_start (l # ls) (Suc m) = l + month_start ls m"

definition days_in_month :: "int \<Rightarrow> nat \<Rightarrow> int" where
  "days_in_month y m = month_days y ! m"

definition make_day :: "int \<Rightarrow> int \<Rightarrow> int \<Rightarrow> int" where
  "make_day y m d =
     (let yr = y + m div 12 in day_from_year yr + month_start (month_days yr) (nat (m mod 12)) + d - 1)"

fun year_search :: "nat \<Rightarrow> int \<Rightarrow> int \<Rightarrow> int" where
  "year_search 0 y d = y"
| "year_search (Suc n) y d = (if d < day_from_year (y + 1) then y else year_search n (y + 1) d)"

definition year_from_day :: "int \<Rightarrow> int" where
  "year_from_day d = year_search (nat d) (1970 + d div 366) d"

fun month_search :: "int list \<Rightarrow> int \<Rightarrow> nat \<times> int" where
  "month_search [] n = (0, n + 1)"
| "month_search (l # ls) n = (if n < l then (0, n + 1) else (case month_search ls (n - l) of (m, d) \<Rightarrow> (Suc m, d)))"

definition civil :: "int \<Rightarrow> int \<times> nat \<times> int" where
  "civil d = (let y = year_from_day d in (y, month_search (month_days y) (d - day_from_year y)))"

section \<open>Days and dates\<close>

lemma div_step: "0 < (k :: int) \<Longrightarrow> (n + 1) div k = n div k + (if k dvd n + 1 then 1 else 0)"
proof -
  assume k: "0 < k"
  have n: "n = k * (n div k) + n mod k" by simp
  have m: "0 \<le> n mod k" "n mod k < k" using k by simp_all
  show ?thesis
  proof (cases "n mod k + 1 = k")
    case True
    then have "n + 1 = k * (n div k) + k" using n by linarith
    then have e: "n + 1 = k * (n div k + 1)" by (simp add: distrib_left)
    then have "(n + 1) div k = n div k + 1" using k by simp
    moreover have "k dvd n + 1" unfolding e by simp
    ultimately show ?thesis by simp
  next
    case False
    then have l: "n mod k + 1 < k" using m by simp
    have e: "n + 1 = (n mod k + 1) + k * (n div k)" using n by linarith
    then have "(n + 1) div k = n div k" using l m by (intro int_div_pos_eq [of _ _ _ "n mod k + 1"]) simp_all
    moreover have "(n + 1) mod k = n mod k + 1" using e l m by (intro int_mod_pos_eq [of _ _ "n div k"]) simp_all
    ultimately show ?thesis using m by (auto simp: dvd_eq_mod_eq_0)
  qed
qed

lemma year_length: "day_from_year (y + 1) = day_from_year y + (if leap y then 366 else 365)"
proof -
  have e: "4 dvd y - 1968 \<longleftrightarrow> 4 dvd y" "100 dvd y - 1900 \<longleftrightarrow> 100 dvd y" "400 dvd y - 1600 \<longleftrightarrow> 400 dvd y"
    using dvd_diff_left_iff [of "4 :: int" 1968 y] dvd_diff_left_iff [of "100 :: int" 1900 y] dvd_diff_left_iff [of "400 :: int" 1600 y]
    by simp_all
  have s: "(y - 1968) div 4 = (y - 1969) div 4 + (if 4 dvd y then 1 else 0)"
    "(y - 1900) div 100 = (y - 1901) div 100 + (if 100 dvd y then 1 else 0)"
    "(y - 1600) div 400 = (y - 1601) div 400 + (if 400 dvd y then 1 else 0)"
    using div_step [of 4 "y - 1969"] div_step [of 100 "y - 1901"] div_step [of 400 "y - 1601"]
    by (simp_all add: e)
  have d: "400 dvd y \<Longrightarrow> 100 dvd y" "100 dvd y \<Longrightarrow> 4 dvd y" using dvd_trans [of 100 400 y] dvd_trans [of 4 100 y] by simp_all
  have f: "day_from_year (y + 1) = 365 * (y - 1969) + (y - 1968) div 4 - (y - 1900) div 100 + (y - 1600) div 400"
    by (simp add: day_from_year_def)
  have g: "365 * (y - 1969) + (a + (if P then 1 else 0)) - (b + (if Q then 1 else 0)) + (c + (if R then 1 else 0)) =
      365 * (y - 1970) + a - b + c + (if P \<and> (\<not> Q \<or> R) then 366 else 365)" if "R \<Longrightarrow> Q" "Q \<Longrightarrow> P" for a b c :: int and P Q R
    by (cases P; cases Q; cases R) (use that in simp_all)
  show ?thesis unfolding f s unfolding day_from_year_def leap_def by (rule g) (use d in auto)
qed

lemma year_mono: "y \<le> z \<Longrightarrow> day_from_year y + 365 * (z - y) \<le> day_from_year z"
proof (induction "nat (z - y)" arbitrary: z)
  case (Suc n)
  then have "day_from_year y + 365 * ((z - 1) - y) \<le> day_from_year (z - 1)" by (intro Suc.hyps(1)) auto
  then show ?case using year_length [of "z - 1"] by (simp split: if_splits)
qed simp

lemma year_unique:
  assumes "day_from_year y \<le> d" "d < day_from_year (y + 1)" "day_from_year z \<le> d" "d < day_from_year (z + 1)"
  shows "y = z"
proof (rule ccontr)
  assume "y \<noteq> z"
  then consider "y + 1 \<le> z" | "z + 1 \<le> y" by linarith
  then show False using year_mono [of "y + 1" z] year_mono [of "z + 1" y] assms by cases auto
qed

lemma year_upper: "1970 \<le> y \<Longrightarrow> day_from_year y \<le> 366 * (y - 1970)"
proof (induction "nat (y - 1970)" arbitrary: y)
  case 0
  then have "y = 1970" by simp
  then show ?case by (simp add: day_from_year_def)
next
  case (Suc n)
  then have "day_from_year (y - 1) \<le> 366 * ((y - 1) - 1970)" by (intro Suc.hyps(1)) auto
  then show ?case using year_length [of "y - 1"] by (simp split: if_splits)
qed

lemma year_search_in:
  "day_from_year y \<le> d \<Longrightarrow> d < day_from_year (y + int n + 1) \<Longrightarrow>
     day_from_year (year_search n y d) \<le> d \<and> d < day_from_year (year_search n y d + 1) \<and> y \<le> year_search n y d"
proof (induction n arbitrary: y)
  case (Suc n)
  show ?case
  proof (cases "d < day_from_year (y + 1)")
    case False
    then have "day_from_year (y + 1) \<le> d" "d < day_from_year (y + 1 + int n + 1)" using Suc.prems(2) by (simp_all add: algebra_simps)
    from Suc.IH [OF this] show ?thesis using False by simp
  qed (use Suc.prems in simp)
qed simp

lemma year_from_day:
  assumes "0 \<le> d"
  shows "day_from_year (year_from_day d) \<le> d \<and> d < day_from_year (year_from_day d + 1) \<and> 1970 \<le> year_from_day d"
proof -
  let ?y = "1970 + d div 366"
  have q: "0 \<le> d div 366" using assms by (simp add: pos_imp_zdiv_nonneg_iff)
  have lo: "day_from_year ?y \<le> d" 
  proof -
    have "366 * (d div 366) \<le> d" using mult_div_mod_eq [of 366 d] pos_mod_sign [of 366 d] by simp
    then show ?thesis using year_upper [of ?y] q by simp
  qed
  have "day_from_year 1970 + 365 * (?y + int (nat d) + 1 - 1970) \<le> day_from_year (?y + int (nat d) + 1)"
    using q assms by (intro year_mono) simp
  then have "d < day_from_year (?y + int (nat d) + 1)" using assms q by (simp add: day_from_year_def)
  from year_search_in [OF lo this] show ?thesis using q by (simp add: year_from_day_def)
qed

lemma month_search_in:
  "0 \<le> n \<Longrightarrow> n < sum_list ls \<Longrightarrow> month_search ls n = (m, d) \<Longrightarrow>
     m < length ls \<and> 1 \<le> d \<and> d \<le> ls ! m \<and> n = month_start ls m + d - 1"
proof (induction ls n arbitrary: m d rule: month_search.induct)
  case (2 l ls n)
  show ?case
  proof (cases "n < l")
    case False
    obtain m' d' where s: "month_search ls (n - l) = (m', d')" by force
    have "m' < length ls \<and> 1 \<le> d' \<and> d' \<le> ls ! m' \<and> n - l = month_start ls m' + d' - 1"
      using 2(1) [OF False _ _ s] 2(2,3) False by simp
    then show ?thesis using 2(4) False s by auto
  qed (use 2(2-4) in auto)
qed simp

lemma month_search_start:
  "m < length ls \<Longrightarrow> list_all (\<lambda>l. 0 \<le> l) ls \<Longrightarrow> 1 \<le> d \<Longrightarrow> d \<le> ls ! m \<Longrightarrow> month_search ls (month_start ls m + d - 1) = (m, d)"
proof (induction ls m rule: month_start.induct)
  case (1 ls)
  then show ?case by (cases ls) auto
next
  case (3 l ls m)
  have "list_all (\<lambda>l. 0 \<le> l) ls" using 3(3) by simp
  then have "0 \<le> month_start ls m" by (induction ls m rule: month_start.induct) auto
  then show ?case using 3 by (simp add: algebra_simps)
qed simp

lemma month_days_facts: "length (month_days y) = 12" "list_all (\<lambda>l. 0 \<le> l) (month_days y)"
  "sum_list (month_days y) = day_from_year (y + 1) - day_from_year y"
  by (simp_all add: month_days_def year_length)

lemma civil_valid:
  assumes "0 \<le> n" and "civil n = (y, m, d)"
  shows "1970 \<le> y \<and> m < 12 \<and> 1 \<le> d \<and> d \<le> days_in_month y m \<and> make_day y (int m) d = n"
proof -
  have y: "y = year_from_day n" "month_search (month_days y) (n - day_from_year y) = (m, d)"
    using assms(2) by (auto simp: civil_def Let_def)
  have "0 \<le> n - day_from_year y" "n - day_from_year y < sum_list (month_days y)"
    using year_from_day [OF assms(1)] by (simp_all add: y(1) month_days_facts)
  from month_search_in [OF this y(2)]
  show ?thesis using year_from_day [OF assms(1)] y(1)
    by (simp add: month_days_facts make_day_def Let_def days_in_month_def zdiv_int [symmetric] zmod_int [symmetric])
qed

lemma make_day_bounds:
  assumes "m < 12" "1 \<le> d" "d \<le> days_in_month y m"
  shows "day_from_year y \<le> make_day y (int m) d \<and> make_day y (int m) d < day_from_year (y + 1)"
proof -
  have g: "0 \<le> month_start ls k \<and> month_start ls k + ls ! k \<le> sum_list ls" if "list_all (\<lambda>l. 0 \<le> l) ls" "k < length ls" for ls :: "int list" and k
    using that
  proof (induction ls k rule: month_start.induct)
    case (1 ls)
    then show ?case by (cases ls) (auto simp: list_all_iff intro!: sum_list_nonneg)
  qed auto
  have "make_day y (int m) d = day_from_year y + month_start (month_days y) m + d - 1"
    using assms(1) by (simp add: make_day_def Let_def zdiv_int [symmetric] zmod_int [symmetric])
  then show ?thesis using g [OF month_days_facts(2), of m y] assms by (simp add: month_days_facts days_in_month_def)
qed

lemma civil_make_day:
  assumes "1970 \<le> y" "m < 12" "1 \<le> d" "d \<le> days_in_month y m"
  shows "civil (make_day y (int m) d) = (y, m, d)" and "0 \<le> make_day y (int m) d"
proof -
  have b: "day_from_year y \<le> make_day y (int m) d" "make_day y (int m) d < day_from_year (y + 1)"
    using make_day_bounds [OF assms(2-4)] by auto
  have "day_from_year 1970 = 0" by (simp add: day_from_year_def)
  then show n: "0 \<le> make_day y (int m) d" using b(1) year_mono [OF assms(1)] assms(1) by simp
  have "year_from_day (make_day y (int m) d) = y"
    by (rule year_unique [OF _ _ b]) (use year_from_day [OF n] in auto)
  moreover have "make_day y (int m) d - day_from_year y = month_start (month_days y) m + d - 1"
    using assms(2) by (simp add: make_day_def Let_def zdiv_int [symmetric] zmod_int [symmetric])
  ultimately show "civil (make_day y (int m) d) = (y, m, d)"
    using month_search_start [OF _ month_days_facts(2), of m y d] assms
    by (simp add: civil_def Let_def days_in_month_def month_days_facts)
qed

end
