(* ===== verification/Timestamps.thy ===== *)
theory Timestamps
  imports Calendar
begin

text \<open>
  Texts of dates: \<^verbatim>\<open>isUtcTimestamp\<close> and \<^verbatim>\<open>isSha256\<close> of \<^verbatim>\<open>operations/contracts.ts\<close>, the text
  \<^verbatim>\<open>toISOString\<close> produces and the value \<^verbatim>\<open>Date.parse\<close> reads from an accepted text.
\<close>

definition digits2 :: "nat \<Rightarrow> jsstring" where
  "digits2 n = [48 + n div 10 mod 10, 48 + n mod 10]"

definition digits3 :: "nat \<Rightarrow> jsstring" where
  "digits3 n = (48 + n div 100 mod 10) # digits2 n"

definition digits4 :: "nat \<Rightarrow> jsstring" where
  "digits4 n = (48 + n div 1000 mod 10) # digits3 n"

definition number_of_digits :: "jsstring \<Rightarrow> nat" where
  "number_of_digits s = foldl (\<lambda>a c. a * 10 + (c - 48)) 0 s"

section \<open>Fields\<close>

record stamp =
  s_year :: int
  s_month :: int
  s_day :: int
  s_hour :: int
  s_minute :: int
  s_second :: int
  s_ms :: int

text \<open>\<^verbatim>\<open>Date.UTC\<close>, and the getters of a date.\<close>

definition date_utc :: "stamp \<Rightarrow> int" where
  "date_utc st = make_day (s_year st) (s_month st - 1) (s_day st) * DAY_MS +
     s_hour st * 3600000 + s_minute st * 60000 + s_second st * 1000 + s_ms st"

definition date_fields :: "int \<Rightarrow> stamp" where
  "date_fields t =
     (case civil (t div DAY_MS) of (y, m, d) \<Rightarrow>
        \<lparr>s_year = y, s_month = int m + 1, s_day = d, s_hour = t div 3600000 mod 24, s_minute = t div 60000 mod 60,
         s_second = t div 1000 mod 60, s_ms = t mod 1000\<rparr>)"

section \<open>Texts\<close>

definition stamp_head :: "(code_unit \<Rightarrow> bool) list" where
  "stamp_head = [is_digit, is_digit, is_digit, is_digit, \<lambda>c. c = 45, is_digit, is_digit, \<lambda>c. c = 45, is_digit, is_digit,
     \<lambda>c. c = 84, is_digit, is_digit, \<lambda>c. c = 58, is_digit, is_digit, \<lambda>c. c = 58, is_digit, is_digit]"

text \<open>The optional fraction and the final \<^verbatim>\<open>Z\<close>.\<close>

definition stamp_fraction :: "jsstring \<Rightarrow> jsstring option" where
  "stamp_fraction r =
     (if r = [90] then Some []
      else if length r \<ge> 3 \<and> length r \<le> 8 \<and> hd r = 46 \<and> last r = 90 \<and> list_all is_digit (butlast (tl r))
      then Some (butlast (tl r)) else None)"

definition pad3 :: "jsstring \<Rightarrow> jsstring" where
  "pad3 s = (let r = take 3 s in r @ replicate (3 - length r) 48)"

definition slice_number :: "nat \<Rightarrow> nat \<Rightarrow> jsstring \<Rightarrow> int" where
  "slice_number from len s = int (number_of_digits (take len (drop from s)))"

definition stamp_of :: "jsstring \<Rightarrow> stamp option" where
  "stamp_of s =
     (if \<not> matches_seq stamp_head (take 19 s) then None
      else
        (case stamp_fraction (drop 19 s) of
           None \<Rightarrow> None
         | Some f \<Rightarrow>
             Some \<lparr>s_year = slice_number 0 4 s, s_month = slice_number 5 2 s, s_day = slice_number 8 2 s,
               s_hour = slice_number 11 2 s, s_minute = slice_number 14 2 s, s_second = slice_number 17 2 s,
               s_ms = int (number_of_digits (pad3 f))\<rparr>))"

definition plausible :: "stamp \<Rightarrow> bool" where
  "plausible st \<longleftrightarrow> \<not> (s_year st < 1970 \<or> s_month st < 1 \<or> s_month st > 12 \<or> s_day st < 1 \<or> s_day st > 31 \<or>
     s_hour st > 23 \<or> s_minute st > 59 \<or> s_second st > 59)"

definition isUtcTimestamp :: "jsstring \<Rightarrow> bool" where
  "isUtcTimestamp s =
     (case stamp_of s of
        None \<Rightarrow> False
      | Some st \<Rightarrow> if \<not> plausible st then False else date_fields (date_utc st) = st)"

definition isSha256 :: "jsstring \<Rightarrow> bool" where
  "isSha256 s \<longleftrightarrow> matches_all is_hex_lower 64 s"

definition toISOString :: "int \<Rightarrow> jsstring" where
  "toISOString t =
     (let st = date_fields t in
      digits4 (nat (s_year st)) @ [45] @ digits2 (nat (s_month st)) @ [45] @ digits2 (nat (s_day st)) @ [84] @
      digits2 (nat (s_hour st)) @ [58] @ digits2 (nat (s_minute st)) @ [58] @ digits2 (nat (s_second st)) @ [46] @
      digits3 (nat (s_ms st)) @ [90])"

definition date_parse :: "jsstring \<Rightarrow> int option" where
  "date_parse s = (if isUtcTimestamp s then map_option date_utc (stamp_of s) else None)"

text \<open>The dates whose text has four year digits.\<close>

definition MAX_DATE :: int where
  "MAX_DATE = day_from_year 10000 * DAY_MS"

definition modern :: "int \<Rightarrow> bool" where
  "modern t \<longleftrightarrow> 0 \<le> t \<and> t < MAX_DATE"

section \<open>Lemmas\<close>

lemma digit_groups:
  fixes n :: nat
  shows "n = a * 10 + d0 \<Longrightarrow> a < 10 \<Longrightarrow> d0 < 10 \<Longrightarrow> a mod 10 * 10 + d0 = n"
    and "n = a * 10 + d0 \<Longrightarrow> a = b * 10 + d1 \<Longrightarrow> b < 10 \<Longrightarrow> (b mod 10 * 10 + d1) * 10 + d0 = n"
    and "n = a * 10 + d0 \<Longrightarrow> a = b * 10 + d1 \<Longrightarrow> b = c * 10 + d2 \<Longrightarrow> c < 10 \<Longrightarrow> ((c mod 10 * 10 + d2) * 10 + d1) * 10 + d0 = n"
  by simp_all

lemma digits_read [simp]:
  "n < 100 \<Longrightarrow> number_of_digits (digits2 n) = n"
  "n < 1000 \<Longrightarrow> number_of_digits (digits3 n) = n"
  "n < 10000 \<Longrightarrow> number_of_digits (digits4 n) = n"
proof -
  have d: "x = x div 10 * 10 + x mod 10" for x :: nat by (rule div_mult_mod_eq [symmetric])
  have e: "n div 100 = n div 10 div 10" "n div 1000 = n div 10 div 10 div 10" by (simp_all only: div_mult2_eq [symmetric], simp_all)
  have l: "n < 100 \<Longrightarrow> n div 10 < 10" "n < 1000 \<Longrightarrow> n div 10 div 10 < 10" "n < 10000 \<Longrightarrow> n div 10 div 10 div 10 < 10"
    by (simp_all only: div_mult2_eq [symmetric] less_mult_imp_div_less)
  have c: "number_of_digits [48 + x, 48 + y] = x * 10 + y" "number_of_digits [48 + x, 48 + y, 48 + z] = (x * 10 + y) * 10 + z"
    "number_of_digits [48 + x, 48 + y, 48 + z, 48 + w] = ((x * 10 + y) * 10 + z) * 10 + w" for x y z w
    by (simp_all add: number_of_digits_def)
  show "n < 100 \<Longrightarrow> number_of_digits (digits2 n) = n"
    unfolding digits2_def c by (rule digit_groups(1) [OF d l(1)]) simp_all
  show "n < 1000 \<Longrightarrow> number_of_digits (digits3 n) = n"
    unfolding digits3_def digits2_def c e by (rule digit_groups(2) [OF d d l(2)])
  show "n < 10000 \<Longrightarrow> number_of_digits (digits4 n) = n"
    unfolding digits4_def digits3_def digits2_def c e by (rule digit_groups(3) [OF d d d l(3)])
qed

lemma digits_class [simp]: "is_digit (48 + n mod 10)"
  by (simp add: is_digit_def)

text \<open>A date is rebuilt from its fields, and the fields of a plausible calendar date come back.\<close>

lemma time_groups:
  fixes t :: int
  shows "t = a * 1000 + ms \<Longrightarrow> a = b * 60 + se \<Longrightarrow> b = c * 60 + mi \<Longrightarrow> c = d * 24 + h \<Longrightarrow>
    t = d * 86400000 + h * 3600000 + mi * 60000 + se * 1000 + ms"
  by simp

lemma div_chain:
  fixes t :: int
  shows "t div 60000 = t div 1000 div 60" "t div 3600000 = t div 1000 div 60 div 60" "t div DAY_MS = t div 1000 div 60 div 60 div 24"
  by (simp_all add: zdiv_zmult2_eq [symmetric] DAY_MS_def)

lemma time_split:
  fixes t :: int
  shows "t = t div DAY_MS * DAY_MS + t div 3600000 mod 24 * 3600000 + t div 60000 mod 60 * 60000 + t div 1000 mod 60 * 1000 + t mod 1000"
proof -
  have d: "x = x div k * k + x mod k" for x k :: int by simp
  show ?thesis unfolding div_chain unfolding DAY_MS_def
    by (rule time_groups) (rule d)+
qed

lemma date_utc_fields:
  assumes "0 \<le> t"
  shows "date_utc (date_fields t) = t" and "1970 \<le> s_year (date_fields t)" "1 \<le> s_month (date_fields t)" "s_month (date_fields t) \<le> 12"
    "1 \<le> s_day (date_fields t)" "s_day (date_fields t) \<le> 31" "0 \<le> s_hour (date_fields t)" "s_hour (date_fields t) \<le> 23"
    "0 \<le> s_minute (date_fields t)" "s_minute (date_fields t) \<le> 59" "0 \<le> s_second (date_fields t)" "s_second (date_fields t) \<le> 59"
    "0 \<le> s_ms (date_fields t)" "s_ms (date_fields t) \<le> 999"
proof -
  obtain y m d where c: "civil (t div DAY_MS) = (y, m, d)" by (cases "civil (t div DAY_MS)") auto
  have "0 \<le> t div DAY_MS" using assms by (simp add: DAY_MS_def pos_imp_zdiv_nonneg_iff)
  note v = civil_valid [OF this c]
  have z: "y < k + 1 \<Longrightarrow> y \<le> k" for y k :: int by simp
  have b: "0 \<le> x mod 24 \<and> x mod 24 \<le> 23" "0 \<le> x mod 60 \<and> x mod 60 \<le> 59" "0 \<le> x mod 1000 \<and> x mod 1000 \<le> 999" for x :: int
    using z [of "x mod 24" 23] z [of "x mod 60" 59] z [of "x mod 1000" 999] by (simp_all only: pos_mod_sign pos_mod_bound)
  have "days_in_month y m \<le> 31" using v by (auto simp: days_in_month_def month_days_def nth_Cons split: nat.splits)
  then show "1970 \<le> s_year (date_fields t)" "1 \<le> s_month (date_fields t)" "s_month (date_fields t) \<le> 12"
    "1 \<le> s_day (date_fields t)" "s_day (date_fields t) \<le> 31" "0 \<le> s_hour (date_fields t)" "s_hour (date_fields t) \<le> 23"
    "0 \<le> s_minute (date_fields t)" "s_minute (date_fields t) \<le> 59" "0 \<le> s_second (date_fields t)" "s_second (date_fields t) \<le> 59"
    "0 \<le> s_ms (date_fields t)" "s_ms (date_fields t) \<le> 999"
    using v by (simp_all add: date_fields_def c b)
  show "date_utc (date_fields t) = t"
    unfolding time_split [of t, symmetric]
    using v time_split [of t] by (simp only: date_utc_def date_fields_def c prod.case stamp.select_convs add_diff_cancel_right')
qed

lemma fields_of_utc:
  assumes "1970 \<le> y" "m < 12" "1 \<le> d" "d \<le> days_in_month y m" "0 \<le> h" "h < 24" "0 \<le> mi" "mi < 60" "0 \<le> se" "se < 60" "0 \<le> ms" "ms < 1000"
  shows "date_fields (date_utc \<lparr>s_year = y, s_month = int m + 1, s_day = d, s_hour = h, s_minute = mi, s_second = se, s_ms = ms\<rparr>) =
    \<lparr>s_year = y, s_month = int m + 1, s_day = d, s_hour = h, s_minute = mi, s_second = se, s_ms = ms\<rparr>"
proof -
  define n where "n = make_day y (int m) d"
  define a where "a = n * 24 + h"
  define b where "b = a * 60 + mi"
  define c where "c = b * 60 + se"
  define t where "t = c * 1000 + ms"
  have q: "(x * k + r) div k = x" "(x * k + r) mod k = r" if "0 \<le> r" "r < k" for x k r :: int
    using that by (simp_all add: div_pos_pos_trivial)
  have g: "t div 1000 = c" "t mod 1000 = ms" "c div 60 = b" "c mod 60 = se" "b div 60 = a" "b mod 60 = mi" "a div 24 = n" "a mod 24 = h"
    unfolding t_def c_def b_def a_def by (simp_all only: q assms)
  have e: "t div 60000 = b" "t div 3600000 = a" "t div DAY_MS = n"
    unfolding div_chain g by (rule refl)+
  have t: "date_utc \<lparr>s_year = y, s_month = int m + 1, s_day = d, s_hour = h, s_minute = mi, s_second = se, s_ms = ms\<rparr> = t"
    by (simp add: date_utc_def t_def c_def b_def a_def n_def DAY_MS_def)
  show ?thesis unfolding t using civil_make_day(1) [OF assms(1-4)] by (simp add: date_fields_def e g n_def)
qed

lemma stamp_head_digits: "matches_seq stamp_head (digits4 a @ [45] @ digits2 b @ [45] @ digits2 c @ [84] @ digits2 d @ [58] @ digits2 e @ [58] @ digits2 f)"
  by (simp add: stamp_head_def digits4_def digits3_def digits2_def)

lemma slices:
  "take 19 (digits4 a @ [45] @ digits2 b @ [45] @ digits2 c @ [84] @ digits2 d @ [58] @ digits2 e @ [58] @ digits2 f @ r) =
     digits4 a @ [45] @ digits2 b @ [45] @ digits2 c @ [84] @ digits2 d @ [58] @ digits2 e @ [58] @ digits2 f"
  "drop 19 (digits4 a @ [45] @ digits2 b @ [45] @ digits2 c @ [84] @ digits2 d @ [58] @ digits2 e @ [58] @ digits2 f @ r) = r"
  "slice_number 0 4 (digits4 a @ z) = int (number_of_digits (digits4 a))"
  "slice_number 5 2 (digits4 a @ [45] @ digits2 b @ z) = int (number_of_digits (digits2 b))"
  "slice_number 8 2 (digits4 a @ [45] @ digits2 b @ [45] @ digits2 c @ z) = int (number_of_digits (digits2 c))"
  "slice_number 11 2 (digits4 a @ [45] @ digits2 b @ [45] @ digits2 c @ [84] @ digits2 d @ z) = int (number_of_digits (digits2 d))"
  "slice_number 14 2 (digits4 a @ [45] @ digits2 b @ [45] @ digits2 c @ [84] @ digits2 d @ [58] @ digits2 e @ z) = int (number_of_digits (digits2 e))"
  "slice_number 17 2 (digits4 a @ [45] @ digits2 b @ [45] @ digits2 c @ [84] @ digits2 d @ [58] @ digits2 e @ [58] @ digits2 f @ z) =
     int (number_of_digits (digits2 f))"
  by (simp_all add: digits4_def digits3_def digits2_def slice_number_def)

lemma fraction_ms: "stamp_fraction ([46] @ digits3 n @ [90]) = Some (digits3 n)" "pad3 (digits3 n) = digits3 n"
  by (simp_all add: stamp_fraction_def digits3_def digits2_def pad3_def Let_def)

lemma div_below:
  fixes q :: int
  assumes "0 < k" "t < q * k"
  shows "t div k < q"
proof (rule ccontr)
  assume "\<not> t div k < q"
  then have "q * k \<le> t div k * k" using assms(1) by (intro mult_right_mono) simp_all
  also have "\<dots> \<le> t" using div_mult_mod_eq [of t k] pos_mod_sign [OF assms(1), of t] by linarith
  finally show False using assms(2) by simp
qed

lemma year_bound: "modern t \<Longrightarrow> s_year (date_fields t) < 10000"
proof -
  assume m: "modern t"
  obtain y mo d where c: "civil (t div DAY_MS) = (y, mo, d)" by (cases "civil (t div DAY_MS)") auto
  have n: "0 \<le> t div DAY_MS" using m by (simp add: modern_def DAY_MS_def pos_imp_zdiv_nonneg_iff)
  have lt: "t div DAY_MS < day_from_year 10000" using m by (intro div_below) (simp_all add: modern_def MAX_DATE_def DAY_MS_def)
  have "day_from_year y \<le> t div DAY_MS" using year_from_day [OF n] c by (auto simp: civil_def Let_def)
  then have "y < 10000" using year_mono [of 10000 y] lt by fastforce
  then show ?thesis by (simp add: date_fields_def c)
qed

lemma stamp_of_iso:
  assumes "modern t"
  shows "stamp_of (toISOString t) = Some (date_fields t)"
proof -
  have p: "0 \<le> t" using assms by (simp add: modern_def)
  have y: "nat (s_year (date_fields t)) < 10000" using year_bound [OF assms] date_utc_fields(2) [OF p] by simp
  have b: "nat (s_month (date_fields t)) < 100" "nat (s_day (date_fields t)) < 100" "nat (s_hour (date_fields t)) < 100"
    "nat (s_minute (date_fields t)) < 100" "nat (s_second (date_fields t)) < 100" "nat (s_ms (date_fields t)) < 1000"
    using date_utc_fields [OF p] by simp_all
  show ?thesis
    unfolding stamp_of_def toISOString_def Let_def append_assoc slices fraction_ms option.case
    using stamp_head_digits digits_read(1) [OF b(1)] digits_read(1) [OF b(2)] digits_read(1) [OF b(3)] digits_read(1) [OF b(4)]
      digits_read(1) [OF b(5)] digits_read(2) [OF b(6)] digits_read(3) [OF y] date_utc_fields [OF p]
    by simp
qed

lemma iso_timestamp [simp]: "modern t \<Longrightarrow> isUtcTimestamp (toISOString t)"
proof -
  assume m: "modern t"
  then have p: "0 \<le> t" by (simp add: modern_def)
  note f = date_utc_fields [OF p]
  have "plausible (date_fields t)" using f(2-12) by (simp add: plausible_def)
  then show ?thesis using stamp_of_iso [OF m] f(1) by (simp add: isUtcTimestamp_def)
qed

lemma parse_iso [simp]: "modern t \<Longrightarrow> date_parse (toISOString t) = Some t"
proof -
  assume m: "modern t"
  then have "0 \<le> t" by (simp add: modern_def)
  from date_utc_fields(1) [OF this] show ?thesis using stamp_of_iso [OF m] iso_timestamp [OF m] by (simp add: date_parse_def)
qed

lemma iso_inj: "modern s \<Longrightarrow> modern t \<Longrightarrow> toISOString s = toISOString t \<longleftrightarrow> s = t"
  by (metis parse_iso option.inject)

end
