(* ===== verification/InventoryExport.thy ===== *)
theory InventoryExport
  imports ImportParsing Timestamps
begin

text \<open>
  The export of light points, \<^verbatim>\<open>services/streetLightsExport.service.ts\<close>, and the filters it shares with
  the administration's list, \<^verbatim>\<open>services/adminStreetLightsFilters.ts\<close>.  The export runs in one
  repeatable-read transaction, so every page is read from the same rows.
\<close>

section \<open>Filters\<close>

text \<open>
  \<open>ilike\<close> is PostgreSQL's case-insensitive pattern match, \<open>fold\<close> is \<^verbatim>\<open>normalizeSearch\<close>: decomposition,
  removal of the diacritics and Slovak lower case.
\<close>

record light_filters =
  lf_search :: jsstring
  lf_status :: jsstring
  lf_district :: jsstring
  lf_district_missing :: bool
  lf_lamp :: jsstring
  lf_lamp_missing :: bool

record match_env =
  ma_ilike :: "jsstring \<Rightarrow> jsstring \<Rightarrow> bool"
  ma_fold :: "jsstring \<Rightarrow> jsstring"

definition status_label :: "light_status \<Rightarrow> jsstring" where
  "status_label st =
     (case st of Active \<Rightarrow> js ''Akt'' @ [237] @ js ''vny'' | Inactive \<Rightarrow> js ''Neakt'' @ [237] @ js ''vny''
      | Maintenance \<Rightarrow> [218] @ js ''dr'' @ [382] @ js ''ba'')"

definition matchingInventoryStatuses :: "match_env \<Rightarrow> jsstring \<Rightarrow> light_status list" where
  "matchingInventoryStatuses ma v =
     filter (\<lambda>st. contains_text (ma_fold ma v) (ma_fold ma (status_text st)) \<or>
       contains_text (ma_fold ma v) (ma_fold ma (status_label st))) [Active, Inactive, Maintenance]"

definition btrim :: "jsstring \<Rightarrow> jsstring" where
  "btrim s = trim_both (\<lambda>c. c = 32) s"

definition missing_text :: "jsstring option \<Rightarrow> bool" where
  "missing_text v = (case v of None \<Rightarrow> True | Some s \<Rightarrow> btrim s = [])"

definition search_matches :: "match_env \<Rightarrow> jsstring \<Rightarrow> inventory_row \<Rightarrow> bool" where
  "search_matches ma search r \<longleftrightarrow>
     (let pat = [37] @ search @ [37]; like = (\<lambda>v. case v of None \<Rightarrow> False | Some s \<Rightarrow> ma_ilike ma pat s) in
      like (Some (iv_number r)) \<or> like (iv_external r) \<or> like (iv_address r) \<or> like (iv_district r) \<or> like (iv_lamp r) \<or>
      iv_status r \<in> set (matchingInventoryStatuses ma search) \<or>
      (search \<noteq> [] \<and> list_all is_digit search \<and> number_of_digits search \<le> 2147483647 \<and>
       iv_id r = int (number_of_digits search)))"

text \<open>The \<^verbatim>\<open>WHERE\<close> clause as a predicate; \<open>None\<close> is the error of an unknown status.\<close>

definition buildStreetLightFilters :: "match_env \<Rightarrow> light_filters \<Rightarrow> (inventory_row \<Rightarrow> bool) option" where
  "buildStreetLightFilters ma f =
     (let search = take 100 (js_trim (lf_search f)) in
      if lf_status f \<noteq> [] \<and> status_of_text (lf_status f) = None then None
      else Some (\<lambda>r.
        (search = [] \<or> search_matches ma search r) \<and>
        (lf_status f = [] \<or> status_text (iv_status r) = lf_status f) \<and>
        (if lf_district_missing f then missing_text (iv_district r)
         else js_trim (lf_district f) = [] \<or> map_option btrim (iv_district r) = Some (js_trim (lf_district f))) \<and>
        (if js_trim (lf_lamp f) \<noteq> [] then map_option btrim (iv_lamp r) = Some (js_trim (lf_lamp f))
         else lf_lamp_missing f \<longrightarrow> missing_text (iv_lamp r))))"

section \<open>Items\<close>

datatype export_format = Csv | Json | GeoJson

datatype item_value = NumberItem js_number | TextItem "jsstring option"

definition CSV_HEADER :: jsstring where
  "CSV_HEADER = js ''id,inventory_number,external_id,longitude,latitude,address,district,lamp_type,status,created_at,updated_at'' @ [13, 10]"

definition itemFields :: "inventory_row \<Rightarrow> (string \<times> item_value) list" where
  "itemFields r =
     [(''id'', NumberItem (Fin (of_int (iv_id r)))), (''inventory_number'', TextItem (Some (iv_number r))),
      (''external_id'', TextItem (iv_external r)), (''longitude'', NumberItem (iv_longitude r)),
      (''latitude'', NumberItem (iv_latitude r)), (''address'', TextItem (iv_address r)),
      (''district'', TextItem (iv_district r)), (''lamp_type'', TextItem (iv_lamp r)),
      (''status'', TextItem (Some (status_text (iv_status r)))),
      (''created_at'', TextItem (Some (toISOString (iv_created r)))),
      (''updated_at'', TextItem (Some (toISOString (iv_updated r))))]"

text \<open>A JSON string is written in pieces that never end between the halves of a surrogate pair.\<close>

definition json_cut :: "jsstring \<Rightarrow> nat" where
  "json_cut s =
     (if length s > WRITE_CHARS \<and> high_surrogate (s ! (WRITE_CHARS - 1)) \<and> low_surrogate (s ! WRITE_CHARS)
      then WRITE_CHARS - 1 else WRITE_CHARS)"

lemma json_cut_pos: "0 < json_cut s"
  by (simp add: json_cut_def WRITE_CHARS_def)

function json_pieces :: "jsstring \<Rightarrow> jsstring" where
  "json_pieces s = (if s = [] then [] else json_escape (take (json_cut s) s) @ json_pieces (drop (json_cut s) s))"
  by pat_completeness auto
termination by (relation "measure length") (use json_cut_pos in \<open>auto simp: length_greater_0_conv [symmetric] simp del: length_greater_0_conv\<close>)

declare json_pieces.simps [simp del]

definition writeJsonString :: "jsstring \<Rightarrow> jsstring" where
  "writeJsonString s = [34] @ json_pieces s @ [34]"

definition json_item_value :: "import_env \<Rightarrow> item_value \<Rightarrow> jsstring" where
  "json_item_value env v =
     (case v of NumberItem n \<Rightarrow> im_text env n | TextItem None \<Rightarrow> js ''null'' | TextItem (Some s) \<Rightarrow> writeJsonString s)"

definition writeJsonItem :: "import_env \<Rightarrow> (string \<times> item_value) list \<Rightarrow> jsstring" where
  "writeJsonItem env vs =
     [123] @ join_fields (map (\<lambda>(k, v). writeJsonString (js k) @ [58] @ json_item_value env v) vs) @ [125]"

definition csv_text :: "import_env \<Rightarrow> item_value \<Rightarrow> jsstring option" where
  "csv_text env v = (case v of NumberItem n \<Rightarrow> Some (im_text env n) | TextItem s \<Rightarrow> s)"

definition item_text :: "import_env \<Rightarrow> export_format \<Rightarrow> bool \<Rightarrow> inventory_row \<Rightarrow> jsstring" where
  "item_text env fmt first r =
     (let sep = (if first then [] else [44]) in
      case fmt of
        Csv \<Rightarrow> writeCsvRow (map (csv_text env \<circ> snd) (itemFields r))
      | Json \<Rightarrow> sep @ writeJsonItem env (itemFields r)
      | GeoJson \<Rightarrow>
          sep @ js ''{\"type\":\"Feature\",\"geometry\":{\"type\":\"Point\",\"coordinates\":['' @
          im_text env (iv_longitude r) @ [44] @ im_text env (iv_latitude r) @ js '']},\"properties\":'' @
          writeJsonItem env (filter (\<lambda>(k, v). k \<noteq> ''longitude'' \<and> k \<noteq> ''latitude'') (itemFields r)) @ [125])"

definition prologue :: "export_format \<Rightarrow> jsstring" where
  "prologue fmt =
     (case fmt of
        Csv \<Rightarrow> CSV_HEADER
      | Json \<Rightarrow> js ''{\"schemaVersion\":1,\"items\":[''
      | GeoJson \<Rightarrow> js ''{\"type\":\"FeatureCollection\",\"schemaVersion\":1,\"features\":['')"

definition epilogue :: "export_format \<Rightarrow> jsstring" where
  "epilogue fmt = (if fmt = Csv then [] else js '']}'')"

section \<open>Pages\<close>

definition CHUNK_ROWS :: nat where
  "CHUNK_ROWS = 250"

definition row_key :: "inventory_row \<Rightarrow> nat list \<times> int" where
  "row_key r = (code_points (iv_number r), iv_id r)"

definition readChunk :: "(inventory_row \<Rightarrow> bool) \<Rightarrow> inventory_row list \<Rightarrow> (nat list \<times> int) option \<Rightarrow> inventory_row list" where
  "readChunk filt table after =
     take CHUNK_ROWS (sort_key row_key (filter (\<lambda>r. filt r \<and> (case after of None \<Rightarrow> True | Some k \<Rightarrow> k < row_key r)) table))"

text \<open>
  The outside world of one export: whether the client is found disconnected when it is checked before
  the row of a number, whether the query for the page of a number fails, and whether \<^verbatim>\<open>COMMIT\<close> does.
\<close>

record export_io =
  ex_gone :: "nat \<Rightarrow> bool"
  ex_page :: "nat \<Rightarrow> bool"
  ex_commit :: bool

text \<open>Writing the rows of a page; the flag says that the client is gone.\<close>

fun write_page :: "import_env \<Rightarrow> export_io \<Rightarrow> export_format \<Rightarrow> nat \<Rightarrow> inventory_row list \<Rightarrow> jsstring \<times> bool" where
  "write_page env io fmt n [] = ([], ex_gone io n)"
| "write_page env io fmt n (r # rows) =
     (if ex_gone io n then ([], True)
      else (case write_page env io fmt (Suc n) rows of (text1, gone) \<Rightarrow> (item_text env fmt (n = 0) r @ text1, gone)))"

datatype export_end = Ended | Disconnected | Destroyed

lemma chunk_filter: "set (readChunk filt table l) \<subseteq> {r \<in> set table. filt r \<and> (case l of None \<Rightarrow> True | Some k \<Rightarrow> k < row_key r)}"
  by (auto simp: readChunk_def dest!: in_set_takeD)

definition remaining :: "(inventory_row \<Rightarrow> bool) \<Rightarrow> inventory_row list \<Rightarrow> (nat list \<times> int) option \<Rightarrow> inventory_row list" where
  "remaining filt table l = filter (\<lambda>r. filt r \<and> (case l of None \<Rightarrow> True | Some k \<Rightarrow> k < row_key r)) table"

lemma remaining_after:
  assumes "r \<in> set (remaining filt table l)"
  shows "length (remaining filt table (Some (row_key r))) < length (remaining filt table l)"
proof -
  have "filter (\<lambda>x. filt x \<and> row_key r < row_key x) (remaining filt table l) = remaining filt table (Some (row_key r))"
    using assms by (auto simp: remaining_def intro!: filter_cong split: option.splits)
  moreover have "length (filter (\<lambda>x. filt x \<and> row_key r < row_key x) (remaining filt table l)) < length (remaining filt table l)"
    by (rule length_filter_less [OF assms]) simp
  ultimately show ?thesis by simp
qed

lemma last_chunk_remaining:
  assumes "CHUNK_ROWS \<le> length (readChunk filt table l)"
  shows "last (readChunk filt table l) \<in> set (remaining filt table l)"
proof -
  have "readChunk filt table l \<noteq> []" using assms by (auto simp: CHUNK_ROWS_def)
  from last_in_set [OF this] chunk_filter [of filt table l] show ?thesis by (auto simp: remaining_def)
qed

text \<open>The loop over the pages: \<open>p\<close> pages and \<open>n\<close> rows were read before.\<close>

function export_pages :: "import_env \<Rightarrow> export_io \<Rightarrow> export_format \<Rightarrow> (inventory_row \<Rightarrow> bool) \<Rightarrow> inventory_row list \<Rightarrow>
    (nat list \<times> int) option \<Rightarrow> nat \<Rightarrow> nat \<Rightarrow> jsstring \<times> export_end" where
  "export_pages env io fmt filt table l p n =
     (if ex_page io p then ([], Destroyed)
      else
        (let chunk = readChunk filt table l in
         case write_page env io fmt n chunk of
           (text1, gone) \<Rightarrow>
             if gone then (text1, Disconnected)
             else if length chunk < CHUNK_ROWS then (text1, Ended)
             else (case export_pages env io fmt filt table (Some (row_key (last chunk))) (Suc p) (n + length chunk) of
                     (text2, e) \<Rightarrow> (text1 @ text2, e))))"
  by pat_completeness auto
termination
  by (relation "measure (\<lambda>(env, io, fmt, filt, table, l, p, n). length (remaining filt table l))")
    (auto intro!: remaining_after last_chunk_remaining)

declare export_pages.simps [simp del]

definition streamStreetLightsExport :: "import_env \<Rightarrow> match_env \<Rightarrow> export_io \<Rightarrow> export_format \<Rightarrow> light_filters \<Rightarrow> inventory_row list \<Rightarrow>
    (jsstring \<times> export_end) option" where
  "streamStreetLightsExport env ma io fmt f table =
     (case buildStreetLightFilters ma f of
        None \<Rightarrow> None
      | Some filt \<Rightarrow>
          if ex_page io 0 then None
          else
            Some (case export_pages env io fmt filt table None 0 0 of
               (text1, Ended) \<Rightarrow>
                 if ex_commit io then (prologue fmt @ text1 @ epilogue fmt, Ended) else (prologue fmt @ text1 @ epilogue fmt, Destroyed)
             | (text1, e) \<Rightarrow> (prologue fmt @ text1, e)))"

section \<open>The pieces of a string\<close>

lemma json_escape_append:
  "a = [] \<or> b = [] \<or> \<not> (high_surrogate (last a) \<and> low_surrogate (hd b)) \<Longrightarrow> json_escape (a @ b) = json_escape a @ json_escape b"
proof (induction a rule: json_escape.induct)
  case (2 c)
  then show ?case by (cases b) auto
next
  case (3 c d s)
  show ?case
  proof (cases "high_surrogate c \<and> low_surrogate d")
    case True
    then have "s = [] \<or> b = [] \<or> \<not> (high_surrogate (last s) \<and> low_surrogate (hd b))" using 3(3) by auto
    then show ?thesis using True 3(1) by simp
  next
    case False
    have "json_escape ((d # s) @ b) = json_escape (d # s) @ json_escape b"
      by (rule 3(2) [OF False]) (use 3(3) in auto)
    then show ?thesis using False by auto
  qed
qed simp

lemma json_cut_safe:
  assumes "json_cut s < length s"
  shows "\<not> (high_surrogate (last (take (json_cut s) s)) \<and> low_surrogate (hd (drop (json_cut s) s)))"
proof -
  have "take (json_cut s) s \<noteq> []" using assms json_cut_pos [of s] by auto
  then have "last (take (json_cut s) s) = s ! (json_cut s - 1)"
    using assms json_cut_pos [of s] by (simp add: last_conv_nth min_def)
  moreover have "hd (drop (json_cut s) s) = s ! json_cut s" using assms by (simp add: hd_drop_conv_nth)
  ultimately have l: "last (take (json_cut s) s) = s ! (json_cut s - 1)" "hd (drop (json_cut s) s) = s ! json_cut s" .
  have d: "high_surrogate c \<Longrightarrow> \<not> low_surrogate c" for c
    by (simp add: high_surrogate_def low_surrogate_def)
  show ?thesis
  proof (cases "json_cut s = WRITE_CHARS")
    case True
    then show ?thesis using assms d unfolding l by (auto simp: json_cut_def split: if_splits)
  next
    case False
    then have "json_cut s = WRITE_CHARS - 1" "high_surrogate (s ! (WRITE_CHARS - 1))"
      by (auto simp: json_cut_def split: if_splits)
    then show ?thesis using d unfolding l by simp
  qed
qed

lemma json_pieces_escape: "json_pieces s = json_escape s"
proof (induction s rule: json_pieces.induct)
  case (1 s)
  show ?case
  proof (cases "s = []")
    case True
    then show ?thesis by (simp add: json_pieces.simps)
  next
    case False
    have "json_pieces s = json_escape (take (json_cut s) s) @ json_escape (drop (json_cut s) s)"
      using False 1 by (simp add: json_pieces.simps [of s])
    also have "\<dots> = json_escape (take (json_cut s) s @ drop (json_cut s) s)"
      by (rule json_escape_append [symmetric]) (use json_cut_safe [of s] in \<open>cases "json_cut s < length s"; auto\<close>)
    finally show ?thesis by simp
  qed
qed

lemma writeJsonString_eq: "writeJsonString s = json_string s"
  by (simp add: writeJsonString_def json_string_def json_pieces_escape)

section \<open>An export that ends is complete\<close>

text \<open>The text of rows that follow \<open>n\<close> others.\<close>

fun items_text :: "import_env \<Rightarrow> export_format \<Rightarrow> nat \<Rightarrow> inventory_row list \<Rightarrow> jsstring" where
  "items_text env fmt n [] = []"
| "items_text env fmt n (r # rows) = item_text env fmt (n = 0) r @ items_text env fmt (Suc n) rows"

lemma items_text_append: "items_text env fmt n (xs @ ys) = items_text env fmt n xs @ items_text env fmt (n + length xs) ys"
  by (induction xs arbitrary: n) auto

lemma items_text_csv: "items_text env Csv n rows = concat (map (\<lambda>r. writeCsvRow (map (csv_text env \<circ> snd) (itemFields r))) rows)"
  by (induction rows arbitrary: n) (simp_all add: item_text_def)

lemma write_page_items: "write_page env io fmt n rows = (text1, False) \<Longrightarrow> text1 = items_text env fmt n rows"
  by (induction rows arbitrary: n text1) (auto split: if_splits prod.splits)

lemma sorted_after:
  fixes f :: "'a \<Rightarrow> 'k :: linorder"
  assumes "sorted_wrt (\<lambda>a b. f a < f b) xs" "xs = ys @ y # zs"
  shows "filter (\<lambda>x. f y < f x) xs = zs"
proof -
  have "\<forall>x \<in> set ys. f x < f y" "\<forall>x \<in> set zs. f y < f x"
    using assms by (auto simp: sorted_wrt_append)
  then have "filter (\<lambda>x. f y < f x) ys = []" "filter (\<lambda>x. f y < f x) zs = zs"
    by (auto simp: filter_empty_conv not_less dest: less_imp_le)
  then show ?thesis using assms(2) by simp
qed

lemma strictly_sorted_key:
  fixes f :: "'a \<Rightarrow> 'k :: linorder"
  assumes "distinct (map f xs)"
  shows "sorted_wrt (\<lambda>a b. f a < f b) (sort_key f xs)"
proof -
  have "distinct (map f (sort_key f xs))"
    using assms distinct_map [of f xs] distinct_map [of f "sort_key f xs"] by simp
  then have "sorted_wrt (<) (map f (sort_key f xs))" by (simp add: strict_sorted_iff)
  then show ?thesis by (simp add: sorted_wrt_map)
qed

lemma readChunk_eq: "readChunk filt table l = take CHUNK_ROWS (sort_key row_key (remaining filt table l))"
  by (simp add: readChunk_def remaining_def)

lemma next_remaining:
  assumes keys: "distinct (map row_key table)" and full: "\<not> length (readChunk filt table l) < CHUNK_ROWS"
  shows "sort_key row_key (remaining filt table (Some (row_key (last (readChunk filt table l))))) =
     drop CHUNK_ROWS (sort_key row_key (remaining filt table l))"
proof -
  define S where "S = sort_key row_key (remaining filt table l)"
  define c where "c = readChunk filt table l"
  have c: "c = take CHUNK_ROWS S" by (simp add: c_def S_def readChunk_eq)
  have "c \<noteq> []" using full by (auto simp: c_def CHUNK_ROWS_def)
  then have S: "S = butlast c @ last c # drop CHUNK_ROWS S" using c by (metis append_butlast_last_id append_Cons append_Nil append_assoc append_take_drop_id)
  have "distinct (map row_key (remaining filt table l))" unfolding remaining_def by (rule distinct_map_filter [OF keys])
  then have "sorted_wrt (\<lambda>a b. row_key a < row_key b) S" unfolding S_def by (rule strictly_sorted_key)
  from sorted_after [OF this S] have f: "filter (\<lambda>x. row_key (last c) < row_key x) S = drop CHUNK_ROWS S" .
  have m: "last c \<in> set (remaining filt table l)"
    unfolding c_def by (rule last_chunk_remaining) (use full in simp)
  have "filter (\<lambda>x. row_key (last c) < row_key x) (remaining filt table l) = remaining filt table (Some (row_key (last c)))"
    using m by (auto simp: remaining_def intro!: filter_cong split: option.splits)
  then show ?thesis using f unfolding S_def c_def by (simp add: filter_sort)
qed

lemma export_pages_complete:
  assumes keys: "distinct (map row_key table)" and "export_pages env io fmt filt table l p n = (text1, Ended)"
  shows "text1 = items_text env fmt n (sort_key row_key (remaining filt table l))"
  using assms
proof (induction env io fmt filt table l p n arbitrary: text1 rule: export_pages.induct)
  case (1 env io fmt filt table l p n)
  define c where "c = readChunk filt table l"
  define S where "S = sort_key row_key (remaining filt table l)"
  have c: "c = take CHUNK_ROWS S" by (simp add: c_def S_def readChunk_eq)
  have np: "\<not> ex_page io p" using 1(3) by (auto simp: export_pages.simps [of env io fmt filt table l p n] split: if_splits)
  obtain t1 gone where w: "write_page env io fmt n c = (t1, gone)" by force
  have ng: "\<not> gone" using 1(3) np w
    by (auto simp: export_pages.simps [of env io fmt filt table l p n] c_def [symmetric] Let_def split: if_splits)
  have t1: "t1 = items_text env fmt n c" using w ng write_page_items by simp
  show ?case
  proof (cases "length c < CHUNK_ROWS")
    case True
    then have "c = S" using c by (metis length_take min_less_iff_conj not_less order_less_irrefl take_all)
    moreover have "text1 = t1" using 1(3) np w ng True
      by (simp add: export_pages.simps [of env io fmt filt table l p n] c_def [symmetric] Let_def)
    ultimately show ?thesis using t1 S_def by simp
  next
    case False
    obtain t2 where r: "export_pages env io fmt filt table (Some (row_key (last c))) (Suc p) (n + length c) = (t2, Ended)"
        and t: "text1 = t1 @ t2"
      using 1(3) np w ng False
      by (auto simp: export_pages.simps [of env io fmt filt table l p n] c_def [symmetric] Let_def split: prod.splits)
    have "t2 = items_text env fmt (n + length c) (sort_key row_key (remaining filt table (Some (row_key (last c)))))"
      by (rule 1(1) [OF np c_def w [unfolded c_def, symmetric, folded c_def] _ _ 1(2)]) (use ng False r in simp_all)
    then have "t2 = items_text env fmt (n + length c) (drop CHUNK_ROWS S)"
      using next_remaining [of table filt l] 1(2) False unfolding c_def S_def by simp
    then have "text1 = items_text env fmt n (c @ drop CHUNK_ROWS S)" using t t1 by (simp add: items_text_append)
    then show ?thesis using c S_def by simp
  qed
qed

section \<open>A CSV export reads back\<close>

definition COLUMNS :: "string list" where
  "COLUMNS = [''id'', ''inventory_number'', ''external_id'', ''longitude'', ''latitude'', ''address'', ''district'', ''lamp_type'',
     ''status'', ''created_at'', ''updated_at'']"

declare js_eq [simp]

lemma js_trim_name: "k \<in> set COLUMNS \<Longrightarrow> js_trim (js k) = js k"
  unfolding js_trim_def
  by (rule trim_both_trimmed) (auto simp: COLUMNS_def trimmed_def js_def js_ws_def)

lemma header_row: "CSV_HEADER = writeCsvRow (map (Some \<circ> js) COLUMNS)"
  by (simp add: COLUMNS_def CSV_HEADER_def writeCsvRow_def writeCsvField_text needs_quotes_def js_def)

text \<open>Empty texts come back as \<^verbatim>\<open>null\<close>, and the negative zero as zero; nothing else is lost.\<close>

definition nonempty_text :: "jsstring option \<Rightarrow> jsstring option" where
  "nonempty_text v = (if v = Some [] then None else v)"

definition read_row :: "nat \<Rightarrow> inventory_row \<Rightarrow> parsed_row" where
  "read_row i r =
     \<lparr>pr_index = i, pr_number = iv_number r,
      pr_payload = Some \<lparr>ip_number = iv_number r, ip_external = Some (nonempty_text (iv_external r)),
        ip_latitude = no_negative_zero (iv_latitude r), ip_longitude = no_negative_zero (iv_longitude r),
        ip_address = Some (nonempty_text (iv_address r)), ip_district = Some (nonempty_text (iv_district r)),
        ip_lamp = Some (nonempty_text (iv_lamp r)), ip_status = Some (iv_status r)\<rparr>,
      pr_code = None, pr_duplicate = None\<rparr>"

definition number_reads :: "import_env \<Rightarrow> js_number \<Rightarrow> bool" where
  "number_reads env n \<longleftrightarrow> im_number env (im_text env n) = no_negative_zero n \<and> js_trim (im_text env n) \<noteq> []"

definition row_reads :: "import_env \<Rightarrow> inventory_row \<Rightarrow> bool" where
  "row_reads env r \<longleftrightarrow>
     number_reads env (iv_latitude r) \<and> number_reads env (iv_longitude r) \<and> light_point_error (im_nfc env) r = None"

lemma num_value_zero [simp]: "num_value (no_negative_zero n) = num_value n"
  by (cases n) auto

lemma valid_coordinates_zero [simp]: "valid_coordinates (no_negative_zero a) (no_negative_zero b) = valid_coordinates a b"
  by (simp add: valid_coordinates_def in_range_def)

lemma field_reads: "asOptionalText env (JStr (field_of v)) = Some (nonempty_text v)"
  by (cases v) (auto simp: asOptionalText_def field_of_def nonempty_text_def)

lemma record_reads:
  assumes "row_reads env r"
  defines "v \<equiv> JObj (zip (map js COLUMNS) (map (JStr \<circ> field_of \<circ> csv_text env \<circ> snd) (itemFields r)))"
  shows "firstOwn v [''inventory_number'', ''inventoryNumber''] = Some (JStr (iv_number r))"
    "firstOwn v [''external_id'', ''externalId''] = Some (JStr (field_of (iv_external r)))"
    "firstOwn v [''longitude'', ''lon'', ''lng''] = Some (JStr (im_text env (iv_longitude r)))"
    "firstOwn v [''latitude'', ''lat''] = Some (JStr (im_text env (iv_latitude r)))"
    "firstOwn v [''address''] = Some (JStr (field_of (iv_address r)))"
    "firstOwn v [''district''] = Some (JStr (field_of (iv_district r)))"
    "firstOwn v [''lamp_type'', ''lampType''] = Some (JStr (field_of (iv_lamp r)))"
    "firstOwn v [''status''] = Some (JStr (status_text (iv_status r)))"
    "isRecord v"
  unfolding v_def
  by (simp_all add: firstOwn_def has_own_def js_get_def props_def COLUMNS_def itemFields_def csv_text_def field_of_def isRecord_def)

lemma csv_row_reads:
  assumes "row_reads env r"
  shows "csv_row env (map js COLUMNS) i (map (field_of \<circ> csv_text env \<circ> snd) (itemFields r)) = read_row i r"
proof -
  have l: "length (itemFields r) = length COLUMNS" by (simp add: itemFields_def COLUMNS_def)
  have ok: "iv_number r \<noteq> []" "canonicalizeInventoryNumber (im_nfc env) (iv_number r) = iv_number r"
      "valid_coordinates (iv_latitude r) (iv_longitude r)"
    using assms by (auto simp: row_reads_def light_point_error_def isCanonicalInventoryNumber_def split: if_splits)
  have fin: "is_finite_number (JNum (no_negative_zero (iv_latitude r)))" "is_finite_number (JNum (no_negative_zero (iv_longitude r)))"
    using valid_coordinates_finite [OF ok(3)] by (simp_all add: is_finite_number_def)
  have n: "parseNumber env (JStr (im_text env (iv_latitude r))) = Some (no_negative_zero (iv_latitude r))"
      "parseNumber env (JStr (im_text env (iv_longitude r))) = Some (no_negative_zero (iv_longitude r))"
    using assms fin by (simp_all add: row_reads_def number_reads_def parseNumber_def)
  show ?thesis
    using ok n record_reads [OF assms] l
    by (simp add: csv_row_def parseRecord_def position_input_def text_input_def status_input_def field_reads read_row_def
        error_row_def comp_assoc Let_def)
qed

lemma csv_export_reads:
  assumes rows: "rows \<noteq> []" "length rows \<le> MAX_IMPORT_ROWS" "\<And>r. r \<in> set rows \<Longrightarrow> row_reads env r"
  shows "parseCsv env (CSV_HEADER @ items_text env Csv n rows) = Inr (map2 read_row (row_numbers (length rows)) rows)"
proof -
  define lines where "lines = map (Some \<circ> js) COLUMNS # map (\<lambda>r. map (csv_text env \<circ> snd) (itemFields r)) rows"
  have "parseCsvRecords (concat (map writeCsvRow lines)) = Inr (map (map field_of) lines)"
    by (rule read_rows) (auto simp: lines_def COLUMNS_def itemFields_def)
  then have "parseCsvRecords (CSV_HEADER @ items_text env Csv n rows) = Inr (map (map field_of) lines)"
    by (simp add: items_text_csv header_row lines_def comp_def)
  moreover have "strip_bom (CSV_HEADER @ s) = CSV_HEADER @ s" for s
    by (simp add: strip_bom_def CSV_HEADER_def js_def)
  moreover have h: "map js_trim (hd (map (map field_of) lines)) = map js COLUMNS"
    by (auto simp: lines_def field_of_def js_trim_name)
  moreover have "distinct (map js COLUMNS)" by (simp add: COLUMNS_def)
  moreover have "find_header (map js COLUMNS) [''inventory_number'', ''inventoryNumber'']"
      "find_header (map js COLUMNS) [''latitude'', ''lat'']" "find_header (map js COLUMNS) [''longitude'', ''lon'', ''lng'']"
    by (simp_all add: find_header_def COLUMNS_def)
  moreover have "map (map field_of) (map (\<lambda>r. map (csv_text env \<circ> snd) (itemFields r)) rows) =
      map (\<lambda>r. map (field_of \<circ> csv_text env \<circ> snd) (itemFields r)) rows"
    by simp
  moreover have "map2 (csv_row env (map js COLUMNS)) (row_numbers (length rows)) (map (\<lambda>r. map (field_of \<circ> csv_text env \<circ> snd) (itemFields r)) rows)
      = map2 read_row (row_numbers (length rows)) rows"
    using rows(3) by (auto simp: zip_map2 csv_row_reads dest!: set_zip_rightD)
  ultimately show ?thesis using rows(1,2)
    by (simp add: parseCsv_def Let_def lines_def comp_def COLUMNS_def [symmetric] del: map_map)
qed

end
