(* ===== verification/ImportRestore.thy ===== *)
theory ImportRestore
  imports ImportEquivalence InventoryExport
begin

text \<open>
  An exported inventory imported into an empty system: the CSV text is read, previewed, confirmed, claimed
  and processed, each by the operation of its own component.
\<close>

section \<open>What an export keeps of a light point\<close>

definition portable :: "inventory_row \<Rightarrow> inventory_row" where
  "portable r = r\<lparr>iv_id := 0, iv_external := nonempty_text (iv_external r), iv_longitude := no_negative_zero (iv_longitude r),
     iv_latitude := no_negative_zero (iv_latitude r), iv_address := nonempty_text (iv_address r),
     iv_district := nonempty_text (iv_district r), iv_lamp := nonempty_text (iv_lamp r), iv_created := 0, iv_updated := 0\<rparr>"

definition imported :: "inventory_row \<Rightarrow> import_payload" where
  "imported r = \<lparr>ip_number = iv_number r, ip_external = Some (nonempty_text (iv_external r)),
     ip_latitude = no_negative_zero (iv_latitude r), ip_longitude = no_negative_zero (iv_longitude r),
     ip_address = Some (nonempty_text (iv_address r)), ip_district = Some (nonempty_text (iv_district r)),
     ip_lamp = Some (nonempty_text (iv_lamp r)), ip_status = Some (iv_status r)\<rparr>"

lemma read_row_fields [simp]:
  "pr_index (read_row i r) = i" "pr_number (read_row i r) = iv_number r" "pr_payload (read_row i r) = Some (imported r)"
  "pr_code (read_row i r) = None"
  by (simp_all add: read_row_def imported_def)

lemma negative_zero_idem [simp]: "no_negative_zero (no_negative_zero n) = no_negative_zero n"
  by (cases n) simp_all

lemma stored_imported [simp]: "stored_payload (imported r) = imported r"
  by (simp add: stored_payload_def imported_def)

lemma nonempty_idem [simp]: "nonempty_text (nonempty_text v) = nonempty_text v"
  by (simp add: nonempty_text_def)

lemma new_imported: "portable (new_light t i (imported r)) = portable r"
  by (simp add: portable_def new_light_def imported_def)

lemma portable_untimed [simp]: "portable (untimed l) = portable l"
  by (simp add: portable_def untimed_def)

lemma too_long_nonempty: "\<not> too_long n v \<Longrightarrow> \<not> too_long n (nonempty_text v)"
  by (simp add: too_long_def nonempty_text_def)

lemma imported_fits:
  assumes "row_reads env r"
  shows "effect_error (im_nfc env) upd [] (imported r) = None"
proof -
  have "light_point_error (im_nfc env) r = None" using assms by (simp add: row_reads_def)
  then have "light_point_error (im_nfc env) (new_light 0 0 (imported r)) = None"
    using too_long_nonempty by (auto simp: light_point_error_def new_light_def imported_def split: if_splits)
  then show ?thesis by (simp add: effect_error_def row_effect_def find_light_def)
qed

section \<open>The preview of distinct rows\<close>

lemma filter_single: "distinct (map f xs) \<Longrightarrow> x \<in> set xs \<Longrightarrow> filter (\<lambda>y. f y = f x) xs = [x]"
proof (induction xs)
  case (Cons y ys)
  show ?case
  proof (cases "x = y")
    case True
    then have "filter (\<lambda>z. f z = f x) ys = []" using Cons.prems(1) by (auto simp: filter_empty_conv image_iff)
    then show ?thesis using True by simp
  next
    case False
    then show ?thesis using Cons by (auto simp: image_iff)
  qed
qed simp

definition read_rows_of :: "inventory_row list \<Rightarrow> parsed_row list" where
  "read_rows_of rows = map2 read_row (row_numbers (length rows)) rows"

lemma read_rows_of_fields:
  "map pr_number (read_rows_of rows) = map iv_number rows" "map pr_index (read_rows_of rows) = row_numbers (length rows)"
  "map pr_payload (read_rows_of rows) = map (Some \<circ> imported) rows" "length (read_rows_of rows) = length rows"
proof -
  have *: "map pr_number (map2 read_row ns xs) = map iv_number xs \<and> map pr_index (map2 read_row ns xs) = ns \<and>
      map pr_payload (map2 read_row ns xs) = map (Some \<circ> imported) xs" if "length ns = length xs" for ns and xs :: "inventory_row list"
    using that by (induction ns xs rule: list_induct2) simp_all
  from * [of "row_numbers (length rows)" rows]
  show "map pr_number (read_rows_of rows) = map iv_number rows" "map pr_index (read_rows_of rows) = row_numbers (length rows)"
    "map pr_payload (read_rows_of rows) = map (Some \<circ> imported) rows"
    by (simp_all add: read_rows_of_def)
  show "length (read_rows_of rows) = length rows" by (simp add: read_rows_of_def)
qed

lemma preview_pending_row:
  fixes b
  assumes r: "r \<in> set (read_rows_of rows)" and d: "distinct (map iv_number rows)" and ne: "\<forall>r \<in> set rows. iv_number r \<noteq> []"
  defines "p \<equiv> preview_row b (duplicate_conflicts (read_rows_of rows)) (duplicate_skips (read_rows_of rows)) [] r"
  shows "ir_outcome p = Pending" "ir_payload p = pr_payload r" "ir_batch p = b" "ir_source p = pr_index r"
proof -
  from r obtain i x where ix: "r = read_row i x" "x \<in> set rows" by (auto simp: read_rows_of_def dest: set_zip_rightD)
  have "distinct (map pr_index (read_rows_of rows))" by (simp add: read_rows_of_fields)
  moreover have "filter (\<lambda>q. pr_number q = pr_number r) (read_rows_of rows) = [r]"
    by (rule filter_single [OF _ r]) (simp add: read_rows_of_fields d)
  ultimately have "pr_index r \<notin> set (duplicate_conflicts (read_rows_of rows))" "pr_index r \<notin> set (duplicate_skips (read_rows_of rows))"
    using single_row_pending [OF r, of "imported x"] ix ne by simp_all
  then show "ir_outcome p = Pending" "ir_payload p = pr_payload r" "ir_batch p = b" "ir_source p = pr_index r"
    by (simp_all add: p_def preview_row_def ix(1) Let_def)
qed

lemma preview_all_pending:
  fixes b
  assumes "distinct (map iv_number rows)" "\<forall>r \<in> set rows. iv_number r \<noteq> []"
  defines "ps \<equiv> preview_rows b [] (read_rows_of rows)"
  shows "filter (\<lambda>r. ir_outcome r = Pending) ps = ps" "map row_payload ps = map imported rows"
    "map ir_source ps = row_numbers (length rows)" "filter (\<lambda>r. ir_batch r = b) ps = ps"
proof -
  note p = preview_pending_row [OF _ assms(1,2), of _ b]
  show "filter (\<lambda>r. ir_outcome r = Pending) ps = ps" "filter (\<lambda>r. ir_batch r = b) ps = ps"
    using p by (auto simp: ps_def preview_rows_def filter_id_conv)
  have "map row_payload ps = map (the \<circ> pr_payload) (read_rows_of rows)"
    using p(2) by (auto simp: ps_def preview_rows_def row_payload_def)
  also have "\<dots> = map the (map pr_payload (read_rows_of rows))" by simp
  also have "\<dots> = map imported rows" unfolding read_rows_of_fields by simp
  finally show "map row_payload ps = map imported rows" .
  have "map ir_source ps = map pr_index (read_rows_of rows)" by (simp add: ps_def preview_rows_def)
  then show "map ir_source ps = row_numbers (length rows)" by (simp add: read_rows_of_fields)
qed

section \<open>An empty system\<close>

definition fresh_db :: import_db where
  "fresh_db = \<lparr>im_batches = [], im_rows = [], im_lights = [], im_events = [], im_next_light = 1, im_next_batch = 1\<rparr>"

lemma fresh_wf: "import_wf fresh_db"
  by (simp add: import_wf_def fresh_db_def rows_ok_def lights_ok_def pending_rows_def rows_of_def)

definition uploaded_db :: "int \<Rightarrow> jsstring \<Rightarrow> int \<Rightarrow> jsstring \<Rightarrow> parsed_row list \<Rightarrow> import_db" where
  "uploaded_db t key admin filename rows = fresh_db\<lparr>im_batches := [preview_batch 1 admin (safeFilename filename) key t (length rows)],
     im_rows := preview_rows 1 [] rows, im_next_batch := 2\<rparr>"

lemma upload_fresh:
  assumes "parseImportSource env bytes mimetype filename = Inr rows" "rows \<noteq> []"
  shows "upload env t key admin filename bytes mimetype NoFault fresh_db = (uploaded_db t key admin filename rows, Inr (Some key))"
proof -
  have "lookup_existing [] ns = []" for ns by (simp add: lookup_existing_def)
  then show ?thesis using assms
    by (simp add: upload_def buildImportPreview_def fresh_db_def uploaded_db_def cleanupExpiredPreviews_def Let_def concat_pieces
        LOOKUP_CHUNK_def preview_rows_def)
qed

text \<open>Confirmed within its fifteen minutes and claimed, the batch is owned and its rows are as they were.\<close>

lemma confirm_and_claim:
  assumes t: "t1 < t + PREVIEW_MINUTES * 60000"
    and c: "confirmImport t1 admin key allow (uploaded_db t key admin filename rows) = (db1, answer)"
    and k: "claimBatch t2 token db1 = (db2, b)"
  shows "answer = Inr (1, Queued, length rows)" "b = Some 1" "\<exists>x. owned 1 token db2 = Some x \<and> ib_update x = allow"
    "im_rows db2 = preview_rows 1 [] rows" "im_lights db2 = []" "im_next_light db2 = 1"
proof -
  let ?db = "uploaded_db t key admin filename rows"
  define x where "x = preview_batch 1 admin (safeFilename filename) key t (length rows)"
  have x: "ib_id x = 1" "ib_admin x = admin" "ib_key x = key" "ib_state x = Preview" "ib_expires x = Some (t + PREVIEW_MINUTES * 60000)"
      "ib_total x = length rows"
    by (simp_all add: x_def preview_batch_def)
  have db: "im_batches ?db = [x]" "im_rows ?db = preview_rows 1 [] rows" "im_lights ?db = []" "im_next_light ?db = 1"
    by (simp_all add: uploaded_db_def x_def fresh_db_def)
  have clean: "cleanupExpiredPreviews t1 ?db = ?db" using t by (simp add: cleanupExpiredPreviews_def db x Let_def)
  define g where "g y = y\<lparr>ib_state := Queued, ib_update := allow, ib_queued := Some t1, ib_expires := None,
      ib_successful := 0, ib_applied := 0, ib_created := 0, ib_updated := 0, ib_unchanged := 0,
      ib_skipped := count_outcome RowSkipped (ib_id x) ?db, ib_failed := count_outcome RowFailed (ib_id x) ?db\<rparr>" for y :: import_batch
  have conf: "db1 = ?db\<lparr>im_batches := [g x]\<rparr> \<and> answer = Inr (1, Queued, length rows)"
    using c t by (auto simp: confirmImport_def clean find_batch_def db x Let_def change_batch_def g_def)
  then show "answer = Inr (1, Queued, length rows)" by simp
  have gx: "ib_id (g x) = 1" "ib_state (g x) = Queued" "ib_update (g x) = allow" "ib_token (g x) = None" by (simp_all add: g_def x x_def preview_batch_def)
  have clean1: "cleanupExpiredPreviews t2 db1 = db1" using conf gx by (simp add: cleanupExpiredPreviews_def Let_def)
  have queued: "requeue t2 db1 = db1" using conf gx by (simp add: requeue_def requeued_def lease_lost_def)
  have waiting: "waiting_batches db1 = [g x]" using conf gx by (simp add: waiting_batches_def)
  have "db2 = change_batch 1 (claimed t2 token) db1 \<and> b = Some 1"
    using k by (auto simp: claimBatch_def clean1 queued waiting gx Let_def)
  then have cl: "db2 = ?db\<lparr>im_batches := [claimed t2 token (g x)]\<rparr> \<and> b = Some 1"
    using conf gx by (simp add: change_batch_def)
  then show "b = Some 1" "im_rows db2 = preview_rows 1 [] rows" "im_lights db2 = []" "im_next_light db2 = 1" by (simp_all add: db)
  show "\<exists>x. owned 1 token db2 = Some x \<and> ib_update x = allow"
    using cl gx by (simp add: owned_def find_batch_def claimed_def)
qed

section \<open>The whole way\<close>

lemma export_ended:
  assumes keys: "distinct (map iv_id table)" and f: "buildStreetLightFilters ma f = Some filt"
    and e: "streamStreetLightsExport env ma io fmt f table = Some (out, Ended)"
  shows "out = prologue fmt @ items_text env fmt 0 (sort_key row_key (filter filt table)) @ epilogue fmt"
proof -
  have d: "distinct (map row_key table)"
    using keys by (auto simp: distinct_map inj_on_def row_key_def)
  obtain text1 g where x: "export_pages env io fmt filt table None 0 0 = (text1, g)" by force
  have ne: "\<not> ex_page io 0"
  proof
    assume "ex_page io 0"
    then show False using e by (simp only: streamStreetLightsExport_def f option.case if_True option.distinct)
  qed
  from e have eq: "(case g of Ended \<Rightarrow> if ex_commit io then (prologue fmt @ text1 @ epilogue fmt, Ended)
        else (prologue fmt @ text1 @ epilogue fmt, Destroyed) | Disconnected \<Rightarrow> (prologue fmt @ text1, Disconnected)
      | Destroyed \<Rightarrow> (prologue fmt @ text1, Destroyed)) = (out, Ended)"
    unfolding streamStreetLightsExport_def f option.case x prod.case if_not_P [OF ne] option.inject .
  have g: "g = Ended" using eq by (cases g) simp_all
  have "out = prologue fmt @ text1 @ epilogue fmt" using eq unfolding g by (cases "ex_commit io") simp_all
  with x g have p: "export_pages env io fmt filt table None 0 0 = (text1, Ended)" "out = prologue fmt @ text1 @ epilogue fmt" by simp_all
  then show ?thesis using export_pages_complete [OF d p(1)] by (simp add: remaining_def)
qed

lemma header_not_blank: "js_trim (CSV_HEADER @ s) \<noteq> []"
proof -
  have ws: "\<not> js_ws 105" by (simp add: js_ws_def)
  obtain zs where z: "CSV_HEADER @ s = 105 # zs" by (simp add: CSV_HEADER_def js_def)
  have "dropWhile js_ws (rev (105 # zs)) \<noteq> []" using ws by (simp only: dropWhile_eq_Nil_conv) (simp del: rev.simps)
  then show ?thesis unfolding js_trim_def trim_both_def z by (simp add: ws)
qed

text \<open>The text of an export is read as its rows.\<close>

lemma export_parsed:
  assumes out: "out = prologue Csv @ items_text env Csv 0 rows @ epilogue Csv" and bytes: "im_utf8 env bytes = out"
    and size: "length bytes \<le> MAX_IMPORT_FILE_BYTES"
    and csv: "\<not> contains_text (js ''json'') mimetype" "\<not> js_ends (js ''.json'') (im_lower env filename)"
      "\<not> js_ends (js ''.geojson'') (im_lower env filename)"
    and rows: "rows \<noteq> []" "length rows \<le> MAX_IMPORT_ROWS" "\<And>r. r \<in> set rows \<Longrightarrow> row_reads env r"
  shows "parseImportSource env bytes mimetype filename = Inr (read_rows_of rows)"
proof -
  have o: "out = CSV_HEADER @ items_text env Csv 0 rows" by (simp add: out prologue_def epilogue_def)
  then have "js_trim out \<noteq> []" using header_not_blank by simp
  then show ?thesis using csv_export_reads [OF rows, of 0] size csv
    by (simp add: parseImportSource_def bytes o read_rows_of_def Let_def)
qed

lemma all_created:
  assumes "length ks = length rs" "\<And>x. x \<in> set rs \<Longrightarrow> \<exists>e s. x = Settled RowCreated e s"
    and "\<And>r. r \<in> set rows \<Longrightarrow> ir_batch r = b \<and> ir_source r \<in> set ks"
  shows "filter (\<lambda>r. ir_outcome r = RowFailed) (settle_with b (zip ks rs) rows) = []"
proof -
  have "ir_outcome (settle_one b (zip ks rs) r) = RowCreated" if r: "r \<in> set rows" for r
  proof -
    obtain x where x: "map_of (zip ks rs) (ir_source r) = Some x"
      using assms(3) [OF r] map_of_zip_is_Some [OF assms(1)] by auto
    then have "(ir_source r, x) \<in> set (zip ks rs)" by (rule map_of_SomeD)
    then have "x \<in> set rs" by (rule set_zip_rightD)
    then show ?thesis using assms(2) assms(3) [OF r] x by (fastforce simp: settle_one_def)
  qed
  then show ?thesis by (auto simp: settle_with_def filter_empty_conv)
qed

text \<open>A claimed batch whose rows are those of an exported inventory.\<close>

lemma imported_batch:
  assumes w: "calm w" and wf: "import_wf db" and o: "owned 1 token db = Some x"
    and db: "im_rows db = preview_rows 1 [] (read_rows_of rows)" "im_lights db = []" "im_next_light db = 1"
    and rows: "distinct (map iv_number rows)" "\<And>r. r \<in> set rows \<Longrightarrow> row_reads env r"
  shows "\<exists>db1 k1. processBatch (im_nfc env) w 1 token (db, k) = Some ((db1, k1), Finished) \<and>
    map portable (im_lights db1) = map portable rows \<and> (\<forall>y \<in> set (im_batches db1). ib_id y = 1 \<longrightarrow> ib_state y = Completed)"
proof -
  let ?ps = "preview_rows 1 [] (read_rows_of rows)"
  have ne: "\<forall>r \<in> set rows. iv_number r \<noteq> []"
  proof
    fix r assume "r \<in> set rows"
    from rows(2) [OF this] show "iv_number r \<noteq> []" by (auto simp: row_reads_def light_point_error_def split: if_splits)
  qed
  note pp = preview_all_pending [OF rows(1) ne, of 1]
  have p: "processing 1 token (ib_update x) db" using wf o by (simp add: processing_def)
  have "sorted (map ir_source ?ps)" by (simp add: pp(3) row_numbers_def del: upt_Suc)
  then have q: "pending_queue 1 db = ?ps"
    by (simp add: pending_queue_def pending_rows_def rows_of_def db(1) pp(1,4) sort_key_id_if_sorted)
  have d: "distinct (map ip_number (map imported rows))" using rows(1) by (simp add: comp_def imported_def)
  have fits: "effect_error (im_nfc env) (ib_update x) [] y = None" if "y \<in> set (map imported rows)" for y
    using that rows(2) imported_fits by auto
  define results where "results = map (group_result (ib_update x) [] (inserted_lights 0 (ib_update x) [] 1 (map imported rows))) (map imported rows)"
  have ref: "import_reference (im_nfc env) (ib_update x) (map row_payload (pending_queue 1 db)) (inventory_of db) =
      Some ((map untimed (group_table 0 (ib_update x) [] 1 (map imported rows)),
        1 + int (length (inserted_lights 0 (ib_update x) [] 1 (map imported rows)))), results)"
    using reference_group [OF d, of "[]" "im_nfc env" "ib_update x" 1 0] fits by (simp add: q pp(2) inventory_of_def db results_def)
  have new: "inserting (ib_update x) [] ps = ps" for ps by (simp add: inserting_def row_effect_def find_light_def)
  have created: "\<exists>e s. y = Settled RowCreated e s" if "y \<in> set results" for y
    using that by (auto simp: results_def group_result_def row_effect_def find_light_def effect_outcome_def)
  have lights: "map portable (map untimed (group_table 0 (ib_update x) [] 1 (map imported rows))) = map portable rows"
  proof -
    have "map portable (map2 (\<lambda>k p. new_light 0 (1 + int k) p) ks (map imported xs)) = map portable xs" if "length ks = length xs" for ks xs
      using that by (induction ks xs rule: list_induct2) (simp_all add: new_imported)
    from this [of "[0..<length rows]" rows] have "map portable (inserted_lights 0 (ib_update x) [] 1 (map imported rows)) = map portable rows"
      using new [of "map imported rows"] by (simp add: inserted_lights_def inserting_def Let_def)
    then show ?thesis by (simp add: group_table_def replaced_table_def comp_def)
  qed
  from processBatch_reference [OF w p, of "im_nfc env" k] show ?thesis
  proof (elim disjE exE conjE)
    fix db1 k1 u n
    assume r: "processBatch (im_nfc env) w 1 token (db, k) = Some ((completeBatch u 1 token db1, k1), Finished)"
      "processing 1 token (ib_update x) db1" "advanced (im_nfc env) (ib_update x) 1 n db db1" "pending_queue 1 db1 = []"
    obtain rs where rs: "import_reference (im_nfc env) (ib_update x) (map row_payload (take n (pending_queue 1 db))) (inventory_of db) = Some (inventory_of db1, rs)"
      "im_rows db1 = settle_with 1 (zip (map ir_source (take n (pending_queue 1 db))) rs) (im_rows db)" "drop n (pending_queue 1 db) = []"
      using r(3,4) by (auto simp: advanced_def)
    have all: "take n (pending_queue 1 db) = pending_queue 1 db" using rs(3) by simp
    have e: "inventory_of db1 = (map untimed (group_table 0 (ib_update x) [] 1 (map imported rows)),
        1 + int (length (inserted_lights 0 (ib_update x) [] 1 (map imported rows))))" "rs = results"
      using rs(1) ref unfolding all by auto
    have "map portable (map untimed (im_lights db1)) = map portable rows" using e(1) lights by (simp add: inventory_of_def)
    then have l: "map portable (im_lights (completeBatch u 1 token db1)) = map portable rows"
      using complete_processing(1) [OF r(2,4), of u] by (simp add: inventory_of_def comp_def) (metis (no_types, lifting) list.map_comp map_eq_conv comp_apply portable_untimed)
    have len: "length (map ir_source ?ps) = length results" by (simp add: results_def preview_rows_def read_rows_of_fields)
    have "filter (\<lambda>r. ir_outcome r = RowFailed) (im_rows db1) = []"
      unfolding rs(2) q all [unfolded q] e(2) db(1)
      by (rule all_created [OF len created]) (use pp(4) in \<open>auto simp: preview_rows_def\<close>)
    then have "count_outcome RowFailed 1 (completeBatch u 1 token db1) = 0"
      using complete_processing(2) [OF r(2,4), of u] by (auto simp: count_outcome_def rows_of_def filter_empty_conv)
    then have "\<forall>y \<in> set (im_batches (completeBatch u 1 token db1)). ib_id y = 1 \<longrightarrow> ib_state y = Completed"
      using complete_processing(3) [OF r(2,4), of _ u] by simp
    then show ?thesis using r(1) l by blast
  next
    assume "batch_reference (im_nfc env) (ib_update x) 1 db = None"
    then show ?thesis using ref by (simp add: batch_reference_def)
  qed
qed

end
