(* ===== verification/ImportProperties.thy ===== *)
theory ImportProperties
  imports ImportRestore
begin

text \<open>The properties of the light-point import and export, each with a concrete instance.\<close>

section \<open>Files\<close>

text \<open>C33. Whatever the bytes of an accepted file, its rows are numbered from one, are at most 50000, and
  each has either an error code or a payload, whose inventory number is the row's, a canonicalized one, and whose
  position is in range.\<close>
theorem parsed_rows_valid:
  assumes "parseImportSource env bytes mimetype name = Inr rows"
  shows "map pr_index rows = [1..<Suc (length rows)] \<and> length rows \<le> 50000 \<and>
    (\<forall>r \<in> set rows. (pr_payload r = None) = (pr_code r \<noteq> None) \<and>
       (\<forall>p. pr_payload r = Some p \<longrightarrow>
          ip_number p = pr_number r \<and> pr_number r \<noteq> [] \<and> (\<exists>s. pr_number r = canonicalizeInventoryNumber (im_nfc env) s) \<and>
          valid_coordinates (ip_latitude p) (ip_longitude p)))"
  using parseImportSource_valid [OF assms]
  by (auto simp: list_all_iff row_valid_def row_numbers_def MAX_IMPORT_ROWS_def simp del: upt_Suc)

text \<open>A small CSV file in an environment with plain decoders: one good row, one bad position, one bad status.\<close>

definition tiny_env :: import_env where
  "tiny_env = \<lparr>im_utf8 = map unat, im_json = (\<lambda>_. None),
     im_number = (\<lambda>s. if s = js ''48'' then Fin 48 else if s = js ''17'' then Fin 17 else NaN),
     im_text = (\<lambda>n. if num_value n = Some 48 then js ''48'' else js ''17''), im_lower = id, im_nfc = id\<rparr>"

definition tiny_file :: buffer where
  "tiny_file = map of_nat (js ''inventory_number,lat,lon,status'' @ [10] @ js ''P1,48,17,active'' @ [10] @
     js ''P2,x,17,active'' @ [10] @ js ''P3,48,17,broken'' @ [10])"

definition tiny_records :: "jsstring list list" where
  "tiny_records = map (map js) [[''inventory_number'', ''lat'', ''lon'', ''status''], [''P1'', ''48'', ''17'', ''active''],
     [''P2'', ''x'', ''17'', ''active''], [''P3'', ''48'', ''17'', ''broken'']]"

lemma tiny_text: "map unat tiny_file = js ''inventory_number,lat,lon,status'' @ [10] @ js ''P1,48,17,active'' @ [10] @
     js ''P2,x,17,active'' @ [10] @ js ''P3,48,17,broken'' @ [10]"
  by (simp add: tiny_file_def js_def)

lemma tiny_parsed: "parseCsvRecords (strip_bom (map unat tiny_file)) = Inr tiny_records"
  unfolding tiny_text
  by (simp add: parseCsvRecords_def strip_bom_def csv_start_def finishCell_def finishRecord_def blank_record_def tiny_records_def
      js_eval)

lemma tiny_trim:
  "canonicalizeInventoryNumber id (js ''P1'') = js ''P1''" "canonicalizeInventoryNumber id (js ''P2'') = js ''P2''"
  "canonicalizeInventoryNumber id (js ''P3'') = js ''P3''" "js_trim (js ''48'') = js ''48''" "js_trim (js ''17'') = js ''17''"
  "js_trim (js ''x'') = js ''x''" "js s \<noteq> [] \<longleftrightarrow> s \<noteq> []" "js s = [] \<longleftrightarrow> s = []"
  "js_trim (js ''inventory_number'') = js ''inventory_number''" "js_trim (js ''lat'') = js ''lat''"
  "js_trim (js ''lon'') = js ''lon''" "js_trim (js ''status'') = js ''status''"
  by (simp_all add: canonicalizeInventoryNumber_def edge_trim_def js_eval)

definition tiny_rows :: "parsed_row list" where
  "tiny_rows = map2 (csv_row tiny_env (map js_trim (hd tiny_records))) (row_numbers 3) (tl tiny_records)"

lemma tiny_rows_codes: "map pr_code tiny_rows = [None, Some (js ''invalid_coordinates''), Some (js ''invalid_status'')]"
    "map pr_number tiny_rows = [js ''P1'', js ''P2'', js ''P3'']"
  by (simp_all add: tiny_rows_def tiny_records_def csv_row_def parseRecord_def position_input_def text_input_def status_input_def error_row_def
      firstOwn_def has_own_def js_get_def props_def isRecord_def parseNumber_def valid_coordinates_def in_range_def is_finite_number_def
      tiny_trim tiny_env_def status_of_text_def status_text_def row_numbers_def upt_rec Let_def)

lemma tiny_source: "parseImportSource tiny_env tiny_file (js ''text/csv'') (js ''a.csv'') = Inr tiny_rows"
proof -
  have "\<not> contains_text (js ''json'') (js ''text/csv'') \<and> \<not> js_ends (js ''.json'') (js ''a.csv'') \<and>
      \<not> js_ends (js ''.geojson'') (js ''a.csv'') \<and> js_trim (map unat tiny_file) \<noteq> []"
    unfolding tiny_text by (simp add: contains_text_def js_ends_def js_eval)
  moreover have "length tiny_file \<le> MAX_IMPORT_FILE_BYTES" by (simp add: tiny_file_def js_def MAX_IMPORT_FILE_BYTES_def)
  moreover have "distinct (map js_trim (hd tiny_records)) \<and> find_header (map js_trim (hd tiny_records)) [''inventory_number'', ''inventoryNumber''] \<and>
      find_header (map js_trim (hd tiny_records)) [''latitude'', ''lat''] \<and> find_header (map js_trim (hd tiny_records)) [''longitude'', ''lon'', ''lng'']"
    by (simp add: tiny_records_def find_header_def js_eval)
  moreover have "length tiny_records = 4" by (simp add: tiny_records_def)
  ultimately show ?thesis
    by (simp add: parseImportSource_def parseCsv_def tiny_rows_def tiny_env_def tiny_parsed [unfolded tiny_env_def] MAX_IMPORT_ROWS_def Let_def)
qed

lemma parsed_rows_valid_witness:
  "map pr_index tiny_rows = [1..<Suc (length tiny_rows)] \<and> map (\<lambda>r. pr_payload r = None) tiny_rows = [False, True, True]"
proof -
  note v = parsed_rows_valid [OF tiny_source]
  have "map (\<lambda>r. pr_payload r = None) tiny_rows = map (\<lambda>c. c \<noteq> None) (map pr_code tiny_rows)"
    unfolding map_map by (rule map_cong [OF refl]) (use v in auto)
  then show ?thesis using v tiny_rows_codes(1) by simp
qed

text \<open>The JSON export is read as one record, which has no inventory number.\<close>

lemma json_export_one_bad_row:
  assumes "im_json env text1 = Some (JObj [(js ''schemaVersion'', v), (js ''items'', JArr items)])" "im_nfc env [] = []"
  shows "parseJson env text1 = Inr [error_row 1 [] ''missing_inventory_number'']"
proof -
  have "canonicalizeInventoryNumber (im_nfc env) [] = im_nfc env []" by (simp add: canonicalizeInventoryNumber_def trim_both_def)
  then show ?thesis using assms
    by (simp add: parseJson_def has_own_def props_def parseRecord_def isRecord_def firstOwn_def)
qed

section \<open>Previews\<close>

text \<open>In the preview of an accepted file two rows with one inventory number are never both pending,
  and a row that has no error and whose number occurs once is pending with its payload.\<close>
theorem preview_settles_duplicates:
  fixes b existing
  assumes "parseImportSource env bytes mimetype name = Inr rows"
  defines "p \<equiv> preview_row b (duplicate_conflicts rows) (duplicate_skips rows) existing"
  shows "(\<forall>r \<in> set rows. \<forall>q \<in> set rows. r \<noteq> q \<and> pr_number r = pr_number q \<longrightarrow>
       ir_outcome (p r) \<noteq> Pending \<or> ir_outcome (p q) \<noteq> Pending) \<and>
    (\<forall>r \<in> set rows. pr_code r = None \<and> filter (\<lambda>q. pr_number q = pr_number r) rows = [r] \<longrightarrow>
       ir_outcome (p r) = Pending \<and> ir_payload (p r) = map_option stored_payload (pr_payload r))"
proof (intro conjI ballI impI)
  note v = parseImportSource_valid [OF assms(1)]
  then have valid: "row_valid env r" if "r \<in> set rows" for r using that by (simp add: list_all_iff)
  have index: "distinct (map pr_index rows)" using v by simp
  fix r assume r: "r \<in> set rows"
  show "ir_outcome (p r) \<noteq> Pending \<or> ir_outcome (p q) \<noteq> Pending" if q: "q \<in> set rows" and n: "r \<noteq> q \<and> pr_number r = pr_number q" for q
  proof (rule ccontr)
    assume "\<not> (ir_outcome (p r) \<noteq> Pending \<or> ir_outcome (p q) \<noteq> Pending)"
    then have pp: "ir_outcome (p r) = Pending" "ir_outcome (p q) = Pending" by simp_all
    note a = preview_pending [OF pp(1) [unfolded p_def]] and c = preview_pending [OF pp(2) [unfolded p_def]]
    have "pr_number r \<noteq> []" using a(3) valid [OF r] by (auto simp: row_valid_def)
    from duplicates_settled [OF r q this conjunct2 [OF n, symmetric] conjunct1 [OF n]] show False using a(1,2) c(1,2) by blast
  qed
  assume u: "pr_code r = None \<and> filter (\<lambda>q. pr_number q = pr_number r) rows = [r]"
  then obtain x where x: "pr_payload r = Some x" "pr_number r \<noteq> []" using valid [OF r] by (auto simp: row_valid_def split: option.splits)
  from single_row_pending [OF r x(1) conjunct1 [OF u] x(2) index conjunct2 [OF u]]
  show "ir_outcome (p r) = Pending" "ir_payload (p r) = map_option stored_payload (pr_payload r)"
    using u x by (auto simp: p_def preview_row_def Let_def)
qed

section \<open>Runs\<close>

lemma outcomes_partition:
  "length (rows_of b db) = length (pending_rows b db) + count_outcome RowCreated b db + count_outcome RowUpdated b db +
     count_outcome RowUnchanged b db + count_outcome RowSkipped b db + count_outcome RowFailed b db"
proof -
  have "length rows = length (filter (\<lambda>r. ir_outcome r = Pending) rows) + length (filter (\<lambda>r. ir_outcome r = RowCreated) rows) +
      length (filter (\<lambda>r. ir_outcome r = RowUpdated) rows) + length (filter (\<lambda>r. ir_outcome r = RowUnchanged) rows) +
      length (filter (\<lambda>r. ir_outcome r = RowSkipped) rows) + length (filter (\<lambda>r. ir_outcome r = RowFailed) rows)" for rows
  proof (induction rows)
    case (Cons r rows)
    then show ?case by (cases "ir_outcome r") simp_all
  qed simp
  then show ?thesis by (simp add: pending_rows_def count_outcome_def)
qed

text \<open>C30. Starting without imports and from any inventory, over every sequence of uploads, confirmations,
  worker statements and other inventory changes: the counters of a batch are the numbers of its rows with
  each outcome, the applied rows are its audit events, a completed batch has no pending row, accounts
  for every row as successful, skipped or failed and reports errors exactly when one failed, one batch at most is being processed, and inventory numbers and row
  keys stay unique.\<close>
theorem import_state_sound:
  assumes "lights_ok db0" "im_batches db0 = []" "im_rows db0 = []" "im_events db0 = []"
    and "run_log (import_step env) db0 es = (l, db)"
  shows "(\<forall>x \<in> set (im_batches db).
       ib_applied x = length (filter (\<lambda>e. ae_batch e = ib_id x) (im_events db)) \<and> ib_total x = length (rows_of (ib_id x) db) \<and>
       ib_created x = count_outcome RowCreated (ib_id x) db \<and> ib_updated x = count_outcome RowUpdated (ib_id x) db \<and>
       ib_unchanged x = count_outcome RowUnchanged (ib_id x) db \<and>
       (ib_state x \<noteq> Preview \<longrightarrow> ib_skipped x = count_outcome RowSkipped (ib_id x) db \<and> ib_failed x = count_outcome RowFailed (ib_id x) db) \<and>
       (ib_state x \<in> {Completed, CompletedWithErrors} \<longrightarrow>
          pending_rows (ib_id x) db = [] \<and> (ib_state x = Completed) = (count_outcome RowFailed (ib_id x) db = 0) \<and>
          ib_successful x = ib_created x + ib_updated x + ib_unchanged x \<and> ib_total x = ib_successful x + ib_skipped x + ib_failed x)) \<and>
    length (filter (\<lambda>x. ib_state x = Processing) (im_batches db)) \<le> 1 \<and>
    distinct (map iv_number (im_lights db)) \<and> distinct (map (\<lambda>r. (ir_batch r, ir_source r)) (im_rows db))"
proof -
  have "import_wf db0" using assms(1-4) by (simp add: import_wf_def rows_ok_def pending_rows_def rows_of_def)
  then have wf: "import_wf db" using import_system.run_inv assms(5) by blast
  have sums: "ib_total x = ib_successful x + ib_skipped x + ib_failed x"
    if "x \<in> set (im_batches db)" "ib_state x \<in> {Completed, CompletedWithErrors}" for x
    using import_wf_batch [OF wf that(1)] that(2) outcomes_partition [of "ib_id x" db]
    by (auto simp: batch_ok_def batch_counts_def)
  show ?thesis using wf sums unfolding import_wf_def batch_ok_def batch_counts_def lights_ok_def rows_ok_def
    by (auto split: if_splits)
qed

section \<open>The worker\<close>

text \<open>C32. The processing of a batch returns, whatever connections are lost and whenever the worker is
  stopped, as long as the server reports constraint violations only for the data of a statement.\<close>
theorem import_batch_returns:
  assumes "\<And>k code. wk_fate w k = ServerError code \<Longrightarrow> code \<notin> {''23505'', ''23502'', ''23514'', ''22003'', ''22P02''}"
  shows "\<exists>s e. processBatch nfc w b token (db, k) = Some (s, e)"
proof -
  have "honest w" using assms by (auto simp: honest_def safeFailure_def)
  from processBatch_returns [OF this, of nfc b token db k] show ?thesis by auto
qed

text \<open>C28. A worker that is not disturbed does to a batch what the row-by-row reference does: the light
  points, the new ids and the result of every row agree, and the batch is completed, with errors exactly
  when one of its rows failed.  Where the reference has no result, because a text does not fit its
  column, the processing ends with an error and the batch stays claimed.\<close>
theorem import_matches_reference:
  assumes "calm w" "import_wf db" "owned b token db = Some x"
  shows "case import_reference nfc (ib_update x) (map row_payload (pending_queue b db)) (map untimed (im_lights db), im_next_light db) of
      None \<Rightarrow> \<exists>db1 k1. processBatch nfc w b token (db, k) = Some ((db1, k1), Threw) \<and> owned b token db1 \<noteq> None
    | Some ((table, i), results) \<Rightarrow>
        \<exists>db1 k1. processBatch nfc w b token (db, k) = Some ((db1, k1), Finished) \<and>
          map untimed (im_lights db1) = table \<and> im_next_light db1 = i \<and>
          im_rows db1 = settle_with b (zip (map ir_source (pending_queue b db)) results) (im_rows db) \<and>
          (\<forall>y \<in> set (im_batches db1). ib_id y = b \<longrightarrow>
             ib_state y = (if count_outcome RowFailed b db1 = 0 then Completed else CompletedWithErrors))"
proof -
  have p: "processing b token (ib_update x) db" using assms by (simp add: processing_def)
  have ref: "import_reference nfc (ib_update x) (map row_payload (pending_queue b db)) (map untimed (im_lights db), im_next_light db) =
      batch_reference nfc (ib_update x) b db" by (simp add: batch_reference_def inventory_of_def)
  from processBatch_reference [OF assms(1) p, of nfc k] show ?thesis
  proof (elim disjE exE conjE)
    fix db1 k1 u n
    assume r: "processBatch nfc w b token (db, k) = Some ((completeBatch u b token db1, k1), Finished)"
      "processing b token (ib_update x) db1" "advanced nfc (ib_update x) b n db db1" "pending_queue b db1 = []"
    obtain rs where rs: "import_reference nfc (ib_update x) (map row_payload (take n (pending_queue b db))) (inventory_of db) = Some (inventory_of db1, rs)"
      "im_rows db1 = settle_with b (zip (map ir_source (take n (pending_queue b db))) rs) (im_rows db)"
      "drop n (pending_queue b db) = []" using r(3,4) by (auto simp: advanced_def)
    have all: "take n (pending_queue b db) = pending_queue b db" using rs(3) by simp
    have c: "batch_reference nfc (ib_update x) b db = Some ((map untimed (im_lights db1), im_next_light db1), rs)"
      using rs(1) by (simp only: all batch_reference_def inventory_of_def [of db1])
    note done1 = complete_processing [OF r(2,4), where u = u]
    show ?thesis unfolding ref c option.case prod.case
      by (rule exI [of _ "completeBatch u b token db1"], rule exI [of _ k1])
        (use r(1) done1 rs(2) all in \<open>simp add: inventory_of_def\<close>)
  next
    fix db1 k1
    assume r: "processBatch nfc w b token (db, k) = Some ((db1, k1), Threw)" "processing b token (ib_update x) db1"
      "batch_reference nfc (ib_update x) b db = None"
    then show ?thesis unfolding ref by (auto simp: processing_def)
  qed
qed



section \<open>Exports\<close>

text \<open>An export that ends without an error consists of its frame and of every light point that the
  filters accept, each once, in the order of the inventory numbers' code points, whatever the number of
  pages they were read in.\<close>
theorem export_complete:
  assumes "distinct (map iv_id table)" "buildStreetLightFilters ma f = Some filt"
    and "streamStreetLightsExport env ma io fmt f table = Some (out, Ended)"
  shows "out = prologue fmt @ concat (map (\<lambda>(n, r). item_text env fmt (n = 0) r)
      (enumerate 0 (sort_key row_key (filter filt table)))) @ epilogue fmt"
proof -
  have "items_text env fmt n rows = concat (map (\<lambda>(n, r). item_text env fmt (n = 0) r) (enumerate n rows))" for n rows
    by (induction rows arbitrary: n) simp_all
  then show ?thesis using export_ended [OF assms] by simp
qed

text \<open>C29. A CSV export that ended, uploaded to an empty system, confirmed within fifteen minutes and
  processed by an undisturbed worker, restores the light points it contains: same numbers, texts,
  positions and states, in the order of the export, and the batch is completed without errors.\<close>
theorem exported_inventory_imports:
  assumes "distinct (map iv_id table)" "distinct (map iv_number table)"
    and "buildStreetLightFilters ma f = Some filt" "rows = sort_key row_key (filter filt table)"
    and "streamStreetLightsExport env ma io Csv f table = Some (im_utf8 env bytes, Ended)"
    and "rows \<noteq> []" "length rows \<le> MAX_IMPORT_ROWS" "length bytes \<le> MAX_IMPORT_FILE_BYTES"
    and "\<And>r. r \<in> set rows \<Longrightarrow> row_reads env r"
    and "\<not> contains_text (js ''json'') mimetype" "\<not> js_ends (js ''.json'') (im_lower env filename)"
    and "\<not> js_ends (js ''.geojson'') (im_lower env filename)"
    and "upload env t key admin filename bytes mimetype NoFault fresh_db = (db1, answer1)"
    and "t1 < t + PREVIEW_MINUTES * 60000" "confirmImport t1 admin key allow db1 = (db2, answer2)"
    and "claimBatch t2 token db2 = (db3, batch)" "calm w"
  shows "\<exists>db4 k1. answer2 = Inr (1, Queued, length rows) \<and> batch = Some 1 \<and>
    processBatch (im_nfc env) w 1 token (db3, k) = Some ((db4, k1), Finished) \<and>
    map portable (im_lights db4) = map portable rows \<and> (\<forall>y \<in> set (im_batches db4). ib_id y = 1 \<longrightarrow> ib_state y = Completed)"
proof -
  have parsed: "parseImportSource env bytes mimetype filename = Inr (read_rows_of rows)"
    by (rule export_parsed [OF export_ended [OF assms(1,3,5)] refl assms(8,10-12), folded assms(4)]) (use assms(6,7,9) in auto)
  have "read_rows_of rows \<noteq> []" using assms(6) read_rows_of_fields(4) [of rows] by auto
  then have db1: "db1 = uploaded_db t key admin filename (read_rows_of rows)"
    using upload_fresh [OF parsed, of t key admin] assms(13) by simp
  note c = confirm_and_claim [OF assms(14) assms(15) [unfolded db1] assms(16)]
  then obtain x where x: "owned 1 token db3 = Some x" by blast
  have "import_wf db3"
    using upload_wf [OF fresh_wf] confirm_wf claim_wf assms(13,15,16) by (metis fst_conv)
  from imported_batch [OF assms(17) this x c(4-6) _ assms(9), of k] show ?thesis
    using c(1,2) assms(2,4) by (simp add: read_rows_of_fields distinct_map_filter) (simp add: distinct_map inj_on_def)
qed

section \<open>Instances\<close>

definition demo_payload :: "string \<Rightarrow> nat \<Rightarrow> import_payload" where
  "demo_payload number n = \<lparr>ip_number = js number, ip_external = Some (Some (replicate n 65)), ip_latitude = Fin 48, ip_longitude = Fin 17,
     ip_address = None, ip_district = Some None, ip_lamp = None, ip_status = None\<rparr>"

definition demo_row :: "nat \<Rightarrow> import_payload \<Rightarrow> import_row" where
  "demo_row n p = \<lparr>ir_batch = 1, ir_source = n, ir_inventory = Some (ip_number p), ir_outcome = Pending, ir_action = ActCreate,
     ir_existing = None, ir_entity = None, ir_reason = None, ir_payload = Some p\<rparr>"

definition demo_batch :: import_batch where
  "demo_batch = (preview_batch 1 7 (js ''a.csv'') (js ''k'') 0 2)\<lparr>ib_state := Processing, ib_token := Some (js ''t''), ib_lease := Some 30000\<rparr>"

definition demo_light :: inventory_row where
  "demo_light = \<lparr>iv_id = 1, iv_number = js ''B'', iv_external = None, iv_longitude = Fin 16, iv_latitude = Fin 48, iv_address = None,
     iv_district = None, iv_lamp = None, iv_status = Active, iv_created = 0, iv_updated = 0\<rparr>"

definition demo_db :: "nat \<Rightarrow> import_db" where
  "demo_db n = \<lparr>im_batches = [demo_batch], im_rows = [demo_row 1 (demo_payload ''A'' n), demo_row 2 (demo_payload ''B'' 3)],
     im_lights = [demo_light], im_events = [], im_next_light = 2, im_next_batch = 2\<rparr>"

definition demo_worker :: worker where
  "demo_worker = \<lparr>wk_now = int, wk_stopped = (\<lambda>_. False), wk_fate = (\<lambda>_. Works)\<rparr>"

lemma letters: "code_points (replicate n 65) = replicate n 65"
proof (induction n rule: less_induct)
  case (less n)
  show ?case
  proof (cases n)
    case (Suc m)
    then show ?thesis using less [of m] by (cases m) (simp_all add: high_surrogate_def)
  qed simp
qed

lemma demo_fits: "light_point_error id (new_light 0 2 (demo_payload ''A'' 3)) = None"
  by (simp add: light_point_error_def new_light_def demo_payload_def too_long_def letters isCanonicalInventoryNumber_def
      canonicalizeInventoryNumber_def edge_trim_def valid_coordinates_def in_range_def js_eval)

lemma demo_pending: "pending_rows b (demo_db n) = (if b = 1 then [demo_row 1 (demo_payload ''A'' n), demo_row 2 (demo_payload ''B'' 3)] else [])"
  by (simp add: pending_rows_def rows_of_def demo_db_def demo_row_def)

lemma demo_wf: "import_wf (demo_db n)"
proof -
  have "rows_of 1 (demo_db n) = [demo_row 1 (demo_payload ''A'' n), demo_row 2 (demo_payload ''B'' 3)]"
    by (simp add: rows_of_def demo_db_def demo_row_def)
  then have "batch_ok (demo_db n) demo_batch"
    by (simp add: batch_ok_def batch_counts_def demo_pending count_outcome_def demo_batch_def preview_batch_def demo_row_def)
      (simp add: demo_db_def)
  moreover have "rows_ok (demo_db n)"
    by (simp add: rows_ok_def demo_pending) (simp add: demo_db_def demo_batch_def preview_batch_def demo_row_def demo_payload_def row_payload_def)
  moreover have "lights_ok (demo_db n)" by (simp add: lights_ok_def demo_db_def demo_light_def)
  ultimately show ?thesis
    by (simp add: import_wf_def) (simp add: demo_db_def demo_batch_def preview_batch_def)
qed

lemma demo_owned: "owned 1 (js ''t'') (demo_db n) = Some demo_batch"
  by (simp add: owned_def find_batch_def demo_db_def demo_batch_def preview_batch_def)

lemma demo_queue: "pending_queue 1 (demo_db n) = [demo_row 1 (demo_payload ''A'' n), demo_row 2 (demo_payload ''B'' 3)]"
  by (simp add: pending_queue_def demo_pending) (simp add: demo_row_def)

lemma import_batch_returns_witness: "\<exists>s e. processBatch id demo_worker 1 (js ''t'') (demo_db 3, 0) = Some (s, e)"
  by (rule import_batch_returns) (simp add: demo_worker_def)

lemma import_matches_reference_witness:
  "\<exists>db1 k1. processBatch id demo_worker 1 (js ''t'') (demo_db 3, 0) = Some ((db1, k1), Finished) \<and>
     map iv_number (im_lights db1) = [js ''B'', js ''A''] \<and> map ir_outcome (im_rows db1) = [RowCreated, RowSkipped]"
proof -
  have "calm demo_worker" by (simp add: calm_def demo_worker_def)
  moreover have "import_reference id False (map row_payload (pending_queue 1 (demo_db 3))) (map untimed (im_lights (demo_db 3)), im_next_light (demo_db 3)) =
      Some (([demo_light, new_light 0 2 (demo_payload ''A'' 3)], 3),
        [Settled RowCreated (Some 2) None, Settled RowSkipped (Some 1) (Some (js ''existing_update_disabled''))])"
    unfolding demo_queue
    by (simp add: reference_row_def find_light_def demo_db_def demo_row_def row_payload_def demo_fits)
      (simp add: demo_payload_def demo_light_def untimed_def new_light_def Let_def)
  moreover have "ib_update demo_batch = False" by (simp add: demo_batch_def preview_batch_def)
  ultimately have "\<exists>db1 k1. processBatch id demo_worker 1 (js ''t'') (demo_db 3, 0) = Some ((db1, k1), Finished) \<and>
      map untimed (im_lights db1) = [demo_light, new_light 0 2 (demo_payload ''A'' 3)] \<and>
      im_rows db1 = settle_with 1 (zip [1, 2] [Settled RowCreated (Some 2) None, Settled RowSkipped (Some 1) (Some (js ''existing_update_disabled''))]) (im_rows (demo_db 3))"
    using import_matches_reference [OF _ demo_wf demo_owned, of demo_worker id 3 0] by (auto simp: demo_queue demo_row_def)
  then obtain db1 k1 where r: "processBatch id demo_worker 1 (js ''t'') (demo_db 3, 0) = Some ((db1, k1), Finished)"
      "map untimed (im_lights db1) = [demo_light, new_light 0 2 (demo_payload ''A'' 3)]"
      "im_rows db1 = settle_with 1 (zip [1, 2] [Settled RowCreated (Some 2) None, Settled RowSkipped (Some 1) (Some (js ''existing_update_disabled''))]) (im_rows (demo_db 3))"
    by (elim exE conjE)
  have "map iv_number (im_lights db1) = map iv_number (map untimed (im_lights db1))" by simp
  then have "map iv_number (im_lights db1) = [js ''B'', js ''A'']"
    unfolding r(2) by (simp add: demo_light_def new_light_def demo_payload_def)
  moreover have "map ir_outcome (im_rows db1) = [RowCreated, RowSkipped]"
    unfolding r(3) by (simp add: settle_with_def settle_one_def demo_db_def demo_row_def)
  ultimately show ?thesis using r(1) by (intro exI conjI)
qed


lemma preview_settles_duplicates_witness:
  "ir_outcome (preview_row 1 (duplicate_conflicts tiny_rows) (duplicate_skips tiny_rows) [] (hd tiny_rows)) = Pending"
proof -
  obtain r rest where r: "tiny_rows = r # rest" using tiny_rows_codes(1) by (cases tiny_rows) auto
  have "filter (\<lambda>q. pr_number q = pr_number r) tiny_rows = [r]"
    by (rule filter_single) (use tiny_rows_codes(2) in \<open>simp_all add: r js_def\<close>)
  moreover have "pr_code r = None" using tiny_rows_codes(1) by (simp add: r)
  ultimately show ?thesis using preview_settles_duplicates [OF tiny_source, of 1 "[]"] by (simp add: r)
qed

lemma import_state_sound_witness:
  "let db = snd (run_log (import_step tiny_env) (fresh_db\<lparr>im_lights := [demo_light], im_next_light := 2\<rparr>)
       [Upload 0 (js ''k'') 7 (js ''a.csv'') tiny_file (js ''text/csv'') NoFault, Claim 1 (js ''t'')]) in
     length (filter (\<lambda>x. ib_state x = Processing) (im_batches db)) \<le> 1 \<and> distinct (map iv_number (im_lights db))"
proof -
  obtain l db where run: "run_log (import_step tiny_env) (fresh_db\<lparr>im_lights := [demo_light], im_next_light := 2\<rparr>)
       [Upload 0 (js ''k'') 7 (js ''a.csv'') tiny_file (js ''text/csv'') NoFault, Claim 1 (js ''t'')] = (l, db)"
    by (metis prod.exhaust)
  have "lights_ok (fresh_db\<lparr>im_lights := [demo_light], im_next_light := 2\<rparr>)"
    "im_batches (fresh_db\<lparr>im_lights := [demo_light], im_next_light := 2\<rparr>) = []"
    "im_rows (fresh_db\<lparr>im_lights := [demo_light], im_next_light := 2\<rparr>) = []"
    "im_events (fresh_db\<lparr>im_lights := [demo_light], im_next_light := 2\<rparr>) = []"
    by (simp_all add: lights_ok_def demo_light_def fresh_db_def)
  from import_state_sound [OF this run] show ?thesis unfolding run Let_def snd_conv by blast
qed

lemma stream_small:
  assumes f: "buildStreetLightFilters ma f = Some filt" and n: "length table < CHUNK_ROWS"
    and io: "ex_gone io = (\<lambda>_. False)" "ex_page io = (\<lambda>_. False)" "ex_commit io"
  shows "streamStreetLightsExport env ma io fmt f table =
    Some (prologue fmt @ items_text env fmt 0 (sort_key row_key (filter filt table)) @ epilogue fmt, Ended)"
proof -
  have "\<not> snd (write_page env io fmt n rows)" for n rows
  proof (induction rows arbitrary: n)
    case (Cons r rows)
    then show ?case using Cons.IH [of "Suc n"] by (cases "write_page env io fmt (Suc n) rows") (simp add: io)
  qed (simp add: io)
  then have w: "write_page env io fmt n rows = (items_text env fmt n rows, False)" for n rows
    using write_page_items [of env io fmt n rows] by (metis prod.exhaust_sel snd_conv)
  have le: "length (filter filt table) < CHUNK_ROWS" using n length_filter_le [of filt table] by linarith
  then have "readChunk filt table None = sort_key row_key (filter filt table)" by (simp add: readChunk_def)
  then have "export_pages env io fmt filt table None 0 0 = (items_text env fmt 0 (sort_key row_key (filter filt table)), Ended)"
    using le by (simp add: export_pages.simps [of env io fmt filt table] io w Let_def)
  then show ?thesis by (simp add: streamStreetLightsExport_def f io)
qed

definition any_filters :: light_filters where
  "any_filters = \<lparr>lf_search = [], lf_status = [], lf_district = [], lf_district_missing = False, lf_lamp = [], lf_lamp_missing = False\<rparr>"

definition plain_match :: match_env where
  "plain_match = \<lparr>ma_ilike = (\<lambda>p s. contains_text p s), ma_fold = id\<rparr>"

definition plain_io :: export_io where
  "plain_io = \<lparr>ex_gone = (\<lambda>_. False), ex_page = (\<lambda>_. False), ex_commit = True\<rparr>"

definition demo_table :: "inventory_row list" where
  "demo_table = [demo_light\<lparr>iv_longitude := Fin 17, iv_district := Some (js ''a,b'')\<rparr>,
     demo_light\<lparr>iv_id := 2, iv_number := js ''A'', iv_longitude := Fin 17, iv_status := Maintenance\<rparr>]"

lemma any_filter: "buildStreetLightFilters plain_match any_filters = Some (\<lambda>_. True)"
  by (simp add: buildStreetLightFilters_def any_filters_def plain_match_def js_trim_def trim_both_def)

lemma export_complete_witness:
  "\<exists>out. streamStreetLightsExport tiny_env plain_match plain_io Json any_filters demo_table = Some (out, Ended) \<and>
     out = prologue Json @ concat (map (\<lambda>(n, r). item_text tiny_env Json (n = 0) r) (enumerate 0 (sort_key row_key demo_table))) @ epilogue Json"
proof -
  have e: "streamStreetLightsExport tiny_env plain_match plain_io Json any_filters demo_table =
      Some (prologue Json @ items_text tiny_env Json 0 (sort_key row_key (filter (\<lambda>_. True) demo_table)) @ epilogue Json, Ended)"
    by (rule stream_small [OF any_filter]) (simp_all add: plain_io_def demo_table_def CHUNK_ROWS_def)
  have "distinct (map iv_id demo_table)" by (simp add: demo_table_def demo_light_def)
  from export_complete [OF this any_filter e] show ?thesis using e by simp
qed

lemma epoch_text: "toISOString 0 = js ''1970-01-01T00:00:00.000Z''"
  by code_simp

lemma demo_sorted: "sort_key row_key (filter (\<lambda>_. True) demo_table) = rev demo_table"
  by (simp add: demo_table_def demo_light_def row_key_def js_def less_eq_prod_def)

definition demo_out :: jsstring where
  "demo_out = prologue Csv @ items_text tiny_env Csv 0 (rev demo_table) @ epilogue Csv"

lemma demo_out_bytes: "list_all (\<lambda>c. c < 256) demo_out" "length demo_out \<le> MAX_IMPORT_FILE_BYTES"
proof -
  have none: "writeCsvField None = []" by (simp add: writeCsvField_def)
  show "list_all (\<lambda>c. c < 256) demo_out" "length demo_out \<le> MAX_IMPORT_FILE_BYTES"
    by (simp_all add: demo_out_def prologue_def epilogue_def CSV_HEADER_def item_text_def demo_table_def demo_light_def itemFields_def
        csv_text_def tiny_env_def epoch_text status_text_def writeCsvRow_def writeCsvField_text none needs_quotes_def double_quotes_def
        MAX_IMPORT_FILE_BYTES_def js_def)
qed

lemma exported_inventory_imports_witness:
  "\<exists>bytes db1 db2 db3 db4 k1.
     streamStreetLightsExport tiny_env plain_match plain_io Csv any_filters demo_table = Some (im_utf8 tiny_env bytes, Ended) \<and>
     fst (upload tiny_env 0 (js ''k'') 7 (js ''a.csv'') bytes (js ''text/csv'') NoFault fresh_db) = db1 \<and>
     fst (confirmImport 60000 7 (js ''k'') False db1) = db2 \<and> fst (claimBatch 61000 (js ''t'') db2) = db3 \<and>
     processBatch id demo_worker 1 (js ''t'') (db3, 0) = Some ((db4, k1), Finished) \<and>
     map portable (im_lights db4) = map portable (rev demo_table)"
proof -
  define bytes :: buffer where "bytes = map of_nat demo_out"
  have utf8: "im_utf8 tiny_env bytes = demo_out"
    using demo_out_bytes(1) by (simp add: tiny_env_def bytes_def list_all_iff map_idI unat_of_nat)
  have stream: "streamStreetLightsExport tiny_env plain_match plain_io Csv any_filters demo_table = Some (im_utf8 tiny_env bytes, Ended)"
    unfolding utf8 demo_out_def demo_sorted [symmetric]
    by (rule stream_small [OF any_filter]) (simp_all add: plain_io_def demo_table_def CHUNK_ROWS_def)
  obtain db1 a1 where u: "upload tiny_env 0 (js ''k'') 7 (js ''a.csv'') bytes (js ''text/csv'') NoFault fresh_db = (db1, a1)" by force
  obtain db2 a2 where c: "confirmImport 60000 7 (js ''k'') False db1 = (db2, a2)" by force
  obtain db3 a3 where k: "claimBatch 61000 (js ''t'') db2 = (db3, a3)" by force
  have reads: "row_reads tiny_env r" if "r \<in> set (rev demo_table)" for r
    using that by (auto simp: demo_table_def demo_light_def row_reads_def number_reads_def tiny_env_def light_point_error_def
        too_long_def isCanonicalInventoryNumber_def canonicalizeInventoryNumber_def edge_trim_def valid_coordinates_def in_range_def
        high_surrogate_def low_surrogate_def js_eval)
  have "\<exists>db4 k1. a2 = Inr (1, Queued, length (rev demo_table)) \<and> a3 = Some 1 \<and>
      processBatch (im_nfc tiny_env) demo_worker 1 (js ''t'') (db3, 0) = Some ((db4, k1), Finished) \<and>
      map portable (im_lights db4) = map portable (rev demo_table) \<and> (\<forall>y \<in> set (im_batches db4). ib_id y = 1 \<longrightarrow> ib_state y = Completed)"
  proof (rule exported_inventory_imports [OF _ _ any_filter _ stream _ _ _ reads _ _ _ u _ c k])
    show "distinct (map iv_id demo_table)" "distinct (map iv_number demo_table)" by (simp_all add: demo_table_def demo_light_def)
    show "rev demo_table = sort_key row_key (filter (\<lambda>_. True) demo_table)" by (rule demo_sorted [symmetric])
    show "length bytes \<le> MAX_IMPORT_FILE_BYTES" using demo_out_bytes(2) by (simp add: bytes_def)
    show "\<not> contains_text (js ''json'') (js ''text/csv'')" "\<not> js_ends (js ''.json'') (im_lower tiny_env (js ''a.csv''))"
      "\<not> js_ends (js ''.geojson'') (im_lower tiny_env (js ''a.csv''))"
      by (simp_all add: tiny_env_def contains_text_def js_ends_def js_def)
    show "calm demo_worker" by (simp add: calm_def demo_worker_def)
  qed (simp_all add: demo_table_def MAX_IMPORT_ROWS_def PREVIEW_MINUTES_def)
  moreover have "im_nfc tiny_env = id" by (simp add: tiny_env_def)
  ultimately obtain db4 k1 where "processBatch id demo_worker 1 (js ''t'') (db3, 0) = Some ((db4, k1), Finished)"
      "map portable (im_lights db4) = map portable (rev demo_table)" by auto
  then show ?thesis using stream u c k
    by (intro exI [of _ bytes] exI [of _ db1] exI [of _ db2] exI [of _ db3] exI [of _ db4] exI [of _ k1]) simp
qed

end
