(* ===== verification/ImportQueries.thy ===== *)
theory ImportQueries
  imports ImportInvariant InventoryExport
begin

text \<open>
  What the administration reads of an import: the page of a preview with its order and its summary, the
  list of batches, one batch, and the rows of a batch in pages after a cursor
  (\<^verbatim>\<open>services/streetLightsImport.service.ts\<close>, \<^verbatim>\<open>controllers/adminStreetLights.controller.ts\<close>).
\<close>

section \<open>The page of a preview\<close>

datatype preview_sort = ByRow | ByNumber | ByAction | ByMessage

definition sort_column :: "jsstring \<Rightarrow> preview_sort" where
  "sort_column s =
     (if s = js ''inventoryNumber'' then ByNumber else if s = js ''action'' then ByAction
      else if s = js ''message'' then ByMessage else ByRow)"

definition action_rank :: "preview_action \<Rightarrow> nat" where
  "action_rank a = (case a of ActCreate \<Rightarrow> 1 | ActUpdate \<Rightarrow> 2 | ActSkip \<Rightarrow> 4 | ActError \<Rightarrow> 5)"

definition nullif_empty :: "jsstring option \<Rightarrow> jsstring option" where
  "nullif_empty v = (if v = Some [] then None else v)"

text \<open>The value a row is sorted by, as bytes are compared under \<^verbatim>\<open>COLLATE "C"\<close>; \<open>reason\<close> is the text of the row's reason.\<close>

definition column_value :: "(import_row \<Rightarrow> jsstring option) \<Rightarrow> preview_sort \<Rightarrow> import_row \<Rightarrow> nat list option" where
  "column_value reason c r =
     (case c of
        ByRow \<Rightarrow> Some [ir_source r]
      | ByNumber \<Rightarrow> map_option code_points (nullif_empty (ir_inventory r))
      | ByAction \<Rightarrow> Some [action_rank (ir_action r)]
      | ByMessage \<Rightarrow> map_option code_points (nullif_empty (reason r)))"

text \<open>\<^verbatim>\<open>ORDER BY column direction NULLS LAST, source_row_number ASC\<close>.\<close>

definition preview_order :: "(import_row \<Rightarrow> jsstring option) \<Rightarrow> preview_sort \<Rightarrow> bool \<Rightarrow> import_row list \<Rightarrow> import_row list" where
  "preview_order reason c descending rows =
     (let sorted_rows = sort_key ir_source rows; value = column_value reason c;
          present = filter (\<lambda>r. value r \<noteq> None) sorted_rows; absent = filter (\<lambda>r. value r = None) sorted_rows in
      (if descending then rev (sort_key (the \<circ> value) (rev present)) else sort_key (the \<circ> value) present) @ absent)"

record preview_page =
  pv_filename :: jsstring
  pv_total :: nat
  pv_rows :: "import_row list"
  pv_create :: nat
  pv_update :: nat
  pv_skipped :: nat
  pv_errors :: nat
  pv_page :: int
  pv_limit :: int
  pv_pages :: int

definition page_of :: "int \<Rightarrow> int \<Rightarrow> 'a list \<Rightarrow> 'a list" where
  "page_of page limit xs = take (nat limit) (drop (nat ((page - 1) * limit)) xs)"

definition total_pages :: "nat \<Rightarrow> int \<Rightarrow> int" where
  "total_pages rows limit = (let n = (int rows + limit - 1) div limit in if n = 0 then 1 else n)"

definition clamp_limit :: "int \<Rightarrow> int" where
  "clamp_limit limit = min 100 (max 1 limit)"

definition getImportPreviewPage :: "(import_row \<Rightarrow> jsstring option) \<Rightarrow> int \<Rightarrow> int \<Rightarrow> jsstring \<Rightarrow> int \<Rightarrow> int \<Rightarrow> jsstring \<Rightarrow> jsstring \<Rightarrow>
    import_db \<Rightarrow> import_db \<times> (import_error + preview_page)" where
  "getImportPreviewPage reason t admin key page limit sort_by sort_order db0 =
     (let db = cleanupExpiredPreviews t db0; safe_page = max 1 page; safe_limit = clamp_limit limit in
      case find_batch (\<lambda>x. ib_key x = key \<and> ib_admin x = admin \<and> ib_state x = Preview) db of
        None \<Rightarrow> (db, Inl (ImportError 404 ''Import preview expired or not found''))
      | Some x \<Rightarrow>
          (let b = (case find_batch (\<lambda>x. ib_key x = key) db of None \<Rightarrow> ib_id x | Some y \<Rightarrow> ib_id y); rows = rows_of b db;
               count = (\<lambda>p. length (filter p rows)) in
           (db, Inr \<lparr>pv_filename = ib_filename x, pv_total = ib_total x,
              pv_rows = page_of safe_page safe_limit (preview_order reason (sort_column sort_by) (sort_order = js ''desc'') rows),
              pv_create = count (\<lambda>r. ir_action r = ActCreate), pv_update = count (\<lambda>r. ir_action r = ActUpdate),
              pv_skipped = count (\<lambda>r. ir_outcome r = RowSkipped), pv_errors = count (\<lambda>r. ir_outcome r = RowFailed),
              pv_page = safe_page, pv_limit = safe_limit, pv_pages = total_pages (ib_total x) safe_limit\<rparr>)))"

text \<open>The upload answers with the first page of its preview.\<close>

definition importPreview :: "(import_row \<Rightarrow> jsstring option) \<Rightarrow> import_env \<Rightarrow> int \<Rightarrow> jsstring \<Rightarrow> int \<Rightarrow> jsstring \<Rightarrow> buffer \<Rightarrow> jsstring \<Rightarrow>
    int \<Rightarrow> int \<Rightarrow> preview_fault \<Rightarrow> import_db \<Rightarrow> import_db \<times> (import_error + preview_page option)" where
  "importPreview reason env t key admin filename bytes mimetype page limit fault db =
     (case upload env t key admin filename bytes mimetype fault db of
        (db1, Inl e) \<Rightarrow> (db1, Inl e)
      | (db1, Inr None) \<Rightarrow> (db1, Inr None)
      | (db1, Inr (Some k)) \<Rightarrow>
          (case getImportPreviewPage reason t admin k page limit (js ''rowIndex'') (js ''asc'') db1 of
             (db2, Inl e) \<Rightarrow> (db2, Inl e) | (db2, Inr p) \<Rightarrow> (db2, Inr (Some p))))"

section \<open>Batches and their rows\<close>

definition getImportBatch :: "int \<Rightarrow> import_db \<Rightarrow> import_batch option" where
  "getImportBatch b db = find_batch (\<lambda>x. ib_id x = b) db"

definition row_outcome_of :: "jsstring \<Rightarrow> row_outcome option" where
  "row_outcome_of s = map_of [(js ''pending'', Pending), (js ''created'', RowCreated), (js ''updated'', RowUpdated),
     (js ''unchanged'', RowUnchanged), (js ''skipped'', RowSkipped), (js ''failed'', RowFailed)] s"

definition rows_after :: "int \<Rightarrow> row_outcome option \<Rightarrow> int \<Rightarrow> import_db \<Rightarrow> import_row list" where
  "rows_after b oc cursor db =
     sort_key ir_source (filter (\<lambda>r. int (ir_source r) > cursor \<and> (oc = None \<or> oc = Some (ir_outcome r))) (rows_of b db))"

text \<open>An empty outcome text is no filter, any other unknown text is an error.\<close>

definition listImportBatchRows :: "int \<Rightarrow> jsstring option \<Rightarrow> int \<Rightarrow> int \<Rightarrow> import_db \<Rightarrow> import_error + import_row list \<times> nat option" where
  "listImportBatchRows b outcome limit cursor db =
     (let asked = (case outcome of None \<Rightarrow> [] | Some s \<Rightarrow> s) in
      if asked \<noteq> [] \<and> row_outcome_of asked = None then Inl (ImportError 400 ''Invalid import outcome filter'')
      else
        (let items = take (nat (clamp_limit limit)) (rows_after b (row_outcome_of asked) (max 0 cursor) db) in
         Inr (items, if length items = nat (clamp_limit limit) then Some (ir_source (last items)) else None)))"

definition getImportRows :: "int option \<Rightarrow> jsstring option \<Rightarrow> int option option \<Rightarrow> int option option \<Rightarrow> import_db \<Rightarrow>
    import_error + import_row list \<times> nat option" where
  "getImportRows b outcome limit cursor db =
     (case b of
        None \<Rightarrow> Inl (ImportError 400 ''Invalid import batch id'')
      | Some i \<Rightarrow>
          if i \<le> 0 then Inl (ImportError 400 ''Invalid import batch id'')
          else if getImportBatch i db = None then Inl (ImportError 404 ''Import batch not found'')
          else
            (case (limit, cursor) of
               (Some None, _) \<Rightarrow> Inl (ImportError 400 ''Invalid import row pagination'')
             | (_, Some None) \<Rightarrow> Inl (ImportError 400 ''Invalid import row pagination'')
             | _ \<Rightarrow> listImportBatchRows i outcome (case limit of Some (Some n) \<Rightarrow> n | _ \<Rightarrow> 50) (case cursor of Some (Some n) \<Rightarrow> n | _ \<Rightarrow> 0) db))"

section \<open>Following the cursor\<close>

lemma clamp_limit_pos: "0 < nat (clamp_limit limit)"
  by (simp add: clamp_limit_def)

definition rest_length :: "int \<Rightarrow> import_db \<Rightarrow> int \<Rightarrow> nat" where
  "rest_length b db cursor = length (filter (\<lambda>r. int (ir_source r) > max 0 cursor) (rows_of b db))"

lemma rows_after_set: "r \<in> set (rows_after b oc cursor db) \<Longrightarrow> r \<in> set (rows_of b db) \<and> cursor < int (ir_source r)"
  by (simp add: rows_after_def)

lemma cursor_moves:
  assumes "listImportBatchRows b outcome limit cursor db = Inr (items, Some c)"
  shows "rest_length b db (int c) < rest_length b db cursor"
proof -
  have i: "items \<noteq> []" "c = ir_source (last items)" "set items \<subseteq> set (rows_after b (row_outcome_of (case outcome of None \<Rightarrow> [] | Some s \<Rightarrow> s)) (max 0 cursor) db)"
    using assms clamp_limit_pos [of limit] by (auto simp: listImportBatchRows_def Let_def split: if_splits dest: in_set_takeD)
  then have l: "last items \<in> set (rows_of b db)" "max 0 cursor < int c" using rows_after_set last_in_set [OF i(1)] by blast+
  have "filter (\<lambda>r. int (ir_source r) > max 0 (int c)) (rows_of b db) =
      filter (\<lambda>r. int (ir_source r) > int c) (filter (\<lambda>r. int (ir_source r) > max 0 cursor) (rows_of b db))"
    using l(2) by (auto intro!: filter_cong)
  also have "length \<dots> < length (filter (\<lambda>r. int (ir_source r) > max 0 cursor) (rows_of b db))"
    by (rule length_filter_less [of "last items"]) (use l i(2) in auto)
  finally show ?thesis by (simp add: rest_length_def)
qed

text \<open>A client that follows the cursor until there is none.\<close>

function follow_cursor :: "int \<Rightarrow> jsstring option \<Rightarrow> int \<Rightarrow> import_db \<Rightarrow> int \<Rightarrow> import_error + import_row list" where
  "follow_cursor b outcome limit db cursor =
     (case listImportBatchRows b outcome limit cursor db of
        Inl e \<Rightarrow> Inl e
      | Inr (items, None) \<Rightarrow> Inr items
      | Inr (items, Some c) \<Rightarrow> map_sum id (append items) (follow_cursor b outcome limit db (int c)))"
  by pat_completeness auto
termination
  by (relation "measure (\<lambda>(b, outcome, limit, db, cursor). rest_length b db cursor)") (auto intro: cursor_moves)

declare follow_cursor.simps [simp del]

lemma follow_cursor_all:
  assumes d: "distinct (map ir_source (rows_of b db))" and ok: "\<And>s. outcome = Some s \<Longrightarrow> s \<noteq> [] \<Longrightarrow> row_outcome_of s \<noteq> None" and c: "0 \<le> cursor"
  shows "follow_cursor b outcome limit db cursor =
     Inr (rows_after b (row_outcome_of (case outcome of None \<Rightarrow> [] | Some s \<Rightarrow> s)) cursor db)"
  using d ok c
proof (induction b outcome limit db cursor rule: follow_cursor.induct)
  case (1 b outcome limit db cursor)
  define q where "q = row_outcome_of (case outcome of None \<Rightarrow> [] | Some s \<Rightarrow> s)"
  define n where "n = nat (clamp_limit limit)"
  define S where "S = rows_after b q cursor db"
  have n: "0 < n" unfolding n_def by (rule clamp_limit_pos)
  have list: "listImportBatchRows b outcome limit cursor db =
      Inr (take n S, if length (take n S) = n then Some (ir_source (last (take n S))) else None)"
    using 1(3,4) by (cases outcome) (auto simp: listImportBatchRows_def Let_def q_def S_def n_def)
  have "distinct (map ir_source (filter (\<lambda>r. int (ir_source r) > cursor \<and> (q = None \<or> q = Some (ir_outcome r))) (rows_of b db)))"
    by (rule distinct_map_filter [OF 1(2)])
  then have sorted: "sorted_wrt (\<lambda>x y. ir_source x < ir_source y) S" unfolding S_def rows_after_def by (rule strictly_sorted_key)
  show ?case
  proof (cases "length (take n S) = n")
    case True
    define c where "c = ir_source (last (take n S))"
    have ne: "take n S \<noteq> []" using True n by auto
    then have S: "S = butlast (take n S) @ last (take n S) # drop n S"
      by (metis append_butlast_last_id append_Cons append_Nil append_assoc append_take_drop_id)
    have "last (take n S) \<in> set S" using last_in_set [OF ne] by (rule in_set_takeD)
    then have c: "cursor < int c" unfolding S_def c_def using rows_after_set by blast
    have "rows_after b q (int c) db = filter (\<lambda>r. c < ir_source r) S"
      unfolding S_def rows_after_def filter_sort filter_filter using c by (intro arg_cong [where f = "sort_key ir_source"] filter_cong) auto
    also have "\<dots> = drop n S" unfolding c_def by (rule sorted_after [OF sorted S])
    finally have rest: "rows_after b q (int c) db = drop n S" .
    have "follow_cursor b outcome limit db (int c) = Inr (rows_after b q (int c) db)"
      unfolding q_def by (rule 1(1) [OF list refl]) (use True c 1(2,3) in \<open>simp_all add: c_def\<close>)
    then show ?thesis using True
      by (simp add: follow_cursor.simps [of b outcome limit db cursor] list c_def [symmetric] rest S_def [symmetric] q_def [symmetric])
  next
    case False
    then have "take n S = S" by (simp add: min_def split: if_splits)
    then show ?thesis using False by (simp add: follow_cursor.simps [of b outcome limit db cursor] list S_def [symmetric] q_def [symmetric])
  qed
qed

end
