(* ===== verification/Evidence.thy ===== *)
theory Evidence
  imports JsValue Timestamps
begin

text \<open>
  The records the operations write, \<^verbatim>\<open>operations/fileEvidence.ts\<close>: the result of a backup
  (\<^verbatim>\<open>backup/runner.ts\<close>), its check and copy \<^verbatim>\<open>sanitizeBackupResult\<close>, the evidence fields
  allowed to each phase and the check of a whole envelope.
\<close>

section \<open>Backup results\<close>

datatype backup_state = BackupComplete | SkippedOverlapping | BlockedByMigration | PreflightRejected | Incomplete

definition state_text :: "backup_state \<Rightarrow> jsstring" where
  "state_text st =
     (case st of BackupComplete \<Rightarrow> js ''complete'' | SkippedOverlapping \<Rightarrow> js ''skipped_overlapping''
      | BlockedByMigration \<Rightarrow> js ''blocked_by_migration'' | PreflightRejected \<Rightarrow> js ''preflight_rejected''
      | Incomplete \<Rightarrow> js ''incomplete'')"

definition BACKUP_STATES :: "backup_state list" where
  "BACKUP_STATES = [BackupComplete, SkippedOverlapping, BlockedByMigration, PreflightRejected, Incomplete]"

definition state_of_text :: "jsstring \<Rightarrow> backup_state option" where
  "state_of_text s = find (\<lambda>st. state_text st = s) BACKUP_STATES"

record ledger_row =
  l_version :: jsstring
  l_name :: jsstring
  l_checksum :: jsstring

record backup_result =
  b_state :: backup_state
  b_exit :: int
  b_reason :: jsstring
  b_run :: jsstring
  b_started :: jsstring
  b_duration :: js_number
  b_snapshot :: "jsstring option"
  b_ledger :: "ledger_row list option"
  b_manifest :: "jsstring option"
  b_bytes :: "int option"
  b_sha :: "jsstring option"
  b_cleanup :: "jsstring option"
  b_recipient :: jsstring
  b_build :: jsstring

section \<open>Patterns\<close>

definition repeat_in :: "(code_unit \<Rightarrow> bool) \<Rightarrow> nat \<Rightarrow> nat \<Rightarrow> jsstring \<Rightarrow> bool" where
  "repeat_in p lo hi s \<longleftrightarrow> lo \<le> length s \<and> length s \<le> hi \<and> list_all p s"

definition is_lower :: "code_unit \<Rightarrow> bool" where
  "is_lower c \<longleftrightarrow> 97 \<le> c \<and> c \<le> 122"

definition is_upper :: "code_unit \<Rightarrow> bool" where
  "is_upper c \<longleftrightarrow> 65 \<le> c \<and> c \<le> 90"

definition reason_text :: "jsstring \<Rightarrow> bool" where
  "reason_text s \<longleftrightarrow> repeat_in (\<lambda>c. is_lower c \<or> is_digit c \<or> c = 95) 1 80 s"

definition run_id_text :: "jsstring \<Rightarrow> bool" where
  "run_id_text s \<longleftrightarrow> repeat_in (\<lambda>c. is_hex_ci c \<or> c = 45) 16 64 s"

definition recipient_text :: "jsstring \<Rightarrow> bool" where
  "recipient_text s \<longleftrightarrow> take 7 s = js ''sha256:'' \<and> matches_all is_hex_lower 64 (drop 7 s)"

definition build_text :: "jsstring \<Rightarrow> bool" where
  "build_text s \<longleftrightarrow> repeat_in is_hex_ci 7 64 s"

definition no_pair :: "code_unit \<Rightarrow> jsstring \<Rightarrow> bool" where
  "no_pair c s \<longleftrightarrow> (\<forall>i < length s - 1. \<not> (s ! i = c \<and> s ! Suc i = c))"

definition isSafeObjectKey :: "jsstring \<Rightarrow> bool" where
  "isSafeObjectKey s \<longleftrightarrow> length s \<le> 512 \<and> s \<noteq> [] \<and> (is_upper (hd s) \<or> is_lower (hd s) \<or> is_digit (hd s)) \<and>
     list_all (\<lambda>c. is_upper c \<or> is_lower c \<or> is_digit c \<or> c = 46 \<or> c = 95 \<or> c = 47 \<or> c = 45) (tl s) \<and>
     no_pair 46 s \<and> no_pair 47 s"

section \<open>Reading a backup result\<close>

definition exactKeys :: "js_value \<Rightarrow> string list \<Rightarrow> bool" where
  "exactKeys v allowed \<longleftrightarrow> list_all (\<lambda>p. fst p \<in> js ` set allowed) (props v)"

text \<open>A field that must be a text with a property, and one that may be absent.\<close>

definition text_field :: "(jsstring \<Rightarrow> bool) \<Rightarrow> js_value \<Rightarrow> jsstring option" where
  "text_field p v = (case v of JStr s \<Rightarrow> if p s then Some s else None | _ \<Rightarrow> None)"

definition optional_field :: "(js_value \<Rightarrow> 'a option) \<Rightarrow> js_value \<Rightarrow> 'a option option" where
  "optional_field f v = (case v of JUndefined \<Rightarrow> Some None | _ \<Rightarrow> map_option Some (f v))"

definition int_field :: "js_value \<Rightarrow> int option" where
  "int_field v = (case v of JNum n \<Rightarrow> safe_integer n | _ \<Rightarrow> None)"

definition positive_field :: "js_value \<Rightarrow> int option" where
  "positive_field v = (case int_field v of None \<Rightarrow> None | Some n \<Rightarrow> if n \<le> 0 then None else Some n)"

definition ledger_row_of :: "js_value \<Rightarrow> ledger_row option" where
  "ledger_row_of v =
     (if \<not> isRecord v \<or> \<not> exactKeys v [''version'', ''name'', ''checksum''] then None
      else
        (case (text_field (matches_all is_digit 4) (js_get ''version'' v),
               text_field (repeat_in (\<lambda>c. is_lower c \<or> is_digit c \<or> c = 95 \<or> c = 45) 1 128) (js_get ''name'' v),
               text_field isSha256 (js_get ''checksum'' v)) of
           (Some a, Some b, Some c) \<Rightarrow> Some \<lparr>l_version = a, l_name = b, l_checksum = c\<rparr>
         | _ \<Rightarrow> None))"

fun collect :: "('a \<Rightarrow> 'b option) \<Rightarrow> 'a list \<Rightarrow> 'b list option" where
  "collect f [] = Some []"
| "collect f (x # xs) = (case f x of None \<Rightarrow> None | Some y \<Rightarrow> map_option (Cons y) (collect f xs))"

definition ledger_of :: "js_value \<Rightarrow> ledger_row list option" where
  "ledger_of v = (case v of JArr xs \<Rightarrow> if length xs > 256 then None else collect ledger_row_of xs | _ \<Rightarrow> None)"

definition is_version_1 :: "js_value \<Rightarrow> bool" where
  "is_version_1 v \<longleftrightarrow> (\<exists>n. v = JNum n \<and> num_value n = Some 1)"

definition duration_field :: "js_value \<Rightarrow> js_number option" where
  "duration_field v =
     (case v of
        JNum n \<Rightarrow> (case num_value n of None \<Rightarrow> None | Some r \<Rightarrow> if r < 0 then None else Some n)
      | _ \<Rightarrow> None)"

definition RESULT_FIELDS :: "string list" where
  "RESULT_FIELDS = [''result_version'', ''state'', ''exit_code'', ''reason_code'', ''run_id'', ''run_started_at'', ''duration_ms'',
     ''snapshot_started_at'', ''migration_ledger'', ''manifest_id'', ''archive_encrypted_bytes'', ''archive_encrypted_sha256'',
     ''cleanup_error_code'', ''recipient_key_id'', ''app_build_sha'']"

text \<open>\<open>None\<close> is the thrown error; the result is the copy.\<close>

definition sanitizeBackupResult :: "js_value \<Rightarrow> backup_result option" where
  "sanitizeBackupResult v =
     (if \<not> isRecord v \<or> \<not> exactKeys v RESULT_FIELDS \<or> \<not> is_version_1 (js_get ''result_version'' v) then None
      else
        (case (Option.bind (text_field (\<lambda>_. True) (js_get ''state'' v)) state_of_text,
               int_field (js_get ''exit_code'' v),
               text_field reason_text (js_get ''reason_code'' v),
               text_field run_id_text (js_get ''run_id'' v),
               text_field isUtcTimestamp (js_get ''run_started_at'' v),
               duration_field (js_get ''duration_ms'' v)) of
           (Some st, Some ec, Some rc, Some ri, Some rs, Some du) \<Rightarrow>
             (case (text_field recipient_text (js_get ''recipient_key_id'' v), text_field build_text (js_get ''app_build_sha'' v),
                    optional_field (text_field isUtcTimestamp) (js_get ''snapshot_started_at'' v),
                    optional_field ledger_of (js_get ''migration_ledger'' v),
                    optional_field (text_field isSafeObjectKey) (js_get ''manifest_id'' v)) of
                (Some rk, Some ab, Some sn, Some lg, Some mi) \<Rightarrow>
                  (case (optional_field positive_field (js_get ''archive_encrypted_bytes'' v),
                         optional_field (text_field isSha256) (js_get ''archive_encrypted_sha256'' v),
                         optional_field (text_field reason_text) (js_get ''cleanup_error_code'' v)) of
                     (Some by, Some sh, Some ce) \<Rightarrow>
                       Some \<lparr>b_state = st, b_exit = ec, b_reason = rc, b_run = ri, b_started = rs, b_duration = du, b_snapshot = sn,
                         b_ledger = lg, b_manifest = mi, b_bytes = by, b_sha = sh, b_cleanup = ce, b_recipient = rk, b_build = ab\<rparr>
                   | _ \<Rightarrow> None)
              | _ \<Rightarrow> None)
         | _ \<Rightarrow> None))"

section \<open>Writing a backup result\<close>

definition optional_prop :: "string \<Rightarrow> ('a \<Rightarrow> js_value) \<Rightarrow> 'a option \<Rightarrow> (jsstring \<times> js_value) list" where
  "optional_prop k f x = (case x of None \<Rightarrow> [] | Some y \<Rightarrow> [(js k, f y)])"

definition ledger_row_value :: "ledger_row \<Rightarrow> js_value" where
  "ledger_row_value r = JObj [(js ''version'', JStr (l_version r)), (js ''name'', JStr (l_name r)), (js ''checksum'', JStr (l_checksum r))]"

definition backup_result_value :: "backup_result \<Rightarrow> js_value" where
  "backup_result_value r =
     JObj ([(js ''result_version'', jnat 1), (js ''state'', JStr (state_text (b_state r))), (js ''exit_code'', jnat (b_exit r)),
       (js ''reason_code'', JStr (b_reason r)), (js ''run_id'', JStr (b_run r)), (js ''run_started_at'', JStr (b_started r)),
       (js ''duration_ms'', JNum (b_duration r))] @
       optional_prop ''snapshot_started_at'' JStr (b_snapshot r) @
       optional_prop ''migration_ledger'' (\<lambda>rows. JArr (map ledger_row_value rows)) (b_ledger r) @
       optional_prop ''manifest_id'' JStr (b_manifest r) @
       optional_prop ''archive_encrypted_bytes'' jnat (b_bytes r) @
       optional_prop ''archive_encrypted_sha256'' JStr (b_sha r) @
       optional_prop ''cleanup_error_code'' JStr (b_cleanup r) @
       [(js ''recipient_key_id'', JStr (b_recipient r)), (js ''app_build_sha'', JStr (b_build r))])"

section \<open>Envelopes\<close>

datatype phase = PhaseBackup | PhaseRestore | PhaseDrill | PhaseRetention | PhaseMonitoring

definition RETENTION_COUNT_FIELDS :: "string list" where
  "RETENTION_COUNT_FIELDS = [''admin_activity_logs'', ''inventory_audit_events'', ''admin_refresh_sessions'',
     ''admin_activity_logs_eligible'', ''inventory_audit_events_eligible'', ''admin_refresh_sessions_eligible'',
     ''deferred_import_batches'', ''import_batches_missing_completion'', ''import_batches_with_pending_rows'',
     ''import_batches_referenced_by_retained_audit'', ''chunks'']"

definition allowed_evidence :: "phase \<Rightarrow> string list" where
  "allowed_evidence p =
     (case p of
        PhaseBackup \<Rightarrow> [''slot_id'', ''attempt'', ''retry_at_utc'']
      | PhaseRestore \<Rightarrow> []
      | PhaseDrill \<Rightarrow> [''evidence_class'', ''snapshot_started_at_utc'', ''synthetic_snapshot_to_loss_elapsed_ms'',
          ''synthetic_snapshot_to_loss_target_ms'', ''synthetic_snapshot_to_loss_target_met'', ''synthetic_loss_to_restore_elapsed_ms'',
          ''manifest_id'', ''encrypted_sha256'', ''loss_event_at_utc'', ''restore_started_at_utc'', ''restore_finished_at_utc'']
      | PhaseRetention \<Rightarrow> RETENTION_COUNT_FIELDS @ [''cutoff_utc'']
      | PhaseMonitoring \<Rightarrow> [''event_count'', ''critical_count'', ''warning_count'', ''unknown_count'', ''delivery_configured''])"

definition COUNT_FIELDS :: "string list" where
  "COUNT_FIELDS = RETENTION_COUNT_FIELDS @ [''attempt'', ''event_count'', ''critical_count'', ''warning_count'', ''unknown_count'',
     ''synthetic_snapshot_to_loss_elapsed_ms'', ''synthetic_snapshot_to_loss_target_ms'', ''synthetic_loss_to_restore_elapsed_ms'']"

definition TIME_FIELDS :: "string list" where
  "TIME_FIELDS = [''slot_id'', ''cutoff_utc'', ''retry_at_utc'', ''snapshot_started_at_utc'', ''loss_event_at_utc'',
     ''restore_started_at_utc'', ''restore_finished_at_utc'']"

text \<open>The case-insensitive search for a secret word in a key.\<close>

definition private_key_text :: "jsstring \<Rightarrow> bool" where
  "private_key_text s \<longleftrightarrow>
     contains_text (js ''privatekey'') s \<or>
     list_ex (\<lambda>i. take 7 (drop i s) = js ''private'' \<and> take 3 (drop (i + 8) s) = js ''key'' \<and>
       s ! (i + 7) \<notin> {10, 13, 8232, 8233}) [0..<length s - 10]"

definition secret_field :: "jsstring \<Rightarrow> bool" where
  "secret_field key \<longleftrightarrow>
     (let s = lower_ascii key in
      list_ex (\<lambda>w. contains_text (js w) s)
        [''password'', ''secret'', ''credential'', ''identity'', ''token'', ''payload'', ''contact'', ''email'', ''coordinate''] \<or>
      private_key_text s)"

definition utc_value :: "js_value \<Rightarrow> bool" where
  "utc_value v \<longleftrightarrow> text_field isUtcTimestamp v \<noteq> None"

definition evidence_value_ok :: "jsstring \<Rightarrow> js_value \<Rightarrow> bool" where
  "evidence_value_ok k v =
     (if k \<in> js ` set COUNT_FIELDS then (case int_field v of None \<Rightarrow> False | Some n \<Rightarrow> \<not> n < 0)
      else if k \<in> js ` set TIME_FIELDS then (v = JNull \<and> (k = js ''cutoff_utc'' \<or> k = js ''retry_at_utc'')) \<or> utc_value v
      else if k = js ''manifest_id'' then text_field isSafeObjectKey v \<noteq> None
      else if k = js ''encrypted_sha256'' then text_field isSha256 v \<noteq> None
      else if k = js ''evidence_class'' then v = JStr (js ''synthetic_ci'')
      else if k = js ''synthetic_snapshot_to_loss_target_met'' then (\<exists>b. v = JBool b)
      else if k = js ''delivery_configured'' then v = JBool False
      else v = JNull)"

definition validateEvidence :: "phase \<Rightarrow> js_value \<Rightarrow> js_value option option" where
  "validateEvidence p ev =
     (case ev of
        JUndefined \<Rightarrow> Some None
      | JObj ps \<Rightarrow>
          if list_ex (\<lambda>kv. secret_field (fst kv) \<or> fst kv \<notin> js ` set (allowed_evidence p)) ps then None
          else if \<not> list_all (\<lambda>kv. evidence_value_ok (fst kv) (snd kv)) ps then None
          else Some (Some (JObj ps))
      | _ \<Rightarrow> None)"

definition artifact_ok :: "js_value \<Rightarrow> bool" where
  "artifact_ok a \<longleftrightarrow>
     isRecord a \<and>
     exactKeys a [''manifest_id'', ''archive_key'', ''archive_provider_version_id'', ''encrypted_bytes'', ''encrypted_sha256'',
       ''recipient_key_ids'', ''snapshot_started_at_utc''] \<and>
     text_field isSafeObjectKey (js_get ''manifest_id'' a) \<noteq> None \<and>
     text_field isSafeObjectKey (js_get ''archive_key'' a) \<noteq> None \<and>
     text_field (repeat_in (\<lambda>c. is_upper c \<or> is_lower c \<or> is_digit c \<or> c = 46 \<or> c = 95 \<or> c = 58 \<or> c = 45) 1 256)
       (js_get ''archive_provider_version_id'' a) \<noteq> None \<and>
     positive_field (js_get ''encrypted_bytes'' a) \<noteq> None \<and>
     text_field isSha256 (js_get ''encrypted_sha256'' a) \<noteq> None \<and>
     (case js_get ''recipient_key_ids'' a of
        JArr ids \<Rightarrow> 1 \<le> length ids \<and> length ids \<le> 16 \<and> list_all (\<lambda>i. text_field recipient_text i \<noteq> None) ids
      | _ \<Rightarrow> False) \<and>
     utc_value (js_get ''snapshot_started_at_utc'' a)"

record envelope =
  e_version :: js_value
  e_phase :: phase
  e_operation :: jsstring
  e_state :: jsstring
  e_reason :: jsstring
  e_started :: jsstring
  e_finished :: jsstring
  e_build :: jsstring
  e_artifact :: js_value
  e_backup :: js_value
  e_evidence :: js_value

definition OPERATION_STATES :: "jsstring list" where
  "OPERATION_STATES = map js [''complete'', ''skipped_overlapping'', ''blocked_by_migration'', ''preflight_rejected'', ''incomplete'',
     ''success_with_backlog'']"

text \<open>The phase is one of the five by its type; \<^verbatim>\<open>undefined\<close> is an absent field.\<close>

definition assertSecretFreeEnvelope :: "envelope \<Rightarrow> bool" where
  "assertSecretFreeEnvelope r \<longleftrightarrow>
     is_version_1 (e_version r) \<and> run_id_text (e_operation r) \<and> build_text (e_build r) \<and> reason_text (e_reason r) \<and>
     e_state r \<in> set OPERATION_STATES \<and> isUtcTimestamp (e_started r) \<and> isUtcTimestamp (e_finished r) \<and>
     validateEvidence (e_phase r) (e_evidence r) \<noteq> None \<and>
     (e_backup r \<noteq> JUndefined \<longrightarrow>
        (case sanitizeBackupResult (e_backup r) of
           None \<Rightarrow> False
         | Some b \<Rightarrow> e_phase r = PhaseBackup \<longrightarrow> b_run b = e_operation r)) \<and>
     (e_artifact r \<noteq> JUndefined \<longrightarrow> artifact_ok (e_artifact r))"

section \<open>Lemmas\<close>

lemma state_text_inj [simp]: "state_text a = state_text b \<longleftrightarrow> a = b"
  by (cases a; cases b) (simp_all add: state_text_def js_def)

lemma state_of_text_text [simp]: "state_of_text (state_text st) = Some st"
  by (cases st) (simp_all add: state_of_text_def BACKUP_STATES_def)

lemma state_of_text_Some: "state_of_text s = Some st \<Longrightarrow> s = state_text st"
  by (auto simp: state_of_text_def find_Some_iff)

declare js_eq [simp]

definition safe_int :: "int \<Rightarrow> bool" where
  "safe_int n \<longleftrightarrow> \<bar>n\<bar> \<le> 9007199254740991"

lemma int_field_jnat [simp]: "int_field (jnat n) = (if safe_int n then Some n else None)"
  by (simp add: int_field_def jnat_def safe_integer_def rat_is_int_def safe_int_def flip: of_int_abs)

lemma text_field_Some: "text_field p v = Some s \<longleftrightarrow> v = JStr s \<and> p s"
  by (auto simp: text_field_def split: js_value.splits)

lemma get_here [simp]: "map_of ((js k, v) # ps) (js j) = (if j = k then Some v else map_of ps (js j))"
  by auto

lemma get_optional [simp]:
  "map_of (optional_prop k f x @ ps) (js j) =
     (if j = k then (case x of None \<Rightarrow> map_of ps (js j) | Some y \<Rightarrow> Some (f y)) else map_of ps (js j))"
  by (auto simp: optional_prop_def split: option.splits)

lemma keys_optional [simp]: "fst ` set (optional_prop k f x) \<subseteq> {js k}"
  by (auto simp: optional_prop_def split: option.splits)

text \<open>What the reader accepts, field by field.\<close>

definition valid_ledger_row :: "ledger_row \<Rightarrow> bool" where
  "valid_ledger_row r \<longleftrightarrow> matches_all is_digit 4 (l_version r) \<and>
     repeat_in (\<lambda>c. is_lower c \<or> is_digit c \<or> c = 95 \<or> c = 45) 1 128 (l_name r) \<and> isSha256 (l_checksum r)"

definition if_present :: "('a \<Rightarrow> bool) \<Rightarrow> 'a option \<Rightarrow> bool" where
  "if_present p x \<longleftrightarrow> (case x of None \<Rightarrow> True | Some y \<Rightarrow> p y)"

definition valid_result :: "backup_result \<Rightarrow> bool" where
  "valid_result r \<longleftrightarrow> safe_int (b_exit r) \<and> reason_text (b_reason r) \<and> run_id_text (b_run r) \<and> isUtcTimestamp (b_started r) \<and>
     duration_field (JNum (b_duration r)) = Some (b_duration r) \<and> recipient_text (b_recipient r) \<and> build_text (b_build r) \<and>
     if_present isUtcTimestamp (b_snapshot r) \<and> if_present (\<lambda>rows. length rows \<le> 256 \<and> list_all valid_ledger_row rows) (b_ledger r) \<and>
     if_present isSafeObjectKey (b_manifest r) \<and> if_present (\<lambda>n. safe_int n \<and> 0 < n) (b_bytes r) \<and>
     if_present isSha256 (b_sha r) \<and> if_present reason_text (b_cleanup r)"

lemma optional_field_Some: "optional_field f v = Some x \<longleftrightarrow> (v = JUndefined \<and> x = None) \<or> (v \<noteq> JUndefined \<and> (\<exists>y. f v = Some y \<and> x = Some y))"
  by (cases v) (auto simp: optional_field_def)

lemma int_field_Some: "int_field v = Some n \<Longrightarrow> safe_int n"
  by (auto simp: int_field_def safe_integer_def rat_is_int_def safe_int_def split: js_value.splits option.splits if_splits)

lemma ledger_row_of_Some: "ledger_row_of v = Some r \<Longrightarrow> valid_ledger_row r"
  by (auto simp: ledger_row_of_def valid_ledger_row_def text_field_Some split: if_splits option.splits)

lemma collect_Some: "collect f xs = Some ys \<Longrightarrow> length ys = length xs \<and> (\<forall>y \<in> set ys. \<exists>x. f x = Some y)"
  by (induction xs arbitrary: ys) (fastforce split: option.splits)+

lemma collect_map: "(\<And>y. y \<in> set ys \<Longrightarrow> f (g y) = Some y) \<Longrightarrow> collect f (map g ys) = Some ys"
  by (induction ys) auto

lemma sanitizeD:
  assumes "sanitizeBackupResult v = Some r"
  shows "int_field (js_get ''exit_code'' v) = Some (b_exit r)" "text_field reason_text (js_get ''reason_code'' v) = Some (b_reason r)"
    "text_field run_id_text (js_get ''run_id'' v) = Some (b_run r)" "text_field isUtcTimestamp (js_get ''run_started_at'' v) = Some (b_started r)"
    "duration_field (js_get ''duration_ms'' v) = Some (b_duration r)"
    "text_field recipient_text (js_get ''recipient_key_id'' v) = Some (b_recipient r)" "text_field build_text (js_get ''app_build_sha'' v) = Some (b_build r)"
    "optional_field (text_field isUtcTimestamp) (js_get ''snapshot_started_at'' v) = Some (b_snapshot r)"
    "optional_field ledger_of (js_get ''migration_ledger'' v) = Some (b_ledger r)"
    "optional_field (text_field isSafeObjectKey) (js_get ''manifest_id'' v) = Some (b_manifest r)"
    "optional_field positive_field (js_get ''archive_encrypted_bytes'' v) = Some (b_bytes r)"
    "optional_field (text_field isSha256) (js_get ''archive_encrypted_sha256'' v) = Some (b_sha r)"
    "optional_field (text_field reason_text) (js_get ''cleanup_error_code'' v) = Some (b_cleanup r)"
  using assms by (auto simp: sanitizeBackupResult_def split: if_splits option.splits)

lemma optional_present: "optional_field f v = Some x \<Longrightarrow> (\<And>y. f v = Some y \<Longrightarrow> p y) \<Longrightarrow> if_present p x"
  by (auto simp: optional_field_Some if_present_def)

lemma optional_text: "optional_field (text_field p) v = Some x \<Longrightarrow> if_present p x"
  by (auto simp: optional_field_Some if_present_def text_field_Some)

lemma sanitize_valid: "sanitizeBackupResult v = Some r \<Longrightarrow> valid_result r"
proof -
  assume s: "sanitizeBackupResult v = Some r"
  note f = sanitizeD [OF s]
  have d: "duration_field w = Some n \<Longrightarrow> duration_field (JNum n) = Some n" for w n
    by (auto simp: duration_field_def split: js_value.splits option.splits if_splits)
  have l: "ledger_of w = Some rows \<Longrightarrow> length rows \<le> 256 \<and> list_all valid_ledger_row rows" for w rows
    by (auto simp: ledger_of_def list_all_iff split: js_value.splits if_splits dest!: collect_Some dest: ledger_row_of_Some)
  have p: "positive_field w = Some n \<Longrightarrow> safe_int n \<and> 0 < n" for w n
    by (auto simp: positive_field_def int_field_Some split: option.splits if_splits)
  show ?thesis unfolding valid_result_def
    using f(1-7) int_field_Some [OF f(1)] d [OF f(5)] optional_text [OF f(8)] optional_present [OF f(9) l] optional_text [OF f(10)]
      optional_present [OF f(11) p] optional_text [OF f(12)] optional_text [OF f(13)]
    by (simp add: text_field_Some)
qed

lemma ledger_row_round: "valid_ledger_row r \<Longrightarrow> ledger_row_of (ledger_row_value r) = Some r"
  by (cases r) (simp add: ledger_row_of_def ledger_row_value_def isRecord_def exactKeys_def props_def js_get_def text_field_def valid_ledger_row_def)

lemma result_keys: "exactKeys (backup_result_value r) RESULT_FIELDS"
  by (auto simp: exactKeys_def backup_result_value_def props_def RESULT_FIELDS_def list_all_iff optional_prop_def split: option.splits)

lemma result_gets:
  "js_get ''result_version'' (backup_result_value r) = jnat 1" "js_get ''state'' (backup_result_value r) = JStr (state_text (b_state r))"
  "js_get ''exit_code'' (backup_result_value r) = jnat (b_exit r)" "js_get ''reason_code'' (backup_result_value r) = JStr (b_reason r)"
  "js_get ''run_id'' (backup_result_value r) = JStr (b_run r)" "js_get ''run_started_at'' (backup_result_value r) = JStr (b_started r)"
  "js_get ''duration_ms'' (backup_result_value r) = JNum (b_duration r)"
  "js_get ''recipient_key_id'' (backup_result_value r) = JStr (b_recipient r)" "js_get ''app_build_sha'' (backup_result_value r) = JStr (b_build r)"
  by (simp_all add: backup_result_value_def js_get_def props_def del: map_of_append split: option.splits)

lemma result_gets_optional:
  "js_get ''snapshot_started_at'' (backup_result_value r) = (case b_snapshot r of None \<Rightarrow> JUndefined | Some s \<Rightarrow> JStr s)"
  "js_get ''migration_ledger'' (backup_result_value r) = (case b_ledger r of None \<Rightarrow> JUndefined | Some rows \<Rightarrow> JArr (map ledger_row_value rows))"
  "js_get ''manifest_id'' (backup_result_value r) = (case b_manifest r of None \<Rightarrow> JUndefined | Some s \<Rightarrow> JStr s)"
  "js_get ''archive_encrypted_bytes'' (backup_result_value r) = (case b_bytes r of None \<Rightarrow> JUndefined | Some n \<Rightarrow> jnat n)"
  "js_get ''archive_encrypted_sha256'' (backup_result_value r) = (case b_sha r of None \<Rightarrow> JUndefined | Some s \<Rightarrow> JStr s)"
  "js_get ''cleanup_error_code'' (backup_result_value r) = (case b_cleanup r of None \<Rightarrow> JUndefined | Some s \<Rightarrow> JStr s)"
  by (simp_all add: backup_result_value_def js_get_def props_def del: map_of_append split: option.splits)

lemma sanitize_round:
  assumes "valid_result r"
  shows "sanitizeBackupResult (backup_result_value r) = Some r"
proof -
  have l: "ledger_of (JArr (map ledger_row_value rows)) = Some rows" if "length rows \<le> 256 \<and> list_all valid_ledger_row rows" for rows
    using that by (auto simp: ledger_of_def list_all_iff intro!: collect_map ledger_row_round)
  have rec: "isRecord (backup_result_value r)" "is_version_1 (jnat 1)"
    by (simp_all add: backup_result_value_def isRecord_def is_version_1_def jnat_def)
  have o: "optional_field f (case x of None \<Rightarrow> JUndefined | Some y \<Rightarrow> g y) = Some x" if "\<And>y. x = Some y \<Longrightarrow> g y \<noteq> JUndefined \<and> f (g y) = Some y"
    for f :: "js_value \<Rightarrow> 'a option" and g x using that by (auto simp: optional_field_Some split: option.splits)
  note v = assms [unfolded valid_result_def if_present_def]
  have "optional_field (text_field isUtcTimestamp) (js_get ''snapshot_started_at'' (backup_result_value r)) = Some (b_snapshot r)"
    "optional_field (text_field isSafeObjectKey) (js_get ''manifest_id'' (backup_result_value r)) = Some (b_manifest r)"
    "optional_field (text_field isSha256) (js_get ''archive_encrypted_sha256'' (backup_result_value r)) = Some (b_sha r)"
    "optional_field (text_field reason_text) (js_get ''cleanup_error_code'' (backup_result_value r)) = Some (b_cleanup r)"
    "optional_field ledger_of (js_get ''migration_ledger'' (backup_result_value r)) = Some (b_ledger r)"
    "optional_field positive_field (js_get ''archive_encrypted_bytes'' (backup_result_value r)) = Some (b_bytes r)"
    unfolding result_gets_optional by (rule o; use v l in \<open>simp add: text_field_def positive_field_def; simp add: jnat_def\<close>)+
  moreover have "duration_field (JNum (b_duration r)) = Some (b_duration r)" using v by simp
  ultimately show ?thesis
    using v by (simp add: sanitizeBackupResult_def result_keys rec result_gets text_field_def del: duration_field_def)
qed

end
