(* ===== verification/SchedulerJournal.thy ===== *)
theory SchedulerJournal
  imports Evidence
begin

text \<open>
  The journal of backup attempts, \<^verbatim>\<open>operations/fileSchedulerJournal.ts\<close>: the check of one record,
  the committed part of the file, reading and appending.  \<^verbatim>\<open>JSON.stringify\<close> to UTF-8 bytes and
  \<^verbatim>\<open>JSON.parse\<close> of a line are the record \<open>line_codec\<close>.  A write may stop after any number of bytes.
\<close>

section \<open>Events\<close>

record started_event =
  sa_slot :: jsstring
  sa_attempt :: int
  sa_run :: jsstring
  sa_at :: jsstring

record finished_event =
  fi_slot :: jsstring
  fi_attempt :: int
  fi_run :: jsstring
  fi_at :: jsstring
  fi_state :: backup_state
  fi_exit :: int
  fi_reason :: jsstring
  fi_retry :: "jsstring option"
  fi_result :: "backup_result option"

datatype sched_event = AttemptStarted started_event | AttemptFinished finished_event

definition attempt_field :: "js_value \<Rightarrow> int option" where
  "attempt_field v = (case int_field v of None \<Rightarrow> None | Some n \<Rightarrow> if n < 1 \<or> n > 2 then None else Some n)"

definition retry_field :: "js_value \<Rightarrow> jsstring option option" where
  "retry_field v = (case v of JNull \<Rightarrow> Some None | _ \<Rightarrow> map_option Some (text_field isUtcTimestamp v))"

definition STARTED_KEYS :: "string list" where
  "STARTED_KEYS = [''event_version'', ''kind'', ''slot_id'', ''attempt'', ''run_id'', ''started_at_utc'']"

definition FINISHED_KEYS :: "string list" where
  "FINISHED_KEYS = [''event_version'', ''kind'', ''slot_id'', ''attempt'', ''run_id'', ''finished_at_utc'', ''state'', ''exit_code'',
     ''reason_code'', ''retry_at_utc'', ''backup_result'']"

text \<open>\<^verbatim>\<open>parseEvent\<close> after the JSON was read.\<close>

definition same_result :: "backup_result \<Rightarrow> jsstring \<Rightarrow> backup_state \<Rightarrow> int \<Rightarrow> jsstring \<Rightarrow> bool" where
  "same_result b run st ec rc \<longleftrightarrow> b_run b = run \<and> b_state b = st \<and> b_exit b = ec \<and> b_reason b = rc"

definition parse_event :: "js_value \<Rightarrow> sched_event option" where
  "parse_event v =
     (if \<not> isRecord v \<or> \<not> is_version_1 (js_get ''event_version'' v) then None
      else
        (case (text_field isUtcTimestamp (js_get ''slot_id'' v), attempt_field (js_get ''attempt'' v), text_field run_id_text (js_get ''run_id'' v)) of
           (Some slot, Some attempt, Some run) \<Rightarrow>
             (if js_get ''kind'' v = JStr (js ''attempt_started'') then
                (if \<not> exactKeys v STARTED_KEYS then None
                 else map_option (\<lambda>tm. AttemptStarted \<lparr>sa_slot = slot, sa_attempt = attempt, sa_run = run, sa_at = tm\<rparr>)
                   (text_field isUtcTimestamp (js_get ''started_at_utc'' v)))
              else if js_get ''kind'' v = JStr (js ''attempt_finished'') then
                (if \<not> exactKeys v FINISHED_KEYS then None
                 else
                   (case (text_field isUtcTimestamp (js_get ''finished_at_utc'' v),
                          Option.bind (text_field (\<lambda>_. True) (js_get ''state'' v)) state_of_text,
                          int_field (js_get ''exit_code'' v), text_field reason_text (js_get ''reason_code'' v),
                          retry_field (js_get ''retry_at_utc'' v), optional_field sanitizeBackupResult (js_get ''backup_result'' v)) of
                      (Some tm, Some st, Some ec, Some rc, Some retry, Some res) \<Rightarrow>
                        (if \<not> if_present (\<lambda>b. same_result b run st ec rc) res then None
                         else Some (AttemptFinished \<lparr>fi_slot = slot, fi_attempt = attempt, fi_run = run, fi_at = tm, fi_state = st,
                           fi_exit = ec, fi_reason = rc, fi_retry = retry, fi_result = res\<rparr>))
                    | _ \<Rightarrow> None))
              else None)
         | _ \<Rightarrow> None))"

definition event_value :: "sched_event \<Rightarrow> js_value" where
  "event_value e =
     (case e of
        AttemptStarted s \<Rightarrow>
          JObj [(js ''event_version'', jnat 1), (js ''kind'', JStr (js ''attempt_started'')), (js ''slot_id'', JStr (sa_slot s)),
            (js ''attempt'', jnat (sa_attempt s)), (js ''run_id'', JStr (sa_run s)), (js ''started_at_utc'', JStr (sa_at s))]
      | AttemptFinished f \<Rightarrow>
          JObj ([(js ''event_version'', jnat 1), (js ''kind'', JStr (js ''attempt_finished'')), (js ''slot_id'', JStr (fi_slot f)),
            (js ''attempt'', jnat (fi_attempt f)), (js ''run_id'', JStr (fi_run f)), (js ''finished_at_utc'', JStr (fi_at f)),
            (js ''state'', JStr (state_text (fi_state f))), (js ''exit_code'', jnat (fi_exit f)), (js ''reason_code'', JStr (fi_reason f)),
            (js ''retry_at_utc'', case fi_retry f of None \<Rightarrow> JNull | Some t \<Rightarrow> JStr t)] @
            optional_prop ''backup_result'' backup_result_value (fi_result f)))"

section \<open>The file\<close>

record line_codec =
  lc_write :: "js_value \<Rightarrow> buffer"
  lc_read :: "buffer \<Rightarrow> js_value option"

definition MAX_JOURNAL :: nat where
  "MAX_JOURNAL = 16777216"

definition MAX_EVENT :: nat where
  "MAX_EVENT = 65536"

datatype journal_error = JournalReadFailed | JournalSizeLimit | JournalCorrupt | RecordInvalid | EventSizeLimit | PermissionsInvalid | AppendFailed

definition parseEvent :: "line_codec \<Rightarrow> buffer \<Rightarrow> sched_event option" where
  "parseEvent lc line = (if length line > MAX_EVENT then None else Option.bind (lc_read lc line) parse_event)"

fun split_lines :: "buffer \<Rightarrow> buffer \<Rightarrow> buffer list" where
  "split_lines acc [] = []"
| "split_lines acc (b # bs) = (if b = 10 then rev acc # split_lines [] bs else split_lines (b # acc) bs)"

definition committed :: "buffer \<Rightarrow> buffer" where
  "committed s = rev (dropWhile (\<lambda>b. b \<noteq> 10) (rev s))"

definition parseCommittedRecords :: "line_codec \<Rightarrow> buffer \<Rightarrow> sched_event list option" where
  "parseCommittedRecords lc s = collect (parseEvent lc) (split_lines [] (committed s))"

text \<open>The file's bytes, if it exists, and whether it is a regular file with a private mode.\<close>

record journal_file =
  j_contents :: "buffer option"
  j_regular :: bool
  j_private :: bool

definition readEvents :: "line_codec \<Rightarrow> journal_file \<Rightarrow> journal_error + sched_event list" where
  "readEvents lc f =
     (case j_contents f of
        None \<Rightarrow> Inr []
      | Some s \<Rightarrow>
          if \<not> j_regular f \<or> \<not> j_private f then Inl JournalReadFailed
          else if length s > MAX_JOURNAL then Inl JournalSizeLimit
          else (case parseCommittedRecords lc s of None \<Rightarrow> Inl JournalCorrupt | Some es \<Rightarrow> Inr es))"

text \<open>
  \<open>fault\<close> is the number of bytes written before the operation stopped, or \<open>None\<close> when it went through;
  a fault after the last byte is a failed \<^verbatim>\<open>fsync\<close>.
\<close>

definition append_event :: "line_codec \<Rightarrow> nat option \<Rightarrow> sched_event \<Rightarrow> journal_file \<Rightarrow> journal_file \<times> (journal_error + unit)" where
  "append_event lc fault e f =
     (let line = lc_write lc (event_value e); serialized = line @ [10] in
      if parseEvent lc line = None then (f, Inl RecordInvalid)
      else
        (let f1 = (case j_contents f of
               None \<Rightarrow> f\<lparr>j_contents := Some [], j_regular := True, j_private := True\<rparr> | Some s \<Rightarrow> f\<lparr>j_private := True\<rparr>);
             s = (case j_contents f1 of None \<Rightarrow> [] | Some s \<Rightarrow> s); c = committed s in
         if \<not> j_regular f1 then (f1, Inl PermissionsInvalid)
         else if length serialized > MAX_EVENT then (f1, Inl EventSizeLimit)
         else if length s > MAX_JOURNAL then (f1, Inl JournalSizeLimit)
         else if parseCommittedRecords lc c = None then (f1, Inl AppendFailed)
         else if length c + length serialized > MAX_JOURNAL then (f1\<lparr>j_contents := Some c\<rparr>, Inl JournalSizeLimit)
         else
           (case fault of
              None \<Rightarrow> (f1\<lparr>j_contents := Some (c @ serialized)\<rparr>, Inr ())
            | Some n \<Rightarrow> (f1\<lparr>j_contents := Some (c @ take n serialized)\<rparr>, Inl AppendFailed))))"

section \<open>Records come back\<close>

definition valid_event :: "sched_event \<Rightarrow> bool" where
  "valid_event e =
     (case e of
        AttemptStarted s \<Rightarrow> isUtcTimestamp (sa_slot s) \<and> sa_attempt s \<in> {1, 2} \<and> run_id_text (sa_run s) \<and> isUtcTimestamp (sa_at s)
      | AttemptFinished f \<Rightarrow> isUtcTimestamp (fi_slot f) \<and> fi_attempt f \<in> {1, 2} \<and> run_id_text (fi_run f) \<and> isUtcTimestamp (fi_at f) \<and>
          safe_int (fi_exit f) \<and> reason_text (fi_reason f) \<and> if_present isUtcTimestamp (fi_retry f) \<and>
          if_present (\<lambda>b. valid_result b \<and> same_result b (fi_run f) (fi_state f) (fi_exit f) (fi_reason f)) (fi_result f))"

lemma attempt_field_Some: "attempt_field v = Some n \<Longrightarrow> n \<in> {1, 2}"
  by (auto simp: attempt_field_def split: option.splits if_splits)

lemma attempt_field_jnat [simp]: "n \<in> {1, 2} \<Longrightarrow> attempt_field (jnat n) = Some n"
  by (auto simp: attempt_field_def safe_int_def)

lemma retry_field_Some: "retry_field v = Some r \<Longrightarrow> if_present isUtcTimestamp r"
  by (auto simp: retry_field_def if_present_def text_field_def split: js_value.splits if_splits)

lemma parse_event_valid: "parse_event v = Some e \<Longrightarrow> valid_event e"
proof -
  assume p: "parse_event v = Some e"
  obtain slot attempt run where h: "isUtcTimestamp slot" "attempt_field (js_get ''attempt'' v) = Some attempt" "run_id_text run"
    and k: "(\<exists>tm. isUtcTimestamp tm \<and> e = AttemptStarted \<lparr>sa_slot = slot, sa_attempt = attempt, sa_run = run, sa_at = tm\<rparr>) \<or>
      (\<exists>tm st ec rc retry res. text_field isUtcTimestamp (js_get ''finished_at_utc'' v) = Some tm \<and>
         int_field (js_get ''exit_code'' v) = Some ec \<and> text_field reason_text (js_get ''reason_code'' v) = Some rc \<and>
         retry_field (js_get ''retry_at_utc'' v) = Some retry \<and> optional_field sanitizeBackupResult (js_get ''backup_result'' v) = Some res \<and>
         if_present (\<lambda>b. same_result b run st ec rc) res \<and>
         e = AttemptFinished \<lparr>fi_slot = slot, fi_attempt = attempt, fi_run = run, fi_at = tm, fi_state = st,
            fi_exit = ec, fi_reason = rc, fi_retry = retry, fi_result = res\<rparr>)"
    using p by (simp add: parse_event_def split: if_splits option.splits) (auto simp: text_field_Some)
  have r: "optional_field sanitizeBackupResult w = Some res \<Longrightarrow> if_present valid_result res" for w res
    by (rule optional_present) (auto intro: sanitize_valid)
  note a = attempt_field_Some [OF h(2)]
  from k show ?thesis
  proof
    assume "\<exists>tm. isUtcTimestamp tm \<and> e = AttemptStarted \<lparr>sa_slot = slot, sa_attempt = attempt, sa_run = run, sa_at = tm\<rparr>"
    then show ?thesis using h a by (auto simp: valid_event_def)
  next
    assume "\<exists>tm st ec rc retry res. text_field isUtcTimestamp (js_get ''finished_at_utc'' v) = Some tm \<and>
         int_field (js_get ''exit_code'' v) = Some ec \<and> text_field reason_text (js_get ''reason_code'' v) = Some rc \<and>
         retry_field (js_get ''retry_at_utc'' v) = Some retry \<and> optional_field sanitizeBackupResult (js_get ''backup_result'' v) = Some res \<and>
         if_present (\<lambda>b. same_result b run st ec rc) res \<and>
         e = AttemptFinished \<lparr>fi_slot = slot, fi_attempt = attempt, fi_run = run, fi_at = tm, fi_state = st,
            fi_exit = ec, fi_reason = rc, fi_retry = retry, fi_result = res\<rparr>"
    then obtain tm st ec rc retry res where f: "isUtcTimestamp tm" "safe_int ec" "reason_text rc" "if_present isUtcTimestamp retry"
      "if_present valid_result res" "if_present (\<lambda>b. same_result b run st ec rc) res"
      "e = AttemptFinished \<lparr>fi_slot = slot, fi_attempt = attempt, fi_run = run, fi_at = tm, fi_state = st,
            fi_exit = ec, fi_reason = rc, fi_retry = retry, fi_result = res\<rparr>"
      using int_field_Some retry_field_Some r by (auto simp: text_field_Some)
    then show ?thesis using h a by (auto simp: valid_event_def if_present_def split: option.splits)
  qed
qed

lemma started_round: "valid_event (AttemptStarted s) \<Longrightarrow> parse_event (event_value (AttemptStarted s)) = Some (AttemptStarted s)"
proof -
  assume v: "valid_event (AttemptStarted s)"
  have "exactKeys (event_value (AttemptStarted s)) STARTED_KEYS"
    by (simp add: exactKeys_def event_value_def props_def STARTED_KEYS_def)
  then show ?thesis using v
    by (cases s) (simp add: parse_event_def event_value_def isRecord_def is_version_1_def js_get_def props_def jnat_def [symmetric]
        text_field_def valid_event_def del: insert_iff, simp add: jnat_def)
qed

lemma finished_gets:
  "js_get ''event_version'' (event_value (AttemptFinished f)) = jnat 1" "js_get ''kind'' (event_value (AttemptFinished f)) = JStr (js ''attempt_finished'')" "js_get ''slot_id'' (event_value (AttemptFinished f)) = JStr (fi_slot f)"
    "js_get ''attempt'' (event_value (AttemptFinished f)) = jnat (fi_attempt f)" "js_get ''run_id'' (event_value (AttemptFinished f)) = JStr (fi_run f)" "js_get ''finished_at_utc'' (event_value (AttemptFinished f)) = JStr (fi_at f)"
    "js_get ''state'' (event_value (AttemptFinished f)) = JStr (state_text (fi_state f))" "js_get ''exit_code'' (event_value (AttemptFinished f)) = jnat (fi_exit f)" "js_get ''reason_code'' (event_value (AttemptFinished f)) = JStr (fi_reason f)"
    "js_get ''retry_at_utc'' (event_value (AttemptFinished f)) = (case fi_retry f of None \<Rightarrow> JNull | Some t \<Rightarrow> JStr t)"
    "js_get ''backup_result'' (event_value (AttemptFinished f)) = (case fi_result f of None \<Rightarrow> JUndefined | Some b \<Rightarrow> backup_result_value b)"
  by (simp_all add: event_value_def js_get_def props_def optional_prop_def split: option.splits)

lemma finished_round: "valid_event (AttemptFinished f) \<Longrightarrow> parse_event (event_value (AttemptFinished f)) = Some (AttemptFinished f)"
proof -
  assume v: "valid_event (AttemptFinished f)"
  let ?v = "event_value (AttemptFinished f)"
  have k: "exactKeys ?v FINISHED_KEYS"
    by (auto simp: exactKeys_def event_value_def props_def FINISHED_KEYS_def optional_prop_def list_all_iff split: option.splits)
  note g = finished_gets
  have o: "optional_field sanitizeBackupResult (js_get ''backup_result'' ?v) = Some (fi_result f)"
    using v sanitize_round unfolding g by (auto simp: valid_event_def optional_field_Some if_present_def backup_result_value_def [THEN arg_cong [where f = "\<lambda>x. x \<noteq> JUndefined"]] split: option.splits)
  have r: "retry_field (js_get ''retry_at_utc'' ?v) = Some (fi_retry f)"
    using v unfolding g by (auto simp: valid_event_def retry_field_def if_present_def text_field_def split: option.splits)
  have s: "if_present (\<lambda>b. same_result b (fi_run f) (fi_state f) (fi_exit f) (fi_reason f)) (fi_result f)"
    using v by (auto simp: valid_event_def if_present_def split: option.splits)
  have i: "isRecord ?v" "is_version_1 (jnat 1)" by (simp_all add: event_value_def isRecord_def is_version_1_def jnat_def)
  show ?thesis unfolding parse_event_def o r using v s i k
    by (simp add: g(1-9) text_field_def valid_event_def del: insert_iff)
qed

text \<open>Whatever a written value reads back as is the value that was written.\<close>

lemma sanitize_of_value: "sanitizeBackupResult (backup_result_value r) = Some r' \<Longrightarrow> r' = r"
proof -
  assume s: "sanitizeBackupResult (backup_result_value r) = Some r'"
  have st: "b_state r' = b_state r"
    using s by (auto simp: sanitizeBackupResult_def result_gets text_field_def split: if_splits option.splits)
  have du: "duration_field (JNum n) = Some m \<Longrightarrow> m = n" for n m by (auto simp: duration_field_def split: option.splits if_splits)
  have lr: "ledger_row_of (ledger_row_value x) = Some y \<Longrightarrow> y = x" for x y
    by (cases x) (auto simp: ledger_row_of_def ledger_row_value_def js_get_def props_def text_field_Some split: if_splits option.splits)
  have lc: "collect ledger_row_of (map ledger_row_value rows) = Some ys \<Longrightarrow> ys = rows" for rows ys
    by (induction rows arbitrary: ys) (auto split: option.splits dest: lr)
  have lg: "ledger_of (JArr (map ledger_row_value rows)) = Some ys \<Longrightarrow> ys = rows" for rows ys
    using lc by (auto simp: ledger_of_def split: if_splits)
  have po: "positive_field (jnat n) = Some m \<Longrightarrow> m = n" for n m by (auto simp: positive_field_def split: if_splits)
  have op: "optional_field f (case x of None \<Rightarrow> JUndefined | Some y \<Rightarrow> g y) = Some z \<Longrightarrow> (\<And>y w. f (g y) = Some w \<Longrightarrow> w = y) \<Longrightarrow>
      (\<And>y. g y \<noteq> JUndefined) \<Longrightarrow> z = x" for f :: "js_value \<Rightarrow> 'a option" and g x z
    by (cases x) (auto simp: optional_field_Some)
  note f = sanitizeD [OF s, unfolded result_gets result_gets_optional]
  have "b_exit r' = b_exit r" "b_reason r' = b_reason r" "b_run r' = b_run r" "b_started r' = b_started r" "b_duration r' = b_duration r"
    "b_recipient r' = b_recipient r" "b_build r' = b_build r"
    using f(1-7) du by (auto simp: text_field_Some split: if_splits)
  moreover have "b_snapshot r' = b_snapshot r" "b_ledger r' = b_ledger r" "b_manifest r' = b_manifest r" "b_bytes r' = b_bytes r"
    "b_sha r' = b_sha r" "b_cleanup r' = b_cleanup r"
    by (rule op [OF f(8)], simp_all add: text_field_Some, rule op [OF f(9) lg], simp_all, rule op [OF f(10)], simp_all add: text_field_Some,
        rule op [OF f(11) po], simp_all add: jnat_def, rule op [OF f(12)], simp_all add: text_field_Some, rule op [OF f(13)], simp_all add: text_field_Some)
  ultimately show "r' = r" using st by simp
qed

lemma result_value_defined [simp]: "backup_result_value r \<noteq> JUndefined"
  by (simp add: backup_result_value_def)

lemma parse_of_value: "parse_event (event_value e) = Some e' \<Longrightarrow> e' = e"
proof (cases e)
  case (AttemptStarted s)
  assume p: "parse_event (event_value e) = Some e'"
  have a: "attempt_field (jnat n) = Some m \<Longrightarrow> m = n" for n m by (auto simp: attempt_field_def split: if_splits)
  show ?thesis using p AttemptStarted
    by (cases s) (auto simp: parse_event_def event_value_def js_get_def props_def text_field_def split: if_splits option.splits dest!: a)
next
  case (AttemptFinished f)
  assume p: "parse_event (event_value e) = Some e'"
  have a: "attempt_field (jnat n) = Some m \<Longrightarrow> m = n" for n m by (auto simp: attempt_field_def split: if_splits)
  have r: "retry_field (case x of None \<Rightarrow> JNull | Some t \<Rightarrow> JStr t) = Some z \<Longrightarrow> z = x" for x z
    by (auto simp: retry_field_def text_field_def split: option.splits if_splits)
  have o: "optional_field sanitizeBackupResult (case x of None \<Rightarrow> JUndefined | Some b \<Rightarrow> backup_result_value b) = Some z \<Longrightarrow> z = x" for x z
    by (cases x) (auto simp: optional_field_Some sanitize_of_value)
  let ?v = "event_value (AttemptFinished f)"
  have "\<exists>x y. retry_field (js_get ''retry_at_utc'' ?v) = Some x \<and> optional_field sanitizeBackupResult (js_get ''backup_result'' ?v) = Some y \<and>
      e' = AttemptFinished \<lparr>fi_slot = fi_slot f, fi_attempt = fi_attempt f, fi_run = fi_run f, fi_at = fi_at f, fi_state = fi_state f,
        fi_exit = fi_exit f, fi_reason = fi_reason f, fi_retry = x, fi_result = y\<rparr>"
    using p unfolding AttemptFinished parse_event_def finished_gets(1-9)
    by (auto simp: text_field_def split: if_splits option.splits dest!: a)
  then show ?thesis using r o AttemptFinished unfolding finished_gets by fastforce
qed

lemma event_round: "valid_event e \<Longrightarrow> parse_event (event_value e) = Some e"
  by (cases e) (simp_all only: started_round finished_round)

section \<open>The file keeps what was committed\<close>

definition clean :: "buffer \<Rightarrow> bool" where
  "clean s \<longleftrightarrow> s = [] \<or> last s = 10"

lemma committed_clean: "clean (committed s)"
proof -
  have "dropWhile (\<lambda>b. b \<noteq> 10) (rev s) \<noteq> [] \<Longrightarrow> hd (dropWhile (\<lambda>b. b \<noteq> 10) (rev s)) = 10"
    using hd_dropWhile [of "\<lambda>b. b \<noteq> 10" "rev s"] by blast
  then show ?thesis by (auto simp: clean_def committed_def last_rev)
qed

lemma committed_tail: "clean c \<Longrightarrow> 10 \<notin> set x \<Longrightarrow> committed (c @ x) = c"
proof -
  assume c: "clean c" and x: "10 \<notin> set x"
  have "dropWhile (\<lambda>b. b \<noteq> 10) (rev x @ rev c) = dropWhile (\<lambda>b. b \<noteq> 10) (rev c)"
    using x by (intro dropWhile_append2) auto
  moreover have "dropWhile (\<lambda>b. b \<noteq> 10) (rev c) = rev c" using c by (cases c rule: rev_cases) (auto simp: clean_def)
  ultimately show ?thesis by (simp add: committed_def)
qed

lemma committed_self [simp]: "clean c \<Longrightarrow> committed c = c"
  using committed_tail [of c "[]"] by simp

lemma split_lines_step: "10 \<notin> set l \<Longrightarrow> split_lines acc (l @ 10 # r) = (rev acc @ l) # split_lines [] r"
  by (induction l arbitrary: acc) auto

lemma split_lines_append: "clean c \<Longrightarrow> acc = [] \<or> c \<noteq> [] \<Longrightarrow> split_lines acc (c @ r) = split_lines acc c @ split_lines [] r"
proof (induction c arbitrary: acc)
  case (Cons b c)
  then have "clean c" by (auto simp: clean_def split: if_splits)
  then show ?case using Cons by (auto simp: clean_def split: if_splits)
qed auto

lemma collect_append: "collect f (xs @ ys) = (case collect f xs of None \<Rightarrow> None | Some as \<Rightarrow> map_option ((@) as) (collect f ys))"
  by (cases "collect f ys"; induction xs) (auto split: option.splits)

lemma records_append:
  assumes "clean c" "10 \<notin> set l" "parseCommittedRecords lc c = Some es" "parseEvent lc l = Some e"
  shows "parseCommittedRecords lc (c @ l @ [10]) = Some (es @ [e])"
proof -
  have "clean (c @ l @ [10])" by (simp add: clean_def)
  then have "committed (c @ l @ [10]) = c @ l @ [10]" by (rule committed_self)
  then have "parseCommittedRecords lc (c @ l @ [10]) = collect (parseEvent lc) (split_lines [] c @ [l])"
    using split_lines_append [OF assms(1), of "[]" "l @ [10]"] split_lines_step [OF assms(2), of "[]" "[]"]
    by (simp add: parseCommittedRecords_def)
  then show ?thesis using assms by (simp add: collect_append parseCommittedRecords_def)
qed

lemma take_line: "take n (l @ [10]) = l @ [10] \<or> (\<exists>k. take n (l @ [10]) = take k l)"
  by (cases "n \<le> length l") (auto simp: take_Cons' intro: exI [of _ n])

text \<open>What the code relies on in the JSON codec: a record reads back, and its text has no line break.\<close>

definition good_codec :: "line_codec \<Rightarrow> bool" where
  "good_codec lc \<longleftrightarrow> (\<forall>e. lc_read lc (lc_write lc (event_value e)) = Some (event_value e) \<and> 10 \<notin> set (lc_write lc (event_value e)))"

lemma written_event:
  assumes "good_codec lc" "parseEvent lc (lc_write lc (event_value e)) \<noteq> None"
  shows "parseEvent lc (lc_write lc (event_value e)) = Some e" and "valid_event e"
proof -
  have "lc_read lc (lc_write lc (event_value e)) = Some (event_value e)" using assms(1) by (simp add: good_codec_def)
  then have p: "parseEvent lc (lc_write lc (event_value e)) = parse_event (event_value e)"
    using assms(2) by (simp add: parseEvent_def split: if_splits)
  then obtain e' where e': "parse_event (event_value e) = Some e'" using assms(2) by auto
  show "valid_event e" using parse_event_valid [OF e'] parse_of_value [OF e'] by simp
  then show "parseEvent lc (lc_write lc (event_value e)) = Some e" using p event_round by simp
qed

section \<open>The interface the scheduler uses\<close>

text \<open>
  \<open>rd\<close> reads the events or fails; \<open>ap\<close> appends one, and says whether it returned normally.  A failed
  append leaves the old events or the old ones with the new one, never less and never something else.
\<close>

locale attempt_journal =
  fixes ok :: bool and rd :: "'j \<Rightarrow> sched_event list option" and ap :: "'f \<Rightarrow> sched_event \<Rightarrow> 'j \<Rightarrow> 'j \<times> bool"
  assumes appended: "ok \<Longrightarrow> rd j = Some es \<Longrightarrow> ap flt e j = (j', True) \<Longrightarrow> rd j' = Some (es @ [e]) \<and> valid_event e"
    and failed: "ok \<Longrightarrow> rd j = Some es \<Longrightarrow> ap flt e j = (j', False) \<Longrightarrow> rd j' = Some es \<or> (rd j' = Some (es @ [e]) \<and> valid_event e)"
begin

lemma append_cases:
  assumes "ok" "rd j = Some es" "ap flt e j = (j', b)"
  obtains "rd j' = Some es" "\<not> b" | "rd j' = Some (es @ [e])" "valid_event e"
  using appended [OF assms(1,2), of flt e j'] failed [OF assms(1,2), of flt e j'] assms(3) by (cases b) auto

end

definition read_journal :: "line_codec \<Rightarrow> journal_file \<Rightarrow> sched_event list option" where
  "read_journal lc f = (case readEvents lc f of Inl e \<Rightarrow> None | Inr es \<Rightarrow> Some es)"

definition append_journal :: "line_codec \<Rightarrow> nat option \<Rightarrow> sched_event \<Rightarrow> journal_file \<Rightarrow> journal_file \<times> bool" where
  "append_journal lc fault e f = (case append_event lc fault e f of (f1, r) \<Rightarrow> (f1, r = Inr ()))"

definition file_holds :: "line_codec \<Rightarrow> journal_file \<Rightarrow> sched_event list \<Rightarrow> bool" where
  "file_holds lc f es \<longleftrightarrow> (\<exists>s. j_contents f = Some s \<and> j_regular f \<and> j_private f \<and> length s \<le> MAX_JOURNAL \<and> parseCommittedRecords lc s = Some es)"

lemma file_holds_read: "file_holds lc f es \<Longrightarrow> read_journal lc f = Some es"
  by (auto simp: file_holds_def read_journal_def readEvents_def)

lemma records_committed [simp]: "parseCommittedRecords lc (committed s) = parseCommittedRecords lc s"
  using committed_clean by (simp add: parseCommittedRecords_def)

lemma records_tail: "10 \<notin> set x \<Longrightarrow> parseCommittedRecords lc (committed s @ x) = parseCommittedRecords lc s"
  using committed_tail [OF committed_clean] by (simp add: parseCommittedRecords_def)

lemma committed_length: "length (committed s) \<le> length s"
  unfolding committed_def by (metis length_dropWhile_le length_rev)

text \<open>The file after it was opened holds what it held before; a missing file holds nothing.\<close>

lemma opened_holds:
  assumes "read_journal lc f = Some es"
  shows "file_holds lc (case j_contents f of None \<Rightarrow> f\<lparr>j_contents := Some [], j_regular := True, j_private := True\<rparr> | Some s \<Rightarrow> f\<lparr>j_private := True\<rparr>) es"
  using assms by (auto simp: file_holds_def read_journal_def readEvents_def parseCommittedRecords_def committed_def MAX_JOURNAL_def
      split: option.splits if_splits)

lemma append_from_opened:
  assumes lc: "good_codec lc" and h: "file_holds lc f1 es" and p: "parseEvent lc (lc_write lc (event_value e)) \<noteq> None"
    and s: "j_contents f1 = Some s" and fit: "length (committed s) + length (lc_write lc (event_value e) @ [10]) \<le> MAX_JOURNAL"
  shows "file_holds lc (f1\<lparr>j_contents := Some (committed s @ lc_write lc (event_value e) @ [10])\<rparr>) (es @ [e])"
    and "file_holds lc (f1\<lparr>j_contents := Some (committed s @ take n (lc_write lc (event_value e) @ [10]))\<rparr>) es \<or>
      file_holds lc (f1\<lparr>j_contents := Some (committed s @ take n (lc_write lc (event_value e) @ [10]))\<rparr>) (es @ [e])"
proof -
  let ?l = "lc_write lc (event_value e)"
  have es: "parseCommittedRecords lc (committed s) = Some es" "j_regular f1" "j_private f1" using h s by (auto simp: file_holds_def)
  have nl: "10 \<notin> set ?l" using lc by (simp add: good_codec_def)
  show full: "file_holds lc (f1\<lparr>j_contents := Some (committed s @ ?l @ [10])\<rparr>) (es @ [e])"
    using records_append [OF committed_clean nl es(1) written_event(1) [OF lc p]] es fit by (simp add: file_holds_def)
  from take_line [of n ?l] show "file_holds lc (f1\<lparr>j_contents := Some (committed s @ take n (?l @ [10]))\<rparr>) es \<or>
      file_holds lc (f1\<lparr>j_contents := Some (committed s @ take n (?l @ [10]))\<rparr>) (es @ [e])"
  proof
    assume "\<exists>k. take n (?l @ [10]) = take k ?l"
    then obtain k where k: "take n (?l @ [10]) = take k ?l" by blast
    have "10 \<notin> set (take k ?l)" using nl by (meson in_set_takeD)
    then have "parseCommittedRecords lc (committed s @ take k ?l) = Some es" using records_tail es(1) by simp
    moreover have "length (committed s @ take k ?l) \<le> MAX_JOURNAL" using fit by simp
    ultimately show ?thesis unfolding k using es by (simp add: file_holds_def)
  qed (use full in simp)
qed

lemma append_journal_file:
  assumes lc: "good_codec lc" and r: "read_journal lc f = Some es" and a: "append_event lc fault e f = (f', res)"
  shows "(res = Inr () \<longrightarrow> read_journal lc f' = Some (es @ [e]) \<and> valid_event e) \<and>
    (read_journal lc f' = Some es \<or> (read_journal lc f' = Some (es @ [e]) \<and> valid_event e))"
proof (cases "parseEvent lc (lc_write lc (event_value e)) = None")
  case True
  then show ?thesis using a r by (auto simp: append_event_def Let_def)
next
  case False
  define f1 where "f1 = (case j_contents f of None \<Rightarrow> f\<lparr>j_contents := Some [], j_regular := True, j_private := True\<rparr> | Some s \<Rightarrow> f\<lparr>j_private := True\<rparr>)"
  have h: "file_holds lc f1 es" using opened_holds [OF r] by (simp add: f1_def)
  then obtain s where s: "j_contents f1 = Some s" "j_regular f1" "length s \<le> MAX_JOURNAL" "parseCommittedRecords lc s = Some es" "j_private f1"
    by (auto simp: file_holds_def)
  obtain ev where ev: "parseEvent lc (lc_write lc (event_value e)) = Some ev" using False by auto
  let ?l = "lc_write lc (event_value e)" and ?c = "committed s"
  have v: "valid_event e" by (rule written_event(2) [OF lc False])
  have trunc: "file_holds lc (f1\<lparr>j_contents := Some ?c\<rparr>) es"
    using s committed_length [of s] by (simp add: file_holds_def)
  have e: "append_event lc fault e f =
      (if length (?l @ [10]) > MAX_EVENT then (f1, Inl EventSizeLimit)
       else if length ?c + length (?l @ [10]) > MAX_JOURNAL then (f1\<lparr>j_contents := Some ?c\<rparr>, Inl JournalSizeLimit)
       else (case fault of None \<Rightarrow> (f1\<lparr>j_contents := Some (?c @ ?l @ [10])\<rparr>, Inr ())
         | Some n \<Rightarrow> (f1\<lparr>j_contents := Some (?c @ take n (?l @ [10]))\<rparr>, Inl AppendFailed)))"
    using ev s by (cases fault) (simp_all add: append_event_def Let_def f1_def [symmetric])
  show ?thesis
  proof (cases "length (?l @ [10]) > MAX_EVENT \<or> length ?c + length (?l @ [10]) > MAX_JOURNAL")
    case True
    then show ?thesis using a e h trunc file_holds_read by (auto split: if_splits)
  next
    case fits: False
    then have fit: "length ?c + length (?l @ [10]) \<le> MAX_JOURNAL" by simp
    note ap = append_from_opened [OF lc h False s(1) fit]
    show ?thesis using a e fits ap(1) ap(2) v file_holds_read by (cases fault) auto
  qed
qed

interpretation file_journal: attempt_journal "good_codec lc" "read_journal lc" "append_journal lc"
proof
  fix f :: journal_file and es flt e f'
  assume lc: "good_codec lc" and r: "read_journal lc f = Some es"
  { assume "append_journal lc flt e f = (f', True)"
    then show "read_journal lc f' = Some (es @ [e]) \<and> valid_event e"
      using append_journal_file [OF lc r] by (auto simp: append_journal_def split: prod.splits) }
  { assume "append_journal lc flt e f = (f', False)"
    then show "read_journal lc f' = Some es \<or> (read_journal lc f' = Some (es @ [e]) \<and> valid_event e)"
      using append_journal_file [OF lc r] by (auto simp: append_journal_def split: prod.splits) }
qed

end
