(* ===== verification/Scheduler.thy ===== *)
theory Scheduler
  imports SchedulerJournal
begin

text \<open>
  The backup scheduler, \<^verbatim>\<open>operations/scheduler.ts\<close>, over any journal, and the session lock of
  \<^verbatim>\<open>operations/advisoryLock.ts\<close>.  One invocation reads the clock several times: \<open>io_clock i\<close> is its
  \<open>i\<close>-th reading.  The faults of its appends are inputs; a crash of the process is a failed append.
\<close>

section \<open>The session lock\<close>

datatype client_fate = ClientReturned | ClientDiscarded

datatype lock_attempt = LockThrows "client_fate option" | LockBusy client_fate | LockHeld

text \<open>
  The query answered a row, no row (\<open>Some None\<close>), or failed (\<open>None\<close>).  A failed query comes before the
  lock is known to be held, so its client goes back to the pool.
\<close>

definition tryAcquireSessionLock :: "bool \<Rightarrow> bool option option \<Rightarrow> lock_attempt" where
  "tryAcquireSessionLock pooled answer =
     (if \<not> pooled then LockThrows None
      else (case answer of None \<Rightarrow> LockThrows (Some ClientReturned)
          | Some row \<Rightarrow> if row = Some True then LockHeld else LockBusy ClientReturned))"

definition release_lock :: "bool option option \<Rightarrow> bool \<times> client_fate" where
  "release_lock answer = (if answer = Some (Some True) then (True, ClientReturned) else (False, ClientDiscarded))"

section \<open>Slots\<close>

definition BACKUP_SCHEDULE_UTC_HOURS :: "int list" where
  "BACKUP_SCHEDULE_UTC_HOURS = [0, 6, 12, 18]"

definition BACKUP_RETRY_DELAY_MS :: int where
  "BACKUP_RETRY_DELAY_MS = 900000"

definition BACKUP_MAX_ATTEMPTS_PER_SLOT :: int where
  "BACKUP_MAX_ATTEMPTS_PER_SLOT = 2"

definition latest_due_hour :: "int \<Rightarrow> int option" where
  "latest_due_hour t = find (\<lambda>c. c \<le> t div 3600000 mod 24) (rev BACKUP_SCHEDULE_UTC_HOURS)"

definition latestDueBackupSlot :: "int \<Rightarrow> jsstring option" where
  "latestDueBackupSlot t = map_option (\<lambda>h. toISOString (t div DAY_MS * DAY_MS + h * 3600000)) (latest_due_hour t)"

section \<open>One invocation\<close>

definition isRetryable :: "backup_state \<Rightarrow> bool" where
  "isRetryable st \<longleftrightarrow> st = Incomplete \<or> st = BlockedByMigration"

fun finishes :: "sched_event list \<Rightarrow> finished_event list" where
  "finishes [] = []"
| "finishes (AttemptFinished f # es) = f # finishes es"
| "finishes (AttemptStarted s # es) = finishes es"

fun starts :: "sched_event list \<Rightarrow> started_event list" where
  "starts [] = []"
| "starts (AttemptStarted s # es) = s # starts es"
| "starts (AttemptFinished f # es) = starts es"

definition finishedForSlot :: "sched_event list \<Rightarrow> jsstring \<Rightarrow> finished_event list" where
  "finishedForSlot es slot = filter (\<lambda>f. fi_slot f = slot) (finishes es)"

definition startedWithoutFinish :: "sched_event list \<Rightarrow> started_event list" where
  "startedWithoutFinish es = filter (\<lambda>s. sa_run s \<notin> fi_run ` set (finishes es)) (starts es)"

record 'f invocation_io =
  io_clock :: "nat \<Rightarrow> int"
  io_fault :: "nat \<Rightarrow> 'f"
  io_run :: jsstring
  io_backup :: "backup_result option"

datatype invocation =
  Attempted jsstring int backup_state int "jsstring option" "backup_result option"
| AlreadyFinal jsstring backup_state int
| SkippedInvocation jsstring
| RetryNotDue jsstring backup_state jsstring

definition crash_finish :: "started_event \<Rightarrow> int \<Rightarrow> int \<Rightarrow> sched_event" where
  "crash_finish a begun t =
     AttemptFinished \<lparr>fi_slot = sa_slot a, fi_attempt = sa_attempt a, fi_run = sa_run a, fi_at = toISOString t,
       fi_state = Incomplete, fi_exit = 1, fi_reason = js ''scheduler_crash_reconciled'',
       fi_retry = (if sa_attempt a < BACKUP_MAX_ATTEMPTS_PER_SLOT then Some (toISOString (begun + BACKUP_RETRY_DELAY_MS)) else None),
       fi_result = None\<rparr>"

text \<open>The loop over the abandoned attempts; the flag says whether it went through.\<close>

fun reconcile :: "('f \<Rightarrow> sched_event \<Rightarrow> 'j \<Rightarrow> 'j \<times> bool) \<Rightarrow> 'f invocation_io \<Rightarrow> nat \<Rightarrow> started_event list \<Rightarrow> 'j \<Rightarrow> 'j \<times> bool" where
  "reconcile ap io k [] j = (j, True)"
| "reconcile ap io k (a # as) j =
     (case date_parse (sa_at a) of
        None \<Rightarrow> (j, False)
      | Some begun \<Rightarrow>
          (case ap (io_fault io k) (crash_finish a begun (io_clock io (Suc k))) j of
             (j1, True) \<Rightarrow> reconcile ap io (Suc k) as j1
           | (j1, False) \<Rightarrow> (j1, False)))"

text \<open>What the latest finish of the slot means: an answer, the next attempt number, or a thrown error.\<close>

datatype decision = Decided invocation | NextAttempt int | DecisionThrows

definition decide_next :: "jsstring \<Rightarrow> int \<Rightarrow> finished_event option \<Rightarrow> decision" where
  "decide_next slot due latest =
     (case latest of
        None \<Rightarrow> NextAttempt 1
      | Some f \<Rightarrow>
          if fi_state f = BackupComplete \<or> fi_attempt f \<ge> BACKUP_MAX_ATTEMPTS_PER_SLOT \<or> \<not> isRetryable (fi_state f)
          then Decided (AlreadyFinal slot (fi_state f) (fi_exit f))
          else
            (case (case fi_retry f of Some r \<Rightarrow> Some r
                 | None \<Rightarrow> map_option (\<lambda>t. toISOString (t + BACKUP_RETRY_DELAY_MS)) (date_parse (fi_at f))) of
               None \<Rightarrow> DecisionThrows
             | Some retryAt \<Rightarrow>
                 (case date_parse retryAt of
                    None \<Rightarrow> NextAttempt (fi_attempt f + 1)
                  | Some r \<Rightarrow> if due < r then Decided (RetryNotDue slot (fi_state f) retryAt) else NextAttempt (fi_attempt f + 1))))"

text \<open>A result of another run is dropped, as a thrown one is.\<close>

definition own_result :: "jsstring \<Rightarrow> backup_result option \<Rightarrow> backup_result option" where
  "own_result run r = (case r of None \<Rightarrow> None | Some b \<Rightarrow> if b_run b \<noteq> run then None else Some b)"

definition finish_of :: "jsstring \<Rightarrow> int \<Rightarrow> jsstring \<Rightarrow> int \<Rightarrow> backup_result option \<Rightarrow> finished_event" where
  "finish_of slot attempt run t result =
     (let st = (case result of None \<Rightarrow> Incomplete | Some b \<Rightarrow> b_state b) in
      \<lparr>fi_slot = slot, fi_attempt = attempt, fi_run = run, fi_at = toISOString t, fi_state = st,
       fi_exit = (case result of None \<Rightarrow> 1 | Some b \<Rightarrow> b_exit b),
       fi_reason = (case result of None \<Rightarrow> js ''scheduler_executor_failed'' | Some b \<Rightarrow> b_reason b),
       fi_retry = (if attempt < BACKUP_MAX_ATTEMPTS_PER_SLOT \<and> isRetryable st then Some (toISOString (t + BACKUP_RETRY_DELAY_MS)) else None),
       fi_result = result\<rparr>)"

definition perform_attempt :: "('f \<Rightarrow> sched_event \<Rightarrow> 'j \<Rightarrow> 'j \<times> bool) \<Rightarrow> 'f invocation_io \<Rightarrow> nat \<Rightarrow> jsstring \<Rightarrow> int \<Rightarrow> 'j \<Rightarrow>
    'j \<times> invocation option" where
  "perform_attempt ap io n slot attempt j =
     (if \<not> run_id_text (io_run io) then (j, None)
      else
        (case ap (io_fault io n) (AttemptStarted \<lparr>sa_slot = slot, sa_attempt = attempt, sa_run = io_run io,
               sa_at = toISOString (io_clock io (n + 2))\<rparr>) j of
           (j1, False) \<Rightarrow> (j1, None)
         | (j1, True) \<Rightarrow>
             (let f = finish_of slot attempt (io_run io) (io_clock io (n + 3)) (own_result (io_run io) (io_backup io)) in
              case ap (io_fault io (Suc n)) (AttemptFinished f) j1 of
                (j2, False) \<Rightarrow> (j2, None)
              | (j2, True) \<Rightarrow> (j2, Some (Attempted slot attempt (fi_state f) (fi_exit f) (fi_retry f) (fi_result f))))))"

definition last_option :: "'a list \<Rightarrow> 'a option" where
  "last_option xs = (if xs = [] then None else Some (last xs))"

definition runScheduledBackupUnderLock :: "('j \<Rightarrow> sched_event list option) \<Rightarrow> ('f \<Rightarrow> sched_event \<Rightarrow> 'j \<Rightarrow> 'j \<times> bool) \<Rightarrow>
    'f invocation_io \<Rightarrow> 'j \<Rightarrow> 'j \<times> invocation option" where
  "runScheduledBackupUnderLock rd ap io j =
     (case rd j of
        None \<Rightarrow> (j, None)
      | Some es \<Rightarrow>
          (let abandoned = startedWithoutFinish es; n = length abandoned in
           case reconcile ap io 0 abandoned j of
             (j1, False) \<Rightarrow> (j1, None)
           | (j1, True) \<Rightarrow>
               (case (latestDueBackupSlot (io_clock io (Suc n)), rd j1) of
                  (Some slot, Some es1) \<Rightarrow>
                    (case decide_next slot (io_clock io (Suc n)) (last_option (finishedForSlot es1 slot)) of
                       DecisionThrows \<Rightarrow> (j1, None)
                     | Decided r \<Rightarrow> (j1, Some r)
                     | NextAttempt attempt \<Rightarrow> perform_attempt ap io n slot attempt j1)
                | _ \<Rightarrow> (j1, None))))"

text \<open>The whole operation: a release that is not confirmed makes it throw.\<close>

record lock_io =
  lk_pooled :: bool
  lk_answer :: "bool option option"
  lk_release :: "bool option option"

definition runScheduledBackup :: "('j \<Rightarrow> sched_event list option) \<Rightarrow> ('f \<Rightarrow> sched_event \<Rightarrow> 'j \<Rightarrow> 'j \<times> bool) \<Rightarrow>
    lock_io \<Rightarrow> 'f invocation_io \<Rightarrow> 'j \<Rightarrow> 'j \<times> invocation option" where
  "runScheduledBackup rd ap lk io j =
     (case latestDueBackupSlot (io_clock io 0) of
        None \<Rightarrow> (j, None)
      | Some slot \<Rightarrow>
          (case tryAcquireSessionLock (lk_pooled lk) (lk_answer lk) of
             LockThrows fate \<Rightarrow> (j, None)
           | LockBusy fate \<Rightarrow> (j, Some (SkippedInvocation slot))
           | LockHeld \<Rightarrow>
               (case runScheduledBackupUnderLock rd ap io j of
                  (j1, r) \<Rightarrow> (j1, if fst (release_lock (lk_release lk)) then r else None))))"

datatype operations_state = OpComplete | OpSkipped | OpBlocked | OpPreflight | OpIncomplete

fun op_state :: "backup_state \<Rightarrow> operations_state" where
  "op_state BackupComplete = OpComplete"
| "op_state SkippedOverlapping = OpSkipped"
| "op_state BlockedByMigration = OpBlocked"
| "op_state PreflightRejected = OpPreflight"
| "op_state Incomplete = OpIncomplete"

fun schedulerStateForOperations :: "invocation \<Rightarrow> operations_state" where
  "schedulerStateForOperations (AlreadyFinal slot st ec) = op_state st"
| "schedulerStateForOperations (SkippedInvocation slot) = OpSkipped"
| "schedulerStateForOperations (RetryNotDue slot st r) = op_state st"
| "schedulerStateForOperations (Attempted slot attempt st ec retry res) = op_state st"

end
