(* ===== verification/SchedulerProperties.thy ===== *)
theory SchedulerProperties
  imports Scheduler "HOL-Library.Countable"
begin

text \<open>
  The scheduler over any journal that keeps its contract, and over the journal file.  The histories a
  run may leave are the inductive set \<open>history\<close>: attempts follow each other, each is finished
  before the next starts, and a second attempt of a slot starts only after a retryable first one and
  its delay.  Every invocation keeps the journal in that set, whatever its appends do.
\<close>

section \<open>Histories\<close>

definition may_start :: "sched_event list \<Rightarrow> started_event \<Rightarrow> bool" where
  "may_start es s \<longleftrightarrow>
     (case last_option (finishedForSlot es (sa_slot s)) of
        None \<Rightarrow> sa_attempt s = 1
      | Some f \<Rightarrow> fi_attempt f = 1 \<and> sa_attempt s = 2 \<and> isRetryable (fi_state f) \<and>
          (\<exists>r t. fi_retry f = Some (toISOString r) \<and> modern r \<and> sa_at s = toISOString t \<and> modern t \<and> r \<le> t))"

definition follows :: "started_event \<Rightarrow> finished_event \<Rightarrow> bool" where
  "follows s f \<longleftrightarrow> fi_slot f = sa_slot s \<and> fi_attempt f = sa_attempt s \<and> fi_run f = sa_run s \<and>
     (fi_attempt f = 1 \<longrightarrow> isRetryable (fi_state f) \<longrightarrow>
        (\<exists>b r. sa_at s = toISOString b \<and> modern b \<and> fi_retry f = Some (toISOString r) \<and> modern r \<and> b + BACKUP_RETRY_DELAY_MS \<le> r))"

inductive history :: "sched_event list \<Rightarrow> bool" and open_history :: "sched_event list \<Rightarrow> started_event \<Rightarrow> bool" where
  empty: "history []"
| start: "history es \<Longrightarrow> sa_run s \<notin> sa_run ` set (starts es) \<Longrightarrow> may_start es s \<Longrightarrow>
    sa_at s = toISOString t \<Longrightarrow> modern t \<Longrightarrow> modern (t + BACKUP_RETRY_DELAY_MS) \<Longrightarrow> open_history (es @ [AttemptStarted s]) s"
| finish: "open_history es s \<Longrightarrow> follows s f \<Longrightarrow> history (es @ [AttemptFinished f])"

inductive_cases open_historyE: "open_history es s"

lemma finishes_append [simp]: "finishes (es @ fs) = finishes es @ finishes fs"
  by (induction es rule: finishes.induct) auto

lemma starts_append [simp]: "starts (es @ fs) = starts es @ starts fs"
  by (induction es rule: starts.induct) auto

lemma finished_append [simp]: "finishedForSlot (es @ fs) slot = finishedForSlot es slot @ finishedForSlot fs slot"
  by (simp add: finishedForSlot_def)

lemma last_option_simps [simp]: "last_option [] = None" "last_option (xs @ [x]) = Some x"
  by (simp_all add: last_option_def)

text \<open>In a history every start has its finish; an open one has exactly one start more.\<close>

lemma history_runs:
  "history es \<Longrightarrow> map fi_run (finishes es) = map sa_run (starts es) \<and> distinct (map sa_run (starts es))"
  "open_history es s \<Longrightarrow> (\<exists>hs. es = hs @ [AttemptStarted s] \<and> history hs \<and> map fi_run (finishes hs) = map sa_run (starts hs)) \<and>
     distinct (map sa_run (starts es))"
proof (induction rule: history_open_history.inducts)
  case (finish es s f)
  then show ?case by (auto simp: follows_def)
next
  case (start es s t)
  then show ?case by auto
qed auto

lemma history_closed: "history es \<Longrightarrow> startedWithoutFinish es = []"
proof -
  assume "history es"
  then have "fi_run ` set (finishes es) = sa_run ` set (starts es)" using history_runs(1) by (metis set_map)
  then show ?thesis by (auto simp: startedWithoutFinish_def filter_empty_conv)
qed

lemma open_one: "open_history es s \<Longrightarrow> startedWithoutFinish es = [s]"
proof -
  assume o: "open_history es s"
  obtain hs where hs: "es = hs @ [AttemptStarted s]" "map fi_run (finishes hs) = map sa_run (starts hs)"
    and d: "distinct (map sa_run (starts es))" using history_runs(2) [OF o] by blast
  have "fi_run ` set (finishes hs) = sa_run ` set (starts hs)" using hs(2) by (metis set_map)
  then show ?thesis using hs d by (auto simp: startedWithoutFinish_def filter_empty_conv)
qed

section \<open>Attempts of one slot\<close>

text \<open>The attempts of a slot are numbered from one, and at most two.\<close>

definition slot_starts :: "sched_event list \<Rightarrow> jsstring \<Rightarrow> started_event list" where
  "slot_starts es slot = filter (\<lambda>s. sa_slot s = slot) (starts es)"

definition spaced_pair :: "started_event list \<Rightarrow> finished_event list \<Rightarrow> bool" where
  "spaced_pair ss fs \<longleftrightarrow>
     (\<forall>a b. ss = [a, b] \<longrightarrow> (\<exists>f t u. fs \<noteq> [] \<and> f = hd fs \<and> follows a f \<and> isRetryable (fi_state f) \<and>
        sa_at a = toISOString t \<and> modern t \<and> sa_at b = toISOString u \<and> modern u \<and> t + BACKUP_RETRY_DELAY_MS \<le> u))"

definition slot_ok :: "started_event list \<Rightarrow> finished_event list \<Rightarrow> bool" where
  "slot_ok ss fs \<longleftrightarrow> (map sa_attempt ss = [] \<or> map sa_attempt ss = [1] \<or> map sa_attempt ss = [1, 2]) \<and> spaced_pair ss fs"

lemma iso_inj': "toISOString s = toISOString t \<Longrightarrow> modern s \<Longrightarrow> modern t \<Longrightarrow> s = t"
  by (simp add: iso_inj)

lemma slot_start_ok:
  assumes ok: "slot_ok ss fs" and l: "list_all2 follows ss fs"
    and m: "case last_option fs of None \<Rightarrow> sa_attempt s = 1
      | Some f \<Rightarrow> fi_attempt f = 1 \<and> sa_attempt s = 2 \<and> isRetryable (fi_state f) \<and>
          (\<exists>r t. fi_retry f = Some (toISOString r) \<and> modern r \<and> sa_at s = toISOString t \<and> modern t \<and> r \<le> t)"
  shows "slot_ok (ss @ [s]) fs"
proof (cases ss)
  case Nil
  then show ?thesis using l m by (auto simp: slot_ok_def spaced_pair_def)
next
  case (Cons a as)
  then obtain b bs where f: "fs = b # bs" "follows a b" using l by (cases fs) auto
  have one: "as = []"
  proof (rule ccontr)
    assume "as \<noteq> []"
    then obtain c where c: "as = [c]" "sa_attempt c = 2" using ok Cons by (auto simp: slot_ok_def)
    then obtain d where "bs = [d]" "follows c d" using l Cons f by (cases bs) auto
    then show False using m c f by (auto simp: last_option_def follows_def)
  qed
  then have bs: "bs = []" using l Cons f by auto
  then have "last_option fs = Some b" using f by (simp add: last_option_def)
  then have m': "fi_attempt b = 1" "sa_attempt s = 2" "isRetryable (fi_state b)" "sa_attempt a = 1"
    and r: "\<exists>r t. fi_retry b = Some (toISOString r) \<and> modern r \<and> sa_at s = toISOString t \<and> modern t \<and> r \<le> t"
    using m f ok Cons one by (auto simp: slot_ok_def)
  obtain u v where u: "sa_at a = toISOString u" "modern u" "fi_retry b = Some (toISOString v)" "modern v" "u + BACKUP_RETRY_DELAY_MS \<le> v"
    using f(2) m' by (auto simp: follows_def)
  obtain r t where "fi_retry b = Some (toISOString r)" "modern r" "sa_at s = toISOString t" "modern t" "r \<le> t" using r by blast
  moreover from this u have "v = r" using iso_inj' by simp
  ultimately show ?thesis using m' u f Cons one by (auto simp: slot_ok_def spaced_pair_def intro!: exI)
qed

lemma slot_finish_ok: "slot_ok ss fs \<Longrightarrow> slot_ok ss (fs @ [f])" if "fs \<noteq> [] \<or> length ss \<le> 1"
  using that by (auto simp: slot_ok_def spaced_pair_def)

lemma history_slots:
  "history es \<Longrightarrow> slot_ok (slot_starts es slot) (finishedForSlot es slot) \<and> list_all2 follows (slot_starts es slot) (finishedForSlot es slot)"
  "open_history es s \<Longrightarrow> slot_ok (slot_starts es slot) (finishedForSlot es slot) \<and>
     (\<exists>ss. slot_starts es slot = ss @ (if sa_slot s = slot then [s] else []) \<and> list_all2 follows ss (finishedForSlot es slot))"
proof (induction rule: history_open_history.inducts)
  case empty
  then show ?case by (simp add: slot_ok_def spaced_pair_def slot_starts_def finishedForSlot_def)
next
  case (start es s t)
  have st: "slot_starts (es @ [AttemptStarted s]) slot = slot_starts es slot @ (if sa_slot s = slot then [s] else [])"
    by (simp add: slot_starts_def)
  have fi: "finishedForSlot (es @ [AttemptStarted s]) slot = finishedForSlot es slot" by (simp add: finishedForSlot_def)
  show ?case
  proof (cases "sa_slot s = slot")
    case True
    have "slot_ok (slot_starts es slot @ [s]) (finishedForSlot es slot)"
      by (rule slot_start_ok) (use start True in \<open>auto simp: may_start_def\<close>)
    then show ?thesis using start True st fi by auto
  qed (use start st fi in auto)
next
  case (finish es s f)
  obtain ss where ss: "slot_starts es slot = ss @ (if sa_slot s = slot then [s] else [])" "list_all2 follows ss (finishedForSlot es slot)"
    using finish by blast
  have st: "slot_starts (es @ [AttemptFinished f]) slot = slot_starts es slot" by (simp add: slot_starts_def)
  show ?case
  proof (cases "sa_slot s = slot")
    case True
    then have fi: "finishedForSlot (es @ [AttemptFinished f]) slot = finishedForSlot es slot @ [f]"
      using finish by (simp add: finishedForSlot_def follows_def)
    have "finishedForSlot es slot \<noteq> [] \<or> length (slot_starts es slot) \<le> 1" using ss True by (cases ss) auto
    then show ?thesis using finish ss True st fi slot_finish_ok by (auto simp: list_all2_appendI)
  next
    case False
    then have "finishedForSlot (es @ [AttemptFinished f]) slot = finishedForSlot es slot"
      using finish by (simp add: finishedForSlot_def follows_def)
    then show ?thesis using finish ss False st by auto
  qed
qed

section \<open>One invocation\<close>

definition good_times :: "'f invocation_io \<Rightarrow> bool" where
  "good_times io \<longleftrightarrow> (\<forall>i. modern (io_clock io i) \<and> modern (io_clock io i + BACKUP_RETRY_DELAY_MS) \<and> io_clock io i \<le> io_clock io (Suc i))"

definition kept :: "('j \<Rightarrow> sched_event list option) \<Rightarrow> jsstring set \<Rightarrow> 'j \<Rightarrow> bool" where
  "kept rd used j \<longleftrightarrow> (\<exists>es. rd j = Some es \<and> (history es \<or> (\<exists>s. open_history es s)) \<and> sa_run ` set (starts es) \<subseteq> used)"

lemma keptI: "rd j = Some es \<Longrightarrow> history es \<or> (\<exists>s. open_history es s) \<Longrightarrow> sa_run ` set (starts es) \<subseteq> used \<Longrightarrow> kept rd used j"
  by (auto simp: kept_def)

lemma kept_mono: "kept rd used j \<Longrightarrow> used \<subseteq> used2 \<Longrightarrow> kept rd used2 j"
  unfolding kept_def by blast

lemma latest_follows:
  assumes "history es" "last_option (finishedForSlot es slot) = Some f"
  shows "\<exists>s. follows s f \<and> (sa_attempt s = 1 \<or> sa_attempt s = 2)"
proof -
  have f: "f \<in> set (finishedForSlot es slot)" using assms(2) by (auto simp: last_option_def split: if_splits)
  have l: "list_all2 follows (slot_starts es slot) (finishedForSlot es slot)" and ok: "slot_ok (slot_starts es slot) (finishedForSlot es slot)"
    using history_slots(1) [OF assms(1)] by auto
  obtain s where s: "s \<in> set (slot_starts es slot)" "follows s f"
    using f l by (metis in_set_conv_nth list_all2_conv_all_nth)
  have "sa_attempt s \<in> set (map sa_attempt (slot_starts es slot))" using s(1) by simp
  then show ?thesis using s(2) ok by (auto simp: slot_ok_def)
qed

lemma next_may_start:
  assumes h: "history es" and d: "decide_next (sa_slot s) due (last_option (finishedForSlot es (sa_slot s))) = NextAttempt (sa_attempt s)"
    and t: "sa_at s = toISOString t" "modern t" "due \<le> t"
  shows "may_start es s"
proof (cases "last_option (finishedForSlot es (sa_slot s))")
  case None
  then show ?thesis using d by (simp add: may_start_def decide_next_def)
next
  case (Some f)
  obtain a where a: "follows a f" "sa_attempt a = 1 \<or> sa_attempt a = 2" using latest_follows [OF h Some] by blast
  have st: "isRetryable (fi_state f)" "fi_attempt f < 2"
    using d Some by (auto simp: decide_next_def BACKUP_MAX_ATTEMPTS_PER_SLOT_def split: if_splits)
  then have one: "fi_attempt f = 1" using a by (auto simp: follows_def)
  obtain r where r: "fi_retry f = Some (toISOString r)" "modern r" using a(1) one st(1) by (auto simp: follows_def)
  have "sa_attempt s = 2 \<and> r \<le> due"
    using d Some st one r by (auto simp: decide_next_def split: if_splits)
  moreover have "\<exists>r t. fi_retry f = Some (toISOString r) \<and> modern r \<and> sa_at s = toISOString t \<and> modern t \<and> r \<le> t"
    by (rule exI [of _ r], rule exI [of _ t]) (use calculation r t in simp)
  ultimately show ?thesis using Some st one by (simp add: may_start_def)
qed

lemma followsI:
  assumes "fi_slot f = sa_slot s" "fi_attempt f = sa_attempt s" "fi_run f = sa_run s" "sa_at s = toISOString b" "modern b"
    and "fi_attempt f = 1 \<Longrightarrow> isRetryable (fi_state f) \<Longrightarrow> fi_retry f = Some (toISOString r)" "modern r" "b + BACKUP_RETRY_DELAY_MS \<le> r"
  shows "follows s f"
  unfolding follows_def using assms by blast

lemma crash_follows:
  assumes "sa_at s = toISOString b" "modern b" "modern (b + BACKUP_RETRY_DELAY_MS)" "crash_finish s b u = AttemptFinished f"
  shows "follows s f"
  by (rule followsI [OF _ _ _ assms(1,2) _ assms(3)]) (use assms(4) in \<open>auto simp: crash_finish_def BACKUP_MAX_ATTEMPTS_PER_SLOT_def\<close>)

lemma finish_follows:
  assumes "modern t" "modern (u + BACKUP_RETRY_DELAY_MS)" "t \<le> u"
  shows "follows \<lparr>sa_slot = slot, sa_attempt = n, sa_run = run, sa_at = toISOString t\<rparr> (finish_of slot n run u res)"
  by (rule followsI [OF _ _ _ _ assms(1) _ assms(2)]) (use assms(3) in \<open>auto simp: finish_of_def Let_def BACKUP_MAX_ATTEMPTS_PER_SLOT_def\<close>)

context attempt_journal
begin

lemma attempt_keeps:
  assumes ok and rd: "rd j = Some es" "history es" and sub: "sa_run ` set (starts es) \<subseteq> used" and new: "io_run io \<notin> used"
    and g: "good_times io" and d: "decide_next slot (io_clock io (Suc n)) (last_option (finishedForSlot es slot)) = NextAttempt attempt"
    and p: "perform_attempt ap io n slot attempt j = (j', r)"
  shows "kept rd (insert (io_run io) used) j'"
proof (cases "run_id_text (io_run io)")
  case False
  then have "j' = j" using p by (simp add: perform_attempt_def)
  then show ?thesis using rd sub by (intro keptI [where es = es]) auto
next
  case True
  define s where "s = \<lparr>sa_slot = slot, sa_attempt = attempt, sa_run = io_run io, sa_at = toISOString (io_clock io (n + 2))\<rparr>"
  have clock: "modern (io_clock io i)" "modern (io_clock io i + BACKUP_RETRY_DELAY_MS)" "io_clock io i \<le> io_clock io (Suc i)" for i
    using g by (simp_all add: good_times_def)
  have "may_start es s"
    by (rule next_may_start [OF rd(2), of _ "io_clock io (Suc n)" "io_clock io (n + 2)"]) (use d clock [of "Suc n"] clock(1) [of "n + 2"] in \<open>auto simp: s_def\<close>)
  then have opn: "open_history (es @ [AttemptStarted s]) s"
    by (intro start [OF rd(2), where t = "io_clock io (n + 2)"]) (use sub new clock(1,2) [of "n + 2"] in \<open>auto simp: s_def\<close>)
  obtain j1 b where a1: "ap (io_fault io n) (AttemptStarted s) j = (j1, b)" by force
  from append_cases [OF assms(1) rd(1) a1] show ?thesis
  proof cases
    case 1
    then have "j' = j1" using p True a1 by (simp add: perform_attempt_def s_def)
    then show ?thesis using 1 rd(2) sub by (intro keptI [where es = es]) auto
  next
    case 2
    have kept1: "kept rd (insert (io_run io) used) j1"
      by (rule keptI [where es = "es @ [AttemptStarted s]"]) (use 2(1) opn sub in \<open>auto simp: s_def\<close>)
    show ?thesis
    proof (cases b)
      case False
      then have "j' = j1" using p True a1 by (simp add: perform_attempt_def s_def)
      then show ?thesis using kept1 by simp
    next
      case b: True
      define f where "f = finish_of slot attempt (io_run io) (io_clock io (n + 3)) (own_result (io_run io) (io_backup io))"
      obtain j2 b2 where a2: "ap (io_fault io (Suc n)) (AttemptFinished f) j1 = (j2, b2)" by force
      have j': "j' = j2" using p True a1 a2 b by (cases b2) (simp_all add: perform_attempt_def s_def f_def Let_def)
      have "follows s f" unfolding s_def f_def
        by (rule finish_follows) (use clock [of "n + 2"] clock [of "n + 3"] in \<open>simp_all add: eval_nat_numeral\<close>)
      then have h: "history ((es @ [AttemptStarted s]) @ [AttemptFinished f])" by (rule finish [OF opn])
      from append_cases [OF assms(1) 2(1) a2] show ?thesis
      proof cases
        case 1
        then show ?thesis unfolding j' by (intro keptI [where es = "es @ [AttemptStarted s]"]) (use opn sub in \<open>auto simp: s_def\<close>)
      next
        case 2
        then show ?thesis unfolding j' by (intro keptI [where es = "(es @ [AttemptStarted s]) @ [AttemptFinished f]"]) (use 2(1) h sub in \<open>auto simp: s_def\<close>)
      qed
    qed
  qed
qed

text \<open>After the reconciliation: the slot is decided on a closed history.\<close>

definition decided :: "'f invocation_io \<Rightarrow> nat \<Rightarrow> 'j \<Rightarrow> 'j \<times> invocation option" where
  "decided io n j1 =
     (case (latestDueBackupSlot (io_clock io (Suc n)), rd j1) of
        (Some slot, Some es1) \<Rightarrow>
          (case decide_next slot (io_clock io (Suc n)) (last_option (finishedForSlot es1 slot)) of
             DecisionThrows \<Rightarrow> (j1, None)
           | Decided r \<Rightarrow> (j1, Some r)
           | NextAttempt attempt \<Rightarrow> perform_attempt ap io n slot attempt j1)
      | _ \<Rightarrow> (j1, None))"

lemma decided_keeps:
  assumes ok and rd: "rd j = Some es" "history es" and sub: "sa_run ` set (starts es) \<subseteq> used" and new: "io_run io \<notin> used"
    and g: "good_times io" and p: "decided io n j = (j', r)"
  shows "kept rd (insert (io_run io) used) j'"
proof -
  have same: "kept rd (insert (io_run io) used) j" using rd sub by (intro keptI [where es = es]) auto
  show ?thesis
  proof (cases "latestDueBackupSlot (io_clock io (Suc n))")
    case None
    then show ?thesis using p same by (simp add: decided_def)
  next
    case (Some slot)
    then show ?thesis
      using p same rd attempt_keeps [OF assms(1) rd sub new g, of slot n _ j' r]
      by (cases "decide_next slot (io_clock io (Suc n)) (last_option (finishedForSlot es slot))") (auto simp: decided_def)
  qed
qed

lemma under_lock:
  "rd j = Some es \<Longrightarrow> startedWithoutFinish es = xs \<Longrightarrow> runScheduledBackupUnderLock rd ap io j =
     (case reconcile ap io 0 xs j of (j1, went) \<Rightarrow> if went then decided io (length xs) j1 else (j1, None))"
  unfolding runScheduledBackupUnderLock_def decided_def by (simp add: Let_def split: prod.splits bool.splits)

lemma under_lock_keeps:
  assumes ok and k: "kept rd used j" and g: "good_times io" and new: "io_run io \<notin> used"
    and p: "runScheduledBackupUnderLock rd ap io j = (j', r)"
  shows "kept rd (insert (io_run io) used) j'"
proof -
  obtain es where es: "rd j = Some es" "sa_run ` set (starts es) \<subseteq> used" "history es \<or> (\<exists>s. open_history es s)"
    using k by (auto simp: kept_def)
  from es(3) show ?thesis
  proof
    assume h: "history es"
    then have "decided io 0 j = (j', r)" using p under_lock [OF es(1) history_closed [OF h]] by simp
    then show ?thesis by (rule decided_keeps [OF assms(1) es(1) h es(2) new g])
  next
    assume "\<exists>s. open_history es s"
    then obtain s where o: "open_history es s" by blast
    then obtain b where b: "sa_at s = toISOString b" "modern b" "modern (b + BACKUP_RETRY_DELAY_MS)" by (rule open_historyE) auto
    define t where "t = io_clock io (Suc 0)"
    obtain f where f: "crash_finish s b t = AttemptFinished f" by (simp add: crash_finish_def)
    obtain j1 went where a: "ap (io_fault io 0) (AttemptFinished f) j = (j1, went)" by force
    have rc: "reconcile ap io 0 [s] j = (j1, went)" using a b f by (cases went) (simp_all add: t_def)
    have d: "(j', r) = (if went then decided io 1 j1 else (j1, None))"
      using p under_lock [OF es(1) open_one [OF o], of io] unfolding rc by (auto split: if_splits)
    have keep: "kept rd (insert (io_run io) used) j1" if "rd j1 = Some es"
      using that o es(2) by (intro keptI [where es = es]) auto
    from append_cases [OF assms(1) es(1) a] show ?thesis
    proof cases
      case 1
      then show ?thesis using d keep by simp
    next
      case 2
      have "follows s f" by (rule crash_follows [OF b f])
      then have h: "history (es @ [AttemptFinished f])" by (rule finish [OF o])
      have sub: "sa_run ` set (starts (es @ [AttemptFinished f])) \<subseteq> used" using es(2) by simp
      have j1: "kept rd (insert (io_run io) used) j1" using 2(1) h sub by (intro keptI [where es = "es @ [AttemptFinished f]"]) auto
      show ?thesis
      proof (cases went)
        case True
        then show ?thesis using d decided_keeps [OF assms(1) 2(1) h sub new g, of 1 j' r] by simp
      next
        case False
        then show ?thesis using d j1 by simp
      qed
    qed
  qed
qed

end

section \<open>Sequences of invocations\<close>

text \<open>
  Overlapping invocations run one after another: the session lock turns the others away.  Every
  invocation draws a new run id, and its clock does not run backwards.
\<close>

definition good_invocations :: "(lock_io \<times> 'f invocation_io) list \<Rightarrow> bool" where
  "good_invocations es \<longleftrightarrow> distinct (map (\<lambda>e. io_run (snd e)) es) \<and> (\<forall>e \<in> set es. good_times (snd e))"

lemma good_snoc:
  "good_invocations (es @ [e]) \<longleftrightarrow> good_invocations es \<and> good_times (snd e) \<and> io_run (snd e) \<notin> (\<lambda>e. io_run (snd e)) ` set es"
proof -
  have d: "distinct (map (\<lambda>e. io_run (snd e)) (es @ [e])) \<longleftrightarrow>
      distinct (map (\<lambda>e. io_run (snd e)) es) \<and> io_run (snd e) \<notin> (\<lambda>e. io_run (snd e)) ` set es" by simp
  have b: "(\<forall>x \<in> set (es @ [e]). good_times (snd x)) \<longleftrightarrow> (\<forall>x \<in> set es. good_times (snd x)) \<and> good_times (snd e)" by auto
  show ?thesis unfolding good_invocations_def d b by argo
qed

definition sched_step :: "('j \<Rightarrow> sched_event list option) \<Rightarrow> ('f \<Rightarrow> sched_event \<Rightarrow> 'j \<Rightarrow> 'j \<times> bool) \<Rightarrow> 'j \<Rightarrow>
    lock_io \<times> 'f invocation_io \<Rightarrow> 'j \<times> invocation option" where
  "sched_step rd ap j e = runScheduledBackup rd ap (fst e) (snd e) j"

definition file_step :: "line_codec \<Rightarrow> journal_file \<Rightarrow> lock_io \<times> nat option invocation_io \<Rightarrow> journal_file \<times> invocation option" where
  "file_step lc = sched_step (read_journal lc) (append_journal lc)"

definition file_inv :: "line_codec \<Rightarrow> ((lock_io \<times> nat option invocation_io) \<times> invocation option) list \<Rightarrow> journal_file \<Rightarrow> bool" where
  "file_inv lc hist f \<longleftrightarrow> (good_codec lc \<longrightarrow> good_invocations (map fst hist) \<longrightarrow>
     kept (read_journal lc) ((\<lambda>e. io_run (snd e)) ` set (map fst hist)) f)"

interpretation file_schedule: invariant_system "file_step lc" "file_inv lc"
proof
  fix hist f e f' out
  assume inv: "file_inv lc hist f" and st: "file_step lc f e = (f', out)"
  let ?used = "(\<lambda>e. io_run (snd e)) ` set (map fst hist)"
  show "file_inv lc (hist @ [(e, out)]) f'"
    unfolding file_inv_def
  proof (intro impI)
    assume lc: "good_codec lc" and "good_invocations (map fst (hist @ [(e, out)]))"
    then have g: "good_invocations (map fst hist)" "good_times (snd e)" "io_run (snd e) \<notin> ?used"
      unfolding map_append list.map fst_conv good_snoc by blast+
    then have k: "kept (read_journal lc) ?used f" using inv lc by (simp add: file_inv_def)
    have more: "kept (read_journal lc) (insert (io_run (snd e)) ?used) f" by (rule kept_mono [OF k]) auto
    have "kept (read_journal lc) (insert (io_run (snd e)) ?used) f'"
    proof (cases "\<exists>r. runScheduledBackupUnderLock (read_journal lc) (append_journal lc) (snd e) f = (f', r)")
      case True
      then show ?thesis using file_journal.under_lock_keeps [OF lc k g(2,3)] by blast
    next
      case False
      then have "f' = f" using st
        by (auto simp: file_step_def sched_step_def runScheduledBackup_def split: option.splits lock_attempt.splits prod.splits)
      then show ?thesis using more by simp
    qed
    then show "kept (read_journal lc) ((\<lambda>e. io_run (snd e)) ` set (map fst (hist @ [(e, out)]))) f'" by simp
  qed
qed

lemma file_run_history:
  assumes "good_codec lc" "good_invocations es" "read_journal lc f = Some []"
  shows "\<exists>evs. read_journal lc (snd (run_log (file_step lc) f es)) = Some evs \<and> (history evs \<or> (\<exists>s. open_history evs s))"
proof -
  have "file_inv lc [] f" using assms(3) history_open_history.empty by (auto simp: file_inv_def kept_def)
  then have "file_inv lc (fst (run_log (file_step lc) f es)) (snd (run_log (file_step lc) f es))"
    by (rule file_schedule.reachable_inv)
  then show ?thesis using assms(1,2) by (auto simp: file_inv_def kept_def)
qed

section \<open>Properties\<close>

text \<open>
  C34. Whatever the invocations, their backups and the failures of their journal writes, the journal
  stays readable, every run id starts once, and a slot has at most two attempts, numbered one and two.
\<close>

theorem attempts_per_slot:
  assumes "good_codec lc" and "good_invocations es" and "read_journal lc f = Some []"
  shows "\<exists>evs. read_journal lc (snd (run_log (file_step lc) f es)) = Some evs \<and> distinct (map sa_run (starts evs)) \<and>
    map sa_attempt (slot_starts evs slot) \<in> {[], [1], [1, 2]}"
proof -
  obtain evs where evs: "read_journal lc (snd (run_log (file_step lc) f es)) = Some evs" and h: "history evs \<or> (\<exists>s. open_history evs s)"
    using file_run_history [OF assms] by blast
  have "slot_ok (slot_starts evs slot) (finishedForSlot evs slot)" "distinct (map sa_run (starts evs))"
    using h history_slots history_runs by blast+
  then show ?thesis using evs by (auto simp: slot_ok_def)
qed

text \<open>
  A second attempt of a slot starts only after the first one was finished in a state that may be
  retried, and at least fifteen minutes after the first one started.
\<close>

theorem second_attempt_delayed:
  assumes "good_codec lc" and "good_invocations es" and "read_journal lc f = Some []"
    and "read_journal lc (snd (run_log (file_step lc) f es)) = Some evs" and "slot_starts evs slot = [a, b]"
  shows "\<exists>g gs t u. finishedForSlot evs slot = g # gs \<and> fi_run g = sa_run a \<and> isRetryable (fi_state g) \<and>
    date_parse (sa_at a) = Some t \<and> date_parse (sa_at b) = Some u \<and> t + 900000 \<le> u"
proof -
  have h: "history evs \<or> (\<exists>s. open_history evs s)" using file_run_history [OF assms(1,2,3)] assms(4) by auto
  then have "slot_ok (slot_starts evs slot) (finishedForSlot evs slot)" using history_slots by blast
  then obtain g t u where "finishedForSlot evs slot \<noteq> []" "g = hd (finishedForSlot evs slot)" "follows a g" "isRetryable (fi_state g)"
      "sa_at a = toISOString t" "modern t" "sa_at b = toISOString u" "modern u" "t + BACKUP_RETRY_DELAY_MS \<le> u"
    using assms(5) unfolding slot_ok_def spaced_pair_def by blast
  then show ?thesis by (cases "finishedForSlot evs slot") (auto simp: follows_def BACKUP_RETRY_DELAY_MS_def)
qed

instance js_number :: countable by countable_datatype
instance js_value :: countable by countable_datatype

definition no_file :: journal_file where
  "no_file = \<lparr>j_contents = None, j_regular = True, j_private = True\<rparr>"

lemma read_no_file: "read_journal lc no_file = Some []"
  by (simp add: read_journal_def readEvents_def no_file_def)

definition demo_io :: "jsstring \<Rightarrow> int \<Rightarrow> nat option invocation_io" where
  "demo_io run t = \<lparr>io_clock = (\<lambda>_. t), io_fault = (\<lambda>_. None), io_run = run, io_backup = None\<rparr>"

definition free_lock :: lock_io where
  "free_lock = \<lparr>lk_pooled = True, lk_answer = Some (Some True), lk_release = Some (Some True)\<rparr>"

definition demo_invocations :: "(lock_io \<times> nat option invocation_io) list" where
  "demo_invocations = [(free_lock, demo_io (replicate 16 97) 0), (free_lock, demo_io (replicate 16 98) 900000)]"

lemma modern_demo [simp]: "modern 0" "modern 900000" "modern 1800000"
  by (simp_all add: modern_def MAX_DATE_def DAY_MS_def day_from_year_def)

lemma good_demo: "good_invocations demo_invocations"
  by (simp add: good_invocations_def demo_invocations_def demo_io_def good_times_def BACKUP_RETRY_DELAY_MS_def)

text \<open>
  The codec of the witnesses: the four records of that run are one byte, any other value is written
  as so many zero bytes.
\<close>

definition demo_start :: "code_unit \<Rightarrow> int \<Rightarrow> int \<Rightarrow> sched_event" where
  "demo_start c n t = AttemptStarted \<lparr>sa_slot = toISOString 0, sa_attempt = n, sa_run = replicate 16 c, sa_at = toISOString t\<rparr>"

definition demo_finish :: "code_unit \<Rightarrow> int \<Rightarrow> int \<Rightarrow> sched_event" where
  "demo_finish c n t = AttemptFinished (finish_of (toISOString 0) n (replicate 16 c) t None)"

lemmas demo_events = demo_start_def demo_finish_def finish_of_def Let_def BACKUP_MAX_ATTEMPTS_PER_SLOT_def BACKUP_RETRY_DELAY_MS_def

lemma demo_events_valid [simp]: "valid_event (demo_start 97 1 0)" "valid_event (demo_finish 97 1 0)" "valid_event (demo_start 98 2 900000)"
    "valid_event (demo_finish 98 2 900000)"
  by (simp_all add: demo_events valid_event_def run_id_text_def reason_text_def repeat_in_def if_present_def safe_int_def js_def
      is_hex_ci_def is_hex_lower_def is_lower_def is_digit_def isRetryable_def list_all_iff)

lemma event_value_inj: "valid_event e \<Longrightarrow> event_value e = event_value e' \<longleftrightarrow> e = e'"
  using event_round [of e] parse_of_value [of e' e] by auto

definition demo_codec :: line_codec where
  "demo_codec = \<lparr>lc_write = (\<lambda>v. if v = event_value (demo_start 97 1 0) then [1] else if v = event_value (demo_finish 97 1 0) then [2]
       else if v = event_value (demo_start 98 2 900000) then [3] else if v = event_value (demo_finish 98 2 900000) then [4]
       else 0 # replicate (to_nat v) 0),
     lc_read = (\<lambda>b. Some (if b = [1] then event_value (demo_start 97 1 0) else if b = [2] then event_value (demo_finish 97 1 0)
       else if b = [3] then event_value (demo_start 98 2 900000) else if b = [4] then event_value (demo_finish 98 2 900000)
       else from_nat (length b - 1)))\<rparr>"

lemma good_demo_codec: "good_codec demo_codec"
  by (simp add: good_codec_def demo_codec_def)

lemma demo_written:
  "lc_write demo_codec (event_value (demo_start 97 1 0)) = [1]" "lc_write demo_codec (event_value (demo_finish 97 1 0)) = [2]"
  "lc_write demo_codec (event_value (demo_start 98 2 900000)) = [3]" "lc_write demo_codec (event_value (demo_finish 98 2 900000)) = [4]"
  by (simp_all add: demo_codec_def event_value_inj) (simp_all add: demo_events eval_nat_numeral)

lemma demo_parsed:
  "parseEvent demo_codec [1] = Some (demo_start 97 1 0)" "parseEvent demo_codec [2] = Some (demo_finish 97 1 0)"
  "parseEvent demo_codec [3] = Some (demo_start 98 2 900000)" "parseEvent demo_codec [4] = Some (demo_finish 98 2 900000)"
  by (simp_all add: parseEvent_def demo_codec_def event_round MAX_EVENT_def)

definition demo_file :: "buffer \<Rightarrow> journal_file" where
  "demo_file s = \<lparr>j_contents = Some s, j_regular = True, j_private = True\<rparr>"

lemma demo_records:
  "parseCommittedRecords demo_codec [] = Some []"
  "parseCommittedRecords demo_codec [1, 10] = Some [demo_start 97 1 0]"
  "parseCommittedRecords demo_codec [1, 10, 2, 10] = Some [demo_start 97 1 0, demo_finish 97 1 0]"
  "parseCommittedRecords demo_codec [1, 10, 2, 10, 3, 10] = Some [demo_start 97 1 0, demo_finish 97 1 0, demo_start 98 2 900000]"
  "parseCommittedRecords demo_codec [1, 10, 2, 10, 3, 10, 4, 10] =
     Some [demo_start 97 1 0, demo_finish 97 1 0, demo_start 98 2 900000, demo_finish 98 2 900000]"
  by (simp_all add: parseCommittedRecords_def committed_def demo_parsed)

lemma demo_append:
  "append_journal demo_codec None (demo_start 97 1 0) no_file = (demo_file [1, 10], True)"
  "append_journal demo_codec None (demo_finish 97 1 0) (demo_file [1, 10]) = (demo_file [1, 10, 2, 10], True)"
  "append_journal demo_codec None (demo_start 98 2 900000) (demo_file [1, 10, 2, 10]) = (demo_file [1, 10, 2, 10, 3, 10], True)"
  "append_journal demo_codec None (demo_finish 98 2 900000) (demo_file [1, 10, 2, 10, 3, 10]) = (demo_file [1, 10, 2, 10, 3, 10, 4, 10], True)"
  by (simp_all add: append_journal_def append_event_def Let_def demo_written demo_parsed demo_file_def no_file_def committed_def demo_records
      MAX_EVENT_def MAX_JOURNAL_def)

lemma demo_read:
  "read_journal demo_codec (demo_file [1, 10, 2, 10]) = Some [demo_start 97 1 0, demo_finish 97 1 0]"
  "read_journal demo_codec (demo_file [1, 10, 2, 10, 3, 10, 4, 10]) =
     Some [demo_start 97 1 0, demo_finish 97 1 0, demo_start 98 2 900000, demo_finish 98 2 900000]"
  by (simp_all add: read_journal_def readEvents_def demo_file_def demo_records MAX_JOURNAL_def)

lemma demo_slots: "latestDueBackupSlot 0 = Some (toISOString 0)" "latestDueBackupSlot 900000 = Some (toISOString 0)"
  by (simp_all add: latestDueBackupSlot_def latest_due_hour_def BACKUP_SCHEDULE_UTC_HOURS_def DAY_MS_def)

lemma demo_run_ids: "run_id_text (replicate 16 97)" "run_id_text (replicate 16 98)"
  by (simp_all add: run_id_text_def repeat_in_def is_hex_ci_def is_hex_lower_def is_digit_def list_all_iff)

lemma demo_first: "file_step demo_codec no_file (free_lock, demo_io (replicate 16 97) 0) =
    (demo_file [1, 10, 2, 10], Some (Attempted (toISOString 0) 1 Incomplete 1 (Some (toISOString 900000)) None))"
proof -
  have "perform_attempt (append_journal demo_codec) (demo_io (replicate 16 97) 0) 0 (toISOString 0) 1 no_file =
      (demo_file [1, 10, 2, 10], Some (Attempted (toISOString 0) 1 Incomplete 1 (Some (toISOString 900000)) None))"
    using demo_append(1,2) by (simp add: perform_attempt_def demo_io_def demo_run_ids own_result_def demo_events isRetryable_def)
  then show ?thesis
    by (simp add: file_step_def sched_step_def runScheduledBackup_def free_lock_def tryAcquireSessionLock_def release_lock_def
        runScheduledBackupUnderLock_def read_no_file startedWithoutFinish_def demo_io_def demo_slots finishedForSlot_def decide_next_def Let_def)
qed

lemma demo_second: "fst (file_step demo_codec (demo_file [1, 10, 2, 10]) (free_lock, demo_io (replicate 16 98) 900000)) =
    demo_file [1, 10, 2, 10, 3, 10, 4, 10]"
proof -
  have "fst (perform_attempt (append_journal demo_codec) (demo_io (replicate 16 98) 900000) 0 (toISOString 0) 2 (demo_file [1, 10, 2, 10])) =
      demo_file [1, 10, 2, 10, 3, 10, 4, 10]"
    using demo_append(3,4) by (simp add: perform_attempt_def demo_io_def demo_run_ids own_result_def demo_events isRetryable_def)
  moreover have "startedWithoutFinish [demo_start 97 1 0, demo_finish 97 1 0] = []"
    by (simp add: startedWithoutFinish_def demo_start_def demo_finish_def finish_of_def)
  moreover have "decide_next (toISOString 0) 900000 (last_option (finishedForSlot [demo_start 97 1 0, demo_finish 97 1 0] (toISOString 0))) = NextAttempt 2"
    by (simp add: finishedForSlot_def demo_events last_option_def decide_next_def isRetryable_def)
  ultimately show ?thesis
    by (simp add: file_step_def sched_step_def runScheduledBackup_def free_lock_def tryAcquireSessionLock_def release_lock_def
        runScheduledBackupUnderLock_def demo_read demo_slots demo_io_def Let_def split: prod.splits)
qed

lemma demo_journal: "read_journal demo_codec (snd (run_log (file_step demo_codec) no_file demo_invocations)) =
    Some [demo_start 97 1 0, demo_finish 97 1 0, demo_start 98 2 900000, demo_finish 98 2 900000]"
  using demo_second demo_read(2)
  by (cases "file_step demo_codec (demo_file [1, 10, 2, 10]) (free_lock, demo_io (replicate 16 98) 900000)")
     (simp add: demo_invocations_def demo_first Let_def)

theorem attempts_per_slot_witness:
  "\<exists>evs. read_journal demo_codec (snd (run_log (file_step demo_codec) no_file demo_invocations)) = Some evs \<and>
    distinct (map sa_run (starts evs)) \<and> map sa_attempt (slot_starts evs (toISOString 0)) \<in> {[], [1], [1, 2]}"
  by (rule attempts_per_slot [OF good_demo_codec good_demo read_no_file])

theorem second_attempt_delayed_witness:
  "\<exists>g gs t u. finishedForSlot [demo_start 97 1 0, demo_finish 97 1 0, demo_start 98 2 900000, demo_finish 98 2 900000] (toISOString 0) = g # gs \<and>
    fi_run g = replicate 16 97 \<and> isRetryable (fi_state g) \<and> date_parse (toISOString 0) = Some t \<and> date_parse (toISOString 900000) = Some u \<and>
    t + 900000 \<le> u"
proof -
  have "slot_starts [demo_start 97 1 0, demo_finish 97 1 0, demo_start 98 2 900000, demo_finish 98 2 900000] (toISOString 0) =
      [\<lparr>sa_slot = toISOString 0, sa_attempt = 1, sa_run = replicate 16 97, sa_at = toISOString 0\<rparr>,
       \<lparr>sa_slot = toISOString 0, sa_attempt = 2, sa_run = replicate 16 98, sa_at = toISOString 900000\<rparr>]"
    by (simp add: slot_starts_def demo_start_def demo_finish_def)
  from second_attempt_delayed [OF good_demo_codec good_demo read_no_file demo_journal this] show ?thesis by simp
qed

text \<open>
  The slot of an instant is one of the four daily ones: it starts at 0, 6, 12 or 18 hours UTC, not
  after the instant and less than six hours before it.
\<close>

theorem slot_is_latest_due:
  assumes "modern t"
  shows "\<exists>s d h. latestDueBackupSlot t = Some s \<and> date_parse s = Some d \<and> d \<le> t \<and> t < d + 21600000 \<and>
    h \<in> {0, 6, 12, 18} \<and> d mod DAY_MS = h * 3600000"
proof -
  define k where "k = t div 3600000 mod 24"
  have k: "0 \<le> k" "k < 24" by (simp_all add: k_def)
  obtain h where h: "latest_due_hour t = Some h" "h \<in> {0, 6, 12, 18}" "h \<le> k" "k < h + 6"
  proof -
    have "(if 18 \<le> k then Some 18 else if 12 \<le> k then Some 12 else if 6 \<le> k then Some 6 else Some 0) = latest_due_hour t"
      using k by (simp add: latest_due_hour_def BACKUP_SCHEDULE_UTC_HOURS_def flip: k_def)
    then show thesis using k that by (cases "18 \<le> k"; cases "12 \<le> k"; cases "6 \<le> k") auto
  qed
  define d where "d = t div DAY_MS * DAY_MS + h * 3600000"
  have "t mod (3600000 * 24) = 3600000 * k + t mod 3600000" unfolding k_def by (rule zmod_zmult2_eq) simp
  then have t: "t = t div DAY_MS * DAY_MS + (3600000 * k + t mod 3600000)"
    using div_mult_mod_eq [of t DAY_MS] by (simp add: DAY_MS_def)
  have m: "0 \<le> t mod 3600000" "t mod 3600000 < 3600000" by simp_all
  have q: "0 \<le> t div DAY_MS" using assms by (simp add: modern_def DAY_MS_def pos_imp_zdiv_nonneg_iff)
  have "d \<le> t" using t m h(3) unfolding d_def by linarith
  moreover have "t < d + 21600000" using t m h(4) unfolding d_def by linarith
  moreover have "d mod DAY_MS = h * 3600000"
  proof -
    have "d mod DAY_MS = (h * 3600000) mod DAY_MS" unfolding d_def by (metis add.commute mod_mult_self1)
    also have "\<dots> = h * 3600000" by (rule mod_pos_pos_trivial) (use h(2) in \<open>auto simp: DAY_MS_def\<close>)
    finally show ?thesis .
  qed
  ultimately have bounds: "d \<le> t" "t < d + 21600000" "d mod DAY_MS = h * 3600000" by simp_all
  have "0 \<le> d" using q h(2) unfolding d_def by (auto simp: DAY_MS_def)
  then have "modern d" using assms bounds(1) unfolding modern_def by linarith
  then show ?thesis using h bounds by (auto simp: latestDueBackupSlot_def d_def intro!: exI)
qed

theorem slot_is_latest_due_witness:
  "\<exists>s d h. latestDueBackupSlot 900000 = Some s \<and> date_parse s = Some d \<and> d \<le> 900000 \<and> 900000 < d + 21600000 \<and>
    h \<in> {0, 6, 12, 18} \<and> d mod DAY_MS = h * 3600000"
  by (rule slot_is_latest_due) simp

text \<open>
  The stored form of a backup result is stable: what the sanitizer accepted, written out again, is
  accepted as the same result.
\<close>

theorem result_round_trip:
  assumes "sanitizeBackupResult v = Some r"
  shows "sanitizeBackupResult (backup_result_value r) = Some r"
  by (rule sanitize_round [OF sanitize_valid [OF assms]])

definition demo_result :: backup_result where
  "demo_result = \<lparr>b_state = Incomplete, b_exit = 1, b_reason = js ''x'', b_run = replicate 16 97, b_started = toISOString 0,
     b_duration = Fin 5, b_snapshot = None, b_ledger = None, b_manifest = None, b_bytes = None, b_sha = None, b_cleanup = None,
     b_recipient = js ''sha256:'' @ replicate 64 97, b_build = replicate 7 97\<rparr>"

lemma demo_result_valid: "valid_result demo_result"
  by (simp add: valid_result_def demo_result_def safe_int_def reason_text_def run_id_text_def recipient_text_def build_text_def repeat_in_def
      duration_field_def if_present_def js_def is_hex_ci_def is_hex_lower_def is_lower_def is_digit_def list_all_iff matches_all_def)

theorem result_round_trip_witness:
  "sanitizeBackupResult (backup_result_value demo_result) = Some demo_result"
  by (rule result_round_trip [OF sanitize_round [OF demo_result_valid]])

text \<open>
  A journal write that stops after any number of bytes loses nothing that was committed and adds
  at most its own record, and only a valid one; one that returns has added it.
\<close>

theorem torn_append:
  assumes "good_codec lc" and "read_journal lc f = Some es" and "append_event lc fault e f = (f', res)"
  shows "(res = Inr () \<longrightarrow> read_journal lc f' = Some (es @ [e])) \<and>
    (read_journal lc f' = Some es \<or> (read_journal lc f' = Some (es @ [e]) \<and> valid_event e))"
  using append_journal_file [OF assms] by blast

theorem torn_append_witness:
  "read_journal demo_codec (fst (append_event demo_codec (Some 1) (demo_start 97 1 0) no_file)) = Some [] \<or>
    (read_journal demo_codec (fst (append_event demo_codec (Some 1) (demo_start 97 1 0) no_file)) = Some ([] @ [demo_start 97 1 0]) \<and>
      valid_event (demo_start 97 1 0))"
  using torn_append [OF good_demo_codec read_no_file, of "Some 1" "demo_start 97 1 0" "fst (append_event demo_codec (Some 1) (demo_start 97 1 0) no_file)"
      "snd (append_event demo_codec (Some 1) (demo_start 97 1 0) no_file)"] by simp

end
