(* ===== verification/Retention.thy ===== *)
theory Retention
  imports Timestamps JsValue "HOL-Library.Product_Lexorder"
begin

text \<open>
  The retention run, \<^verbatim>\<open>operations/retention.ts\<close>: bounded chunks of deletes over three tables and
  the count of what is left.  Times are milliseconds, an id is a number (a UUID is its 128-bit value,
  which is the order PostgreSQL compares it in).  Which queries fail is an input; a failed chunk is
  rolled back.
\<close>

section \<open>Tables\<close>

record log_row =
  lg_id :: int
  lg_created :: int

record audit_row =
  au_id :: int
  au_created :: int
  au_batch :: "int option"

record session_row =
  ss_id :: int
  ss_expires :: int

datatype batch_status = BatchPreview | BatchQueued | BatchProcessing | BatchCompleted | BatchWithErrors | BatchFailed | BatchSystemFailed

record batch_row =
  bt_id :: int
  bt_status :: batch_status
  bt_completed :: "int option"

record retention_db =
  db_logs :: "log_row list"
  db_audits :: "audit_row list"
  db_sessions :: "session_row list"
  db_batches :: "batch_row list"
  db_pending :: "int list"

record retention_counts =
  n_logs :: int
  n_audits :: int
  n_sessions :: int
  n_logs_eligible :: int
  n_audits_eligible :: int
  n_sessions_eligible :: int
  n_deferred :: int
  n_missing_completion :: int
  n_pending_rows :: int
  n_retained_audit :: int
  n_chunks :: int

definition emptyCounts :: retention_counts where
  "emptyCounts = \<lparr>n_logs = 0, n_audits = 0, n_sessions = 0, n_logs_eligible = 0, n_audits_eligible = 0, n_sessions_eligible = 0,
     n_deferred = 0, n_missing_completion = 0, n_pending_rows = 0, n_retained_audit = 0, n_chunks = 0\<rparr>"

section \<open>The cutoff\<close>

text \<open>One calendar year back; a day the earlier month does not have becomes its last one.\<close>

definition utcCalendarYearCutoff :: "int \<Rightarrow> int" where
  "utcCalendarYearCutoff t =
     (let st = date_fields t; y = s_year st - 1;
        last_day = s_day (date_fields (make_day y (s_month st) 0 * DAY_MS)) in
      date_utc (st\<lparr>s_year := y, s_day := min (s_day st) last_day\<rparr>))"

section \<open>Chunks\<close>

definition RETENTION_CHUNK_SIZE :: nat where
  "RETENTION_CHUNK_SIZE = 500"

definition RETENTION_MAX_CHUNKS_PER_TABLE :: nat where
  "RETENTION_MAX_CHUNKS_PER_TABLE = 100"

text \<open>One statement: the first rows by time and id that are before the cutoff, and how many it removed.\<close>

definition candidates :: "('r \<Rightarrow> int) \<Rightarrow> ('r \<Rightarrow> int) \<Rightarrow> int \<Rightarrow> 'r list \<Rightarrow> 'r list" where
  "candidates ident stamp cutoff rows =
     take RETENTION_CHUNK_SIZE (sort_key (\<lambda>r. (stamp r, ident r)) (filter (\<lambda>r. stamp r < cutoff) rows))"

definition chunk_gone :: "('r \<Rightarrow> int) \<Rightarrow> ('r \<Rightarrow> int) \<Rightarrow> int \<Rightarrow> 'r list \<Rightarrow> 'r \<Rightarrow> bool" where
  "chunk_gone ident stamp cutoff rows r \<longleftrightarrow> ident r \<in> ident ` set (candidates ident stamp cutoff rows) \<and> stamp r < cutoff"

definition deleteChunk :: "('r \<Rightarrow> int) \<Rightarrow> ('r \<Rightarrow> int) \<Rightarrow> int \<Rightarrow> 'r list \<Rightarrow> 'r list \<times> nat" where
  "deleteChunk ident stamp cutoff rows =
     (let gone = chunk_gone ident stamp cutoff rows in (filter (\<lambda>r. \<not> gone r) rows, length (filter gone rows)))"

record 'r table_result =
  tr_rows :: "'r list"
  tr_removed :: int
  tr_chunks :: int
  tr_ok :: bool

text \<open>\<open>works i\<close>: the statements of chunk \<open>i\<close> go through.\<close>

fun processTable :: "('r \<Rightarrow> int) \<Rightarrow> ('r \<Rightarrow> int) \<Rightarrow> int \<Rightarrow> (nat \<Rightarrow> bool) \<Rightarrow> nat \<Rightarrow> nat \<Rightarrow> 'r table_result \<Rightarrow> 'r table_result" where
  "processTable ident stamp cutoff works i 0 r = r"
| "processTable ident stamp cutoff works i (Suc n) r =
     (if \<not> works i then r\<lparr>tr_ok := False\<rparr>
      else
        (case deleteChunk ident stamp cutoff (tr_rows r) of
           (rows, removed) \<Rightarrow>
             if removed = 0 then r\<lparr>tr_rows := rows\<rparr>
             else processTable ident stamp cutoff works (Suc i) n
               (r\<lparr>tr_rows := rows, tr_removed := tr_removed r + int removed, tr_chunks := tr_chunks r + 1\<rparr>)))"

definition process :: "('r \<Rightarrow> int) \<Rightarrow> ('r \<Rightarrow> int) \<Rightarrow> int \<Rightarrow> (nat \<Rightarrow> bool) \<Rightarrow> nat \<Rightarrow> 'r list \<Rightarrow> 'r table_result" where
  "process ident stamp cutoff works n rows =
     processTable ident stamp cutoff works 0 n \<lparr>tr_rows = rows, tr_removed = 0, tr_chunks = 0, tr_ok = True\<rparr>"

section \<open>What is left\<close>

definition finished_status :: "batch_status \<Rightarrow> bool" where
  "finished_status s \<longleftrightarrow> s \<in> {BatchCompleted, BatchWithErrors, BatchFailed, BatchSystemFailed}"

definition completed_before :: "int \<Rightarrow> batch_row \<Rightarrow> bool" where
  "completed_before cutoff b = (case bt_completed b of None \<Rightarrow> False | Some t \<Rightarrow> t < cutoff)"

definition has_pending :: "retention_db \<Rightarrow> batch_row \<Rightarrow> bool" where
  "has_pending db b \<longleftrightarrow> bt_id b \<in> set (db_pending db)"

definition has_audit :: "retention_db \<Rightarrow> batch_row \<Rightarrow> bool" where
  "has_audit db b \<longleftrightarrow> list_ex (\<lambda>e. au_batch e = Some (bt_id b)) (db_audits db)"

definition count_rows :: "('r \<Rightarrow> bool) \<Rightarrow> 'r list \<Rightarrow> int" where
  "count_rows p rows = int (length (filter p rows))"

definition inspectBacklog :: "retention_db \<Rightarrow> int \<Rightarrow> int \<Rightarrow> retention_counts \<Rightarrow> retention_counts" where
  "inspectBacklog db cutoff started c =
     (let b = filter (\<lambda>b. finished_status (bt_status b)) (db_batches db) in
      c\<lparr>n_logs_eligible := count_rows (\<lambda>r. lg_created r < cutoff) (db_logs db),
        n_audits_eligible := count_rows (\<lambda>r. au_created r < cutoff) (db_audits db),
        n_sessions_eligible := count_rows (\<lambda>r. ss_expires r < started) (db_sessions db),
        n_deferred := count_rows (\<lambda>r. completed_before cutoff r \<and> \<not> has_pending db r \<and> \<not> has_audit db r) b,
        n_missing_completion := count_rows (\<lambda>r. bt_completed r = None) b,
        n_pending_rows := count_rows (\<lambda>r. completed_before cutoff r \<and> has_pending db r) b,
        n_retained_audit := count_rows (\<lambda>r. completed_before cutoff r \<and> has_audit db r) b\<rparr>)"

definition importBacklog :: "retention_counts \<Rightarrow> int" where
  "importBacklog c = n_deferred c + n_missing_completion c + n_pending_rows c + n_retained_audit c"

definition approvedBacklog :: "retention_counts \<Rightarrow> int" where
  "approvedBacklog c = n_logs_eligible c + n_audits_eligible c + n_sessions_eligible c"

section \<open>A run\<close>

datatype captured = TestClock "int option" | DatabaseClock "(int option \<times> int option) option option"

text \<open>The start and the cutoff; a start that is known is reported even when the cutoff is not.\<close>

definition capture :: "captured \<Rightarrow> int option \<times> int option" where
  "capture c =
     (case c of
        TestClock None \<Rightarrow> (None, None)
      | TestClock (Some t) \<Rightarrow> (Some t, Some (utcCalendarYearCutoff t))
      | DatabaseClock (Some (Some (started, cutoff))) \<Rightarrow> (started, if started = None then None else cutoff)
      | DatabaseClock _ \<Rightarrow> (None, None))"

datatype retention_state = RetComplete | RetBacklog | RetSkipped | RetIncomplete

record retention_io =
  ri_pooled :: bool
  ri_locked :: "bool option option"
  ri_captured :: captured
  ri_logs :: "nat \<Rightarrow> bool"
  ri_audits :: "nat \<Rightarrow> bool"
  ri_sessions :: "nat \<Rightarrow> bool"
  ri_inspects :: bool
  ri_unlocked :: "bool option option"
  ri_opened :: int
  ri_closed :: int

record retention_result =
  rr_run :: jsstring
  rr_state :: retention_state
  rr_exit :: int
  rr_reason :: jsstring
  rr_started :: int
  rr_finished :: int
  rr_cutoff :: "int option"
  rr_counts :: retention_counts
  rr_build :: jsstring

record verdict =
  vd_state :: retention_state
  vd_exit :: int
  vd_reason :: jsstring

definition failed_run :: verdict where
  "failed_run = \<lparr>vd_state = RetIncomplete, vd_exit = 1, vd_reason = js ''retention_chunk_or_preflight_failed''\<rparr>"

definition judge :: "retention_counts \<Rightarrow> verdict" where
  "judge c =
     (if importBacklog c > 0 \<or> approvedBacklog c > 0
      then \<lparr>vd_state = RetBacklog, vd_exit = 0,
        vd_reason = (if approvedBacklog c > 0 then js ''retention_chunk_ceiling_reached'' else js ''retention_safe_backlog_present'')\<rparr>
      else \<lparr>vd_state = RetComplete, vd_exit = 0, vd_reason = js ''retention_completed''\<rparr>)"

text \<open>The three tables one after another and the inspection, under the lock.\<close>

definition retain :: "retention_io \<Rightarrow> nat \<Rightarrow> int \<Rightarrow> int \<Rightarrow> retention_db \<Rightarrow> retention_db \<times> retention_counts \<times> verdict" where
  "retain io n started cutoff db =
     (let lg = process lg_id lg_created cutoff (ri_logs io) n (db_logs db);
        db1 = db\<lparr>db_logs := tr_rows lg\<rparr>; c1 = emptyCounts\<lparr>n_logs := tr_removed lg, n_chunks := tr_chunks lg\<rparr> in
      if \<not> tr_ok lg then (db1, c1, failed_run)
      else
        (let au = process au_id au_created cutoff (ri_audits io) n (db_audits db1);
           db2 = db1\<lparr>db_audits := tr_rows au\<rparr>; c2 = c1\<lparr>n_audits := tr_removed au, n_chunks := n_chunks c1 + tr_chunks au\<rparr> in
         if \<not> tr_ok au then (db2, c2, failed_run)
         else
           (let ss = process ss_id ss_expires started (ri_sessions io) n (db_sessions db2);
              db3 = db2\<lparr>db_sessions := tr_rows ss\<rparr>; c3 = c2\<lparr>n_sessions := tr_removed ss, n_chunks := n_chunks c2 + tr_chunks ss\<rparr> in
            if \<not> tr_ok ss \<or> \<not> ri_inspects io then (db3, c3, failed_run)
            else (let c4 = inspectBacklog db3 cutoff started c3 in (db3, c4, judge c4)))))"

definition chunk_bound :: "js_number option \<Rightarrow> nat option" where
  "chunk_bound configured =
     (case configured of
        None \<Rightarrow> Some RETENTION_MAX_CHUNKS_PER_TABLE
      | Some v \<Rightarrow> (case safe_integer v of None \<Rightarrow> None | Some n \<Rightarrow> if n < 1 \<or> n > 100 then None else Some (nat n)))"

text \<open>The guard on the pool: loopback and a database whose name ends in \<^verbatim>\<open>_test\<close>.\<close>

definition assertOfflineDisposablePool :: "(jsstring \<Rightarrow> nat) \<Rightarrow> jsstring option \<Rightarrow> jsstring option \<Rightarrow> jsstring option \<Rightarrow> jsstring option \<Rightarrow> bool" where
  "assertOfflineDisposablePool isIP node_env mode host database \<longleftrightarrow>
     node_env \<noteq> Some (js ''production'') \<and> mode = Some (js ''offline-test'') \<and>
     (case host of None \<Rightarrow> False
      | Some h \<Rightarrow> (isIP h = 4 \<and> h = js ''127.0.0.1'') \<or> (isIP h = 6 \<and> h = js ''::1'')) \<and>
     (case database of None \<Rightarrow> False
      | Some d \<Rightarrow> 5 \<le> length d \<and> lower_ascii (drop (length d - 5) d) = js ''_test'')"

definition after_unlock :: "retention_io \<Rightarrow> verdict \<Rightarrow> verdict" where
  "after_unlock io v =
     (if ri_unlocked io = Some (Some True) then v
      else \<lparr>vd_state = RetIncomplete, vd_exit = 1, vd_reason = js ''retention_lock_release_failed''\<rparr>)"

definition runRetentionOnce :: "retention_io \<Rightarrow> js_number option \<Rightarrow> jsstring \<Rightarrow> jsstring \<Rightarrow> retention_db \<Rightarrow> retention_db \<times> retention_result" where
  "runRetentionOnce io configured run build db =
     (let report = (\<lambda>v started cutoff c. \<lparr>rr_run = run, rr_state = vd_state v, rr_exit = vd_exit v, rr_reason = vd_reason v,
          rr_started = started, rr_finished = ri_closed io, rr_cutoff = cutoff, rr_counts = c, rr_build = build\<rparr>) in
      case chunk_bound configured of
        None \<Rightarrow> (db, report \<lparr>vd_state = RetIncomplete, vd_exit = 1, vd_reason = js ''retention_chunk_bound_invalid''\<rparr>
            (ri_opened io) None emptyCounts)
      | Some n \<Rightarrow>
          if \<not> ri_pooled io then (db, report failed_run (ri_opened io) None emptyCounts)
          else
            (case ri_locked io of
               None \<Rightarrow> (db, report failed_run (ri_opened io) None emptyCounts)
             | Some row \<Rightarrow>
                 if row \<noteq> Some True
                 then (db, report \<lparr>vd_state = RetSkipped, vd_exit = 10, vd_reason = js ''retention_already_running''\<rparr>
                     (ri_opened io) None emptyCounts)
                 else
                   (case capture (ri_captured io) of
                      (Some started, Some cutoff) \<Rightarrow>
                        (case retain io n started cutoff db of
                           (db1, c, v) \<Rightarrow> (db1, report (after_unlock io v) started (Some cutoff) c))
                    | (Some started, None) \<Rightarrow> (db, report (after_unlock io failed_run) started None emptyCounts)
                    | (None, _) \<Rightarrow> (db, report (after_unlock io failed_run) (ri_opened io) None emptyCounts))))"

section \<open>Lemmas\<close>

lemma deleteChunk_keeps: "filter (\<lambda>r. \<not> stamp r < cutoff) (fst (deleteChunk ident stamp cutoff rows)) = filter (\<lambda>r. \<not> stamp r < cutoff) rows"
  by (auto simp: deleteChunk_def Let_def chunk_gone_def intro!: filter_cong)

lemma deleteChunk_count: "length (fst (deleteChunk ident stamp cutoff rows)) + snd (deleteChunk ident stamp cutoff rows) = length rows"
  using sum_length_filter_compl [of "chunk_gone ident stamp cutoff rows" rows] by (simp add: deleteChunk_def Let_def)

lemma candidates_sub: "set (candidates ident stamp cutoff rows) \<subseteq> {r \<in> set rows. stamp r < cutoff}"
  unfolding candidates_def using set_take_subset by fastforce

lemma deleteChunk_zero:
  assumes "snd (deleteChunk ident stamp cutoff rows) = 0"
  shows "filter (\<lambda>r. stamp r < cutoff) rows = []"
proof -
  let ?old = "filter (\<lambda>r. stamp r < cutoff) rows"
  have "\<not> chunk_gone ident stamp cutoff rows r" if "r \<in> set rows" for r
    using assms that by (simp add: deleteChunk_def Let_def filter_empty_conv)
  then have "r \<notin> set (candidates ident stamp cutoff rows)" for r
    using candidates_sub [of ident stamp cutoff rows] unfolding chunk_gone_def by blast
  then have "set (candidates ident stamp cutoff rows) = {}" by (simp only: set_eq_iff empty_iff not_False_eq_True simp_thms)
  then have "length (sort_key (\<lambda>r. (stamp r, ident r)) ?old) = 0"
    unfolding candidates_def set_empty take_eq_Nil by (simp add: RETENTION_CHUNK_SIZE_def)
  then show ?thesis by (simp only: length_sort length_0_conv)
qed

lemma filter_inj_length: "inj_on f (set xs) \<Longrightarrow> distinct xs \<Longrightarrow> length (filter (\<lambda>x. f x \<in> K) xs) \<le> card (f ` set xs \<inter> K)"
proof -
  assume i: "inj_on f (set xs)" and d: "distinct xs"
  let ?ys = "filter (\<lambda>x. f x \<in> K) xs"
  have "distinct (map f ?ys)" using i d by (auto simp: distinct_map intro: inj_on_subset)
  then have "length ?ys = card (set (map f ?ys))" by (metis distinct_card length_map)
  also have "\<dots> \<le> card (f ` set xs \<inter> K)" by (rule card_mono) auto
  finally show ?thesis .
qed

text \<open>With distinct ids one statement removes at most a chunk.\<close>

lemma deleteChunk_limit:
  assumes "distinct (map ident rows)"
  shows "snd (deleteChunk ident stamp cutoff rows) \<le> RETENTION_CHUNK_SIZE"
proof -
  let ?c = "candidates ident stamp cutoff rows"
  have "inj_on ident (set rows)" "distinct rows" using assms by (simp_all add: distinct_map)
  then have "length (filter (\<lambda>x. ident x \<in> ident ` set ?c) rows) \<le> card (ident ` set rows \<inter> ident ` set ?c)" by (rule filter_inj_length)
  also have "\<dots> \<le> card (ident ` set ?c)" by (rule card_mono) auto
  also have "\<dots> \<le> card (set ?c)" by (rule card_image_le) simp
  also have "\<dots> \<le> length ?c" by (rule card_length)
  also have "\<dots> \<le> RETENTION_CHUNK_SIZE" by (simp add: candidates_def)
  finally have "length (filter (\<lambda>x. ident x \<in> ident ` set ?c) rows) \<le> RETENTION_CHUNK_SIZE" .
  moreover have "length (filter (\<lambda>x. P x \<and> Q x) rows) \<le> length (filter P rows)" for P Q
    by (induction rows) auto
  ultimately show ?thesis unfolding deleteChunk_def Let_def chunk_gone_def snd_conv by (meson le_trans)
qed

text \<open>
  What a table's loop does, whatever fails: rows that are not old stay as they are, the counts are the
  rows that went, and a loop that went through and stopped before its bound left no old row.
\<close>

lemma processTable_facts:
  "filter (\<lambda>x. \<not> stamp x < cutoff) (tr_rows (processTable ident stamp cutoff works i n r)) = filter (\<lambda>x. \<not> stamp x < cutoff) (tr_rows r) \<and>
   int (length (tr_rows (processTable ident stamp cutoff works i n r))) + tr_removed (processTable ident stamp cutoff works i n r) =
     int (length (tr_rows r)) + tr_removed r \<and>
   tr_chunks r \<le> tr_chunks (processTable ident stamp cutoff works i n r) \<and>
   tr_chunks (processTable ident stamp cutoff works i n r) \<le> tr_chunks r + int n \<and>
   (tr_ok (processTable ident stamp cutoff works i n r) \<longrightarrow>
      filter (\<lambda>x. stamp x < cutoff) (tr_rows (processTable ident stamp cutoff works i n r)) \<noteq> [] \<longrightarrow>
      tr_chunks (processTable ident stamp cutoff works i n r) = tr_chunks r + int n)"
proof (induction n arbitrary: i r)
  case (Suc n)
  obtain rows removed where d: "deleteChunk ident stamp cutoff (tr_rows r) = (rows, removed)" by force
  have k: "filter (\<lambda>x. \<not> stamp x < cutoff) rows = filter (\<lambda>x. \<not> stamp x < cutoff) (tr_rows r)"
    "length rows + removed = length (tr_rows r)"
    using deleteChunk_keeps [of stamp cutoff ident "tr_rows r"] deleteChunk_count [of ident stamp cutoff "tr_rows r"] d by simp_all
  let ?r1 = "r\<lparr>tr_rows := rows, tr_removed := tr_removed r + int removed, tr_chunks := tr_chunks r + 1\<rparr>"
  have st: "processTable ident stamp cutoff works i (Suc n) r =
      (if \<not> works i then r\<lparr>tr_ok := False\<rparr> else if removed = 0 then r\<lparr>tr_rows := rows\<rparr>
       else processTable ident stamp cutoff works (Suc i) n ?r1)" by (simp add: d)
  have z: "filter (\<lambda>x. stamp x < cutoff) rows = []" if "removed = 0"
  proof -
    have "filter (\<lambda>x. stamp x < cutoff) (tr_rows r) = []" by (rule deleteChunk_zero [of ident]) (use d that in simp)
    moreover have "set rows \<subseteq> set (tr_rows r)" using d by (auto simp: deleteChunk_def Let_def)
    ultimately show ?thesis by (auto simp: filter_empty_conv)
  qed
  show ?case
  proof (cases "works i \<and> removed \<noteq> 0")
    case True
    then have e: "processTable ident stamp cutoff works i (Suc n) r = processTable ident stamp cutoff works (Suc i) n ?r1" using st by simp
    show ?thesis unfolding e using Suc.IH [of "Suc i" ?r1] k by auto
  next
    case False
    then show ?thesis unfolding st using k z by auto
  qed
qed auto

lemma processTable_limit:
  assumes "distinct (map ident (tr_rows r))"
  shows "tr_removed (processTable ident stamp cutoff works i n r) - tr_removed r \<le> int RETENTION_CHUNK_SIZE * (tr_chunks (processTable ident stamp cutoff works i n r) - tr_chunks r)"
  using assms
proof (induction n arbitrary: i r)
  case (Suc n)
  obtain rows removed where d: "deleteChunk ident stamp cutoff (tr_rows r) = (rows, removed)" by force
  have l: "removed \<le> RETENTION_CHUNK_SIZE" using deleteChunk_limit [OF Suc.prems, of stamp cutoff] d by simp
  have dist: "distinct (map ident rows)" using Suc.prems d by (auto simp: deleteChunk_def Let_def intro: distinct_map_filter)
  let ?r1 = "r\<lparr>tr_rows := rows, tr_removed := tr_removed r + int removed, tr_chunks := tr_chunks r + 1\<rparr>"
  have st: "processTable ident stamp cutoff works i (Suc n) r =
      (if \<not> works i then r\<lparr>tr_ok := False\<rparr> else if removed = 0 then r\<lparr>tr_rows := rows\<rparr>
       else processTable ident stamp cutoff works (Suc i) n ?r1)" by (simp add: d)
  show ?case using Suc.IH [of ?r1 "Suc i"] l dist unfolding st by (auto simp: algebra_simps split: if_splits)
qed auto

end
