(* ===== verification/RetentionProperties.thy ===== *)
theory RetentionProperties
  imports Retention
begin

text \<open>
  What a retention run does to the database, whatever fails on the way, and the calendar of its cutoff.
\<close>

section \<open>One run\<close>

text \<open>What the tables of two states have in common: the rows that are still needed, and the imports.\<close>

definition retained :: "int \<Rightarrow> int \<Rightarrow> retention_db \<Rightarrow> retention_db \<Rightarrow> bool" where
  "retained started cutoff db db' \<longleftrightarrow>
     filter (\<lambda>r. \<not> lg_created r < cutoff) (db_logs db') = filter (\<lambda>r. \<not> lg_created r < cutoff) (db_logs db) \<and>
     filter (\<lambda>r. \<not> au_created r < cutoff) (db_audits db') = filter (\<lambda>r. \<not> au_created r < cutoff) (db_audits db) \<and>
     filter (\<lambda>r. \<not> ss_expires r < started) (db_sessions db') = filter (\<lambda>r. \<not> ss_expires r < started) (db_sessions db) \<and>
     db_batches db' = db_batches db \<and> db_pending db' = db_pending db"

text \<open>The counts are the rows that went.\<close>

definition counted :: "retention_counts \<Rightarrow> retention_db \<Rightarrow> retention_db \<Rightarrow> bool" where
  "counted c db db' \<longleftrightarrow>
     int (length (db_logs db')) + n_logs c = int (length (db_logs db)) \<and>
     int (length (db_audits db')) + n_audits c = int (length (db_audits db)) \<and>
     int (length (db_sessions db')) + n_sessions c = int (length (db_sessions db))"

lemma process_facts:
  "filter (\<lambda>x. \<not> stamp x < cutoff) (tr_rows (process ident stamp cutoff works n rows)) = filter (\<lambda>x. \<not> stamp x < cutoff) rows"
  "int (length (tr_rows (process ident stamp cutoff works n rows))) + tr_removed (process ident stamp cutoff works n rows) = int (length rows)"
  using processTable_facts [of stamp cutoff ident works 0 n "\<lparr>tr_rows = rows, tr_removed = 0, tr_chunks = 0, tr_ok = True\<rparr>"]
  by (simp_all add: process_def)

definition backlog_free :: "int \<Rightarrow> int \<Rightarrow> retention_db \<Rightarrow> bool" where
  "backlog_free started cutoff db \<longleftrightarrow>
     (\<forall>r \<in> set (db_logs db). cutoff \<le> lg_created r) \<and> (\<forall>r \<in> set (db_audits db). cutoff \<le> au_created r) \<and>
     (\<forall>r \<in> set (db_sessions db). started \<le> ss_expires r) \<and>
     (\<forall>b \<in> set (db_batches db). finished_status (bt_status b) \<longrightarrow> (\<exists>t. bt_completed b = Some t \<and> cutoff \<le> t))"

lemma count_rows_facts: "0 \<le> count_rows p rows" "count_rows p rows = 0 \<longleftrightarrow> (\<forall>r \<in> set rows. \<not> p r)"
  by (auto simp: count_rows_def filter_empty_conv)

lemma inspected_free:
  assumes "vd_state (judge (inspectBacklog db cutoff started c)) = RetComplete"
  shows "backlog_free started cutoff db"
proof -
  let ?c = "inspectBacklog db cutoff started c"
  have nn: "0 \<le> n_logs_eligible ?c" "0 \<le> n_audits_eligible ?c" "0 \<le> n_sessions_eligible ?c" "0 \<le> n_deferred ?c"
    "0 \<le> n_missing_completion ?c" "0 \<le> n_pending_rows ?c" "0 \<le> n_retained_audit ?c"
    by (simp_all add: inspectBacklog_def Let_def count_rows_facts)
  have "importBacklog ?c \<le> 0 \<and> approvedBacklog ?c \<le> 0" using assms by (auto simp: judge_def split: if_splits)
  then have z: "n_logs_eligible ?c = 0" "n_audits_eligible ?c = 0" "n_sessions_eligible ?c = 0" "n_deferred ?c = 0"
    "n_missing_completion ?c = 0" "n_pending_rows ?c = 0" "n_retained_audit ?c = 0"
    using nn unfolding importBacklog_def approvedBacklog_def by linarith+
  have b: "\<exists>t. bt_completed r = Some t \<and> cutoff \<le> t" if "r \<in> set (db_batches db)" "finished_status (bt_status r)" for r
    using z(4-7) that by (cases "bt_completed r") (auto simp: inspectBacklog_def Let_def count_rows_facts completed_before_def not_less)
  show ?thesis using z(1-3) b unfolding backlog_free_def
    by (auto simp: inspectBacklog_def Let_def count_rows_facts not_less)
qed

lemma failed_not_complete: "vd_state failed_run \<noteq> RetComplete"
  by (simp add: failed_run_def)

lemma judge_counts: "n_logs (inspectBacklog db cutoff started c) = n_logs c" "n_audits (inspectBacklog db cutoff started c) = n_audits c"
  "n_sessions (inspectBacklog db cutoff started c) = n_sessions c"
  by (simp_all add: inspectBacklog_def Let_def)

lemma retain_facts:
  assumes "retain io n started cutoff db = (db', c, v)"
  shows "retained started cutoff db db'" and "counted c db db'" and "vd_state v = RetComplete \<Longrightarrow> backlog_free started cutoff db'"
proof -
  show "retained started cutoff db db'" using assms
    by (auto simp: retain_def Let_def retained_def process_facts(1) split: if_splits)
  show "counted c db db'" using assms
    by (auto simp: retain_def Let_def counted_def emptyCounts_def judge_counts process_facts(2) split: if_splits)
  show "backlog_free started cutoff db'" if "vd_state v = RetComplete"
    using assms that failed_not_complete inspected_free by (auto simp: retain_def Let_def split: if_splits)
qed

lemma run_cases:
  assumes "runRetentionOnce io configured run build db = (db', r)"
  obtains (untouched) "db' = db" "rr_cutoff r = None" "rr_counts r = emptyCounts" "rr_state r \<noteq> RetComplete"
  | (processed) n cutoff v where "rr_cutoff r = Some cutoff" "retain io n (rr_started r) cutoff db = (db', rr_counts r, v)"
      "rr_state r = vd_state (after_unlock io v)"
proof -
  have f: "vd_state (after_unlock io failed_run) \<noteq> RetComplete" by (simp add: after_unlock_def failed_run_def)
  show thesis
  proof (cases "\<exists>n started cutoff. chunk_bound configured = Some n \<and> ri_pooled io \<and> ri_locked io = Some (Some True) \<and>
      capture (ri_captured io) = (Some started, Some cutoff)")
    case True
    then obtain n started cutoff where c: "chunk_bound configured = Some n" "ri_pooled io" "ri_locked io = Some (Some True)"
      "capture (ri_captured io) = (Some started, Some cutoff)" by blast
    obtain db1 c1 v where r: "retain io n started cutoff db = (db1, c1, v)" by (cases "retain io n started cutoff db")
    show thesis by (rule processed [of cutoff n v]) (use assms c r in \<open>auto simp: runRetentionOnce_def Let_def\<close>)
  next
    case False
    have "db' = db \<and> rr_cutoff r = None \<and> rr_counts r = emptyCounts \<and> rr_state r \<noteq> RetComplete"
      using assms False f failed_not_complete
      by (auto simp: runRetentionOnce_def Let_def split: option.splits if_splits prod.splits)
    then show thesis by (intro untouched) simp_all
  qed
qed

section \<open>The calendar\<close>

lemma last_of_month:
  assumes "1970 \<le> y" "m < 12"
  shows "s_day (date_fields (make_day y (int m + 1) 0 * DAY_MS)) = days_in_month y m"
proof -
  have d: "1 \<le> days_in_month y m" using assms(2) by (auto simp: days_in_month_def month_days_def nth_Cons split: nat.splits)
  have next_start: "k < length ls \<Longrightarrow> month_start ls (Suc k) = month_start ls k + ls ! k" for ls :: "int list" and k
  proof (induction k arbitrary: ls)
    case 0
    then show ?case by (cases ls) auto
  next
    case (Suc k)
    then obtain l ls' where ls: "ls = l # ls'" "k < length ls'" by (cases ls) auto
    then show ?case using Suc.IH [of ls'] by simp
  qed
  have "make_day y (int m + 1) 0 = make_day y (int m) (days_in_month y m)"
  proof (cases "m = 11")
    case True
    have "sum_list (month_days y) = month_start (month_days y) 11 + month_days y ! 11"
      by (simp add: month_days_def eval_nat_numeral)
    then show ?thesis using True month_days_facts(3) [of y]
      by (simp add: make_day_def Let_def days_in_month_def)
  next
    case False
    then have lt: "m + 1 < 12" using assms(2) by simp
    then have "(int m + 1) div 12 = 0" "nat ((int m + 1) mod 12) = Suc m" "nat (int m + 1) = Suc m" by simp_all
    moreover have "int m div 12 = 0" "nat (int m mod 12) = m" using assms(2) by simp_all
    ultimately show ?thesis using next_start [of m "month_days y"] assms(2)
      by (simp add: make_day_def Let_def days_in_month_def month_days_facts)
  qed
  then have "civil (make_day y (int m + 1) 0) = (y, m, days_in_month y m)"
    using civil_make_day(1) [OF assms d] by simp
  moreover have "make_day y (int m + 1) 0 * DAY_MS div DAY_MS = make_day y (int m + 1) 0" by (simp add: DAY_MS_def)
  ultimately show ?thesis by (simp add: date_fields_def)
qed

section \<open>Properties\<close>


text \<open>
  A run that reports complete has left no backlog: no log or audit row before the cutoff, no
  expired session, and no finished import without a completion time or completed before the cutoff.
\<close>

theorem retention_complete_clean:
  assumes "runRetentionOnce io configured run build db = (db', r)" and "rr_state r = RetComplete"
  shows "\<exists>cutoff. rr_cutoff r = Some cutoff \<and> backlog_free (rr_started r) cutoff db'"
  using assms(1)
proof (cases rule: run_cases)
  case untouched
  then show ?thesis using assms(2) by simp
next
  case (processed n cutoff v)
  have "vd_state v = RetComplete" using processed(3) assms(2) by (auto simp: after_unlock_def split: if_splits)
  then show ?thesis using processed(1) retain_facts(3) [OF processed(2)] by blast
qed

text \<open>
  The cutoff is the same date and time one year before, with 29 February becoming 28 February, and
  never another day.
\<close>

theorem cutoff_calendar_year:
  assumes "0 \<le> t" and "1971 \<le> s_year (date_fields t)"
  shows "date_fields (utcCalendarYearCutoff t) =
    (date_fields t)\<lparr>s_year := s_year (date_fields t) - 1,
       s_day := (if s_month (date_fields t) = 2 \<and> s_day (date_fields t) = 29 then 28 else s_day (date_fields t))\<rparr>"
proof -
  obtain y m d where c: "civil (t div DAY_MS) = (y, m, d)" by (cases "civil (t div DAY_MS)") auto
  have day0: "0 \<le> t div DAY_MS" using assms(1) by (simp add: DAY_MS_def pos_imp_zdiv_nonneg_iff)
  note v = civil_valid [OF day0 c]
  obtain h mi se ms where f: "date_fields t = \<lparr>s_year = y, s_month = int m + 1, s_day = d, s_hour = h, s_minute = mi, s_second = se, s_ms = ms\<rparr>"
    by (simp add: date_fields_def c)
  have y: "1970 \<le> y - 1" using assms(2) by (simp add: f)
  define e where "e = (if m = 1 \<and> d = 29 then 28 else d)"
  have l: "days_in_month z m = (if m = 1 then (if leap z then 29 else 28) else days_in_month 1970 m)" for z
    using v by (auto simp: days_in_month_def month_days_def nth_Cons split: nat.splits)
  have notboth: "\<not> (leap y \<and> leap (y - 1))"
  proof
    assume "leap y \<and> leap (y - 1)"
    then have "4 dvd y" "4 dvd y - 1" by (simp_all add: leap_def)
    then have "4 dvd y - (y - 1)" by (rule dvd_diff)
    then show False by simp
  qed
  have e: "min d (days_in_month (y - 1) m) = e" "1 \<le> e" "e \<le> days_in_month (y - 1) m"
    using v l [of y] l [of "y - 1"] notboth by (auto simp: e_def split: if_splits)
  have last: "s_day (date_fields (make_day (y - 1) (int m + 1) 0 * DAY_MS)) = days_in_month (y - 1) m"
    by (rule last_of_month [OF y]) (use v in simp)
  let ?st = "\<lparr>s_year = y - 1, s_month = int m + 1, s_day = e, s_hour = h, s_minute = mi, s_second = se, s_ms = ms\<rparr>"
  have "utcCalendarYearCutoff t = date_utc ?st" by (simp add: utcCalendarYearCutoff_def Let_def f last e(1))
  moreover have "date_fields (date_utc ?st) = ?st"
    by (rule fields_of_utc) (use y v e date_utc_fields [OF assms(1)] in \<open>auto simp: f\<close>)
  moreover have "?st = (date_fields t)\<lparr>s_year := s_year (date_fields t) - 1,
       s_day := (if s_month (date_fields t) = 2 \<and> s_day (date_fields t) = 29 then 28 else s_day (date_fields t))\<rparr>"
    by (auto simp: f e_def)
  ultimately show ?thesis by simp
qed

theorem cutoff_calendar_year_witness:
  "date_fields (utcCalendarYearCutoff (365 * DAY_MS)) =
    (date_fields (365 * DAY_MS))\<lparr>s_year := s_year (date_fields (365 * DAY_MS)) - 1,
       s_day := (if s_month (date_fields (365 * DAY_MS)) = 2 \<and> s_day (date_fields (365 * DAY_MS)) = 29 then 28 else s_day (date_fields (365 * DAY_MS)))\<rparr>"
proof (rule cutoff_calendar_year)
  have "year_from_day 365 = 1971"
    by (rule year_unique [of _ 365]) (use year_from_day [of 365] in \<open>simp_all add: day_from_year_def\<close>)
  then show "1971 \<le> s_year (date_fields (365 * DAY_MS))" by (simp add: date_fields_def DAY_MS_def civil_def Let_def split: prod.splits)
qed (simp add: DAY_MS_def)

definition demo_retention :: retention_db where
  "demo_retention = \<lparr>db_logs = [\<lparr>lg_id = 1, lg_created = 0\<rparr>, \<lparr>lg_id = 2, lg_created = 900\<rparr>], db_audits = [], db_sessions = [],
     db_batches = [], db_pending = []\<rparr>"

definition demo_retention_io :: retention_io where
  "demo_retention_io = \<lparr>ri_pooled = True, ri_locked = Some (Some True), ri_captured = DatabaseClock (Some (Some (Some 1000, Some 500))),
     ri_logs = (\<lambda>_. True), ri_audits = (\<lambda>_. True), ri_sessions = (\<lambda>_. True), ri_inspects = True, ri_unlocked = Some (Some True),
     ri_opened = 1000, ri_closed = 1001\<rparr>"

lemma demo_processed:
  "process lg_id lg_created 500 (\<lambda>_. True) 2 (db_logs demo_retention) =
     \<lparr>tr_rows = [\<lparr>lg_id = 2, lg_created = 900\<rparr>], tr_removed = 1, tr_chunks = 1, tr_ok = True\<rparr>"
  "process ident stamp cutoff (\<lambda>_. True) 2 [] = \<lparr>tr_rows = [], tr_removed = 0, tr_chunks = 0, tr_ok = True\<rparr>"
  by (simp_all add: process_def deleteChunk_def chunk_gone_def candidates_def demo_retention_def RETENTION_CHUNK_SIZE_def eval_nat_numeral Let_def)

lemma demo_retained: "\<exists>db' r. runRetentionOnce demo_retention_io (Some (Fin 2)) [] [] demo_retention = (db', r) \<and> rr_state r = RetComplete \<and>
    rr_cutoff r = Some 500 \<and> rr_started r = 1000 \<and> n_logs (rr_counts r) = 1"
  using demo_processed(1)
  by (simp add: demo_processed(2) runRetentionOnce_def demo_retention_io_def chunk_bound_def safe_integer_def rat_is_int_def capture_def retain_def Let_def
      demo_retention_def inspectBacklog_def count_rows_def judge_def importBacklog_def approvedBacklog_def after_unlock_def emptyCounts_def)


theorem retention_complete_clean_witness:
  "\<exists>db' r. runRetentionOnce demo_retention_io (Some (Fin 2)) [] [] demo_retention = (db', r) \<and> backlog_free 1000 500 db'"
  using demo_retained retention_complete_clean [of demo_retention_io "Some (Fin 2)" "[]" "[]" demo_retention] by fastforce

end
