(* ===== verification/ObjectStore.thy ===== *)
theory ObjectStore
  imports Evidence
begin

text \<open>
  The storage a backup is written to: the writer's interface, \<^verbatim>\<open>backup/storage.ts\<close>, as a locale, and
  the local adapter, \<^verbatim>\<open>backup/localFakeStorage.ts\<close>, that provides it.  The adapter is modelled without
  its test hooks.  Each call takes what may go wrong in it: whether its signal is aborted at the \<open>n\<close>-th
  place it looks, and whether its file operations work.  An upload is a handle into the adapter's state.
\<close>

section \<open>Identities\<close>

record object_identity =
  oi_namespace :: jsstring
  oi_key :: jsstring
  oi_version :: jsstring

record object_integrity =
  og_identity :: object_identity
  og_bytes :: int
  og_algorithm :: jsstring
  og_sum :: jsstring

text \<open>The writer's operations; an operation that throws answers \<open>None\<close> or \<open>False\<close>.\<close>

record ('i, 'st) storage =
  so_create :: "'i \<Rightarrow> jsstring \<Rightarrow> jsstring \<Rightarrow> 'st \<Rightarrow> 'st \<times> nat option"
  so_feed :: "nat \<Rightarrow> buffer \<Rightarrow> 'st \<Rightarrow> 'st"
  so_finalize :: "'i \<Rightarrow> nat \<Rightarrow> 'st \<Rightarrow> 'st \<times> object_identity option"
  so_verify :: "'i \<Rightarrow> object_identity \<Rightarrow> 'st \<Rightarrow> 'st \<times> object_integrity option"
  so_publish :: "'i \<Rightarrow> jsstring \<Rightarrow> buffer \<Rightarrow> 'st \<Rightarrow> 'st \<times> object_identity option"
  so_abort :: "nat \<Rightarrow> 'st \<Rightarrow> 'st \<times> bool"

section \<open>The contract\<close>

text \<open>
  Objects are immutable: no operation changes or removes one.  What \<^verbatim>\<open>verifyExactObject\<close> answers is the
  size and the checksum of the stored object.
\<close>

locale immutable_store =
  fixes sha :: "buffer \<Rightarrow> jsstring" and so :: "('i, 'st) storage" and stored :: "'st \<Rightarrow> jsstring \<Rightarrow> buffer option"
  assumes create_keeps: "stored st k = Some b \<Longrightarrow> stored (fst (so_create so i key ty st)) k = Some b"
    and feed_keeps: "stored st k = Some b \<Longrightarrow> stored (so_feed so u x st) k = Some b"
    and finalize_keeps: "stored st k = Some b \<Longrightarrow> stored (fst (so_finalize so i u st)) k = Some b"
    and verify_keeps: "stored st k = Some b \<Longrightarrow> stored (fst (so_verify so i oid st)) k = Some b"
    and publish_keeps: "stored st k = Some b \<Longrightarrow> stored (fst (so_publish so i key x st)) k = Some b"
    and abort_keeps: "stored st k = Some b \<Longrightarrow> stored (fst (so_abort so u st)) k = Some b"
    and verify_sound: "so_verify so i oid st = (st', Some g) \<Longrightarrow>
      og_identity g = oid \<and> (\<exists>b. stored st' (oi_key oid) = Some b \<and> og_bytes g = int (length b) \<and> og_sum g = sha b)"
    and publish_sound: "so_publish so i key x st = (st', Some oid) \<Longrightarrow> stored st' key = Some x"

section \<open>The local adapter\<close>

record fake_io =
  fo_stop :: "nat \<Rightarrow> bool"
  fo_dirs :: bool
  fo_written :: bool
  fo_link :: bool
  fo_removed :: bool
  fo_version :: jsstring

record fake_upload =
  fu_key :: jsstring
  fu_bytes :: buffer
  fu_open :: bool
  fu_result :: "object_identity option option"

record fake_store =
  fk_uploads :: "fake_upload list"
  fk_objects :: "jsstring \<Rightarrow> buffer option"
  fk_versions :: "jsstring \<Rightarrow> jsstring option"

fun split_char :: "code_unit \<Rightarrow> jsstring \<Rightarrow> jsstring \<Rightarrow> jsstring list" where
  "split_char z acc [] = [rev acc]"
| "split_char z acc (c # cs) = (if c = z then rev acc # split_char z [] cs else split_char z (c # acc) cs)"

definition key_char :: "code_unit \<Rightarrow> bool" where
  "key_char c \<longleftrightarrow> is_lower c \<or> is_digit c \<or> c = 46 \<or> c = 95 \<or> c = 47 \<or> c = 45"

definition valid_object_key :: "jsstring \<Rightarrow> bool" where
  "valid_object_key key \<longleftrightarrow> key \<noteq> [] \<and> list_all key_char key \<and> take 1 key \<noteq> js ''/'' \<and>
     \<not> list_ex (\<lambda>part. part = [] \<or> part = js ''.'' \<or> part = js ''..'') (split_char 47 [] key)"

definition createImmutableObject :: "fake_io \<Rightarrow> jsstring \<Rightarrow> jsstring \<Rightarrow> fake_store \<Rightarrow> fake_store \<times> nat option" where
  "createImmutableObject io key ctype st =
     (if fo_stop io 0 then (st, None)
      else if \<not> valid_object_key key then (st, None)
      else if ctype \<noteq> js ''application/octet-stream'' \<and> ctype \<noteq> js ''application/json'' then (st, None)
      else if \<not> fo_dirs io \<or> fo_stop io 1 then (st, None)
      else (st\<lparr>fk_uploads := fk_uploads st @ [\<lparr>fu_key = key, fu_bytes = [], fu_open = True, fu_result = None\<rparr>]\<rparr>, Some (length (fk_uploads st))))"

definition change_upload :: "nat \<Rightarrow> (fake_upload \<Rightarrow> fake_upload) \<Rightarrow> fake_store \<Rightarrow> fake_store" where
  "change_upload u f st = (if u < length (fk_uploads st) then st\<lparr>fk_uploads := (fk_uploads st)[u := f (fk_uploads st ! u)]\<rparr> else st)"

definition write_upload :: "nat \<Rightarrow> buffer \<Rightarrow> fake_store \<Rightarrow> fake_store" where
  "write_upload u x = change_upload u (\<lambda>up. if fu_open up then up\<lparr>fu_bytes := fu_bytes up @ x\<rparr> else up)"

text \<open>The task of \<^verbatim>\<open>finalize\<close>, which runs once: the object, or nothing after a failure.\<close>

definition link_upload :: "jsstring \<Rightarrow> fake_io \<Rightarrow> fake_upload \<Rightarrow> fake_store \<Rightarrow> fake_store \<times> object_identity option" where
  "link_upload ns io up st =
     (let key = fu_key up; oid = \<lparr>oi_namespace = ns, oi_key = key, oi_version = fo_version io\<rparr> in
      if fo_stop io 0 \<or> \<not> fu_open up \<or> \<not> fo_written io \<or> fo_stop io 1 \<or> \<not> fo_dirs io then (st, None)
      else if \<not> fo_link io \<or> fk_objects st key \<noteq> None then (st, None)
      else if fo_stop io 2 \<or> \<not> fo_removed io \<or> fo_stop io 3 then (st\<lparr>fk_versions := (fk_versions st)(key := None)\<rparr>, None)
      else
        (st\<lparr>fk_objects := (fk_objects st)(key := Some (fu_bytes up)), fk_versions := (fk_versions st)(key := Some (fo_version io))\<rparr>,
         if fo_stop io 4 then None else Some oid))"

definition finalize_upload :: "jsstring \<Rightarrow> fake_io \<Rightarrow> nat \<Rightarrow> fake_store \<Rightarrow> fake_store \<times> object_identity option" where
  "finalize_upload ns io u st =
     (if \<not> u < length (fk_uploads st) then (st, None)
      else
        (case fu_result (fk_uploads st ! u) of
           Some r \<Rightarrow> (st, r)
         | None \<Rightarrow>
             (case link_upload ns io (fk_uploads st ! u) st of
                (st1, r) \<Rightarrow> (change_upload u (\<lambda>up. up\<lparr>fu_result := Some r\<rparr>) st1, r))))"

definition abort_upload :: "nat \<Rightarrow> fake_store \<Rightarrow> fake_store" where
  "abort_upload u = change_upload u (\<lambda>up. up\<lparr>fu_open := False\<rparr>)"

definition verifyExactObject :: "(buffer \<Rightarrow> jsstring) \<Rightarrow> jsstring \<Rightarrow> fake_io \<Rightarrow> object_identity \<Rightarrow> fake_store \<Rightarrow> object_integrity option" where
  "verifyExactObject sha ns io oid st =
     (if fo_stop io 0 \<or> oi_namespace oid \<noteq> ns \<or> fk_versions st (oi_key oid) \<noteq> Some (oi_version oid) then None
      else
        (case fk_objects st (oi_key oid) of
           None \<Rightarrow> None
         | Some b \<Rightarrow>
             if fo_stop io 1 then None
             else Some \<lparr>og_identity = oid, og_bytes = int (length b), og_algorithm = js ''sha256'', og_sum = sha b\<rparr>))"

text \<open>Publishing creates, writes and finalizes; the inputs of its three calls are given one after another.\<close>

definition publishManifestCreateOnly :: "jsstring \<Rightarrow> fake_io \<Rightarrow> jsstring \<Rightarrow> buffer \<Rightarrow> fake_store \<Rightarrow> fake_store \<times> object_identity option" where
  "publishManifestCreateOnly ns io key x st =
     (if fo_stop io 0 then (st, None)
      else
        (case createImmutableObject io key (js ''application/json'') st of
           (st1, None) \<Rightarrow> (st1, None)
         | (st1, Some u) \<Rightarrow>
             if \<not> fo_written io then (abort_upload u st1, None)
             else
               (case finalize_upload ns io u (write_upload u x st1) of
                  (st2, None) \<Rightarrow> (abort_upload u st2, None)
                | (st2, Some oid) \<Rightarrow> if fo_stop io 5 then (abort_upload u st2, None) else (st2, Some oid))))"

definition fake_storage :: "(buffer \<Rightarrow> jsstring) \<Rightarrow> jsstring \<Rightarrow> (fake_io, fake_store) storage" where
  "fake_storage sha ns =
     \<lparr>so_create = createImmutableObject, so_feed = write_upload, so_finalize = finalize_upload ns,
      so_verify = (\<lambda>io oid st. (st, verifyExactObject sha ns io oid st)), so_publish = publishManifestCreateOnly ns,
      so_abort = (\<lambda>u st. (abort_upload u st, True))\<rparr>"

section \<open>The adapter keeps the contract\<close>

lemma change_upload_objects [simp]: "fk_objects (change_upload u f st) = fk_objects st" "fk_versions (change_upload u f st) = fk_versions st"
  by (simp_all add: change_upload_def)

lemma abort_upload_objects [simp]: "fk_objects (abort_upload u st) = fk_objects st"
  by (simp add: abort_upload_def)

lemma write_upload_objects [simp]: "fk_objects (write_upload u x st) = fk_objects st"
  by (simp add: write_upload_def)

lemma create_objects [simp]: "fk_objects (fst (createImmutableObject io key ctype st)) = fk_objects st"
  by (simp add: createImmutableObject_def)

lemma link_objects: "fk_objects st k = Some b \<Longrightarrow> fk_objects (fst (link_upload ns io up st)) k = Some b"
  by (auto simp: link_upload_def Let_def)

lemma finalize_objects: "fk_objects st k = Some b \<Longrightarrow> fk_objects (fst (finalize_upload ns io u st)) k = Some b"
  using link_objects [of st k b ns io "fk_uploads st ! u"] by (auto simp: finalize_upload_def split: option.splits prod.splits)

lemma publish_objects: "fk_objects st k = Some b \<Longrightarrow> fk_objects (fst (publishManifestCreateOnly ns io key x st)) k = Some b"
proof -
  assume s: "fk_objects st k = Some b"
  obtain st1 r where c: "createImmutableObject io key (js ''application/json'') st = (st1, r)" by force
  then have s1: "fk_objects st1 k = Some b" using s create_objects [of io key "js ''application/json''" st] by simp
  have "fk_objects (fst (finalize_upload ns io u (write_upload u x st1))) k = Some b" for u
    by (rule finalize_objects) (simp add: s1)
  then show ?thesis using s s1 c by (auto simp: publishManifestCreateOnly_def split: option.splits prod.splits) (metis fst_conv)+
qed

lemma publish_stored: "publishManifestCreateOnly ns io key x st = (st', Some oid) \<Longrightarrow> fk_objects st' key = Some x"
  by (auto simp: publishManifestCreateOnly_def createImmutableObject_def finalize_upload_def write_upload_def change_upload_def
      link_upload_def Let_def abort_upload_def split: option.splits prod.splits if_splits)

interpretation local_store: immutable_store sha "fake_storage sha ns" fk_objects
proof
  fix i oid st st' g
  assume "so_verify (fake_storage sha ns) i oid st = (st', Some g)"
  then show "og_identity g = oid \<and> (\<exists>b. fk_objects st' (oi_key oid) = Some b \<and> og_bytes g = int (length b) \<and> og_sum g = sha b)"
    by (auto simp: fake_storage_def verifyExactObject_def split: if_splits option.splits)
qed (auto simp: fake_storage_def finalize_objects publish_objects publish_stored)

end
