(* ===== verification/BackupRunner.thy ===== *)
theory BackupRunner
  imports ObjectStore
begin

text \<open>
  One backup, \<^verbatim>\<open>backup/runner.ts\<close>: the preflight, the two session locks, the exported snapshot, the
  dump piped through the encryptor into the upload, the verification of the stored archive, the
  manifest, and the cleanup that runs in every case.  A stage is a step on the state of the run that
  may throw.  What the database, the tools and the clock answer, and what the abort signal says at each
  place it is read, are inputs; the storage is any storage.  The hooks that tests install are absent.
\<close>

section \<open>Steps\<close>

type_synonym ('s, 'e, 'a) step = "'s \<Rightarrow> 's \<times> ('e + 'a)"

definition andThen :: "('s, 'e, 'a) step \<Rightarrow> ('a \<Rightarrow> ('s, 'e, 'b) step) \<Rightarrow> ('s, 'e, 'b) step" where
  "andThen m f s = (case m s of (s1, Inl e) \<Rightarrow> (s1, Inl e) | (s1, Inr a) \<Rightarrow> f a s1)"

definition guard :: "bool \<Rightarrow> 'e \<Rightarrow> ('s, 'e, unit) step" where
  "guard p e s = (s, if p then Inr () else Inl e)"

section \<open>The run\<close>

text \<open>A failed query says whether its code was 57014, a cancelled statement.\<close>

datatype failure = BackupFailure jsstring bool | BackupOutcome backup_state int jsstring | FailedQuery bool

abbreviation thrown :: failure where
  "thrown \<equiv> FailedQuery False"

type_synonym 'a answer_of = "bool + 'a"

record backup_config =
  cf_namespace :: jsstring
  cf_database :: jsstring
  cf_recipient :: jsstring
  cf_build :: jsstring

record snapshot_row =
  sn_id :: jsstring
  sn_started :: jsstring
  sn_server :: jsstring
  sn_postgis :: jsstring

record 'i backup_io =
  bi_run :: jsstring
  bi_started :: jsstring
  bi_duration :: js_number
  bi_age_output :: "jsstring option"
  bi_dump_output :: "jsstring option"
  bi_pgpass :: "bool option"
  bi_pooled :: bool
  bi_backup_lock :: "bool option answer_of"
  bi_migration_lock :: "bool option answer_of"
  bi_server :: "js_number option answer_of"
  bi_settings :: "unit answer_of"
  bi_begin :: "unit answer_of"
  bi_snapshot :: "snapshot_row option answer_of"
  bi_snapshot_late :: bool
  bi_ledger :: "ledger_row list answer_of"
  bi_ledger_late :: bool
  bi_create :: 'i
  bi_cipher :: buffer
  bi_dump :: "bool + int"
  bi_dump_late :: bool
  bi_commit :: "unit answer_of"
  bi_unlock_early :: "bool option answer_of"
  bi_age :: "int option"
  bi_finalize :: 'i
  bi_verify :: 'i
  bi_publish :: 'i
  bi_verify_manifest :: 'i
  bi_times :: "nat \<Rightarrow> jsstring"
  bi_stop :: "nat \<Rightarrow> bool"
  bi_stopped :: bool
  bi_timed_out :: bool
  bi_lost :: "nat option"
  bi_rollback :: "unit answer_of"
  bi_unlock_migration :: "bool option answer_of"
  bi_unlock_backup :: "bool option answer_of"

text \<open>\<open>rn_session\<close> is what the server holds for the connection, the next fields what the run believes.\<close>

record session =
  sv_backup_lock :: bool
  sv_migration_lock :: bool
  sv_transaction :: bool

definition fresh_session :: session where
  "fresh_session = \<lparr>sv_backup_lock = False, sv_migration_lock = False, sv_transaction = False\<rparr>"

record 'st run_state =
  rn_store :: 'st
  rn_session :: session
  rn_client :: bool
  rn_backup_lock :: bool
  rn_migration_lock :: bool
  rn_transaction :: bool
  rn_discard :: bool
  rn_cleanup :: "jsstring option"
  rn_upload :: "nat option"
  rn_snapshot :: "jsstring option"
  rn_ledger :: "ledger_row list option"
  rn_bytes :: "int option"
  rn_sha :: "jsstring option"
  rn_timed_out :: bool

definition start_state :: "'st \<Rightarrow> 'st run_state" where
  "start_state st = \<lparr>rn_store = st, rn_session = fresh_session, rn_client = False, rn_backup_lock = False, rn_migration_lock = False,
     rn_transaction = False, rn_discard = False, rn_cleanup = None, rn_upload = None, rn_snapshot = None, rn_ledger = None,
     rn_bytes = None, rn_sha = None, rn_timed_out = False\<rparr>"

section \<open>The preflight\<close>

definition word_char :: "code_unit \<Rightarrow> bool" where
  "word_char c \<longleftrightarrow> is_lower c \<or> is_upper c \<or> is_digit c \<or> c = 95"

text \<open>\<^verbatim>\<open>/\b...\b/\<close> of a text that starts with a word character; the last boundary is asked for by \<open>b\<close>.\<close>

fun word_in :: "bool \<Rightarrow> jsstring \<Rightarrow> bool \<Rightarrow> jsstring \<Rightarrow> bool" where
  "word_in prev pat b [] = False"
| "word_in prev pat b (c # cs) =
     ((\<not> prev \<and> take (length pat) (c # cs) = pat \<and> (b \<longrightarrow> (case drop (length pat) (c # cs) of [] \<Rightarrow> True | d # ds \<Rightarrow> \<not> word_char d))) \<or>
      word_in (word_char c) pat b cs)"

definition toolVersion :: "jsstring option \<Rightarrow> failure + jsstring" where
  "toolVersion out = (case out of None \<Rightarrow> Inl (BackupFailure (js ''required_tool_unavailable'') True) | Some s \<Rightarrow> Inr (take 256 (js_trim s)))"

definition preflightTools :: "'i backup_io \<Rightarrow> failure + jsstring \<times> jsstring" where
  "preflightTools io =
     (case toolVersion (bi_age_output io) of
        Inl e \<Rightarrow> Inl e
      | Inr age \<Rightarrow>
          if \<not> word_in False (js ''v1.3.2'') True age then Inl (BackupFailure (js ''age_version_mismatch'') True)
          else
            (case toolVersion (bi_dump_output io) of
               Inl e \<Rightarrow> Inl e
             | Inr dump \<Rightarrow> if \<not> word_in False (js ''16.'') False dump then Inl (BackupFailure (js ''pg_dump_major_mismatch'') True) else Inr (age, dump)))"

definition escapePgpass :: "jsstring \<Rightarrow> jsstring" where
  "escapePgpass s = concat (map (\<lambda>c. if c = 92 then [92, 92] else if c = 58 then [92, 58] else [c]) s)"

definition createPgpass :: "'i backup_io \<Rightarrow> failure + unit" where
  "createPgpass io =
     (case bi_pgpass io of
        None \<Rightarrow> Inr ()
      | Some exposed \<Rightarrow> Inl (BackupFailure (js (if exposed then ''backup_password_file_permissions_invalid'' else ''backup_password_file_preparation_failed'')) True))"

definition preflight :: "'i backup_io \<Rightarrow> ('st run_state, failure, jsstring) step" where
  "preflight io s =
     (if bi_stop io 0 then (s, Inl (BackupFailure (js ''termination_requested'') True))
      else
        (case preflightTools io of
           Inl e \<Rightarrow> (s, Inl e)
         | Inr (age, dump) \<Rightarrow>
             (case createPgpass io of
                Inl e \<Rightarrow> (s, Inl e)
              | Inr u \<Rightarrow> if \<not> bi_pooled io then (s, Inl thrown) else (s\<lparr>rn_client := True\<rparr>, Inr dump))))"

section \<open>Locks and the snapshot\<close>

definition take_backup_lock :: "'i backup_io \<Rightarrow> ('st run_state, failure, unit) step" where
  "take_backup_lock io s =
     (case bi_backup_lock io of
        Inl c \<Rightarrow> (s, Inl (FailedQuery c))
      | Inr row \<Rightarrow>
          if row \<noteq> Some True then (s, Inl (BackupOutcome SkippedOverlapping 10 (js ''backup_already_running'')))
          else (s\<lparr>rn_session := (rn_session s)\<lparr>sv_backup_lock := True\<rparr>, rn_backup_lock := True\<rparr>, Inr ()))"

definition take_migration_lock :: "'i backup_io \<Rightarrow> ('st run_state, failure, unit) step" where
  "take_migration_lock io s =
     (case bi_migration_lock io of
        Inl c \<Rightarrow> (s, Inl (FailedQuery c))
      | Inr row \<Rightarrow>
          if row \<noteq> Some True then (s, Inl (BackupOutcome BlockedByMigration 11 (js ''migration_barrier_busy'')))
          else (s\<lparr>rn_session := (rn_session s)\<lparr>sv_migration_lock := True\<rparr>, rn_migration_lock := True\<rparr>, Inr ()))"

definition server_is_16 :: "js_number \<Rightarrow> bool" where
  "server_is_16 n = (case num_value n of None \<Rightarrow> False | Some r \<Rightarrow> floor (r / 10000) = 16)"

definition open_snapshot :: "'i backup_io \<Rightarrow> ('st run_state, failure, snapshot_row) step" where
  "open_snapshot io s =
     (case bi_server io of
        Inl c \<Rightarrow> (s, Inl (FailedQuery c))
      | Inr v \<Rightarrow>
          if \<not> (case v of None \<Rightarrow> False | Some n \<Rightarrow> server_is_16 n)
          then (s, Inl (BackupFailure (js ''postgres_server_major_mismatch'') True))
          else
            (case (bi_settings io, bi_begin io) of
               (Inl c, _) \<Rightarrow> (s, Inl (FailedQuery c))
             | (Inr u, Inl c) \<Rightarrow> (s, Inl (FailedQuery c))
             | (Inr u, Inr w) \<Rightarrow>
                 (let s1 = s\<lparr>rn_session := (rn_session s)\<lparr>sv_transaction := True\<rparr>, rn_transaction := True\<rparr> in
                  case bi_snapshot io of
                    Inl c \<Rightarrow> (s1, Inl (FailedQuery c))
                  | Inr row \<Rightarrow>
                      if bi_snapshot_late io then (s1\<lparr>rn_timed_out := True\<rparr>, Inl thrown)
                      else
                        (case row of
                           None \<Rightarrow> (s1, Inl thrown)
                         | Some r \<Rightarrow>
                             if sn_id r = [] \<or> sn_started r = [] \<or> sn_server r = [] \<or> sn_postgis r = [] then (s1, Inl thrown)
                             else
                               (let s2 = s1\<lparr>rn_snapshot := Some (sn_started r)\<rparr> in
                                if bi_stop io 1 then (s2, Inl thrown) else (s2, Inr r))))))"

text \<open>The order of versions is that of JavaScript strings.\<close>

fun js_less :: "jsstring \<Rightarrow> jsstring \<Rightarrow> bool" where
  "js_less s [] = False"
| "js_less [] (d # ds) = True"
| "js_less (c # cs) (d # ds) = (c < d \<or> (c = d \<and> js_less cs ds))"

definition ledger_name :: "jsstring \<Rightarrow> bool" where
  "ledger_name s \<longleftrightarrow> s \<noteq> [] \<and> list_all (\<lambda>c. is_lower c \<or> is_digit c \<or> c = 95 \<or> c = 45) s"

fun validateMigrationLedger :: "jsstring option \<Rightarrow> ledger_row list \<Rightarrow> bool" where
  "validateMigrationLedger prev [] = True"
| "validateMigrationLedger prev (r # rs) =
     (matches_all is_digit 4 (l_version r) \<and> ledger_name (l_name r) \<and> matches_all is_hex_lower 64 (l_checksum r) \<and>
      (case prev of None \<Rightarrow> True | Some p \<Rightarrow> js_less p (l_version r)) \<and> validateMigrationLedger (Some (l_version r)) rs)"

definition read_ledger :: "'i backup_io \<Rightarrow> ('st run_state, failure, ledger_row list) step" where
  "read_ledger io s =
     (case bi_ledger io of
        Inl c \<Rightarrow> (s, Inl (FailedQuery c))
      | Inr rows \<Rightarrow>
          (let s1 = s\<lparr>rn_ledger := Some rows\<rparr> in
           if \<not> validateMigrationLedger None rows then (s1, Inl thrown)
           else if bi_ledger_late io then (s1\<lparr>rn_timed_out := True\<rparr>, Inl thrown)
           else (s1, Inr rows)))"

section \<open>The archive\<close>

definition archive_key :: "jsstring \<Rightarrow> jsstring" where
  "archive_key run = js ''backups/v1/runs/'' @ run @ js ''/database.pgdump.age''"

definition manifest_key :: "jsstring \<Rightarrow> jsstring" where
  "manifest_key run = js ''backups/v1/runs/'' @ run @ js ''/manifest.json''"

text \<open>
  An upload that the storage created although the wait for it was given up is aborted in the
  background; the run has none.
\<close>

definition createUploadWithCancellation :: "('i, 'st) storage \<Rightarrow> 'i backup_io \<Rightarrow> ('st run_state, failure, nat) step" where
  "createUploadWithCancellation so io s =
     (case so_create so (bi_create io) (archive_key (bi_run io)) (js ''application/octet-stream'') (rn_store s) of
        (st1, None) \<Rightarrow> (s\<lparr>rn_store := st1\<rparr>, Inl thrown)
      | (st1, Some u) \<Rightarrow>
          if bi_stop io 2 then (s\<lparr>rn_store := fst (so_abort so u st1)\<rparr>, Inl thrown)
          else (s\<lparr>rn_store := st1, rn_upload := Some u\<rparr>, Inr u))"

text \<open>
  Dump and encryptor run; \<open>bi_cipher\<close> is what reached the hash and the upload.  A pipe that breaks says
  whether the encryptor had failed.
\<close>

definition run_pipeline :: "('i, 'st) storage \<Rightarrow> 'i backup_io \<Rightarrow> nat \<Rightarrow> ('st run_state, failure, unit) step" where
  "run_pipeline so io u s =
     (if bi_stop io 3 then (s, Inl thrown)
      else
        (let s1 = s\<lparr>rn_store := so_feed so u (bi_cipher io) (rn_store s)\<rparr> in
         case bi_dump io of
           Inl encryptor \<Rightarrow> (s1, Inl (if encryptor then BackupFailure (js ''age_encrypt_failed'') False else thrown))
         | Inr code \<Rightarrow>
             if code \<noteq> 0 then (s1, Inl (BackupFailure (js ''pg_dump_failed'') False))
             else if rn_timed_out s1 \<or> bi_dump_late io
             then (s1\<lparr>rn_timed_out := True\<rparr>, Inl (BackupFailure (js ''snapshot_max_lifetime_exceeded'') False))
             else (s1, Inr ())))"

definition unlock_ok :: "bool option answer_of \<Rightarrow> bool" where
  "unlock_ok a \<longleftrightarrow> a = Inr (Some True)"

definition close_snapshot :: "'i backup_io \<Rightarrow> ('st run_state, failure, unit) step" where
  "close_snapshot io s =
     (case bi_commit io of
        Inl c \<Rightarrow> (s, Inl (FailedQuery c))
      | Inr u \<Rightarrow>
          (let s1 = s\<lparr>rn_session := (rn_session s)\<lparr>sv_transaction := False\<rparr>, rn_transaction := False\<rparr> in
           if unlock_ok (bi_unlock_early io)
           then (s1\<lparr>rn_session := (rn_session s1)\<lparr>sv_migration_lock := False\<rparr>, rn_migration_lock := False\<rparr>, Inr ())
           else (s1\<lparr>rn_discard := True, rn_cleanup := Some (js ''migration_lock_release_failed'')\<rparr>,
                 Inl (BackupFailure (js ''migration_lock_release_failed'') False))))"

definition right_identity :: "backup_config \<Rightarrow> jsstring \<Rightarrow> object_identity \<Rightarrow> bool" where
  "right_identity cfg key oid \<longleftrightarrow> oi_key oid = key \<and> oi_namespace oid = cf_namespace cfg \<and> oi_version oid \<noteq> []"

definition right_integrity :: "object_identity \<Rightarrow> int \<Rightarrow> jsstring \<Rightarrow> object_integrity \<Rightarrow> bool" where
  "right_integrity oid n digest g \<longleftrightarrow> og_identity g = oid \<and> og_bytes g = n \<and> og_algorithm g = js ''sha256'' \<and> og_sum g = digest"

text \<open>A storage call under the signal: its effect stays although the wait for it may be given up.\<close>

definition storage_call :: "('st \<Rightarrow> 'st \<times> 'a option) \<Rightarrow> bool \<Rightarrow> ('st run_state, failure, 'a) step" where
  "storage_call call stop s =
     (case call (rn_store s) of (st1, r) \<Rightarrow>
        (s\<lparr>rn_store := st1\<rparr>, if stop then Inl thrown else (case r of None \<Rightarrow> Inl thrown | Some a \<Rightarrow> Inr a)))"

definition secure_archive :: "(buffer \<Rightarrow> jsstring) \<Rightarrow> backup_config \<Rightarrow> ('i, 'st) storage \<Rightarrow> 'i backup_io \<Rightarrow> nat \<Rightarrow>
    ('st run_state, failure, object_identity \<times> object_integrity) step" where
  "secure_archive sha cfg so io u =
     andThen (storage_call (so_finalize so (bi_finalize io) u) (bi_stop io 5))
       (\<lambda>oid. andThen (guard (right_identity cfg (archive_key (bi_run io)) oid) (BackupFailure (js ''remote_archive_identity_mismatch'') False))
         (\<lambda>_. andThen (storage_call (so_verify so (bi_verify io) oid) (bi_stop io 6))
           (\<lambda>g. andThen (guard (right_integrity oid (int (length (bi_cipher io))) (sha (bi_cipher io)) g)
                (BackupFailure (js ''remote_archive_integrity_mismatch'') False))
             (\<lambda>_ s1. (s1, Inr (oid, g))))))"

definition finish_archive :: "(buffer \<Rightarrow> jsstring) \<Rightarrow> backup_config \<Rightarrow> ('i, 'st) storage \<Rightarrow> 'i backup_io \<Rightarrow> nat \<Rightarrow>
    ('st run_state, failure, object_identity \<times> object_integrity) step" where
  "finish_archive sha cfg so io u s =
     (if bi_stop io 4 then (s, Inl thrown)
      else
        (case bi_age io of
           None \<Rightarrow> (s, Inl thrown)
         | Some code \<Rightarrow>
             if code \<noteq> 0 then (s, Inl (BackupFailure (js ''age_encrypt_failed'') False))
             else if bi_cipher io = [] then (s, Inl (BackupFailure (js ''encrypted_archive_empty'') False))
             else secure_archive sha cfg so io u (s\<lparr>rn_bytes := Some (int (length (bi_cipher io))), rn_sha := Some (sha (bi_cipher io))\<rparr>)))"

section \<open>The manifest\<close>

definition manifest_value :: "backup_config \<Rightarrow> 'i backup_io \<Rightarrow> (buffer \<Rightarrow> jsstring) \<Rightarrow> jsstring \<Rightarrow> snapshot_row \<Rightarrow> ledger_row list \<Rightarrow>
    object_identity \<Rightarrow> object_integrity \<Rightarrow> js_value" where
  "manifest_value cfg io sha dump_version snap rows oid g =
     (let text = (\<lambda>k v. (js k, JStr v)); flag = (\<lambda>k v. (js k, JStr (js v))) in
      JObj [(js ''schema_version'', jnat 1), text ''manifest_id'' (manifest_key (bi_run io)), text ''run_id'' (bi_run io),
        text ''storage_namespace_id'' (cf_namespace cfg),
        (js ''source'', JObj [text ''logical_database_id'' (cf_database cfg), text ''postgres_server_version'' (sn_server snap),
           text ''postgis_version'' (sn_postgis snap), text ''app_build_sha'' (cf_build cfg),
           (js ''migration_ledger'', JArr (map ledger_row_value rows))]),
        (js ''times_utc'', JObj [text ''run_started_at'' (bi_started io), text ''snapshot_started_at'' (sn_started snap),
           text ''dump_finished_at'' (bi_times io 0), text ''encryption_finished_at'' (bi_times io 1),
           text ''archive_upload_completed_at'' (bi_times io 2), text ''manifest_publish_started_at'' (bi_times io 3)]),
        (js ''dump'', JObj [flag ''format'' ''pg_dump-custom'', text ''pg_dump_version'' dump_version, (js ''no_owner'', JBool True),
           (js ''no_privileges'', JBool True), flag ''result'' ''success'']),
        (js ''encryption'', JObj [flag ''format'' ''age-v1'', (js ''recipient_key_ids'', JArr [JStr (cf_recipient cfg)]), flag ''result'' ''success'',
           (js ''private_identity_available_to_writer'', JBool False)]),
        (js ''archive'', JObj [text ''object_key'' (archive_key (bi_run io)), text ''provider_version_id'' (oi_version oid),
           (js ''encrypted_bytes'', jnat (int (length (bi_cipher io)))), text ''encrypted_sha256'' (sha (bi_cipher io)),
           (js ''provider_checksum'', JObj [text ''algorithm'' (og_algorithm g), text ''value'' (og_sum g)]),
           flag ''upload_result'' ''success'', flag ''remote_integrity_result'' ''verified'']),
        flag ''structural_archive_check'' ''deferred_to_controlled_verifier'', flag ''completion_state'' ''complete''])"

definition publish_manifest :: "(buffer \<Rightarrow> jsstring) \<Rightarrow> backup_config \<Rightarrow> ('i, 'st) storage \<Rightarrow> 'i backup_io \<Rightarrow> buffer \<Rightarrow>
    ('st run_state, failure, unit) step" where
  "publish_manifest sha cfg so io bytes =
     andThen (storage_call (so_publish so (bi_publish io) (manifest_key (bi_run io)) bytes) (bi_stop io 7))
       (\<lambda>oid. andThen (guard (right_identity cfg (manifest_key (bi_run io)) oid) (BackupFailure (js ''remote_manifest_identity_mismatch'') False))
         (\<lambda>_. andThen (storage_call (so_verify so (bi_verify_manifest io) oid) (bi_stop io 8))
           (\<lambda>g. guard (right_integrity oid (int (length bytes)) (sha bytes) g) (BackupFailure (js ''remote_manifest_integrity_mismatch'') False))))"

section \<open>The whole run\<close>

definition produce :: "(buffer \<Rightarrow> jsstring) \<Rightarrow> (js_value \<Rightarrow> buffer) \<Rightarrow> backup_config \<Rightarrow> ('i, 'st) storage \<Rightarrow> 'i backup_io \<Rightarrow>
    ('st run_state, failure, unit) step" where
  "produce sha json cfg so io =
     andThen (preflight io) (\<lambda>dump_version.
     andThen (take_backup_lock io) (\<lambda>_.
     andThen (take_migration_lock io) (\<lambda>_.
     andThen (open_snapshot io) (\<lambda>snap.
     andThen (read_ledger io) (\<lambda>rows.
     andThen (createUploadWithCancellation so io) (\<lambda>u.
     andThen (run_pipeline so io u) (\<lambda>_.
     andThen (close_snapshot io) (\<lambda>_.
     andThen (finish_archive sha cfg so io u) (\<lambda>(oid, g).
     publish_manifest sha cfg so io (json (manifest_value cfg io sha dump_version snap rows oid g)))))))))))"

definition makeResult :: "backup_config \<Rightarrow> 'i backup_io \<Rightarrow> backup_state \<Rightarrow> int \<Rightarrow> jsstring \<Rightarrow> jsstring option \<Rightarrow> ledger_row list option \<Rightarrow>
    jsstring option \<Rightarrow> int option \<Rightarrow> jsstring option \<Rightarrow> backup_result" where
  "makeResult cfg io st ec reason snapshot rows manifest bytes digest =
     \<lparr>b_state = st, b_exit = ec, b_reason = reason, b_run = bi_run io, b_started = bi_started io, b_duration = bi_duration io,
      b_snapshot = snapshot, b_ledger = rows, b_manifest = manifest, b_bytes = bytes, b_sha = digest, b_cleanup = None,
      b_recipient = cf_recipient cfg, b_build = cf_build cfg\<rparr>"

definition lost :: "'i backup_io \<Rightarrow> nat \<Rightarrow> bool" where
  "lost io k = (case bi_lost io of None \<Rightarrow> False | Some m \<Rightarrow> m \<le> k)"

definition currentAbortReason :: "bool \<Rightarrow> bool \<Rightarrow> bool \<Rightarrow> jsstring" where
  "currentAbortReason aborted clientLost timedOut =
     js (if clientLost then ''database_connection_lost'' else if timedOut then ''snapshot_max_lifetime_exceeded''
         else if aborted then ''termination_requested'' else ''backup_pipeline_failed'')"

definition outcome_of :: "backup_config \<Rightarrow> 'i backup_io \<Rightarrow> 'st run_state \<Rightarrow> failure + unit \<Rightarrow> backup_result" where
  "outcome_of cfg io s r =
     (case r of
        Inr u \<Rightarrow> makeResult cfg io BackupComplete 0 (js ''producer_pipeline_complete'') (rn_snapshot s) (rn_ledger s)
          (Some (manifest_key (bi_run io))) (rn_bytes s) (rn_sha s)
      | Inl (BackupOutcome st ec reason) \<Rightarrow> makeResult cfg io st ec reason None None None None None
      | Inl (BackupFailure reason pre) \<Rightarrow>
          makeResult cfg io (if pre then PreflightRejected else Incomplete) (if pre then 2 else 1) reason
            (rn_snapshot s) (rn_ledger s) None (rn_bytes s) (rn_sha s)
      | Inl (FailedQuery c) \<Rightarrow>
          makeResult cfg io Incomplete 1
            (if c then js ''snapshot_max_lifetime_exceeded''
             else currentAbortReason (bi_stopped io) (lost io 0) (rn_timed_out s \<or> bi_timed_out io))
            (rn_snapshot s) (rn_ledger s) None (rn_bytes s) (rn_sha s))"

text \<open>The three cleanup queries; the first uncertain one makes the connection unfit for the pool.\<close>

definition note_cleanup :: "string \<Rightarrow> 'st run_state \<Rightarrow> 'st run_state" where
  "note_cleanup code s = s\<lparr>rn_cleanup := (case rn_cleanup s of None \<Rightarrow> Some (js code) | Some c \<Rightarrow> Some c)\<rparr>"

definition cleanup_transaction :: "'i backup_io \<Rightarrow> 'st run_state \<Rightarrow> 'st run_state" where
  "cleanup_transaction io s =
     (if lost io 1 \<or> rn_discard s \<or> \<not> rn_transaction s then s
      else (case bi_rollback io of
          Inr u \<Rightarrow> s\<lparr>rn_session := (rn_session s)\<lparr>sv_transaction := False\<rparr>, rn_transaction := False\<rparr>
        | Inl c \<Rightarrow> (note_cleanup ''database_cleanup_failed'' s)\<lparr>rn_discard := True\<rparr>))"

definition cleanup_migration_lock :: "'i backup_io \<Rightarrow> 'st run_state \<Rightarrow> 'st run_state" where
  "cleanup_migration_lock io s =
     (if lost io 2 \<or> rn_discard s \<or> \<not> rn_migration_lock s then s
      else if unlock_ok (bi_unlock_migration io)
      then s\<lparr>rn_session := (rn_session s)\<lparr>sv_migration_lock := False\<rparr>, rn_migration_lock := False\<rparr>
      else (note_cleanup ''migration_lock_release_failed'' s)\<lparr>rn_discard := True\<rparr>)"

definition cleanup_backup_lock :: "'i backup_io \<Rightarrow> 'st run_state \<Rightarrow> 'st run_state" where
  "cleanup_backup_lock io s =
     (if lost io 3 \<or> rn_discard s \<or> \<not> rn_backup_lock s then s
      else if unlock_ok (bi_unlock_backup io)
      then s\<lparr>rn_session := (rn_session s)\<lparr>sv_backup_lock := False\<rparr>, rn_backup_lock := False\<rparr>
      else (note_cleanup ''backup_lock_release_failed'' s)\<lparr>rn_discard := True\<rparr>)"

datatype client_end = NoClient | ReturnedToPool session | Discarded

definition release_client :: "'i backup_io \<Rightarrow> 'st run_state \<Rightarrow> client_end" where
  "release_client io s =
     (if \<not> rn_client s then NoClient else if lost io 4 \<or> rn_discard s then Discarded else ReturnedToPool (rn_session s))"

definition cleanup_client :: "'i backup_io \<Rightarrow> 'st run_state \<Rightarrow> 'st run_state" where
  "cleanup_client io s =
     (if \<not> rn_client s then s else cleanup_backup_lock io (cleanup_migration_lock io (cleanup_transaction io s)))"

definition cleanup_upload :: "('i, 'st) storage \<Rightarrow> backup_result \<Rightarrow> 'st run_state \<Rightarrow> 'st run_state" where
  "cleanup_upload so res s =
     (case rn_upload s of
        None \<Rightarrow> s
      | Some u \<Rightarrow>
          if b_state res = BackupComplete then s
          else
            (case so_abort so u (rn_store s) of
               (st1, True) \<Rightarrow> s\<lparr>rn_store := st1\<rparr>
             | (st1, False) \<Rightarrow> note_cleanup ''storage_cleanup_failed'' (s\<lparr>rn_store := st1\<rparr>)))"

definition final_result :: "backup_config \<Rightarrow> 'i backup_io \<Rightarrow> 'st run_state \<Rightarrow> backup_result \<Rightarrow> backup_result" where
  "final_result cfg io s res =
     (case rn_cleanup s of
        None \<Rightarrow> res
      | Some code \<Rightarrow>
          (if b_state res = BackupComplete
           then makeResult cfg io Incomplete 1 (js ''database_lock_cleanup_failed'') (rn_snapshot s) (rn_ledger s) None (rn_bytes s) (rn_sha s)
           else res)\<lparr>b_cleanup := Some code\<rparr>)"

record 'st backup_end =
  be_store :: 'st
  be_client :: client_end
  be_result :: backup_result

definition runBackupOnce :: "(buffer \<Rightarrow> jsstring) \<Rightarrow> (js_value \<Rightarrow> buffer) \<Rightarrow> backup_config \<Rightarrow> ('i, 'st) storage \<Rightarrow> 'i backup_io \<Rightarrow>
    'st \<Rightarrow> 'st backup_end option" where
  "runBackupOnce sha json cfg so io st =
     (if \<not> run_id_text (bi_run io) then None
      else
        (case produce sha json cfg so io (start_state st) of
           (s, r) \<Rightarrow>
             (let res = outcome_of cfg io s r; s1 = cleanup_client io s; s2 = cleanup_upload so res s1 in
              Some \<lparr>be_store = rn_store s2, be_client = release_client io s1, be_result = final_result cfg io s2 res\<rparr>)))"

end
