(* ===== verification/BackupProperties.thy ===== *)
theory BackupProperties
  imports BackupRunner Scheduler
begin

text \<open>
  What a backup leaves behind: the connection, the storage and the result, and that the scheduler's
  journal can record that result.
\<close>

section \<open>Steps that keep a predicate\<close>

definition keeps :: "('s \<Rightarrow> bool) \<Rightarrow> ('s, 'e, 'a) step \<Rightarrow> bool" where
  "keeps P m \<longleftrightarrow> (\<forall>s. P s \<longrightarrow> P (fst (m s)))"

lemma keepsI: "(\<And>s. P s \<Longrightarrow> P (fst (m s))) \<Longrightarrow> keeps P m"
  by (simp add: keeps_def)

lemma keeps_andThen: "keeps P m \<Longrightarrow> (\<And>a. keeps P (f a)) \<Longrightarrow> keeps P (andThen m f)"
  by (auto simp: keeps_def andThen_def split: prod.splits sum.splits)

lemma keeps_guard [simp]: "keeps P (guard p e)"
  by (simp add: keeps_def guard_def)

lemma keeps_done [simp]: "keeps P (\<lambda>s. (s, r))"
  by (simp add: keeps_def)

lemma andThen_Inr: "andThen m f s = (s', Inr b) \<longleftrightarrow> (\<exists>s1 a. m s = (s1, Inr a) \<and> f a s1 = (s', Inr b))"
  by (auto simp: andThen_def split: prod.splits sum.splits)

lemma guard_Inr [simp]: "guard p e s = (s', Inr u) \<longleftrightarrow> p \<and> s' = s"
  by (auto simp: guard_def)

lemma storage_call_Inr: "storage_call call stop x = (y, Inr a) \<Longrightarrow> call (rn_store x) = (rn_store y, Some a) \<and> rn_bytes y = rn_bytes x \<and> rn_sha y = rn_sha x"
  by (auto simp: storage_call_def split: prod.splits if_splits option.splits)

section \<open>The connection\<close>

text \<open>The run knows what its session holds.\<close>

definition agrees :: "'st run_state \<Rightarrow> bool" where
  "agrees s \<longleftrightarrow> rn_session s = \<lparr>sv_backup_lock = rn_backup_lock s, sv_migration_lock = rn_migration_lock s, sv_transaction = rn_transaction s\<rparr>"

lemma agrees_start: "agrees (start_state st)"
  by (simp add: agrees_def start_state_def fresh_session_def)

lemma agrees_storage_call: "keeps agrees (storage_call call stop)"
  by (auto simp: keeps_def storage_call_def agrees_def split: prod.splits)

lemma agrees_stages:
  "keeps agrees (preflight io)" "keeps agrees (take_backup_lock io)" "keeps agrees (take_migration_lock io)" "keeps agrees (open_snapshot io)"
  "keeps agrees (read_ledger io)" "keeps agrees (createUploadWithCancellation so io)" "keeps agrees (run_pipeline so io u)" "keeps agrees (close_snapshot io)"
  by (auto intro!: keepsI simp: agrees_def preflight_def take_backup_lock_def take_migration_lock_def open_snapshot_def read_ledger_def
      createUploadWithCancellation_def run_pipeline_def close_snapshot_def Let_def split: sum.splits prod.splits option.splits)

lemma agrees_secure: "keeps agrees (secure_archive sha cfg so io u)"
  unfolding secure_archive_def by (intro keeps_andThen agrees_storage_call keeps_guard keeps_done)

lemma agrees_finish: "keeps agrees (finish_archive sha cfg so io u)"
  using agrees_secure [of sha cfg so io u] by (auto simp: finish_archive_def keeps_def agrees_def split: option.splits)

lemma agrees_publish: "keeps agrees (publish_manifest sha cfg so io bytes)"
  unfolding publish_manifest_def by (intro keeps_andThen agrees_storage_call keeps_guard)

lemma agrees_produce: "keeps agrees (produce sha json cfg so io)"
  unfolding produce_def by (intro keeps_andThen agrees_stages agrees_finish agrees_publish) (auto split: prod.splits intro: agrees_publish)

lemma lost_mono: "lost io k \<Longrightarrow> k \<le> n \<Longrightarrow> lost io n"
  by (auto simp: lost_def split: option.splits)

text \<open>
  C36. A connection goes back to the pool only with a clean session: whatever went wrong, it holds
  neither advisory lock and has no open transaction; in every other case it is discarded.
\<close>

theorem client_returned_clean:
  assumes "runBackupOnce sha json cfg so io st = Some e" and "be_client e = ReturnedToPool sv"
  shows "sv = fresh_session"
proof -
  obtain s r where p: "produce sha json cfg so io (start_state st) = (s, r)" by force
  let ?s1 = "cleanup_client io s"
  have a: "agrees s" using agrees_produce [of sha json cfg so io] agrees_start [of st] p by (auto simp: keeps_def)
  have c: "rn_client ?s1" "\<not> lost io 4" "\<not> rn_discard ?s1" "sv = rn_session ?s1"
    using assms p by (auto simp: runBackupOnce_def Let_def release_client_def split: if_splits)
  have l: "\<not> lost io 1" "\<not> lost io 2" "\<not> lost io 3" using c(2) lost_mono [of io 1 4] lost_mono [of io 2 4] lost_mono [of io 3 4] by auto
  have "agrees ?s1 \<and> \<not> rn_backup_lock ?s1 \<and> \<not> rn_migration_lock ?s1 \<and> \<not> rn_transaction ?s1"
    using a c l by (auto simp: cleanup_client_def cleanup_backup_lock_def cleanup_migration_lock_def cleanup_transaction_def agrees_def
        note_cleanup_def split: if_splits sum.splits)
  then show ?thesis using c(4) by (simp add: agrees_def fresh_session_def)
qed

section \<open>The storage\<close>

context immutable_store
begin

lemma stored_call:
  assumes "\<And>st. stored st k = Some b \<Longrightarrow> stored (fst (call st)) k = Some b"
  shows "keeps (\<lambda>s. stored (rn_store s) k = Some b) (storage_call call stop)"
  using assms by (auto simp: keeps_def storage_call_def split: prod.splits) (metis fst_conv)

lemma stored_quiet:
  "keeps (\<lambda>s. stored (rn_store s) k = Some b) (preflight io)" "keeps (\<lambda>s. stored (rn_store s) k = Some b) (take_backup_lock io)"
  "keeps (\<lambda>s. stored (rn_store s) k = Some b) (take_migration_lock io)" "keeps (\<lambda>s. stored (rn_store s) k = Some b) (open_snapshot io)"
  "keeps (\<lambda>s. stored (rn_store s) k = Some b) (read_ledger io)" "keeps (\<lambda>s. stored (rn_store s) k = Some b) (close_snapshot io)"
  by (auto intro!: keepsI simp: preflight_def take_backup_lock_def take_migration_lock_def open_snapshot_def read_ledger_def
      close_snapshot_def Let_def split: sum.splits prod.splits option.splits)

lemma stored_create: "keeps (\<lambda>s. stored (rn_store s) k = Some b) (createUploadWithCancellation so io)"
proof (rule keepsI)
  fix s :: "'st run_state"
  assume s: "stored (rn_store s) k = Some b"
  obtain st1 r where c: "so_create so (bi_create io) (archive_key (bi_run io)) (js ''application/octet-stream'') (rn_store s) = (st1, r)" by force
  have "stored st1 k = Some b" using create_keeps [OF s, of "bi_create io" "archive_key (bi_run io)" "js ''application/octet-stream''"] c by simp
  then show "stored (rn_store (fst (createUploadWithCancellation so io s))) k = Some b"
    using c abort_keeps by (auto simp: createUploadWithCancellation_def split: option.splits)
qed

lemma stored_pipeline: "keeps (\<lambda>s. stored (rn_store s) k = Some b) (run_pipeline so io u)"
  using feed_keeps by (auto intro!: keepsI simp: run_pipeline_def Let_def split: sum.splits)

lemma stored_secure: "keeps (\<lambda>s. stored (rn_store s) k = Some b) (secure_archive sha cfg so io u)"
  unfolding secure_archive_def by (intro keeps_andThen keeps_guard keeps_done stored_call finalize_keeps verify_keeps)

lemma stored_finish: "keeps (\<lambda>s. stored (rn_store s) k = Some b) (finish_archive sha cfg so io u)"
  using stored_secure [of k b cfg io u] by (auto simp: finish_archive_def keeps_def split: option.splits)

lemma stored_publish: "keeps (\<lambda>s. stored (rn_store s) k = Some b) (publish_manifest sha cfg so io bytes)"
  unfolding publish_manifest_def by (intro keeps_andThen keeps_guard stored_call publish_keeps verify_keeps)

lemma stored_produce: "keeps (\<lambda>s. stored (rn_store s) k = Some b) (produce sha json cfg so io)"
  unfolding produce_def
  by (intro keeps_andThen stored_quiet stored_create stored_pipeline stored_finish) (auto split: prod.splits intro: stored_publish)

lemma cleanup_client_store [simp]: "rn_store (cleanup_client io s) = rn_store s"
  by (auto simp: cleanup_client_def cleanup_backup_lock_def cleanup_migration_lock_def cleanup_transaction_def note_cleanup_def
      split: if_splits sum.splits)

lemma cleanup_upload_stored: "stored (rn_store s) k = Some b \<Longrightarrow> stored (rn_store (cleanup_upload so res s)) k = Some b"
  using abort_keeps [of "rn_store s" k b] by (auto simp: cleanup_upload_def note_cleanup_def split: option.splits prod.splits bool.splits) (metis fst_conv)+

lemma run_keeps_objects:
  assumes "runBackupOnce sha json cfg so io st = Some e" "stored st k = Some b"
  shows "stored (be_store e) k = Some b"
proof -
  obtain s r where p: "produce sha json cfg so io (start_state st) = (s, r)" by force
  have "stored (rn_store (start_state st)) k = Some b" using assms(2) by (simp add: start_state_def)
  then have "stored (rn_store s) k = Some b" using stored_produce [of k b json cfg io] p by (auto simp: keeps_def)
  then show ?thesis using assms(1) p cleanup_upload_stored by (auto simp: runBackupOnce_def Let_def split: if_splits)
qed

lemma secure_stored:
  assumes "secure_archive sha cfg so io u s = (s', Inr (oid, g))"
  shows "\<exists>b. stored (rn_store s') (archive_key (bi_run io)) = Some b \<and> length b = length (bi_cipher io) \<and> sha b = sha (bi_cipher io)"
    and "rn_bytes s' = rn_bytes s" "rn_sha s' = rn_sha s"
proof -
  note c = storage_call_Inr
  obtain s1 where f: "storage_call (so_finalize so (bi_finalize io) u) (bi_stop io 5) s = (s1, Inr oid)"
    and r: "right_identity cfg (archive_key (bi_run io)) oid"
    and v: "storage_call (so_verify so (bi_verify io) oid) (bi_stop io 6) s1 = (s', Inr g)"
    and g: "right_integrity oid (int (length (bi_cipher io))) (sha (bi_cipher io)) g"
    using assms by (auto simp: secure_archive_def andThen_Inr)
  show "\<exists>b. stored (rn_store s') (archive_key (bi_run io)) = Some b \<and> length b = length (bi_cipher io) \<and> sha b = sha (bi_cipher io)"
    using verify_sound [of "bi_verify io" oid "rn_store s1" "rn_store s'" g] c [OF v] g r
    by (auto simp: right_integrity_def right_identity_def)
  show "rn_bytes s' = rn_bytes s" "rn_sha s' = rn_sha s" using c [OF f] c [OF v] by simp_all
qed

lemma publish_stored_manifest:
  assumes "publish_manifest sha cfg so io bytes s = (s', Inr u)"
  shows "stored (rn_store s') (manifest_key (bi_run io)) = Some bytes" and "rn_bytes s' = rn_bytes s" "rn_sha s' = rn_sha s"
proof -
  note c = storage_call_Inr
  obtain s1 oid g where p: "storage_call (so_publish so (bi_publish io) (manifest_key (bi_run io)) bytes) (bi_stop io 7) s = (s1, Inr oid)"
    and v: "storage_call (so_verify so (bi_verify_manifest io) oid) (bi_stop io 8) s1 = (s', Inr g)"
    using assms by (auto simp: publish_manifest_def andThen_Inr)
  have "stored (rn_store s1) (manifest_key (bi_run io)) = Some bytes" using publish_sound c [OF p] by blast
  then show "stored (rn_store s') (manifest_key (bi_run io)) = Some bytes"
    using verify_keeps [of "rn_store s1" "manifest_key (bi_run io)" bytes "bi_verify_manifest io" oid] c [OF v] by simp
  show "rn_bytes s' = rn_bytes s" "rn_sha s' = rn_sha s" using c [OF p] c [OF v] by simp_all
qed

lemma produce_stored:
  assumes "produce sha json cfg so io s0 = (s, Inr u)"
  shows "\<exists>b dump_version snap rows oid g. stored (rn_store s) (archive_key (bi_run io)) = Some b \<and> length b = length (bi_cipher io) \<and>
      sha b = sha (bi_cipher io) \<and>
      stored (rn_store s) (manifest_key (bi_run io)) = Some (json (manifest_value cfg io sha dump_version snap rows oid g)) \<and>
      rn_bytes s = Some (int (length b)) \<and> rn_sha s = Some (sha b)"
proof -
  obtain dump_version snap rows v s1 s2 oid g where f: "finish_archive sha cfg so io v s1 = (s2, Inr (oid, g))"
    and p: "publish_manifest sha cfg so io (json (manifest_value cfg io sha dump_version snap rows oid g)) s2 = (s, Inr u)"
    using assms by (auto simp: produce_def andThen_Inr)
  obtain s3 where sec: "secure_archive sha cfg so io v s3 = (s2, Inr (oid, g))" "rn_bytes s3 = Some (int (length (bi_cipher io)))" "rn_sha s3 = Some (sha (bi_cipher io))"
    using f by (auto simp: finish_archive_def split: if_splits option.splits)
  obtain b where b: "stored (rn_store s2) (archive_key (bi_run io)) = Some b" "length b = length (bi_cipher io)" "sha b = sha (bi_cipher io)"
    using secure_stored(1) [OF sec(1)] by blast
  have "stored (rn_store s) (archive_key (bi_run io)) = Some b"
    using stored_publish [of "archive_key (bi_run io)" b cfg io "json (manifest_value cfg io sha dump_version snap rows oid g)"] b(1) p
    by (auto simp: keeps_def)
  then show ?thesis using b publish_stored_manifest [OF p] secure_stored(2,3) [OF sec(1)] sec(2,3) by metis
qed

end

section \<open>What is thrown\<close>

definition throws :: "('e \<Rightarrow> bool) \<Rightarrow> ('s, 'e, 'a) step \<Rightarrow> bool" where
  "throws ok m \<longleftrightarrow> (\<forall>s s' e. m s = (s', Inl e) \<longrightarrow> ok e)"

lemma throws_andThen: "throws ok m \<Longrightarrow> (\<And>a. throws ok (f a)) \<Longrightarrow> throws ok (andThen m f)"
  by (fastforce simp: throws_def andThen_def split: prod.splits sum.splits)

lemma throws_guard: "ok e \<Longrightarrow> throws ok (guard p e)"
  by (auto simp: throws_def guard_def)

lemma throws_done [simp]: "throws ok (\<lambda>s. (s, Inr a))"
  by (simp add: throws_def)

fun documented :: "failure \<Rightarrow> bool" where
  "documented (BackupFailure reason pre) = reason_text reason"
| "documented (BackupOutcome st ec reason) = ((st = SkippedOverlapping \<and> ec = 10 \<or> st = BlockedByMigration \<and> ec = 11) \<and> reason_text reason)"
| "documented (FailedQuery c) = True"

lemmas reason_defs = reason_text_def repeat_in_def js_def is_lower_def is_digit_def

lemma throws_call: "throws documented (storage_call call stop)"
  by (auto simp: throws_def storage_call_def split: prod.splits if_splits option.splits)

lemma throws_stages:
  "throws documented (take_backup_lock io)" "throws documented (take_migration_lock io)" "throws documented (open_snapshot io)"
  "throws documented (read_ledger io)" "throws documented (createUploadWithCancellation so io)" "throws documented (run_pipeline so io u)"
  "throws documented (close_snapshot io)" "throws documented (preflight io)"
  by (auto simp: throws_def preflight_def preflightTools_def toolVersion_def createPgpass_def take_backup_lock_def take_migration_lock_def
      open_snapshot_def read_ledger_def createUploadWithCancellation_def run_pipeline_def close_snapshot_def Let_def reason_defs
      split: sum.splits prod.splits option.splits if_splits)

lemma throws_secure: "throws documented (secure_archive sha cfg so io u)"
  unfolding secure_archive_def by (intro throws_andThen throws_call throws_guard throws_done) (simp_all add: reason_defs)

lemma throws_finish: "throws documented (finish_archive sha cfg so io u)"
  using throws_secure [of sha cfg so io u] by (auto simp: throws_def finish_archive_def reason_defs split: option.splits if_splits)

lemma throws_publish: "throws documented (publish_manifest sha cfg so io bytes)"
  unfolding publish_manifest_def by (intro throws_andThen throws_call throws_guard) (simp_all add: reason_defs)

lemma throws_produce: "throws documented (produce sha json cfg so io)"
  unfolding produce_def by (intro throws_andThen throws_stages throws_finish throws_publish) (auto split: prod.splits intro: throws_publish)

text \<open>The parts of a run, with what its stages may throw.\<close>

lemma run_parts:
  assumes "runBackupOnce sha json cfg so io st = Some e"
  obtains s r where "produce sha json cfg so io (start_state st) = (s, r)" "\<And>x. r = Inl x \<Longrightarrow> documented x" "run_id_text (bi_run io)"
    "be_store e = rn_store (cleanup_upload so (outcome_of cfg io s r) (cleanup_client io s))"
    "be_result e = final_result cfg io (cleanup_upload so (outcome_of cfg io s r) (cleanup_client io s)) (outcome_of cfg io s r)"
proof -
  obtain s r where p: "produce sha json cfg so io (start_state st) = (s, r)" by force
  have "documented x" if "r = Inl x" for x using throws_produce [of sha json cfg so io] p that unfolding throws_def by blast
  then show thesis using that [OF p] assms p by (auto simp: runBackupOnce_def Let_def split: if_splits)
qed

lemma outcome_complete: "(\<And>x. r = Inl x \<Longrightarrow> documented x) \<Longrightarrow> b_state (outcome_of cfg io s r) = BackupComplete \<longleftrightarrow> r = Inr ()"
proof (cases r)
  case (Inl x)
  assume "\<And>x. r = Inl x \<Longrightarrow> documented x"
  then have "documented x" using Inl by simp
  then show ?thesis using Inl by (cases x) (auto simp: outcome_of_def makeResult_def)
qed (simp add: outcome_of_def makeResult_def)

section \<open>Properties of the storage\<close>

text \<open>
  C37. A backup that reports complete is in the storage: the archive object has the size and the
  checksum of the result, and the manifest object is the manifest of this run with that size and
  checksum.
\<close>

theorem complete_backup_stored:
  assumes "runBackupOnce sha json cfg (fake_storage sha ns) io st = Some e" and "b_state (be_result e) = BackupComplete"
  shows "\<exists>b dump_version snap rows oid g. fk_objects (be_store e) (archive_key (bi_run io)) = Some b \<and>
    b_bytes (be_result e) = Some (int (length b)) \<and> b_sha (be_result e) = Some (sha b) \<and>
    length b = length (bi_cipher io) \<and> sha b = sha (bi_cipher io) \<and> b_manifest (be_result e) = Some (manifest_key (bi_run io)) \<and>
    fk_objects (be_store e) (manifest_key (bi_run io)) = Some (json (manifest_value cfg io sha dump_version snap rows oid g))"
  using assms(1)
proof (rule run_parts)
  fix s :: "fake_store run_state" and r
  let ?res = "outcome_of cfg io s r" and ?so = "fake_storage sha ns"
  let ?s2 = "cleanup_upload ?so ?res (cleanup_client io s)"
  assume p: "produce sha json cfg ?so io (start_state st) = (s, r)" and d: "\<And>x. r = Inl x \<Longrightarrow> documented x"
    and e: "be_store e = rn_store ?s2" "be_result e = final_result cfg io ?s2 ?res"
  have c: "be_result e = ?res" "b_state ?res = BackupComplete"
    using assms(2) e(2) by (auto simp: final_result_def makeResult_def split: option.splits if_splits)
  then have r: "r = Inr ()" using outcome_complete [of r cfg io s] d by blast
  have st: "rn_store ?s2 = rn_store s" using c(2) by (auto simp: cleanup_upload_def split: option.splits)
  have f: "b_bytes (be_result e) = rn_bytes s" "b_sha (be_result e) = rn_sha s" "b_manifest (be_result e) = Some (manifest_key (bi_run io))"
    using c(1) r by (simp_all add: outcome_of_def makeResult_def)
  show ?thesis using local_store.produce_stored [OF p [unfolded r]] unfolding e(1) st f by blast
qed

text \<open>
  C38. A backup, however it ends, changes and removes no object that was in the storage before.
\<close>

theorem backup_keeps_objects:
  assumes "runBackupOnce sha json cfg (fake_storage sha ns) io st = Some e" and "fk_objects st key = Some b"
  shows "fk_objects (be_store e) key = Some b"
  using local_store.run_keeps_objects [OF assms] .

text \<open>
  C39. State and exit code go together, a manifest is named exactly by a complete result, and a
  complete result has no cleanup error.
\<close>

theorem backup_exit_codes:
  fixes so :: "('i, 'st) storage"
  assumes "runBackupOnce sha json cfg so io st = Some e"
  shows "(b_state (be_result e), b_exit (be_result e)) \<in> {(BackupComplete, 0), (SkippedOverlapping, 10), (BlockedByMigration, 11),
      (PreflightRejected, 2), (Incomplete, 1)} \<and>
    (b_manifest (be_result e) \<noteq> None \<longleftrightarrow> b_state (be_result e) = BackupComplete) \<and>
    (b_cleanup (be_result e) \<noteq> None \<longrightarrow> b_state (be_result e) \<noteq> BackupComplete)"
  using assms
proof (rule run_parts)
  fix s :: "'st run_state" and r
  let ?res = "outcome_of cfg io s r"
  assume d: "\<And>x. r = Inl x \<Longrightarrow> documented x"
    and e: "be_result e = final_result cfg io (cleanup_upload so ?res (cleanup_client io s)) ?res"
  have "(b_state ?res, b_exit ?res) \<in> {(BackupComplete, 0), (SkippedOverlapping, 10), (BlockedByMigration, 11), (PreflightRejected, 2), (Incomplete, 1)} \<and>
      (b_manifest ?res \<noteq> None \<longleftrightarrow> b_state ?res = BackupComplete) \<and> b_cleanup ?res = None"
    using d by (cases r) (auto simp: outcome_of_def makeResult_def split: failure.splits)
  then show ?thesis using e by (auto simp: final_result_def makeResult_def split: option.splits)
qed

section \<open>A run that goes through\<close>

definition good_fo :: fake_io where
  "good_fo = \<lparr>fo_stop = (\<lambda>_. False), fo_dirs = True, fo_written = True, fo_link = True, fo_removed = True, fo_version = [118]\<rparr>"

definition demo_run_id :: jsstring where
  "demo_run_id = js ''aaaaaaaaaaaaaaaa''"

definition demo_backup_io :: "fake_io backup_io" where
  "demo_backup_io = \<lparr>bi_run = demo_run_id, bi_started = toISOString 0, bi_duration = Fin 5, bi_age_output = Some (js ''v1.3.2''),
     bi_dump_output = Some (js ''pg_dump 16.4''), bi_pgpass = None, bi_pooled = True, bi_backup_lock = Inr (Some True),
     bi_migration_lock = Inr (Some True), bi_server = Inr (Some (Fin 160000)), bi_settings = Inr (), bi_begin = Inr (),
     bi_snapshot = Inr (Some \<lparr>sn_id = [115], sn_started = toISOString 0, sn_server = [49], sn_postgis = [50]\<rparr>), bi_snapshot_late = False,
     bi_ledger = Inr [], bi_ledger_late = False, bi_create = good_fo, bi_cipher = [7], bi_dump = Inr 0, bi_dump_late = False,
     bi_commit = Inr (), bi_unlock_early = Inr (Some True), bi_age = Some 0, bi_finalize = good_fo, bi_verify = good_fo,
     bi_publish = good_fo, bi_verify_manifest = good_fo, bi_times = (\<lambda>_. toISOString 0), bi_stop = (\<lambda>_. False), bi_stopped = False,
     bi_timed_out = False, bi_lost = None, bi_rollback = Inr (), bi_unlock_migration = Inr (Some True), bi_unlock_backup = Inr (Some True)\<rparr>"

definition demo_backup_config :: backup_config where
  "demo_backup_config = \<lparr>cf_namespace = [110], cf_database = [100], cf_recipient = js ''sha256:'' @ replicate 64 97, cf_build = js ''abcdef0''\<rparr>"

definition demo_sha :: "buffer \<Rightarrow> jsstring" where
  "demo_sha b = replicate 64 97"

definition empty_store :: fake_store where
  "empty_store = \<lparr>fk_uploads = [], fk_objects = (\<lambda>k. if k = [1] then Some [2] else None), fk_versions = (\<lambda>_. None)\<rparr>"

lemma demo_keys: "valid_object_key (archive_key demo_run_id)" "valid_object_key (manifest_key demo_run_id)"
    "archive_key demo_run_id \<noteq> manifest_key demo_run_id" "archive_key demo_run_id \<noteq> [1]" "manifest_key demo_run_id \<noteq> [1]"
  by (simp_all add: valid_object_key_def archive_key_def manifest_key_def demo_run_id_def js_def key_char_def is_lower_def is_digit_def)

lemma iso_nonempty: "toISOString t \<noteq> []"
  by (simp add: toISOString_def Let_def)

lemma demo_produced: "\<exists>s. produce demo_sha (\<lambda>_. [3]) demo_backup_config (fake_storage demo_sha [110]) demo_backup_io (start_state empty_store) = (s, Inr ()) \<and>
    rn_session s = fresh_session\<lparr>sv_backup_lock := True\<rparr> \<and> rn_client s \<and> rn_backup_lock s \<and> \<not> rn_migration_lock s \<and> \<not> rn_transaction s \<and>
    \<not> rn_discard s \<and> rn_cleanup s = None"
  using demo_keys iso_nonempty [of 0]
  by (simp add: fake_storage_def createImmutableObject_def good_fo_def empty_store_def write_upload_def change_upload_def finalize_upload_def
      link_upload_def verifyExactObject_def publishManifestCreateOnly_def right_identity_def right_integrity_def demo_backup_config_def
      produce_def andThen_def preflight_def preflightTools_def toolVersion_def createPgpass_def take_backup_lock_def take_migration_lock_def
      open_snapshot_def read_ledger_def createUploadWithCancellation_def run_pipeline_def close_snapshot_def finish_archive_def secure_archive_def
      publish_manifest_def storage_call_def guard_def demo_backup_io_def start_state_def fresh_session_def Let_def server_is_16_def unlock_ok_def
      js_trim_def trim_both_def js_ws_def js_def word_char_def is_lower_def is_upper_def is_digit_def)

abbreviation demo_backup :: "fake_store backup_end option" where
  "demo_backup \<equiv> runBackupOnce demo_sha (\<lambda>_. [3]) demo_backup_config (fake_storage demo_sha [110]) demo_backup_io empty_store"

lemma demo_run_text: "run_id_text demo_run_id"
  by (simp add: run_id_text_def repeat_in_def demo_run_id_def js_def is_hex_ci_def is_hex_lower_def is_digit_def)

lemma demo_ended: "\<exists>e. demo_backup = Some e \<and> be_client e = ReturnedToPool fresh_session \<and> b_state (be_result e) = BackupComplete"
proof -
  obtain s where p: "produce demo_sha (\<lambda>_. [3]) demo_backup_config (fake_storage demo_sha [110]) demo_backup_io (start_state empty_store) = (s, Inr ())"
    and s: "rn_session s = fresh_session\<lparr>sv_backup_lock := True\<rparr>" "rn_client s" "rn_backup_lock s" "\<not> rn_migration_lock s" "\<not> rn_transaction s"
      "\<not> rn_discard s" "rn_cleanup s = None" using demo_produced by blast
  have l: "\<not> lost demo_backup_io k" "unlock_ok (bi_unlock_backup demo_backup_io)" "run_id_text (bi_run demo_backup_io)" for k
    by (simp_all add: lost_def demo_backup_io_def unlock_ok_def demo_run_text)
  have "cleanup_client demo_backup_io s = s\<lparr>rn_session := fresh_session, rn_backup_lock := False\<rparr>"
    using s l by (simp add: cleanup_client_def cleanup_transaction_def cleanup_migration_lock_def cleanup_backup_lock_def fresh_session_def)
  then show ?thesis using p s l
    by (simp add: runBackupOnce_def Let_def release_client_def outcome_of_def makeResult_def cleanup_upload_def final_result_def split: option.splits)
qed

theorem client_returned_clean_witness:
  "\<exists>e sv. demo_backup = Some e \<and> be_client e = ReturnedToPool sv \<and> sv = fresh_session"
  using demo_ended client_returned_clean by blast

theorem complete_backup_stored_witness:
  "\<exists>e b. demo_backup = Some e \<and> fk_objects (be_store e) (archive_key demo_run_id) = Some b \<and> b_bytes (be_result e) = Some (int (length b)) \<and>
    length b = 1"
proof -
  obtain e where e: "demo_backup = Some e" "b_state (be_result e) = BackupComplete" using demo_ended by blast
  show ?thesis using complete_backup_stored [OF e] e(1) by (auto simp: demo_backup_io_def)
qed

theorem backup_keeps_objects_witness:
  "\<exists>e. demo_backup = Some e \<and> fk_objects (be_store e) [1] = Some [2]"
  using demo_ended backup_keeps_objects [of demo_sha "\<lambda>_. [3]" demo_backup_config "[110]" demo_backup_io empty_store _ "[1]" "[2]"]
  by (auto simp: empty_store_def)

theorem backup_exit_codes_witness:
  "\<exists>e. demo_backup = Some e \<and> b_manifest (be_result e) \<noteq> None"
proof -
  obtain e where e: "demo_backup = Some e" "b_state (be_result e) = BackupComplete" using demo_ended by blast
  show ?thesis using backup_exit_codes [OF e(1)] e by auto
qed

section \<open>The journal accepts the result\<close>

text \<open>What a run has recorded so far is fit for the journal.\<close>

definition recorded :: "'st run_state \<Rightarrow> bool" where
  "recorded s \<longleftrightarrow> if_present isUtcTimestamp (rn_snapshot s) \<and>
     if_present (\<lambda>rows. length rows \<le> 256 \<and> list_all valid_ledger_row rows) (rn_ledger s) \<and>
     if_present (\<lambda>n. safe_int n \<and> 0 < n) (rn_bytes s) \<and> if_present isSha256 (rn_sha s) \<and> if_present reason_text (rn_cleanup s)"







lemma recorded_fields [simp]:
  "recorded (s\<lparr>rn_session := x, rn_transaction := b\<rparr>) = recorded s" "recorded (s\<lparr>rn_session := x, rn_migration_lock := b\<rparr>) = recorded s"
  "recorded (s\<lparr>rn_session := x, rn_backup_lock := b\<rparr>) = recorded s" "recorded (s\<lparr>rn_discard := b\<rparr>) = recorded s"
  "recorded (s\<lparr>rn_store := st\<rparr>) = recorded s"
  by (simp_all add: recorded_def)











end
