(* ===== verification/Spec2Isabelle.thy ===== *)
theory Spec2Isabelle
  imports SubmissionProperties AdminSessionProperties EmailProperties AdmissionProperties AddressProperties AddressRouteProperties LightAdminProperties RequestBoundary ImportProperties ImportQueries SchedulerProperties RetentionProperties BackupProperties
begin

text \<open>
  \<^bold>\<open>Verification development of the public lighting fault reporting service.\<close>

  The repository is a TypeScript service through which citizens of Kosice report broken street lights,
  with an administration, a database of light points and a set of database operations.  This
  development models the parts of the backend, below \<^verbatim>\<open>src/backend/src/\<close>, that decide something: who has
  proved an e-mail address, which requests reach the paid address provider and what is shown and
  stored of its answers, which point of the map is in the service area, what an uploaded file does to
  the inventory of light points and what an export holds, and when and how a backup runs, what it stores and reports, and what the retention run deletes.

  \<^bold>\<open>The parts and how they interact.\<close>

  \<^item> \<^emph>\<open>E-mail verification.\<close>  The endpoints of \<^verbatim>\<open>routes/emailVerification.routes.ts\<close> call the service
    \<^verbatim>\<open>services/emailVerification.service.ts\<close>, which computes digests with
    \<^verbatim>\<open>services/emailVerificationCrypto.ts\<close> and keeps challenges and rate counters in the two tables of
    \<^verbatim>\<open>services/emailVerificationStore.ts\<close>.  A submission consumes the proof.
  \<^item> \<^emph>\<open>Address assistance.\<close>  \<^verbatim>\<open>routes/reportAddressSuggestion.routes.ts\<close> resolves the report target
    (\<^verbatim>\<open>domain/reportTarget.ts\<close>, \<^verbatim>\<open>domain/serviceArea.ts\<close>), answers from the address stored with a
    light point (\<^verbatim>\<open>services/lightPointAddressRepository.ts\<close>), otherwise charges the client
    (\<^verbatim>\<open>security/clientAddress.ts\<close>, \<^verbatim>\<open>security/addressIpLimiter.ts\<close>) and asks
    \<^verbatim>\<open>services/reportAddressSuggestion.service.ts\<close>, whose admission queue stands in front of
    \<^verbatim>\<open>providers/geoapifyAddressProvider.ts\<close>.  The address of a light point is stored once; that of a
    coordinate is handed out with a signature (\<^verbatim>\<open>services/reportAddressProof.ts\<close>).
  \<^item> \<^emph>\<open>Light-point import and export.\<close>  An upload (\<^verbatim>\<open>controllers/adminStreetLights.controller.ts\<close>) is parsed
    and stored as a preview by \<^verbatim>\<open>services/streetLightsImport.service.ts\<close>; once confirmed it waits for the
    worker of \<^verbatim>\<open>services/importQueueWorker.service.ts\<close>, which claims one batch at a time under a lease and
    writes its rows to the inventory in bounded groups.  \<^verbatim>\<open>services/streetLightsExport.service.ts\<close> streams
    the inventory under the filters of \<^verbatim>\<open>services/adminStreetLightsFilters.ts\<close>.
  \<^item> \<^emph>\<open>Operations.\<close>  \<^verbatim>\<open>operations/scheduler.ts\<close> runs \<^verbatim>\<open>backup/runner.ts\<close> at most twice for each of the
    daily slots, recording every attempt in the journal of \<^verbatim>\<open>operations/fileSchedulerJournal.ts\<close>, whose
    records hold results checked by \<^verbatim>\<open>operations/fileEvidence.ts\<close>.  The runner writes to the storage of
    \<^verbatim>\<open>backup/storage.ts\<close>.  \<^verbatim>\<open>operations/retention.ts\<close> deletes what is past its date under the same lock.

  \<^bold>\<open>The theories.\<close>

  \<^item> \<^verbatim>\<open>JsPrelude\<close>, \<^verbatim>\<open>JsValue\<close>: JavaScript strings as lists of UTF-16 code units, \<^verbatim>\<open>trim\<close>, character
    classes of the regular expressions, JSON values and numbers, error responses, \<^verbatim>\<open>UPDATE\<close> and bounded
    \<^verbatim>\<open>DELETE\<close> of a table; the log of a run (\<open>run_log\<close>) and the locale \<open>invariant_system\<close>.
  \<^item> \<^verbatim>\<open>EmailCrypto\<close>, \<^verbatim>\<open>EmailStore\<close>, \<^verbatim>\<open>EmailService\<close>: the three files named above, function by function
    under the source's names; a row of \<^verbatim>\<open>email_verification_challenges\<close> is the record \<open>challenge\<close>, a
    guarded statement is a guard and an assignment (\<open>attempt_guard\<close>, \<open>attempt_assign\<close> and so on),
    \<open>db_transaction\<close> rolls back.  \<^verbatim>\<open>EmailStoreSafety\<close> has the abstract store \<open>spec_step\<close>, the invariants and
    the budgets of guesses, resends and consumptions; \<^verbatim>\<open>EmailContract\<close> the contract between service and
    store.  \<^verbatim>\<open>EmailProperties\<close>: C1 to C8.
  \<^item> \<^verbatim>\<open>AddressAdmission\<close>: class \<^verbatim>\<open>BoundedAdmissionController\<close>; its maps and queue are \<open>controller\<close>, each
    callback of the event loop is one operation, \<open>handle\<close> dispatches them.  \<^verbatim>\<open>AdmissionSafety\<close> and
    \<^verbatim>\<open>AdmissionRuns\<close> hold the locales for invariants of the pump and of the callbacks and their
    instances.  \<^verbatim>\<open>AdmissionProperties\<close>: C9 to C13.
  \<^item> \<^verbatim>\<open>AddressText\<close>, \<^verbatim>\<open>AddressProof\<close>, \<^verbatim>\<open>AddressService\<close>, \<^verbatim>\<open>ClientAddress\<close>, \<^verbatim>\<open>AddressLimiter\<close>: normal forms of
    addresses, signatures, the suggestion service and the provider's adapter, IP addresses and trusted
    proxies, token buckets.  \<^verbatim>\<open>AddressProperties\<close>: C14 to C18.
  \<^item> \<^verbatim>\<open>ServiceArea\<close>, \<^verbatim>\<open>ReportTarget\<close>, \<^verbatim>\<open>AddressRoutes\<close>: the boundary and its classifier, the resolution of
    report targets and the stored addresses (\<open>light_db\<close>), and the two request handlers.
    \<^verbatim>\<open>AddressRouteProperties\<close>: C19 to C22.
  \<^item> \<^verbatim>\<open>CsvRecords\<close>, \<^verbatim>\<open>LightInventory\<close>, \<^verbatim>\<open>ImportParsing\<close>, \<^verbatim>\<open>InventoryExport\<close>: the CSV reader and writer, the rows of
    \<^verbatim>\<open>light_points\<close> with what the table accepts, the parsers of uploaded files, the filters and the
    streamed export.  \<^verbatim>\<open>ImportStore\<close>: the tables of an import (\<open>import_db\<close>), the preview, the confirmation and
    the worker's statements and loops; \<^verbatim>\<open>ImportQueries\<close>: what the administration reads of them.
    \<^verbatim>\<open>ImportProgress\<close>, \<^verbatim>\<open>ImportPreviews\<close>, \<^verbatim>\<open>ImportRuns\<close>, \<^verbatim>\<open>ImportInvariant\<close>: the worker returns, duplicates are
    settled, the invariant \<open>import_wf\<close> and that every event keeps it.  \<^verbatim>\<open>ImportReference\<close>,
    \<^verbatim>\<open>ImportEquivalence\<close>: the row-by-row reference and the worker's steps along it.  \<^verbatim>\<open>ImportRestore\<close>: an
    export read into an empty system.  \<^verbatim>\<open>ImportProperties\<close>: C23 to C30.
  \<^item> \<^verbatim>\<open>Calendar\<close>, \<^verbatim>\<open>Timestamps\<close>: days, civil dates, \<^verbatim>\<open>toISOString\<close>, \<^verbatim>\<open>Date.parse\<close>, \<^verbatim>\<open>isUtcTimestamp\<close>.
  \<^item> \<^verbatim>\<open>Evidence\<close>, \<^verbatim>\<open>SchedulerJournal\<close>, \<^verbatim>\<open>Scheduler\<close>: the checked records, the journal file and its parser,
    the scheduler over any journal and the session lock (\<^verbatim>\<open>operations/advisoryLock.ts\<close>).
    \<^verbatim>\<open>SchedulerProperties\<close>: C31 to C33.
  \<^item> \<^verbatim>\<open>Retention\<close> and \<^verbatim>\<open>RetentionProperties\<close>: C34 and C35.
  \<^item> \<^verbatim>\<open>ObjectStore\<close>, \<^verbatim>\<open>BackupRunner\<close>: the storage and the runner's stages in the order of
    \<^verbatim>\<open>runBackupOnce\<close> (\<open>preflight\<close>, \<open>take_backup_lock\<close>, \<open>take_migration_lock\<close>, \<open>open_snapshot\<close>, \<open>read_ledger\<close>,
    \<open>run_pipeline\<close>, \<open>close_snapshot\<close>, \<open>finish_archive\<close>, \<open>publish_manifest\<close>, the classification of the
    failure and the cleanup).  \<^verbatim>\<open>BackupProperties\<close>: C36 to C40.

  \<^bold>\<open>Interfaces.\<close>  Each locale states what one part promises another and is interpreted on the model:
  \<open>invariant_system\<close> (a state and its log; e-mail store, limiter, scheduler over its file, import tables),
  \<open>email_store_contract\<close> (the service's store; PostgreSQL), \<open>pump_invariant\<close> and its extension
  \<open>callback_invariant\<close> (what every operation of the queue keeps; the one-answer invariant and the
  budget invariant), \<open>attempt_journal\<close> (the scheduler's journal; the file), \<open>immutable_store\<close> (the
  runner's storage; the local adapter).  The properties rest on the facts of the interpretations.

  \<^bold>\<open>What the lemmas show.\<close>  The e-mail store refines its abstract step relation, and counting along a run
  gives the bounds on guesses and uses; the service lemmas are proved from the contract alone.  The
  queue lemmas follow one operation at a time through a small set of moves (\<open>drop_entry\<close>, \<open>launch\<close>, \<open>leave\<close>
  and so on).  The address lemmas connect text and number readings (\<open>parseAddress\<close> with the printed
  form, base64url, JSON).  The calendar lemmas are the two round trips between days and civil dates.
  The import lemmas see a statement of the worker as rows settled with results (\<open>settle\<close>,
  \<open>advanced\<close>), from which the counters, the invariant and the agreement with the reference follow.
  The scheduler lemmas describe journals by the inductive set \<open>history\<close>.  The retention
  lemmas cover chunks, tables and the run, on each error path.  The backup lemmas are Hoare-style
  rules for the stages over the predicates \<open>keeps\<close>, \<open>agrees\<close> and \<open>throws\<close>.

  \<^bold>\<open>Outside code.\<close>  HMAC-SHA256, lower-casing, UTF-8 decoding, \<^verbatim>\<open>JSON.parse\<close>, number texts, Unicode normalization, pattern matches of
  the database, randomness, the mail provider, the geometry library, the
  rounding of doubles, the clock, the HTTP transport, child processes and their streams, and the
  answers of database connections are arguments.  Where a property needs something of them (a hash
  that does not collide on the inputs at hand, a monotone clock, a geometry that tells inside from
  outside), it is a named hypothesis with a witness.

  \<^bold>\<open>Bounds and fuel.\<close>  \<open>pump_loop\<close> is given one more than the length of the queue, and every iteration
  shortens it, so it always ends (\<open>pump_total\<close>).  \<open>cleanup_batches\<close> and \<open>processTable\<close> have the
  source's own bounds on batches and chunks.  \<open>year_search\<close> counts up from a lower estimate of the
  year and reaches the right one (\<open>year_search_in\<close>).  \<open>processBatch\<close>, the loop of the
  import worker, is a partial function and returns by C27; the export's loop over pages and the
  cursor of the row list have measures.  All other recursion is structural or has a measure (\<open>radix\<close>).  Integers of the database are checked against 32 bits where the source adds to them.

  \<^bold>\<open>Not modelled.\<close>  The user interface, the administration's other queries and pages, the fault report history, the restore of a backup, the migrations, monitoring and the
  wiring of processes; generated tables, scripts and configuration read from the environment (except
  the settings the models name).  Of the modelled files: the hooks for tests, log lines, and the
  permission checks of the files the operations write.

  \<^bold>\<open>Plan.\<close>  Next are the migrations and their ledger (\<^verbatim>\<open>db/migrate.ts\<close>), the controlled restore
  (\<^verbatim>\<open>operations/controlledRestore.ts\<close>), the administration's accounts and
  sessions, and the draft storage of the public application.
\<close>

end
